(* ===== verification/Prelude.thy ===== *)
theory Prelude
  imports Main "HOL-Library.Word"
begin

text \<open>
  The vocabulary the component theories share.

  Rust's \<open>Result<T, E>\<close> is the sum \<open>'e + 'a\<close> with \<open>Inl\<close> for the error. A Rust \<open>String\<close> or
  \<open>&str\<close> is a \<^typ>\<open>string\<close> whose characters are the bytes of its UTF-8 encoding, so
  \<open>length\<close> is \<open>str::len\<close> and a code point outside ASCII is a run of two to four characters.
  A \<open>u8\<close> buffer of the wire and WKB code is a list of \<open>8 word\<close>. Durations and monotonic
  instants are natural numbers of nanoseconds; truncated subtraction on \<^typ>\<open>nat\<close> is then
  exactly \<open>saturating_sub\<close>.
\<close>

section \<open>Names and collections\<close>

type_synonym byte = "8 word"
type_synonym u16 = "16 word"
type_synonym u32 = "32 word"
type_synonym u64 = "64 word"
type_synonym nanos = nat

named_theorems codec_simps \<open>lengths, inverses and splitting laws of the fixed-width codecs\<close>
named_theorems str_simps \<open>laws of the string searches\<close>

section \<open>Results\<close>

fun is_ok :: "'e + 'a \<Rightarrow> bool" where
  "is_ok (Inl _) = False"
| "is_ok (Inr _) = True"

lemma is_ok_iff: "is_ok r \<longleftrightarrow> (\<exists>x. r = Inr x)"
  by (cases r) auto

lemma not_is_ok_iff: "\<not> is_ok r \<longleftrightarrow> (\<exists>e. r = Inl e)"
  by (cases r) auto

section \<open>Fixed-width integers as bytes\<close>

text \<open>
  \<open>to_le_bytes\<close> and \<open>from_le_bytes\<close> of an \<open>n\<close>-byte integer, through the natural number it denotes.
\<close>

fun le_digits :: "nat \<Rightarrow> nat \<Rightarrow> byte list" where
  "le_digits 0 k = []"
| "le_digits (Suc n) k = word_of_nat k # le_digits n (k div 256)"

fun le_nat :: "byte list \<Rightarrow> nat" where
  "le_nat [] = 0"
| "le_nat (b # bs) = unat b + 256 * le_nat bs"

definition be_digits :: "nat \<Rightarrow> nat \<Rightarrow> byte list" where
  "be_digits n k = rev (le_digits n k)"

definition be_nat :: "byte list \<Rightarrow> nat" where
  "be_nat bs = le_nat (rev bs)"

lemma length_le_digits [simp, codec_simps]: "length (le_digits n k) = n"
  by (induction n arbitrary: k) auto

lemma length_be_digits [simp, codec_simps]: "length (be_digits n k) = n"
  by (simp add: be_digits_def)

lemma unat_byte_of_nat [simp]: "unat (word_of_nat k :: byte) = k mod 256"
  by (simp add: unat_of_nat)

lemma word_of_nat_unat: "word_of_nat (unat w) = (w :: 'a::len word)"
  by simp

lemma le_nat_le_digits: "le_nat (le_digits n k) = k mod 256 ^ n"
proof (induction n arbitrary: k)
  case 0
  then show ?case by simp
next
  case (Suc n)
  have "k mod 256 ^ Suc n = k mod 256 + 256 * (k div 256 mod 256 ^ n)"
    by (simp add: mod_mult2_eq)
  with Suc show ?case by simp
qed

lemma be_nat_be_digits: "be_nat (be_digits n k) = k mod 256 ^ n"
  by (simp add: be_nat_def be_digits_def le_nat_le_digits)

lemma le_nat_bound: "le_nat bs < 256 ^ length bs"
proof (induction bs)
  case Nil
  then show ?case by simp
next
  case (Cons b bs)
  have "unat b < 256" using unsigned_less [of b] by simp
  with Cons show ?case by simp
qed

lemma be_nat_bound: "be_nat bs < 256 ^ length bs"
  using le_nat_bound [of "rev bs"] by (simp add: be_nat_def)

lemma le_digits_le_nat: "le_digits (length bs) (le_nat bs) = bs"
proof (induction bs)
  case Nil
  then show ?case by simp
next
  case (Cons b bs)
  have b: "unat b < 256" using unsigned_less [of b] by simp
  have "unat (word_of_nat (unat b + 256 * le_nat bs) :: byte) = unat b"
    using b by (simp only: unat_byte_of_nat) simp
  then have "word_of_nat (unat b + 256 * le_nat bs) = b"
    by (simp only: word_unat_eq_iff)
  with b Cons show ?case by simp
qed

definition u16_to_be :: "u16 \<Rightarrow> byte list" where
  "u16_to_be w = be_digits 2 (unat w)"

definition u32_to_be :: "u32 \<Rightarrow> byte list" where
  "u32_to_be w = be_digits 4 (unat w)"

definition u32_to_le :: "u32 \<Rightarrow> byte list" where
  "u32_to_le w = le_digits 4 (unat w)"

definition u64_to_be :: "u64 \<Rightarrow> byte list" where
  "u64_to_be w = be_digits 8 (unat w)"

definition u64_to_le :: "u64 \<Rightarrow> byte list" where
  "u64_to_le w = le_digits 8 (unat w)"

definition u16_from_be :: "byte list \<Rightarrow> u16" where
  "u16_from_be bs = word_of_nat (be_nat bs)"

definition u32_from_be :: "byte list \<Rightarrow> u32" where
  "u32_from_be bs = word_of_nat (be_nat bs)"

definition u32_from_le :: "byte list \<Rightarrow> u32" where
  "u32_from_le bs = word_of_nat (le_nat bs)"

definition u64_from_be :: "byte list \<Rightarrow> u64" where
  "u64_from_be bs = word_of_nat (be_nat bs)"

definition u64_from_le :: "byte list \<Rightarrow> u64" where
  "u64_from_le bs = word_of_nat (le_nat bs)"

lemma length_int_bytes [simp, codec_simps]:
  "length (u16_to_be a) = 2" "length (u32_to_be b) = 4" "length (u32_to_le b) = 4"
  "length (u64_to_be c) = 8" "length (u64_to_le c) = 8"
  by (simp_all add: u16_to_be_def u32_to_be_def u32_to_le_def u64_to_be_def u64_to_le_def)

lemma int_bytes_inverse [simp, codec_simps]:
  "u16_from_be (u16_to_be a) = a" "u32_from_be (u32_to_be b) = b" "u32_from_le (u32_to_le b) = b"
  "u64_from_be (u64_to_be c) = c" "u64_from_le (u64_to_le c) = c"
proof -
  have "unat a < 256 ^ 2" "unat b < 256 ^ 4" "unat c < 256 ^ 8"
    using unsigned_less [of a] unsigned_less [of b] unsigned_less [of c] by simp_all
  then show "u16_from_be (u16_to_be a) = a" "u32_from_be (u32_to_be b) = b"
    "u32_from_le (u32_to_le b) = b" "u64_from_be (u64_to_be c) = c" "u64_from_le (u64_to_le c) = c"
    by (simp_all only: u16_from_be_def u16_to_be_def u32_from_be_def u32_to_be_def u32_from_le_def
        u32_to_le_def u64_from_be_def u64_to_be_def u64_from_le_def u64_to_le_def
        be_nat_be_digits le_nat_le_digits mod_less word_of_nat_unat)
qed

lemma unat_word_of_nat_small:
  "k < 2 ^ LENGTH('a) \<Longrightarrow> unat (word_of_nat k :: 'a::len word) = k"
  by (simp add: unat_of_nat take_bit_nat_eq_self)

lemma int_bytes_surj:
  "length bs = 4 \<Longrightarrow> u32_to_le (u32_from_le bs) = bs" "length bs = 4 \<Longrightarrow> u32_to_be (u32_from_be bs) = bs"
  "length bs = 8 \<Longrightarrow> u64_to_le (u64_from_le bs) = bs" "length bs = 8 \<Longrightarrow> u64_to_be (u64_from_be bs) = bs"
proof -
  have le: "length cs = n \<Longrightarrow> le_digits n (le_nat cs) = cs" for n and cs :: "byte list"
    using le_digits_le_nat [of cs] by simp
  have be: "length cs = n \<Longrightarrow> be_digits n (be_nat cs) = cs" for n and cs :: "byte list"
    using le [of "rev cs" n] by (simp add: be_digits_def be_nat_def)
  have bd: "length cs = 4 \<Longrightarrow> le_nat cs < 2 ^ 32" "length cs = 4 \<Longrightarrow> be_nat cs < 2 ^ 32"
    "length cs = 8 \<Longrightarrow> le_nat cs < 2 ^ 64" "length cs = 8 \<Longrightarrow> be_nat cs < 2 ^ 64" for cs
    using le_nat_bound [of cs] be_nat_bound [of cs] by simp_all
  show "length bs = 4 \<Longrightarrow> u32_to_le (u32_from_le bs) = bs" "length bs = 4 \<Longrightarrow> u32_to_be (u32_from_be bs) = bs"
    "length bs = 8 \<Longrightarrow> u64_to_le (u64_from_le bs) = bs" "length bs = 8 \<Longrightarrow> u64_to_be (u64_from_be bs) = bs"
    using bd [of bs] by (simp_all add: u32_to_le_def u32_from_le_def u32_to_be_def u32_from_be_def
        u64_to_le_def u64_from_le_def u64_to_be_def u64_from_be_def unat_word_of_nat_small le be
        del: power_numeral)
qed

text \<open>A slice read \<open>b.get(at..at + n)\<close>: \<open>None\<close> past the end.\<close>

definition get_slice :: "'a list \<Rightarrow> nat \<Rightarrow> nat \<Rightarrow> 'a list option" where
  "get_slice bs at n = (if at + n \<le> length bs then Some (take n (drop at bs)) else None)"

lemma get_slice_length: "get_slice bs at n = Some s \<Longrightarrow> length s = n"
  by (auto simp: get_slice_def split: if_splits)

lemma get_slice_append [simp, codec_simps]:
  "length s = n \<Longrightarrow> at = length pre \<Longrightarrow> get_slice (pre @ s @ post) at n = Some s"
  by (simp add: get_slice_def)

lemma get_slice_append_end [simp, codec_simps]:
  "length s = n \<Longrightarrow> at = length pre \<Longrightarrow> get_slice (pre @ s) at n = Some s"
  by (simp add: get_slice_def)

lemma get_slice_Some_iff:
  "get_slice bs at n = Some s \<longleftrightarrow> at + n \<le> length bs \<and> s = take n (drop at bs)"
  by (auto simp: get_slice_def)

end
