(* ===== verification/Rust_Str.thy ===== *)
theory Rust_Str
  imports Prelude
begin

text \<open>
  The operations of Rust's \<open>str\<close> and \<open>std::fmt\<close> that the modelled code calls, over UTF-8 bytes.
  Searching, splitting and prefix tests on UTF-8 text agree with the byte-wise ones; \<open>trim\<close> and
  \<open>char::is_control\<close> work on code points, so their byte patterns are written out.
\<close>

section \<open>Prefixes, searches and splitting\<close>

definition starts_with :: "'a list \<Rightarrow> 'a list \<Rightarrow> bool" where
  "starts_with s p \<longleftrightarrow> take (length p) s = p"

definition strip_prefix :: "'a list \<Rightarrow> 'a list \<Rightarrow> 'a list option" where
  "strip_prefix s p = (if starts_with s p then Some (drop (length p) s) else None)"

definition ends_with :: "'a list \<Rightarrow> 'a list \<Rightarrow> bool" where
  "ends_with s p \<longleftrightarrow> starts_with (rev s) (rev p)"

fun find_sub :: "'a list \<Rightarrow> 'a list \<Rightarrow> nat option" where
  "find_sub [] p = (if p = [] then Some 0 else None)"
| "find_sub (c # cs) p =
     (if starts_with (c # cs) p then Some 0 else map_option Suc (find_sub cs p))"

definition contains_sub :: "'a list \<Rightarrow> 'a list \<Rightarrow> bool" where
  "contains_sub s p \<longleftrightarrow> find_sub s p \<noteq> None"

fun split_on :: "'a \<Rightarrow> 'a list \<Rightarrow> 'a list list" where
  "split_on d [] = [[]]"
| "split_on d (c # cs) =
     (if c = d then [] # split_on d cs
      else (case split_on d cs of [] \<Rightarrow> [[c]] | w # ws \<Rightarrow> (c # w) # ws))"

fun join_with :: "'a list \<Rightarrow> 'a list list \<Rightarrow> 'a list" where
  "join_with sep [] = []"
| "join_with sep [w] = w"
| "join_with sep (w # v # ws) = w @ sep @ join_with sep (v # ws)"

text \<open>\<open>str::replace\<close> for a non-empty pattern, and for a single character.\<close>

function replace_all :: "'a list \<Rightarrow> 'a list \<Rightarrow> 'a list \<Rightarrow> 'a list" where
  "replace_all s p r =
     (if s = [] \<or> p = [] then s
      else if starts_with s p then r @ replace_all (drop (length p) s) p r
      else hd s # replace_all (tl s) p r)"
  by pat_completeness auto
termination
  by (relation "measure (\<lambda>(s, p, r). length s)") auto

declare replace_all.simps [simp del]

definition replace_char :: "char \<Rightarrow> char \<Rightarrow> string \<Rightarrow> string" where
  "replace_char a b s = map (\<lambda>c. if c = a then b else c) s"

lemma starts_with_append [simp, str_simps]: "starts_with (p @ s) p"
  by (simp add: starts_with_def)

lemma starts_with_Nil [simp]: "starts_with s []"
  by (simp add: starts_with_def)

lemma starts_with_iff: "starts_with s p \<longleftrightarrow> (\<exists>r. s = p @ r)"
  by (auto simp: starts_with_def) (metis append_take_drop_id)

lemma strip_prefix_Some_iff [str_simps]: "strip_prefix s p = Some r \<longleftrightarrow> s = p @ r"
  by (auto simp: strip_prefix_def starts_with_def) (metis append_take_drop_id)

lemma find_sub_Some: "find_sub s p = Some i \<Longrightarrow> i + length p \<le> length s \<and> starts_with (drop i s) p"
proof (induction s p arbitrary: i rule: find_sub.induct)
  case (1 p)
  then show ?case by (auto split: if_splits)
next
  case (2 c cs p)
  show ?case
  proof (cases "starts_with (c # cs) p")
    case True
    with 2 show ?thesis
      by (auto simp: starts_with_iff) (metis length_Cons length_append le_add1)
  next
    case False
    with 2 show ?thesis by fastforce
  qed
qed

lemma find_sub_None: "find_sub s p = None \<longleftrightarrow> (\<forall>i \<le> length s. \<not> starts_with (drop i s) p)"
proof (induction s p rule: find_sub.induct)
  case (1 p)
  then show ?case by (auto simp: starts_with_def)
next
  case (2 c cs p)
  show ?case
  proof (cases "starts_with (c # cs) p")
    case True
    then show ?thesis by (auto intro!: exI [of _ 0])
  next
    case False
    then have "find_sub (c # cs) p = None \<longleftrightarrow> (\<forall>i \<le> length cs. \<not> starts_with (drop i cs) p)"
      using 2 by simp
    also have "\<dots> \<longleftrightarrow> (\<forall>i \<le> length (c # cs). \<not> starts_with (drop i (c # cs)) p)"
    proof
      assume *: "\<forall>i \<le> length cs. \<not> starts_with (drop i cs) p"
      show "\<forall>i \<le> length (c # cs). \<not> starts_with (drop i (c # cs)) p"
      proof (intro allI impI)
        fix i assume "i \<le> length (c # cs)"
        with * False show "\<not> starts_with (drop i (c # cs)) p" by (cases i) auto
      qed
    next
      assume *: "\<forall>i \<le> length (c # cs). \<not> starts_with (drop i (c # cs)) p"
      show "\<forall>i \<le> length cs. \<not> starts_with (drop i cs) p"
        using * by (metis Suc_le_mono drop_Suc_Cons length_Cons)
    qed
    finally show ?thesis .
  qed
qed

lemma contains_sub_iff [str_simps]: "contains_sub s p \<longleftrightarrow> (\<exists>a b. s = a @ p @ b)"
proof
  assume "contains_sub s p"
  then obtain i where "find_sub s p = Some i" by (auto simp: contains_sub_def)
  then have "starts_with (drop i s) p" by (simp add: find_sub_Some)
  then obtain r where "drop i s = p @ r" by (auto simp: starts_with_iff)
  then have "s = take i s @ p @ r" by (metis append_take_drop_id)
  then show "\<exists>a b. s = a @ p @ b" by blast
next
  assume "\<exists>a b. s = a @ p @ b"
  then obtain a b where s: "s = a @ p @ b" by blast
  then have "length a \<le> length s" "starts_with (drop (length a) s) p" by simp_all
  then show "contains_sub s p" unfolding contains_sub_def using find_sub_None [of s p] by blast
qed

lemma split_on_not_Nil [simp]: "split_on d s \<noteq> []"
  by (induction s) (auto split: list.splits)

lemma join_split: "join_with [d] (split_on d s) = s"
proof (induction s)
  case Nil
  then show ?case by simp
next
  case (Cons c cs)
  then show ?case
    by (cases "split_on d cs"; cases "tl (split_on d cs)") (auto split: list.splits)
qed

lemma split_on_no_sep: "w \<in> set (split_on d s) \<Longrightarrow> d \<notin> set w"
  by (induction s arbitrary: w) (fastforce split: list.splits if_splits)+

section \<open>White space and control characters\<close>

text \<open>
  \<open>ws_len s\<close>: how many bytes the white-space code point at the front of \<open>s\<close> takes, 0 when there is
  none. The code points are Unicode's \<open>White_Space\<close>, which is what \<open>char::is_whitespace\<close> and
  \<open>str::trim\<close> use: U+0009 to U+000D, U+0020, U+0085, U+00A0, U+1680, U+2000 to U+200A, U+2028,
  U+2029, U+202F, U+205F and U+3000.
\<close>

definition ascii_ws :: "nat \<Rightarrow> bool" where
  "ascii_ws a \<longleftrightarrow> (9 \<le> a \<and> a \<le> 13) \<or> a = 32"

definition ws_two :: "nat \<Rightarrow> nat \<Rightarrow> bool" where
  "ws_two a b \<longleftrightarrow> a = 0xC2 \<and> (b = 0x85 \<or> b = 0xA0)"

definition ws_three :: "nat \<Rightarrow> nat \<Rightarrow> nat \<Rightarrow> bool" where
  "ws_three a b c \<longleftrightarrow>
     (a = 0xE1 \<and> b = 0x9A \<and> c = 0x80) \<or>
     (a = 0xE2 \<and> b = 0x80 \<and> ((0x80 \<le> c \<and> c \<le> 0x8A) \<or> c = 0xA8 \<or> c = 0xA9 \<or> c = 0xAF)) \<or>
     (a = 0xE2 \<and> b = 0x81 \<and> c = 0x9F) \<or>
     (a = 0xE3 \<and> b = 0x80 \<and> c = 0x80)"

fun ws_len :: "string \<Rightarrow> nat" where
  "ws_len (a # b # c # _) =
     (if ascii_ws (of_char a) then 1
      else if ws_two (of_char a) (of_char b) then 2
      else if ws_three (of_char a) (of_char b) (of_char c) then 3 else 0)"
| "ws_len [a, b] =
     (if ascii_ws (of_char a) then 1 else if ws_two (of_char a) (of_char b) then 2 else 0)"
| "ws_len [a] = (if ascii_ws (of_char a) then 1 else 0)"
| "ws_len [] = 0"

lemma ws_len_le: "ws_len s \<le> length s"
  by (induction s rule: ws_len.induct) auto

function trim_start :: "string \<Rightarrow> string" where
  "trim_start s = (if ws_len s = 0 then s else trim_start (drop (ws_len s) s))"
  by pat_completeness auto
termination
proof (relation "measure length")
  fix s :: string
  assume "ws_len s \<noteq> 0"
  with ws_len_le [of s] show "(drop (ws_len s) s, s) \<in> measure length"
    by (cases s) auto
qed simp

declare trim_start.simps [simp del]

text \<open>The length in bytes of the white-space code point that ends \<open>s\<close>.\<close>

definition ws_len_end :: "string \<Rightarrow> nat" where
  "ws_len_end s =
     (if 1 \<le> length s \<and> ws_len (drop (length s - 1) s) = 1 then 1
      else if 2 \<le> length s \<and> ws_len (drop (length s - 2) s) = 2 then 2
      else if 3 \<le> length s \<and> ws_len (drop (length s - 3) s) = 3 then 3 else 0)"

lemma ws_len_end_le: "ws_len_end s \<le> length s"
  by (simp add: ws_len_end_def)

function trim_end :: "string \<Rightarrow> string" where
  "trim_end s = (if ws_len_end s = 0 then s else trim_end (take (length s - ws_len_end s) s))"
  by pat_completeness auto
termination
proof (relation "measure length")
  fix s :: string
  assume "ws_len_end s \<noteq> 0"
  with ws_len_end_le [of s] show "(take (length s - ws_len_end s) s, s) \<in> measure length"
    by simp
qed simp

declare trim_end.simps [simp del]

definition trim :: "string \<Rightarrow> string" where
  "trim s = trim_end (trim_start s)"

text \<open>\<open>s.chars().any(char::is_control)\<close>: U+0000 to U+001F and U+007F to U+009F.\<close>

fun has_control :: "string \<Rightarrow> bool" where
  "has_control [] = False"
| "has_control (a # s) =
     ((of_char a :: nat) < 0x20 \<or> (of_char a :: nat) = 0x7F \<or>
      (case s of [] \<Rightarrow> False
       | b # _ \<Rightarrow> (of_char a :: nat) = 0xC2 \<and> 0x80 \<le> (of_char b :: nat) \<and> (of_char b :: nat) \<le> 0x9F) \<or>
      has_control s)"

lemma has_control_newline: "CHR 0x0A \<in> set s \<Longrightarrow> has_control s"
  by (induction s) auto

lemma trim_start_nows: "ws_len s = 0 \<Longrightarrow> trim_start s = s"
  by (simp add: trim_start.simps [of s])

lemma trim_end_nows: "ws_len_end s = 0 \<Longrightarrow> trim_end s = s"
  by (simp add: trim_end.simps [of s])

lemma ws_len_end_trim_end: "ws_len_end (trim_end s) = 0"
proof (induction s rule: trim_end.induct)
  case (1 s)
  then show ?case by (cases "ws_len_end s = 0") (auto simp: trim_end.simps [of s])
qed

lemma trim_no_trailing_ws: "ws_len_end (trim s) = 0"
  by (simp add: trim_def ws_len_end_trim_end)

section \<open>UTF-8\<close>

text \<open>\<open>std::str::from_utf8\<close> accepts: no overlong form, no surrogate, nothing above U+10FFFF.\<close>

definition utf8_cont :: "char \<Rightarrow> bool" where
  "utf8_cont c \<longleftrightarrow> 0x80 \<le> (of_char c :: nat) \<and> (of_char c :: nat) \<le> 0xBF"

definition utf8_lead_len :: "char \<Rightarrow> nat" where
  "utf8_lead_len c =
     (let a = of_char c :: nat
      in if a < 0x80 then 1 else if 0xC2 \<le> a \<and> a \<le> 0xDF then 2
         else if 0xE0 \<le> a \<and> a \<le> 0xEF then 3 else if 0xF0 \<le> a \<and> a \<le> 0xF4 then 4 else 0)"

definition utf8_second_ok :: "char \<Rightarrow> char \<Rightarrow> bool" where
  "utf8_second_ok c d =
     (let a = of_char c :: nat; b = of_char d :: nat
      in utf8_cont d \<and> (a = 0xE0 \<longrightarrow> 0xA0 \<le> b) \<and> (a = 0xED \<longrightarrow> b \<le> 0x9F) \<and>
         (a = 0xF0 \<longrightarrow> 0x90 \<le> b) \<and> (a = 0xF4 \<longrightarrow> b \<le> 0x8F))"

function utf8_valid :: "string \<Rightarrow> bool" where
  "utf8_valid [] = True"
| "utf8_valid (c # cs) =
     (let n = utf8_lead_len c
      in if n = 0 \<or> length cs < n - 1 then False
         else (n = 1 \<or> utf8_second_ok c (hd cs)) \<and> list_all utf8_cont (take (n - 1) cs) \<and>
              utf8_valid (drop (n - 1) cs))"
  by pat_completeness auto
termination
  by (relation "measure length") auto

definition str_bytes :: "string \<Rightarrow> byte list" where
  "str_bytes s = map (\<lambda>c. word_of_nat (of_char c)) s"

definition bytes_str :: "byte list \<Rightarrow> string" where
  "bytes_str bs = map (\<lambda>b. char_of (unat b)) bs"

lemma length_str_bytes [simp, codec_simps]: "length (str_bytes s) = length s"
  by (simp add: str_bytes_def)

lemma char_of_unat_of_char: "char_of (unat (word_of_nat (of_char c) :: byte)) = c"
  by (simp only: unat_byte_of_nat) simp

lemma bytes_str_bytes [simp, codec_simps]: "bytes_str (str_bytes s) = s"
  by (simp add: bytes_str_def str_bytes_def o_def char_of_unat_of_char)

section \<open>Formatting integers\<close>

definition digit_char :: "nat \<Rightarrow> char" where
  "digit_char d = char_of (48 + d)"

fun show_nat :: "nat \<Rightarrow> string" where
  "show_nat n = (if n < 10 then [digit_char n] else show_nat (n div 10) @ [digit_char (n mod 10)])"

declare show_nat.simps [simp del]

definition show_int :: "int \<Rightarrow> string" where
  "show_int i = (if i < 0 then CHR ''-'' # show_nat (nat (- i)) else show_nat (nat i))"

text \<open>\<open>{:0w}\<close>: zero padding to width \<open>w\<close>, the sign in front of the zeros.\<close>

definition pad0 :: "nat \<Rightarrow> string \<Rightarrow> string" where
  "pad0 w s = replicate (w - length s) (CHR ''0'') @ s"

definition show_int0 :: "nat \<Rightarrow> int \<Rightarrow> string" where
  "show_int0 w i = (if i < 0 then CHR ''-'' # pad0 (w - 1) (show_nat (nat (- i))) else pad0 w (show_nat (nat i)))"

definition hex_char :: "nat \<Rightarrow> char" where
  "hex_char d = char_of (if d < 10 then 48 + d else 87 + d)"

text \<open>\<open>{:02x}\<close> of a byte.\<close>

definition hex_byte :: "nat \<Rightarrow> string" where
  "hex_byte b = [hex_char (b div 16 mod 16), hex_char (b mod 16)]"

definition is_digit :: "char \<Rightarrow> bool" where
  "is_digit c \<longleftrightarrow> 48 \<le> (of_char c :: nat) \<and> (of_char c :: nat) \<le> 57"

definition digit_val :: "char \<Rightarrow> nat" where
  "digit_val c = of_char c - 48"

definition read_nat :: "string \<Rightarrow> nat" where
  "read_nat s = foldl (\<lambda>acc c. 10 * acc + digit_val c) 0 s"

lemma of_char_digit [simp]: "d < 10 \<Longrightarrow> (of_char (digit_char d) :: nat) = 48 + d"
  by (simp add: digit_char_def)

lemma is_digit_digit_char [simp]: "d < 10 \<Longrightarrow> is_digit (digit_char d)"
  by (simp add: is_digit_def)

lemma digit_val_digit_char [simp]: "d < 10 \<Longrightarrow> digit_val (digit_char d) = d"
  by (simp add: digit_val_def)

lemma show_nat_digits: "list_all is_digit (show_nat n)"
proof (induction n rule: show_nat.induct)
  case (1 n)
  then show ?case by (cases "n < 10") (auto simp: show_nat.simps [of n])
qed

lemma show_nat_not_Nil [simp]: "show_nat n \<noteq> []"
  by (subst show_nat.simps) simp

lemma read_nat_snoc: "read_nat (s @ [c]) = 10 * read_nat s + digit_val c"
  by (simp add: read_nat_def)

lemma read_show_nat [simp]: "read_nat (show_nat n) = n"
proof (induction n rule: show_nat.induct)
  case (1 n)
  show ?case
  proof (cases "n < 10")
    case True
    then show ?thesis by (simp add: show_nat.simps [of n] read_nat_def)
  next
    case False
    with 1 have "read_nat (show_nat (n div 10)) = n div 10" by simp
    with False show ?thesis by (simp add: show_nat.simps [of n] read_nat_snoc)
  qed
qed

lemma show_nat_inject: "show_nat m = show_nat n \<longleftrightarrow> m = n"
  by (metis read_show_nat)

end
