(* ===== verification/Paths.thy ===== *)
theory Paths
  imports Rust_Str
begin

text \<open>
  \<open>std::path\<close> as the permission code uses it, with Unix syntax. A path is its OS string; it is
  compared, and its parent and final component are taken, by \<^emph>\<open>components\<close>: repeated separators
  and interior dots vanish, as \<open>Path::components\<close> documents. What the file system answers
  (\<open>fs::canonicalize\<close>) is a parameter of the operations that call it, a function from the
  components of a path to an I/O error text or the resolved path.
\<close>

type_synonym path = string

datatype component = RootDir | CurDir | ParentDir | Normal string

definition component_of :: "string \<Rightarrow> component" where
  "component_of s = (if s = ''..'' then ParentDir else Normal s)"

definition body_components :: "string list \<Rightarrow> component list" where
  "body_components segs = map component_of (filter (\<lambda>s. s \<noteq> [] \<and> s \<noteq> ''.'') segs)"

definition components :: "path \<Rightarrow> component list" where
  "components p =
     (case split_on (CHR ''/'') p of
        [] \<Rightarrow> []
      | s # segs \<Rightarrow>
          (if s = [] then (if p = [] then [] else RootDir # body_components segs)
           else if s = ''.'' then CurDir # body_components segs
           else component_of s # body_components segs))"

definition path_eq :: "path \<Rightarrow> path \<Rightarrow> bool" where
  "path_eq p q \<longleftrightarrow> components p = components q"

definition parent :: "component list \<Rightarrow> component list option" where
  "parent cs = (if cs = [] \<or> last cs = RootDir then None else Some (butlast cs))"

definition file_name :: "component list \<Rightarrow> string option" where
  "file_name cs = (if cs = [] then None else (case last cs of Normal s \<Rightarrow> Some s | _ \<Rightarrow> None))"

text \<open>\<open>Path::join\<close>: an absolute right-hand side replaces the path.\<close>

definition path_join :: "path \<Rightarrow> path \<Rightarrow> path" where
  "path_join p q =
     (if starts_with q ''/'' then q
      else if p = [] \<or> ends_with p ''/'' then p @ q else p @ ''/'' @ q)"

text \<open>
  The final component of a joined path: what \<open>path_join\<close> and \<open>components\<close> promise each other for a
  name that is one normal component.
\<close>

definition plain_name :: "string \<Rightarrow> bool" where
  "plain_name s \<longleftrightarrow> s \<noteq> [] \<and> s \<noteq> ''.'' \<and> s \<noteq> ''..'' \<and> CHR ''/'' \<notin> set s"

lemma split_on_no_occ: "d \<notin> set s \<Longrightarrow> split_on d s = [s]"
  by (induction s) auto

lemma split_on_append_sep: "split_on d (p @ d # q) = split_on d p @ split_on d q"
proof (induction p)
  case Nil
  then show ?case by simp
next
  case (Cons c p)
  then show ?case by (cases "split_on d p") (auto split: list.splits)
qed

lemma body_components_append [simp]:
  "body_components (xs @ ys) = body_components xs @ body_components ys"
  by (simp add: body_components_def)

lemma body_components_empty [simp]: "body_components [[]] = []"
  by (simp add: body_components_def)

lemma body_components_plain [simp]: "plain_name n \<Longrightarrow> body_components [n] = [Normal n]"
  by (simp add: body_components_def component_of_def plain_name_def)

lemma components_append_sep:
  assumes "p \<noteq> []"
  shows "components (p @ CHR ''/'' # q) = components p @ body_components (split_on (CHR ''/'') q)"
proof -
  obtain s segs where s: "split_on (CHR ''/'') p = s # segs"
    by (cases "split_on (CHR ''/'') p") auto
  then show ?thesis using assms
    by (simp add: components_def split_on_append_sep)
qed

lemma components_join:
  assumes "p \<noteq> []" and "plain_name n"
  shows "components (path_join p n) = components p @ [Normal n]"
proof -
  have n: "n \<noteq> []" "CHR ''/'' \<notin> set n" using assms(2) by (auto simp: plain_name_def)
  then have no: "\<not> starts_with n ''/''" by (cases n) (auto simp: starts_with_def)
  have seg: "split_on (CHR ''/'') n = [n]" using n(2) by (rule split_on_no_occ)
  show ?thesis
  proof (cases "ends_with p ''/''")
    case True
    then obtain r where r: "p = r @ ''/''"
      using assms(1) by (auto simp: ends_with_def starts_with_iff)
    show ?thesis
    proof (cases "r = []")
      case True
      then show ?thesis using no r seg assms True
        by (simp add: path_join_def ends_with_def components_def starts_with_def)
    next
      case False
      have "components p = components r @ body_components (split_on (CHR ''/'') [])"
        using components_append_sep [OF False, of "[]"] r by simp
      moreover have "components (path_join p n) = components r @ body_components [n]"
        using components_append_sep [OF False, of n] no r True seg
        by (simp add: path_join_def)
      ultimately show ?thesis using assms(2) by simp
    qed
  next
    case False
    then have "path_join p n = p @ CHR ''/'' # n" using no assms(1) by (simp add: path_join_def)
    then show ?thesis using components_append_sep [OF assms(1), of n] seg assms(2) by simp
  qed
qed

lemma parent_snoc [simp]: "c \<noteq> RootDir \<Longrightarrow> parent (cs @ [c]) = Some cs"
  by (simp add: parent_def)

lemma file_name_snoc [simp]: "file_name (cs @ [Normal s]) = Some s"
  by (simp add: file_name_def)

lemma file_name_Some: "file_name cs = Some s \<longleftrightarrow> cs \<noteq> [] \<and> last cs = Normal s"
  by (auto simp: file_name_def split: component.splits)

lemma component_of_Normal: "component_of s = Normal t \<longleftrightarrow> s = t \<and> s \<noteq> ''..''"
  by (auto simp: component_of_def)

lemma components_plain: "Normal s \<in> set (components p) \<Longrightarrow> plain_name s"
proof -
  assume *: "Normal s \<in> set (components p)"
  obtain h segs where hs: "split_on (CHR ''/'') p = h # segs"
    by (cases "split_on (CHR ''/'') p") auto
  have no: "\<And>w. w \<in> set (h # segs) \<Longrightarrow> CHR ''/'' \<notin> set w"
    using split_on_no_sep [of _ "CHR ''/''" p] hs by simp
  from * hs have "s \<in> set (h # segs) \<and> s \<noteq> [] \<and> s \<noteq> ''.'' \<and> s \<noteq> ''..''"
    by (auto simp: components_def body_components_def component_of_def split: if_splits)
  with no show "plain_name s" by (auto simp: plain_name_def)
qed

lemma file_name_plain: "file_name (components p) = Some s \<Longrightarrow> plain_name s"
  by (rule components_plain [of _ p]) (metis file_name_Some last_in_set)

end
