(* ===== verification/Grants.thy ===== *)
theory Grants
  imports Paths
begin

text \<open>
  \<open>kernel/src/permission/grant.rs\<close> and the error type of \<open>kernel/src/permission/error.rs\<close>: scoped,
  expiring publish grants and the set that holds them. An \<open>Instant\<close> is a natural number of
  nanoseconds, a \<open>Duration\<close> too. \<open>norm_dest\<close> is the destination normalizer the refusal texts call
  (\<open>Normalize\<close> models it); \<open>canonicalize\<close> is the file system's answer.
\<close>

section \<open>Data\<close>

datatype operation_kind = Publish

definition publish_operation :: string where
  "publish_operation = ''publish-static-bundle''"

fun operation_kind_as_str :: "operation_kind \<Rightarrow> string" where
  "operation_kind_as_str Publish = publish_operation"

datatype principal_kind = OsUser

fun principal_kind_as_str :: "principal_kind \<Rightarrow> string" where
  "principal_kind_as_str OsUser = ''os-user''"

record principal =
  principal_kind :: principal_kind
  principal_id :: string

text \<open>\<open>Principal::from_environment\<close>: the first variable that is set and not blank.\<close>

fun find_env :: "(string \<Rightarrow> string option) \<Rightarrow> string list \<Rightarrow> string option" where
  "find_env env [] = None"
| "find_env env (k # ks) =
     (case env k of
        None \<Rightarrow> find_env env ks
      | Some v \<Rightarrow> if trim v = [] then find_env env ks else Some v)"

definition from_environment :: "(string \<Rightarrow> string option) \<Rightarrow> principal" where
  "from_environment env =
     \<lparr>principal_kind = OsUser,
      principal_id = (case find_env env [''USERNAME'', ''USER'', ''LOGNAME''] of
                        None \<Rightarrow> ''(unknown)'' | Some v \<Rightarrow> v)\<rparr>"

record source_scope =
  dataset_name :: string
  content_hash :: string

datatype destination_scope = Exact path | DirectChildOf path

datatype refusal_reason = NotMatched | Eof

datatype permission_error =
    NoGrant string
  | GrantScopeMismatch string
  | GrantExpired nat nat
  | GrantCeilingExceeded string nat
  | GrantLifetimeExceeded nat nat
  | DestinationUnresolvable path string
  | ApprovalRefused refusal_reason string
  | ApprovalUnavailable string

record operation_facts =
  facts_operation :: operation_kind
  facts_dataset_name :: string
  facts_content_hash :: string
  facts_destination :: path

record publish_grant =
  operation :: operation_kind
  source :: source_scope
  destination :: destination_scope
  granted_by :: principal
  granted_at :: nanos
  lifetime :: nanos
  granted_at_wall :: nat

definition as_secs :: "nanos \<Rightarrow> nat" where
  "as_secs d = d div 1000000000"

definition from_secs :: "nat \<Rightarrow> nanos" where
  "from_secs s = s * 1000000000"

definition max_grant_lifetime :: nanos where
  "max_grant_lifetime = from_secs (20 * 60)"

definition max_grants :: nat where
  "max_grants = 64"

section \<open>Destinations\<close>

definition resolve_destination ::
    "(component list \<Rightarrow> string + path) \<Rightarrow> path \<Rightarrow> permission_error + path" where
  "resolve_destination canonicalize dest =
     (case file_name (components dest) of
        None \<Rightarrow> Inl (DestinationUnresolvable dest ''it has no final path component to name a bundle'')
      | Some name \<Rightarrow>
          (let par = (case parent (components dest) of None \<Rightarrow> [CurDir] | Some p \<Rightarrow> p);
               par = (if par = [] then [CurDir] else par)
           in case canonicalize par of
                Inl e \<Rightarrow> Inl (DestinationUnresolvable dest
                                (''its parent directory could not be resolved: '' @ e))
              | Inr q \<Rightarrow> Inr (path_join q name)))"

definition scope_exact ::
    "(component list \<Rightarrow> string + path) \<Rightarrow> path \<Rightarrow> permission_error + destination_scope" where
  "scope_exact canonicalize dest =
     (case resolve_destination canonicalize dest of Inl e \<Rightarrow> Inl e | Inr p \<Rightarrow> Inr (Exact p))"

definition scope_direct_child_of ::
    "(component list \<Rightarrow> string + path) \<Rightarrow> path \<Rightarrow> permission_error + destination_scope" where
  "scope_direct_child_of canonicalize dir =
     (case canonicalize (components dir) of
        Inl e \<Rightarrow> Inl (DestinationUnresolvable dir e)
      | Inr p \<Rightarrow> Inr (DirectChildOf p))"

fun covers :: "destination_scope \<Rightarrow> path \<Rightarrow> bool" where
  "covers (Exact p) dest = path_eq p dest"
| "covers (DirectChildOf d) dest = (parent (components dest) = Some (components d))"

fun describe_scope :: "(path \<Rightarrow> string) \<Rightarrow> destination_scope \<Rightarrow> string" where
  "describe_scope norm_dest (Exact p) = ''exactly `'' @ norm_dest p @ ''`''"
| "describe_scope norm_dest (DirectChildOf d) = ''a direct child of `'' @ norm_dest d @ ''`''"

section \<open>One grant\<close>

definition publish_grant_new ::
    "operation_kind \<Rightarrow> source_scope \<Rightarrow> destination_scope \<Rightarrow> principal \<Rightarrow> nanos \<Rightarrow>
     nanos \<Rightarrow> nat \<Rightarrow> permission_error + publish_grant" where
  "publish_grant_new op src dst who life now wall =
     (if life > max_grant_lifetime
      then Inl (GrantLifetimeExceeded (as_secs life) (as_secs max_grant_lifetime))
      else Inr \<lparr>operation = op, source = src, destination = dst, granted_by = who,
                granted_at = now, lifetime = life, granted_at_wall = wall\<rparr>)"

definition elapsed :: "publish_grant \<Rightarrow> nanos \<Rightarrow> nanos" where
  "elapsed g now = now - granted_at g"

definition remaining :: "publish_grant \<Rightarrow> nanos \<Rightarrow> nanos" where
  "remaining g now = lifetime g - (now - granted_at g)"

definition expired :: "publish_grant \<Rightarrow> nanos \<Rightarrow> bool" where
  "expired g now \<longleftrightarrow> elapsed g now \<ge> lifetime g"

definition em_dash :: string where
  "em_dash = [CHR 0xE2, CHR 0x80, CHR 0x94]"

definition scope_mismatch ::
    "(path \<Rightarrow> string) \<Rightarrow> publish_grant \<Rightarrow> operation_facts \<Rightarrow> string option" where
  "scope_mismatch norm_dest g facts =
     (if dataset_name (source g) \<noteq> facts_dataset_name facts then
        Some (''the grant scopes dataset `'' @ dataset_name (source g) @ ''` and this publish names `''
              @ facts_dataset_name facts @ ''` '' @ em_dash @
              '' the catalog name becomes `spatial://dataset/<name>` in the manifest, so it is part of the artifact the grant authorizes, not a handle'')
      else if content_hash (source g) \<noteq> facts_content_hash facts then
        Some (''the grant scopes source content `'' @ content_hash (source g)
              @ ''` and this publish's source hashes to `'' @ facts_content_hash facts
              @ ''`. The hash compared is the one read from the file, never one the request supplied'')
      else if \<not> covers (destination g) (facts_destination facts) then
        Some (''the grant scopes '' @ describe_scope norm_dest (destination g)
              @ '' and this publish resolves to `'' @ norm_dest (facts_destination facts) @ ''`'')
      else None)"

section \<open>The grant set\<close>

record grant_set =
  grants :: "publish_grant list"

definition grant_set_new :: grant_set where
  "grant_set_new = \<lparr>grants = []\<rparr>"

definition grant_set_len :: "grant_set \<Rightarrow> nat" where
  "grant_set_len s = length (grants s)"

definition grant_set_is_empty :: "grant_set \<Rightarrow> bool" where
  "grant_set_is_empty s \<longleftrightarrow> grants s = []"

definition grant_set_add :: "grant_set \<Rightarrow> publish_grant \<Rightarrow> permission_error + grant_set" where
  "grant_set_add s g =
     (if length (grants s) \<ge> max_grants then Inl (GrantCeilingExceeded ''MAX_GRANTS'' max_grants)
      else Inr (s\<lparr>grants := grants s @ [g]\<rparr>))"

definition prune_expired :: "grant_set \<Rightarrow> nanos \<Rightarrow> grant_set" where
  "prune_expired s now = s\<lparr>grants := filter (\<lambda>g. \<not> expired g now) (grants s)\<rparr>"

definition remove_matching ::
    "(path \<Rightarrow> string) \<Rightarrow> grant_set \<Rightarrow> operation_facts \<Rightarrow> bool \<times> grant_set" where
  "remove_matching norm_dest s facts =
     (let kept = filter (\<lambda>g. operation g \<noteq> facts_operation facts \<or>
                             scope_mismatch norm_dest g facts \<noteq> None) (grants s)
      in (length kept \<noteq> length (grants s), s\<lparr>grants := kept\<rparr>))"

text \<open>\<open>Iterator::min_by_key\<close>: the first element with the least key.\<close>

fun min_by_key :: "('a \<Rightarrow> nat) \<Rightarrow> 'a list \<Rightarrow> 'a option" where
  "min_by_key f [] = None"
| "min_by_key f (x # xs) =
     (case min_by_key f xs of None \<Rightarrow> Some x | Some y \<Rightarrow> Some (if f x \<le> f y then x else y))"

text \<open>The loop of \<open>find\<close>: the grants in scope, and the first mismatch seen.\<close>

fun partition_scope ::
    "(path \<Rightarrow> string) \<Rightarrow> operation_facts \<Rightarrow> publish_grant list \<Rightarrow> publish_grant list \<Rightarrow> string option \<Rightarrow>
     publish_grant list \<times> string option" where
  "partition_scope norm_dest facts [] in_scope closest = (in_scope, closest)"
| "partition_scope norm_dest facts (g # gs) in_scope closest =
     (case scope_mismatch norm_dest g facts of
        None \<Rightarrow> partition_scope norm_dest facts gs (in_scope @ [g]) closest
      | Some detail \<Rightarrow>
          partition_scope norm_dest facts gs in_scope
            (case closest of None \<Rightarrow> Some detail | Some d \<Rightarrow> Some d))"

text \<open>
  \<open>GrantSet::find\<close>. The \<open>None\<close> branch of \<open>min_by_key\<close> is the source's \<open>expect\<close>; it is dead, since
  \<open>in_scope\<close> is not empty there (\<open>min_by_key_None_iff\<close>).
\<close>

definition grant_set_find ::
    "(path \<Rightarrow> string) \<Rightarrow> grant_set \<Rightarrow> operation_facts \<Rightarrow> nanos \<Rightarrow> permission_error + publish_grant" where
  "grant_set_find norm_dest s facts now =
     (let for_operation = filter (\<lambda>g. operation g = facts_operation facts) (grants s)
      in if for_operation = [] then Inl (NoGrant (operation_kind_as_str (facts_operation facts)))
         else
           (let (in_scope, closest) = partition_scope norm_dest facts for_operation [] None
            in if in_scope = []
               then Inl (GrantScopeMismatch
                           (case closest of None \<Rightarrow> ''no grant covers it'' | Some d \<Rightarrow> d))
               else
                 (case List.find (\<lambda>g. \<not> expired g now) in_scope of
                    Some g \<Rightarrow> Inr g
                  | None \<Rightarrow>
                      (case min_by_key (\<lambda>g. elapsed g now - lifetime g) in_scope of
                         None \<Rightarrow> Inl (GrantScopeMismatch ''no grant covers it'')
                       | Some g \<Rightarrow> Inl (GrantExpired (as_secs (lifetime g)) (as_secs (elapsed g now)))))))"

section \<open>The lookup contract\<close>

text \<open>
  What the boundary relies on when it asks a store for authority: a lookup answers with an entry
  that is in scope and has not lapsed, it answers whenever such an entry exists, and an entry that
  has lapsed stays lapsed.
\<close>

locale authority =
  fixes lookup :: "'s \<Rightarrow> 'f \<Rightarrow> nat \<Rightarrow> 'e + 'g"
    and entries :: "'s \<Rightarrow> 'g list"
    and in_scope :: "'g \<Rightarrow> 'f \<Rightarrow> bool"
    and lapsed :: "'g \<Rightarrow> nat \<Rightarrow> bool"
  assumes lookup_sound:
      "lookup s f t = Inr g \<Longrightarrow> g \<in> set (entries s) \<and> in_scope g f \<and> \<not> lapsed g t"
    and lookup_complete:
      "g \<in> set (entries s) \<Longrightarrow> in_scope g f \<Longrightarrow> \<not> lapsed g t \<Longrightarrow> \<exists>h. lookup s f t = Inr h"
    and lapsed_mono: "lapsed g t \<Longrightarrow> t \<le> t' \<Longrightarrow> lapsed g t'"
begin

lemma authorized_iff:
  "is_ok (lookup s f t) \<longleftrightarrow> (\<exists>g. g \<in> set (entries s) \<and> in_scope g f \<and> \<not> lapsed g t)"
proof
  assume "is_ok (lookup s f t)"
  then obtain g where "lookup s f t = Inr g" by (auto simp: is_ok_iff)
  then show "\<exists>g. g \<in> set (entries s) \<and> in_scope g f \<and> \<not> lapsed g t"
    using lookup_sound by blast
next
  assume "\<exists>g. g \<in> set (entries s) \<and> in_scope g f \<and> \<not> lapsed g t"
  then show "is_ok (lookup s f t)" using lookup_complete by (auto simp: is_ok_iff)
qed

lemma authority_only_lapses: "is_ok (lookup s f t') \<Longrightarrow> t \<le> t' \<Longrightarrow> is_ok (lookup s f t)"
  by (meson authorized_iff lapsed_mono)

lemma pruning_neutral:
  assumes "set (entries s') = {g \<in> set (entries s). \<not> lapsed g t0}" and "t0 \<le> t"
  shows "is_ok (lookup s' f t) \<longleftrightarrow> is_ok (lookup s f t)"
proof -
  have "\<And>g. \<not> lapsed g t \<Longrightarrow> \<not> lapsed g t0" using assms(2) lapsed_mono by blast
  then show ?thesis using assms(1) by (auto simp: authorized_iff)
qed

lemma removing_scope_revokes:
  assumes "\<And>g. g \<in> set (entries s) \<Longrightarrow> \<not> in_scope g f"
  shows "\<not> is_ok (lookup s f t)"
  using assms by (auto simp: authorized_iff)

end

section \<open>The grant set keeps the contract\<close>

definition grant_covers :: "publish_grant \<Rightarrow> operation_facts \<Rightarrow> bool" where
  "grant_covers g facts \<longleftrightarrow>
     operation g = facts_operation facts \<and>
     dataset_name (source g) = facts_dataset_name facts \<and>
     content_hash (source g) = facts_content_hash facts \<and>
     covers (destination g) (facts_destination facts)"

lemma scope_mismatch_None:
  "operation g = facts_operation facts \<and> scope_mismatch nd g facts = None \<longleftrightarrow> grant_covers g facts"
  by (auto simp: scope_mismatch_def grant_covers_def)

lemma scope_mismatch_None_iff:
  "scope_mismatch nd g facts = None \<longleftrightarrow>
     dataset_name (source g) = facts_dataset_name facts \<and>
     content_hash (source g) = facts_content_hash facts \<and>
     covers (destination g) (facts_destination facts)"
  by (auto simp: scope_mismatch_def)

lemma partition_scope_fst:
  "fst (partition_scope nd facts gs acc closest) =
     acc @ filter (\<lambda>g. scope_mismatch nd g facts = None) gs"
  by (induction gs arbitrary: acc closest) (auto split: option.splits)

lemma filter_covers:
  "filter (\<lambda>g. scope_mismatch nd g facts = None) (filter (\<lambda>g. operation g = facts_operation facts) gs) =
     filter (\<lambda>g. grant_covers g facts) gs"
  by (simp add: scope_mismatch_None conj_commute cong: filter_cong)

lemma min_by_key_None_iff [simp]: "min_by_key f xs = None \<longleftrightarrow> xs = []"
  by (cases xs) (auto split: option.splits)

lemma min_by_key_Some: "min_by_key f xs = Some y \<Longrightarrow> y \<in> set xs \<and> (\<forall>x \<in> set xs. f y \<le> f x)"
proof (induction xs arbitrary: y)
  case Nil
  then show ?case by simp
next
  case (Cons x xs)
  show ?case
  proof (cases "min_by_key f xs")
    case None
    with Cons.prems show ?thesis by simp
  next
    case (Some z)
    with Cons.IH have z: "z \<in> set xs" "\<forall>x \<in> set xs. f z \<le> f x" by blast+
    from Some Cons.prems have "y = (if f x \<le> f z then x else z)" by simp
    then show ?thesis using z by (auto intro: order_trans)
  qed
qed

text \<open>\<open>find\<close> with its loop resolved: one case per outcome.\<close>

lemma grant_set_find_alt:
  "grant_set_find nd s facts now =
     (let ops = filter (\<lambda>g. operation g = facts_operation facts) (grants s);
          sc = filter (\<lambda>g. grant_covers g facts) (grants s)
      in if ops = [] then Inl (NoGrant (operation_kind_as_str (facts_operation facts)))
         else if sc = []
              then Inl (GrantScopeMismatch
                          (case snd (partition_scope nd facts ops [] None) of
                             None \<Rightarrow> ''no grant covers it'' | Some d \<Rightarrow> d))
         else (case List.find (\<lambda>g. \<not> expired g now) sc of
                 Some g \<Rightarrow> Inr g
               | None \<Rightarrow>
                   (let g = the (min_by_key (\<lambda>g. elapsed g now - lifetime g) sc)
                    in Inl (GrantExpired (as_secs (lifetime g)) (as_secs (elapsed g now))))))"
proof -
  let ?ops = "filter (\<lambda>g. operation g = facts_operation facts) (grants s)"
  obtain sc cl where p: "partition_scope nd facts ?ops [] None = (sc, cl)" by fastforce
  then have "sc = filter (\<lambda>g. grant_covers g facts) (grants s)"
    using partition_scope_fst [of nd facts ?ops "[]" None]
    by (simp only: filter_covers p fst_conv append_Nil)
  then show ?thesis using p
    by (auto simp: grant_set_find_def Let_def split: option.splits)
qed

lemma grant_set_find_Inr_iff:
  "grant_set_find nd s facts now = Inr g \<longleftrightarrow>
     List.find (\<lambda>g. grant_covers g facts \<and> \<not> expired g now) (grants s) = Some g"
proof -
  have *: "List.find (\<lambda>g. \<not> expired g now) (filter (\<lambda>g. grant_covers g facts) gs) =
      List.find (\<lambda>g. grant_covers g facts \<and> \<not> expired g now) gs" for gs
    by (induction gs) auto
  have "List.find (\<lambda>g. grant_covers g facts \<and> \<not> expired g now) (grants s) = Some g \<Longrightarrow>
      filter (\<lambda>g. operation g = facts_operation facts) (grants s) \<noteq> [] \<and>
      filter (\<lambda>g. grant_covers g facts) (grants s) \<noteq> []"
    by (auto simp: find_Some_iff filter_empty_conv grant_covers_def)
  then show ?thesis
    by (auto simp: grant_set_find_alt Let_def * split: option.splits)
qed

lemma expired_mono: "expired g t \<Longrightarrow> t \<le> t' \<Longrightarrow> expired g t'"
  by (auto simp: expired_def elapsed_def)

interpretation gs: authority "grant_set_find nd" grants grant_covers expired for nd
proof unfold_locales
  fix s :: grant_set and facts t g
  assume "grant_set_find nd s facts t = Inr g"
  then show "g \<in> set (grants s) \<and> grant_covers g facts \<and> \<not> expired g t"
    by (auto simp: grant_set_find_Inr_iff find_Some_iff)
next
  fix g facts t and s :: grant_set
  assume "g \<in> set (grants s)" "grant_covers g facts" "\<not> expired g t"
  then have "List.find (\<lambda>g. grant_covers g facts \<and> \<not> expired g t) (grants s) \<noteq> None"
    by (auto simp: find_None_iff)
  then show "\<exists>h. grant_set_find nd s facts t = Inr h"
    by (auto simp: grant_set_find_Inr_iff)
qed (rule expired_mono)

section \<open>Reachable grant sets\<close>

text \<open>
  What a process can do to its grant set, as a step relation over the clock and the set: mint a
  grant now and add it, prune at the current instant, evict a consumed grant, let time pass.
\<close>

inductive grant_step :: "(path \<Rightarrow> string) \<Rightarrow> nanos \<times> grant_set \<Rightarrow> nanos \<times> grant_set \<Rightarrow> bool" for nd where
  issue: "publish_grant_new op src dst who life now wall = Inr g \<Longrightarrow> grant_set_add s g = Inr s' \<Longrightarrow>
     grant_step nd (now, s) (now, s')"
| prune: "grant_step nd (now, s) (now, prune_expired s now)"
| evict: "grant_step nd (now, s) (now, snd (remove_matching nd s facts))"
| tick: "now \<le> now' \<Longrightarrow> grant_step nd (now, s) (now', s)"

inductive grant_reachable :: "(path \<Rightarrow> string) \<Rightarrow> nanos \<times> grant_set \<Rightarrow> bool" for nd where
  start: "grant_reachable nd (0, grant_set_new)"
| step: "grant_reachable nd c \<Longrightarrow> grant_step nd c c' \<Longrightarrow> grant_reachable nd c'"

definition grant_set_wf :: "nanos \<times> grant_set \<Rightarrow> bool" where
  "grant_set_wf c \<longleftrightarrow>
     length (grants (snd c)) \<le> max_grants \<and>
     (\<forall>g \<in> set (grants (snd c)). lifetime g \<le> max_grant_lifetime \<and> granted_at g \<le> fst c)"

lemma publish_grant_new_Inr:
  "publish_grant_new op src dst who life now wall = Inr g \<Longrightarrow>
     lifetime g \<le> max_grant_lifetime \<and> granted_at g = now"
  by (auto simp: publish_grant_new_def split: if_splits)

lemma grant_set_add_Inr:
  "grant_set_add s g = Inr s' \<Longrightarrow> length (grants s) < max_grants \<and> grants s' = grants s @ [g]"
  by (auto simp: grant_set_add_def split: if_splits)

lemma remove_matching_alt:
  "remove_matching nd s facts =
     (let kept = filter (\<lambda>g. \<not> grant_covers g facts) (grants s)
      in (length kept \<noteq> length (grants s), s\<lparr>grants := kept\<rparr>))"
proof -
  have "(\<lambda>g. operation g \<noteq> facts_operation facts \<or> scope_mismatch nd g facts \<noteq> None) =
      (\<lambda>g. \<not> grant_covers g facts)"
    by (rule ext) (auto simp: scope_mismatch_None_iff grant_covers_def simp del: not_None_eq)
  then show ?thesis by (simp only: remove_matching_def)
qed

lemma remove_matching_grants:
  "grants (snd (remove_matching nd s facts)) = filter (\<lambda>g. \<not> grant_covers g facts) (grants s)"
  by (simp add: remove_matching_alt Let_def)

lemma remove_matching_flag:
  "fst (remove_matching nd s facts) \<longleftrightarrow> (\<exists>g. g \<in> set (grants s) \<and> grant_covers g facts)"
proof -
  have "length (filter (\<lambda>g. \<not> grant_covers g facts) (grants s)) \<noteq> length (grants s) \<longleftrightarrow>
      (\<exists>g. g \<in> set (grants s) \<and> grant_covers g facts)"
    by (metis (mono_tags, lifting) filter_True length_filter_less less_irrefl)
  then show ?thesis by (simp add: remove_matching_alt Let_def)
qed

lemma grant_step_wf: "grant_step nd c c' \<Longrightarrow> grant_set_wf c \<Longrightarrow> grant_set_wf c'"
proof (induction rule: grant_step.induct)
  case (issue op src dst who life now wall g s s')
  then show ?case
    using publish_grant_new_Inr [OF issue.hyps(1)] grant_set_add_Inr [OF issue.hyps(2)]
    by (auto simp: grant_set_wf_def)
next
  case (prune now s)
  then show ?case
    by (auto simp: grant_set_wf_def prune_expired_def intro: order_trans [OF length_filter_le])
next
  case (evict now s facts)
  then show ?case
    by (auto simp: grant_set_wf_def remove_matching_grants intro: order_trans [OF length_filter_le])
next
  case (tick now now' s)
  then show ?case by (auto simp: grant_set_wf_def intro: order_trans)
qed

lemma grant_reachable_wf: "grant_reachable nd c \<Longrightarrow> grant_set_wf c"
proof (induction rule: grant_reachable.induct)
  case start
  show ?case by (simp add: grant_set_wf_def grant_set_new_def)
next
  case (step c c')
  then show ?case by (blast intro: grant_step_wf)
qed

section \<open>A concrete grant, for the witnesses\<close>

definition ex_grant :: publish_grant where
  "ex_grant = \<lparr>operation = Publish,
     source = \<lparr>dataset_name = ''parcels'', content_hash = ''sha256:aa''\<rparr>,
     destination = DirectChildOf ''/srv/maps'', granted_by = \<lparr>principal_kind = OsUser, principal_id = ''someone''\<rparr>,
     granted_at = from_secs 10, lifetime = from_secs 60, granted_at_wall = 0\<rparr>"

definition ex_facts :: operation_facts where
  "ex_facts = \<lparr>facts_operation = Publish, facts_dataset_name = ''parcels'',
     facts_content_hash = ''sha256:aa'', facts_destination = ''/srv/maps/out''\<rparr>"

definition ex_set :: grant_set where
  "ex_set = \<lparr>grants = [ex_grant\<lparr>destination := Exact ''/elsewhere''\<rparr>, ex_grant]\<rparr>"

lemma ex_covers:
  "covers (DirectChildOf ''/srv/maps'') ''/srv/maps/out''" "\<not> covers (Exact ''/elsewhere'') ''/srv/maps/out''"
  by code_simp+

lemmas ex_defs = ex_grant_def ex_facts_def ex_set_def grant_covers_def ex_covers expired_def elapsed_def
  from_secs_def as_secs_def

lemma ex_find_live: "grant_set_find id ex_set ex_facts (from_secs 69) = Inr ex_grant"
  by (simp add: grant_set_find_Inr_iff ex_defs del: covers.simps)

lemma ex_find_lapsed: "grant_set_find id ex_set ex_facts (from_secs 75) = Inl (GrantExpired 60 65)"
  by (simp add: grant_set_find_alt ex_defs del: covers.simps)

section \<open>Properties\<close>

text \<open>
  C22: whenever \<open>GrantSet::find\<close> authorizes an operation, the grant it answers with is held, is for
  this operation kind, names exactly this dataset and this content hash, covers the resolved
  destination, and its lifetime has not elapsed at the instant of the check; and whenever any held
  grant satisfies all of that, the operation is authorized.
\<close>

theorem find_authorizes_exactly_live_matching_grants:
  "(grant_set_find nd s facts now = Inr g \<longrightarrow>
      g \<in> set (grants s) \<and> operation g = facts_operation facts \<and>
      dataset_name (source g) = facts_dataset_name facts \<and>
      content_hash (source g) = facts_content_hash facts \<and>
      covers (destination g) (facts_destination facts) \<and>
      now - granted_at g < lifetime g) \<and>
   (is_ok (grant_set_find nd s facts now) \<longleftrightarrow>
      (\<exists>h. h \<in> set (grants s) \<and> grant_covers h facts \<and> \<not> expired h now))"
  using gs.lookup_sound [of nd s facts now g]
  by (simp add: gs.authorized_iff grant_covers_def expired_def elapsed_def not_le)

theorem find_authorizes_exactly_live_matching_grants_witness:
  "grant_set_find id ex_set ex_facts (from_secs 69) = Inr ex_grant \<and> ex_grant \<in> set (grants ex_set) \<and>
   covers (destination ex_grant) (facts_destination ex_facts) \<and>
   from_secs 69 - granted_at ex_grant < lifetime ex_grant"
  using find_authorizes_exactly_live_matching_grants [of id ex_set ex_facts "from_secs 69" ex_grant]
    ex_find_live by simp

text \<open>
  the three refusals of \<open>GrantSet::find\<close> are told apart in the documented order: no grant for
  the operation kind, none whose scope covers the facts with expiry ignored, and only then expiry.
\<close>

theorem find_refusal_order:
  "((\<exists>o'. grant_set_find nd s facts now = Inl (NoGrant o')) \<longleftrightarrow>
      (\<forall>g. g \<in> set (grants s) \<longrightarrow> operation g \<noteq> facts_operation facts)) \<and>
   ((\<exists>d. grant_set_find nd s facts now = Inl (GrantScopeMismatch d)) \<longleftrightarrow>
      (\<exists>g. g \<in> set (grants s) \<and> operation g = facts_operation facts) \<and>
      (\<forall>g. g \<in> set (grants s) \<longrightarrow> \<not> grant_covers g facts)) \<and>
   ((\<exists>l e. grant_set_find nd s facts now = Inl (GrantExpired l e)) \<longleftrightarrow>
      (\<exists>g. g \<in> set (grants s) \<and> grant_covers g facts) \<and>
      (\<forall>g. g \<in> set (grants s) \<longrightarrow> grant_covers g facts \<longrightarrow> expired g now))"
proof -
  have op: "\<And>g. grant_covers g facts \<Longrightarrow> operation g = facts_operation facts"
    by (simp add: grant_covers_def)
  show ?thesis
    by (auto simp: grant_set_find_alt Let_def find_None_iff filter_empty_conv dest: op
        split: option.splits) (metis (mono_tags, lifting) find_Some_iff mem_Collect_eq nth_mem set_filter)+
qed

theorem find_refusal_order_witness:
  "grant_set_find id ex_set ex_facts (from_secs 75) = Inl (GrantExpired 60 65) \<and>
   (\<exists>g. g \<in> set (grants ex_set) \<and> grant_covers g ex_facts) \<and> expired ex_grant (from_secs 75)"
proof -
  have "ex_grant \<in> set (grants ex_set)" "grant_covers ex_grant ex_facts"
    by (simp_all add: ex_defs del: covers.simps)
  then show ?thesis
    using find_refusal_order [of id ex_set ex_facts "from_secs 75"] ex_find_lapsed by blast
qed

text \<open>
  when every grant in scope has lapsed, \<open>find\<close> reports the lifetime and age, in whole seconds, of
  the one that lapsed most recently, not of the youngest.
\<close>

theorem find_reports_most_recently_lapsed:
  assumes "grant_set_find nd s facts now = Inl (GrantExpired l e)"
  shows "\<exists>g. g \<in> set (grants s) \<and> grant_covers g facts \<and>
     l = as_secs (lifetime g) \<and> e = as_secs (now - granted_at g) \<and>
     (\<forall>h. h \<in> set (grants s) \<longrightarrow> grant_covers h facts \<longrightarrow>
        now - (granted_at g + lifetime g) \<le> now - (granted_at h + lifetime h))"
proof -
  let ?sc = "filter (\<lambda>g. grant_covers g facts) (grants s)"
  let ?late = "\<lambda>g. elapsed g now - lifetime g"
  have ne: "?sc \<noteq> []" and fin: "l = as_secs (lifetime (the (min_by_key ?late ?sc)))"
    "e = as_secs (elapsed (the (min_by_key ?late ?sc)) now)"
    using assms by (auto simp: grant_set_find_alt Let_def split: if_splits option.splits)
  from ne obtain g where g: "min_by_key ?late ?sc = Some g"
    by (cases "min_by_key ?late ?sc") auto
  then have "g \<in> set ?sc" "\<forall>h \<in> set ?sc. ?late g \<le> ?late h"
    using min_by_key_Some [OF g] by blast+
  with g fin show ?thesis by (intro exI [of _ g]) (auto simp: elapsed_def)
qed

theorem find_reports_most_recently_lapsed_witness:
  "\<exists>g. g \<in> set (grants ex_set) \<and> grant_covers g ex_facts \<and> 60 = as_secs (lifetime g)"
  using find_reports_most_recently_lapsed [OF ex_find_lapsed] by blast

text \<open>
  pruning expired grants at one instant changes no authorization a lookup gives at that instant
  or later: the same grant is found.
\<close>

theorem prune_expired_keeps_every_authorization:
  assumes "t0 \<le> now"
  shows "grant_set_find nd (prune_expired s t0) facts now = Inr g \<longleftrightarrow>
         grant_set_find nd s facts now = Inr g"
proof -
  have live: "\<And>h. \<not> expired h now \<Longrightarrow> \<not> expired h t0"
    using expired_mono assms by blast
  have "List.find (\<lambda>h. grant_covers h facts \<and> \<not> expired h now)
        (filter (\<lambda>h. \<not> expired h t0) gs) =
      List.find (\<lambda>h. grant_covers h facts \<and> \<not> expired h now) gs" for gs
    by (induction gs) (auto dest: live)
  then show ?thesis by (simp add: grant_set_find_Inr_iff prune_expired_def)
qed

theorem prune_expired_keeps_every_authorization_witness:
  "from_secs 68 \<le> from_secs 69 \<and>
   grant_set_find id (prune_expired ex_set (from_secs 68)) ex_facts (from_secs 69) = Inr ex_grant"
proof -
  have le: "from_secs 68 \<le> from_secs 69" by (simp add: from_secs_def)
  show ?thesis
    using le prune_expired_keeps_every_authorization [OF le, of id ex_set ex_facts ex_grant]
      ex_find_live by blast
qed

text \<open>
  evicting a consumed grant revokes the operation at every later instant, reports whether it
  removed anything, and leaves every grant that did not match these facts where it was.
\<close>

theorem remove_matching_revokes_exactly_the_match:
  "\<not> is_ok (grant_set_find nd (snd (remove_matching nd s facts)) facts now) \<and>
   (fst (remove_matching nd s facts) \<longleftrightarrow> (\<exists>g. g \<in> set (grants s) \<and> grant_covers g facts)) \<and>
   grants (snd (remove_matching nd s facts)) = filter (\<lambda>g. \<not> grant_covers g facts) (grants s)"
proof (intro conjI)
  show "\<not> is_ok (grant_set_find nd (snd (remove_matching nd s facts)) facts now)"
    by (rule gs.removing_scope_revokes) (simp add: remove_matching_grants)
  show "fst (remove_matching nd s facts) \<longleftrightarrow> (\<exists>g. g \<in> set (grants s) \<and> grant_covers g facts)"
    by (rule remove_matching_flag)
  show "grants (snd (remove_matching nd s facts)) = filter (\<lambda>g. \<not> grant_covers g facts) (grants s)"
    by (rule remove_matching_grants)
qed

text \<open>
  C23: in every state a process can reach, at most 64 grants are held and an authorization never
  outlives 20 minutes from the instant its grant was issued, whatever lifetime was asked for.
\<close>

theorem reachable_authorizations_are_bounded:
  assumes "grant_reachable nd (now, s)"
  shows "length (grants s) \<le> 64 \<and>
    (\<forall>facts g. grant_set_find nd s facts now = Inr g \<longrightarrow>
       granted_at g \<le> now \<and> now < granted_at g + from_secs 1200)"
proof -
  have wf: "grant_set_wf (now, s)" using assms by (rule grant_reachable_wf)
  have "granted_at g \<le> now \<and> now < granted_at g + from_secs 1200"
    if "grant_set_find nd s facts now = Inr g" for facts g
  proof -
    have "g \<in> set (grants s)" "\<not> expired g now"
      using gs.lookup_sound [OF that] by simp_all
    with wf show ?thesis
      by (auto simp: grant_set_wf_def expired_def elapsed_def max_grant_lifetime_def)
  qed
  with wf show ?thesis by (auto simp: grant_set_wf_def max_grants_def)
qed

theorem reachable_authorizations_are_bounded_witness:
  "grant_reachable id (0, \<lparr>grants = [ex_grant\<lparr>granted_at := 0\<rparr>]\<rparr>) \<and>
   length (grants \<lparr>grants = [ex_grant\<lparr>granted_at := 0\<rparr>]\<rparr>) \<le> 64"
proof -
  let ?g = "ex_grant\<lparr>granted_at := 0\<rparr>"
  have new: "publish_grant_new Publish (source ?g) (destination ?g) (granted_by ?g) (lifetime ?g) 0 0 =
      Inr ?g"
    by (simp add: publish_grant_new_def ex_grant_def max_grant_lifetime_def from_secs_def)
  have add: "grant_set_add grant_set_new ?g = Inr \<lparr>grants = [?g]\<rparr>"
    by (simp add: grant_set_add_def grant_set_new_def max_grants_def)
  have r: "grant_reachable id (0, \<lparr>grants = [?g]\<rparr>)"
    by (rule grant_reachable.step [OF grant_reachable.start grant_step.issue [OF new add]])
  show ?thesis using r reachable_authorizations_are_bounded [OF r] by blast
qed

end
