(* ===== verification/Wkb.thy ===== *)
theory Wkb
  imports Prelude
begin

text \<open>
  \<open>engine/src/wkb.rs\<close>: the WKB reader and the five GeoArrow builders. An \<open>f64\<close> is its 64-bit
  pattern, since the decoder never computes with coordinates: it copies them and compares two of
  them with IEEE equality. \<open>i32\<close> offsets are 32-bit words, so the source's \<open>as i32\<close> wraps as it
  does in Rust. \<open>EngineError::Wkb(text)\<close> is a constructor per refusal site with the values the text
  interpolates. A builder method returns its result and the builder as the call leaves it, because
  a refused row may leave coordinates behind.
\<close>

unbundle bit_operations_syntax

section \<open>Doubles as bit patterns\<close>

type_synonym f64 = u64
type_synonym i32 = "32 word"

definition f64_mag :: "f64 \<Rightarrow> f64" where
  "f64_mag x = x AND 0x7FFFFFFFFFFFFFFF"

definition f64_is_nan :: "f64 \<Rightarrow> bool" where
  "f64_is_nan x \<longleftrightarrow> f64_mag x > 0x7FF0000000000000"

text \<open>IEEE-754 \<open>==\<close>: NaN equals nothing, the two zeros are equal, otherwise bit equality.\<close>

definition f64_eq :: "f64 \<Rightarrow> f64 \<Rightarrow> bool" where
  "f64_eq x y \<longleftrightarrow> \<not> f64_is_nan x \<and> \<not> f64_is_nan y \<and> (x = y \<or> f64_mag x = 0 \<and> f64_mag y = 0)"

section \<open>Errors and constants\<close>

datatype wkb_error =
    EmptyGeometry
  | BadByteOrder byte
  | Truncated nat nat
  | EwkbFlags
  | PartEwkbFlags nat
  | UnexpectedType u32
  | UnexpectedPartType nat u32
  | ZeroRings
  | PartZeroRings nat
  | ZeroParts
  | RingTooShort nat nat
  | RingNotClosed nat
  | LineTooShort "nat option" nat
  | NanPoint
  | TrailingBytes nat

definition wkb_point :: u32 where
  "wkb_point = 1"

definition wkb_linestring :: u32 where
  "wkb_linestring = 2"

definition wkb_polygon :: u32 where
  "wkb_polygon = 3"

definition wkb_multilinestring :: u32 where
  "wkb_multilinestring = 5"

definition wkb_multipolygon :: u32 where
  "wkb_multipolygon = 6"

definition ewkb_flags :: u32 where
  "ewkb_flags = 0x20000000 OR 0x80000000 OR 0x40000000"

section \<open>The reader\<close>

record reader =
  rd_b :: "byte list"
  rd_at :: nat
  rd_little :: bool

definition reader_new :: "byte list \<Rightarrow> wkb_error + reader" where
  "reader_new b =
     (case b of
        [] \<Rightarrow> Inl EmptyGeometry
      | o' # _ \<Rightarrow>
          if o' = 1 then Inr \<lparr>rd_b = b, rd_at = 1, rd_little = True\<rparr>
          else if o' = 0 then Inr \<lparr>rd_b = b, rd_at = 1, rd_little = False\<rparr>
          else Inl (BadByteOrder o'))"

definition rd_take :: "nat \<Rightarrow> reader \<Rightarrow> wkb_error + byte list \<times> reader" where
  "rd_take n r =
     (case get_slice (rd_b r) (rd_at r) n of
        None \<Rightarrow> Inl (Truncated n (rd_at r))
      | Some s \<Rightarrow> Inr (s, r\<lparr>rd_at := rd_at r + n\<rparr>))"

definition rd_byte_order :: "reader \<Rightarrow> wkb_error + reader" where
  "rd_byte_order r =
     (case rd_take 1 r of
        Inl e \<Rightarrow> Inl e
      | Inr (s, r') \<Rightarrow>
          if hd s = 1 then Inr (r'\<lparr>rd_little := True\<rparr>)
          else if hd s = 0 then Inr (r'\<lparr>rd_little := False\<rparr>)
          else Inl (BadByteOrder (hd s)))"

definition rd_u32 :: "reader \<Rightarrow> wkb_error + u32 \<times> reader" where
  "rd_u32 r =
     (case rd_take 4 r of
        Inl e \<Rightarrow> Inl e
      | Inr (s, r') \<Rightarrow> Inr (if rd_little r then u32_from_le s else u32_from_be s, r'))"

definition rd_f64 :: "reader \<Rightarrow> wkb_error + f64 \<times> reader" where
  "rd_f64 r =
     (case rd_take 8 r of
        Inl e \<Rightarrow> Inl e
      | Inr (s, r') \<Rightarrow> Inr (if rd_little r then u64_from_le s else u64_from_be s, r'))"

definition is_exhausted :: "reader \<Rightarrow> bool" where
  "is_exhausted r \<longleftrightarrow> rd_at r = length (rd_b r)"

definition rd_remaining :: "reader \<Rightarrow> nat" where
  "rd_remaining r = length (rd_b r) - rd_at r"

section \<open>Rings and lines\<close>

text \<open>The coordinate loop shared by rings and lines: on an error the pairs read so far stay.\<close>

fun read_points :: "nat \<Rightarrow> reader \<Rightarrow> f64 list \<Rightarrow> (wkb_error + reader) \<times> f64 list" where
  "read_points 0 r coords = (Inr r, coords)"
| "read_points (Suc n) r coords =
     (case rd_f64 r of
        Inl e \<Rightarrow> (Inl e, coords)
      | Inr (x, r1) \<Rightarrow>
          (case rd_f64 r1 of
             Inl e \<Rightarrow> (Inl e, coords)
           | Inr (y, r2) \<Rightarrow> read_points n r2 (coords @ [x, y])))"

definition read_ring ::
    "reader \<Rightarrow> nat \<Rightarrow> f64 list \<Rightarrow> i32 list \<Rightarrow> (wkb_error + reader) \<times> f64 list \<times> i32 list" where
  "read_ring r ring coords ring_offsets =
     (case rd_u32 r of
        Inl e \<Rightarrow> (Inl e, coords, ring_offsets)
      | Inr (n, r1) \<Rightarrow>
          let n_pts = unat n
          in if n_pts < 4 then (Inl (RingTooShort ring n_pts), coords, ring_offsets)
             else
               let fst_i = length coords
               in case read_points n_pts r1 coords of
                    (Inl e, cs) \<Rightarrow> (Inl e, cs, ring_offsets)
                  | (Inr r2, cs) \<Rightarrow>
                      let last_i = length cs - 2
                      in if \<not> f64_eq (cs ! fst_i) (cs ! last_i) \<or>
                            \<not> f64_eq (cs ! (fst_i + 1)) (cs ! (last_i + 1))
                         then (Inl (RingNotClosed ring), cs, ring_offsets)
                         else (Inr r2, cs, ring_offsets @ [word_of_nat (length cs div 2)]))"

text \<open>\<open>for ring in 0..n_rings\<close>, from ring number \<open>ring\<close> with \<open>n\<close> left.\<close>

fun read_rings ::
    "nat \<Rightarrow> nat \<Rightarrow> reader \<Rightarrow> f64 list \<Rightarrow> i32 list \<Rightarrow> (wkb_error + reader) \<times> f64 list \<times> i32 list" where
  "read_rings ring 0 r coords ring_offsets = (Inr r, coords, ring_offsets)"
| "read_rings ring (Suc n) r coords ring_offsets =
     (case read_ring r ring coords ring_offsets of
        (Inl e, cs, offs) \<Rightarrow> (Inl e, cs, offs)
      | (Inr r', cs, offs) \<Rightarrow> read_rings (Suc ring) n r' cs offs)"

text \<open>
  \<open>what\<close> is the text the refusal names: \<open>None\<close> for a LineString row, \<open>Some part\<close> for that part of a
  MultiLineString.
\<close>

definition read_line ::
    "reader \<Rightarrow> nat option \<Rightarrow> f64 list \<Rightarrow> (wkb_error + reader) \<times> f64 list" where
  "read_line r what coords =
     (case rd_u32 r of
        Inl e \<Rightarrow> (Inl e, coords)
      | Inr (n, r1) \<Rightarrow>
          if unat n < 2 then (Inl (LineTooShort what (unat n)), coords)
          else read_points (unat n) r1 coords)"

section \<open>Polygons\<close>

record polygon_builder =
  pb_coords :: "f64 list"
  pb_ring_offsets :: "i32 list"
  pb_geom_offsets :: "i32 list"

definition polygon_builder_new :: polygon_builder where
  "polygon_builder_new = \<lparr>pb_coords = [], pb_ring_offsets = [0], pb_geom_offsets = [0]\<rparr>"

definition pb_polygons :: "polygon_builder \<Rightarrow> nat" where
  "pb_polygons b = length (pb_geom_offsets b) - 1"

definition pb_vertices :: "polygon_builder \<Rightarrow> nat" where
  "pb_vertices b = length (pb_coords b) div 2"

definition polygon_push_wkb ::
    "polygon_builder \<Rightarrow> byte list \<Rightarrow> (wkb_error + unit) \<times> polygon_builder" where
  "polygon_push_wkb b bytes =
     (case reader_new bytes of
        Inl e \<Rightarrow> (Inl e, b)
      | Inr r \<Rightarrow>
        (case rd_u32 r of
           Inl e \<Rightarrow> (Inl e, b)
         | Inr (raw_type, r) \<Rightarrow>
             if raw_type AND ewkb_flags \<noteq> 0 then (Inl EwkbFlags, b)
             else if raw_type \<noteq> wkb_polygon then (Inl (UnexpectedType raw_type), b)
             else
               (case rd_u32 r of
                  Inl e \<Rightarrow> (Inl e, b)
                | Inr (n, r) \<Rightarrow>
                    if unat n = 0 then (Inl ZeroRings, b)
                    else
                      (case read_rings 0 (unat n) r (pb_coords b) (pb_ring_offsets b) of
                         (Inl e, cs, offs) \<Rightarrow> (Inl e, b\<lparr>pb_coords := cs, pb_ring_offsets := offs\<rparr>)
                       | (Inr r, cs, offs) \<Rightarrow>
                           let b' = b\<lparr>pb_coords := cs, pb_ring_offsets := offs,
                                      pb_geom_offsets := pb_geom_offsets b @ [word_of_nat (length offs - 1)]\<rparr>
                           in if is_exhausted r then (Inr (), b')
                              else (Inl (TrailingBytes (rd_remaining r)), b')))))"

section \<open>Multipolygons\<close>

record multipolygon_builder =
  mp_coords :: "f64 list"
  mp_ring_offsets :: "i32 list"
  mp_part_offsets :: "i32 list"
  mp_geom_offsets :: "i32 list"

definition multipolygon_builder_new :: multipolygon_builder where
  "multipolygon_builder_new =
     \<lparr>mp_coords = [], mp_ring_offsets = [0], mp_part_offsets = [0], mp_geom_offsets = [0]\<rparr>"

definition mp_vertices :: "multipolygon_builder \<Rightarrow> nat" where
  "mp_vertices b = length (mp_coords b) div 2"

definition mp_push_part ::
    "multipolygon_builder \<Rightarrow> reader \<Rightarrow> nat \<Rightarrow> (wkb_error + reader) \<times> multipolygon_builder" where
  "mp_push_part b r part =
     (case rd_u32 r of
        Inl e \<Rightarrow> (Inl e, b)
      | Inr (n, r) \<Rightarrow>
          if unat n = 0 then (Inl (PartZeroRings part), b)
          else
            (case read_rings 0 (unat n) r (mp_coords b) (mp_ring_offsets b) of
               (Inl e, cs, offs) \<Rightarrow> (Inl e, b\<lparr>mp_coords := cs, mp_ring_offsets := offs\<rparr>)
             | (Inr r, cs, offs) \<Rightarrow>
                 (Inr r, b\<lparr>mp_coords := cs, mp_ring_offsets := offs,
                           mp_part_offsets := mp_part_offsets b @ [word_of_nat (length offs - 1)]\<rparr>)))"

text \<open>\<open>for part in 0..n_parts\<close>, from part number \<open>part\<close> with \<open>n\<close> left.\<close>

fun mp_push_parts ::
    "nat \<Rightarrow> nat \<Rightarrow> multipolygon_builder \<Rightarrow> reader \<Rightarrow> (wkb_error + reader) \<times> multipolygon_builder" where
  "mp_push_parts part 0 b r = (Inr r, b)"
| "mp_push_parts part (Suc n) b r =
     (case rd_byte_order r of
        Inl e \<Rightarrow> (Inl e, b)
      | Inr r \<Rightarrow>
        (case rd_u32 r of
           Inl e \<Rightarrow> (Inl e, b)
         | Inr (part_type, r) \<Rightarrow>
             if part_type AND ewkb_flags \<noteq> 0 then (Inl (PartEwkbFlags part), b)
             else if part_type \<noteq> wkb_polygon then (Inl (UnexpectedPartType part part_type), b)
             else
               (case mp_push_part b r part of
                  (Inl e, b) \<Rightarrow> (Inl e, b)
                | (Inr r, b) \<Rightarrow> mp_push_parts (Suc part) n b r)))"

definition multipolygon_push_wkb ::
    "multipolygon_builder \<Rightarrow> byte list \<Rightarrow> (wkb_error + unit) \<times> multipolygon_builder" where
  "multipolygon_push_wkb b bytes =
     (case reader_new bytes of
        Inl e \<Rightarrow> (Inl e, b)
      | Inr r \<Rightarrow>
        (case rd_u32 r of
           Inl e \<Rightarrow> (Inl e, b)
         | Inr (raw_type, r) \<Rightarrow>
             if raw_type AND ewkb_flags \<noteq> 0 then (Inl EwkbFlags, b)
             else
               (case (if raw_type = wkb_polygon then mp_push_part b r 0
                      else if raw_type = wkb_multipolygon then
                        (case rd_u32 r of
                           Inl e \<Rightarrow> (Inl e, b)
                         | Inr (n, r) \<Rightarrow>
                             if unat n = 0 then (Inl ZeroParts, b)
                             else mp_push_parts 0 (unat n) b r)
                      else (Inl (UnexpectedType raw_type), b)) of
                  (Inl e, b) \<Rightarrow> (Inl e, b)
                | (Inr r, b) \<Rightarrow>
                    if is_exhausted r
                    then (Inr (), b\<lparr>mp_geom_offsets :=
                                    mp_geom_offsets b @ [word_of_nat (length (mp_part_offsets b) - 1)]\<rparr>)
                    else (Inl (TrailingBytes (rd_remaining r)), b))))"

section \<open>Points\<close>

record point_builder =
  pt_coords :: "f64 list"

definition point_builder_new :: point_builder where
  "point_builder_new = \<lparr>pt_coords = []\<rparr>"

definition pt_vertices :: "point_builder \<Rightarrow> nat" where
  "pt_vertices b = length (pt_coords b) div 2"

definition point_push_wkb :: "point_builder \<Rightarrow> byte list \<Rightarrow> (wkb_error + unit) \<times> point_builder" where
  "point_push_wkb b bytes =
     (case reader_new bytes of
        Inl e \<Rightarrow> (Inl e, b)
      | Inr r \<Rightarrow>
        (case rd_u32 r of
           Inl e \<Rightarrow> (Inl e, b)
         | Inr (raw_type, r) \<Rightarrow>
             if raw_type AND ewkb_flags \<noteq> 0 then (Inl EwkbFlags, b)
             else if raw_type \<noteq> wkb_point then (Inl (UnexpectedType raw_type), b)
             else
               (case rd_f64 r of
                  Inl e \<Rightarrow> (Inl e, b)
                | Inr (x, r) \<Rightarrow>
                  (case rd_f64 r of
                     Inl e \<Rightarrow> (Inl e, b)
                   | Inr (y, r) \<Rightarrow>
                       if f64_is_nan x \<or> f64_is_nan y then (Inl NanPoint, b)
                       else if \<not> is_exhausted r then (Inl (TrailingBytes (rd_remaining r)), b)
                       else (Inr (), b\<lparr>pt_coords := pt_coords b @ [x, y]\<rparr>)))))"

section \<open>Lines and multilines\<close>

record linestring_builder =
  ls_coords :: "f64 list"
  ls_geom_offsets :: "i32 list"

definition linestring_builder_new :: linestring_builder where
  "linestring_builder_new = \<lparr>ls_coords = [], ls_geom_offsets = [0]\<rparr>"

definition ls_vertices :: "linestring_builder \<Rightarrow> nat" where
  "ls_vertices b = length (ls_coords b) div 2"

definition linestring_decode ::
    "linestring_builder \<Rightarrow> byte list \<Rightarrow> (wkb_error + unit) \<times> linestring_builder" where
  "linestring_decode b bytes =
     (case reader_new bytes of
        Inl e \<Rightarrow> (Inl e, b)
      | Inr r \<Rightarrow>
        (case rd_u32 r of
           Inl e \<Rightarrow> (Inl e, b)
         | Inr (raw_type, r) \<Rightarrow>
             if raw_type AND ewkb_flags \<noteq> 0 then (Inl EwkbFlags, b)
             else if raw_type \<noteq> wkb_linestring then (Inl (UnexpectedType raw_type), b)
             else
               (case read_line r None (ls_coords b) of
                  (Inl e, cs) \<Rightarrow> (Inl e, b\<lparr>ls_coords := cs\<rparr>)
                | (Inr r, cs) \<Rightarrow>
                    if is_exhausted r then (Inr (), b\<lparr>ls_coords := cs\<rparr>)
                    else (Inl (TrailingBytes (rd_remaining r)), b\<lparr>ls_coords := cs\<rparr>))))"

definition linestring_push_wkb ::
    "linestring_builder \<Rightarrow> byte list \<Rightarrow> (wkb_error + unit) \<times> linestring_builder" where
  "linestring_push_wkb b bytes =
     (let start = length (ls_coords b)
      in case linestring_decode b bytes of
           (Inl e, b') \<Rightarrow> (Inl e, b'\<lparr>ls_coords := take start (ls_coords b')\<rparr>)
         | (Inr u, b') \<Rightarrow>
             (Inr u, b'\<lparr>ls_geom_offsets := ls_geom_offsets b' @ [word_of_nat (ls_vertices b')]\<rparr>))"

record multilinestring_builder =
  ml_coords :: "f64 list"
  ml_part_offsets :: "i32 list"
  ml_geom_offsets :: "i32 list"

definition multilinestring_builder_new :: multilinestring_builder where
  "multilinestring_builder_new = \<lparr>ml_coords = [], ml_part_offsets = [0], ml_geom_offsets = [0]\<rparr>"

definition ml_vertices :: "multilinestring_builder \<Rightarrow> nat" where
  "ml_vertices b = length (ml_coords b) div 2"

definition ml_push_part ::
    "multilinestring_builder \<Rightarrow> reader \<Rightarrow> nat option \<Rightarrow>
     (wkb_error + reader) \<times> multilinestring_builder" where
  "ml_push_part b r what =
     (case read_line r what (ml_coords b) of
        (Inl e, cs) \<Rightarrow> (Inl e, b\<lparr>ml_coords := cs\<rparr>)
      | (Inr r, cs) \<Rightarrow>
          (Inr r, b\<lparr>ml_coords := cs,
                    ml_part_offsets := ml_part_offsets b @ [word_of_nat (length cs div 2)]\<rparr>))"

fun ml_push_parts ::
    "nat \<Rightarrow> nat \<Rightarrow> multilinestring_builder \<Rightarrow> reader \<Rightarrow>
     (wkb_error + reader) \<times> multilinestring_builder" where
  "ml_push_parts part 0 b r = (Inr r, b)"
| "ml_push_parts part (Suc n) b r =
     (case rd_byte_order r of
        Inl e \<Rightarrow> (Inl e, b)
      | Inr r \<Rightarrow>
        (case rd_u32 r of
           Inl e \<Rightarrow> (Inl e, b)
         | Inr (part_type, r) \<Rightarrow>
             if part_type AND ewkb_flags \<noteq> 0 then (Inl (PartEwkbFlags part), b)
             else if part_type \<noteq> wkb_linestring then (Inl (UnexpectedPartType part part_type), b)
             else
               (case ml_push_part b r (Some part) of
                  (Inl e, b) \<Rightarrow> (Inl e, b)
                | (Inr r, b) \<Rightarrow> ml_push_parts (Suc part) n b r)))"

definition multilinestring_decode ::
    "multilinestring_builder \<Rightarrow> byte list \<Rightarrow> (wkb_error + unit) \<times> multilinestring_builder" where
  "multilinestring_decode b bytes =
     (case reader_new bytes of
        Inl e \<Rightarrow> (Inl e, b)
      | Inr r \<Rightarrow>
        (case rd_u32 r of
           Inl e \<Rightarrow> (Inl e, b)
         | Inr (raw_type, r) \<Rightarrow>
             if raw_type AND ewkb_flags \<noteq> 0 then (Inl EwkbFlags, b)
             else
               (case (if raw_type = wkb_linestring then ml_push_part b r None
                      else if raw_type = wkb_multilinestring then
                        (case rd_u32 r of
                           Inl e \<Rightarrow> (Inl e, b)
                         | Inr (n, r) \<Rightarrow>
                             if unat n = 0 then (Inl ZeroParts, b)
                             else ml_push_parts 0 (unat n) b r)
                      else (Inl (UnexpectedType raw_type), b)) of
                  (Inl e, b) \<Rightarrow> (Inl e, b)
                | (Inr r, b) \<Rightarrow>
                    if is_exhausted r then (Inr (), b)
                    else (Inl (TrailingBytes (rd_remaining r)), b))))"

definition multilinestring_push_wkb ::
    "multilinestring_builder \<Rightarrow> byte list \<Rightarrow> (wkb_error + unit) \<times> multilinestring_builder" where
  "multilinestring_push_wkb b bytes =
     (let coords = length (ml_coords b); parts = length (ml_part_offsets b)
      in case multilinestring_decode b bytes of
           (Inl e, b') \<Rightarrow>
             (Inl e, b'\<lparr>ml_coords := take coords (ml_coords b'),
                        ml_part_offsets := take parts (ml_part_offsets b')\<rparr>)
         | (Inr u, b') \<Rightarrow>
             (Inr u, b'\<lparr>ml_geom_offsets :=
                          ml_geom_offsets b' @ [word_of_nat (length (ml_part_offsets b') - 1)]\<rparr>))"

section \<open>The encoder of the fixtures\<close>

type_synonym position = "f64 \<times> f64"
type_synonym ring = "position list"

definition encode_point :: "position \<Rightarrow> byte list" where
  "encode_point p = u64_to_le (fst p) @ u64_to_le (snd p)"

definition encode_ring :: "ring \<Rightarrow> byte list" where
  "encode_ring ring = u32_to_le (word_of_nat (length ring)) @ concat (map encode_point ring)"

definition encode_polygon :: "ring list \<Rightarrow> byte list" where
  "encode_polygon rings =
     1 # u32_to_le wkb_polygon @ u32_to_le (word_of_nat (length rings)) @
     concat (map encode_ring rings)"

end
