(* ===== verification/Wkb_Decode.thy ===== *)
theory Wkb_Decode
  imports Wkb
begin

text \<open>
  What the WKB builders accept, exactly. \<open>enc_polygon\<close> and its siblings spell out the well-formed
  encodings in either byte order; each decoding step is inverted once, as an equivalence between
  \<open>the step succeeds\<close> and \<open>the remaining bytes start with an encoding\<close>, so the builder theorems are
  equivalences too.
\<close>

unbundle bit_operations_syntax

section \<open>What remains to be read\<close>

definition rest :: "reader \<Rightarrow> byte list" where
  "rest r = drop (rd_at r) (rd_b r)"

definition adv :: "nat \<Rightarrow> reader \<Rightarrow> reader" where
  "adv k r = r\<lparr>rd_at := rd_at r + k\<rparr>"

definition enc32 :: "bool \<Rightarrow> u32 \<Rightarrow> byte list" where
  "enc32 little w = (if little then u32_to_le w else u32_to_be w)"

definition enc64 :: "bool \<Rightarrow> u64 \<Rightarrow> byte list" where
  "enc64 little w = (if little then u64_to_le w else u64_to_be w)"

named_theorems reader_simps \<open>advancing a reader\<close>

lemma rest_adv [simp, reader_simps]: "rest (adv k r) = drop k (rest r)"
  by (simp add: rest_def adv_def add.commute)

lemma adv_adv [simp, reader_simps]: "adv j (adv k r) = adv (k + j) r"
  by (simp add: adv_def ac_simps)

lemma little_adv [simp, reader_simps]: "rd_little (adv k r) = rd_little r"
  by (simp add: adv_def)

lemma length_enc [simp, codec_simps]: "length (enc32 l w) = 4" "length (enc64 l x) = 8"
  by (simp_all add: enc32_def enc64_def)

lemma rd_take_iff:
  "0 < n \<Longrightarrow> rd_take n r = Inr (s, r') \<longleftrightarrow>
     n \<le> length (rest r) \<and> s = take n (rest r) \<and> r' = adv n r"
  by (auto simp: rd_take_def get_slice_def rest_def adv_def)

lemma prefix_of_length: "n \<le> length xs \<and> s = take n xs \<longleftrightarrow> length s = n \<and> (\<exists>t. xs = s @ t)"
  by (auto simp: min_def) (metis append_take_drop_id)

lemma enc32_inverse:
  "length s = 4 \<Longrightarrow> (if l then u32_from_le s else u32_from_be s) = w \<longleftrightarrow> s = enc32 l w"
  by (auto simp: enc32_def int_bytes_surj)

lemma enc64_inverse:
  "length s = 8 \<Longrightarrow> (if l then u64_from_le s else u64_from_be s) = w \<longleftrightarrow> s = enc64 l w"
  by (auto simp: enc64_def int_bytes_surj)

lemma rd_u32_iff:
  "rd_u32 r = Inr (w, r') \<longleftrightarrow> (\<exists>t. rest r = enc32 (rd_little r) w @ t) \<and> r' = adv 4 r"
proof -
  have "rd_u32 r = Inr (w, r') \<longleftrightarrow>
      (\<exists>s. rd_take 4 r = Inr (s, r') \<and> (if rd_little r then u32_from_le s else u32_from_be s) = w)"
    by (auto simp: rd_u32_def split: sum.splits)
  also have "\<dots> \<longleftrightarrow> (\<exists>s. length s = 4 \<and> (\<exists>t. rest r = s @ t) \<and> s = enc32 (rd_little r) w) \<and> r' = adv 4 r"
    by (auto simp: rd_take_iff prefix_of_length [symmetric] enc32_inverse)
       (metis enc32_inverse length_take min.absorb2)+
  finally show ?thesis by auto
qed

lemma rd_f64_iff:
  "rd_f64 r = Inr (w, r') \<longleftrightarrow> (\<exists>t. rest r = enc64 (rd_little r) w @ t) \<and> r' = adv 8 r"
proof -
  have "rd_f64 r = Inr (w, r') \<longleftrightarrow>
      (\<exists>s. rd_take 8 r = Inr (s, r') \<and> (if rd_little r then u64_from_le s else u64_from_be s) = w)"
    by (auto simp: rd_f64_def split: sum.splits)
  also have "\<dots> \<longleftrightarrow> (\<exists>s. length s = 8 \<and> (\<exists>t. rest r = s @ t) \<and> s = enc64 (rd_little r) w) \<and> r' = adv 8 r"
    by (auto simp: rd_take_iff prefix_of_length [symmetric] enc64_inverse)
       (metis enc64_inverse length_take min.absorb2)+
  finally show ?thesis by auto
qed

section \<open>Well-formed encodings\<close>

definition flat :: "ring \<Rightarrow> f64 list" where
  "flat pts = concat (map (\<lambda>p. [fst p, snd p]) pts)"

definition enc_pts :: "bool \<Rightarrow> ring \<Rightarrow> byte list" where
  "enc_pts l pts = concat (map (\<lambda>p. enc64 l (fst p) @ enc64 l (snd p)) pts)"

definition enc_ring :: "bool \<Rightarrow> ring \<Rightarrow> byte list" where
  "enc_ring l pts = enc32 l (word_of_nat (length pts)) @ enc_pts l pts"

definition enc_rings :: "bool \<Rightarrow> ring list \<Rightarrow> byte list" where
  "enc_rings l rings = concat (map (enc_ring l) rings)"

definition order_byte :: "bool \<Rightarrow> byte" where
  "order_byte l = (if l then 1 else 0)"

text \<open>A closed ring: at least four positions, the last IEEE-equal to the first.\<close>

definition ring_ok :: "ring \<Rightarrow> bool" where
  "ring_ok pts \<longleftrightarrow> 4 \<le> length pts \<and> length pts < 2 ^ 32 \<and>
     f64_eq (fst (hd pts)) (fst (last pts)) \<and> f64_eq (snd (hd pts)) (snd (last pts))"

definition rings_ok :: "ring list \<Rightarrow> bool" where
  "rings_ok rings \<longleftrightarrow> rings \<noteq> [] \<and> length rings < 2 ^ 32 \<and> list_all ring_ok rings"

fun ring_ends :: "nat \<Rightarrow> ring list \<Rightarrow> i32 list" where
  "ring_ends base [] = []"
| "ring_ends base (pts # rings) = word_of_nat (base + length pts) # ring_ends (base + length pts) rings"

lemma flat_Nil [simp]: "flat [] = []"
  by (simp add: flat_def)

lemma flat_Cons [simp]: "flat (p # pts) = fst p # snd p # flat pts"
  by (simp add: flat_def)

lemma flat_append [simp]: "flat (pts @ qts) = flat pts @ flat qts"
  by (simp add: flat_def)

lemma length_flat [simp]: "length (flat pts) = 2 * length pts"
  by (induction pts) auto

lemma length_enc_pts [simp, codec_simps]: "length (enc_pts l pts) = 16 * length pts"
  by (induction pts) (auto simp: enc_pts_def)

lemma enc_pts_Cons [simp]: "enc_pts l (p # pts) = enc64 l (fst p) @ enc64 l (snd p) @ enc_pts l pts"
  by (simp add: enc_pts_def)

lemma enc_pts_Nil [simp]: "enc_pts l [] = []"
  by (simp add: enc_pts_def)

lemma enc_rings_Cons [simp]: "enc_rings l (p # ps) = enc_ring l p @ enc_rings l ps"
  by (simp add: enc_rings_def)

lemma enc_rings_Nil [simp]: "enc_rings l [] = []"
  by (simp add: enc_rings_def)

lemma flat_hd: "pts \<noteq> [] \<Longrightarrow> flat pts ! 0 = fst (hd pts) \<and> flat pts ! 1 = snd (hd pts)"
  by (cases pts) auto

lemma flat_last:
  "pts \<noteq> [] \<Longrightarrow> flat pts ! (2 * length pts - 2) = fst (last pts) \<and>
     flat pts ! (2 * length pts - 1) = snd (last pts)"
proof (induction pts rule: rev_induct)
  case Nil
  then show ?case by simp
next
  case (snoc p pts)
  then show ?case by (simp add: nth_append)
qed

lemma append_eq_len: "length a = length b \<Longrightarrow> a @ s = b @ t \<longleftrightarrow> a = b \<and> s = t"
  by simp

lemma read_points_iff:
  "read_points n r cs = (Inr r', cs') \<longleftrightarrow>
     (\<exists>pts t. length pts = n \<and> rest r = enc_pts (rd_little r) pts @ t \<and> r' = adv (16 * n) r \<and>
            cs' = cs @ flat pts)"
proof (induction n arbitrary: r cs)
  case 0
  show ?case by (auto simp: adv_def)
next
  case (Suc n)
  have "read_points (Suc n) r cs = (Inr r', cs') \<longleftrightarrow>
      (\<exists>x y t. rest r = enc64 (rd_little r) x @ enc64 (rd_little r) y @ t \<and>
         read_points n (adv 16 r) (cs @ [x, y]) = (Inr r', cs'))"
    (is "?L \<longleftrightarrow> ?R")
  proof
    assume ?L
    then obtain x r1 y r2 where xy: "rd_f64 r = Inr (x, r1)" "rd_f64 r1 = Inr (y, r2)"
      and rec: "read_points n r2 (cs @ [x, y]) = (Inr r', cs')"
      by (auto split: sum.splits)
    from xy obtain t t' where "rest r = enc64 (rd_little r) x @ t" "r1 = adv 8 r"
      "drop 8 (rest r) = enc64 (rd_little r) y @ t'" "r2 = adv 8 r1"
      by (auto simp: rd_f64_iff)
    with rec show ?R by auto
  next
    assume ?R
    then obtain x y t where r: "rest r = enc64 (rd_little r) x @ enc64 (rd_little r) y @ t"
      and rec: "read_points n (adv 16 r) (cs @ [x, y]) = (Inr r', cs')" by blast
    then have "rd_f64 r = Inr (x, adv 8 r)" "rd_f64 (adv 8 r) = Inr (y, adv 16 r)"
      by (auto simp: rd_f64_iff)
    with rec show ?L by simp
  qed
  also have "\<dots> \<longleftrightarrow> (\<exists>pts t. length pts = Suc n \<and> rest r = enc_pts (rd_little r) pts @ t \<and>
      r' = adv (16 * Suc n) r \<and> cs' = cs @ flat pts)"
    (is "?R \<longleftrightarrow> ?S")
  proof
    assume ?R
    then obtain x y t where r: "rest r = enc64 (rd_little r) x @ enc64 (rd_little r) y @ t"
      and "read_points n (adv 16 r) (cs @ [x, y]) = (Inr r', cs')" by blast
    then obtain pts u where "length pts = n" "t = enc_pts (rd_little r) pts @ u"
      "r' = adv (16 + 16 * n) r" "cs' = cs @ x # y # flat pts"
      by (auto simp: Suc.IH)
    with r show ?S by (intro exI [of _ "(x, y) # pts"] exI [of _ u]) auto
  next
    assume ?S
    then obtain pts t where p: "length pts = Suc n" "rest r = enc_pts (rd_little r) pts @ t"
      "r' = adv (16 * Suc n) r" "cs' = cs @ flat pts" by blast
    then obtain q qs where qs: "pts = q # qs" by (cases pts) auto
    with p have "rest r = enc64 (rd_little r) (fst q) @ enc64 (rd_little r) (snd q) @
        (enc_pts (rd_little r) qs @ t)" by simp
    moreover have "read_points n (adv 16 r) (cs @ [fst q, snd q]) = (Inr r', cs')"
      unfolding Suc.IH using p qs by (intro exI [of _ qs] exI [of _ t]) simp
    ultimately show ?R by blast
  qed
  finally show ?case .
qed

lemma enc32_inj: "enc32 l a = enc32 l b \<longleftrightarrow> a = b"
  by (metis enc32_def int_bytes_inverse(2) int_bytes_inverse(3))

lemma word_of_nat_eq_iff_small:
  "n < 2 ^ LENGTH('a) \<Longrightarrow> (word_of_nat n :: 'a::len word) = w \<longleftrightarrow> n = unat w"
  by (auto simp: unat_word_of_nat_small)

lemma closure_test:
  assumes "4 \<le> length pts"
  shows "f64_eq ((cs @ flat pts) ! length cs) ((cs @ flat pts) ! (length (cs @ flat pts) - 2)) \<and>
     f64_eq ((cs @ flat pts) ! (length cs + 1)) ((cs @ flat pts) ! (length (cs @ flat pts) - 2 + 1)) \<longleftrightarrow>
     f64_eq (fst (hd pts)) (fst (last pts)) \<and> f64_eq (snd (hd pts)) (snd (last pts))"
proof -
  have ne: "pts \<noteq> []" using assms by auto
  have "length (cs @ flat pts) - 2 = length cs + (2 * length pts - 2)"
    "length (cs @ flat pts) - 2 + 1 = length cs + (2 * length pts - 1)" using assms by auto
  then show ?thesis using flat_hd [OF ne] flat_last [OF ne]
    by (simp only: nth_append_length_plus) (simp add: nth_append)
qed

lemma read_ring_iff:
  "read_ring r k cs offs = (Inr r', cs', offs') \<longleftrightarrow>
     (\<exists>pts t. ring_ok pts \<and> rest r = enc_ring (rd_little r) pts @ t \<and> r' = adv (4 + 16 * length pts) r \<and>
        cs' = cs @ flat pts \<and> offs' = offs @ [word_of_nat ((length cs + 2 * length pts) div 2)])"
  (is "?L \<longleftrightarrow> ?R")
proof
  assume ?L
  then obtain w r1 where w: "rd_u32 r = Inr (w, r1)"
    by (auto simp: read_ring_def split: sum.splits)
  with \<open>?L\<close> have n4: "4 \<le> unat w"
    by (auto simp: read_ring_def Let_def split: if_splits prod.splits sum.splits)
  with \<open>?L\<close> w obtain cs1 where rp: "read_points (unat w) r1 cs = (Inr r', cs1)" and cs1: "cs' = cs1"
    and cl: "f64_eq (cs1 ! length cs) (cs1 ! (length cs1 - 2)) \<and>
      f64_eq (cs1 ! (length cs + 1)) (cs1 ! (length cs1 - 2 + 1))"
    and o': "offs' = offs @ [word_of_nat (length cs1 div 2)]"
    by (auto simp: read_ring_def Let_def split: if_splits prod.splits sum.splits)
  from w obtain t0 where r: "rest r = enc32 (rd_little r) w @ t0" "r1 = adv 4 r"
    by (auto simp: rd_u32_iff)
  from rp r obtain pts t where p: "length pts = unat w" "t0 = enc_pts (rd_little r) pts @ t"
    "r' = adv (4 + 16 * unat w) r" "cs1 = cs @ flat pts"
    by (auto simp: read_points_iff)
  have "ring_ok pts" using n4 p(1) cl closure_test [of pts cs] unsigned_less [of w]
    by (simp add: ring_ok_def p(4))
  moreover have "enc32 (rd_little r) w = enc32 (rd_little r) (word_of_nat (length pts))"
    using p(1) by simp
  ultimately show ?R using r p cs1 o' by (intro exI [of _ pts] exI [of _ t]) (simp add: enc_ring_def)
next
  assume ?R
  then obtain pts t where ok: "ring_ok pts" and r: "rest r = enc_ring (rd_little r) pts @ t"
    and e: "r' = adv (4 + 16 * length pts) r" "cs' = cs @ flat pts"
      "offs' = offs @ [word_of_nat ((length cs + 2 * length pts) div 2)]" by blast
  let ?w = "word_of_nat (length pts) :: u32"
  have n: "unat ?w = length pts" using ok by (intro unat_word_of_nat_small) (simp add: ring_ok_def)
  have "rd_u32 r = Inr (?w, adv 4 r)" using r by (auto simp: rd_u32_iff enc_ring_def)
  moreover have "read_points (length pts) (adv 4 r) cs = (Inr r', cs')"
    using r e by (auto simp: read_points_iff enc_ring_def)
  ultimately show ?L
    using ok n e closure_test [of pts cs] by (simp add: read_ring_def Let_def ring_ok_def)
qed

lemma half_even: "even n \<Longrightarrow> (n + 2 * m) div 2 = n div 2 + (m :: nat)"
  by auto

lemma read_rings_iff:
  "even (length cs) \<Longrightarrow> read_rings k n r cs offs = (Inr r', cs', offs') \<longleftrightarrow>
     (\<exists>rings t. length rings = n \<and> list_all ring_ok rings \<and>
        rest r = enc_rings (rd_little r) rings @ t \<and> r' = adv (length (enc_rings (rd_little r) rings)) r \<and>
        cs' = cs @ flat (concat rings) \<and> offs' = offs @ ring_ends (length cs div 2) rings)"
proof (induction n arbitrary: k r cs offs)
  case 0
  show ?case by (auto simp: adv_def)
next
  case (Suc n)
  let ?l = "rd_little r"
  show ?case (is "?L \<longleftrightarrow> ?R")
  proof
    assume ?L
    then obtain r1 cs1 offs1 where one: "read_ring r k cs offs = (Inr r1, cs1, offs1)"
      and more: "read_rings (Suc k) n r1 cs1 offs1 = (Inr r', cs', offs')"
      by (auto split: prod.splits sum.splits)
    from one obtain pts t where p: "ring_ok pts" "rest r = enc_ring ?l pts @ t"
      "r1 = adv (4 + 16 * length pts) r" "cs1 = cs @ flat pts"
      "offs1 = offs @ [word_of_nat (length cs div 2 + length pts)]"
      using Suc.prems by (auto simp: read_ring_iff half_even)
    have "even (length cs1)" using p(4) Suc.prems by simp
    with more obtain rings u where q: "length rings = n" "list_all ring_ok rings"
      "rest r1 = enc_rings ?l rings @ u" "r' = adv (length (enc_rings ?l rings)) r1"
      "cs' = cs1 @ flat (concat rings)" "offs' = offs1 @ ring_ends (length cs1 div 2) rings"
      using Suc.IH [of cs1 "Suc k" r1 offs1] p(3) by auto
    have len: "length (enc_ring ?l pts) = 4 + 16 * length pts" by (simp add: enc_ring_def)
    have "t = enc_rings ?l rings @ u" using p(2,3) q(3) len by simp
    then show ?R using p q len Suc.prems
      by (intro exI [of _ "pts # rings"] exI [of _ u]) (simp add: half_even ac_simps)
  next
    assume ?R
    then obtain rs t where q: "length rs = Suc n" "list_all ring_ok rs" "rest r = enc_rings ?l rs @ t"
      "r' = adv (length (enc_rings ?l rs)) r" "cs' = cs @ flat (concat rs)"
      "offs' = offs @ ring_ends (length cs div 2) rs" by blast
    then obtain pts rings where rs: "rs = pts # rings" by (cases rs) auto
    have len: "length (enc_ring ?l pts) = 4 + 16 * length pts" by (simp add: enc_ring_def)
    have one: "read_ring r k cs offs = (Inr (adv (4 + 16 * length pts) r), cs @ flat pts,
        offs @ [word_of_nat (length cs div 2 + length pts)])"
      using q rs Suc.prems by (auto simp: read_ring_iff half_even)
    have ev: "even (length (cs @ flat pts))" using Suc.prems by simp
    have "read_rings (Suc k) n (adv (4 + 16 * length pts) r) (cs @ flat pts)
        (offs @ [word_of_nat (length cs div 2 + length pts)]) = (Inr r', cs', offs')"
      using q rs len Suc.prems by (subst Suc.IH [OF ev]) (auto simp: half_even)
    with one show ?L by simp
  qed
qed

section \<open>Whole geometries\<close>

lemma reader_new_iff:
  "reader_new bytes = Inr r \<longleftrightarrow>
     (\<exists>l t. bytes = order_byte l # t \<and> r = \<lparr>rd_b = bytes, rd_at = 1, rd_little = l\<rparr>)"
  by (cases bytes) (auto simp: reader_new_def order_byte_def)

lemma type_codes_unflagged [simp]:
  "wkb_polygon AND ewkb_flags = 0" "wkb_multipolygon AND ewkb_flags = 0"
  "wkb_linestring AND ewkb_flags = 0" "wkb_multilinestring AND ewkb_flags = 0"
  "wkb_point AND ewkb_flags = 0"
  by (simp_all add: wkb_polygon_def wkb_multipolygon_def wkb_linestring_def wkb_multilinestring_def
      wkb_point_def ewkb_flags_def)

lemma type_codes_distinct [simp]:
  "wkb_multipolygon \<noteq> wkb_polygon" "wkb_multilinestring \<noteq> wkb_linestring"
  by (simp_all add: wkb_polygon_def wkb_multipolygon_def wkb_linestring_def wkb_multilinestring_def)

lemma exhausted_iff:
  "rd_at r \<le> length (rd_b r) \<Longrightarrow> rest r = x @ t \<Longrightarrow> k = length x \<Longrightarrow> is_exhausted (adv k r) \<longleftrightarrow> t = []"
proof -
  assume at: "rd_at r \<le> length (rd_b r)" and r: "rest r = x @ t" and k: "k = length x"
  have "length (rd_b r) - rd_at r = length x + length t"
    using arg_cong [OF r, of length] by (simp add: rest_def)
  then have "length (rd_b r) = rd_at r + length x + length t" using at by simp
  then show "is_exhausted (adv k r) \<longleftrightarrow> t = []"
    using k by (simp add: is_exhausted_def adv_def)
qed

lemma rd_u32_enc: "rest r = enc32 (rd_little r) w @ t \<Longrightarrow> rd_u32 r = Inr (w, adv 4 r)"
  by (simp add: rd_u32_iff)

lemma rd_f64_enc: "rest r = enc64 (rd_little r) w @ t \<Longrightarrow> rd_f64 r = Inr (w, adv 8 r)"
  by (simp add: rd_f64_iff)

lemma read_rings_enc:
  "even (length cs) \<Longrightarrow> list_all ring_ok rings \<Longrightarrow> rest r = enc_rings (rd_little r) rings @ t \<Longrightarrow>
     read_rings k (length rings) r cs offs =
       (Inr (adv (length (enc_rings (rd_little r) rings)) r), cs @ flat (concat rings),
        offs @ ring_ends (length cs div 2) rings)"
  by (subst read_rings_iff) auto

definition enc_polygon :: "bool \<Rightarrow> ring list \<Rightarrow> byte list" where
  "enc_polygon l rings =
     order_byte l # enc32 l wkb_polygon @ enc32 l (word_of_nat (length rings)) @ enc_rings l rings"

text \<open>The GeoArrow append of one decoded polygon.\<close>

definition pb_add :: "polygon_builder \<Rightarrow> ring list \<Rightarrow> polygon_builder" where
  "pb_add b rings =
     b\<lparr>pb_coords := pb_coords b @ flat (concat rings),
       pb_ring_offsets := pb_ring_offsets b @ ring_ends (length (pb_coords b) div 2) rings,
       pb_geom_offsets := pb_geom_offsets b @
         [word_of_nat (length (pb_ring_offsets b) + length rings - 1)]\<rparr>"

lemma length_ring_ends [simp]: "length (ring_ends base rings) = length rings"
  by (induction rings arbitrary: base) auto

lemma polygon_push_sound:
  assumes ev: "even (length (pb_coords b))" and ok: "polygon_push_wkb b bytes = (Inr (), b')"
  shows "\<exists>l rings. rings_ok rings \<and> bytes = enc_polygon l rings \<and> b' = pb_add b rings"
proof -
  from ok obtain r where r: "reader_new bytes = Inr r"
    by (auto simp: polygon_push_wkb_def split: sum.splits)
  with ok obtain r1 where t: "rd_u32 r = Inr (wkb_polygon, r1)"
    by (auto simp: polygon_push_wkb_def split: sum.splits if_splits)
  with ok r obtain w r2 where n: "rd_u32 r1 = Inr (w, r2)" "unat w \<noteq> 0"
    by (auto simp: polygon_push_wkb_def split: sum.splits if_splits)
  with ok r t obtain r3 cs offs where
    rr: "read_rings 0 (unat w) r2 (pb_coords b) (pb_ring_offsets b) = (Inr r3, cs, offs)"
    and ex: "is_exhausted r3"
    and b': "b' = b\<lparr>pb_coords := cs, pb_ring_offsets := offs,
        pb_geom_offsets := pb_geom_offsets b @ [word_of_nat (length offs - 1)]\<rparr>"
    by (auto simp: polygon_push_wkb_def Let_def split: sum.splits if_splits prod.splits)
  from r obtain l t0 where l: "bytes = order_byte l # t0" "r = \<lparr>rd_b = bytes, rd_at = 1, rd_little = l\<rparr>"
    by (auto simp: reader_new_iff)
  have rest: "rest r = t0" and lit: "rd_little r = l" using l by (simp_all add: rest_def)
  from t n(1) rest lit obtain u where u: "t0 = enc32 l wkb_polygon @ enc32 l w @ u"
    and r12: "r1 = adv 4 r" "r2 = adv 8 r"
    by (auto simp: rd_u32_iff)
  from rr obtain rings v where q: "length rings = unat w" "list_all ring_ok rings"
    "u = enc_rings l rings @ v" "r3 = adv (8 + length (enc_rings l rings)) r"
    "cs = pb_coords b @ flat (concat rings)"
    "offs = pb_ring_offsets b @ ring_ends (length (pb_coords b) div 2) rings"
    unfolding read_rings_iff [OF ev] using u rest lit r12 by auto
  have "v = []"
    using exhausted_iff [of r "enc32 l wkb_polygon @ enc32 l w @ enc_rings l rings" v
        "8 + length (enc_rings l rings)"] ex q(3,4) u rest l by simp
  moreover have w: "w = word_of_nat (length rings)" using q(1) by simp
  moreover have "rings_ok rings" using q(1,2) n(2) unsigned_less [of w] by (auto simp: rings_ok_def)
  ultimately show ?thesis using l u q b'
    by (intro exI [of _ l] exI [of _ rings]) (simp add: enc_polygon_def pb_add_def)
qed

lemma polygon_push_complete:
  assumes ev: "even (length (pb_coords b))" and ok: "rings_ok rings"
  shows "polygon_push_wkb b (enc_polygon l rings) = (Inr (), pb_add b rings)"
proof -
  define r where "r = \<lparr>rd_b = enc_polygon l rings, rd_at = 1, rd_little = l\<rparr>"
  define w where "w = (word_of_nat (length rings) :: u32)"
  define e where "e = enc_rings l rings"
  have w: "unat w = length rings"
    unfolding w_def using ok by (intro unat_word_of_nat_small) (simp add: rings_ok_def)
  have new: "reader_new (enc_polygon l rings) = Inr r"
    by (auto simp: reader_new_iff enc_polygon_def r_def)
  have rest: "rest r = enc32 l wkb_polygon @ enc32 l w @ e"
    by (simp add: rest_def enc_polygon_def r_def e_def w_def)
  have l: "rd_little r = l" by (simp add: r_def)
  have t: "rd_u32 r = Inr (wkb_polygon, adv 4 r)" using rest l by (intro rd_u32_enc) simp
  have n: "rd_u32 (adv 4 r) = Inr (w, adv 8 r)"
    using rd_u32_enc [of "adv 4 r" w e] rest l by simp
  have rr: "read_rings 0 (length rings) (adv 8 r) (pb_coords b) (pb_ring_offsets b) =
      (Inr (adv (8 + length e) r), pb_coords b @ flat (concat rings),
       pb_ring_offsets b @ ring_ends (length (pb_coords b) div 2) rings)"
    using read_rings_enc [OF ev, of rings "adv 8 r" "[]"] ok rest l by (simp add: rings_ok_def e_def)
  have at: "rd_at r \<le> length (rd_b r)" by (simp add: r_def enc_polygon_def)
  have "is_exhausted (adv (8 + length e) r)"
    using exhausted_iff [OF at, of "enc32 l wkb_polygon @ enc32 l w @ e" "[]" "8 + length e"] rest
    by simp
  then show ?thesis using new t n rr w ok
    by (simp add: polygon_push_wkb_def Let_def rings_ok_def pb_add_def)
qed

end
