(* ===== verification/Wkb_Rows.thy ===== *)
theory Wkb_Rows
  imports Wkb_Decode
begin

text \<open>
  Reading the polygon column back. The builder's three buffers are a GeoArrow polygon array: row
  \<open>i\<close> is the rings between two entries of \<open>geom_offsets\<close>, ring \<open>j\<close> the positions between two
  entries of \<open>ring_offsets\<close>. The offsets are \<open>i32\<close>, so the reader takes them as signed.
\<close>

section \<open>Slicing a concatenation\<close>

definition start_of :: "nat \<Rightarrow> 'a list list \<Rightarrow> nat" where
  "start_of k xss = sum_list (map length (take k xss))"

lemma start_of_length: "start_of k xss = length (concat (take k xss))"
  by (simp add: start_of_def length_concat)

lemma start_of_Suc: "k < length xss \<Longrightarrow> start_of (Suc k) xss = start_of k xss + length (xss ! k)"
  by (simp add: start_of_def take_Suc_conv_app_nth)

lemma start_of_mono: "start_of k xss \<le> length (concat xss)"
  by (metis append_take_drop_id concat_append le_add1 length_append start_of_length)

lemma slice_concat:
  assumes "k < length xss"
  shows "take (start_of (Suc k) xss - start_of k xss) (drop (start_of k xss) (concat xss)) = xss ! k"
proof -
  have "concat xss = concat (take k xss) @ xss ! k @ concat (drop (Suc k) xss)"
    using assms by (metis append_take_drop_id concat.simps(2) concat_append Cons_nth_drop_Suc)
  then show ?thesis using assms by (simp add: start_of_Suc) (simp add: start_of_length)
qed

lemma start_of_append_le: "k \<le> length xss \<Longrightarrow> start_of k (xss @ yss) = start_of k xss"
  by (simp add: start_of_def)

section \<open>Rows of the column\<close>

fun pairs :: "f64 list \<Rightarrow> position list" where
  "pairs (x # y # cs) = (x, y) # pairs cs"
| "pairs _ = []"

definition off :: "i32 list \<Rightarrow> nat \<Rightarrow> nat" where
  "off os k = nat (sint (os ! k))"

definition pb_ring :: "polygon_builder \<Rightarrow> nat \<Rightarrow> ring" where
  "pb_ring b j =
     take (off (pb_ring_offsets b) (Suc j) - off (pb_ring_offsets b) j)
       (drop (off (pb_ring_offsets b) j) (pairs (pb_coords b)))"

definition pb_row :: "polygon_builder \<Rightarrow> nat \<Rightarrow> ring list" where
  "pb_row b i = map (pb_ring b) [off (pb_geom_offsets b) i..<off (pb_geom_offsets b) (Suc i)]"

definition pb_rows :: "polygon_builder \<Rightarrow> ring list list" where
  "pb_rows b = map (pb_row b) [0..<pb_polygons b]"

text \<open>Pushing rows in order, stopping at the first refusal as \<open>?\<close> does.\<close>

fun polygon_push_all ::
    "polygon_builder \<Rightarrow> byte list list \<Rightarrow> (wkb_error + unit) \<times> polygon_builder" where
  "polygon_push_all b [] = (Inr (), b)"
| "polygon_push_all b (row # rows) =
     (case polygon_push_wkb b row of
        (Inl e, b') \<Rightarrow> (Inl e, b')
      | (Inr _, b') \<Rightarrow> polygon_push_all b' rows)"

lemma pairs_flat [simp]: "pairs (flat pts) = pts"
  by (induction pts) auto

lemma sint_word_of_nat_small: "n < 2 ^ 31 \<Longrightarrow> sint (word_of_nat n :: i32) = int n"
  by (simp add: sint_uint unsigned_of_nat take_bit_nat_eq_self signed_take_bit_int_eq_self)

lemma ring_ends_append:
  "ring_ends base (xs @ ys) = ring_ends base xs @ ring_ends (base + length (concat xs)) ys"
  by (induction xs arbitrary: base) (auto simp: ac_simps)

lemma nth_ring_ends:
  "j < length rings \<Longrightarrow> ring_ends base rings ! j = word_of_nat (base + start_of (Suc j) rings)"
proof (induction rings arbitrary: base j)
  case Nil
  then show ?case by simp
next
  case (Cons r rings)
  then show ?case by (cases j) (auto simp: start_of_def ac_simps)
qed

text \<open>The buffers after the rows \<open>gs\<close>.\<close>

definition holds_rows :: "ring list list \<Rightarrow> polygon_builder \<Rightarrow> bool" where
  "holds_rows gs b \<longleftrightarrow>
     pb_coords b = flat (concat (concat gs)) \<and>
     pb_ring_offsets b = 0 # ring_ends 0 (concat gs) \<and>
     pb_geom_offsets b = map (\<lambda>k. word_of_nat (start_of k gs)) [0..<Suc (length gs)]"

lemma holds_rows_new: "holds_rows [] polygon_builder_new"
  by (simp add: holds_rows_def polygon_builder_new_def start_of_def)

lemma holds_rows_add: "holds_rows gs b \<Longrightarrow> holds_rows (gs @ [g]) (pb_add b g)"
  by (auto simp: holds_rows_def pb_add_def ring_ends_append start_of_append_le)
     (simp add: start_of_length length_concat)

lemma holds_rows_even: "holds_rows gs b \<Longrightarrow> even (length (pb_coords b))"
  by (simp add: holds_rows_def)

lemma holds_rows_read:
  assumes h: "holds_rows gs b" and small: "length (concat (concat gs)) < 2 ^ 31" "length (concat gs) < 2 ^ 31"
  shows "pb_rows b = gs"
proof -
  let ?rs = "concat gs"
  have ro: "off (pb_ring_offsets b) j = start_of j ?rs" if "j \<le> length ?rs" for j
    using that h small(1) start_of_mono [of j ?rs]
    by (cases j) (auto simp: holds_rows_def off_def nth_ring_ends sint_word_of_nat_small start_of_def)
  have coords: "pb_coords b = flat (concat ?rs)" using h by (simp add: holds_rows_def)
  have ring: "pb_ring b j = ?rs ! j" if "j < length ?rs" for j
    using that coords slice_concat [of j ?rs] by (simp add: pb_ring_def ro)
  have go: "off (pb_geom_offsets b) i = start_of i gs" if "i \<le> length gs" for i
    using that h small(2) start_of_mono [of i gs]
    by (auto simp: holds_rows_def off_def nth_append sint_word_of_nat_small simp del: upt_Suc)
  have row: "pb_row b i = gs ! i" if i: "i < length gs" for i
  proof -
    have le: "start_of (Suc i) gs \<le> length ?rs" by (rule start_of_mono)
    have "pb_row b i = map (\<lambda>j. ?rs ! j) [start_of i gs..<start_of (Suc i) gs]"
      using i le by (auto simp: pb_row_def go ring)
    also have "\<dots> = take (start_of (Suc i) gs - start_of i gs) (drop (start_of i gs) ?rs)"
      using le i by (intro nth_equalityI) (auto simp: start_of_Suc)
    finally show ?thesis by (simp add: slice_concat i)
  qed
  have "pb_polygons b = length gs" using h by (simp add: holds_rows_def pb_polygons_def)
  then show ?thesis by (intro nth_equalityI) (auto simp: pb_rows_def row)
qed

lemma push_all_holds:
  "holds_rows gs b \<Longrightarrow> list_all rings_ok hs \<Longrightarrow>
     \<exists>b'. polygon_push_all b (map (\<lambda>(l, g). enc_polygon l g) (zip ls hs)) = (Inr (), b') \<and>
        holds_rows (gs @ take (length ls) hs) b'"
proof (induction hs arbitrary: gs b ls)
  case Nil
  then show ?case by simp
next
  case (Cons h hs)
  show ?case
  proof (cases ls)
    case Nil
    then show ?thesis using Cons.prems by simp
  next
    case (Cons l ls')
    then show ?thesis
      using Cons.IH [OF holds_rows_add [OF Cons.prems(1), of h], of ls'] Cons.prems
        polygon_push_complete [OF holds_rows_even [OF Cons.prems(1)], of h l]
      by simp
  qed
qed

lemma encode_polygon_enc: "encode_polygon rings = enc_polygon True rings"
proof -
  have "encode_ring = enc_ring True"
    by (rule ext) (simp add: encode_ring_def enc_ring_def enc_pts_def encode_point_def [abs_def]
        enc32_def enc64_def)
  then show ?thesis by (simp add: encode_polygon_def enc_polygon_def enc_rings_def order_byte_def enc32_def)
qed

section \<open>Properties\<close>

text \<open>
  C24: \<open>PolygonBuilder::push_wkb\<close> accepts exactly the well-formed polygons, in either byte order: at
  least one ring, every ring of at least four positions and closed under IEEE equality, no byte left
  over; and what it appends is those rings, their end offsets and one geometry offset. Anything else
  is refused.
\<close>
theorem polygon_push_accepts_exactly_well_formed:
  assumes "even (length (pb_coords b))"
  shows "polygon_push_wkb b bytes = (Inr (), b') \<longleftrightarrow>
    (\<exists>l rings. rings_ok rings \<and> bytes = enc_polygon l rings \<and> b' = pb_add b rings)"
  using polygon_push_sound [OF assms] polygon_push_complete [OF assms] by blast

definition ex_ring :: ring where
  "ex_ring = [(0, 0), (0x3FF0000000000000, 0), (0x3FF0000000000000, 0x3FF0000000000000), (0, 0)]"

lemma ex_ring_ok: "rings_ok [ex_ring]"
  by (simp add: rings_ok_def ring_ok_def ex_ring_def f64_eq_def f64_is_nan_def f64_mag_def)

theorem polygon_push_accepts_exactly_well_formed_witness:
  "polygon_push_wkb polygon_builder_new (enc_polygon False [ex_ring]) =
     (Inr (), pb_add polygon_builder_new [ex_ring])"
  using polygon_push_accepts_exactly_well_formed [of polygon_builder_new "enc_polygon False [ex_ring]"]
    ex_ring_ok by (auto simp: polygon_builder_new_def)

text \<open>
  Decoding loses nothing. Push the encodings of any polygons, each in its own byte order, into a
  new builder: every push is accepted, and reading the column back through its signed offsets gives
  the same polygons, ring by ring and position by position, as long as the column has fewer than
  \<open>2 ^ 31\<close> positions and rings, the range of the \<open>i32\<close> offsets.
\<close>
theorem polygon_column_roundtrip:
  assumes "list_all rings_ok gs" "length ls = length gs"
    and "length (concat (concat gs)) < 2 ^ 31" "length (concat gs) < 2 ^ 31"
  shows "\<exists>b. polygon_push_all polygon_builder_new (map (\<lambda>(l, g). enc_polygon l g) (zip ls gs)) = (Inr (), b) \<and>
    pb_rows b = gs"
  using push_all_holds [OF holds_rows_new assms(1), of ls] assms(2-) holds_rows_read
  by fastforce

theorem polygon_column_roundtrip_witness:
  "\<exists>b. polygon_push_all polygon_builder_new [enc_polygon True [ex_ring], enc_polygon False [ex_ring, ex_ring]] =
     (Inr (), b) \<and> pb_rows b = [[ex_ring], [ex_ring, ex_ring]]"
  using polygon_column_roundtrip [of "[[ex_ring], [ex_ring, ex_ring]]" "[True, False]"] ex_ring_ok
  by (simp add: rings_ok_def) (simp add: ex_ring_def)

text \<open>
  The crate's own encoder and decoder agree: every valid polygon that \<open>encode_polygon\<close> writes is
  accepted by \<open>push_wkb\<close> and reads back as the same rings.
\<close>
theorem encode_polygon_roundtrip:
  assumes "rings_ok rings" "length (concat rings) < 2 ^ 31" "length rings < 2 ^ 31"
  shows "\<exists>b. polygon_push_wkb polygon_builder_new (encode_polygon rings) = (Inr (), b) \<and> pb_rows b = [rings]"
proof -
  have h: "holds_rows ([] @ [rings]) (pb_add polygon_builder_new rings)"
    by (rule holds_rows_add [OF holds_rows_new])
  show ?thesis
    using polygon_push_complete [OF holds_rows_even [OF holds_rows_new] assms(1), of True]
      holds_rows_read [OF h] assms by (simp add: encode_polygon_enc)
qed

theorem encode_polygon_roundtrip_witness:
  "\<exists>b. polygon_push_wkb polygon_builder_new (encode_polygon [ex_ring]) = (Inr (), b) \<and> pb_rows b = [[ex_ring]]"
  using encode_polygon_roundtrip [of "[ex_ring]"] ex_ring_ok by (simp add: ex_ring_def)

end
