(* ===== verification/Wkb_Builders.thy ===== *)
theory Wkb_Builders
  imports Wkb_Rows
begin

text \<open>
  The multipolygon, point and line builders: what the multipolygon builder accepts, and the contract
  the point, line and multiline builders share, that a refused row appends nothing. The contract is
  a locale; the stream's use of it, stop at the first refusal with the accepted rows intact, is
  proved once there.
\<close>

unbundle bit_operations_syntax

section \<open>Multipolygon rows\<close>

definition mp_add_part :: "multipolygon_builder \<Rightarrow> ring list \<Rightarrow> multipolygon_builder" where
  "mp_add_part b rings =
     b\<lparr>mp_coords := mp_coords b @ flat (concat rings),
       mp_ring_offsets := mp_ring_offsets b @ ring_ends (length (mp_coords b) div 2) rings,
       mp_part_offsets := mp_part_offsets b @
         [word_of_nat (length (mp_ring_offsets b) + length rings - 1)]\<rparr>"

definition mp_add :: "multipolygon_builder \<Rightarrow> ring list list \<Rightarrow> multipolygon_builder" where
  "mp_add b parts =
     (let b' = foldl mp_add_part b parts
      in b'\<lparr>mp_geom_offsets := mp_geom_offsets b' @ [word_of_nat (length (mp_part_offsets b') - 1)]\<rparr>)"

definition enc_parts :: "(bool \<times> ring list) list \<Rightarrow> byte list" where
  "enc_parts ps = concat (map (\<lambda>(l, g). enc_polygon l g) ps)"

definition enc_multipolygon :: "bool \<Rightarrow> (bool \<times> ring list) list \<Rightarrow> byte list" where
  "enc_multipolygon l ps =
     order_byte l # enc32 l wkb_multipolygon @ enc32 l (word_of_nat (length ps)) @ enc_parts ps"

text \<open>A part body is a polygon without its byte order and type.\<close>

definition enc_body :: "bool \<Rightarrow> ring list \<Rightarrow> byte list" where
  "enc_body l rings = enc32 l (word_of_nat (length rings)) @ enc_rings l rings"

lemma enc_polygon_body: "enc_polygon l rings = order_byte l # enc32 l wkb_polygon @ enc_body l rings"
  by (simp add: enc_polygon_def enc_body_def)

lemma mp_coords_add_even: "even (length (mp_coords b)) \<Longrightarrow> even (length (mp_coords (mp_add_part b g)))"
  by (simp add: mp_add_part_def)

lemma mp_push_part_iff:
  assumes ev: "even (length (mp_coords b))"
  shows "mp_push_part b r k = (Inr r', b') \<longleftrightarrow>
    (\<exists>rings t. rings_ok rings \<and> rest r = enc_body (rd_little r) rings @ t \<and>
       r' = adv (length (enc_body (rd_little r) rings)) r \<and> b' = mp_add_part b rings)"
  (is "?L \<longleftrightarrow> ?R")
proof
  assume ?L
  then obtain w r1 where w: "rd_u32 r = Inr (w, r1)" "unat w \<noteq> 0"
    by (auto simp: mp_push_part_def split: sum.splits if_splits)
  with \<open>?L\<close> obtain cs offs where
    rr: "read_rings 0 (unat w) r1 (mp_coords b) (mp_ring_offsets b) = (Inr r', cs, offs)"
    and b': "b' = b\<lparr>mp_coords := cs, mp_ring_offsets := offs,
      mp_part_offsets := mp_part_offsets b @ [word_of_nat (length offs - 1)]\<rparr>"
    by (auto simp: mp_push_part_def split: sum.splits if_splits prod.splits)
  from w(1) obtain u where u: "rest r = enc32 (rd_little r) w @ u" "r1 = adv 4 r"
    by (auto simp: rd_u32_iff)
  from rr obtain rings t where q: "length rings = unat w" "list_all ring_ok rings"
    "u = enc_rings (rd_little r) rings @ t" "r' = adv (4 + length (enc_rings (rd_little r) rings)) r"
    "cs = mp_coords b @ flat (concat rings)"
    "offs = mp_ring_offsets b @ ring_ends (length (mp_coords b) div 2) rings"
    unfolding read_rings_iff [OF ev] using u by auto
  have "w = word_of_nat (length rings)" using q(1) by simp
  moreover have "rings_ok rings" using q(1,2) w(2) unsigned_less [of w] by (auto simp: rings_ok_def)
  ultimately show ?R using u q b'
    by (intro exI [of _ rings] exI [of _ t]) (simp add: enc_body_def mp_add_part_def)
next
  assume ?R
  then obtain rings t where ok: "rings_ok rings" and r: "rest r = enc_body (rd_little r) rings @ t"
    and e: "r' = adv (length (enc_body (rd_little r) rings)) r" "b' = mp_add_part b rings" by blast
  have n: "unat (word_of_nat (length rings) :: u32) = length rings"
    using ok by (intro unat_word_of_nat_small) (simp add: rings_ok_def)
  have "rd_u32 r = Inr (word_of_nat (length rings), adv 4 r)"
    using r by (intro rd_u32_enc) (simp add: enc_body_def)
  moreover have "rest (adv 4 r) = enc_rings (rd_little (adv 4 r)) rings @ t"
    using r by (simp add: enc_body_def)
  ultimately show ?L
    using read_rings_enc [OF ev, of rings "adv 4 r" t 0 "mp_ring_offsets b"] n ok e
    by (simp add: mp_push_part_def rings_ok_def enc_body_def mp_add_part_def)
qed

lemma rest_little [simp, reader_simps]: "rest (r\<lparr>rd_little := l\<rparr>) = rest r"
  by (simp add: rest_def)

lemma rd_byte_order_iff:
  "rd_byte_order r = Inr r' \<longleftrightarrow>
     (\<exists>l t. rest r = order_byte l # t \<and> r' = (adv 1 r)\<lparr>rd_little := l\<rparr>)"
proof -
  have "rd_byte_order r = Inr r' \<longleftrightarrow>
      (\<exists>s r1. rd_take 1 r = Inr (s, r1) \<and> (\<exists>l. hd s = order_byte l \<and> r' = r1\<lparr>rd_little := l\<rparr>))"
    by (auto simp: rd_byte_order_def order_byte_def split: sum.splits if_splits)
  also have "\<dots> \<longleftrightarrow> (\<exists>l t. rest r = order_byte l # t \<and> r' = (adv 1 r)\<lparr>rd_little := l\<rparr>)"
    by (cases "rest r") (auto simp: rd_take_iff)
  finally show ?thesis .
qed

lemma enc_parts_Cons [simp]: "enc_parts (p # ps) = enc_polygon (fst p) (snd p) @ enc_parts ps"
  by (simp add: enc_parts_def split_beta)

lemma enc_parts_Nil [simp]: "enc_parts [] = []"
  by (simp add: enc_parts_def)

definition moved :: "nat \<Rightarrow> reader \<Rightarrow> reader \<Rightarrow> bool" where
  "moved k r r' \<longleftrightarrow> rd_b r' = rd_b r \<and> rd_at r' = rd_at r + k"

lemma moved_rest: "moved k r r' \<Longrightarrow> rest r' = drop k (rest r)"
  by (simp add: moved_def rest_def add.commute)

lemma moved_exhausted:
  "moved k r r' \<Longrightarrow> rd_at r \<le> length (rd_b r) \<Longrightarrow> rest r = x @ t \<Longrightarrow> k = length x \<Longrightarrow>
     is_exhausted r' \<longleftrightarrow> t = []"
  using exhausted_iff [of r x t k] by (simp add: moved_def is_exhausted_def adv_def)

text \<open>One part: its byte order, its type and its body.\<close>

lemma mp_parts_step:
  assumes ev: "even (length (mp_coords b))"
  shows "mp_push_parts k (Suc n) b r = (Inr r', b') \<longleftrightarrow>
    (\<exists>l rings t r1. rings_ok rings \<and> rest r = enc_polygon l rings @ t \<and>
       moved (length (enc_polygon l rings)) r r1 \<and> rd_little r1 = l \<and>
       mp_push_parts (Suc k) n (mp_add_part b rings) r1 = (Inr r', b'))"
  (is "?L \<longleftrightarrow> ?R")
proof
  assume ?L
  then obtain r1 r2 r3 b3 where s: "rd_byte_order r = Inr r1" "rd_u32 r1 = Inr (wkb_polygon, r2)"
    "mp_push_part b r2 k = (Inr r3, b3)" "mp_push_parts (Suc k) n b3 r3 = (Inr r', b')"
    by (auto split: sum.splits if_splits prod.splits)
  from s(1) obtain l t where l: "rest r = order_byte l # t" "r1 = (adv 1 r)\<lparr>rd_little := l\<rparr>"
    by (auto simp: rd_byte_order_iff)
  from s(2) l obtain u where u: "t = enc32 l wkb_polygon @ u" "r2 = adv 4 r1"
    by (auto simp: rd_u32_iff)
  from s(3) u l obtain rings v where q: "rings_ok rings" "u = enc_body l rings @ v"
    "r3 = adv (length (enc_body l rings)) r2" "b3 = mp_add_part b rings"
    unfolding mp_push_part_iff [OF ev] by auto
  then show ?R using l u s(4)
    by (intro exI [of _ l] exI [of _ rings] exI [of _ v] exI [of _ r3])
       (simp add: enc_polygon_body moved_def adv_def)
next
  assume ?R
  then obtain l rings t r1 where q: "rings_ok rings" "rest r = enc_polygon l rings @ t"
    "moved (length (enc_polygon l rings)) r r1" "rd_little r1 = l"
    "mp_push_parts (Suc k) n (mp_add_part b rings) r1 = (Inr r', b')" by blast
  define r0 where "r0 = (adv 1 r)\<lparr>rd_little := l\<rparr>"
  have r0: "rest r0 = enc32 l wkb_polygon @ enc_body l rings @ t" "rd_little r0 = l"
    using q(2) by (simp_all add: r0_def enc_polygon_body)
  have o': "rd_byte_order r = Inr r0" using q(2) by (auto simp: rd_byte_order_iff r0_def enc_polygon_body)
  have ty: "rd_u32 r0 = Inr (wkb_polygon, adv 4 r0)" using r0 by (intro rd_u32_enc) simp
  have r1: "r1 = adv (length (enc_body l rings)) (adv 4 r0)"
    using q(3,4) by (simp add: moved_def r0_def adv_def enc_polygon_body)
  have "mp_push_part b (adv 4 r0) k = (Inr r1, mp_add_part b rings)"
    unfolding mp_push_part_iff [OF ev] using q(1) r0 r1
    by (intro exI [of _ rings] exI [of _ t]) simp
  with o' ty q(5) show ?L by simp
qed

definition parts_ok :: "(bool \<times> ring list) list \<Rightarrow> bool" where
  "parts_ok ps \<longleftrightarrow> list_all (\<lambda>p. rings_ok (snd p)) ps"

lemma mp_push_parts_sound:
  "even (length (mp_coords b)) \<Longrightarrow> mp_push_parts k n b r = (Inr r', b') \<Longrightarrow>
     \<exists>ps t. length ps = n \<and> parts_ok ps \<and> rest r = enc_parts ps @ t \<and>
       moved (length (enc_parts ps)) r r' \<and> b' = foldl mp_add_part b (map snd ps)"
proof (induction n arbitrary: k b r)
  case 0
  then show ?case by (simp add: parts_ok_def moved_def)
next
  case (Suc n)
  from Suc.prems obtain l rings t r1 where q: "rings_ok rings" "rest r = enc_polygon l rings @ t"
    "moved (length (enc_polygon l rings)) r r1"
    "mp_push_parts (Suc k) n (mp_add_part b rings) r1 = (Inr r', b')"
    by (auto simp only: mp_parts_step)
  from Suc.IH [OF mp_coords_add_even [OF Suc.prems(1)] q(4)] obtain ps u where
    p: "length ps = n" "parts_ok ps" "rest r1 = enc_parts ps @ u"
      "moved (length (enc_parts ps)) r1 r'" "b' = foldl mp_add_part (mp_add_part b rings) (map snd ps)"
    by blast
  have "t = enc_parts ps @ u" using p(3) moved_rest [OF q(3)] q(2) by simp
  then show ?case using p q
    by (intro exI [of _ "(l, rings) # ps"] exI [of _ u]) (simp add: parts_ok_def moved_def)
qed

lemma mp_push_parts_complete:
  "even (length (mp_coords b)) \<Longrightarrow> parts_ok ps \<Longrightarrow> rest r = enc_parts ps @ t \<Longrightarrow>
     \<exists>r'. mp_push_parts k (length ps) b r = (Inr r', foldl mp_add_part b (map snd ps)) \<and>
       moved (length (enc_parts ps)) r r'"
proof (induction ps arbitrary: k b r)
  case Nil
  then show ?case by (simp add: moved_def)
next
  case (Cons p ps)
  define r1 where "r1 = (adv (length (enc_polygon (fst p) (snd p))) r)\<lparr>rd_little := fst p\<rparr>"
  have m: "moved (length (enc_polygon (fst p) (snd p))) r r1" by (simp add: r1_def moved_def adv_def)
  have r1: "rest r1 = enc_parts ps @ t" using Cons.prems(3) moved_rest [OF m] by simp
  obtain r' where r': "mp_push_parts (Suc k) (length ps) (mp_add_part b (snd p)) r1 =
      (Inr r', foldl mp_add_part (mp_add_part b (snd p)) (map snd ps))"
    "moved (length (enc_parts ps)) r1 r'"
    using Cons.IH [OF mp_coords_add_even [OF Cons.prems(1)] _ r1] Cons.prems(2)
    by (auto simp: parts_ok_def)
  have "mp_push_parts k (Suc (length ps)) b r = (Inr r', foldl mp_add_part b (map snd (p # ps)))"
    unfolding mp_parts_step [OF Cons.prems(1)] using r'(1) m Cons.prems(2,3)
    by (intro exI [of _ "fst p"] exI [of _ "snd p"] exI [of _ "enc_parts ps @ t"] exI [of _ r1])
       (simp add: parts_ok_def r1_def)
  then show ?case using r'(2) m by (auto simp: moved_def)
qed

text \<open>The tail of \<open>push_wkb\<close> once the parts are read.\<close>

lemma multipolygon_push_sound:
  assumes ev: "even (length (mp_coords b))" and ok: "multipolygon_push_wkb b bytes = (Inr (), b')"
  shows "(\<exists>l rings. rings_ok rings \<and> bytes = enc_polygon l rings \<and> b' = mp_add b [rings]) \<or>
    (\<exists>l ps. ps \<noteq> [] \<and> length ps < 2 ^ 32 \<and> parts_ok ps \<and> bytes = enc_multipolygon l ps \<and>
       b' = mp_add b (map snd ps))"
proof -
  from ok obtain r where "reader_new bytes = Inr r"
    by (auto simp: multipolygon_push_wkb_def split: sum.splits)
  then obtain l t0 where l: "bytes = order_byte l # t0" "reader_new bytes = Inr r"
    "r = \<lparr>rd_b = bytes, rd_at = 1, rd_little = l\<rparr>" by (auto simp: reader_new_iff)
  have rest: "rest r = t0" and lit: "rd_little r = l" and at: "rd_at r \<le> length (rd_b r)"
    using l by (simp_all add: rest_def)
  from ok l(2) obtain ty r1 where ty: "rd_u32 r = Inr (ty, r1)"
    by (auto simp: multipolygon_push_wkb_def split: sum.splits)
  from ty rest lit obtain t1 where t1: "t0 = enc32 l ty @ t1" "r1 = adv 4 r" by (auto simp: rd_u32_iff)
  consider (poly) r2 b2 where "ty = wkb_polygon" "mp_push_part b r1 0 = (Inr r2, b2)" "is_exhausted r2"
      "b' = b2\<lparr>mp_geom_offsets := mp_geom_offsets b2 @ [word_of_nat (length (mp_part_offsets b2) - 1)]\<rparr>"
    | (multi) w r2 r3 b2 where "ty = wkb_multipolygon" "rd_u32 r1 = Inr (w, r2)" "unat w \<noteq> 0"
      "mp_push_parts 0 (unat w) b r2 = (Inr r3, b2)" "is_exhausted r3"
      "b' = b2\<lparr>mp_geom_offsets := mp_geom_offsets b2 @ [word_of_nat (length (mp_part_offsets b2) - 1)]\<rparr>"
    using ok l(2) ty by (auto simp: multipolygon_push_wkb_def split: sum.splits if_splits prod.splits)
  then show ?thesis
  proof cases
    case poly
    from poly(2) t1 rest lit obtain rings t2 where q: "rings_ok rings" "t1 = enc_body l rings @ t2"
      "r2 = adv (4 + length (enc_body l rings)) r" "b2 = mp_add_part b rings"
      unfolding mp_push_part_iff [OF ev] by auto
    have "t2 = []" using exhausted_iff [OF at, of "enc32 l ty @ enc_body l rings" t2
        "4 + length (enc_body l rings)"] poly(3) q rest t1 by simp
    then have "bytes = enc_polygon l rings" using l t1 q poly(1) by (simp add: enc_polygon_body)
    then show ?thesis using q poly(4) by (auto simp: mp_add_def Let_def)
  next
    case multi
    from multi(2) t1 rest lit obtain t2 where t2: "t1 = enc32 l w @ t2" "r2 = adv 8 r"
      by (auto simp: rd_u32_iff)
    from mp_push_parts_sound [OF ev multi(4)] t2 t1 rest obtain ps t3 where
      q: "length ps = unat w" "parts_ok ps" "t2 = enc_parts ps @ t3"
        "moved (length (enc_parts ps)) r2 r3" "b2 = foldl mp_add_part b (map snd ps)" by auto
    have "moved (8 + length (enc_parts ps)) r r3" using q(4) t2(2) by (simp add: moved_def adv_def)
    from moved_exhausted [OF this at, of "enc32 l ty @ enc32 l w @ enc_parts ps" t3]
    have "t3 = []" using multi(5) rest t1 t2 q by simp
    moreover have "w = word_of_nat (length ps)" using q(1) by simp
    ultimately have "bytes = enc_multipolygon l ps"
      using l t1 t2 q multi(1) by (simp add: enc_multipolygon_def)
    moreover have "ps \<noteq> []" "length ps < 2 ^ 32" using q(1) multi(3) unsigned_less [of w] by auto
    ultimately show ?thesis using q multi(6)
      by (intro disjI2 exI [of _ l] exI [of _ ps]) (simp add: mp_add_def Let_def)
  qed
qed

lemma multipolygon_push_polygon:
  assumes ev: "even (length (mp_coords b))" and ok: "rings_ok rings"
  shows "multipolygon_push_wkb b (enc_polygon l rings) = (Inr (), mp_add b [rings])"
proof -
  define r where "r = \<lparr>rd_b = enc_polygon l rings, rd_at = 1, rd_little = l\<rparr>"
  define e where "e = enc_body l rings"
  have new: "reader_new (enc_polygon l rings) = Inr r" by (auto simp: reader_new_iff enc_polygon_def r_def)
  have rest: "rest r = enc32 l wkb_polygon @ e" by (simp add: rest_def enc_polygon_body r_def e_def)
  have l: "rd_little r = l" by (simp add: r_def)
  have t: "rd_u32 r = Inr (wkb_polygon, adv 4 r)" using rest l by (intro rd_u32_enc) simp
  have part: "mp_push_part b (adv 4 r) 0 = (Inr (adv (4 + length e) r), mp_add_part b rings)"
    unfolding mp_push_part_iff [OF ev] using ok rest l by (intro exI [of _ rings] exI [of _ "[]"]) (simp add: e_def)
  have at: "rd_at r \<le> length (rd_b r)" by (simp add: r_def enc_polygon_def)
  have "is_exhausted (adv (4 + length e) r)"
    using exhausted_iff [OF at, of "enc32 l wkb_polygon @ e" "[]" "4 + length e"] rest by simp
  then show ?thesis using new t part by (simp add: multipolygon_push_wkb_def Let_def mp_add_def)
qed

lemma multipolygon_push_multi:
  assumes ev: "even (length (mp_coords b))" and ok: "ps \<noteq> []" "length ps < 2 ^ 32" "parts_ok ps"
  shows "multipolygon_push_wkb b (enc_multipolygon l ps) = (Inr (), mp_add b (map snd ps))"
proof -
  define r where "r = \<lparr>rd_b = enc_multipolygon l ps, rd_at = 1, rd_little = l\<rparr>"
  define w where "w = (word_of_nat (length ps) :: u32)"
  define e where "e = enc_parts ps"
  have w: "unat w = length ps" unfolding w_def using ok(2) by (intro unat_word_of_nat_small) simp
  have new: "reader_new (enc_multipolygon l ps) = Inr r"
    by (auto simp: reader_new_iff enc_multipolygon_def r_def)
  have rest: "rest r = enc32 l wkb_multipolygon @ enc32 l w @ e"
    by (simp add: rest_def enc_multipolygon_def r_def e_def w_def)
  have l: "rd_little r = l" by (simp add: r_def)
  have t: "rd_u32 r = Inr (wkb_multipolygon, adv 4 r)" using rest l by (intro rd_u32_enc) simp
  have n: "rd_u32 (adv 4 r) = Inr (w, adv 8 r)" using rd_u32_enc [of "adv 4 r" w e] rest l by simp
  obtain r' where r': "mp_push_parts 0 (length ps) b (adv 8 r) = (Inr r', foldl mp_add_part b (map snd ps))"
    "moved (length e) (adv 8 r) r'"
    using mp_push_parts_complete [OF ev ok(3), of "adv 8 r" "[]" 0] rest by (auto simp: e_def)
  have at: "rd_at r \<le> length (rd_b r)" by (simp add: r_def enc_multipolygon_def)
  have "moved (8 + length e) r r'" using r'(2) by (simp add: moved_def adv_def)
  from moved_exhausted [OF this at, of "enc32 l wkb_multipolygon @ enc32 l w @ e" "[]"]
  have "is_exhausted r'" using rest by simp
  then show ?thesis using new t n r'(1) w ok(1)
    by (simp add: multipolygon_push_wkb_def Let_def mp_add_def)
qed

section \<open>Builders whose refused rows append nothing\<close>

locale row_builder =
  fixes push :: "'b \<Rightarrow> byte list \<Rightarrow> (wkb_error + unit) \<times> 'b"
  assumes refused_appends_nothing: "push b row = (Inl e, b') \<Longrightarrow> b' = b"
begin

fun push_all :: "'b \<Rightarrow> byte list list \<Rightarrow> (wkb_error + unit) \<times> 'b" where
  "push_all b [] = (Inr (), b)"
| "push_all b (row # rows) =
     (case push b row of
        (Inl e, b') \<Rightarrow> (Inl e, b')
      | (Inr _, b') \<Rightarrow> push_all b' rows)"

lemma stops_at_first_refusal:
  "push_all b rows = (Inl e, b') \<Longrightarrow>
     \<exists>done row rest'. rows = done @ row # rest' \<and> push_all b done = (Inr (), b') \<and> push b' row = (Inl e, b')"
proof (induction rows arbitrary: b)
  case Nil
  then show ?case by simp
next
  case (Cons row rows)
  obtain x b1 where p: "push b row = (x, b1)" by (cases "push b row")
  show ?case
  proof (cases x)
    case (Inl e1)
    with Cons.prems p refused_appends_nothing [of b row e1 b1] show ?thesis
      by (intro exI [of _ "[]"] exI [of _ row] exI [of _ rows]) auto
  next
    case (Inr u)
    with Cons.prems p Cons.IH [of b1] obtain d row' rest' where "rows = d @ row' # rest'"
      "push_all b1 d = (Inr (), b')" "push b' row' = (Inl e, b')" by auto
    with p Inr show ?thesis by (intro exI [of _ "row # d"] exI [of _ row'] exI [of _ rest']) auto
  qed
qed

end

lemma read_points_extends: "\<exists>x. snd (read_points n r cs) = cs @ x"
proof (induction n arbitrary: r cs)
  case 0
  then show ?case by simp
next
  case (Suc n)
  have "\<exists>y. snd (read_points n r2 (cs @ [a, b])) = cs @ y" for r2 a b
    using Suc [of r2 "cs @ [a, b]"] by auto
  then show ?case by (auto split: sum.splits)
qed

lemma read_line_extends: "\<exists>x. snd (read_line r what cs) = cs @ x"
  using read_points_extends by (auto simp: read_line_def split: sum.splits)

lemma read_line_extends': "read_line r what cs = (res, cs') \<Longrightarrow> \<exists>x. cs' = cs @ x"
  using read_line_extends [of r what cs] by simp

interpretation pt: row_builder point_push_wkb
  by unfold_locales (auto simp: point_push_wkb_def split: sum.splits if_splits)

lemma linestring_decode_extends:
  "linestring_decode b bytes = (res, b') \<Longrightarrow>
     \<exists>x. ls_coords b' = ls_coords b @ x \<and> ls_geom_offsets b' = ls_geom_offsets b"
  by (auto simp: linestring_decode_def split: sum.splits if_splits prod.splits dest!: read_line_extends')

interpretation ls: row_builder linestring_push_wkb
  by unfold_locales
     (auto simp: linestring_push_wkb_def Let_def split: sum.splits prod.splits
        dest!: linestring_decode_extends)

definition ml_extends :: "multilinestring_builder \<Rightarrow> multilinestring_builder \<Rightarrow> bool" where
  "ml_extends b b' \<longleftrightarrow> (\<exists>x. ml_coords b' = ml_coords b @ x) \<and>
     (\<exists>y. ml_part_offsets b' = ml_part_offsets b @ y) \<and> ml_geom_offsets b' = ml_geom_offsets b"

lemma ml_extends_refl [simp]: "ml_extends b b"
  by (simp add: ml_extends_def)

lemma ml_extends_trans: "ml_extends a b \<Longrightarrow> ml_extends b c \<Longrightarrow> ml_extends a c"
  by (auto simp: ml_extends_def)

lemma ml_push_part_extends: "ml_push_part b r what = (res, b') \<Longrightarrow> ml_extends b b'"
  by (auto simp: ml_push_part_def ml_extends_def split: sum.splits prod.splits dest!: read_line_extends')

lemma ml_push_parts_extends: "ml_push_parts k n b r = (res, b') \<Longrightarrow> ml_extends b b'"
proof (induction n arbitrary: k b r)
  case 0
  then show ?case by simp
next
  case (Suc n)
  then show ?case
    by (auto split: sum.splits if_splits prod.splits
        dest!: ml_push_part_extends intro: ml_extends_trans)
qed

lemma multilinestring_decode_extends: "multilinestring_decode b bytes = (res, b') \<Longrightarrow> ml_extends b b'"
  by (auto simp: multilinestring_decode_def split: sum.splits if_splits prod.splits
      dest!: ml_push_part_extends ml_push_parts_extends)

interpretation ml: row_builder multilinestring_push_wkb
  by unfold_locales
     (auto simp: multilinestring_push_wkb_def Let_def ml_extends_def split: sum.splits prod.splits
        dest!: multilinestring_decode_extends)

section \<open>Properties\<close>

text \<open>
  C26: \<open>MultiPolygonBuilder::push_wkb\<close> accepts exactly two kinds of row: a well-formed polygon, which
  becomes a one-part feature, and a multipolygon of at least one well-formed part where every part is
  read in its own byte order. What is appended is those parts, one part offset each and one geometry
  offset.
\<close>
theorem multipolygon_push_accepts_exactly_well_formed:
  assumes "even (length (mp_coords b))"
  shows "multipolygon_push_wkb b bytes = (Inr (), b') \<longleftrightarrow>
    (\<exists>l rings. rings_ok rings \<and> bytes = enc_polygon l rings \<and> b' = mp_add b [rings]) \<or>
    (\<exists>l ps. ps \<noteq> [] \<and> length ps < 2 ^ 32 \<and> parts_ok ps \<and> bytes = enc_multipolygon l ps \<and>
       b' = mp_add b (map snd ps))"
  using multipolygon_push_sound [OF assms] multipolygon_push_polygon [OF assms]
    multipolygon_push_multi [OF assms] by blast

theorem multipolygon_push_accepts_exactly_well_formed_witness:
  "multipolygon_push_wkb multipolygon_builder_new
       (enc_multipolygon True [(False, [ex_ring]), (True, [ex_ring])]) =
     (Inr (), mp_add multipolygon_builder_new [[ex_ring], [ex_ring]])"
proof -
  let ?ps = "[(False, [ex_ring]), (True, [ex_ring])]"
  have ok: "?ps \<noteq> []" "length ?ps < 2 ^ 32" "parts_ok ?ps" using ex_ring_ok by (simp_all add: parts_ok_def)
  have ev: "even (length (mp_coords multipolygon_builder_new))" by (simp add: multipolygon_builder_new_def)
  have "multipolygon_push_wkb multipolygon_builder_new (enc_multipolygon True ?ps) =
      (Inr (), mp_add multipolygon_builder_new (map snd ?ps))"
    unfolding multipolygon_push_accepts_exactly_well_formed [OF ev] using ok by blast
  then show ?thesis by simp
qed

text \<open>
  A refused row appends nothing: the point, line and multiline builders come back unchanged from
  every refusal, and an accepted row adds exactly one row to the column.
\<close>
theorem refused_rows_append_nothing:
  "(case point_push_wkb p row of
      (Inl e, p') \<Rightarrow> p' = p
    | (Inr u, p') \<Rightarrow> \<exists>x y. p' = p\<lparr>pt_coords := pt_coords p @ [x, y]\<rparr> \<and> \<not> f64_is_nan x \<and> \<not> f64_is_nan y) \<and>
   (case linestring_push_wkb l row of
      (Inl e, l') \<Rightarrow> l' = l
    | (Inr u, l') \<Rightarrow> ls_geom_offsets l' = ls_geom_offsets l @ [word_of_nat (ls_vertices l')]) \<and>
   (case multilinestring_push_wkb m row of
      (Inl e, m') \<Rightarrow> m' = m
    | (Inr u, m') \<Rightarrow> ml_geom_offsets m' = ml_geom_offsets m @ [word_of_nat (length (ml_part_offsets m') - 1)])"
proof (intro conjI)
  show "case point_push_wkb p row of
      (Inl e, p') \<Rightarrow> p' = p
    | (Inr u, p') \<Rightarrow> \<exists>x y. p' = p\<lparr>pt_coords := pt_coords p @ [x, y]\<rparr> \<and> \<not> f64_is_nan x \<and> \<not> f64_is_nan y"
    using pt.refused_appends_nothing [of p row]
    by (auto simp: point_push_wkb_def split: sum.splits prod.splits if_splits)
  show "case linestring_push_wkb l row of
      (Inl e, l') \<Rightarrow> l' = l
    | (Inr u, l') \<Rightarrow> ls_geom_offsets l' = ls_geom_offsets l @ [word_of_nat (ls_vertices l')]"
    using ls.refused_appends_nothing [of l row]
    by (auto simp: linestring_push_wkb_def Let_def ls_vertices_def split: sum.splits prod.splits
        dest!: linestring_decode_extends)
  show "case multilinestring_push_wkb m row of
      (Inl e, m') \<Rightarrow> m' = m
    | (Inr u, m') \<Rightarrow> ml_geom_offsets m' = ml_geom_offsets m @ [word_of_nat (length (ml_part_offsets m') - 1)]"
    using ml.refused_appends_nothing [of m row]
    by (auto simp: multilinestring_push_wkb_def Let_def ml_extends_def split: sum.splits prod.splits
        dest!: multilinestring_decode_extends)
qed

text \<open>
  Rows pushed into a multiline column stop at the first row refused: the column then holds exactly
  what the rows before it put there, nothing of the refused row and nothing after it.
\<close>
theorem multiline_column_stops_at_first_refusal:
  "ml.push_all b rows = (Inl e, b') \<Longrightarrow>
     \<exists>done row rest'. rows = done @ row # rest' \<and> ml.push_all b done = (Inr (), b') \<and>
       multilinestring_push_wkb b' row = (Inl e, b')"
  by (rule ml.stops_at_first_refusal)

theorem multiline_column_stops_at_first_refusal_witness:
  "\<exists>done row rest'. [[], [1]] = done @ row # rest' \<and>
     ml.push_all multilinestring_builder_new done = (Inr (), multilinestring_builder_new) \<and>
     multilinestring_push_wkb multilinestring_builder_new row = (Inl EmptyGeometry, multilinestring_builder_new)"
  by (rule multiline_column_stops_at_first_refusal)
     (simp add: multilinestring_push_wkb_def multilinestring_decode_def reader_new_def
       multilinestring_builder_new_def)

end
