(* ===== verification/Redaction.thy ===== *)
theory Redaction
  imports Rust_Str "HOL-Library.Char_ord" "HOL-Library.List_Lexorder" "HOL-Library.Product_Lexorder" "HOL-Library.Multiset"
begin

text \<open>
  \<open>kernel/src/bundle/redaction.rs\<close>: the scan that looks for credentials, local paths, user names and
  machine names in what is about to leave the machine, and the walk that applies it to a staged
  bundle. File contents are strings of bytes. The environment, the operating system's host name and
  the file system are parameters: a directory tree carries the answers (contents or an I/O error)
  that \<open>read_dir\<close> and \<open>read\<close> give along the walk.
\<close>

section \<open>Lossy UTF-8 decoding\<close>

text \<open>
  The first chunk of a non-empty byte string as \<open>String::from_utf8_lossy\<close> cuts it: how many bytes,
  and whether they are a valid scalar value (otherwise they become one U+FFFD).
\<close>

definition utf8_chunk :: "string \<Rightarrow> nat \<times> bool" where
  "utf8_chunk s =
     (let n = utf8_lead_len (hd s)
      in if n = 0 then (1, False)
         else if n = 1 then (1, True)
         else if length s < 2 \<or> \<not> utf8_second_ok (hd s) (s ! 1) then (1, False)
         else if n = 2 then (2, True)
         else if length s < 3 \<or> \<not> utf8_cont (s ! 2) then (2, False)
         else if n = 3 then (3, True)
         else if length s < 4 \<or> \<not> utf8_cont (s ! 3) then (3, False)
         else (4, True))"

lemma utf8_chunk_pos: "0 < fst (utf8_chunk s)"
  by (simp add: utf8_chunk_def Let_def)

function from_utf8_lossy :: "string \<Rightarrow> string" where
  "from_utf8_lossy s =
     (if s = [] then []
      else (let (n, ok) = utf8_chunk s
            in (if ok then take n s else [CHR 0xEF, CHR 0xBF, CHR 0xBD]) @ from_utf8_lossy (drop n s)))"
  by pat_completeness auto
termination
proof (relation "measure length")
  fix s :: string and x n ok
  assume "s \<noteq> []" "x = utf8_chunk s" "(n, ok) = x"
  then have "0 < n" "0 < length s" using utf8_chunk_pos [of s] by (auto simp: prod_eq_iff)
  then show "(drop n s, s) \<in> measure length" by simp
qed simp

declare from_utf8_lossy.simps [simp del]

section \<open>Data\<close>

record finding =
  fi_file :: string
  fi_class :: string
  fi_excerpt :: string
  fi_byte_offset :: nat

definition operator_declared :: string where
  "operator_declared = ''operator-declared''"

definition attributable_classes :: "string list" where
  "attributable_classes = [''username'', ''machine-identifier'']"

record machine_identifiers =
  mi_usernames :: "string list"
  mi_hostnames :: "string list"
  mi_declared :: "string list"

text \<open>One turn of the two collection loops: a value of at least three bytes, not yet collected.\<close>

definition push_distinct :: "string list \<Rightarrow> string option \<Rightarrow> string list" where
  "push_distinct acc v =
     (case v of
        None \<Rightarrow> acc
      | Some s \<Rightarrow> if 3 \<le> length s \<and> s \<notin> set acc then acc @ [s] else acc)"

definition hostnames_from :: "(string \<Rightarrow> string option) \<Rightarrow> string option \<Rightarrow> string list" where
  "hostnames_from env os =
     (let hostnames = foldl push_distinct [] (map env [''COMPUTERNAME'', ''HOSTNAME''])
      in if hostnames = []
         then (case os of
                 None \<Rightarrow> []
               | Some v \<Rightarrow> if 3 \<le> length (trim v) then [trim v] else [])
         else hostnames)"

definition machine_from_environment :: "(string \<Rightarrow> string option) \<Rightarrow> string option \<Rightarrow> machine_identifiers" where
  "machine_from_environment env os =
     \<lparr>mi_usernames = foldl push_distinct [] (map env [''USERNAME'', ''USER'', ''LOGNAME'']),
      mi_hostnames = hostnames_from env os, mi_declared = []\<rparr>"

definition bs :: char where
  "bs = CHR 0x5C"

definition credential_needles :: "(string \<times> string) list" where
  "credential_needles =
     [(''credential'', ''credential''),
      (''password'', ''credential''),
      (''passwd'', ''credential''),
      (''secret'', ''credential''),
      (''api_key'', ''credential''),
      (''apikey'', ''credential''),
      (''authorization:'', ''credential''),
      (''bearer '', ''credential''),
      (''private_key'', ''credential''),
      (''BEGIN RSA'', ''credential''),
      (''BEGIN PRIVATE'', ''credential''),
      (''file://'', ''local-filesystem-path''),
      ([bs, bs, CHR ''?'', bs], ''local-filesystem-path''),
      (''/home/'', ''local-filesystem-path''),
      (''/Users/'', ''local-filesystem-path''),
      (''/tmp/'', ''local-filesystem-path''),
      (''/var/folders/'', ''local-filesystem-path''),
      (''AppData'' @ bs # ''Local'' @ bs # ''Temp'', ''local-filesystem-path''),
      (''AppData/Local/Temp'', ''local-filesystem-path'')]"

definition min_printable_run :: nat where
  "min_printable_run = 12"

section \<open>The scan\<close>

definition ascii_lower :: "char \<Rightarrow> char" where
  "ascii_lower c =
     (if 65 \<le> (of_char c :: nat) \<and> (of_char c :: nat) \<le> 90 then char_of (of_char c + 32 :: nat) else c)"

definition eq_ignore_ascii_case :: "char \<Rightarrow> char \<Rightarrow> bool" where
  "eq_ignore_ascii_case a b \<longleftrightarrow> ascii_lower a = ascii_lower b"

definition matches_ci_at :: "string \<Rightarrow> string \<Rightarrow> nat \<Rightarrow> bool" where
  "matches_ci_at haystack needle i \<longleftrightarrow>
     list_all (\<lambda>(a, b). eq_ignore_ascii_case a b) (zip (take (length needle) (drop i haystack)) needle)"

definition find_all_ascii_ci :: "string \<Rightarrow> string \<Rightarrow> nat list" where
  "find_all_ascii_ci haystack needle =
     (if needle = [] \<or> length needle > length haystack then []
      else filter (matches_ci_at haystack needle) [0..<Suc (length haystack - length needle)])"

definition printable :: "char \<Rightarrow> bool" where
  "printable c \<longleftrightarrow> 0x20 \<le> (of_char c :: nat) \<and> (of_char c :: nat) \<le> 0x7E"

fun run_lo :: "string \<Rightarrow> nat \<Rightarrow> nat" where
  "run_lo bytes 0 = 0"
| "run_lo bytes (Suc lo) = (if printable (bytes ! lo) then run_lo bytes lo else Suc lo)"

function run_hi :: "string \<Rightarrow> nat \<Rightarrow> nat" where
  "run_hi bytes hi = (if hi < length bytes \<and> printable (bytes ! hi) then run_hi bytes (Suc hi) else hi)"
  by pat_completeness auto
termination
  by (relation "measure (\<lambda>(bytes, hi). length bytes - hi)") auto

declare run_hi.simps [simp del]

definition in_printable_run :: "string \<Rightarrow> nat \<Rightarrow> nat \<Rightarrow> bool" where
  "in_printable_run bytes offset len =
     (if \<not> list_all printable (take len (drop offset bytes)) then False
      else min_printable_run \<le> run_hi bytes (offset + len) - run_lo bytes offset)"

definition declared_ranges :: "string \<Rightarrow> string list \<Rightarrow> (nat \<times> nat) list" where
  "declared_ranges bytes declared =
     concat (map (\<lambda>d. if length (trim d) < min_printable_run then []
                      else map (\<lambda>off. (off, off + length d)) (find_all_ascii_ci bytes d)) declared)"

definition class_for :: "(nat \<times> nat) list \<Rightarrow> string \<Rightarrow> nat \<Rightarrow> nat \<Rightarrow> string" where
  "class_for declared class offset len =
     (if class \<in> set attributable_classes \<and>
         list_ex (\<lambda>(lo, hi). lo \<le> offset \<and> offset + len \<le> hi) declared
      then operator_declared else class)"

definition mk_finding :: "string \<Rightarrow> string \<Rightarrow> string \<Rightarrow> nat \<Rightarrow> nat \<Rightarrow> finding" where
  "mk_finding file class bytes offset len =
     (let lo = offset - 24; hi = min (offset + len + 24) (length bytes)
      in \<lparr>fi_file = file, fi_class = class,
          fi_excerpt =
            map (\<lambda>c. if c = CHR 0x0A \<or> c = CHR 0x0D then CHR '' '' else c)
              (from_utf8_lossy (take (hi - lo) (drop lo bytes))),
          fi_byte_offset = offset\<rparr>)"

text \<open>The loop the needles, the user names and the host names share.\<close>

definition scan_needle ::
    "string \<Rightarrow> string \<Rightarrow> (nat \<times> nat) list \<Rightarrow> string \<Rightarrow> string \<Rightarrow> finding list" where
  "scan_needle file bytes declared class needle =
     map (\<lambda>off. mk_finding file (class_for declared class off (length needle)) bytes off (length needle))
       (filter (\<lambda>off. in_printable_run bytes off (length needle)) (find_all_ascii_ci bytes needle))"

definition is_alpha :: "char \<Rightarrow> bool" where
  "is_alpha c \<longleftrightarrow> (let n = of_char c :: nat in (65 \<le> n \<and> n \<le> 90) \<or> (97 \<le> n \<and> n \<le> 122))"

definition is_alnum :: "char \<Rightarrow> bool" where
  "is_alnum c \<longleftrightarrow> is_alpha c \<or> is_digit c"

text \<open>A drive-letter path at \<open>i\<close>: a letter, a colon and a separator, not preceded by a word character.\<close>

definition drive_path_at :: "string \<Rightarrow> nat \<Rightarrow> bool" where
  "drive_path_at bytes i \<longleftrightarrow>
     is_alpha (bytes ! i) \<and> bytes ! (i + 1) = CHR '':'' \<and>
     (bytes ! (i + 2) = bs \<or> bytes ! (i + 2) = CHR ''/'') \<and>
     \<not> (0 < i \<and> (is_alnum (bytes ! (i - 1)) \<or> bytes ! (i - 1) = CHR ''_'')) \<and>
     in_printable_run bytes i 3"

definition scan :: "string \<Rightarrow> string \<Rightarrow> machine_identifiers \<Rightarrow> finding list" where
  "scan file bytes machine =
     (let declared = declared_ranges bytes (mi_declared machine)
      in concat (map (\<lambda>(needle, class). scan_needle file bytes declared class needle) credential_needles) @
         map (\<lambda>i. mk_finding file (class_for declared ''local-filesystem-path'' i 3) bytes i 3)
           (filter (drive_path_at bytes) [0..<length bytes - 2]) @
         concat (map (scan_needle file bytes declared ''username'') (mi_usernames machine)) @
         concat (map (scan_needle file bytes declared ''machine-identifier'') (mi_hostnames machine)))"

section \<open>The walk\<close>

datatype fs_node =
    FsDir "string + (string \<times> fs_node) list"
  | FsFile "string + string"

text \<open>A path below the root as the code spells it: joined by separators, backslashes replaced.\<close>

definition rel_name :: "string list \<Rightarrow> string" where
  "rel_name comps = replace_char bs (CHR ''/'') (from_utf8_lossy (join_with ''/'' comps))"

text \<open>
  One directory's entries in order. \<open>k\<close> counts the files met so far, the argument of the
  \<open>before_each_file\<close> callback; \<open>Inr (Inl found)\<close> is the early return of \<open>first_only\<close>.
\<close>

type_synonym dir_item = "string list \<times> (string + (string \<times> fs_node) list)"

fun walk_entries ::
    "machine_identifiers \<Rightarrow> (nat \<Rightarrow> 'e + unit) \<Rightarrow> (string \<Rightarrow> string \<Rightarrow> bool) \<Rightarrow> (string \<Rightarrow> 'e) \<Rightarrow> bool \<Rightarrow>
     string list \<Rightarrow> (string \<times> fs_node) list \<Rightarrow> nat \<Rightarrow> finding list \<Rightarrow> dir_item list \<Rightarrow>
     'e + (finding list + nat \<times> finding list \<times> dir_item list)" where
  "walk_entries machine before skip io_error first_only dir [] k findings stack =
     Inr (Inr (k, findings, stack))"
| "walk_entries machine before skip io_error first_only dir ((name, FsDir d) # es) k findings stack =
     walk_entries machine before skip io_error first_only dir es k findings (stack @ [(dir @ [name], d)])"
| "walk_entries machine before skip io_error first_only dir ((name, FsFile c) # es) k findings stack =
     (case before k of
        Inl e \<Rightarrow> Inl e
      | Inr _ \<Rightarrow>
        (case c of
           Inl e \<Rightarrow> Inl (io_error e)
         | Inr bytes \<Rightarrow>
             let rel = rel_name (dir @ [name])
             in if skip rel bytes
                then walk_entries machine before skip io_error first_only dir es (Suc k) findings stack
                else
                  let found = scan rel bytes machine
                  in if first_only then
                       if list_ex (\<lambda>f. fi_class f \<noteq> operator_declared) found then Inr (Inl found)
                       else walk_entries machine before skip io_error first_only dir es (Suc k) findings stack
                     else walk_entries machine before skip io_error first_only dir es (Suc k)
                            (findings @ found) stack))"

fun node_weight :: "fs_node \<Rightarrow> nat" where
  "node_weight (FsDir (Inr es)) = Suc (sum_list (map (\<lambda>(n, e). node_weight e) es))"
| "node_weight _ = 1"

definition stack_weight :: "dir_item list \<Rightarrow> nat" where
  "stack_weight st = sum_list (map (\<lambda>(p, d). node_weight (FsDir d)) st)"

lemma walk_entries_weight:
  "walk_entries machine before skip io_error first_only dir es k findings stack = Inr (Inr (k', fs', st')) \<Longrightarrow>
     stack_weight st' \<le> stack_weight stack + sum_list (map (\<lambda>(n, e). node_weight e) es)"
proof (induction es arbitrary: k findings stack)
  case Nil
  then show ?case by simp
next
  case (Cons e es)
  obtain name nd where e: "e = (name, nd)" by (cases e)
  show ?case
  proof (cases nd)
    case (FsDir d)
    with Cons e show ?thesis by (fastforce simp: stack_weight_def)
  next
    case (FsFile c)
    with Cons e show ?thesis
      by (fastforce simp: Let_def split: sum.splits if_splits)
  qed
qed

text \<open>\<open>while let Some(dir) = stack.pop()\<close>: the top of the stack is the end of the list.\<close>

function walk_loop ::
    "machine_identifiers \<Rightarrow> (nat \<Rightarrow> 'e + unit) \<Rightarrow> (string \<Rightarrow> string \<Rightarrow> bool) \<Rightarrow> (string \<Rightarrow> 'e) \<Rightarrow> bool \<Rightarrow>
     nat \<Rightarrow> finding list \<Rightarrow> dir_item list \<Rightarrow> 'e + finding list" where
  "walk_loop machine before skip io_error first_only k findings stack =
     (if stack = [] then Inr findings
      else
        (case last stack of
           (dir, Inl e) \<Rightarrow> Inl (io_error e)
         | (dir, Inr entries) \<Rightarrow>
             (case walk_entries machine before skip io_error first_only dir (sort_key fst entries) k
                     findings (butlast stack) of
                Inl e \<Rightarrow> Inl e
              | Inr (Inl found) \<Rightarrow> Inr found
              | Inr (Inr (k', findings', stack')) \<Rightarrow>
                  walk_loop machine before skip io_error first_only k' findings' stack')))"
  by pat_completeness auto

lemma sum_sort_key: "sum_list (map g (sort_key f xs)) = sum_list (map g (xs :: 'a list) :: nat list)"
  by (metis mset_map mset_sort sum_mset_sum_list)

lemma stack_weight_snoc: "stack_weight (st @ [(p, d)]) = stack_weight st + node_weight (FsDir d)"
  by (simp add: stack_weight_def)

lemma walk_decreases:
  assumes ne: "stack \<noteq> []" and l: "(dir, Inr entries) = last stack"
    and w: "walk_entries machine before skip io_error first_only dir (sort_key fst entries) k findings
      (butlast stack) = Inr (Inr (k', fs', st'))"
  shows "stack_weight st' < stack_weight stack"
proof -
  have "stack = butlast stack @ [(dir, Inr entries)]" using ne l by (metis append_butlast_last_id)
  then have "stack_weight stack = stack_weight (butlast stack) + node_weight (FsDir (Inr entries))"
    using stack_weight_snoc by metis
  moreover have "stack_weight st' \<le> stack_weight (butlast stack) + sum_list (map (\<lambda>(n, e). node_weight e) entries)"
    using walk_entries_weight [OF w] by (simp add: sum_sort_key)
  ultimately show ?thesis by simp
qed

termination walk_loop
  by (relation "measure (\<lambda>(m, b, s, i, f, k, fs, stack). stack_weight stack)")
     (auto intro: walk_decreases)

declare walk_loop.simps [simp del]

definition walk ::
    "string + (string \<times> fs_node) list \<Rightarrow> machine_identifiers \<Rightarrow> (nat \<Rightarrow> 'e + unit) \<Rightarrow>
     (string \<Rightarrow> string \<Rightarrow> bool) \<Rightarrow> (string \<Rightarrow> 'e) \<Rightarrow> bool \<Rightarrow> 'e + finding list" where
  "walk root machine before skip io_error first_only =
     walk_loop machine before skip io_error first_only 0 [] [([], root)]"

definition scan_directory :: "string + (string \<times> fs_node) list \<Rightarrow> machine_identifiers \<Rightarrow> string + finding list" where
  "scan_directory root machine =
     (case walk root machine (\<lambda>_. Inr ()) (\<lambda>_ _. False) (\<lambda>e. e) False of
        Inl e \<Rightarrow> Inl e
      | Inr findings \<Rightarrow> Inr (sort_key (\<lambda>f. (fi_file f, fi_byte_offset f)) findings))"

definition first_undeclared_findings ::
    "string + (string \<times> fs_node) list \<Rightarrow> machine_identifiers \<Rightarrow> (nat \<Rightarrow> 'e + unit) \<Rightarrow>
     (string \<Rightarrow> string \<Rightarrow> bool) \<Rightarrow> (string \<Rightarrow> 'e) \<Rightarrow> 'e + (string \<times> finding list) option" where
  "first_undeclared_findings root machine before skip io_error =
     (case walk root machine before skip io_error True of
        Inl e \<Rightarrow> Inl e
      | Inr f \<Rightarrow>
          let f' = sort_key fi_byte_offset (filter (\<lambda>x. fi_class x \<noteq> operator_declared) f)
          in Inr (if f' = [] then None else Some (fi_file (hd f'), f')))"

end
