(* ===== verification/Normalize.thy ===== *)
theory Normalize
  imports Redaction Paths
begin

text \<open>
  \<open>kernel/src/permission/audit/normalize.rs\<close>: how a destination is spelled in an audit record. The
  user's own directories become tokens and a path component that is a user name becomes \<open>\<langle>user\<rangle>\<close>. The
  platform is a parameter where the code branches on it: \<open>windows\<close> decides what a separator is and
  whether components compare without regard to ASCII case. The environment is a lookup function.
\<close>

definition user_token :: string where
  "user_token = ''<user>''"

definition is_separator :: "bool \<Rightarrow> char \<Rightarrow> bool" where
  "is_separator windows c \<longleftrightarrow> c = CHR ''/'' \<or> windows \<and> c = bs"

definition to_slashes :: "bool \<Rightarrow> string \<Rightarrow> string" where
  "to_slashes windows s = map (\<lambda>c. if is_separator windows c then CHR ''/'' else c) s"

definition component_eq :: "bool \<Rightarrow> string \<Rightarrow> string \<Rightarrow> bool" where
  "component_eq windows a b \<longleftrightarrow> (if windows then map ascii_lower a = map ascii_lower b else a = b)"

definition is_char_boundary :: "string \<Rightarrow> nat \<Rightarrow> bool" where
  "is_char_boundary s i \<longleftrightarrow> i = 0 \<or> i = length s \<or> i < length s \<and> \<not> utf8_cont (s ! i)"

definition strip_component_prefix :: "bool \<Rightarrow> string \<Rightarrow> string \<Rightarrow> string option" where
  "strip_component_prefix windows s root =
     (if \<not> is_char_boundary s (length root) then None
      else
        let head = take (length root) s; rest = drop (length root) s
        in if \<not> component_eq windows head root then None
           else if rest = [] \<or> starts_with rest ''/'' then Some rest
           else None)"

definition trim_end_slashes :: "string \<Rightarrow> string" where
  "trim_end_slashes s = rev (dropWhile (\<lambda>c. c = CHR ''/'') (rev s))"

text \<open>The longest first, equal lengths in their order.\<close>

definition longest_first :: "(string \<times> string) list \<Rightarrow> (string \<times> string) list" where
  "longest_first xs = sort_key (\<lambda>p. - int (length (fst p))) xs"

definition root_keys :: "(string \<times> string) list" where
  "root_keys =
     [(''USERPROFILE'', ''<user-home>''), (''HOME'', ''<user-home>''),
      (''LOCALAPPDATA'', ''<user-local-appdata>''), (''APPDATA'', ''<user-appdata>''),
      (''TEMP'', ''<temp>''), (''TMP'', ''<temp>''), (''TMPDIR'', ''<temp>'')]"

definition push_root ::
    "bool \<Rightarrow> (string \<Rightarrow> string option) \<Rightarrow> (string \<times> string) list \<Rightarrow> string \<times> string \<Rightarrow> (string \<times> string) list" where
  "push_root windows lookup out kt =
     (case lookup (fst kt) of
        None \<Rightarrow> out
      | Some v \<Rightarrow>
          let v = trim_end_slashes (to_slashes windows v)
          in if 3 \<le> length v \<and> v \<notin> set (map fst out) then out @ [(v, snd kt)] else out)"

definition roots_from :: "bool \<Rightarrow> (string \<Rightarrow> string option) \<Rightarrow> (string \<times> string) list" where
  "roots_from windows lookup = longest_first (foldl (push_root windows lookup) [] root_keys)"

text \<open>The first root, longest first, that is a component prefix is replaced by its token.\<close>

fun replace_root :: "bool \<Rightarrow> (string \<times> string) list \<Rightarrow> string \<Rightarrow> string" where
  "replace_root windows [] s = s"
| "replace_root windows ((root, token) # rs) s =
     (case strip_component_prefix windows s root of
        Some rest \<Rightarrow> token @ rest
      | None \<Rightarrow> replace_root windows rs s)"

definition strip_verbatim :: "string \<Rightarrow> string" where
  "strip_verbatim raw =
     (case strip_prefix raw ([bs, bs, CHR ''?'', bs] @ ''UNC'' @ [bs]) of
        Some rest \<Rightarrow> [bs, bs] @ rest
      | None \<Rightarrow>
          (case strip_prefix raw [bs, bs, CHR ''?'', bs] of
             Some rest \<Rightarrow> rest
           | None \<Rightarrow> raw))"

definition redact_component :: "bool \<Rightarrow> string list \<Rightarrow> string \<Rightarrow> string" where
  "redact_component windows usernames c =
     (if list_ex (\<lambda>u. component_eq windows c u) usernames then user_token else c)"

definition normalize_with ::
    "bool \<Rightarrow> path \<Rightarrow> (string \<times> string) list \<Rightarrow> string list \<Rightarrow> string" where
  "normalize_with windows resolved roots usernames =
     (let raw = from_utf8_lossy resolved;
          s = to_slashes windows (strip_verbatim raw);
          s = replace_root windows (longest_first roots) s
      in if usernames \<noteq> []
         then join_with ''/'' (map (redact_component windows usernames) (split_on (CHR ''/'') s))
         else s)"

definition normalize_destination ::
    "bool \<Rightarrow> (string \<Rightarrow> string option) \<Rightarrow> string option \<Rightarrow> path \<Rightarrow> string" where
  "normalize_destination windows env os resolved =
     normalize_with windows resolved (roots_from windows env) (mi_usernames (machine_from_environment env os))"

section \<open>Facts\<close>

lemma split_join_no_sep:
  "ws \<noteq> [] \<Longrightarrow> (\<And>w. w \<in> set ws \<Longrightarrow> d \<notin> set w) \<Longrightarrow> split_on d (join_with [d] ws) = ws"
proof (induction "[d]" ws rule: join_with.induct)
  case (3 w v ws)
  then show ?case by (simp add: split_on_append_sep split_on_no_occ)
qed (simp_all add: split_on_no_occ)

text \<open>
  C32: The audit spelling of a destination never has a component that is one of the machine's user
  names, whatever the path, the known roots and the platform, as long as the placeholder itself is not
  a user name.
\<close>
theorem normalized_destination_names_no_user:
  assumes u: "u \<in> set usernames" and "list_all (\<lambda>v. \<not> component_eq windows user_token v) usernames"
  shows "list_all (\<lambda>c. \<not> component_eq windows c u)
    (split_on (CHR ''/'') (normalize_with windows resolved roots usernames))"
proof -
  define s where "s = replace_root windows (longest_first roots)
      (to_slashes windows (strip_verbatim (from_utf8_lossy resolved)))"
  let ?ws = "map (redact_component windows usernames) (split_on (CHR ''/'') s)"
  have "usernames \<noteq> []" using u by auto
  then have "normalize_with windows resolved roots usernames = join_with ''/'' ?ws"
    by (simp add: normalize_with_def s_def)
  moreover have "split_on (CHR ''/'') (join_with ''/'' ?ws) = ?ws"
    by (rule split_join_no_sep) (auto simp: redact_component_def user_token_def split: if_splits dest: split_on_no_sep)
  moreover have "list_all (\<lambda>c. \<not> component_eq windows c u) ?ws"
    using u assms(2) by (auto simp: redact_component_def list_ex_iff list_all_iff)
  ultimately show ?thesis by simp
qed

theorem normalized_destination_names_no_user_witness:
  "list_all (\<lambda>c. \<not> component_eq False c ''ada'')
     (split_on (CHR ''/'') (normalize_with False ''/srv/ada/x'' [(''/srv'', ''<temp>'')] [''ada'']))"
  by (rule normalized_destination_names_no_user) (simp_all add: component_eq_def user_token_def)

end
