(* ===== verification/Redaction_Gate.thy ===== *)
theory Redaction_Gate
  imports Redaction
begin

text \<open>
  What the redaction scan guarantees: it reports every occurrence that sits in a long enough printable
  run and nothing else, what an operator declares can relabel an identity but never hide a credential
  or a path, and a staged bundle that passes the gate has no undeclared finding in any file scanned.
\<close>

section \<open>Matching and printable runs\<close>

definition occurs_ci :: "string \<Rightarrow> string \<Rightarrow> nat \<Rightarrow> bool" where
  "occurs_ci bytes needle i \<longleftrightarrow> needle \<noteq> [] \<and> i + length needle \<le> length bytes \<and>
     map ascii_lower (take (length needle) (drop i bytes)) = map ascii_lower needle"

lemma matches_ci_at_iff:
  "i + length needle \<le> length bytes \<Longrightarrow>
     matches_ci_at bytes needle i \<longleftrightarrow> map ascii_lower (take (length needle) (drop i bytes)) = map ascii_lower needle"
  by (simp add: matches_ci_at_def list_all_length list_eq_iff_nth_eq eq_ignore_ascii_case_def)

lemma set_find_all: "set (find_all_ascii_ci bytes needle) = {i. occurs_ci bytes needle i}"
  by (auto simp: find_all_ascii_ci_def occurs_ci_def matches_ci_at_iff less_Suc_eq_le
      simp del: upt_Suc)

text \<open>The specification of a printable run around \<open>[offset, offset + len)\<close>.\<close>

definition printable_between :: "string \<Rightarrow> nat \<Rightarrow> nat \<Rightarrow> bool" where
  "printable_between bytes lo hi \<longleftrightarrow> (\<forall>i. lo \<le> i \<and> i < hi \<longrightarrow> printable (bytes ! i))"

lemma run_lo_le: "run_lo bytes n \<le> n"
  by (induction n) auto

lemma run_lo_printable: "printable_between bytes (run_lo bytes n) n"
  by (induction n) (auto simp: printable_between_def less_Suc_eq)

lemma run_lo_least: "printable_between bytes lo n \<Longrightarrow> lo \<le> n \<Longrightarrow> run_lo bytes n \<le> lo"
proof (induction n)
  case 0
  then show ?case by simp
next
  case (Suc n)
  then show ?case
    by (cases "lo = Suc n") (auto simp: printable_between_def le_Suc_eq intro: order_trans [OF run_lo_le])
qed

lemma run_hi_ge: "n \<le> run_hi bytes n"
proof (induction bytes n rule: run_hi.induct)
  case (1 bytes n)
  then show ?case by (subst run_hi.simps) auto
qed

lemma run_hi_bound: "n \<le> length bytes \<Longrightarrow> run_hi bytes n \<le> length bytes"
proof (induction bytes n rule: run_hi.induct)
  case (1 bytes n)
  then show ?case by (subst run_hi.simps) auto
qed

lemma run_hi_printable: "printable_between bytes n (run_hi bytes n)"
proof (induction bytes n rule: run_hi.induct)
  case (1 bytes n)
  show ?case
  proof (cases "n < length bytes \<and> printable (bytes ! n)")
    case True
    with 1 show ?thesis
      by (subst run_hi.simps) (auto simp: printable_between_def, metis Suc_leI le_neq_implies_less)
  next
    case False
    then show ?thesis by (subst run_hi.simps) (auto simp: printable_between_def)
  qed
qed

lemma run_hi_greatest:
  "printable_between bytes n hi \<Longrightarrow> n \<le> hi \<Longrightarrow> hi \<le> length bytes \<Longrightarrow> hi \<le> run_hi bytes n"
proof (induction bytes n rule: run_hi.induct)
  case (1 bytes n)
  show ?case
  proof (cases "n = hi")
    case True
    then show ?thesis by (simp add: run_hi_ge)
  next
    case False
    with 1 have "n < length bytes \<and> printable (bytes ! n)" by (auto simp: printable_between_def)
    moreover from this False 1 have "hi \<le> run_hi bytes (Suc n)" by (auto simp: printable_between_def)
    ultimately show ?thesis by (subst run_hi.simps) simp
  qed
qed

lemma in_printable_run_iff:
  assumes b: "offset + len \<le> length bytes"
  shows "in_printable_run bytes offset len \<longleftrightarrow>
    (\<exists>lo hi. lo \<le> offset \<and> offset + len \<le> hi \<and> hi \<le> length bytes \<and> min_printable_run \<le> hi - lo \<and>
       printable_between bytes lo hi)"
proof -
  have mid: "list_all printable (take len (drop offset bytes)) \<longleftrightarrow> printable_between bytes offset (offset + len)"
    using b by (auto simp: list_all_length printable_between_def) (metis add_diff_inverse_nat nat_add_left_cancel_less not_less)
  show ?thesis
  proof
    assume "in_printable_run bytes offset len"
    then have "printable_between bytes offset (offset + len)"
      "min_printable_run \<le> run_hi bytes (offset + len) - run_lo bytes offset"
      using mid by (auto simp: in_printable_run_def split: if_splits)
    moreover have "printable_between bytes (run_lo bytes offset) (run_hi bytes (offset + len))"
      using run_lo_printable [of bytes offset] run_hi_printable [of bytes "offset + len"] calculation(1)
      unfolding printable_between_def by (metis not_less)
    ultimately show "\<exists>lo hi. lo \<le> offset \<and> offset + len \<le> hi \<and> hi \<le> length bytes \<and>
        min_printable_run \<le> hi - lo \<and> printable_between bytes lo hi"
      using run_lo_le run_hi_ge run_hi_bound [OF b] by blast
  next
    assume "\<exists>lo hi. lo \<le> offset \<and> offset + len \<le> hi \<and> hi \<le> length bytes \<and>
        min_printable_run \<le> hi - lo \<and> printable_between bytes lo hi"
    then obtain lo hi where r: "lo \<le> offset" "offset + len \<le> hi" "hi \<le> length bytes"
      "min_printable_run \<le> hi - lo" "printable_between bytes lo hi" by blast
    have "run_lo bytes offset \<le> lo"
      by (rule run_lo_least) (use r in \<open>auto simp: printable_between_def\<close>)
    moreover have "hi \<le> run_hi bytes (offset + len)"
      by (rule run_hi_greatest) (use r in \<open>auto simp: printable_between_def\<close>)
    moreover have "printable_between bytes offset (offset + len)"
      using r by (auto simp: printable_between_def)
    ultimately show "in_printable_run bytes offset len"
      using mid r by (auto simp: in_printable_run_def)
  qed
qed

section \<open>What a scan reports\<close>

lemma mk_finding_simps [simp]:
  "fi_file (mk_finding f c b i n) = f" "fi_class (mk_finding f c b i n) = c"
  "fi_byte_offset (mk_finding f c b i n) = i"
  by (simp_all add: mk_finding_def Let_def)

lemma mk_finding_class: "(mk_finding f c b i n)\<lparr>fi_class := d\<rparr> = mk_finding f d b i n"
  by (simp add: mk_finding_def Let_def)

text \<open>Every \<open>(class, offset, length)\<close> the scan looks for, before declarations are applied.\<close>

definition hits :: "string \<Rightarrow> string \<Rightarrow> string \<Rightarrow> (string \<times> nat \<times> nat) set" where
  "hits bytes c w = (\<lambda>i. (c, i, length w)) ` {i. occurs_ci bytes w i \<and> in_printable_run bytes i (length w)}"

definition drive_hits :: "string \<Rightarrow> (string \<times> nat \<times> nat) set" where
  "drive_hits bytes =
     (\<lambda>i. (''local-filesystem-path'', i, 3)) ` {i. i + 2 < length bytes \<and> drive_path_at bytes i}"

definition sought :: "string \<Rightarrow> machine_identifiers \<Rightarrow> (string \<times> nat \<times> nat) set" where
  "sought bytes m =
     (\<Union>(w, c) \<in> set credential_needles. hits bytes c w) \<union> drive_hits bytes \<union>
     (\<Union>w \<in> set (mi_usernames m). hits bytes ''username'' w) \<union>
     (\<Union>w \<in> set (mi_hostnames m). hits bytes ''machine-identifier'' w)"

definition report :: "string \<Rightarrow> string \<Rightarrow> (nat \<times> nat) list \<Rightarrow> string \<times> nat \<times> nat \<Rightarrow> finding" where
  "report file bytes d = (\<lambda>(c, i, n). mk_finding file (class_for d c i n) bytes i n)"

lemma set_scan_needle: "set (scan_needle file bytes d c w) = report file bytes d ` hits bytes c w"
  by (auto simp: scan_needle_def set_find_all hits_def report_def image_image)

lemma set_drive:
  "set (map (\<lambda>i. mk_finding file (class_for d ''local-filesystem-path'' i 3) bytes i 3)
      (filter (drive_path_at bytes) [0..<length bytes - 2])) = report file bytes d ` drive_hits bytes"
  by (auto simp: drive_hits_def report_def image_image less_diff_conv)

lemma set_concat_map: "set (concat (map f xs)) = (\<Union>a \<in> set xs. set (f a))"
  by simp

lemma scan_set:
  "set (scan file bytes m) = report file bytes (declared_ranges bytes (mi_declared m)) ` sought bytes m"
  unfolding scan_def Let_def set_append set_drive set_concat_map sought_def image_Un image_UN
  by (simp add: Un_assoc set_scan_needle split_beta)

lemma class_for_cases:
  "class_for d c i n = c \<or> c \<in> set attributable_classes \<and> class_for d c i n = operator_declared"
  by (simp add: class_for_def)

lemma class_for_Nil [simp]: "class_for [] c i n = c"
  by (simp add: class_for_def)

lemma declared_ranges_Nil [simp]: "declared_ranges bytes [] = []"
  by (simp add: declared_ranges_def)

definition relabelled :: "finding \<Rightarrow> finding \<Rightarrow> bool" where
  "relabelled f g \<longleftrightarrow> f = g \<or> fi_class g \<in> set attributable_classes \<and> f = g\<lparr>fi_class := operator_declared\<rparr>"

lemma relabelled_mk: "relabelled (mk_finding file (class_for d c i n) b i n) (mk_finding file c b i n)"
  using class_for_cases [of d c i n] by (auto simp: relabelled_def mk_finding_class)

lemma relabelled_needle: "list_all2 relabelled (scan_needle file b d c w) (scan_needle file b [] c w)"
  by (simp add: scan_needle_def list_all2_conv_all_nth relabelled_mk)

lemma list_all2_concat_map:
  "(\<And>x. x \<in> set xs \<Longrightarrow> list_all2 P (f x) (g x)) \<Longrightarrow> list_all2 P (concat (map f xs)) (concat (map g xs))"
  by (induction xs) (auto intro: list_all2_appendI)

lemma relabelled_drive:
  "list_all2 relabelled (map (\<lambda>i. mk_finding file (class_for d c i 3) b i 3) xs)
     (map (\<lambda>i. mk_finding file (class_for [] c i 3) b i 3) xs)"
  by (simp add: list_all2_conv_all_nth relabelled_mk)

lemma scan_relabelled: "list_all2 relabelled (scan file b m) (scan file b (m\<lparr>mi_declared := []\<rparr>))"
  unfolding scan_def Let_def
  by (intro list_all2_appendI)
     (auto simp: relabelled_needle relabelled_drive simp del: class_for_Nil intro!: list_all2_concat_map)

lemma relabelled_filter:
  "list_all2 relabelled xs ys \<Longrightarrow>
     filter (\<lambda>f. fi_class f \<in> {''credential'', ''local-filesystem-path''}) xs =
     filter (\<lambda>f. fi_class f \<in> {''credential'', ''local-filesystem-path''}) ys"
  by (induction rule: list_all2_induct) (auto simp: relabelled_def attributable_classes_def operator_declared_def)

lemmas scan_filter_declared = relabelled_filter [OF scan_relabelled]

lemma scan_credentials_declared:
  assumes "fi_class f = ''credential''"
  shows "f \<in> set (scan fl b m) \<longleftrightarrow> f \<in> set (scan fl b (m\<lparr>mi_declared := []\<rparr>))"
  using arg_cong [OF relabelled_filter [OF scan_relabelled], of set fl b m] assms by (auto simp: set_eq_iff)

section \<open>The scan's specification\<close>

text \<open>What a finding needs, with the numbers written out.\<close>

definition in_long_stretch :: "string \<Rightarrow> nat \<Rightarrow> nat \<Rightarrow> bool" where
  "in_long_stretch bytes i n \<longleftrightarrow>
     (\<exists>lo hi. lo \<le> i \<and> i + n \<le> hi \<and> hi \<le> length bytes \<and> lo + 12 \<le> hi \<and>
        (\<forall>k. lo \<le> k \<and> k < hi \<longrightarrow> (of_char (bytes ! k) :: nat) \<in> {0x20..0x7E}))"

definition drive_letter_path :: "string \<Rightarrow> nat \<Rightarrow> bool" where
  "drive_letter_path bytes i \<longleftrightarrow>
     (\<exists>d sep pre post. bytes = pre @ [d, CHR '':'', sep] @ post \<and> length pre = i \<and>
        (of_char d :: nat) \<in> {65..90} \<union> {97..122} \<and> sep \<in> {CHR 0x5C, CHR ''/''} \<and>
        (pre = [] \<or> (of_char (last pre) :: nat) \<notin> {48..57} \<union> {65..90} \<union> {97..122} \<union> {95}))"

definition inside_declared :: "string \<Rightarrow> string list \<Rightarrow> nat \<Rightarrow> nat \<Rightarrow> bool" where
  "inside_declared bytes declared i n \<longleftrightarrow>
     (\<exists>d \<in> set declared. \<exists>k. 12 \<le> length (trim d) \<and> occurs_ci bytes d k \<and> k \<le> i \<and> i + n \<le> k + length d)"

definition found_at :: "string \<Rightarrow> machine_identifiers \<Rightarrow> string \<Rightarrow> nat \<Rightarrow> nat \<Rightarrow> bool" where
  "found_at bytes m c i n \<longleftrightarrow>
     (\<exists>w. n = length w \<and> occurs_ci bytes w i \<and>
          ((w, c) \<in> set credential_needles \<or> c = ''username'' \<and> w \<in> set (mi_usernames m) \<or>
           c = ''machine-identifier'' \<and> w \<in> set (mi_hostnames m)) \<or>
      c = ''local-filesystem-path'' \<and> n = 3 \<and> drive_letter_path bytes i)"

definition finding_at :: "string \<Rightarrow> string \<Rightarrow> machine_identifiers \<Rightarrow> string \<Rightarrow> nat \<Rightarrow> nat \<Rightarrow> finding" where
  "finding_at file bytes m c i n =
     \<lparr>fi_file = file,
      fi_class = (if c \<in> {''username'', ''machine-identifier''} \<and> inside_declared bytes (mi_declared m) i n
                  then ''operator-declared'' else c),
      fi_excerpt = map (\<lambda>x. if x \<in> {CHR 0x0A, CHR 0x0D} then CHR '' '' else x)
        (from_utf8_lossy (map (nth bytes) [i - 24 ..< min (length bytes) (i + n + 24)])),
      fi_byte_offset = i\<rparr>"

lemma in_printable_run_stretch:
  "i + n \<le> length bytes \<Longrightarrow> in_printable_run bytes i n \<longleftrightarrow> in_long_stretch bytes i n"
  unfolding in_printable_run_iff in_long_stretch_def
  by (intro ex_cong1) (auto simp: min_printable_run_def printable_between_def printable_def)

lemma occurs_ci_bound: "occurs_ci bytes w i \<Longrightarrow> i + length w \<le> length bytes"
  by (simp add: occurs_ci_def)

lemma hits_iff: "(c, i, n) \<in> hits bytes d w \<longleftrightarrow> c = d \<and> n = length w \<and> occurs_ci bytes w i \<and> in_long_stretch bytes i n"
  using in_printable_run_stretch [OF occurs_ci_bound] by (auto simp: hits_def)

lemma word_byte:
  "is_alnum x \<or> x = CHR ''_'' \<longleftrightarrow> (of_char x :: nat) \<in> {48..57} \<union> {65..90} \<union> {97..122} \<union> {95}"
  "is_alpha x \<longleftrightarrow> (of_char x :: nat) \<in> {65..90} \<union> {97..122}"
proof -
  have "x = CHR ''_'' \<longleftrightarrow> (of_char x :: nat) = 95" using of_char_eq_iff [of x "CHR ''_''", where ?'a = nat] by simp
  then show "is_alnum x \<or> x = CHR ''_'' \<longleftrightarrow> (of_char x :: nat) \<in> {48..57} \<union> {65..90} \<union> {97..122} \<union> {95}"
    by (auto simp: is_alnum_def is_alpha_def is_digit_def Let_def)
qed (auto simp: is_alpha_def Let_def)

lemma three_from: "i + 2 < length xs \<Longrightarrow> xs = take i xs @ [xs ! i, xs ! (i + 1), xs ! (i + 2)] @ drop (i + 3) xs"
proof -
  assume i: "i + 2 < length xs"
  have "drop i xs = xs ! i # drop (Suc i) xs" "drop (Suc i) xs = xs ! Suc i # drop (Suc (Suc i)) xs"
    "drop (Suc (Suc i)) xs = xs ! Suc (Suc i) # drop (Suc (Suc (Suc i))) xs"
    using i by (simp_all add: Cons_nth_drop_Suc)
  then have "drop i xs = [xs ! i, xs ! (i + 1), xs ! (i + 2)] @ drop (i + 3) xs" by (simp add: numeral_3_eq_3)
  then show ?thesis using append_take_drop_id [of i xs] by simp
qed

lemma drive_letter_path_nth:
  "drive_letter_path bytes i \<longleftrightarrow>
     i + 2 < length bytes \<and> is_alpha (bytes ! i) \<and> bytes ! (i + 1) = CHR '':'' \<and>
     (bytes ! (i + 2) = bs \<or> bytes ! (i + 2) = CHR ''/'') \<and>
     \<not> (0 < i \<and> (is_alnum (bytes ! (i - 1)) \<or> bytes ! (i - 1) = CHR ''_''))" (is "?l \<longleftrightarrow> ?r")
proof
  assume ?l
  then obtain d sep pre post where p: "bytes = pre @ [d, CHR '':'', sep] @ post" "length pre = i"
      "is_alpha d" "sep \<in> {CHR 0x5C, CHR ''/''}" "pre = [] \<or> \<not> (is_alnum (last pre) \<or> last pre = CHR ''_'')"
    unfolding drive_letter_path_def word_byte by blast
  have "bytes ! i = d" "bytes ! (i + 1) = CHR '':''" "bytes ! (i + 2) = sep" "i + 2 < length bytes"
    using p(1,2) by (simp_all add: nth_append)
  moreover have "bytes ! (i - 1) = last pre" if "pre \<noteq> []" 
  proof -
    have "i - 1 < length pre" "0 < i" using p(2) that by auto
    then show ?thesis using p(1,2) that by (simp add: nth_append last_conv_nth)
  qed
  ultimately show ?r using p(2-5) by (auto simp: bs_def)
next
  assume r: ?r
  have "bytes = take i bytes @ [bytes ! i, CHR '':'', bytes ! (i + 2)] @ drop (i + 3) bytes"
    using three_from [of i bytes] r by metis
  moreover have "length (take i bytes) = i" using r by simp
  moreover have "take i bytes = [] \<or> \<not> (is_alnum (last (take i bytes)) \<or> last (take i bytes) = CHR ''_'')"
  proof (cases "i = 0")
    case False
    then have "last (take i bytes) = bytes ! (i - 1)" using r by (subst last_conv_nth) auto
    then show ?thesis using r False by (simp del: One_nat_def)
  qed simp
  moreover have "bytes ! (i + 2) \<in> {CHR 0x5C, CHR ''/''}" using r by (simp add: bs_def)
  ultimately show ?l using r unfolding drive_letter_path_def word_byte [symmetric] by blast
qed

lemma drive_hits_iff:
  "(c, i, n) \<in> drive_hits bytes \<longleftrightarrow>
     c = ''local-filesystem-path'' \<and> n = 3 \<and> drive_letter_path bytes i \<and> in_long_stretch bytes i n"
proof -
  have "i + 2 < length bytes \<and> drive_path_at bytes i \<longleftrightarrow> drive_letter_path bytes i \<and> in_long_stretch bytes i 3"
    (is "?b \<and> _ \<longleftrightarrow> _")
  proof (cases ?b)
    case True
    then have "in_printable_run bytes i 3 \<longleftrightarrow> in_long_stretch bytes i 3" by (intro in_printable_run_stretch) simp
    with True show ?thesis unfolding drive_letter_path_nth drive_path_at_def by blast
  next
    case False
    then show ?thesis unfolding drive_letter_path_nth by blast
  qed
  moreover have "(c, i, n) \<in> drive_hits bytes \<longleftrightarrow>
      c = ''local-filesystem-path'' \<and> n = 3 \<and> i + 2 < length bytes \<and> drive_path_at bytes i"
    unfolding drive_hits_def image_iff by blast
  ultimately show ?thesis by blast
qed

lemma hits_of_pairs:
  "(c, i, n) \<in> (\<Union>(w, d) \<in> A. hits bytes d w) \<longleftrightarrow>
     (\<exists>w. (w, c) \<in> A \<and> n = length w \<and> occurs_ci bytes w i \<and> in_long_stretch bytes i n)"
proof -
  have "(c, i, n) \<in> (\<Union>(w, d) \<in> A. hits bytes d w) \<longleftrightarrow> (\<exists>w d. (w, d) \<in> A \<and> (c, i, n) \<in> hits bytes d w)" by auto
  then show ?thesis unfolding hits_iff by blast
qed

lemma hits_of_words:
  "(c, i, n) \<in> (\<Union>w \<in> A. hits bytes d w) \<longleftrightarrow>
     (\<exists>w. c = d \<and> w \<in> A \<and> n = length w \<and> occurs_ci bytes w i \<and> in_long_stretch bytes i n)"
  unfolding UN_iff hits_iff by blast

lemma sought_iff: "(c, i, n) \<in> sought bytes m \<longleftrightarrow> found_at bytes m c i n \<and> in_long_stretch bytes i n"
  unfolding sought_def Un_iff hits_of_pairs hits_of_words drive_hits_iff found_at_def by blast

lemma sought_in_range: "(c, i, n) \<in> sought bytes m \<Longrightarrow> i + n \<le> length bytes"
  unfolding sought_iff in_long_stretch_def by auto

lemma set_declared_ranges:
  "(lo, hi) \<in> set (declared_ranges bytes ds) \<longleftrightarrow>
     (\<exists>d \<in> set ds. 12 \<le> length (trim d) \<and> occurs_ci bytes d lo \<and> hi = lo + length d)"
  unfolding declared_ranges_def set_concat_map UN_iff
  by (rule bex_cong [OF refl]) (auto simp: set_find_all min_printable_run_def)

lemma in_declared_ranges:
  "list_ex (\<lambda>(lo, hi). lo \<le> i \<and> i + n \<le> hi) (declared_ranges bytes ds) \<longleftrightarrow> inside_declared bytes ds i n"
proof -
  have "list_ex (\<lambda>(lo, hi). lo \<le> i \<and> i + n \<le> hi) (declared_ranges bytes ds) \<longleftrightarrow>
      (\<exists>lo hi. (lo, hi) \<in> set (declared_ranges bytes ds) \<and> lo \<le> i \<and> i + n \<le> hi)"
    unfolding list_ex_iff by auto
  then show ?thesis unfolding set_declared_ranges inside_declared_def by metis
qed

lemma slice_nth: "hi \<le> length xs \<Longrightarrow> take (hi - lo) (drop lo xs) = map (nth xs) [lo ..< hi]"
  by (rule nth_equalityI) auto

lemma report_finding_at:
  "report file bytes (declared_ranges bytes (mi_declared m)) (c, i, n) = finding_at file bytes m c i n"
proof -
  have "c \<in> set attributable_classes \<longleftrightarrow> c \<in> {''username'', ''machine-identifier''}"
    by (simp add: attributable_classes_def)
  then have "class_for (declared_ranges bytes (mi_declared m)) c i n =
      (if c \<in> {''username'', ''machine-identifier''} \<and> inside_declared bytes (mi_declared m) i n
       then ''operator-declared'' else c)"
    unfolding class_for_def in_declared_ranges operator_declared_def by (simp only:)
  moreover have "take (min (i + n + 24) (length bytes) - (i - 24)) (drop (i - 24) bytes) =
      map (nth bytes) [i - 24 ..< min (length bytes) (i + n + 24)]"
    by (subst slice_nth) (simp_all add: min.commute)
  ultimately show ?thesis
    unfolding report_def prod.case mk_finding_def Let_def finding_at_def by simp
qed

section \<open>The gate over a staged bundle\<close>

text \<open>The files of a tree with their path below the root; no order.\<close>

fun node_files :: "string list \<Rightarrow> fs_node \<Rightarrow> (string list \<times> string) set" where
  "node_files p (FsDir (Inr es)) = (\<Union>(n, e) \<in> set es. node_files (p @ [n]) e)"
| "node_files p (FsFile (Inr c)) = {(p, c)}"
| "node_files p _ = {}"

definition stack_files :: "dir_item list \<Rightarrow> (string list \<times> string) set" where
  "stack_files st = (\<Union>(p, d) \<in> set st. node_files p (FsDir d))"

definition file_clean :: "machine_identifiers \<Rightarrow> (string \<Rightarrow> string \<Rightarrow> bool) \<Rightarrow> string list \<times> string \<Rightarrow> bool" where
  "file_clean m skip = (\<lambda>(p, c). skip (rel_name p) c \<or>
     (\<forall>f \<in> set (scan (rel_name p) c m). fi_class f = operator_declared))"

lemma stack_files_snoc: "stack_files (st @ [(p, d)]) = stack_files st \<union> node_files p (FsDir d)"
  by (auto simp: stack_files_def)

definition entry_files :: "string list \<Rightarrow> (string \<times> fs_node) list \<Rightarrow> (string list \<times> string) set" where
  "entry_files dir es = (\<Union>(n, e) \<in> set es. node_files (dir @ [n]) e)"

lemma entry_files_simps [simp]:
  "entry_files dir [] = {}"
  "entry_files dir ((n, e) # es) = node_files (dir @ [n]) e \<union> entry_files dir es"
  by (auto simp: entry_files_def)

text \<open>The dirty file an early return reports.\<close>

definition reports_file ::
    "machine_identifiers \<Rightarrow> (string \<Rightarrow> string \<Rightarrow> bool) \<Rightarrow> (string list \<times> string) set \<Rightarrow> finding list \<Rightarrow> bool" where
  "reports_file m skip files found \<longleftrightarrow>
     (\<exists>p c. (p, c) \<in> files \<and> \<not> skip (rel_name p) c \<and> found = scan (rel_name p) c m \<and>
        (\<exists>f. f \<in> set found \<and> fi_class f \<noteq> operator_declared))"

definition walk_fault :: "(nat \<Rightarrow> 'e + unit) \<Rightarrow> (string \<Rightarrow> 'e) \<Rightarrow> 'e \<Rightarrow> bool" where
  "walk_fault before io e \<longleftrightarrow> (\<exists>k. before k = Inl e) \<or> (\<exists>x. e = io x)"

lemma reports_file_mono: "reports_file m skip A found \<Longrightarrow> A \<subseteq> B \<Longrightarrow> reports_file m skip B found"
  by (auto simp: reports_file_def)

lemma walk_entries_first_only:
  "case walk_entries m before skip io True dir es k fs st of
     Inl e \<Rightarrow> walk_fault before io e
   | Inr (Inl found) \<Rightarrow> reports_file m skip (entry_files dir es) found
   | Inr (Inr (k', fs', st')) \<Rightarrow> fs' = fs \<and>
       stack_files st \<subseteq> stack_files st' \<and> stack_files st' \<subseteq> stack_files st \<union> entry_files dir es \<and>
       entry_files dir es \<subseteq> stack_files st' \<union> Collect (file_clean m skip)"
proof (induction es arbitrary: k st)
  case Nil
  then show ?case by simp
next
  case (Cons e es)
  obtain n nd where e: "e = (n, nd)" by (cases e)
  show ?case
  proof (cases nd)
    case (FsDir d)
    with Cons [where k = k and st = "st @ [(dir @ [n], d)]"] e show ?thesis
      by (auto simp: stack_files_snoc split: sum.splits intro: reports_file_mono)
  next
    case (FsFile c)
    show ?thesis
    proof (cases "before k")
      case (Inl x)
      then show ?thesis using e FsFile by (auto simp: walk_fault_def)
    next
      case u: (Inr u)
      show ?thesis
      proof (cases c)
        case (Inl x)
        then show ?thesis using e FsFile u by (auto simp: walk_fault_def)
      next
        case b: (Inr b)
        show ?thesis
        proof (cases "file_clean m skip (dir @ [n], b)")
          case True
          with e FsFile u b have "walk_entries m before skip io True dir (e # es) k fs st =
              walk_entries m before skip io True dir es (Suc k) fs st"
            by (auto simp: file_clean_def Let_def list_ex_iff)
          then show ?thesis using Cons [where k = "Suc k" and st = st] e FsFile b True
            by (auto split: sum.splits intro: reports_file_mono)
        next
          case False
          with e FsFile u b show ?thesis
            by (auto simp: file_clean_def Let_def list_ex_iff reports_file_def)
        qed
      qed
    qed
  qed
qed

lemma entry_files_sort: "entry_files dir (sort_key fst es) = entry_files dir es"
  by (simp add: entry_files_def)

lemma node_files_entries: "node_files p (FsDir (Inr es)) = entry_files p es"
  by (simp add: entry_files_def)

lemma walk_loop_first_only:
  "case walk_loop m before skip io True k [] st of
     Inl e \<Rightarrow> walk_fault before io e
   | Inr found \<Rightarrow>
       found = [] \<and> stack_files st \<subseteq> Collect (file_clean m skip) \<or> reports_file m skip (stack_files st) found"
proof (induction "stack_weight st" arbitrary: k st rule: less_induct)
  case less
  show ?case
  proof (cases "st = []")
    case True
    then show ?thesis by (subst walk_loop.simps) (simp add: stack_files_def)
  next
    case False
    then obtain st0 dir d where st: "st = st0 @ [(dir, d)]" by (metis rev_exhaust prod.exhaust)
    show ?thesis
    proof (cases d)
      case (Inl x)
      then show ?thesis using st by (subst walk_loop.simps) (auto simp: walk_fault_def)
    next
      case (Inr es)
      let ?w = "walk_entries m before skip io True dir (sort_key fst es) k [] st0"
      have w: "case ?w of
          Inl e \<Rightarrow> walk_fault before io e
        | Inr (Inl found) \<Rightarrow> reports_file m skip (entry_files dir es) found
        | Inr (Inr (k', fs', st')) \<Rightarrow> fs' = [] \<and>
            stack_files st0 \<subseteq> stack_files st' \<and> stack_files st' \<subseteq> stack_files st0 \<union> entry_files dir es \<and>
            entry_files dir es \<subseteq> stack_files st' \<union> Collect (file_clean m skip)"
        using walk_entries_first_only [where m = m and before = before and skip = skip and io = io and dir = dir
            and es = "sort_key fst es" and k = k and fs = "[]" and st = st0]
        unfolding entry_files_sort .
      have files: "stack_files st = stack_files st0 \<union> entry_files dir es"
        using st Inr by (simp add: stack_files_snoc entry_files_def)
      show ?thesis
      proof (cases ?w)
        case (Inl e)
        then show ?thesis using w st Inr by (subst walk_loop.simps) simp
      next
        case r: (Inr r)
        show ?thesis
        proof (cases r)
          case (Inl found)
          then have "reports_file m skip (stack_files st) found"
            using w r files by (auto intro: reports_file_mono)
          then show ?thesis using r Inl st Inr by (subst walk_loop.simps) simp
        next
          case r': (Inr t)
          obtain k' fs' st' where t: "t = (k', fs', st')" by (cases t)
          have eq: "walk_loop m before skip io True k [] st = walk_loop m before skip io True k' [] st'"
            using r r' t st Inr w by (subst walk_loop.simps) simp
          have "stack_weight st' < stack_weight st"
            by (rule walk_decreases [of st dir es m before skip io True k "[]" k' fs']) (use r r' t st Inr in auto)
          from less [OF this, where k = k'] show ?thesis
            unfolding eq using w r r' t files by (auto split: sum.splits intro: reports_file_mono)
        qed
      qed
    qed
  qed
qed

section \<open>Properties\<close>

text \<open>
  \<open>in_printable_run\<close>, written as two loops that grow outwards, holds exactly when the occurrence
  lies inside some stretch of at least twelve printable ASCII bytes.
\<close>
theorem printable_run_is_a_long_stretch:
  assumes "offset + len \<le> length bytes"
  shows "in_printable_run bytes offset len \<longleftrightarrow>
    (\<exists>lo hi. lo \<le> offset \<and> offset + len \<le> hi \<and> hi \<le> length bytes \<and> min_printable_run \<le> hi - lo \<and>
       printable_between bytes lo hi)"
  by (rule in_printable_run_iff [OF assms])

theorem printable_run_is_a_long_stretch_witness:
  "in_printable_run ''a secret word'' 2 6 \<longleftrightarrow>
    (\<exists>lo hi. lo \<le> 2 \<and> 2 + 6 \<le> hi \<and> hi \<le> length ''a secret word'' \<and> min_printable_run \<le> hi - lo \<and>
       printable_between ''a secret word'' lo hi)"
  by (rule printable_run_is_a_long_stretch) simp

text \<open>
  C28: The scan reports exactly what it looks for. There is a finding for every credential word, path
  marker, user name or host name that occurs in the bytes in any letter case, and for every drive letter
  with a colon and a separator that no word character precedes, where the occurrence lies in a stretch
  of at least 12 printable ASCII bytes; and there is no other. Its class is that of what was found, but
  \<open>operator-declared\<close> for a user name or host name inside an occurrence of a declared text of at least
  12 bytes; its excerpt is the text from 24 bytes before to 24 bytes after, line breaks as blanks.
\<close>
theorem scan_reports_exactly_what_it_seeks:
  "f \<in> set (scan file bytes m) \<longleftrightarrow>
     (\<exists>c i n.
        (\<exists>w. n = length w \<and> occurs_ci bytes w i \<and>
             ((w, c) \<in> set credential_needles \<or> c = ''username'' \<and> w \<in> set (mi_usernames m) \<or>
              c = ''machine-identifier'' \<and> w \<in> set (mi_hostnames m)) \<or>
         c = ''local-filesystem-path'' \<and> n = 3 \<and> drive_letter_path bytes i) \<and>
        in_long_stretch bytes i n \<and>
        f = \<lparr>fi_file = file,
             fi_class = (if c \<in> {''username'', ''machine-identifier''} \<and> inside_declared bytes (mi_declared m) i n
                         then ''operator-declared'' else c),
             fi_excerpt = map (\<lambda>x. if x \<in> {CHR 0x0A, CHR 0x0D} then CHR '' '' else x)
               (from_utf8_lossy (map (nth bytes) [i - 24 ..< min (length bytes) (i + n + 24)])),
             fi_byte_offset = i\<rparr>)"
proof -
  have "f \<in> set (scan file bytes m) \<longleftrightarrow>
      (\<exists>c i n. (c, i, n) \<in> sought bytes m \<and> f = report file bytes (declared_ranges bytes (mi_declared m)) (c, i, n))"
    unfolding scan_set by auto
  also have "\<dots> \<longleftrightarrow> (\<exists>c i n. found_at bytes m c i n \<and> in_long_stretch bytes i n \<and> f = finding_at file bytes m c i n)"
    using report_finding_at sought_iff sought_in_range by metis
  finally show ?thesis unfolding found_at_def finding_at_def .
qed

text \<open>
  C29: Whatever text an operator declares, the scan still makes the same reports in the same order; a
  declaration can only relabel a user name or machine name as operator-declared. Credentials and local
  paths keep their class.
\<close>
theorem declarations_never_hide_credentials_or_paths:
  "list_all2 relabelled (scan file bytes m) (scan file bytes (m\<lparr>mi_declared := []\<rparr>)) \<and>
   filter (\<lambda>f. fi_class f \<in> {''credential'', ''local-filesystem-path''}) (scan file bytes m) =
   filter (\<lambda>f. fi_class f \<in> {''credential'', ''local-filesystem-path''}) (scan file bytes (m\<lparr>mi_declared := []\<rparr>))"
  using scan_relabelled scan_filter_declared by blast

text \<open>
  C27: The redaction gate over a staged bundle. When it answers \<open>None\<close>, every file below the root that
  was not skipped has no finding but operator-declared ones; when it answers with findings, they are
  all the undeclared findings of one file that was scanned, by ascending offset; it fails only when the
  callback or the file system does.
\<close>
theorem redaction_gate_sound:
  "case first_undeclared_findings root m before skip io of
     Inl e \<Rightarrow> walk_fault before io e
   | Inr None \<Rightarrow> node_files [] (FsDir root) \<subseteq> Collect (file_clean m skip)
   | Inr (Some (name, fs)) \<Rightarrow> fs \<noteq> [] \<and> sorted (map fi_byte_offset fs) \<and>
       (\<exists>p c. (p, c) \<in> node_files [] (FsDir root) \<and> \<not> skip (rel_name p) c \<and> name = rel_name p \<and>
          set fs = {f \<in> set (scan (rel_name p) c m). fi_class f \<noteq> operator_declared})"
proof -
  have st: "stack_files [([], root)] = node_files [] (FsDir root)" by (simp add: stack_files_def)
  note w = walk_loop_first_only [where m = m and before = before and skip = skip and io = io and k = 0
      and st = "[([], root)]", unfolded st]
  show ?thesis
  proof (cases "walk root m before skip io True")
    case (Inl e)
    then show ?thesis using w by (simp add: walk_def first_undeclared_findings_def)
  next
    case (Inr found)
    consider (clean) "found = []" "node_files [] (FsDir root) \<subseteq> Collect (file_clean m skip)"
      | (dirty) "reports_file m skip (node_files [] (FsDir root)) found"
      using w Inr by (auto simp: walk_def)
    then show ?thesis
    proof cases
      case clean
      then show ?thesis using Inr by (simp add: first_undeclared_findings_def)
    next
      case dirty
      then obtain p c where p: "(p, c) \<in> node_files [] (FsDir root)" "\<not> skip (rel_name p) c"
        "found = scan (rel_name p) c m" "\<exists>f. f \<in> set found \<and> fi_class f \<noteq> operator_declared"
        by (auto simp: reports_file_def)
      define fs where "fs = sort_key fi_byte_offset (filter (\<lambda>x. fi_class x \<noteq> operator_declared) found)"
      have s: "set fs = {f \<in> set found. fi_class f \<noteq> operator_declared}" by (auto simp: fs_def)
      have ne: "fs \<noteq> []" using s p(4) by auto
      have "fi_file (hd fs) = rel_name p"
        using s hd_in_set [OF ne] p(3) by (auto simp: scan_set report_def split: prod.splits)
      moreover have "sorted (map fi_byte_offset fs)" by (simp add: fs_def)
      moreover have "first_undeclared_findings root m before skip io = Inr (Some (fi_file (hd fs), fs))"
        using Inr ne by (simp add: first_undeclared_findings_def fs_def Let_def)
      ultimately show ?thesis using p s ne by auto
    qed
  qed
qed

end
