(* ===== verification/Canonical_Json.thy ===== *)
theory Canonical_Json
  imports Rust_Str Wkb
begin

text \<open>
  \<open>renderer/src/canonical.rs\<close>: the canonical JSON writer. A double is its bit pattern; its decimal
  text and the reading of that text are \<open>std\<close>'s, which are exact: \<open>{:.p}\<close> rounds the exact binary
  value to \<open>p\<close> decimals, ties to even, and \<open>parse\<close> rounds the exact decimal value to the nearest
  double, ties to even. Both are written out here over integers. \<open>sha256\<close> is the \<open>sha2\<close> crate's and a
  parameter.
\<close>

unbundle bit_operations_syntax

section \<open>Doubles as exact numbers\<close>

definition f64_neg :: "f64 \<Rightarrow> bool" where
  "f64_neg d \<longleftrightarrow> bit d 63"

definition f64_is_finite :: "f64 \<Rightarrow> bool" where
  "f64_is_finite d \<longleftrightarrow> f64_mag d < 0x7FF0000000000000"

text \<open>The magnitude of a finite double is \<open>mant * 2 ^ k / 2 ^ 1074\<close>.\<close>

definition f64_k :: "f64 \<Rightarrow> nat" where
  "f64_k d = (let e = unat (f64_mag d) div 2 ^ 52 in if e = 0 then 0 else e - 1)"

definition f64_mant :: "f64 \<Rightarrow> int" where
  "f64_mant d =
     (let m = uint (f64_mag d) mod 2 ^ 52
      in if unat (f64_mag d) div 2 ^ 52 = 0 then m else m + 2 ^ 52)"

definition half_even :: "int \<Rightarrow> int \<Rightarrow> int" where
  "half_even n d =
     (let q = n div d; r = n mod d
      in if 2 * r < d then q else if 2 * r > d then q + 1 else if even q then q else q + 1)"

definition pad_frac :: "nat \<Rightarrow> nat \<Rightarrow> string" where
  "pad_frac p n = pad0 p (show_nat n)"

text \<open>\<open>format!("{d:.p$}")\<close> for a finite double and \<open>p \<ge> 1\<close>.\<close>

definition format_fixed :: "f64 \<Rightarrow> nat \<Rightarrow> string" where
  "format_fixed d p =
     (let n = nat (half_even (f64_mant d * 2 ^ f64_k d * 10 ^ p) (2 ^ 1074))
      in (if f64_neg d then ''-'' else []) @ show_nat (n div 10 ^ p) @ ''.'' @ pad_frac p (n mod 10 ^ p))"

text \<open>
  The double nearest to \<open>n / d\<close>: the least scale at which the value fits 53 bits, the mantissa rounded
  to even, and the two added, so that a mantissa that rounds up carries into the exponent.
\<close>

function nearest_k :: "int \<Rightarrow> int \<Rightarrow> nat \<Rightarrow> nat" where
  "nearest_k n d k = (if 2046 \<le> k \<or> n * 2 ^ 1021 < d * 2 ^ k then k else nearest_k n d (Suc k))"
  by pat_completeness auto
termination
  by (relation "measure (\<lambda>(n, d, k). 2046 - k)") auto

declare nearest_k.simps [simp del]

definition nearest_f64 :: "bool \<Rightarrow> int \<Rightarrow> int \<Rightarrow> f64" where
  "nearest_f64 neg n d =
     (let k = nearest_k n d 0;
          m = int k * 2 ^ 52 + half_even (n * 2 ^ 1074) (d * 2 ^ k);
          mag = if m \<ge> 0x7FF0000000000000 then 0x7FF0000000000000 else word_of_int m
      in if neg then mag OR 0x8000000000000000 else mag)"

text \<open>\<open>parse::<f64>()\<close> on a decimal without exponent: a sign, digits, a point, digits.\<close>

definition parse_fixed :: "string \<Rightarrow> f64 option" where
  "parse_fixed s =
     (let neg = starts_with s ''-''; body = (if neg then drop 1 s else s)
      in case split_on (CHR ''.'') body of
           [i, f] \<Rightarrow>
             if list_all is_digit i \<and> list_all is_digit f \<and> i \<noteq> []
             then Some (nearest_f64 neg (int (read_nat (i @ f))) (10 ^ length f)) else None
         | _ \<Rightarrow> None)"

section \<open>Values and errors\<close>

datatype json =
    JNull
  | JBool bool
  | JInt int
  | JUInt nat
  | JDouble f64
  | JStr string
  | JArr "json list"
  | JObj "(string \<times> json) list"

datatype canonical_error =
    NonFinite string
  | OutOfDomain string f64
  | DuplicateKey string string
  | NotRoundTrippable string f64

definition min_abs_double :: f64 where
  "min_abs_double = 0x3EB0C6F7A0B5ED8D"

definition max_abs_double :: f64 where
  "max_abs_double = 0x430C6BF526340000"

section \<open>The writer\<close>

text \<open>\<open>while s.ends_with('0') && !s.ends_with(".0") { s.pop(); }\<close>\<close>

function trim_zeros :: "string \<Rightarrow> string" where
  "trim_zeros s = (if ends_with s ''0'' \<and> \<not> ends_with s ''.0'' then trim_zeros (butlast s) else s)"
  by pat_completeness auto
termination
proof (relation "measure length")
  fix s :: string
  assume "ends_with s ''0'' \<and> \<not> ends_with s ''.0''"
  then have "s \<noteq> []" by (auto simp: ends_with_def starts_with_def)
  then show "(butlast s, s) \<in> measure length" by simp
qed simp

declare trim_zeros.simps [simp del]

definition trim_fraction :: "string \<Rightarrow> string" where
  "trim_fraction s = (if CHR ''.'' \<notin> set s then s @ ''.0'' else trim_zeros s)"

text \<open>\<open>for precision in 1..=30\<close>, from \<open>precision\<close> with \<open>n\<close> left.\<close>

fun try_precisions :: "f64 \<Rightarrow> nat \<Rightarrow> nat \<Rightarrow> string option" where
  "try_precisions d precision 0 = None"
| "try_precisions d precision (Suc n) =
     (let s = format_fixed d precision
      in case parse_fixed s of
           Some v \<Rightarrow> if f64_eq v d then Some (trim_fraction s) else try_precisions d (Suc precision) n
         | None \<Rightarrow> try_precisions d (Suc precision) n)"

definition write_double :: "f64 \<Rightarrow> string \<Rightarrow> canonical_error + string" where
  "write_double d0 at =
     (if \<not> f64_is_finite d0 then Inl (NonFinite at)
      else
        let d = (if f64_mag d0 = 0 then 0 else d0); mag = f64_mag d
        in if f64_mag d \<noteq> 0 \<and> (mag < min_abs_double \<or> max_abs_double \<le> mag) then Inl (OutOfDomain at d)
           else (case try_precisions d 1 30 of
                   Some s \<Rightarrow> Inr s
                 | None \<Rightarrow> Inl (NotRoundTrippable at d)))"

definition esc :: "char \<Rightarrow> string" where
  "esc c =
     (if c = CHR 0x22 then [CHR 0x5C, CHR 0x22]
      else if c = CHR 0x5C then [CHR 0x5C, CHR 0x5C]
      else if c = CHR 0x08 then CHR 0x5C # ''b''
      else if c = CHR 0x09 then CHR 0x5C # ''t''
      else if c = CHR 0x0A then CHR 0x5C # ''n''
      else if c = CHR 0x0C then CHR 0x5C # ''f''
      else if c = CHR 0x0D then CHR 0x5C # ''r''
      else if (of_char c :: nat) < 0x20 then CHR 0x5C # ''u00'' @ hex_byte (of_char c)
      else [c])"

definition write_string :: "string \<Rightarrow> string" where
  "write_string s = CHR 0x22 # concat (map esc s) @ [CHR 0x22]"

fun write_value :: "json \<Rightarrow> string \<Rightarrow> canonical_error + string"
  and write_items :: "json list \<Rightarrow> nat \<Rightarrow> string \<Rightarrow> canonical_error + string"
  and write_members :: "(string \<times> json) list \<Rightarrow> string list \<Rightarrow> string \<Rightarrow> canonical_error + string" where
  "write_value JNull at = Inr ''null''"
| "write_value (JBool b) at = Inr (if b then ''true'' else ''false'')"
| "write_value (JInt i) at = Inr (show_int i)"
| "write_value (JUInt n) at = Inr (show_nat n)"
| "write_value (JDouble d) at = write_double d at"
| "write_value (JStr s) at = Inr (write_string s)"
| "write_value (JArr items) at =
     (case write_items items 0 at of Inl e \<Rightarrow> Inl e | Inr s \<Rightarrow> Inr (''['' @ s @ '']''))"
| "write_value (JObj members) at =
     (case write_members members [] at of Inl e \<Rightarrow> Inl e | Inr s \<Rightarrow> Inr (''{'' @ s @ ''}''))"
| "write_items [] i at = Inr []"
| "write_items (v # vs) i at =
     (case write_value v (at @ ''['' @ show_nat i @ '']'') of
        Inl e \<Rightarrow> Inl e
      | Inr s \<Rightarrow>
          (case write_items vs (Suc i) at of
             Inl e \<Rightarrow> Inl e
           | Inr t \<Rightarrow> Inr ((if 0 < i then '','' else []) @ s @ t)))"
| "write_members [] seen at = Inr []"
| "write_members ((k, v) # ms) seen at =
     (if k \<in> set seen then Inl (DuplicateKey at k)
      else
        (case write_value v (at @ ''.'' @ k) of
           Inl e \<Rightarrow> Inl e
         | Inr s \<Rightarrow>
             (case write_members ms (seen @ [k]) at of
                Inl e \<Rightarrow> Inl e
              | Inr t \<Rightarrow> Inr ((if seen \<noteq> [] then '','' else []) @ write_string k @ '':'' @ s @ t))))"

definition to_canonical_string :: "json \<Rightarrow> canonical_error + string" where
  "to_canonical_string v = write_value v ''$''"

definition sha256_hex :: "(string \<Rightarrow> nat list) \<Rightarrow> string \<Rightarrow> string" where
  "sha256_hex sha256 bytes = ''sha256:'' @ concat (map hex_byte (sha256 bytes))"

definition canonical_and_hash :: "(string \<Rightarrow> nat list) \<Rightarrow> json \<Rightarrow> canonical_error + string \<times> string" where
  "canonical_and_hash sha256 v =
     (case to_canonical_string v of Inl e \<Rightarrow> Inl e | Inr s \<Rightarrow> Inr (s, sha256_hex sha256 s))"

end
