(* ===== verification/Ieee.thy ===== *)
theory Ieee
  imports Canonical_Json
begin

text \<open>
  The \<open>f64\<close> operations of Rust's core library that the engine computes with, on bit patterns: order,
  correctly rounded subtraction, product and quotient, \<open>max\<close>, \<open>clamp\<close> and the saturating cast to \<open>u32\<close>. The
  order of doubles is the order of an integer key, and every operation is monotone in it.
\<close>

unbundle bit_operations_syntax

section \<open>Order\<close>

definition f64_key :: "f64 \<Rightarrow> int" where
  "f64_key x = (if f64_neg x then - uint (f64_mag x) else uint (f64_mag x))"

definition f64_le :: "f64 \<Rightarrow> f64 \<Rightarrow> bool" where
  "f64_le x y \<longleftrightarrow> \<not> f64_is_nan x \<and> \<not> f64_is_nan y \<and> f64_key x \<le> f64_key y"

definition f64_lt :: "f64 \<Rightarrow> f64 \<Rightarrow> bool" where
  "f64_lt x y \<longleftrightarrow> \<not> f64_is_nan x \<and> \<not> f64_is_nan y \<and> f64_key x < f64_key y"

definition f64_infinity :: f64 where "f64_infinity = 0x7FF0000000000000"
definition f64_neg_infinity :: f64 where "f64_neg_infinity = 0xFFF0000000000000"
definition f64_nan :: f64 where "f64_nan = 0x7FF8000000000000"
definition f64_min_positive :: f64 where "f64_min_positive = 0x0010000000000000"

definition f64_min :: "f64 \<Rightarrow> f64 \<Rightarrow> f64" where
  "f64_min x y = (if f64_is_nan x then y else if f64_is_nan y then x else if f64_lt x y then x else y)"

definition f64_max :: "f64 \<Rightarrow> f64 \<Rightarrow> f64" where
  "f64_max x y = (if f64_is_nan x then y else if f64_is_nan y then x else if f64_lt y x then x else y)"

definition f64_clamp :: "f64 \<Rightarrow> f64 \<Rightarrow> f64 \<Rightarrow> f64" where
  "f64_clamp x lo hi =
     (let y = (if f64_lt x lo then lo else x) in if f64_lt hi y then hi else y)"

section \<open>Arithmetic\<close>

text \<open>A finite double is \<open>f64_sig x / 2 ^ 1074\<close>.\<close>

definition f64_sig :: "f64 \<Rightarrow> int" where
  "f64_sig x = (if f64_neg x then - (f64_mant x * 2 ^ f64_k x) else f64_mant x * 2 ^ f64_k x)"

definition f64_signed :: "bool \<Rightarrow> f64 \<Rightarrow> f64" where
  "f64_signed neg m = (if neg then m OR 0x8000000000000000 else m)"

definition f64_sub :: "f64 \<Rightarrow> f64 \<Rightarrow> f64" where
  "f64_sub x y =
     (if f64_is_nan x \<or> f64_is_nan y then f64_nan
      else if \<not> f64_is_finite x then
        (if \<not> f64_is_finite y \<and> f64_neg x = f64_neg y then f64_nan else x)
      else if \<not> f64_is_finite y then f64_signed (\<not> f64_neg y) f64_infinity
      else
        let s = f64_sig x - f64_sig y
        in if s = 0 then f64_signed (f64_mag x = 0 \<and> f64_neg x \<and> f64_mag y = 0 \<and> \<not> f64_neg y) 0
           else nearest_f64 (s < 0) \<bar>s\<bar> (2 ^ 1074))"

definition f64_mul :: "f64 \<Rightarrow> f64 \<Rightarrow> f64" where
  "f64_mul x y =
     (let neg = (f64_neg x \<noteq> f64_neg y)
      in if f64_is_nan x \<or> f64_is_nan y then f64_nan
         else if \<not> f64_is_finite x \<or> \<not> f64_is_finite y then
           (if f64_mag x = 0 \<or> f64_mag y = 0 then f64_nan else f64_signed neg f64_infinity)
         else nearest_f64 neg (\<bar>f64_sig x\<bar> * \<bar>f64_sig y\<bar>) (2 ^ 1074 * 2 ^ 1074))"

definition f64_div :: "f64 \<Rightarrow> f64 \<Rightarrow> f64" where
  "f64_div x y =
     (let neg = (f64_neg x \<noteq> f64_neg y)
      in if f64_is_nan x \<or> f64_is_nan y then f64_nan
         else if \<not> f64_is_finite x then (if f64_is_finite y then f64_signed neg f64_infinity else f64_nan)
         else if \<not> f64_is_finite y then f64_signed neg 0
         else if f64_mag y = 0 then (if f64_mag x = 0 then f64_nan else f64_signed neg f64_infinity)
         else nearest_f64 neg \<bar>f64_sig x\<bar> \<bar>f64_sig y\<bar>)"

text \<open>\<open>x as u32\<close>: toward zero, saturating, NaN to 0.\<close>

definition f64_to_u32 :: "f64 \<Rightarrow> nat" where
  "f64_to_u32 x =
     (if f64_is_nan x \<or> f64_neg x then 0
      else if \<not> f64_is_finite x then 2 ^ 32 - 1
      else min (nat (f64_sig x div 2 ^ 1074)) (2 ^ 32 - 1))"

section \<open>Values as a function of the key\<close>

definition magval :: "int \<Rightarrow> int" where
  "magval m = (if m div 2 ^ 52 = 0 then m mod 2 ^ 52 else (m mod 2 ^ 52 + 2 ^ 52) * 2 ^ (nat (m div 2 ^ 52) - 1))"

definition odd_ext :: "(int \<Rightarrow> int) \<Rightarrow> int \<Rightarrow> int" where
  "odd_ext g k = (if k < 0 then - g (- k) else g k)"

lemma odd_ext_mono:
  assumes "\<And>a b. 0 \<le> a \<Longrightarrow> a \<le> b \<Longrightarrow> g a \<le> g b" "g 0 = 0" "k \<le> l"
  shows "odd_ext g k \<le> odd_ext g l"
proof -
  have "0 \<le> g a" if "0 \<le> a" for a using assms(1) [of 0 a] assms(2) that by simp
  then show ?thesis using assms(1,3) by (auto simp: odd_ext_def) (smt (verit))
qed

lemma magval_mono:
  assumes "0 \<le> a" "a \<le> b"
  shows "magval a \<le> magval b"
proof -
  let ?e = "a div 2 ^ 52" and ?f = "b div 2 ^ 52" and ?x = "a mod 2 ^ 52" and ?y = "b mod 2 ^ 52"
  have e: "0 \<le> ?e" "?e \<le> ?f" using assms by (simp_all add: zdiv_mono1 pos_imp_zdiv_nonneg_iff)
  have x: "0 \<le> ?x" "?x < 2 ^ 52" and y: "0 \<le> ?y" by simp_all
  have split: "a = ?e * 2 ^ 52 + ?x" "b = ?f * 2 ^ 52 + ?y" by (simp_all add: div_mult_mod_eq)
  consider "?e = ?f" | "?e = 0" "?f > 0" | "?e > 0" "?e < ?f" using e by linarith
  then show ?thesis
  proof cases
    case 1
    then have "?e * 2 ^ 52 + ?x \<le> ?e * 2 ^ 52 + ?y" using assms(2) split by metis
    then have "?x \<le> ?y" by (simp only: add_le_cancel_left)
    then show ?thesis using 1 assms(2) by (simp add: magval_def)
  next
    case 2
    have "(2::int) ^ 52 * 1 \<le> (?y + 2 ^ 52) * 2 ^ (nat ?f - 1)" by (rule mult_mono) (use y in auto)
    then show ?thesis using 2 x by (simp add: magval_def)
  next
    case 3
    have "nat ?e - 1 + 1 \<le> nat ?f - 1" using 3 by linarith
    then have p: "(2::int) ^ (nat ?e - 1 + 1) \<le> 2 ^ (nat ?f - 1)" by (rule power_increasing) simp
    have "(?x + 2 ^ 52) * 2 ^ (nat ?e - 1) \<le> 2 ^ 53 * 2 ^ (nat ?e - 1)" by (rule mult_right_mono) (use x in auto)
    also have "\<dots> = 2 ^ 52 * 2 ^ (nat ?e - 1 + 1)" by simp
    also have "\<dots> \<le> (?y + 2 ^ 52) * 2 ^ (nat ?f - 1)" by (rule mult_mono [OF _ p]) (use y in simp_all)
    finally have "(?x + 2 ^ 52) * 2 ^ (nat ?e - 1) \<le> (?y + 2 ^ 52) * 2 ^ (nat ?f - 1)" .
    moreover have "?e \<noteq> 0" "?f \<noteq> 0" using 3 by linarith+
    ultimately show ?thesis by (simp only: magval_def if_False)
  qed
qed

lemma magval_0: "magval 0 = 0"
  by (simp add: magval_def)

lemma f64_mag_nonneg: "0 \<le> uint (f64_mag x)" by simp

lemma f64_sig_key: "f64_sig x = odd_ext magval (f64_key x)"
proof -
  have d: "int (unat (f64_mag x) div 2 ^ 52) = uint (f64_mag x) div 2 ^ 52"
    by (simp add: zdiv_int)
  have "f64_mant x * 2 ^ f64_k x = magval (uint (f64_mag x))"
  proof (cases "unat (f64_mag x) div 2 ^ 52 = 0")
    case True
    then have "uint (f64_mag x) div 2 ^ 52 = 0" using d by linarith
    then show ?thesis using True by (simp add: f64_mant_def f64_k_def magval_def Let_def)
  next
    case False
    then have "uint (f64_mag x) div 2 ^ 52 \<noteq> 0" using d by linarith
    moreover have "nat (uint (f64_mag x) div 2 ^ 52) = unat (f64_mag x) div 2 ^ 52" using d by (metis nat_int)
    ultimately show ?thesis using False by (simp add: f64_mant_def f64_k_def magval_def Let_def)
  qed
  moreover have "uint (f64_mag x) = 0 \<or> 0 < uint (f64_mag x)" using uint_ge_0 [of "f64_mag x"] by linarith
  ultimately show ?thesis using magval_0 by (auto simp: f64_sig_def f64_key_def odd_ext_def)
qed

lemma f64_sig_mono: "f64_key x \<le> f64_key y \<Longrightarrow> f64_sig x \<le> f64_sig y"
  unfolding f64_sig_key by (rule odd_ext_mono [where g = magval]) (simp_all add: magval_mono magval_0)

section \<open>Rounding is monotone\<close>

lemma half_even_scale: "0 < c \<Longrightarrow> half_even (c * n) (c * d) = half_even n d"
  by (simp add: half_even_def Let_def mult_less_cancel_left mult.left_commute [of 2])

lemma half_even_mono:
  assumes "0 < d" "n \<le> m"
  shows "half_even n d \<le> half_even m d"
proof -
  have q: "n div d \<le> m div d" using assms by (simp add: zdiv_mono1)
  have b: "n div d \<le> half_even n d" "half_even n d \<le> n div d + 1" "m div d \<le> half_even m d" "half_even m d \<le> m div d + 1"
    by (simp_all add: half_even_def Let_def)
  show ?thesis
  proof (cases "n div d = m div d")
    case True
    then have "n mod d \<le> m mod d"
      using assms(2) by (metis add_le_cancel_left mult_div_mod_eq)
    then show ?thesis using True by (auto simp: half_even_def Let_def)
  next
    case False
    then show ?thesis using q b by linarith
  qed
qed

text \<open>Two fractions over different denominators.\<close>

lemma half_even_frac_mono:
  assumes "0 < d" "0 < e" "n * e \<le> m * d"
  shows "half_even n d \<le> half_even m e"
proof -
  have "half_even n d = half_even (e * n) (e * d)" using assms(2) by (simp add: half_even_scale)
  also have "\<dots> \<le> half_even (d * m) (e * d)"
    by (rule half_even_mono) (use assms in \<open>simp_all add: mult.commute\<close>)
  also have "\<dots> = half_even m e" using half_even_scale [OF assms(1), of m e] by (simp add: mult.commute)
  finally show ?thesis .
qed

lemma nearest_k_bounds:
  assumes "k \<le> 2046"
  shows "nearest_k n d k \<le> 2046 \<and> k \<le> nearest_k n d k \<and>
    (nearest_k n d k < 2046 \<longrightarrow> n * 2 ^ 1021 < d * 2 ^ nearest_k n d k) \<and>
    (k < nearest_k n d k \<longrightarrow> d * 2 ^ (nearest_k n d k - 1) \<le> n * 2 ^ 1021)"
  using assms
proof (induction n d k rule: nearest_k.induct)
  case (1 n d k)
  show ?case
  proof (cases "2046 \<le> k \<or> n * 2 ^ 1021 < d * 2 ^ k")
    case True
    then have "nearest_k n d k = k" by (subst nearest_k.simps) (simp only: if_True)
    then show ?thesis using True "1.prems" by auto
  next
    case False
    then have r: "nearest_k n d k = nearest_k n d (Suc k)" by (subst nearest_k.simps) (simp only: if_False)
    have IH: "nearest_k n d (Suc k) \<le> 2046 \<and> Suc k \<le> nearest_k n d (Suc k) \<and>
      (nearest_k n d (Suc k) < 2046 \<longrightarrow> n * 2 ^ 1021 < d * 2 ^ nearest_k n d (Suc k)) \<and>
      (Suc k < nearest_k n d (Suc k) \<longrightarrow> d * 2 ^ (nearest_k n d (Suc k) - 1) \<le> n * 2 ^ 1021)"
      using "1.IH" [OF False] False by simp
    show ?thesis unfolding r
    proof (intro conjI impI)
      assume "k < nearest_k n d (Suc k)"
      show "d * 2 ^ (nearest_k n d (Suc k) - 1) \<le> n * 2 ^ 1021"
      proof (cases "Suc k < nearest_k n d (Suc k)")
        case eq: False
        then have "nearest_k n d (Suc k) - 1 = k" using IH by linarith
        then show ?thesis using False by simp
      qed (use IH in blast)
    qed (use IH in auto)
  qed
qed

definition round_mag :: "int \<Rightarrow> int \<Rightarrow> int" where
  "round_mag n d =
     min 0x7FF0000000000000 (int (nearest_k n d 0) * 2 ^ 52 + half_even (n * 2 ^ 1074) (d * 2 ^ nearest_k n d 0))"

lemma half_even_mult: "0 < d \<Longrightarrow> half_even (c * d) d = c"
  by (simp add: half_even_def)

lemma nearest_k_mono:
  assumes "0 < d" "0 < e" "n * e \<le> m * d"
  shows "nearest_k n d 0 \<le> nearest_k m e 0"
proof (rule ccontr)
  let ?k = "nearest_k n d 0" and ?l = "nearest_k m e 0"
  assume "\<not> ?k \<le> ?l"
  then have l: "?l < 2046" "?l \<le> ?k - 1" "0 < ?k" using nearest_k_bounds [of 0 n d] by auto
  have "e * (d * 2 ^ ?l) \<le> e * (d * 2 ^ (?k - 1))" using l assms by simp
  also have "\<dots> \<le> e * (n * 2 ^ 1021)"
    using nearest_k_bounds [of 0 n d] l(3) assms(2) by (intro mult_left_mono) auto
  also have "\<dots> = n * e * 2 ^ 1021" by (simp only: ac_simps)
  also have "\<dots> \<le> m * d * 2 ^ 1021" using assms(3) by (rule mult_right_mono) simp
  also have "\<dots> = d * (m * 2 ^ 1021)" by (simp only: ac_simps)
  also have "\<dots> < d * (e * 2 ^ ?l)"
    using nearest_k_bounds [of 0 m e] l(1) assms(1) by (intro mult_strict_left_mono) auto
  finally show False by (simp only: ac_simps less_irrefl)
qed

lemma round_mag_mono:
  assumes "0 < d" "0 < e" "n * e \<le> m * d"
  shows "round_mag n d \<le> round_mag m e"
proof -
  let ?k = "nearest_k n d 0" and ?l = "nearest_k m e 0"
  let ?h = "half_even (n * 2 ^ 1074) (d * 2 ^ ?k)" and ?g = "half_even (m * 2 ^ 1074) (e * 2 ^ ?l)"
  have "int ?k * 2 ^ 52 + ?h \<le> int ?l * 2 ^ 52 + ?g"
  proof (cases "?k = ?l")
    case True
    have "n * e * (2 ^ 1074 * 2 ^ ?l) \<le> m * d * (2 ^ 1074 * 2 ^ ?l)" using assms(3) by (rule mult_right_mono) simp
    then have "n * 2 ^ 1074 * (e * 2 ^ ?l) \<le> m * 2 ^ 1074 * (d * 2 ^ ?l)" by (simp only: ac_simps)
    then have "?h \<le> ?g" unfolding True by (intro half_even_frac_mono) (use assms in auto)
    then show ?thesis using True by simp
  next
    case False
    then have lt: "?k < ?l" using nearest_k_mono [OF assms] by simp
    have k: "?k < 2046" and l: "0 < ?l" using lt nearest_k_bounds [of 0 m e] by auto
    have n: "n * 2 ^ 1021 * 2 ^ 53 \<le> d * 2 ^ ?k * 2 ^ 53"
      using nearest_k_bounds [of 0 n d] k by (intro mult_right_mono) auto
    have shift: "x * 2 ^ 1021 * 2 ^ 53 = x * 2 ^ 1074" for x :: int
      by (simp only: mult.assoc power_add [symmetric] numeral_plus_numeral add_num_simps)
    have "n * 2 ^ 1074 \<le> 2 ^ 53 * (d * 2 ^ ?k)" using n unfolding shift by (simp only: ac_simps)
    then have h: "?h \<le> 2 ^ 53"
      using half_even_mono [of "d * 2 ^ ?k" "n * 2 ^ 1074" "2 ^ 53 * (d * 2 ^ ?k)"] half_even_mult [of "d * 2 ^ ?k" "2 ^ 53"] assms(1)
      by simp
    have m: "e * 2 ^ (?l - 1) * 2 ^ 53 \<le> m * 2 ^ 1021 * 2 ^ 53"
      using nearest_k_bounds [of 0 m e] l by (intro mult_right_mono) auto
    have e: "e * 2 ^ (?l - 1) * 2 ^ 53 = 2 ^ 52 * (e * 2 ^ ?l)"
      using l by (cases ?l) simp_all
    have "2 ^ 52 * (e * 2 ^ ?l) \<le> m * 2 ^ 1074" using m unfolding shift e .
    then have g: "2 ^ 52 \<le> ?g"
      using half_even_mono [of "e * 2 ^ ?l" "2 ^ 52 * (e * 2 ^ ?l)" "m * 2 ^ 1074"] half_even_mult [of "e * 2 ^ ?l" "2 ^ 52"] assms(2)
      by simp
    have "int ?k + 1 \<le> int ?l" using lt by simp
    then have "(int ?k + 1) * 2 ^ 52 \<le> int ?l * 2 ^ 52" by (rule mult_right_mono) simp
    then show ?thesis using h g by simp
  qed
  then show ?thesis by (simp add: round_mag_def)
qed

lemma round_mag_0: "round_mag 0 d = 0" if "0 < d"
proof -
  have "nearest_k 0 d 0 = 0" using that by (subst nearest_k.simps) simp
  then show ?thesis using that by (simp add: round_mag_def half_even_def)
qed

section \<open>Keys of results\<close>

lemma f64_mag_take_bit: "f64_mag x = take_bit 63 x"
proof -
  have "(0x7FFFFFFFFFFFFFFF :: u64) = mask 63" by (simp add: mask_eq_exp_minus_1)
  then show ?thesis by (simp add: f64_mag_def take_bit_eq_mask)
qed

lemma sign_bit: "(0x8000000000000000 :: u64) = push_bit 63 1"
  by (simp add: push_bit_eq_mult)

lemma f64_mag_sign: "f64_mag (w OR 0x8000000000000000) = f64_mag w"
  unfolding f64_mag_take_bit sign_bit
  by (rule bit_word_eqI) (auto simp: bit_take_bit_iff bit_or_iff bit_push_bit_iff)

lemma f64_neg_sign: "f64_neg (w OR 0x8000000000000000)"
  unfolding f64_neg_def sign_bit by (simp add: bit_or_iff bit_push_bit_iff)

lemma mag_of_small:
  assumes "0 \<le> m" "m < 2 ^ 63"
  shows "uint (f64_mag (word_of_int m)) = m" and "\<not> f64_neg (word_of_int m)"
proof -
  have t: "take_bit 63 m = m" using assms by (simp add: take_bit_int_eq_self)
  then have t64: "take_bit 64 m = m" using assms by (simp add: take_bit_int_eq_self)
  show "uint (f64_mag (word_of_int m)) = m"
    using assms by (simp add: f64_mag_take_bit unsigned_take_bit_eq unsigned_of_int t t64)
  have "bit (word_of_int m :: u64) 63 \<longleftrightarrow> bit m 63" by (simp add: bit_word_of_int_iff)
  also have "\<dots> \<longleftrightarrow> bit (take_bit 63 m) 63" by (simp only: t)
  finally show "\<not> f64_neg (word_of_int m)" by (simp add: f64_neg_def bit_take_bit_iff)
qed

lemma round_mag_range:
  assumes "0 \<le> n" "0 < d"
  shows "0 \<le> round_mag n d" and "round_mag n d \<le> 0x7FF0000000000000"
  using round_mag_mono [of d d 0 n] round_mag_0 assms by (simp_all add: round_mag_def)

lemma nearest_f64_round_mag:
  "nearest_f64 neg n d = f64_signed neg (word_of_int (round_mag n d))"
  by (simp add: nearest_f64_def round_mag_def f64_signed_def Let_def min_def)

lemma signed_mag: "f64_mag (f64_signed neg w) = f64_mag w"
  by (simp add: f64_signed_def f64_mag_sign)

lemma nearest_key:
  assumes "0 \<le> n" "0 < d"
  shows "f64_key (nearest_f64 neg n d) = (if neg then - round_mag n d else round_mag n d)"
    and "\<not> f64_is_nan (nearest_f64 neg n d)"
proof -
  have r: "0 \<le> round_mag n d" "round_mag n d \<le> 0x7FF0000000000000" by (rule round_mag_range [OF assms])+
  then have m: "uint (f64_mag (word_of_int (round_mag n d))) = round_mag n d" "\<not> f64_neg (word_of_int (round_mag n d))"
    using mag_of_small [of "round_mag n d"] by simp_all
  show "f64_key (nearest_f64 neg n d) = (if neg then - round_mag n d else round_mag n d)"
    using m by (simp add: nearest_f64_round_mag f64_key_def f64_signed_def f64_mag_sign f64_neg_sign)
  have "uint (f64_mag (nearest_f64 neg n d)) \<le> uint (0x7FF0000000000000 :: u64)"
    using m r by (simp add: nearest_f64_round_mag signed_mag)
  then show "\<not> f64_is_nan (nearest_f64 neg n d)" by (simp only: f64_is_nan_def word_less_def not_less)
qed

section \<open>Monotone operations\<close>

definition inf_key :: int where "inf_key = 0x7FF0000000000000"

lemma f64_key_abs: "\<bar>f64_key x\<bar> = uint (f64_mag x)"
  by (simp add: f64_key_def)

lemma f64_is_nan_key: "f64_is_nan x \<longleftrightarrow> inf_key < \<bar>f64_key x\<bar>"
  by (simp only: f64_is_nan_def word_less_def f64_key_abs inf_key_def) simp

lemma f64_is_finite_key: "f64_is_finite x \<longleftrightarrow> \<bar>f64_key x\<bar> < inf_key"
  by (simp only: f64_is_finite_def word_less_def f64_key_abs inf_key_def) simp

lemmas f64_kinds = f64_is_nan_key f64_is_finite_key

lemma f64_zero_key: "f64_mag x = 0 \<longleftrightarrow> f64_key x = 0"
  by (simp add: f64_key_def uint_0_iff)

lemma f64_neg_key: "f64_key x \<noteq> 0 \<Longrightarrow> f64_neg x \<longleftrightarrow> f64_key x < 0"
  using uint_ge_0 [of "f64_mag x"] by (auto simp: f64_key_def order_less_le)

lemma signed_key:
  "f64_key (f64_signed neg 0) = 0" "f64_key (f64_signed neg f64_infinity) = (if neg then - inf_key else inf_key)"
  by (simp_all add: f64_key_def f64_signed_def f64_infinity_def inf_key_def f64_mag_sign f64_neg_sign)
    (simp_all add: f64_mag_def f64_neg_def bit_word_of_int_iff)

text \<open>A rounded operation as a function of the operand's key: saturated at the infinities, odd in between.\<close>

definition lifted :: "(int \<Rightarrow> int) \<Rightarrow> int \<Rightarrow> int" where
  "lifted g k = (if inf_key \<le> k then inf_key else if k \<le> - inf_key then - inf_key else odd_ext g (odd_ext magval k))"

lemma odd_ext_bound:
  assumes "\<And>a. 0 \<le> a \<Longrightarrow> 0 \<le> g a \<and> g a \<le> b"
  shows "odd_ext g k \<le> b \<and> - b \<le> odd_ext g k"
proof (cases "k < 0")
  case True
  then show ?thesis using assms [of "- k"] by (auto simp: odd_ext_def)
next
  case False
  then show ?thesis using assms [of k] by (auto simp: odd_ext_def)
qed

lemma lifted_mono:
  assumes "\<And>a b. 0 \<le> a \<Longrightarrow> a \<le> b \<Longrightarrow> g a \<le> g b" "g 0 = 0" "\<And>a. 0 \<le> a \<Longrightarrow> g a \<le> inf_key" "k \<le> l"
  shows "lifted g k \<le> lifted g l"
proof -
  have "0 \<le> g a \<and> g a \<le> inf_key" if "0 \<le> a" for a using assms(1) [of 0 a] assms(2,3) that by simp
  then have b: "odd_ext g c \<le> inf_key \<and> - inf_key \<le> odd_ext g c" for c by (rule odd_ext_bound)
  have m: "odd_ext magval k \<le> odd_ext magval l"
    by (rule odd_ext_mono [where g = magval]) (simp_all add: magval_mono magval_0 assms(4))
  have "odd_ext g (odd_ext magval k) \<le> odd_ext g (odd_ext magval l)"
    by (rule odd_ext_mono [where g = g]) (fact assms(1) assms(2) m)+
  then show ?thesis using b assms(4) by (auto simp: lifted_def inf_key_def)
qed

lemma lifted_0: "g 0 = 0 \<Longrightarrow> lifted g 0 = 0"
  by (simp add: lifted_def inf_key_def odd_ext_def magval_0)

lemma f64_sig_sign: "f64_sig x = 0 \<longleftrightarrow> f64_key x = 0" "f64_sig x < 0 \<longleftrightarrow> f64_key x < 0"
proof -
  have p: "0 < a \<Longrightarrow> 0 < magval a" for a
  proof -
    assume a: "0 < a"
    then have "a div 2 ^ 52 = 0 \<Longrightarrow> a mod 2 ^ 52 = a" by (metis div_mult_mod_eq mult_zero_left add_0)
    moreover have "0 < a mod 2 ^ 52 + 2 ^ 52" by (rule add_nonneg_pos) simp_all
    ultimately show "0 < magval a" using a by (simp add: magval_def)
  qed
  show "f64_sig x = 0 \<longleftrightarrow> f64_key x = 0" "f64_sig x < 0 \<longleftrightarrow> f64_key x < 0"
    using p [of "f64_key x"] p [of "- f64_key x"] magval_0
    by (cases "f64_key x" "0 :: int" rule: linorder_cases; simp add: f64_sig_key odd_ext_def)+
qed


lemma sig_abs: "f64_sig x = (if f64_key x < 0 then - \<bar>f64_sig x\<bar> else \<bar>f64_sig x\<bar>)"
  using f64_sig_sign [of x] by auto

lemma abs_sig_nonneg: "0 \<le> \<bar>f64_sig x\<bar>" by simp

lemma signed_round_key:
  assumes "0 < d" "neg = (s < 0) \<or> s = 0"
  shows "f64_key (nearest_f64 neg \<bar>s\<bar> d) = odd_ext (\<lambda>t. round_mag t d) s"
  using assms nearest_key(1) [of "\<bar>s\<bar>" d neg] round_mag_0 [of d] by (auto simp: odd_ext_def)

lemma f64_sub_key:
  assumes "f64_is_finite x" "f64_is_finite y"
  shows "f64_key (f64_sub x y) = odd_ext (\<lambda>t. round_mag t (2 ^ 1074)) (f64_sig x - f64_sig y)"
    and "\<not> f64_is_nan (f64_sub x y)"
proof -
  have n: "\<not> f64_is_nan x" "\<not> f64_is_nan y" using assms by (simp_all add: f64_kinds)
  let ?s = "f64_sig x - f64_sig y"
  have z: "f64_key (f64_signed b 0) = 0" "\<not> f64_is_nan (f64_signed b 0)" for b by (simp_all add: f64_kinds signed_key inf_key_def)
  have p: "(0::int) < 2 ^ 1074" by (rule zero_less_power) simp
  note r = signed_round_key [OF p, of "?s < 0" ?s] nearest_key(2) [OF abs_ge_zero p, of "?s < 0" ?s] round_mag_0 [OF p]
  show "f64_key (f64_sub x y) = odd_ext (\<lambda>t. round_mag t (2 ^ 1074)) ?s"
    unfolding f64_sub_def Let_def using assms n z r by (simp only: if_False if_True simp_thms odd_ext_def split: if_splits) simp
  show "\<not> f64_is_nan (f64_sub x y)"
    unfolding f64_sub_def Let_def using assms n z r by (simp only: if_False if_True simp_thms split: if_splits)
qed

lemma f64_sub_mono:
  assumes "f64_is_finite x" "f64_is_finite y" "f64_is_finite e" "f64_key x \<le> f64_key y"
  shows "f64_key (f64_sub x e) \<le> f64_key (f64_sub y e)"
  unfolding f64_sub_key(1) [OF assms(1,3)] f64_sub_key(1) [OF assms(2,3)]
proof (rule odd_ext_mono)
  have p: "(0::int) < 2 ^ 1074" by (rule zero_less_power) simp
  show "round_mag a (2 ^ 1074) \<le> round_mag b (2 ^ 1074)" if "a \<le> b" for a b
    by (rule round_mag_mono [OF p p]) (rule mult_right_mono [OF that], simp)
  show "round_mag 0 (2 ^ 1074) = 0" by (rule round_mag_0 [OF p])
  show "f64_sig x - f64_sig e \<le> f64_sig y - f64_sig e" using f64_sig_mono [OF assms(4)] by linarith
qed


lemma inf_abs_key: "\<not> f64_is_nan x \<Longrightarrow> \<not> f64_is_finite x \<Longrightarrow> f64_key x = (if f64_neg x then - inf_key else inf_key)"
  using f64_key_abs [of x] by (simp add: f64_kinds f64_key_def)

lemma pos_not_neg: "0 < f64_key s \<Longrightarrow> \<not> f64_neg s"
  using f64_neg_key [of s] by simp

text \<open>Quotient by, and product with, a positive finite double.\<close>

lemma f64_div_key:
  assumes "\<not> f64_is_nan x" "f64_is_finite s" "0 < f64_key s"
  shows "f64_key (f64_div x s) = lifted (\<lambda>t. round_mag t (f64_sig s)) (f64_key x)"
    and "\<not> f64_is_nan (f64_div x s)"
proof -
  have s: "\<not> f64_is_nan s" "\<not> f64_neg s" "f64_mag s \<noteq> 0" and p: "0 < f64_sig s"
    using assms f64_sig_sign [of s] pos_not_neg [of s] by (simp_all add: f64_kinds f64_zero_key)
  have sg: "f64_neg x = (f64_sig x < 0) \<or> f64_sig x = 0"
    using f64_neg_key [of x] f64_sig_sign [of x] by auto
  have "f64_key (f64_div x s) = lifted (\<lambda>t. round_mag t (f64_sig s)) (f64_key x) \<and> \<not> f64_is_nan (f64_div x s)"
  proof (cases "f64_is_finite x")
    case True
    then have "f64_div x s = nearest_f64 (f64_neg x) \<bar>f64_sig x\<bar> (f64_sig s)"
      using assms s p by (simp add: f64_div_def)
    moreover have "lifted (\<lambda>t. round_mag t (f64_sig s)) (f64_key x) = odd_ext (\<lambda>t. round_mag t (f64_sig s)) (f64_sig x)"
      using True by (simp add: lifted_def f64_is_finite_key f64_sig_key abs_less_iff)
    ultimately show ?thesis
      using signed_round_key [OF p sg] nearest_key(2) [OF abs_ge_zero p] by simp
  next
    case False
    then show ?thesis using assms s inf_abs_key [OF assms(1) False]
      by (simp add: f64_div_def signed_key lifted_def f64_is_nan_key inf_key_def)
  qed
  then show "f64_key (f64_div x s) = lifted (\<lambda>t. round_mag t (f64_sig s)) (f64_key x)" "\<not> f64_is_nan (f64_div x s)"
    by blast+
qed

lemma f64_mul_key:
  assumes "\<not> f64_is_nan x" "f64_is_finite s" "0 < f64_key s"
  shows "f64_key (f64_mul x s) = lifted (\<lambda>t. round_mag (t * f64_sig s) (2 ^ 1074 * 2 ^ 1074)) (f64_key x)"
    and "\<not> f64_is_nan (f64_mul x s)"
proof -
  have s: "\<not> f64_is_nan s" "\<not> f64_neg s" "f64_mag s \<noteq> 0" and p: "0 < f64_sig s"
    using assms f64_sig_sign [of s] pos_not_neg [of s] by (simp_all add: f64_kinds f64_zero_key)
  define D :: int where "D = 2 ^ 1074 * 2 ^ 1074"
  have D: "0 < D" unfolding D_def by (intro mult_pos_pos zero_less_power) simp_all
  have sg: "f64_neg x = (f64_sig x * f64_sig s < 0) \<or> f64_sig x * f64_sig s = 0"
    using f64_neg_key [of x] f64_sig_sign [of x] p by (auto simp: mult_less_0_iff)
  have "f64_key (f64_mul x s) = lifted (\<lambda>t. round_mag (t * f64_sig s) D) (f64_key x) \<and> \<not> f64_is_nan (f64_mul x s)"
  proof (cases "f64_is_finite x")
    case True
    then have "f64_mul x s = nearest_f64 (f64_neg x) \<bar>f64_sig x * f64_sig s\<bar> D"
      unfolding f64_mul_def D_def [symmetric] using assms s p by (simp add: abs_mult)
    moreover have "lifted (\<lambda>t. round_mag (t * f64_sig s) D) (f64_key x) = odd_ext (\<lambda>t. round_mag t D) (f64_sig x * f64_sig s)"
      using True p by (simp add: lifted_def f64_is_finite_key f64_sig_key abs_less_iff odd_ext_def mult_less_0_iff)
    ultimately show ?thesis
      using signed_round_key [OF D sg] nearest_key(2) [OF abs_ge_zero D] by simp
  next
    case False
    then have "f64_mag x \<noteq> 0" using inf_abs_key [OF assms(1) False] by (simp add: f64_zero_key inf_key_def)
    then have "f64_mul x s = f64_signed (f64_neg x) f64_infinity"
      unfolding f64_mul_def D_def [symmetric] using False assms s by simp
    then show ?thesis using inf_abs_key [OF assms(1) False]
      by (simp add: signed_key lifted_def f64_is_nan_key inf_key_def)
  qed
  then show "f64_key (f64_mul x s) = lifted (\<lambda>t. round_mag (t * f64_sig s) (2 ^ 1074 * 2 ^ 1074)) (f64_key x)"
    "\<not> f64_is_nan (f64_mul x s)"
    unfolding D_def by blast+
qed

lemma round_mag_inf: "0 \<le> n \<Longrightarrow> 0 < d \<Longrightarrow> round_mag n d \<le> inf_key"
  using round_mag_range(2) by (simp add: inf_key_def)

lemma f64_div_mono:
  assumes "\<not> f64_is_nan x" "\<not> f64_is_nan y" "f64_is_finite s" "0 < f64_key s" "f64_key x \<le> f64_key y"
  shows "f64_key (f64_div x s) \<le> f64_key (f64_div y s)"
proof -
  have p: "0 < f64_sig s" using f64_sig_sign [of s] assms(4) by linarith
  show ?thesis unfolding f64_div_key(1) [OF assms(1,3,4)] f64_div_key(1) [OF assms(2,3,4)]
    using p assms(5) by (intro lifted_mono round_mag_mono round_mag_0 round_mag_inf) simp_all
qed

lemma f64_mul_mono:
  assumes "\<not> f64_is_nan x" "\<not> f64_is_nan y" "f64_is_finite s" "0 < f64_key s" "f64_key x \<le> f64_key y"
  shows "f64_key (f64_mul x s) \<le> f64_key (f64_mul y s)"
proof -
  have p: "0 < f64_sig s" using f64_sig_sign [of s] assms(4) by linarith
  define D :: int where "D = 2 ^ 1074 * 2 ^ 1074"
  have D: "0 < D" unfolding D_def by (intro mult_pos_pos zero_less_power) simp_all
  show ?thesis
    unfolding f64_mul_key(1) [OF assms(1,3,4)] f64_mul_key(1) [OF assms(2,3,4)] D_def [symmetric]
    using p D assms(5) round_mag_0 [OF D]
    by (intro lifted_mono round_mag_mono round_mag_inf) simp_all
qed


lemma f64_max_key:
  assumes "\<not> f64_is_nan y"
  shows "\<not> f64_is_nan (f64_max x y)" and "f64_key y \<le> f64_key (f64_max x y)"
  using assms by (simp_all add: f64_max_def f64_lt_def)

lemma f64_clamp_key:
  assumes "\<not> f64_is_nan x" "\<not> f64_is_nan lo" "\<not> f64_is_nan hi" "f64_key lo \<le> f64_key hi"
  shows "f64_key (f64_clamp x lo hi) = min (f64_key hi) (max (f64_key lo) (f64_key x))"
  using assms by (simp add: f64_clamp_def f64_lt_def Let_def)

lemma f64_to_u32_zero: "f64_is_nan x \<or> f64_key x = 0 \<Longrightarrow> f64_to_u32 x = 0"
  using f64_sig_sign [of x] by (auto simp: f64_to_u32_def f64_is_finite_key inf_key_def)

lemma f64_to_u32_mono:
  assumes "f64_is_finite x" "f64_is_finite y" "f64_key x \<le> f64_key y"
  shows "f64_to_u32 x \<le> f64_to_u32 y"
proof -
  have n: "\<not> f64_is_nan y" using assms by (simp add: f64_kinds)
  have sg: "f64_sig x \<le> f64_sig y" using f64_sig_mono [OF assms(3)] .
  have p: "(0::int) < 2 ^ 1074" by (rule zero_less_power) simp
  have d: "f64_sig x div 2 ^ 1074 \<le> f64_sig y div 2 ^ 1074" using sg p by (rule zdiv_mono1)
  consider "f64_neg x" | "\<not> f64_neg x" "f64_key x = 0" | "\<not> f64_neg y" by
    (metis assms(3) f64_neg_key leD less_le_not_le order_le_less_trans linorder_neqE pos_not_neg)
  then show ?thesis
  proof cases
    case 1
    then show ?thesis by (simp add: f64_to_u32_def)
  next
    case 2
    then show ?thesis using f64_to_u32_zero [of x] by simp
  next
    case 3
    have "min (nat (f64_sig x div 2 ^ 1074)) (2 ^ 32 - 1) \<le> min (nat (f64_sig y div 2 ^ 1074)) (2 ^ 32 - 1)"
      using nat_mono [OF d] by (rule min.mono) simp
    then show ?thesis using 3 n assms unfolding f64_to_u32_def by (simp only: if_False simp_thms split: if_split) simp
  qed
qed

lemma f64_to_u32_le: "f64_key x \<le> f64_key 0x406FE00000000000 \<Longrightarrow> f64_is_finite x \<Longrightarrow> f64_to_u32 x \<le> 255"
proof -
  assume a: "f64_key x \<le> f64_key 0x406FE00000000000" "f64_is_finite x"
  have "f64_key 0x406FE00000000000 = 0x406FE00000000000" by code_simp
  then have "f64_sig 0x406FE00000000000 div 2 ^ 1074 = 255" by (simp add: f64_sig_key odd_ext_def magval_def)
  moreover have "\<not> f64_is_nan 0x406FE00000000000" "\<not> f64_neg 0x406FE00000000000" "f64_is_finite 0x406FE00000000000"
    by code_simp+
  ultimately have "f64_to_u32 0x406FE00000000000 = 255" unfolding f64_to_u32_def by (simp only: if_False simp_thms) simp
  moreover have "f64_is_finite 0x406FE00000000000" by code_simp
  ultimately show ?thesis using f64_to_u32_mono [OF a(2) _ a(1)] by simp
qed

end
