(* ===== verification/Canonical_Proofs.thy ===== *)
theory Canonical_Proofs
  imports Ieee
begin

text \<open>
  What the canonical writer guarantees: its text is one line, its objects have no two members of one
  name, the decimal it writes for a double reads back as that double, and two values with the same
  text are the same value. The last rests on a prefix lemma: a value's text followed by a delimiter
  determines the value and what follows.
\<close>

unbundle bit_operations_syntax

section \<open>Decimals\<close>

definition num_char :: "char \<Rightarrow> bool" where
  "num_char c \<longleftrightarrow> is_digit c \<or> c = CHR ''-'' \<or> c = CHR ''.''"

text \<open>A fixed-point text: an optional sign, an integer part, a point, at least one digit.\<close>

definition fixed_text :: "string \<Rightarrow> bool" where
  "fixed_text s \<longleftrightarrow> (\<exists>sg i f. s = sg @ i @ CHR ''.'' # f \<and> (sg = [] \<or> sg = ''-'') \<and> i \<noteq> [] \<and> f \<noteq> [] \<and>
     list_all is_digit i \<and> list_all is_digit f)"

lemma digit_not [simp]: "\<not> is_digit (CHR ''.'')" "\<not> is_digit (CHR ''-'')" "is_digit (CHR ''0'')"
  "\<not> is_digit (CHR '','')" "\<not> is_digit (CHR '']'')" "\<not> is_digit (CHR ''}'')"
  by (simp_all add: is_digit_def)

lemma list_all_replicate_zero [simp]: "list_all is_digit (replicate n (CHR ''0''))"
  by (induction n) auto

lemma pad0_digits: "list_all is_digit (pad0 w (show_nat n))"
  by (simp add: pad0_def show_nat_digits)

lemma format_fixed_text: "fixed_text (format_fixed d p)"
  unfolding fixed_text_def format_fixed_def Let_def pad_frac_def
  by (intro exI [of _ "if f64_neg d then ''-'' else []"] exI conjI)
     (auto simp: show_nat_digits pad0_digits, auto simp: pad0_def)

lemma split_on_digits:
  "list_all is_digit i \<Longrightarrow> list_all is_digit f \<Longrightarrow> split_on (CHR ''.'') (i @ CHR ''.'' # f) = [i, f]"
proof (induction i)
  case Nil
  have "list_all is_digit f \<Longrightarrow> split_on (CHR ''.'') f = [f]"
    by (induction f) auto
  with Nil show ?case by simp
next
  case (Cons c i)
  then show ?case by auto
qed

lemma digits_not_minus: "i \<noteq> [] \<Longrightarrow> list_all is_digit i \<Longrightarrow> starts_with (i @ s) ''-'' = False"
  by (cases i) (auto simp: starts_with_def)

lemma parse_fixed_eq:
  assumes "i \<noteq> []" "list_all is_digit i" "list_all is_digit f" "sg = [] \<or> sg = ''-''"
  shows "parse_fixed (sg @ i @ CHR ''.'' # f) =
    Some (nearest_f64 (sg = ''-'') (int (read_nat (i @ f))) (10 ^ length f))"
  using assms digits_not_minus [of i "CHR ''.'' # f"]
  by (auto simp: parse_fixed_def Let_def split_on_digits starts_with_def)

lemma nearest_k_scale: "0 < c \<Longrightarrow> nearest_k (c * n) (c * d) k = nearest_k n d k"
proof (induction n d k rule: nearest_k.induct)
  case (1 n d k)
  have "c * n * 2 ^ 1021 < c * d * 2 ^ k \<longleftrightarrow> n * 2 ^ 1021 < d * 2 ^ k"
    using 1(2) by (simp only: mult.assoc mult_less_cancel_left_pos)
  with 1 show ?case
    by (subst (1 2) nearest_k.simps) (simp only: if_cancel split: if_split, blast)
qed

lemma nearest_f64_scale: "0 < c \<Longrightarrow> nearest_f64 neg (c * n) (c * d) = nearest_f64 neg n d"
  by (simp add: nearest_f64_def nearest_k_scale half_even_scale mult.assoc)

lemma fixed_text_snoc_zero:
  assumes s: "fixed_text s" and z: "ends_with s ''0''" "\<not> ends_with s ''.0''"
  shows "fixed_text (butlast s) \<and> parse_fixed (butlast s) = parse_fixed s"
proof -
  obtain sg i f where p: "s = sg @ i @ CHR ''.'' # f" "sg = [] \<or> sg = ''-''" "i \<noteq> []" "f \<noteq> []"
    "list_all is_digit i" "list_all is_digit f"
    using s by (auto simp: fixed_text_def)
  obtain g c where g: "f = g @ [c]" using p(4) by (metis rev_exhaust)
  have c: "c = CHR ''0''" using z(1) p(1) g by (simp add: ends_with_def starts_with_def)
  have ne: "g \<noteq> []" using z(2) p(1) g c by (auto simp: ends_with_def starts_with_def)
  have bl: "butlast s = sg @ i @ CHR ''.'' # g" using p(1) g by (simp add: butlast_append)
  have gd: "list_all is_digit g" using p(6) g by simp
  have "read_nat (i @ f) = 10 * read_nat (i @ g)"
    using g c by (simp add: read_nat_snoc [of "i @ g", simplified] digit_val_def)
  then have "nearest_f64 (sg = ''-'') (int (read_nat (i @ f))) (10 ^ length f) =
      nearest_f64 (sg = ''-'') (int (read_nat (i @ g))) (10 ^ length g)"
    using g nearest_f64_scale [of 10 "sg = ''-''" "int (read_nat (i @ g))" "10 ^ length g"] by simp
  moreover have "parse_fixed (butlast s) = Some (nearest_f64 (sg = ''-'') (int (read_nat (i @ g))) (10 ^ length g))"
    unfolding bl by (rule parse_fixed_eq) (use p gd in auto)
  moreover have "parse_fixed s = Some (nearest_f64 (sg = ''-'') (int (read_nat (i @ f))) (10 ^ length f))"
    unfolding p(1) by (rule parse_fixed_eq) (use p in auto)
  ultimately have "parse_fixed (butlast s) = parse_fixed s" by simp
  then show ?thesis using bl p ne gd unfolding fixed_text_def by blast
qed

lemma trim_zeros_parse: "fixed_text s \<Longrightarrow> fixed_text (trim_zeros s) \<and> parse_fixed (trim_zeros s) = parse_fixed s"
proof (induction s rule: trim_zeros.induct)
  case (1 s)
  then show ?case using fixed_text_snoc_zero [of s] by (subst (1 2) trim_zeros.simps) auto
qed

lemma trim_fraction_parse:
  "fixed_text s \<Longrightarrow> fixed_text (trim_fraction s) \<and> parse_fixed (trim_fraction s) = parse_fixed s"
  using trim_zeros_parse [of s] by (auto simp: trim_fraction_def fixed_text_def)

lemma try_precisions_sound:
  "try_precisions d p n = Some s \<Longrightarrow> fixed_text s \<and> (\<exists>v. parse_fixed s = Some v \<and> f64_eq v d)"
  by (induction n arbitrary: p)
     (auto simp: Let_def trim_fraction_parse format_fixed_text split: option.splits if_splits)

definition f64_pos_zero :: "f64 \<Rightarrow> f64" where
  "f64_pos_zero d = (if f64_mag d = 0 then 0 else d)"

lemma write_double_sound:
  "write_double d at = Inr s \<Longrightarrow> fixed_text s \<and> (\<exists>v. parse_fixed s = Some v \<and> f64_eq v (f64_pos_zero d))"
  by (auto simp: write_double_def Let_def f64_pos_zero_def split: if_splits option.splits dest!: try_precisions_sound)

section \<open>Strings\<close>

definition line_safe :: "string \<Rightarrow> bool" where
  "line_safe s \<longleftrightarrow> list_all (\<lambda>c. 0x20 \<le> (of_char c :: nat)) s"

lemma line_safe_simps [simp]:
  "line_safe []" "line_safe (c # s) \<longleftrightarrow> 0x20 \<le> (of_char c :: nat) \<and> line_safe s"
  "line_safe (s @ t) \<longleftrightarrow> line_safe s \<and> line_safe t"
  by (simp_all add: line_safe_def)

lemma line_safe_digits: "list_all is_digit s \<Longrightarrow> line_safe s"
  by (induction s) (auto simp: is_digit_def)

lemma line_safe_fixed: "fixed_text s \<Longrightarrow> line_safe s"
  by (auto simp: fixed_text_def line_safe_digits)

lemma hex_char_safe: "d < 16 \<Longrightarrow> 0x20 \<le> (of_char (hex_char d) :: nat)"
  by (simp add: hex_char_def)

lemma line_safe_esc: "line_safe (esc c)"
  by (simp add: esc_def hex_byte_def hex_char_safe)

lemma line_safe_write_string: "line_safe (write_string s)"
proof -
  have "line_safe (concat (map esc s))" by (induction s) (auto simp: line_safe_esc)
  then show ?thesis by (simp add: write_string_def)
qed

lemma line_safe_show: "line_safe (show_nat n)" "line_safe (show_int i)"
  by (simp_all add: line_safe_digits show_nat_digits show_int_def)

lemma line_safe_write:
  "write_value v at = Inr s \<Longrightarrow> line_safe s"
  "write_items vs i at = Inr s \<Longrightarrow> line_safe s"
  "write_members ms seen at = Inr s \<Longrightarrow> line_safe s"
proof (induction v at and vs i at and ms seen at arbitrary: s and s and s
    rule: write_value_write_items_write_members.induct)
  case (5 d at)
  then show ?case using write_double_sound [of d at s] by (auto intro: line_safe_fixed)
qed (auto simp: line_safe_show line_safe_write_string split: sum.splits if_splits)

section \<open>Distinct member names\<close>

fun keys_distinct :: "json \<Rightarrow> bool" where
  "keys_distinct (JArr vs) = list_all keys_distinct vs"
| "keys_distinct (JObj ms) = (distinct (map fst ms) \<and> list_all (\<lambda>m. keys_distinct (snd m)) ms)"
| "keys_distinct _ = True"

lemma write_distinct:
  "write_value v at = Inr s \<Longrightarrow> keys_distinct v"
  "write_items vs i at = Inr s \<Longrightarrow> list_all keys_distinct vs"
  "write_members ms seen at = Inr s \<Longrightarrow> distinct (map fst ms) \<and> set (map fst ms) \<inter> set seen = {} \<and>
     list_all (\<lambda>m. keys_distinct (snd m)) ms"
proof (induction v at and vs i at and ms seen at arbitrary: s and s and s
    rule: write_value_write_items_write_members.induct)
  case (12 k v ms seen at)
  then show ?case by (fastforce split: sum.splits if_splits)
qed (auto split: sum.splits)

section \<open>The text determines the value\<close>

definition hexval :: "char \<Rightarrow> nat" where
  "hexval c = (if (of_char c :: nat) < 58 then of_char c - 48 else of_char c - 87)"

lemma hexval_hex_char [simp]: "d < 16 \<Longrightarrow> hexval (hex_char d) = d"
  by (simp add: hexval_def hex_char_def)

text \<open>The reader of one escaped character.\<close>

definition unesc :: "string \<Rightarrow> char \<times> string" where
  "unesc s =
     (if hd s \<noteq> CHR 0x5C then (hd s, tl s)
      else let c = s ! 1; r = drop 2 s
           in if c = CHR ''b'' then (CHR 0x08, r) else if c = CHR ''t'' then (CHR 0x09, r)
              else if c = CHR ''n'' then (CHR 0x0A, r) else if c = CHR ''f'' then (CHR 0x0C, r)
              else if c = CHR ''r'' then (CHR 0x0D, r)
              else if c = CHR ''u'' then (char_of (16 * hexval (s ! 4) + hexval (s ! 5)), drop 6 s)
              else (c, r))"

lemma unesc_esc: "unesc (esc c @ r) = (c, r)"
proof (cases "c \<in> {CHR 0x22, CHR 0x5C, CHR 0x08, CHR 0x09, CHR 0x0A, CHR 0x0C, CHR 0x0D}")
  case True
  then show ?thesis by (auto simp: esc_def unesc_def)
next
  case False
  show ?thesis
  proof (cases "(of_char c :: nat) < 0x20")
    case True
    define n where "n = (of_char c :: nat)"
    have n: "n div 16 mod 16 < 16" "n mod 16 < 16" "16 * (n div 16 mod 16) + n mod 16 = n"
      using True by (auto simp: n_def)
    have e: "esc c = CHR 0x5C # CHR ''u'' # CHR ''0'' # CHR ''0'' # hex_char (n div 16 mod 16) # [hex_char (n mod 16)]"
      using False True by (simp add: esc_def hex_byte_def n_def)
    have "unesc (esc c @ r) = (char_of (16 * (n div 16 mod 16) + n mod 16), r)"
      unfolding e unesc_def using n(1,2) by simp
    then show ?thesis using n(3) by (simp add: n_def)
  next
    case notctl: False
    with False show ?thesis by (simp add: esc_def unesc_def)
  qed
qed

lemma esc_inject: "esc a @ x = esc b @ y \<Longrightarrow> a = b \<and> x = y"
  by (metis prod.inject unesc_esc)

lemma esc_not_quote: "esc c @ x = CHR 0x22 # y \<Longrightarrow> False"
  by (auto simp: esc_def split: if_splits)

lemma esc_concat_inject:
  "concat (map esc s) @ CHR 0x22 # x = concat (map esc t) @ CHR 0x22 # y \<Longrightarrow> s = t \<and> x = y"
proof (induction s arbitrary: t)
  case Nil
  then show ?case by (cases t) (auto dest: esc_not_quote sym)
next
  case (Cons a s)
  show ?case
  proof (cases t)
    case Nil
    with Cons.prems show ?thesis by (auto dest: esc_not_quote)
  next
    case (Cons b t')
    with Cons.prems have "a = b \<and> concat (map esc s) @ CHR 0x22 # x = concat (map esc t') @ CHR 0x22 # y"
      using esc_inject by simp
    with Cons.IH Cons show ?thesis by simp
  qed
qed

lemma write_string_inject: "write_string s @ x = write_string t @ y \<Longrightarrow> s = t \<and> x = y"
  using esc_concat_inject [of s x t y] by (simp add: write_string_def)

text \<open>
  Equal values: the two integer constructors denote the same number, and the two zeros are one.
\<close>

fun canon :: "json \<Rightarrow> json" where
  "canon (JUInt n) = JInt (int n)"
| "canon (JDouble d) = JDouble (f64_pos_zero d)"
| "canon (JArr vs) = JArr (map canon vs)"
| "canon (JObj ms) = JObj (map (\<lambda>m. (fst m, canon (snd m))) ms)"
| "canon v = v"

fun is_num :: "json \<Rightarrow> bool" where
  "is_num (JInt _) = True"
| "is_num (JUInt _) = True"
| "is_num (JDouble _) = True"
| "is_num _ = False"

definition delim :: "string \<Rightarrow> bool" where
  "delim r \<longleftrightarrow> (case r of [] \<Rightarrow> True | c # _ \<Rightarrow> c \<in> {CHR '','', CHR '']'', CHR ''}''})"

lemma num_char_digits: "list_all is_digit s \<Longrightarrow> list_all num_char s"
  by (auto simp: list_all_iff num_char_def)

lemma fixed_text_num: "fixed_text s \<Longrightarrow> s \<noteq> [] \<and> list_all num_char s \<and> CHR ''.'' \<in> set s"
  by (auto simp: fixed_text_def num_char_digits, simp_all add: num_char_def)

lemma show_int_num: "show_int i \<noteq> [] \<and> list_all num_char (show_int i) \<and> CHR ''.'' \<notin> set (show_int i)"
proof -
  have "CHR ''.'' \<notin> set (show_nat n)" for n
    using show_nat_digits [of n] by (auto simp: list_all_iff)
  then show ?thesis by (simp add: show_int_def num_char_digits show_nat_digits) (simp add: num_char_def)
qed

lemma show_nat_int: "show_nat n = show_int (int n)"
  by (simp add: show_int_def)

lemma show_int_inject: "show_int i = show_int j \<longleftrightarrow> i = j"
proof -
  have "show_nat n \<noteq> CHR ''-'' # s" for n s
    using show_nat_digits [of n] by auto
  then show ?thesis by (auto simp: show_int_def show_nat_inject split: if_splits dest: sym)
qed

lemma num_text: "is_num v \<Longrightarrow> write_value v at = Inr s \<Longrightarrow> s \<noteq> [] \<and> list_all num_char s"
  by (cases v) (auto simp: show_nat_int show_int_num dest!: write_double_sound dest: fixed_text_num)

lemma f64_eq_pos_zero: "f64_eq v (f64_pos_zero a) \<Longrightarrow> f64_eq v (f64_pos_zero b) \<Longrightarrow> f64_pos_zero a = f64_pos_zero b"
  by (auto simp: f64_eq_def f64_pos_zero_def f64_mag_def split: if_splits)

lemma num_canon:
  "is_num v \<Longrightarrow> is_num w \<Longrightarrow> write_value v at = Inr s \<Longrightarrow> write_value w at' = Inr s \<Longrightarrow> canon v = canon w"
  by (cases v; cases w)
     (auto simp: show_nat_int show_int_inject show_int_num dest!: write_double_sound
       dest: fixed_text_num f64_eq_pos_zero)

lemma delim_num: "delim (c # r) \<Longrightarrow> \<not> num_char c"
  by (auto simp: delim_def num_char_def)

lemma num_token:
  assumes "list_all num_char s" "list_all num_char t" "delim r" "delim r'" "s @ r = t @ r'"
  shows "s = t \<and> r = r'"
proof -
  have "takeWhile num_char (x @ y) = x" if "list_all num_char x" "delim y" for x y
    using that by (induction x) (auto simp: takeWhile_eq_Nil_iff dest: delim_num, (cases y; auto dest: delim_num))
  then have "s = t" using assms by metis
  with assms(5) show ?thesis by simp
qed

text \<open>The first character of a value that is not a number.\<close>

fun value_hd :: "json \<Rightarrow> char" where
  "value_hd JNull = CHR ''n''"
| "value_hd (JBool b) = (if b then CHR ''t'' else CHR ''f'')"
| "value_hd (JStr _) = CHR 0x22"
| "value_hd (JArr _) = CHR ''[''"
| "value_hd (JObj _) = CHR ''{''"
| "value_hd _ = CHR ''0''"

lemma value_hd_text: "\<not> is_num v \<Longrightarrow> write_value v at = Inr s \<Longrightarrow> s = value_hd v # tl s"
  by (cases v) (auto simp: write_string_def split: sum.splits)

lemma value_hd_not_num: "\<not> is_num v \<Longrightarrow> \<not> num_char (value_hd v)"
  by (cases v) (simp_all add: num_char_def is_digit_def)

lemma value_hd_not_delim: "\<not> delim (value_hd v # x)"
  by (cases v) (simp_all add: delim_def)

lemma num_head_not_delim: "s \<noteq> [] \<Longrightarrow> list_all num_char s \<Longrightarrow> \<not> delim (s @ x)"
  by (cases s) (auto dest: delim_num)

lemma value_not_delim: "write_value v at = Inr s \<Longrightarrow> \<not> delim (s @ x)"
  using num_text [of v at s] num_head_not_delim [of s x] value_hd_text [of v at s]
    value_hd_not_delim [of v "tl s @ x"]
  by (cases "is_num v") (simp_all, metis append_Cons)

lemma write_value_num_iff:
  assumes "write_value v at = Inr s" "write_value w at' = Inr t" "s @ r = t @ r'"
  shows "is_num v \<longleftrightarrow> is_num w"
proof -
  have no: False if "is_num a" "\<not> is_num b" "write_value a p = Inr x" "write_value b q = Inr y" "x @ u = y @ z"
    for a b p q x y u z
  proof -
    have x: "x \<noteq> []" "list_all num_char x" using num_text that by auto
    have "y = value_hd b # tl y" using value_hd_text that by auto
    then have "hd x = value_hd b" using that(5) x(1) by (metis append_Cons hd_append2 list.sel(1))
    then show False using value_hd_not_num [OF that(2)] x by (cases x) auto
  qed
  show ?thesis using no [of v w] no [of w v] assms by metis
qed

lemma value_hd_eq:
  assumes "\<not> is_num v" "write_value v at = Inr s" "write_value w at' = Inr t" "s @ r = t @ r'"
  shows "\<not> is_num w \<and> value_hd v = value_hd w"
proof -
  have w: "\<not> is_num w" using write_value_num_iff [OF assms(2-4)] assms(1) by simp
  show ?thesis using w value_hd_text [OF assms(1,2)] value_hd_text [OF w assms(3)] assms(4)
    by (metis append_Cons list.inject)
qed

lemma value_hd_cases:
  "\<not> is_num w \<Longrightarrow> value_hd w = CHR ''['' \<Longrightarrow> \<exists>vs. w = JArr vs"
  "\<not> is_num w \<Longrightarrow> value_hd w = CHR ''{'' \<Longrightarrow> \<exists>ms. w = JObj ms"
  "\<not> is_num w \<Longrightarrow> value_hd w = CHR 0x22 \<Longrightarrow> \<exists>x. w = JStr x"
  by (cases w; simp split: if_splits)+

lemma num_prefix:
  assumes "is_num v" "write_value v at = Inr s" "write_value w at' = Inr t" "delim r" "delim r'" "s @ r = t @ r'"
  shows "canon v = canon w \<and> r = r'"
proof -
  have w: "is_num w" using write_value_num_iff [OF assms(2,3,6)] assms(1) by simp
  have "s = t \<and> r = r'"
    by (rule num_token) (use num_text [OF assms(1,2)] num_text [OF w assms(3)] assms in auto)
  then show ?thesis using num_canon [OF assms(1) w assms(2)] assms(3) by metis
qed

lemma delim_items: "write_items vs (Suc i) at = Inr s \<Longrightarrow> delim (s @ CHR '']'' # r)"
  by (cases vs) (auto simp: delim_def split: sum.splits)

lemma delim_members: "seen \<noteq> [] \<Longrightarrow> write_members ms seen at = Inr s \<Longrightarrow> delim (s @ CHR ''}'' # r)"
  by (cases ms) (auto simp: delim_def split: sum.splits if_splits)

lemma write_prefix:
  "write_value v at = Inr s \<Longrightarrow> write_value w at' = Inr t \<Longrightarrow> delim r \<Longrightarrow> delim r' \<Longrightarrow> s @ r = t @ r' \<Longrightarrow>
     canon v = canon w \<and> r = r'"
  "write_items vs i at = Inr s \<Longrightarrow> write_items ws i at' = Inr t \<Longrightarrow> s @ CHR '']'' # r = t @ CHR '']'' # r' \<Longrightarrow>
     map canon vs = map canon ws \<and> r = r'"
  "write_members ms seen at = Inr s \<Longrightarrow> write_members ns seen at' = Inr t \<Longrightarrow>
     s @ CHR ''}'' # r = t @ CHR ''}'' # r' \<Longrightarrow>
     map (\<lambda>m. (fst m, canon (snd m))) ms = map (\<lambda>m. (fst m, canon (snd m))) ns \<and> r = r'"
proof (induction v at and vs i at and ms seen at arbitrary: w at' s t r r' and ws at' s t r r' and ns at' s t r r'
    rule: write_value_write_items_write_members.induct)
  case (1 at)
  then show ?case using write_value_num_iff [OF 1(1,2,5)] by (cases w) (auto simp: write_string_def split: sum.splits if_splits)
next
  case (2 b at)
  then show ?case using write_value_num_iff [OF 2(1,2,5)] by (cases w) (auto simp: write_string_def split: sum.splits if_splits)
next
  case (3 i at)
  show ?case by (rule num_prefix [OF _ 3]) simp
next
  case (4 n at)
  show ?case by (rule num_prefix [OF _ 4]) simp
next
  case (5 d at)
  show ?case by (rule num_prefix [OF _ 5]) simp
next
  case (6 x at)
  obtain y where w: "w = JStr y" using value_hd_eq [OF _ 6(1,2,5)] value_hd_cases(3) [of w] by auto
  show ?case using 6 w write_string_inject [of x r y r'] by simp
next
  case (7 items at)
  obtain a where a: "write_items items 0 at = Inr a" "s = ''['' @ a @ '']''"
    using 7(2) by (auto split: sum.splits)
  obtain ws where w: "w = JArr ws" using value_hd_eq [OF _ 7(2,3,6)] value_hd_cases(1) [of w] by auto
  obtain b where b: "write_items ws 0 at' = Inr b" "t = ''['' @ b @ '']''"
    using 7(3) w by (auto split: sum.splits)
  have "a @ CHR '']'' # r = b @ CHR '']'' # r'" using 7(6) a(2) b(2) by simp
  from 7(1) [OF a(1) b(1) this] w show ?case by simp
next
  case (8 members at)
  obtain a where a: "write_members members [] at = Inr a" "s = ''{'' @ a @ ''}''"
    using 8(2) by (auto split: sum.splits)
  obtain ns where w: "w = JObj ns" using value_hd_eq [OF _ 8(2,3,6)] value_hd_cases(2) [of w] by auto
  obtain b where b: "write_members ns [] at' = Inr b" "t = ''{'' @ b @ ''}''"
    using 8(3) w by (auto split: sum.splits)
  have "a @ CHR ''}'' # r = b @ CHR ''}'' # r'" using 8(6) a(2) b(2) by simp
  from 8(1) [OF a(1) b(1) this] w show ?case by simp
next
  case (9 i at)
  show ?case
  proof (cases ws)
    case Nil
    with 9 show ?thesis by simp
  next
    case (Cons w ws')
    with 9 obtain x y where "write_value w (at' @ ''['' @ show_nat i @ '']'') = Inr x"
      "t = (if 0 < i then '','' else []) @ x @ y"
      by (auto split: sum.splits)
    moreover from this(1) have "\<not> delim (x @ y @ CHR '']'' # r')" by (rule value_not_delim)
    moreover have "delim (CHR '']'' # r)" by (simp add: delim_def)
    ultimately show ?thesis using 9 by (cases "0 < i") auto
  qed
next
  case (10 v vs i at)
  from 10(3) obtain a b where v: "write_value v (at @ ''['' @ show_nat i @ '']'') = Inr a"
    "write_items vs (Suc i) at = Inr b" "s = (if 0 < i then '','' else []) @ a @ b"
    by (auto split: sum.splits)
  show ?case
  proof (cases ws)
    case Nil
    moreover have "delim (CHR '']'' # r')" by (simp add: delim_def)
    ultimately show ?thesis using 10(4,5) v value_not_delim [OF v(1), of "b @ CHR '']'' # r"]
      by (cases "0 < i") auto
  next
    case (Cons w ws')
    with 10(4) obtain x y where w: "write_value w (at' @ ''['' @ show_nat i @ '']'') = Inr x"
      "write_items ws' (Suc i) at' = Inr y" "t = (if 0 < i then '','' else []) @ x @ y"
      by (auto split: sum.splits)
    have eq: "a @ b @ CHR '']'' # r = x @ y @ CHR '']'' # r'"
      using 10(5) v(3) w(3) by (simp split: if_splits)
    from 10(1) [OF v(1) w(1) delim_items [OF v(2)] delim_items [OF w(2)] eq]
    have hd: "canon v = canon w" and rest: "b @ CHR '']'' # r = y @ CHR '']'' # r'" by auto
    from 10(2) [OF v(1) v(2) w(2) rest] hd Cons show ?thesis by simp
  qed
next
  case (11 seen at)
  show ?case
  proof (cases ns)
    case Nil
    with 11 show ?thesis by simp
  next
    case (Cons n ns')
    with 11 show ?thesis
      by (cases n) (auto simp: write_string_def split: sum.splits if_splits)
  qed
next
  case (12 k v ms seen at)
  from 12(3) obtain a b where v: "k \<notin> set seen" "write_value v (at @ ''.'' @ k) = Inr a"
    "write_members ms (seen @ [k]) at = Inr b"
    "s = (if seen \<noteq> [] then '','' else []) @ write_string k @ '':'' @ a @ b"
    by (auto split: sum.splits if_splits)
  show ?case
  proof (cases ns)
    case Nil
    with 12(4,5) v show ?thesis by (auto simp: write_string_def split: if_splits)
  next
    case (Cons n ns')
    obtain k' w where n: "n = (k', w)" by (cases n)
    with Cons 12(4) obtain x y where w: "write_value w (at' @ ''.'' @ k') = Inr x"
      "write_members ns' (seen @ [k']) at' = Inr y"
      "t = (if seen \<noteq> [] then '','' else []) @ write_string k' @ '':'' @ x @ y"
      by (auto split: sum.splits if_splits)
    have "write_string k @ ('':'' @ a @ b @ CHR ''}'' # r) = write_string k' @ ('':'' @ x @ y @ CHR ''}'' # r')"
      using 12(5) v(4) w(3) by (simp split: if_splits)
    from write_string_inject [OF this]
    have k: "k = k'" and eq: "a @ b @ CHR ''}'' # r = x @ y @ CHR ''}'' # r'" by auto
    from 12(1) [OF v(1) v(2) w(1) delim_members [OF _ v(3)] delim_members [OF _ w(2)] eq]
    have hd: "canon v = canon w" and rest: "b @ CHR ''}'' # r = y @ CHR ''}'' # r'" by auto
    from 12(2) [OF v(1) v(2) v(3) w(2) [folded k] rest] hd Cons k n show ?thesis by simp
  qed
qed

section \<open>Properties\<close>

text \<open>
  C33: Two values with the same canonical text are the same value, up to the two spellings of one
  integer (\<open>Int\<close> and \<open>UInt\<close>) and of zero: member order, names, strings, numbers and nesting are all
  determined by the bytes, so equal hashes of canonical text speak of equal documents.
\<close>
theorem canonical_text_determines_the_value:
  assumes "to_canonical_string v = Inr s" "to_canonical_string w = Inr s"
  shows "canon v = canon w"
  using write_prefix(1) [of v "''$''" s w "''$''" s "[]" "[]"] assms
  by (simp add: to_canonical_string_def delim_def)

theorem canonical_text_determines_the_value_witness:
  "canon (JObj [(''a'', JArr [JUInt 1, JNull])]) = canon (JObj [(''a'', JArr [JInt 1, JNull])])"
proof (rule canonical_text_determines_the_value)
  let ?s = "CHR ''{'' # CHR 0x22 # CHR ''a'' # CHR 0x22 # '':[1,null]}''"
  show "to_canonical_string (JObj [(''a'', JArr [JUInt 1, JNull])]) = Inr ?s"
    by code_simp
  show "to_canonical_string (JObj [(''a'', JArr [JInt 1, JNull])]) = Inr ?s"
    by code_simp
qed

text \<open>
  Canonical text is a single line with no control byte in it, and the value it was written from has
  no object with two members of the same name.
\<close>
theorem canonical_text_is_one_line:
  assumes "to_canonical_string v = Inr s"
  shows "line_safe s \<and> keys_distinct v"
  using assms line_safe_write(1) write_distinct(1) by (auto simp: to_canonical_string_def)

theorem canonical_text_is_one_line_witness:
  "line_safe (CHR 0x22 # CHR 0x5C # CHR ''n'' # [CHR 0x22]) \<and> keys_distinct (JStr [CHR 0x0A])"
  by (rule canonical_text_is_one_line) (simp add: to_canonical_string_def write_string_def esc_def)

lemma write_double_zero: "f64_mag d = 0 \<Longrightarrow> write_double d at = Inr ''0.0''"
proof -
  have z: "show_nat 0 = ''0''" by code_simp
  have h: "0 < d \<Longrightarrow> half_even 0 d = 0" for d by (simp add: half_even_def)
  have m: "f64_mant 0 = 0" by (simp add: f64_mant_def f64_mag_def)
  have s: "format_fixed 0 1 = ''0.0''"
    by (simp add: format_fixed_def m h z f64_neg_def pad_frac_def pad0_def)
  have k: "nearest_k 0 10 0 = 0" by (subst nearest_k.simps) simp
  have "read_nat ''00'' = 0" by code_simp
  then have p: "parse_fixed ''0.0'' = Some 0"
    using parse_fixed_eq [of "''0''" "''0''" "[]"] k
    by (simp add: is_digit_def nearest_f64_def h)
  have "f64_eq 0 0" by (simp add: f64_eq_def f64_is_nan_def f64_mag_def)
  moreover have "trim_fraction ''0.0'' = ''0.0''" by code_simp
  ultimately have "try_precisions 0 1 (Suc 29) = Some ''0.0''"
    using s p by (simp only: try_precisions.simps Let_def option.case if_True)
  then have "try_precisions 0 1 30 = Some ''0.0''" by simp
  moreover assume "f64_mag d = 0"
  ultimately show ?thesis by (simp add: write_double_def f64_is_finite_def f64_mag_def)
qed

text \<open>
  C34: The decimal written for a double reads back as that double (\<open>-0.0\<close> as \<open>0.0\<close>), trailing zeros
  trimmed or not.
\<close>
theorem write_double_roundtrip:
  assumes "write_double d at = Inr s"
  shows "\<exists>v. parse_fixed s = Some v \<and> f64_eq v (f64_pos_zero d)"
  using write_double_sound [OF assms] by blast

theorem write_double_roundtrip_witness:
  "\<exists>v. parse_fixed ''0.0'' = Some v \<and> f64_eq v (f64_pos_zero 0x8000000000000000)"
proof (rule write_double_roundtrip)
  show "write_double 0x8000000000000000 at = Inr ''0.0''" for at
    by (rule write_double_zero) (simp add: f64_mag_def)
qed

end
