(* ===== verification/Audit_Log.thy ===== *)
theory Audit_Log
  imports Normalize Redaction_Gate Canonical_Proofs
begin

text \<open>
  \<open>kernel/src/permission/audit/record.rs\<close> and \<open>log.rs\<close>: the two records of an audited operation and the
  append-only log they go to. The log file is its bytes; what the operating system answers to an open,
  a write, a rename or a removal is a parameter. The process environment is the record \<open>host\<close>. Paths
  of the log itself have Unix syntax.
\<close>

section \<open>Errors\<close>

datatype audit_error =
    Unwritable string string
  | LogInsideDestination string string
  | RotationFailed string string
  | ControlCharacterInField string
  | CredentialInRecord string nat
  | AuditCanonical canonical_error

record host =
  h_windows :: bool
  h_env :: "string \<Rightarrow> string option"
  h_env_os :: "string \<Rightarrow> string option"
  h_hostname :: "string option"

definition norm_path :: "host \<Rightarrow> path \<Rightarrow> string" where
  "norm_path h p = normalize_destination (h_windows h) (h_env h) (h_hostname h) p"

section \<open>Records\<close>

definition audit_schema :: string where
  "audit_schema = ''spatial-audit/1''"

datatype outcome = Success | Refused | Cancelled | Failed

fun outcome_as_str :: "outcome \<Rightarrow> string" where
  "outcome_as_str Success = ''success''"
| "outcome_as_str Refused = ''refused''"
| "outcome_as_str Cancelled = ''cancelled''"
| "outcome_as_str Failed = ''failed''"

datatype approval_route = Interactive | Flag | ShellDialog

fun approval_route_as_str :: "approval_route \<Rightarrow> string" where
  "approval_route_as_str Interactive = ''interactive''"
| "approval_route_as_str Flag = ''flag''"
| "approval_route_as_str ShellDialog = ''shell-dialog''"

record intent_record =
  in_attempt :: string
  in_at :: string
  in_operation :: string
  in_class :: nat
  in_reversibility :: string
  in_principal_kind :: string
  in_principal_name :: string
  in_source_name :: string
  in_source_content_hash :: string
  in_destination :: string
  in_style_hash :: string

record outcome_record =
  ou_attempt :: string
  ou_at :: string
  ou_outcome :: outcome
  ou_error_kind :: "string option"
  ou_grantor_kind :: "string option"
  ou_grantor_name :: "string option"
  ou_grant_lifetime_s :: "nat option"
  ou_grant_remaining_s :: "nat option"
  ou_approval_route :: "approval_route option"
  ou_operation_digest :: "string option"
  ou_manifest_hash :: "string option"
  ou_rows :: "nat option"
  ou_partitions :: "nat option"

definition no_control :: "string \<Rightarrow> string \<Rightarrow> audit_error + unit" where
  "no_control field s = (if has_control s then Inl (ControlCharacterInField field) else Inr ())"

text \<open>A sequence of \<open>no_control(..)?\<close> calls: the first that fails.\<close>

fun no_controls :: "(string \<times> string) list \<Rightarrow> audit_error + unit" where
  "no_controls [] = Inr ()"
| "no_controls ((field, s) # fs) =
     (case no_control field s of Inl e \<Rightarrow> Inl e | Inr _ \<Rightarrow> no_controls fs)"

definition opt_str :: "string option \<Rightarrow> json" where
  "opt_str v = (case v of Some s \<Rightarrow> JStr s | None \<Rightarrow> JNull)"

definition opt_uint :: "nat option \<Rightarrow> json" where
  "opt_uint v = (case v of Some n \<Rightarrow> JUInt n | None \<Rightarrow> JNull)"

definition intent_to_json :: "intent_record \<Rightarrow> string list \<Rightarrow> audit_error + json" where
  "intent_to_json r residual_classes =
     (case no_controls
             [(''principal_name'', in_principal_name r), (''source_name'', in_source_name r),
              (''source_content_hash'', in_source_content_hash r), (''destination'', in_destination r),
              (''style_hash'', in_style_hash r), (''at'', in_at r)] of
        Inl e \<Rightarrow> Inl e
      | Inr _ \<Rightarrow> Inr (JObj
          [(''schema'', JStr audit_schema),
           (''attempt'', JStr (in_attempt r)),
           (''phase'', JStr ''intent''),
           (''at'', JStr (in_at r)),
           (''operation'', JStr (in_operation r)),
           (''class'', JUInt (in_class r)),
           (''reversibility'', JStr (in_reversibility r)),
           (''principal_kind'', JStr (in_principal_kind r)),
           (''principal_name'', JStr (in_principal_name r)),
           (''source_name'', JStr (in_source_name r)),
           (''source_content_hash'', JStr (in_source_content_hash r)),
           (''destination'', JStr (in_destination r)),
           (''style_hash'', JStr (in_style_hash r)),
           (''residual_classes'', JArr (map JStr residual_classes))]))"

definition opt_check :: "string \<Rightarrow> string option \<Rightarrow> (string \<times> string) list" where
  "opt_check field v = (case v of None \<Rightarrow> [] | Some s \<Rightarrow> [(field, s)])"

definition outcome_to_json :: "outcome_record \<Rightarrow> string list \<Rightarrow> audit_error + json" where
  "outcome_to_json r residual_classes =
     (case no_controls
             ([(''at'', ou_at r)] @ opt_check ''grantor_name'' (ou_grantor_name r) @
              opt_check ''operation_digest'' (ou_operation_digest r) @
              opt_check ''manifest_hash'' (ou_manifest_hash r)) of
        Inl e \<Rightarrow> Inl e
      | Inr _ \<Rightarrow> Inr (JObj
          [(''schema'', JStr audit_schema),
           (''attempt'', JStr (ou_attempt r)),
           (''phase'', JStr ''outcome''),
           (''at'', JStr (ou_at r)),
           (''outcome'', JStr (outcome_as_str (ou_outcome r))),
           (''error_kind'', opt_str (ou_error_kind r)),
           (''grantor_kind'', opt_str (ou_grantor_kind r)),
           (''grantor_name'', opt_str (ou_grantor_name r)),
           (''grant_lifetime_s'', opt_uint (ou_grant_lifetime_s r)),
           (''grant_remaining_s'', opt_uint (ou_grant_remaining_s r)),
           (''approval_route'', opt_str (map_option approval_route_as_str (ou_approval_route r))),
           (''operation_digest'', opt_str (ou_operation_digest r)),
           (''manifest_hash'', opt_str (ou_manifest_hash r)),
           (''rows'', opt_uint (ou_rows r)),
           (''partitions'', opt_uint (ou_partitions r)),
           (''residual_classes'', JArr (map JStr residual_classes))]))"

section \<open>Classifying a line\<close>

definition audit_log_env :: string where
  "audit_log_env = ''SPATIAL_IDE_AUDIT_LOG''"

definition max_audit_log_bytes :: nat where
  "max_audit_log_bytes = 8 * 1024 * 1024"

definition max_audit_log_generations :: nat where
  "max_audit_log_generations = 4"

definition residual_class_names :: "string list" where
  "residual_class_names = [''local-filesystem-path'', ''username'', ''machine-identifier'']"

text \<open>The loop that runs to the closing quote, stepping over escapes.\<close>

function value_end :: "string \<Rightarrow> nat \<Rightarrow> nat" where
  "value_end b i =
     (if length b \<le> i then i
      else if b ! i = bs then value_end b (i + 2)
      else if b ! i = CHR 0x22 then i
      else value_end b (i + 1))"
  by pat_completeness auto
termination
  by (relation "measure (\<lambda>(b, i). length b - i)") auto

declare value_end.simps [simp del]

definition declared_occurrence :: "string \<Rightarrow> string \<Rightarrow> string \<Rightarrow> string option" where
  "declared_occurrence line key name =
     (if trim name = [] then None
      else
        let needle = CHR 0x22 # key @ [CHR 0x22, CHR '':'', CHR 0x22]
        in case find_sub line needle of
             None \<Rightarrow> None
           | Some start \<Rightarrow>
               let value_start = start + length needle; i = value_end line value_start
               in if length line \<le> i then None
                  else if \<not> contains_sub (take (i - value_start) (drop value_start line)) name then None
                  else Some (take (i + 1 - start) (drop start line)))"

definition add_residual :: "string list \<Rightarrow> finding \<Rightarrow> string list" where
  "add_residual residual f =
     (if fi_class f = operator_declared then residual
      else if fi_class f \<in> set residual_class_names \<and> fi_class f \<notin> set residual then residual @ [fi_class f]
      else residual)"

definition classify_machine :: "host \<Rightarrow> string \<Rightarrow> (string \<times> string) list \<Rightarrow> machine_identifiers" where
  "classify_machine h line identity_fields =
     (machine_from_environment (h_env h) (h_hostname h))
       \<lparr>mi_declared := List.map_filter (\<lambda>(key, name). declared_occurrence line key name) identity_fields\<rparr>"

definition classify :: "host \<Rightarrow> string \<Rightarrow> (string \<times> string) list \<Rightarrow> audit_error + string list" where
  "classify h line identity_fields =
     (let findings = scan ''audit-record'' line (classify_machine h line identity_fields)
      in case find (\<lambda>f. fi_class f = ''credential'') findings of
           Some f \<Rightarrow> Inl (CredentialInRecord (fi_class f) (fi_byte_offset f))
         | None \<Rightarrow> Inr (sort (foldl add_residual [] findings)))"

section \<open>Appending\<close>

text \<open>What the operating system answers: an error text, or for the first write also how much got out.\<close>

record log_io =
  io_open :: "string option"
  io_line :: "(nat \<times> string) option"
  io_newline :: "string option"
  io_flush :: "string option"
  io_sync :: "string option"

definition write_line :: "host \<Rightarrow> path \<Rightarrow> log_io \<Rightarrow> string \<Rightarrow> string \<Rightarrow> (audit_error + unit) \<times> string" where
  "write_line h path io line content =
     (let unwritable = (\<lambda>e. Inl (Unwritable (norm_path h path) e))
      in case io_open io of
           Some e \<Rightarrow> (unwritable e, content)
         | None \<Rightarrow>
           (case io_line io of
              Some (k, e) \<Rightarrow> (unwritable e, content @ take k line)
            | None \<Rightarrow>
              (case io_newline io of
                 Some e \<Rightarrow> (unwritable e, content @ line)
               | None \<Rightarrow>
                 (case io_flush io of
                    Some e \<Rightarrow> (unwritable e, content @ line @ [CHR 0x0A])
                  | None \<Rightarrow>
                    (case io_sync io of
                       Some e \<Rightarrow> (unwritable e, content @ line @ [CHR 0x0A])
                     | None \<Rightarrow> (Inr (), content @ line @ [CHR 0x0A]))))))"

definition render_line :: "(string list \<Rightarrow> audit_error + json) \<Rightarrow> string list \<Rightarrow> audit_error + string" where
  "render_line render residual =
     (case render residual of
        Inl e \<Rightarrow> Inl e
      | Inr j \<Rightarrow> (case to_canonical_string j of Inl e \<Rightarrow> Inl (AuditCanonical e) | Inr s \<Rightarrow> Inr s))"

definition log_append ::
    "host \<Rightarrow> path \<Rightarrow> (string list \<Rightarrow> audit_error + json) \<Rightarrow> (string \<times> string) list \<Rightarrow> log_io \<Rightarrow> string \<Rightarrow>
     (audit_error + unit) \<times> string" where
  "log_append h path render identity_fields io content =
     (case render_line render [] of
        Inl e \<Rightarrow> (Inl e, content)
      | Inr draft \<Rightarrow>
        (case classify h draft identity_fields of
           Inl e \<Rightarrow> (Inl e, content)
         | Inr residual \<Rightarrow>
           (case render_line render residual of
              Inl e \<Rightarrow> (Inl e, content)
            | Inr line \<Rightarrow>
              (case classify h line identity_fields of
                 Inl e \<Rightarrow> (Inl e, content)
               | Inr _ \<Rightarrow> write_line h path io line content))))"

definition append_intent ::
    "host \<Rightarrow> path \<Rightarrow> intent_record \<Rightarrow> log_io \<Rightarrow> string \<Rightarrow> (audit_error + unit) \<times> string" where
  "append_intent h path r io content =
     log_append h path (intent_to_json r) [(''principal_name'', in_principal_name r)] io content"

definition append_outcome ::
    "host \<Rightarrow> path \<Rightarrow> outcome_record \<Rightarrow> log_io \<Rightarrow> string \<Rightarrow> (audit_error + unit) \<times> string" where
  "append_outcome h path r io content =
     log_append h path (outcome_to_json r)
       (case ou_grantor_name r of None \<Rightarrow> [] | Some n \<Rightarrow> [(''grantor_name'', n)]) io content"

section \<open>Where the log lives\<close>

definition data_dir :: "host \<Rightarrow> path option" where
  "data_dir h =
     (if h_windows h then h_env_os h ''LOCALAPPDATA''
      else case h_env_os h ''XDG_DATA_HOME'' of
             Some d \<Rightarrow> Some d
           | None \<Rightarrow> map_option (\<lambda>d. path_join d ''.local/share'') (h_env_os h ''HOME''))"

definition resolve_log_path :: "host \<Rightarrow> audit_error + path" where
  "resolve_log_path h =
     (case h_env h audit_log_env of
        Some v \<Rightarrow>
          if \<not> starts_with v ''/''
          then Inl (Unwritable v
                 (audit_log_env @ '' must be an absolute path '' @ [CHR 0xE2, CHR 0x80, CHR 0x94] @
                  '' a relative one would put the audit log wherever the process happened to be started''))
          else Inr v
      | None \<Rightarrow>
          (case data_dir h of
             None \<Rightarrow> Inl (Unwritable ''(unresolved)''
                 (''no per-user data directory could be determined from the environment, and no '' @
                  audit_log_env @
                  '' was set. A class-3 operation with nowhere to record itself does not run''))
           | Some base \<Rightarrow>
               Inr (path_join (path_join (path_join base ''spatial-ide'') ''audit'') ''publish.jsonl'')))"

definition inside_norm :: "path \<Rightarrow> string" where
  "inside_norm p = trim_end_slashes (replace_char bs (CHR ''/'') (from_utf8_lossy p))"

definition is_inside :: "bool \<Rightarrow> path \<Rightarrow> path \<Rightarrow> bool" where
  "is_inside windows path root =
     (let low = (\<lambda>s. if windows then map ascii_lower s else s);
          p = low (inside_norm path); r = low (inside_norm root)
      in p = r \<or> starts_with p (r @ ''/''))"

section \<open>Rotation\<close>

type_synonym files = "path \<Rightarrow> string option"

record fs_faults =
  fo_create_dir :: "path \<Rightarrow> string option"
  fo_remove :: "path \<Rightarrow> string option"
  fo_rename :: "path \<Rightarrow> path \<Rightarrow> string option"
  fo_open :: "path \<Rightarrow> string option"

function strip_trailing :: "path \<Rightarrow> path" where
  "strip_trailing p =
     (if ends_with p ''/'' then strip_trailing (butlast p)
      else if ends_with p ''/.'' then strip_trailing (butlast (butlast p)) else p)"
  by pat_completeness auto
termination
proof (relation "measure length")
  fix p :: path
  assume "ends_with p ''/''"
  then have "p \<noteq> []" by (auto simp: ends_with_def starts_with_def)
  then show "(butlast p, p) \<in> measure length" by simp
next
  fix p :: path
  assume "ends_with p ''/.''"
  then have "p \<noteq> []" by (auto simp: ends_with_def starts_with_def)
  then show "(butlast (butlast p), p) \<in> measure length" by (cases p) auto
qed simp

declare strip_trailing.simps [simp del]

text \<open>\<open>Path::file_stem\<close> of a final component: up to its last dot, unless that dot is its first byte.\<close>

definition file_stem :: "string \<Rightarrow> string" where
  "file_stem name =
     (let after = takeWhile (\<lambda>c. c \<noteq> CHR ''.'') (rev name); k = length name - length after
      in if k \<le> 1 then name else take (k - 1) name)"

definition with_extension :: "path \<Rightarrow> string \<Rightarrow> path" where
  "with_extension p ext =
     (case file_name (components p) of
        None \<Rightarrow> p
      | Some name \<Rightarrow>
          let q = strip_trailing p
          in take (length q - length name + length (file_stem name)) q @ ''.'' @ ext)"

definition log_gen :: "path \<Rightarrow> nat \<Rightarrow> path" where
  "log_gen path n = with_extension path (''jsonl.'' @ show_nat n)"

definition fs_rename :: "files \<Rightarrow> path \<Rightarrow> path \<Rightarrow> files" where
  "fs_rename fs from to = fs(from := None, to := fs from)"

text \<open>\<open>for n in (1..MAX_AUDIT_LOG_GENERATIONS).rev()\<close>, over the numbers left.\<close>

fun shift_generations :: "host \<Rightarrow> fs_faults \<Rightarrow> path \<Rightarrow> nat list \<Rightarrow> files \<Rightarrow> (audit_error + unit) \<times> files" where
  "shift_generations h io path [] fs = (Inr (), fs)"
| "shift_generations h io path (n # ns) fs =
     (let from = log_gen path n; to = log_gen path (n + 1)
      in if fs from = None then shift_generations h io path ns fs
         else (case fo_rename io from to of
                 Some e \<Rightarrow> (Inl (RotationFailed (norm_path h from) e), fs)
               | None \<Rightarrow> shift_generations h io path ns (fs_rename fs from to)))"

definition rotate_if_needed :: "host \<Rightarrow> fs_faults \<Rightarrow> path \<Rightarrow> files \<Rightarrow> (audit_error + unit) \<times> files" where
  "rotate_if_needed h io path fs =
     (case fs path of
        None \<Rightarrow> (Inr (), fs)
      | Some content \<Rightarrow>
          if length content < max_audit_log_bytes then (Inr (), fs)
          else
            let oldest = log_gen path max_audit_log_generations;
                removed = (if fs oldest = None then Inr fs
                           else (case fo_remove io oldest of
                                   Some e \<Rightarrow> Inl (RotationFailed (norm_path h oldest) e)
                                 | None \<Rightarrow> Inr (fs(oldest := None))))
            in case removed of
                 Inl e \<Rightarrow> (Inl e, fs)
               | Inr fs1 \<Rightarrow>
                   (case shift_generations h io path (rev [1..<max_audit_log_generations]) fs1 of
                      (Inl e, fs2) \<Rightarrow> (Inl e, fs2)
                    | (Inr _, fs2) \<Rightarrow>
                        (case fo_rename io path (log_gen path 1) of
                           Some e \<Rightarrow> (Inl (RotationFailed (norm_path h path) e), fs2)
                         | None \<Rightarrow> (Inr (), fs_rename fs2 path (log_gen path 1)))))"

text \<open>\<open>AuditLog::open_for\<close>: the value of the log is its path.\<close>

definition open_for :: "host \<Rightarrow> fs_faults \<Rightarrow> path \<Rightarrow> files \<Rightarrow> (audit_error + path) \<times> files" where
  "open_for h io destination_resolved fs =
     (case resolve_log_path h of
        Inl e \<Rightarrow> (Inl e, fs)
      | Inr path \<Rightarrow>
          if is_inside (h_windows h) path destination_resolved
          then (Inl (LogInsideDestination (norm_path h path) (norm_path h destination_resolved)), fs)
          else
            (case (if parent (components path) = None then None else fo_create_dir io path) of
               Some e \<Rightarrow> (Inl (Unwritable (norm_path h path) (''its directory could not be created: '' @ e)), fs)
             | None \<Rightarrow>
                 (case rotate_if_needed h io path fs of
                    (Inl e, fs1) \<Rightarrow> (Inl e, fs1)
                  | (Inr _, fs1) \<Rightarrow>
                      (case fo_open io path of
                         Some e \<Rightarrow> (Inl (Unwritable (norm_path h path) e), fs1)
                       | None \<Rightarrow> (Inr path, if fs1 path = None then fs1(path := Some []) else fs1)))))"

end
