(* ===== verification/Audit_Proofs.thy ===== *)
theory Audit_Proofs
  imports Audit_Log
begin

text \<open>
  What the audit log guarantees: it only grows, an accepted record is exactly one line that carries no
  credential and names what it could not redact, records that differ write lines that differ, and a
  rotation keeps every generation but the oldest.
\<close>

section \<open>Classification\<close>

lemma add_residual_set:
  "set (add_residual acc f) =
     set acc \<union> (if fi_class f \<noteq> operator_declared \<and> fi_class f \<in> set residual_class_names then {fi_class f} else {})"
  by (auto simp: add_residual_def)

lemma foldl_residual_set:
  "set (foldl add_residual acc fs) =
     set acc \<union> {c. c \<in> set residual_class_names \<and> c \<noteq> operator_declared \<and> (\<exists>f \<in> set fs. fi_class f = c)}"
  by (induction fs arbitrary: acc) (auto simp: add_residual_set)

definition credential_free :: "host \<Rightarrow> string \<Rightarrow> bool" where
  "credential_free h line \<longleftrightarrow>
     \<not> (\<exists>f. f \<in> set (scan ''audit-record'' line (machine_from_environment (h_env h) (h_hostname h))) \<and>
        fi_class f = ''credential'')"

lemma machine_undeclared:
  "(machine_from_environment env os)\<lparr>mi_declared := []\<rparr> = machine_from_environment env os"
  by (simp add: machine_from_environment_def)

lemma classify_credential_free: "classify h line idf = Inr res \<Longrightarrow> credential_free h line"
  using scan_credentials_declared [of _ "''audit-record''" line "classify_machine h line idf"]
  by (auto simp: classify_def Let_def credential_free_def classify_machine_def machine_undeclared find_None_iff
      split: option.splits)

definition residual_of :: "host \<Rightarrow> string \<Rightarrow> (string \<times> string) list \<Rightarrow> string set" where
  "residual_of h line idf =
     {c. c \<in> set residual_class_names \<and>
        (\<exists>f \<in> set (scan ''audit-record'' line (classify_machine h line idf)). fi_class f = c)}"

lemma classify_residual: "classify h line idf = Inr res \<Longrightarrow> set res = residual_of h line idf \<and> sorted res"
  by (auto simp: classify_def Let_def foldl_residual_set residual_of_def residual_class_names_def
      operator_declared_def split: option.splits)

section \<open>Appending\<close>

lemma line_safe_no_newline: "line_safe s \<Longrightarrow> CHR 0x0A \<notin> set s"
  by (auto simp: line_safe_def list_all_iff)

lemma render_line_safe: "render_line render residual = Inr line \<Longrightarrow> line_safe line"
  by (auto simp: render_line_def to_canonical_string_def split: sum.splits dest: line_safe_write(1))

lemma write_line_grows: "write_line h path io line content = (r, content') \<Longrightarrow> \<exists>x. content' = content @ x"
  by (auto simp: write_line_def Let_def split: option.splits)

lemma write_line_ok:
  "write_line h path io line content = (Inr u, content') \<Longrightarrow> content' = content @ line @ [CHR 0x0A]"
  by (auto simp: write_line_def Let_def split: option.splits)

lemma log_append_grows: "log_append h path render idf io content = (r, content') \<Longrightarrow> \<exists>x. content' = content @ x"
  by (auto simp: log_append_def split: sum.splits dest: write_line_grows)

lemma log_append_ok:
  assumes "log_append h path render idf io content = (Inr u, content')"
  shows "\<exists>draft residual line.
    content' = content @ line @ [CHR 0x0A] \<and> CHR 0x0A \<notin> set line \<and> credential_free h line \<and>
    render_line render [] = Inr draft \<and> set residual = residual_of h draft idf \<and>
    render_line render residual = Inr line"
proof -
  from assms obtain draft residual line res where
    *: "render_line render [] = Inr draft" "classify h draft idf = Inr residual"
      "render_line render residual = Inr line" "classify h line idf = Inr res"
      "write_line h path io line content = (Inr u, content')"
    by (auto simp: log_append_def split: sum.splits)
  then show ?thesis using write_line_ok [OF *(5)] classify_credential_free [OF *(4)]
      classify_residual [OF *(2)] line_safe_no_newline [OF render_line_safe [OF *(3)]]
    by auto
qed

text \<open>
  C30: The audit log only grows. Every append, accepted or refused at any point, leaves what was there
  in place; an accepted one adds exactly one line, which holds no newline and in which the scan finds
  no credential whatever the operator declared, and the residual classes it carries are exactly those
  found in its draft.
\<close>
theorem audit_append_adds_one_clean_line:
  "case log_append h path render idf io content of
     (Inl e, content') \<Rightarrow> \<exists>x. content' = content @ x
   | (Inr u, content') \<Rightarrow> \<exists>draft residual line.
       content' = content @ line @ [CHR 0x0A] \<and> CHR 0x0A \<notin> set line \<and> credential_free h line \<and>
       render_line render [] = Inr draft \<and> set residual = residual_of h draft idf \<and>
       render_line render residual = Inr line"
  using log_append_grows log_append_ok by (fastforce split: prod.split sum.split)

text \<open>
  Two intent records that write the same line are the same record: no value of one field can pass
  for another field, or for a record boundary.
\<close>
theorem intent_line_identifies_the_record:
  assumes "render_line (intent_to_json r) residual = Inr line"
    and "render_line (intent_to_json r') residual' = Inr line"
  shows "r = r' \<and> residual = residual'"
proof -
  obtain j where j: "intent_to_json r residual = Inr j" "to_canonical_string j = Inr line"
    using assms(1) by (auto simp: render_line_def split: sum.splits)
  obtain j' where j': "intent_to_json r' residual' = Inr j'" "to_canonical_string j' = Inr line"
    using assms(2) by (auto simp: render_line_def split: sum.splits)
  have "canon j = canon j'"
    using write_prefix(1) [of j "''$''" line j' "''$''" line "[]" "[]"] j(2) j'(2)
    by (simp add: to_canonical_string_def delim_def)
  then have f: "in_attempt r = in_attempt r'" "in_at r = in_at r'" "in_operation r = in_operation r'"
    "in_class r = in_class r'" "in_reversibility r = in_reversibility r'"
    "in_principal_kind r = in_principal_kind r'" "in_principal_name r = in_principal_name r'"
    "in_source_name r = in_source_name r'" "in_source_content_hash r = in_source_content_hash r'"
    "in_destination r = in_destination r'" "in_style_hash r = in_style_hash r'"
    "map (canon \<circ> JStr) residual = map (canon \<circ> JStr) residual'"
    using j(1) j'(1) by (auto simp: intent_to_json_def split: sum.splits)
  have "inj (canon \<circ> JStr)" by (auto simp: inj_def)
  with f(12) have "residual = residual'" by (simp only: inj_map_eq_map)
  with f(1-11) show ?thesis by (cases r; cases r') simp
qed

definition ex_intent :: intent_record where
  "ex_intent =
     \<lparr>in_attempt = ''a1'', in_at = ''t'', in_operation = ''publish-static-bundle'', in_class = 3,
      in_reversibility = ''r'', in_principal_kind = ''os-user'', in_principal_name = ''ada'',
      in_source_name = ''s'', in_source_content_hash = ''h'', in_destination = ''d'', in_style_hash = ''y''\<rparr>"

theorem intent_line_identifies_the_record_witness:
  "render_line (intent_to_json ex_intent) [] \<noteq>
     render_line (intent_to_json (ex_intent\<lparr>in_source_name := ''t''\<rparr>)) []"
proof
  assume eq: "render_line (intent_to_json ex_intent) [] =
     render_line (intent_to_json (ex_intent\<lparr>in_source_name := ''t''\<rparr>)) []"
  obtain line where l: "render_line (intent_to_json ex_intent) [] = Inr line"
    by (simp add: render_line_def intent_to_json_def ex_intent_def no_control_def to_canonical_string_def
        audit_schema_def)
  have "ex_intent = ex_intent\<lparr>in_source_name := ''t''\<rparr> \<and> [] = ([] :: string list)"
    by (rule intent_line_identifies_the_record [OF l]) (use eq l in simp)
  then show False by (simp add: ex_intent_def)
qed

section \<open>Rotation\<close>

lemma strip_trailing_plain:
  assumes "plain_name name"
  shows "strip_trailing (d @ CHR ''/'' # name) = d @ CHR ''/'' # name"
proof -
  obtain n c where n: "name = n @ [c]" using assms by (metis plain_name_def rev_exhaust)
  have "c \<noteq> CHR ''/''" "n = [] \<Longrightarrow> c \<noteq> CHR ''.''" "CHR ''/'' \<notin> set n" using assms n by (auto simp: plain_name_def)
  then have "\<not> ends_with (d @ CHR ''/'' # name) ''/''" "\<not> ends_with (d @ CHR ''/'' # name) ''/.''"
    using n by (cases n rule: rev_cases; auto simp: ends_with_def starts_with_def)+
  then show ?thesis by (subst strip_trailing.simps) simp
qed

lemma log_gen_eq:
  assumes "dir \<noteq> []" "plain_name name"
  shows "log_gen (dir @ CHR ''/'' # name) n = dir @ CHR ''/'' # file_stem name @ ''.jsonl.'' @ show_nat n"
proof -
  have seg: "split_on (CHR ''/'') name = [name]" using assms(2) by (intro split_on_no_occ) (simp add: plain_name_def)
  have "file_name (components (dir @ CHR ''/'' # name)) = Some name"
    using components_append_sep [OF assms(1), of name] seg assms(2) by simp
  moreover have "length (file_stem name) \<le> length name"
    "take (length (file_stem name)) name = file_stem name" by (auto simp: file_stem_def Let_def)
  ultimately show ?thesis
    using strip_trailing_plain [OF assms(2), of dir] by (simp add: log_gen_def with_extension_def Let_def)
qed

lemma stem_rest: "name = file_stem name \<or> (\<exists>e. name = file_stem name @ CHR ''.'' # e \<and> CHR ''.'' \<notin> set e)"
proof -
  define after where "after = takeWhile (\<lambda>c. c \<noteq> CHR ''.'') (rev name)"
  define k where "k = length name - length after"
  have nodot: "CHR ''.'' \<notin> set (rev after)" unfolding after_def by (auto dest: set_takeWhileD)
  show ?thesis
  proof (cases "k \<le> 1")
    case True
    then show ?thesis by (simp add: file_stem_def k_def after_def)
  next
    case False
    have "dropWhile (\<lambda>c. c \<noteq> CHR ''.'') (rev name) \<noteq> []"
    proof
      assume "dropWhile (\<lambda>c. c \<noteq> CHR ''.'') (rev name) = []"
      then have "after = rev name"
        using takeWhile_dropWhile_id [of "\<lambda>c. c \<noteq> CHR ''.''" "rev name"] by (simp add: after_def)
      with False show False by (simp add: k_def)
    qed
    then obtain c y where c: "dropWhile (\<lambda>c. c \<noteq> CHR ''.'') (rev name) = c # y"
      by (cases "dropWhile (\<lambda>c. c \<noteq> CHR ''.'') (rev name)") auto
    then have "rev name = after @ c # y \<and> c = CHR ''.''"
      unfolding dropWhile_eq_Cons_conv after_def by blast
    then have "rev name = after @ CHR ''.'' # y" by simp
    then have "rev (rev name) = rev (after @ CHR ''.'' # y)" by (rule arg_cong)
    then have n: "name = rev y @ CHR ''.'' # rev after" by simp
    then have "k = length y + 1" by (simp add: k_def)
    moreover have "file_stem name = (if k \<le> 1 then name else take (k - 1) name)"
      by (simp add: file_stem_def Let_def k_def after_def)
    ultimately have "file_stem name = rev y" using False n by (metis append_eq_conv_conj diff_add_inverse2 length_rev)
    then show ?thesis using n nodot by auto
  qed
qed

lemma log_gens_distinct:
  assumes "dir \<noteq> []" "plain_name name"
  shows "log_gen (dir @ CHR ''/'' # name) m = log_gen (dir @ CHR ''/'' # name) n \<longleftrightarrow> m = n"
    and "log_gen (dir @ CHR ''/'' # name) n \<noteq> dir @ CHR ''/'' # name"
proof -
  show "log_gen (dir @ CHR ''/'' # name) m = log_gen (dir @ CHR ''/'' # name) n \<longleftrightarrow> m = n"
    using assms by (simp add: log_gen_eq show_nat_inject)
  show "log_gen (dir @ CHR ''/'' # name) n \<noteq> dir @ CHR ''/'' # name"
  proof
    assume "log_gen (dir @ CHR ''/'' # name) n = dir @ CHR ''/'' # name"
    then have eq: "file_stem name @ ''.jsonl.'' @ show_nat n = name" using assms by (simp add: log_gen_eq)
    show False using stem_rest [of name]
    proof (elim disjE exE conjE)
      assume "name = file_stem name"
      with eq have "length name > length name" by (metis append_is_Nil_conv append_self_conv list.distinct(1))
      then show False by simp
    next
      fix e assume "name = file_stem name @ CHR ''.'' # e" "CHR ''.'' \<notin> set e"
      with eq have "''jsonl.'' @ show_nat n = e" by (metis append_Cons append_Nil list.inject same_append_eq)
      then show False using \<open>CHR ''.'' \<notin> set e\<close> by auto
    qed
  qed
qed

lemma rotation_numbers: "rev [1..<4 :: nat] = [3, 2, 1]" "rev [Suc 0..<4] = [3, 2, 1]"
  "max_audit_log_generations = 4"
  by (simp_all add: max_audit_log_generations_def upt_conv_Cons)

lemma shift_step:
  assumes "shift_generations h io path (n # ns) fs = (Inr (), fs')" "fs (log_gen path (n + 1)) = None"
    "log_gen path (n + 1) \<noteq> log_gen path n"
  shows "shift_generations h io path ns (fs_rename fs (log_gen path n) (log_gen path (n + 1))) = (Inr (), fs')"
proof (cases "fs (log_gen path n)")
  case None
  then have "fs_rename fs (log_gen path n) (log_gen path (n + 1)) = fs"
    using assms(2) by (auto simp: fs_rename_def fun_eq_iff)
  then show ?thesis using assms None by (simp add: Let_def)
next
  case (Some c)
  then show ?thesis using assms by (auto simp: Let_def split: option.splits)
qed

lemma rotate_removed:
  assumes "rotate_if_needed h io path fs = (Inr (), fs')" "fs path = Some content"
    "max_audit_log_bytes \<le> length content"
  shows "\<exists>fs2. shift_generations h io path [3, 2, 1] (fs(log_gen path 4 := None)) = (Inr (), fs2) \<and>
    fs' = fs_rename fs2 path (log_gen path 1)"
proof (cases "fs (log_gen path 4)")
  case None
  then have "fs(log_gen path 4 := None) = fs" by (simp add: fun_upd_idem)
  with assms None show ?thesis
    by (auto simp: rotate_if_needed_def Let_def rotation_numbers simp del: shift_generations.simps upt_Suc
        split: option.splits sum.splits prod.splits)
next
  case (Some c)
  with assms show ?thesis
    by (auto simp: rotate_if_needed_def Let_def rotation_numbers simp del: shift_generations.simps upt_Suc
        split: option.splits sum.splits prod.splits)
qed

text \<open>
  C31: Rotation loses nothing but the oldest generation. When a full log is rotated, its content is in
  generation 1, every generation \<open>n\<close> moves to \<open>n + 1\<close>, the old generation 4 is gone, the log itself
  is free to be created anew, and no other file changes.
\<close>
theorem rotation_keeps_generations:
  assumes path: "path = dir @ CHR ''/'' # name" "dir \<noteq> []" "plain_name name"
    and full: "fs path = Some content" "max_audit_log_bytes \<le> length content"
    and ok: "rotate_if_needed h io path fs = (Inr (), fs')"
  shows "fs' path = None \<and> fs' (log_gen path 1) = Some content \<and> fs' (log_gen path 2) = fs (log_gen path 1) \<and>
    fs' (log_gen path 3) = fs (log_gen path 2) \<and> fs' (log_gen path 4) = fs (log_gen path 3) \<and>
    {q. fs' q \<noteq> fs q} \<subseteq> {path, log_gen path 1, log_gen path 2, log_gen path 3, log_gen path 4}"
proof -
  define g where "g = log_gen path"
  have inj: "g m = g n \<longleftrightarrow> m = n" for m n using log_gens_distinct(1) [OF path(2,3)] path(1) by (simp add: g_def)
  have np: "g n \<noteq> path" for n using log_gens_distinct(2) [OF path(2,3)] path(1) by (simp add: g_def)
  note upd = fs_rename_def inj np np [symmetric]
  obtain fs2 where sh: "shift_generations h io path [3, 2, 1] (fs(g 4 := None)) = (Inr (), fs2)"
    and fs': "fs' = fs_rename fs2 path (g 1)"
    using rotate_removed [OF ok full] by (auto simp: g_def)
  let ?a = "fs(g 4 := None)"
  let ?b = "fs_rename ?a (g 3) (g 4)" let ?c = "fs_rename ?b (g 2) (g 3)"
  have s3: "shift_generations h io path [2, 1] ?b = (Inr (), fs2)"
    using shift_step [OF sh] inj by (simp add: g_def)
  have "?b (g 3) = None" by (simp add: upd)
  then have s2: "shift_generations h io path [1] ?c = (Inr (), fs2)"
    using shift_step [OF s3] inj by (simp add: g_def)
  have "?c (g 2) = None" by (simp add: upd)
  then have "shift_generations h io path [] (fs_rename ?c (g 1) (g 2)) = (Inr (), fs2)"
    using shift_step [OF s2] inj by (simp add: g_def numeral_2_eq_2)
  then have fs2: "fs2 = fs_rename ?c (g 1) (g 2)" by simp
  show ?thesis unfolding g_def [symmetric] fs' fs2 using full by (simp add: upd subset_iff)
qed

theorem rotation_keeps_generations_witness:
  "\<exists>fs'. fs' ''/a/p.jsonl'' = None \<and>
     fs' (log_gen ''/a/p.jsonl'' 1) = Some (replicate max_audit_log_bytes CHR ''x'')"
proof -
  let ?p = "''/a'' @ CHR ''/'' # ''p.jsonl''"
  let ?c = "replicate max_audit_log_bytes CHR ''x''"
  let ?fs = "[?p \<mapsto> ?c]"
  let ?io = "\<lparr>fo_create_dir = \<lambda>_. None, fo_remove = \<lambda>_. None, fo_rename = \<lambda>_ _. None, fo_open = \<lambda>_. None\<rparr>"
  let ?h = "\<lparr>h_windows = False, h_env = \<lambda>_. None, h_env_os = \<lambda>_. None, h_hostname = None\<rparr>"
  have pl: "plain_name ''p.jsonl''" "''/a'' \<noteq> []" by (simp_all add: plain_name_def)
  have np: "log_gen ?p n \<noteq> ?p" for n by (rule log_gens_distinct(2)) (use pl in auto)
  have ok: "rotate_if_needed ?h ?io ?p ?fs = (Inr (), fs_rename ?fs ?p (log_gen ?p 1))"
    using np by (simp add: rotate_if_needed_def rotation_numbers Let_def del: append.simps upt_Suc)
  from rotation_keeps_generations [OF refl pl(2,1) _ _ ok, of ?c] show ?thesis
    by (intro exI [of _ "fs_rename ?fs ?p (log_gen ?p 1)"]) simp
qed

end
