(* ===== verification/Boundary.thy ===== *)
theory Boundary
  imports Grants Audit_Proofs
begin

text \<open>
  \<open>kernel/src/permission/approval.rs\<close> and \<open>boundary.rs\<close>: the one way a publish runs. The boundary
  resolves the facts, records the intent, checks the grant, asks for approval, checks the grant again,
  publishes, and records the outcome. What lies outside (the preflight, the operation itself, the
  file system, the clock, the approval channel, the log's disk) is the record \<open>surroundings\<close>; the result of a
  run carries the log it leaves and the trace of its effects in order. An \<open>EngineError\<close> or \<open>StyleError\<close>
  inside a publish error is a type parameter. The text of an audit error inside \<open>OutcomeNotAudited\<close> is
  the error itself.
\<close>

section \<open>Approval\<close>

record approval_prompt =
  pr_operation :: string
  pr_class :: nat
  pr_reversibility :: string
  pr_source_name :: string
  pr_source_content_hash :: string
  pr_style_hash :: string
  pr_destination_display :: string
  pr_confirmation_phrase :: string
  pr_grantor :: string
  pr_grant_remaining_s :: nat

definition rule_line :: "nat \<Rightarrow> string" where
  "rule_line n = concat (replicate n [CHR 0xE2, CHR 0x94, CHR 0x80])"

definition render_prompt :: "approval_prompt \<Rightarrow> string" where
  "render_prompt p =
     [CHR 0x0A] @ rule_line 2 @ '' approval required '' @ rule_line 46 @ [CHR 0x0A] @
     ''operation      '' @ pr_operation p @ [CHR 0x0A] @ ''class          '' @
     show_nat (pr_class p) @ '' (external side effect, ADR-006)'' @ [CHR 0x0A] @
     ''reversibility  '' @ pr_reversibility p @ [CHR 0x0A] @ ''source         '' @
     pr_source_name p @ ''  '' @ pr_source_content_hash p @ [CHR 0x0A] @ ''style          '' @
     pr_style_hash p @ [CHR 0x0A] @ ''destination    '' @ pr_destination_display p @ [CHR 0x0A] @
     ''grantor        '' @ pr_grantor p @ ''   grant expires in '' @
     show_nat (pr_grant_remaining_s p) @ ''s'' @ [CHR 0x0A, CHR 0x0A] @ ''This cannot be undone. '' @
     ''Nothing here can remove a published bundle.'' @ [CHR 0x0A] @ ''Type the destination'' @
     [CHR 0x27] @ ''s name to approve, or anything else to refuse: '' @ pr_confirmation_phrase p @
     [CHR 0x0A] @ ''> ''"

text \<open>\<open>StdinApproval::respond\<close>, given what \<open>read_line\<close> returned: the bytes read, or an error text.\<close>

definition stdin_respond :: "string + string \<Rightarrow> approval_prompt \<Rightarrow> permission_error + string" where
  "stdin_respond read prompt =
     (case read of
        Inr line \<Rightarrow>
          if line = [] then Inl (ApprovalRefused Eof (pr_confirmation_phrase prompt)) else Inr line
      | Inl e \<Rightarrow> Inl (ApprovalUnavailable e))"

definition prenamed_respond :: "string \<Rightarrow> approval_prompt \<Rightarrow> permission_error + string" where
  "prenamed_respond answer prompt = Inr answer"

definition approval_check :: "approval_prompt \<Rightarrow> string \<Rightarrow> permission_error + unit" where
  "approval_check prompt given =
     (if trim given = pr_confirmation_phrase prompt then Inr ()
      else Inl (ApprovalRefused NotMatched (pr_confirmation_phrase prompt)))"

section \<open>Errors and outcomes\<close>

datatype ('g, 's) publish_error =
    DestinationExists string
  | DestinationNotWritable string "int option" string
  | InsufficientSpace string "int option" string
  | PublishIo string "int option" string
  | SourceNotPinned
  | LicenseNotCarryable string string
  | LicenseDeclaredTwice string string
  | OperatorLicenseEmpty
  | ViewerAssetPathRejected string string
  | ViewerLicenseIncomplete string
  | ViewerLicenseNoticeMissing string string "string list"
  | CorrespondingSourceNotDurable string
  | DatasetNameRejected string string
  | RowFilterNotRecordable
  | GeographicCrsNotPublishable string string
  | GeometryEncodingNotPublishable string string
  | SessionIdentityNotPublishable
  | RedactionFinding string string nat nat
  | CeilingExceeded string nat nat
  | ReaderCeilingExceeded string nat nat string
  | PublishCancelled
  | StagingNotRemoved "('g, 's) publish_error" string string
  | EngineFailure 'g
  | StyleFailure 's
  | CanonicalFailure canonical_error

record publish_outcome =
  po_bundle_path :: path
  po_manifest_bytes :: nat
  po_total_bytes :: nat
  po_partitions :: nat
  po_rows :: nat
  po_build_millis :: f64
  po_content_hash_millis :: f64
  po_style_hash :: string
  po_operation_digest :: string
  po_bounds :: "(f64 \<times> f64 \<times> f64 \<times> f64) option"
  po_reproducibility_grade :: string

datatype ('g, 's) boundary_error =
    PermissionFailure permission_error
  | AuditFailure audit_error
  | PublishFailure "('g, 's) publish_error"
  | OutcomeNotAudited publish_outcome string audit_error

fun publish_error_code :: "('g, 's) publish_error \<Rightarrow> string" where
  "publish_error_code (DestinationExists _) = ''publish.destination_exists''"
| "publish_error_code (DestinationNotWritable _ _ _) = ''publish.destination_not_writable''"
| "publish_error_code (InsufficientSpace _ _ _) = ''publish.insufficient_space''"
| "publish_error_code (PublishIo _ _ _) = ''publish.io''"
| "publish_error_code SourceNotPinned = ''publish.source_not_pinned''"
| "publish_error_code (LicenseNotCarryable _ _) = ''publish.license_not_carryable''"
| "publish_error_code (LicenseDeclaredTwice _ _) = ''publish.license_declared_twice''"
| "publish_error_code OperatorLicenseEmpty = ''publish.operator_license_empty''"
| "publish_error_code (ViewerAssetPathRejected _ _) = ''publish.viewer_asset_path_rejected''"
| "publish_error_code (ViewerLicenseIncomplete _) = ''publish.viewer_license_incomplete''"
| "publish_error_code (ViewerLicenseNoticeMissing _ _ _) = ''publish.viewer_license_notice_missing''"
| "publish_error_code (CorrespondingSourceNotDurable _) = ''publish.corresponding_source_not_durable''"
| "publish_error_code (DatasetNameRejected _ _) = ''publish.dataset_name_rejected''"
| "publish_error_code RowFilterNotRecordable = ''publish.row_filter_not_recordable''"
| "publish_error_code (GeographicCrsNotPublishable _ _) = ''publish.geographic_crs_not_publishable''"
| "publish_error_code (GeometryEncodingNotPublishable _ _) = ''publish.geometry_encoding_not_publishable''"
| "publish_error_code SessionIdentityNotPublishable = ''publish.session_identity_not_publishable''"
| "publish_error_code (RedactionFinding _ _ _ _) = ''publish.redaction_finding''"
| "publish_error_code (CeilingExceeded _ _ _) = ''publish.ceiling_exceeded''"
| "publish_error_code (ReaderCeilingExceeded _ _ _ _) = ''publish.reader_ceiling_exceeded''"
| "publish_error_code PublishCancelled = ''publish.cancelled''"
| "publish_error_code (StagingNotRemoved _ _ _) = ''publish.staging_not_removed''"
| "publish_error_code (EngineFailure _) = ''publish.engine''"
| "publish_error_code (StyleFailure _) = ''publish.style''"
| "publish_error_code (CanonicalFailure _) = ''publish.canonical''"

fun permission_error_kind :: "permission_error \<Rightarrow> string" where
  "permission_error_kind (NoGrant _) = ''NoGrant''"
| "permission_error_kind (GrantScopeMismatch _) = ''GrantScopeMismatch''"
| "permission_error_kind (GrantExpired _ _) = ''GrantExpired''"
| "permission_error_kind (GrantCeilingExceeded _ _) = ''GrantCeilingExceeded''"
| "permission_error_kind (GrantLifetimeExceeded _ _) = ''GrantLifetimeExceeded''"
| "permission_error_kind (DestinationUnresolvable _ _) = ''DestinationUnresolvable''"
| "permission_error_kind (ApprovalRefused _ _) = ''ApprovalRefused''"
| "permission_error_kind (ApprovalUnavailable _) = ''ApprovalUnavailable''"

fun audit_error_kind :: "audit_error \<Rightarrow> string" where
  "audit_error_kind (Unwritable _ _) = ''AuditUnwritable''"
| "audit_error_kind (LogInsideDestination _ _) = ''AuditLogInsideDestination''"
| "audit_error_kind (RotationFailed _ _) = ''AuditRotationFailed''"
| "audit_error_kind (ControlCharacterInField _) = ''AuditControlCharacterInField''"
| "audit_error_kind (CredentialInRecord _ _) = ''AuditCredentialInRecord''"
| "audit_error_kind (AuditCanonical _) = ''AuditCanonical''"

fun publish_error_kind :: "('g, 's) publish_error \<Rightarrow> string" where
  "publish_error_kind (DestinationExists _) = ''DestinationExists''"
| "publish_error_kind (DestinationNotWritable _ _ _) = ''DestinationNotWritable''"
| "publish_error_kind (InsufficientSpace _ _ _) = ''InsufficientSpace''"
| "publish_error_kind (PublishIo _ _ _) = ''Io''"
| "publish_error_kind SourceNotPinned = ''SourceNotPinned''"
| "publish_error_kind (LicenseNotCarryable _ _) = ''LicenseNotCarryable''"
| "publish_error_kind (LicenseDeclaredTwice _ _) = ''LicenseDeclaredTwice''"
| "publish_error_kind OperatorLicenseEmpty = ''OperatorLicenseEmpty''"
| "publish_error_kind (ViewerAssetPathRejected _ _) = ''ViewerAssetPathRejected''"
| "publish_error_kind (ViewerLicenseIncomplete _) = ''ViewerLicenseIncomplete''"
| "publish_error_kind (ViewerLicenseNoticeMissing _ _ _) = ''ViewerLicenseNoticeMissing''"
| "publish_error_kind (CorrespondingSourceNotDurable _) = ''CorrespondingSourceNotDurable''"
| "publish_error_kind (DatasetNameRejected _ _) = ''DatasetNameRejected''"
| "publish_error_kind RowFilterNotRecordable = ''RowFilterNotRecordable''"
| "publish_error_kind (GeographicCrsNotPublishable _ _) = ''GeographicCrsNotPublishable''"
| "publish_error_kind (GeometryEncodingNotPublishable _ _) = ''GeometryEncodingNotPublishable''"
| "publish_error_kind SessionIdentityNotPublishable = ''SessionIdentityNotPublishable''"
| "publish_error_kind (RedactionFinding _ _ _ _) = ''RedactionFinding''"
| "publish_error_kind (CeilingExceeded _ _ _) = ''CeilingExceeded''"
| "publish_error_kind (ReaderCeilingExceeded _ _ _ _) = ''ReaderCeilingExceeded''"
| "publish_error_kind PublishCancelled = ''Cancelled''"
| "publish_error_kind (StagingNotRemoved _ _ _) = ''StagingNotRemoved''"
| "publish_error_kind (EngineFailure _) = ''Engine''"
| "publish_error_kind (StyleFailure _) = ''Style''"
| "publish_error_kind (CanonicalFailure _) = ''Canonical''"

fun error_kind :: "('g, 's) boundary_error \<Rightarrow> string" where
  "error_kind (PermissionFailure p) = permission_error_kind p"
| "error_kind (AuditFailure a) = audit_error_kind a"
| "error_kind (PublishFailure p) = publish_error_kind p"
| "error_kind (OutcomeNotAudited _ _ _) = ''OutcomeNotAudited''"

fun publish_outcome_of :: "('g, 's) publish_error \<Rightarrow> outcome" where
  "publish_outcome_of (DestinationExists _) = Refused"
| "publish_outcome_of (DestinationNotWritable _ _ _) = Failed"
| "publish_outcome_of (InsufficientSpace _ _ _) = Failed"
| "publish_outcome_of (PublishIo _ _ _) = Failed"
| "publish_outcome_of SourceNotPinned = Refused"
| "publish_outcome_of (LicenseNotCarryable _ _) = Refused"
| "publish_outcome_of (LicenseDeclaredTwice _ _) = Refused"
| "publish_outcome_of OperatorLicenseEmpty = Refused"
| "publish_outcome_of (ViewerAssetPathRejected _ _) = Refused"
| "publish_outcome_of (ViewerLicenseIncomplete _) = Refused"
| "publish_outcome_of (ViewerLicenseNoticeMissing _ _ _) = Refused"
| "publish_outcome_of (CorrespondingSourceNotDurable _) = Refused"
| "publish_outcome_of (DatasetNameRejected _ _) = Refused"
| "publish_outcome_of RowFilterNotRecordable = Refused"
| "publish_outcome_of (GeographicCrsNotPublishable _ _) = Refused"
| "publish_outcome_of (GeometryEncodingNotPublishable _ _) = Refused"
| "publish_outcome_of SessionIdentityNotPublishable = Refused"
| "publish_outcome_of (RedactionFinding _ _ _ _) = Refused"
| "publish_outcome_of (CeilingExceeded _ _ _) = Refused"
| "publish_outcome_of (ReaderCeilingExceeded _ _ _ _) = Refused"
| "publish_outcome_of PublishCancelled = Cancelled"
| "publish_outcome_of (StagingNotRemoved after _ _) = publish_outcome_of after"
| "publish_outcome_of (EngineFailure _) = Failed"
| "publish_outcome_of (StyleFailure _) = Failed"
| "publish_outcome_of (CanonicalFailure _) = Failed"

fun outcome_of :: "('g, 's) boundary_error \<Rightarrow> outcome" where
  "outcome_of (PermissionFailure (ApprovalUnavailable _)) = Failed"
| "outcome_of (PermissionFailure _) = Refused"
| "outcome_of (PublishFailure p) = publish_outcome_of p"
| "outcome_of (AuditFailure _) = Failed"
| "outcome_of (OutcomeNotAudited _ _ _) = Failed"

section \<open>The run\<close>

definition reversibility_class :: string where
  "reversibility_class = ''irreversible''"

definition operation_class :: nat where
  "operation_class = 3"

definition manifest_path :: string where
  "manifest_path = ''manifest.json''"

record ('g, 's) surroundings =
  sr_host :: host
  sr_preflight :: "('g, 's) publish_error + string \<times> string"
  sr_canonicalize :: "component list \<Rightarrow> string + path"
  sr_random_suffix :: string
  sr_clock_intent :: string
  sr_clock_outcome :: string
  sr_now_first :: nanos
  sr_now_second :: nanos
  sr_respond :: "approval_prompt \<Rightarrow> permission_error + string"
  sr_route :: approval_route
  sr_publish :: "('g, 's) publish_error + publish_outcome"
  sr_read_manifest :: "path \<Rightarrow> string option"
  sr_sha256 :: "string \<Rightarrow> nat list"
  sr_io_intent :: log_io
  sr_io_outcome :: log_io

record publish_attempt =
  pa_dataset_name :: string
  pa_destination :: path
  pa_grants :: grant_set
  pa_principal :: principal
  pa_audit :: path

datatype effect = WroteIntent | FoundGrant nanos publish_grant | Asked approval_prompt string | RanPublish | WroteOutcome outcome_record

record outcome_context =
  cx_attempt_id :: string
  cx_grantor_kind :: "string option"
  cx_grantor_name :: "string option"
  cx_grant_lifetime_s :: "nat option"
  cx_grant_remaining_s :: "nat option"
  cx_approval_route :: "approval_route option"

definition note_grant :: "outcome_context \<Rightarrow> publish_grant \<Rightarrow> nanos \<Rightarrow> outcome_context" where
  "note_grant ctx g now =
     ctx\<lparr>cx_grantor_kind := Some (principal_kind_as_str (principal_kind (granted_by g))),
         cx_grantor_name := Some (principal_id (granted_by g)),
         cx_grant_lifetime_s := Some (as_secs (lifetime g)),
         cx_grant_remaining_s := Some (as_secs (remaining g now))\<rparr>"

type_synonym ('g, 's) run = "(('g, 's) boundary_error + publish_outcome) \<times> string \<times> effect list"

definition failure_record :: "('g, 's) surroundings \<Rightarrow> outcome_context \<Rightarrow> ('g, 's) boundary_error \<Rightarrow> outcome_record" where
  "failure_record w ctx e =
     \<lparr>ou_attempt = cx_attempt_id ctx, ou_at = sr_clock_outcome w, ou_outcome = outcome_of e,
      ou_error_kind = Some (error_kind e), ou_grantor_kind = cx_grantor_kind ctx,
      ou_grantor_name = cx_grantor_name ctx, ou_grant_lifetime_s = cx_grant_lifetime_s ctx,
      ou_grant_remaining_s = cx_grant_remaining_s ctx, ou_approval_route = cx_approval_route ctx,
      ou_operation_digest = None, ou_manifest_hash = None, ou_rows = None, ou_partitions = None\<rparr>"

text \<open>\<open>finish\<close>: the failure is recorded when it can be, and returned either way.\<close>

definition finish ::
    "('g, 's) surroundings \<Rightarrow> publish_attempt \<Rightarrow> outcome_context \<Rightarrow> ('g, 's) boundary_error \<Rightarrow> string \<Rightarrow> effect list \<Rightarrow>
     ('g, 's) run" where
  "finish w a ctx e log trace =
     (let r = failure_record w ctx e
      in case append_outcome (sr_host w) (pa_audit a) r (sr_io_outcome w) log of
           (Inl _, log') \<Rightarrow> (Inl e, log', trace)
         | (Inr _, log') \<Rightarrow> (Inl e, log', trace @ [WroteOutcome r]))"

definition confirmation_phrase :: "path \<Rightarrow> string" where
  "confirmation_phrase resolved =
     (case file_name (components resolved) of
        Some n \<Rightarrow> from_utf8_lossy n
      | None \<Rightarrow> ''(unnamed)'')"

definition manifest_hash :: "('g, 's) surroundings \<Rightarrow> path \<Rightarrow> string option" where
  "manifest_hash w bundle =
     map_option (sha256_hex (sr_sha256 w)) (sr_read_manifest w (path_join bundle manifest_path))"

definition success_record :: "('g, 's) surroundings \<Rightarrow> outcome_context \<Rightarrow> publish_outcome \<Rightarrow> outcome_record" where
  "success_record w ctx out =
     \<lparr>ou_attempt = cx_attempt_id ctx, ou_at = sr_clock_outcome w, ou_outcome = Success,
      ou_error_kind = None, ou_grantor_kind = cx_grantor_kind ctx,
      ou_grantor_name = cx_grantor_name ctx, ou_grant_lifetime_s = cx_grant_lifetime_s ctx,
      ou_grant_remaining_s = cx_grant_remaining_s ctx, ou_approval_route = cx_approval_route ctx,
      ou_operation_digest = Some (po_operation_digest out),
      ou_manifest_hash = manifest_hash w (po_bundle_path out), ou_rows = Some (po_rows out),
      ou_partitions = Some (po_partitions out)\<rparr>"

definition facts_of :: "publish_attempt \<Rightarrow> string \<Rightarrow> path \<Rightarrow> operation_facts" where
  "facts_of a hash dest =
     \<lparr>facts_operation = Publish, facts_dataset_name = pa_dataset_name a,
      facts_content_hash = hash, facts_destination = dest\<rparr>"

definition intent_of :: "('g, 's) surroundings \<Rightarrow> publish_attempt \<Rightarrow> string \<Rightarrow> string \<Rightarrow> path \<Rightarrow> intent_record" where
  "intent_of w a hash style dest =
     \<lparr>in_attempt = sr_random_suffix w, in_at = sr_clock_intent w, in_operation = publish_operation,
      in_class = operation_class, in_reversibility = reversibility_class,
      in_principal_kind = principal_kind_as_str (principal_kind (pa_principal a)),
      in_principal_name = principal_id (pa_principal a), in_source_name = pa_dataset_name a,
      in_source_content_hash = hash, in_destination = norm_path (sr_host w) dest,
      in_style_hash = style\<rparr>"

definition prompt_of ::
    "('g, 's) surroundings \<Rightarrow> publish_attempt \<Rightarrow> string \<Rightarrow> string \<Rightarrow> path \<Rightarrow> publish_grant \<Rightarrow> nanos \<Rightarrow> approval_prompt" where
  "prompt_of w a hash style dest g now =
     \<lparr>pr_operation = publish_operation, pr_class = operation_class, pr_reversibility = reversibility_class,
      pr_source_name = pa_dataset_name a, pr_source_content_hash = hash, pr_style_hash = style,
      pr_destination_display = from_utf8_lossy dest,
      pr_confirmation_phrase = confirmation_phrase dest,
      pr_grantor = principal_kind_as_str (principal_kind (granted_by g)) @ '' '' @ principal_id (granted_by g),
      pr_grant_remaining_s = as_secs (remaining g now)\<rparr>"

text \<open>From the operation's result to the record of it.\<close>

definition conclude ::
    "('g, 's) surroundings \<Rightarrow> publish_attempt \<Rightarrow> outcome_context \<Rightarrow> string \<Rightarrow> effect list \<Rightarrow> ('g, 's) run" where
  "conclude w a ctx log trace =
     (case sr_publish w of
        Inl e \<Rightarrow> finish w a ctx (PublishFailure e) log (trace @ [RanPublish])
      | Inr out \<Rightarrow>
          let r = success_record w ctx out
          in case append_outcome (sr_host w) (pa_audit a) r (sr_io_outcome w) log of
               (Inr _, log') \<Rightarrow> (Inr out, log', trace @ [RanPublish, WroteOutcome r])
             | (Inl e, log') \<Rightarrow>
                 (Inl (OutcomeNotAudited out (norm_path (sr_host w) (pa_audit a)) e), log', trace @ [RanPublish]))"

text \<open>From the recorded intent: grant, approval, grant again, operation.\<close>

definition authorize ::
    "('g, 's) surroundings \<Rightarrow> publish_attempt \<Rightarrow> string \<Rightarrow> string \<Rightarrow> path \<Rightarrow> string \<Rightarrow> ('g, 's) run" where
  "authorize w a hash style dest log =
     (let facts = facts_of a hash dest;
          nd = norm_path (sr_host w);
          ctx = \<lparr>cx_attempt_id = sr_random_suffix w, cx_grantor_kind = None, cx_grantor_name = None,
                 cx_grant_lifetime_s = None, cx_grant_remaining_s = None, cx_approval_route = None\<rparr>;
          trace = [WroteIntent]
      in case grant_set_find nd (pa_grants a) facts (sr_now_first w) of
           Inl e \<Rightarrow> finish w a ctx (PermissionFailure e) log trace
         | Inr g \<Rightarrow>
             let ctx = note_grant ctx g (sr_now_first w);
                 trace = trace @ [FoundGrant (sr_now_first w) g];
                 prompt = prompt_of w a hash style dest g (sr_now_first w);
                 ctx = ctx\<lparr>cx_approval_route := Some (sr_route w)\<rparr>
             in case sr_respond w prompt of
                  Inl e \<Rightarrow> finish w a ctx (PermissionFailure e) log trace
                | Inr given \<Rightarrow>
                    let trace = trace @ [Asked prompt given]
                    in case approval_check prompt given of
                         Inl e \<Rightarrow> finish w a ctx (PermissionFailure e) log trace
                       | Inr _ \<Rightarrow>
                           (case grant_set_find nd (pa_grants a) facts (sr_now_second w) of
                              Inl e \<Rightarrow> finish w a ctx (PermissionFailure e) log trace
                            | Inr g2 \<Rightarrow>
                                conclude w a (note_grant ctx g2 (sr_now_second w)) log
                                  (trace @ [FoundGrant (sr_now_second w) g2])))"

definition execute :: "('g, 's) surroundings \<Rightarrow> publish_attempt \<Rightarrow> string \<Rightarrow> ('g, 's) run" where
  "execute w a log =
     (case sr_preflight w of
        Inl e \<Rightarrow> (Inl (PublishFailure e), log, [])
      | Inr (hash, style) \<Rightarrow>
        (case resolve_destination (sr_canonicalize w) (pa_destination a) of
           Inl e \<Rightarrow> (Inl (PermissionFailure e), log, [])
         | Inr dest \<Rightarrow>
             if is_inside (h_windows (sr_host w)) (pa_audit a) dest
             then (Inl (AuditFailure (LogInsideDestination (norm_path (sr_host w) (pa_audit a))
                          (norm_path (sr_host w) dest))), log, [])
             else
               (case append_intent (sr_host w) (pa_audit a) (intent_of w a hash style dest)
                       (sr_io_intent w) log of
                  (Inl e, log') \<Rightarrow> (Inl (AuditFailure e), log', [])
                | (Inr _, log') \<Rightarrow> authorize w a hash style dest log')))"

end
