(* ===== verification/Boundary_Proofs.thy ===== *)
theory Boundary_Proofs
  imports Boundary
begin

text \<open>
  What the permission boundary guarantees: nothing is published without a recorded intent, a live
  matching grant checked before and after the approval, and an approval that names the destination;
  every recorded intent is followed by a recorded verdict when the log takes it; the log only grows.
\<close>

section \<open>Shapes of a run\<close>

lemma append_outcome_grows:
  "append_outcome h path r io log = (res, log') \<Longrightarrow> \<exists>x. log' = log @ x"
  by (simp add: append_outcome_def) (rule log_append_grows)

lemma append_intent_grows:
  "append_intent h path r io log = (res, log') \<Longrightarrow> \<exists>x. log' = log @ x"
  by (simp add: append_intent_def) (rule log_append_grows)

lemma finish_shape:
  "finish w a ctx e log trace = (res, log', trace') \<Longrightarrow>
     res = Inl e \<and> (\<exists>x. log' = log @ x) \<and>
     (trace' = trace \<or> trace' = trace @ [WroteOutcome (failure_record w ctx e)])"
  by (auto simp: finish_def Let_def split: prod.splits sum.splits dest: append_outcome_grows)

lemma conclude_shape:
  "conclude w a ctx log trace = (res, log', trace') \<Longrightarrow>
     (\<exists>x. log' = log @ x) \<and> (\<exists>post. trace' = trace @ RanPublish # post \<and> RanPublish \<notin> set post)"
  by (auto simp: conclude_def Let_def split: prod.splits sum.splits dest!: finish_shape dest: append_outcome_grows)

text \<open>What must hold when the operation ran.\<close>

definition authorized_run ::
    "('g, 's) surroundings \<Rightarrow> publish_attempt \<Rightarrow> string \<Rightarrow> string \<Rightarrow> path \<Rightarrow> effect list \<Rightarrow> bool" where
  "authorized_run w a hash style dest trace \<longleftrightarrow>
     (\<exists>g1 g2 given post.
        let facts = facts_of a hash dest; prompt = prompt_of w a hash style dest g1 (sr_now_first w)
        in g1 \<in> set (grants (pa_grants a)) \<and> grant_covers g1 facts \<and> \<not> expired g1 (sr_now_first w) \<and>
           g2 \<in> set (grants (pa_grants a)) \<and> grant_covers g2 facts \<and> \<not> expired g2 (sr_now_second w) \<and>
           sr_respond w prompt = Inr given \<and> trim given = confirmation_phrase dest \<and>
           trace = [WroteIntent, FoundGrant (sr_now_first w) g1, Asked prompt given,
                    FoundGrant (sr_now_second w) g2, RanPublish] @ post)"

lemma authorize_grows: "authorize w a hash style dest log = (res, log', trace) \<Longrightarrow> \<exists>x. log' = log @ x"
  by (auto simp: authorize_def Let_def split: sum.splits dest!: finish_shape conclude_shape)

lemma find_live:
  "grant_set_find nd s facts now = Inr g \<Longrightarrow>
     g \<in> set (grants s) \<and> grant_covers g facts \<and> \<not> expired g now"
  by (rule gs.lookup_sound)

lemma authorize_runs:
  assumes "authorize w a hash style dest log = (res, log', trace)"
  shows "if RanPublish \<in> set trace then authorized_run w a hash style dest trace else \<exists>e. res = Inl e"
proof -
  let ?nd = "norm_path (sr_host w)"
  let ?facts = "facts_of a hash dest"
  show ?thesis
  proof (cases "grant_set_find ?nd (pa_grants a) ?facts (sr_now_first w)")
    case (Inl e)
    then show ?thesis using assms by (auto simp: authorize_def Let_def dest!: finish_shape)
  next
    case g1: (Inr g1)
    let ?p = "prompt_of w a hash style dest g1 (sr_now_first w)"
    show ?thesis
    proof (cases "sr_respond w ?p")
      case (Inl e)
      then show ?thesis using assms g1 by (auto simp: authorize_def Let_def dest!: finish_shape)
    next
      case given: (Inr given)
      show ?thesis
      proof (cases "trim given = pr_confirmation_phrase ?p")
        case False
        then show ?thesis using assms g1 given
          by (auto simp: authorize_def Let_def approval_check_def dest!: finish_shape)
      next
        case ok: True
        show ?thesis
        proof (cases "grant_set_find ?nd (pa_grants a) ?facts (sr_now_second w)")
          case (Inl e)
          then show ?thesis using assms g1 given ok
            by (auto simp: authorize_def Let_def approval_check_def dest!: finish_shape)
        next
          case g2: (Inr g2)
          from assms g1 given ok g2 obtain post where
            "trace = [WroteIntent, FoundGrant (sr_now_first w) g1, Asked ?p given,
               FoundGrant (sr_now_second w) g2, RanPublish] @ post"
            by (auto simp: authorize_def Let_def approval_check_def dest!: conclude_shape)
          moreover have "trim given = confirmation_phrase dest" using ok by (simp add: prompt_of_def)
          ultimately have "authorized_run w a hash style dest trace"
            using find_live [OF g1] find_live [OF g2] given
            by (auto simp: authorized_run_def Let_def)
          then show ?thesis using \<open>trace = _\<close> by simp
        qed
      qed
    qed
  qed
qed

lemma finish_records:
  "finish w a ctx e log trace = (res, log', trace') \<Longrightarrow> WroteOutcome r \<in> set trace' \<Longrightarrow>
     WroteOutcome r \<notin> set trace \<Longrightarrow> res = Inl e \<and> r = failure_record w ctx e"
  by (auto simp: finish_def Let_def split: prod.splits sum.splits)

lemma outcome_of_not_success: "outcome_of e \<noteq> Success"
proof -
  have "publish_outcome_of p \<noteq> Success" for p :: "('a, 'b) publish_error" by (induction p) auto
  then show ?thesis by (cases e rule: outcome_of.cases) auto
qed

definition recorded_as :: "('g, 's) boundary_error + publish_outcome \<Rightarrow> outcome_record \<Rightarrow> bool" where
  "recorded_as res r \<longleftrightarrow>
     (case res of
        Inl e \<Rightarrow> ou_outcome r = outcome_of e \<and> ou_outcome r \<noteq> Success \<and> ou_error_kind r = Some (error_kind e) \<and>
          ou_operation_digest r = None \<and> ou_rows r = None
      | Inr out \<Rightarrow> ou_outcome r = Success \<and> ou_error_kind r = None \<and>
          ou_operation_digest r = Some (po_operation_digest out) \<and> ou_rows r = Some (po_rows out))"

lemma failure_recorded_as: "recorded_as (Inl e) (failure_record w ctx e)"
  using outcome_of_not_success [of e] by (simp add: recorded_as_def failure_record_def)

lemma conclude_records:
  assumes "conclude w a ctx log trace = (res, log', trace')" "WroteOutcome r \<in> set trace'"
    "WroteOutcome r \<notin> set trace"
  shows "recorded_as res r"
proof (cases "sr_publish w")
  case (Inl e)
  then have "res = Inl (PublishFailure e) \<and> r = failure_record w ctx (PublishFailure e)"
    using assms finish_records [of w a ctx "PublishFailure e" log "trace @ [RanPublish]"]
    by (simp add: conclude_def)
  then show ?thesis using failure_recorded_as by simp
next
  case (Inr out)
  then show ?thesis using assms
    by (auto simp: conclude_def Let_def recorded_as_def success_record_def split: prod.splits sum.splits)
qed

lemma authorize_records:
  assumes "authorize w a hash style dest log = (res, log', trace)" "WroteOutcome r \<in> set trace"
  shows "recorded_as res r"
  using assms
  by (auto simp: authorize_def Let_def failure_recorded_as split: sum.splits
      dest!: finish_records conclude_records)

text \<open>A run that succeeds has passed through \<open>conclude\<close> with the grant found after the approval.\<close>

definition noted :: "('g, 's) surroundings \<Rightarrow> publish_grant \<Rightarrow> outcome_context" where
  "noted w g =
     \<lparr>cx_attempt_id = sr_random_suffix w,
      cx_grantor_kind = Some (principal_kind_as_str (principal_kind (granted_by g))),
      cx_grantor_name = Some (principal_id (granted_by g)),
      cx_grant_lifetime_s = Some (as_secs (lifetime g)),
      cx_grant_remaining_s = Some (as_secs (remaining g (sr_now_second w))),
      cx_approval_route = Some (sr_route w)\<rparr>"

lemma authorize_concludes:
  assumes "authorize w a hash style dest log = (Inr out, log', trace)"
  shows "\<exists>tr g. conclude w a (noted w g) log tr = (Inr out, log', trace) \<and> FoundGrant (sr_now_second w) g \<in> set tr"
  using assms
  by (auto simp: authorize_def Let_def note_grant_def noted_def split: sum.splits dest!: finish_shape)
    fastforce+

lemma conclude_succeeds:
  assumes "conclude w a ctx log tr = (Inr out, log', trace)"
  shows "append_outcome (sr_host w) (pa_audit a) (success_record w ctx out) (sr_io_outcome w) log = (Inr (), log') \<and>
    trace = tr @ [RanPublish, WroteOutcome (success_record w ctx out)]"
  using assms by (auto simp: conclude_def Let_def split: sum.splits prod.splits dest!: finish_shape)

lemma success_record_noted:
  "success_record w (noted w g) out =
     \<lparr>ou_attempt = sr_random_suffix w, ou_at = sr_clock_outcome w, ou_outcome = Success,
      ou_error_kind = None,
      ou_grantor_kind = Some (principal_kind_as_str (principal_kind (granted_by g))),
      ou_grantor_name = Some (principal_id (granted_by g)),
      ou_grant_lifetime_s = Some (as_secs (lifetime g)),
      ou_grant_remaining_s = Some (as_secs (remaining g (sr_now_second w))),
      ou_approval_route = Some (sr_route w),
      ou_operation_digest = Some (po_operation_digest out),
      ou_manifest_hash = manifest_hash w (po_bundle_path out),
      ou_rows = Some (po_rows out), ou_partitions = Some (po_partitions out)\<rparr>"
  by (simp add: success_record_def noted_def)

section \<open>Properties\<close>

text \<open>
  C1: The boundary's central promise. If a run executes the publish operation, then the destination was
  resolved and the audit log is not inside it, the intent was written to the log first, a grant held
  by the attempt covered exactly this dataset, content and destination and was live both when it was
  first looked up and again after the approval, and the approval given names the destination; and the
  effects happened in that order. A run that does not execute the operation ends in an error.
\<close>
theorem publish_runs_only_when_authorized:
  "case execute w a log of (res, log', trace) \<Rightarrow>
     if RanPublish \<in> set trace then
       \<exists>hash style dest log1.
         sr_preflight w = Inr (hash, style) \<and>
         resolve_destination (sr_canonicalize w) (pa_destination a) = Inr dest \<and>
         \<not> is_inside (h_windows (sr_host w)) (pa_audit a) dest \<and>
         append_intent (sr_host w) (pa_audit a) (intent_of w a hash style dest) (sr_io_intent w) log = (Inr (), log1) \<and>
         authorized_run w a hash style dest trace
     else \<exists>e. res = Inl e"
proof (cases "execute w a log")
  case (fields res log' trace)
  show ?thesis
  proof (cases "trace = []")
    case True
    then show ?thesis using fields authorize_runs
      by (fastforce simp: execute_def authorized_run_def Let_def split: sum.splits prod.splits if_splits)
  next
    case False
    with fields obtain hash style dest log1 where
      *: "sr_preflight w = Inr (hash, style)" "resolve_destination (sr_canonicalize w) (pa_destination a) = Inr dest"
        "\<not> is_inside (h_windows (sr_host w)) (pa_audit a) dest"
        "append_intent (sr_host w) (pa_audit a) (intent_of w a hash style dest) (sr_io_intent w) log = (Inr (), log1)"
        "authorize w a hash style dest log1 = (res, log', trace)"
      by (auto simp: execute_def split: sum.splits prod.splits if_splits)
    from authorize_runs [OF *(5)] * fields show ?thesis by auto
  qed
qed

text \<open>
  C2: The log only grows over a whole run, and a publish that is reported as successful is on record: the
  log then ends with exactly two lines, both one line each and free of credentials. The first is the
  intent record of this attempt, made of the hash and style the preflight found and the destination the
  path resolved to; the second is the success record of this attempt, naming the published bundle's
  operation digest, manifest hash, rows and partitions and the grantor of the grant found after the approval.
\<close>
theorem successful_publish_is_recorded:
  "case execute w a log of (res, log', trace) \<Rightarrow>
     (\<exists>x. log' = log @ x) \<and>
     (case res of
        Inl e \<Rightarrow> True
      | Inr out \<Rightarrow> \<exists>hash style dest g intent_line residual0 outcome_line r residual.
          log' = log @ intent_line @ [CHR 0x0A] @ outcome_line @ [CHR 0x0A] \<and>
          CHR 0x0A \<notin> set intent_line \<and> CHR 0x0A \<notin> set outcome_line \<and>
          credential_free (sr_host w) intent_line \<and> credential_free (sr_host w) outcome_line \<and>
          sr_preflight w = Inr (hash, style) \<and>
          resolve_destination (sr_canonicalize w) (pa_destination a) = Inr dest \<and>
          render_line (intent_to_json (intent_of w a hash style dest)) residual0 = Inr intent_line \<and>
          render_line (outcome_to_json r) residual = Inr outcome_line \<and>
          last trace = WroteOutcome r \<and> FoundGrant (sr_now_second w) g \<in> set trace \<and>
          r = \<lparr>ou_attempt = sr_random_suffix w, ou_at = sr_clock_outcome w, ou_outcome = Success,
               ou_error_kind = None,
               ou_grantor_kind = Some (principal_kind_as_str (principal_kind (granted_by g))),
               ou_grantor_name = Some (principal_id (granted_by g)),
               ou_grant_lifetime_s = Some (as_secs (lifetime g)),
               ou_grant_remaining_s = Some (as_secs (remaining g (sr_now_second w))),
               ou_approval_route = Some (sr_route w),
               ou_operation_digest = Some (po_operation_digest out),
               ou_manifest_hash = manifest_hash w (po_bundle_path out),
               ou_rows = Some (po_rows out), ou_partitions = Some (po_partitions out)\<rparr>)"
proof (cases "execute w a log")
  case (fields res log' trace)
  have grows: "\<exists>x. log' = log @ x"
    using fields by (fastforce simp: execute_def split: sum.splits prod.splits if_splits
        dest: append_intent_grows authorize_grows)
  show ?thesis
  proof (cases res)
    case (Inl e)
    then show ?thesis using fields grows by simp
  next
    case (Inr out)
    from fields Inr obtain hash style dest log1 where
      w: "sr_preflight w = Inr (hash, style)" "resolve_destination (sr_canonicalize w) (pa_destination a) = Inr dest"
      and i: "append_intent (sr_host w) (pa_audit a) (intent_of w a hash style dest) (sr_io_intent w) log = (Inr (), log1)"
      and z: "authorize w a hash style dest log1 = (Inr out, log', trace)"
      by (auto simp: execute_def split: sum.splits prod.splits if_splits)
    from authorize_concludes [OF z] obtain tr g where
      c: "conclude w a (noted w g) log1 tr = (Inr out, log', trace)"
      and g: "FoundGrant (sr_now_second w) g \<in> set tr" by blast
    define r where "r = success_record w (noted w g) out"
    from conclude_succeeds [OF c] have
      o': "append_outcome (sr_host w) (pa_audit a) r (sr_io_outcome w) log1 = (Inr (), log')"
      and t: "trace = tr @ [RanPublish, WroteOutcome r]"
      by (simp_all add: r_def)
    from log_append_ok [OF i [unfolded append_intent_def]] obtain l1 residual0 where
      l1: "log1 = log @ l1 @ [CHR 0x0A]" "CHR 0x0A \<notin> set l1" "credential_free (sr_host w) l1"
        "render_line (intent_to_json (intent_of w a hash style dest)) residual0 = Inr l1" by blast
    from log_append_ok [OF o' [unfolded append_outcome_def]] obtain l2 residual where
      l2: "log' = log1 @ l2 @ [CHR 0x0A]" "CHR 0x0A \<notin> set l2" "credential_free (sr_host w) l2"
        "render_line (outcome_to_json r) residual = Inr l2" by blast
    have "last trace = WroteOutcome r" "FoundGrant (sr_now_second w) g \<in> set trace"
      using t g by simp_all
    moreover have "log' = log @ l1 @ [CHR 0x0A] @ l2 @ [CHR 0x0A]" using l1 l2 by simp
    moreover note r_def [unfolded success_record_noted]
    ultimately show ?thesis unfolding fields prod.case Inr sum.case
      using grows w l1(2-4) l2(2-4) by blast
  qed
qed

text \<open>
  C3: The verdict on record is the verdict returned. Whenever a run writes an outcome record, a success
  is recorded only for a run that returns the published bundle, with its digest and row count; a
  failure is recorded under the kind of the error returned and as refused, cancelled or failed exactly
  as the error is classified, a cancelled operation staying cancelled even when its staging directory
  could not be removed.
\<close>
theorem recorded_verdict_is_the_returned_one:
  "(case execute w a log of (res, log', trace) \<Rightarrow>
      list_all (\<lambda>x. case x of WroteOutcome r \<Rightarrow> recorded_as res r | _ \<Rightarrow> True) trace) \<and>
   publish_outcome_of (StagingNotRemoved PublishCancelled p d) = Cancelled"
proof (cases "execute w a log")
  case (fields res log' trace)
  have "WroteOutcome r \<in> set trace \<Longrightarrow> recorded_as res r" for r
    using fields authorize_records [where r = r]
    by (fastforce simp: execute_def split: sum.splits prod.splits if_splits)
  then show ?thesis using fields by (auto simp: list_all_iff split: effect.splits)
qed

text \<open>
  An approval is exactly the destination's own name, up to white space around the answer; so a
  destination whose name ends in white space can be approved by no answer at all.
\<close>
theorem approval_names_the_destination:
  "(approval_check prompt given = Inr () \<longleftrightarrow> trim given = pr_confirmation_phrase prompt) \<and>
   (ws_len_end (pr_confirmation_phrase prompt) = 0 \<or> approval_check prompt given = Inl (ApprovalRefused NotMatched (pr_confirmation_phrase prompt)))"
  using trim_no_trailing_ws [of given] by (auto simp: approval_check_def)

end
