(* ===== verification/Clock.thy ===== *)
theory Clock
  imports Rust_Str
begin

text \<open>
  \<open>kernel/src/permission/audit/clock.rs\<close>: RFC 3339 UTC timestamps from Unix seconds by the
  days-to-civil algorithm. Its correctness is stated against the calendar itself: the epoch is 1970-01-01
  and the next day number has the next date of the proleptic Gregorian calendar.
\<close>

section \<open>The code\<close>

definition civil_from_days :: "int \<Rightarrow> int \<times> int \<times> int" where
  "civil_from_days days =
     (let z = days + 719468;
          era = z div 146097;
          doe = z mod 146097;
          yoe = (doe - doe div 1460 + doe div 36524 - doe div 146096) div 365;
          y = yoe + era * 400;
          doy = doe - (365 * yoe + yoe div 4 - yoe div 100);
          mp = (5 * doy + 2) div 153;
          day = doy - (153 * mp + 2) div 5 + 1;
          month = (if mp < 10 then mp + 3 else mp - 9);
          year = (if month \<le> 2 then y + 1 else y)
      in (year, month, day))"

definition rfc3339_utc :: "int \<Rightarrow> string" where
  "rfc3339_utc unix_seconds =
     (let days = unix_seconds div 86400;
          tod = unix_seconds mod 86400;
          (year, month, day) = civil_from_days days
      in show_int0 4 year @ ''-'' @ show_int0 2 month @ ''-'' @ show_int0 2 day @ ''T'' @
         show_int0 2 (tod div 3600) @ '':'' @ show_int0 2 (tod mod 3600 div 60) @ '':'' @
         show_int0 2 (tod mod 60) @ ''Z'')"

text \<open>\<open>now\<close> is the clock's distance from the epoch, \<open>None\<close> when it is set before it.\<close>

definition rfc3339_utc_now :: "nat option \<Rightarrow> string" where
  "rfc3339_utc_now now = rfc3339_utc (case now of None \<Rightarrow> 0 | Some s \<Rightarrow> int s)"

section \<open>The calendar\<close>

definition leap :: "int \<Rightarrow> bool" where
  "leap y \<longleftrightarrow> 4 dvd y \<and> (\<not> 100 dvd y \<or> 400 dvd y)"

definition month_days :: "int \<Rightarrow> int \<Rightarrow> int" where
  "month_days y m =
     (if m = 2 then (if leap y then 29 else 28)
      else if m \<in> {4, 6, 9, 11} then 30 else 31)"

definition valid_date :: "int \<times> int \<times> int \<Rightarrow> bool" where
  "valid_date = (\<lambda>(y, m, d). 1 \<le> m \<and> m \<le> 12 \<and> 1 \<le> d \<and> d \<le> month_days y m)"

definition next_date :: "int \<times> int \<times> int \<Rightarrow> int \<times> int \<times> int" where
  "next_date = (\<lambda>(y, m, d).
     if d < month_days y m then (y, m, d + 1)
     else if m < 12 then (y, m + 1, 1) else (y + 1, 1, 1))"

section \<open>The inverse\<close>

text \<open>Days before year \<open>y\<close> of an era, in years that begin in March.\<close>

definition yoe_start :: "int \<Rightarrow> int" where
  "yoe_start y = 365 * y + y div 4 - y div 100"

definition yoe_of :: "int \<Rightarrow> int" where
  "yoe_of doe = (doe - doe div 1460 + doe div 36524 - doe div 146096) div 365"

definition mp_start :: "int \<Rightarrow> int" where
  "mp_start mp = (153 * mp + 2) div 5"

definition days_from_civil :: "int \<times> int \<times> int \<Rightarrow> int" where
  "days_from_civil = (\<lambda>(y, m, d).
     let y' = (if m \<le> 2 then y - 1 else y); mp = (if m \<le> 2 then m + 9 else m - 3)
     in y' div 400 * 146097 + yoe_start (y' mod 400) + mp_start mp + d - 1 - 719468)"

lemma div_plus_one:
  fixes n c :: int
  assumes c: "0 < c"
  shows "(n + 1) div c = n div c + (if c dvd n + 1 then 1 else 0)"
proof (cases "n mod c + 1 = c")
  case True
  have e: "n + 1 = c * (n div c + 1) + 0"
    unfolding distrib_left using True mult_div_mod_eq [of c n] by linarith
  then have "c dvd n + 1" by (metis add_0_right dvd_triv_left)
  moreover have "(n + 1) div c = n div c + 1" by (rule int_div_pos_eq [OF e]) (use c in auto)
  ultimately show ?thesis by simp
next
  case False
  have r: "0 \<le> n mod c" "n mod c < c" using c by auto
  have e: "n + 1 = c * (n div c) + (n mod c + 1)" using div_mult_mod_eq [of n c] by (simp add: algebra_simps)
  have d: "(n + 1) div c = n div c" by (rule int_div_pos_eq [OF e]) (use r False in auto)
  have "(n + 1) mod c = n mod c + 1" by (rule int_mod_pos_eq [OF e]) (use r False in auto)
  then have "\<not> c dvd n + 1" using r by (simp add: dvd_eq_mod_eq_0)
  with d show ?thesis by simp
qed

lemma yoe_num_mono:
  fixes a b :: int
  assumes "0 \<le> a" "a \<le> b"
  shows "a - a div 1460 + a div 36524 - a div 146096 \<le> b - b div 1460 + b div 36524 - b div 146096"
proof -
  let ?f = "\<lambda>n::int. n - n div 1460 + n div 36524 - n div 146096"
  have "(146096 :: int) dvd m \<Longrightarrow> 36524 dvd m" for m by (erule dvd_trans [rotated]) simp
  then have step: "?f n \<le> ?f (n + 1)" for n by (simp add: div_plus_one)
  have "?f a \<le> ?f (a + int k)" for k
  proof (induction k)
    case (Suc k)
    have "?f (a + int k) \<le> ?f (a + int k + 1)" by (rule step)
    with Suc show ?case by (simp only: of_nat_Suc ac_simps)
  qed simp
  from this [of "nat (b - a)"] show ?thesis using assms by simp
qed

text \<open>The year formula at the first and last day of each of the 400 years of an era.\<close>

definition yoe_ends_ok :: "int \<Rightarrow> bool" where
  "yoe_ends_ok y \<longleftrightarrow> yoe_of (yoe_start y) = y \<and>
     yoe_of ((if y = 399 then 146097 else yoe_start (y + 1)) - 1) = y"

lemma yoe_table: "list_all yoe_ends_ok [0..399]"
  by code_simp

lemma yoe_of_between:
  assumes y: "0 \<le> y" "y \<le> 399" and d: "yoe_start y \<le> doe" "doe < (if y = 399 then 146097 else yoe_start (y + 1))"
  shows "yoe_of doe = y"
proof -
  have t: "yoe_ends_ok y" using yoe_table y by (simp add: list_all_iff)
  have pos: "0 \<le> yoe_start y" using y by (simp add: yoe_start_def)
  have "yoe_of (yoe_start y) \<le> yoe_of doe"
    unfolding yoe_of_def by (intro zdiv_mono1 yoe_num_mono) (use pos d in auto)
  moreover have "yoe_of doe \<le> yoe_of ((if y = 399 then 146097 else yoe_start (y + 1)) - 1)"
    unfolding yoe_of_def by (intro zdiv_mono1 yoe_num_mono) (use pos d in auto)
  ultimately show ?thesis using t by (simp add: yoe_ends_ok_def)
qed

text \<open>The length of a March-based year is decided by the leap rule of the next calendar year.\<close>

lemma year_end:
  assumes y: "0 \<le> yoe" "yoe \<le> 399"
  shows "(if yoe = 399 then 146097 else yoe_start (yoe + 1)) =
    yoe_start yoe + (if leap (400 * era + yoe + 1) then 366 else 365)"
proof -
  have shift: "c dvd 400 * era + yoe + 1 \<longleftrightarrow> c dvd yoe + 1" if "c dvd 400" for c :: int
    using that dvd_add_right_iff [of c "400 * era" "yoe + 1"] by (simp add: add.assoc)
  have four: "4 dvd 400 * era + yoe + 1 \<longleftrightarrow> 4 dvd yoe + 1"
    and hundred: "100 dvd 400 * era + yoe + 1 \<longleftrightarrow> 100 dvd yoe + 1"
    and fourh: "400 dvd 400 * era + yoe + 1 \<longleftrightarrow> 400 dvd yoe + 1"
    by (rule shift, simp)+
  show ?thesis
  proof (cases "yoe = 399")
    case True
    then show ?thesis by (simp add: leap_def four hundred fourh yoe_start_def)
  next
    case False
    then have "\<not> 400 dvd yoe + 1" using y by (auto dest: zdvd_imp_le)
    moreover have "100 dvd yoe + 1 \<Longrightarrow> 4 dvd yoe + 1" by (erule dvd_trans [rotated]) simp
    ultimately show ?thesis using False
      by (simp add: leap_def four hundred fourh yoe_start_def div_plus_one)
  qed
qed

text \<open>The month formula at the first and last day of each month.\<close>

definition mp_ends_ok :: "int \<Rightarrow> bool" where
  "mp_ends_ok mp \<longleftrightarrow> (5 * mp_start mp + 2) div 153 = mp \<and>
     (5 * ((if mp = 11 then 366 else mp_start (mp + 1)) - 1) + 2) div 153 = mp"

lemma mp_table: "list_all mp_ends_ok [0..11]"
  by code_simp

lemma month_table:
  assumes "0 \<le> mp" "mp \<le> 11" "mp_start mp \<le> doy" "doy < (if mp = 11 then 366 else mp_start (mp + 1))"
  shows "(5 * doy + 2) div 153 = mp"
proof -
  have t: "mp_ends_ok mp" using mp_table assms by (simp add: list_all_iff)
  have "(5 * mp_start mp + 2) div 153 \<le> (5 * doy + 2) div 153"
    by (rule zdiv_mono1) (use assms in auto)
  moreover have "(5 * doy + 2) div 153 \<le> (5 * ((if mp = 11 then 366 else mp_start (mp + 1)) - 1) + 2) div 153"
    by (rule zdiv_mono1) (use assms in auto)
  ultimately show ?thesis using t by (simp add: mp_ends_ok_def)
qed

definition mp_of :: "int \<Rightarrow> int" where
  "mp_of m = (if m \<le> 2 then m + 9 else m - 3)"

lemma month_days_mp:
  assumes "1 \<le> m" "m \<le> 12" "m \<noteq> 2"
  shows "month_days y m = mp_start (mp_of m + 1) - mp_start (mp_of m)"
proof -
  have "m \<in> {1..12}" using assms by simp
  also have "{1..12} = {1, 2, 3, 4, 5, 6, 7, 8, 9, 10, 11, 12 :: int}" by (simp add: set_eq_iff) presburger
  finally show ?thesis using assms(3)
    by (elim insertE emptyE) (simp_all add: mp_start_def mp_of_def month_days_def)
qed

lemma civil_days_inverse:
  assumes v: "valid_date (y, m, d)"
  shows "civil_from_days (days_from_civil (y, m, d)) = (y, m, d)"
proof -
  define y' where "y' = (if m \<le> 2 then y - 1 else y)"
  define era yoe mp doy where defs: "era = y' div 400" "yoe = y' mod 400" "mp = mp_of m"
    "doy = mp_start mp + d - 1"
  have y': "y' = 400 * era + yoe" "0 \<le> yoe" "yoe \<le> 399" by (simp_all add: defs)
  have m: "1 \<le> m" "m \<le> 12" and d: "1 \<le> d" "d \<le> month_days y m" using v by (auto simp: valid_date_def)
  have mp: "0 \<le> mp" "mp \<le> 11" "mp = 11 \<longleftrightarrow> m = 2" using m by (auto simp: defs mp_of_def)
  have feb: "m = 2 \<Longrightarrow> y = 400 * era + yoe + 1" using y'(1) by (simp add: y'_def)
  have le: "doy < (if mp = 11 then (if leap (400 * era + yoe + 1) then 366 else 365) else mp_start (mp + 1))"
  proof (cases "m = 2")
    case True
    then show ?thesis using d(2) feb mp(3)
      by (simp add: defs(4) month_days_def mp_start_def split: if_splits)
  next
    case False
    then show ?thesis using d(2) month_days_mp [OF m False, of y] mp(3) by (simp add: defs(3,4))
  qed
  have mo: "(5 * doy + 2) div 153 = mp"
    by (rule month_table) (use mp le d in \<open>auto simp: defs(4) split: if_splits\<close>)
  have top: "doy < (if leap (400 * era + yoe + 1) then 366 else 365)"
  proof (cases "mp = 11")
    case False
    then have "mp_start (mp + 1) \<le> mp_start 11" unfolding mp_start_def using mp by (intro zdiv_mono1) auto
    with le False show ?thesis by (auto simp: mp_start_def)
  qed (use le in simp)
  have doy0: "0 \<le> doy" using d mp by (simp add: defs(4) mp_start_def)
  define doe where "doe = yoe_start yoe + doy"
  have start0: "0 \<le> yoe_start yoe" using y' by (simp add: yoe_start_def)
  have yo: "yoe_of doe = yoe"
    by (rule yoe_of_between) (use y' year_end [of yoe era] top doy0 in \<open>auto simp: doe_def\<close>)
  have "doe < 146097"
  proof (cases "yoe = 399")
    case True
    then show ?thesis using year_end [OF y'(2,3), of era] top by (simp add: doe_def)
  next
    case False
    have "(yoe + 1) div 4 \<le> 399 div 4" "0 \<le> (yoe + 1) div 100"
      using y' False by (auto intro: zdiv_mono1 simp: pos_imp_zdiv_nonneg_iff)
    then have "yoe_start (yoe + 1) \<le> 146097" using y' False by (simp add: yoe_start_def)
    then show ?thesis using False year_end [OF y'(2,3), of era] top by (simp add: doe_def)
  qed
  moreover have dz: "days_from_civil (y, m, d) + 719468 = 146097 * era + doe"
    by (simp add: days_from_civil_def Let_def y'_def [symmetric] defs mp_of_def doe_def)
  ultimately have z: "(days_from_civil (y, m, d) + 719468) div 146097 = era"
    "(days_from_civil (y, m, d) + 719468) mod 146097 = doe"
    using doy0 start0 by (auto intro!: int_div_pos_eq [OF dz] int_mod_pos_eq [OF dz] simp: doe_def)
  show ?thesis
    unfolding civil_from_days_def Let_def z yo [unfolded yoe_of_def]
    using mo y' m by (auto simp: doe_def yoe_start_def defs(3,4) mp_of_def mp_start_def y'_def split: if_splits)
qed

lemma month_days_pos: "1 \<le> month_days y m"
  by (simp add: month_days_def)

lemma valid_next: "valid_date x \<Longrightarrow> valid_date (next_date x)"
  using month_days_pos by (auto simp: valid_date_def next_date_def split: prod.splits if_splits)

lemma mp_start_Suc_sum: "m < 12 \<Longrightarrow> 1 \<le> m \<Longrightarrow> m \<noteq> 2 \<Longrightarrow> mp_of (m + 1) = mp_of m + 1"
  by (simp add: mp_of_def)

lemma days_next:
  assumes v: "valid_date (y, m, d)"
  shows "days_from_civil (next_date (y, m, d)) = days_from_civil (y, m, d) + 1"
proof (cases "d < month_days y m")
  case True
  then show ?thesis by (simp add: next_date_def days_from_civil_def Let_def)
next
  case False
  with v have m: "1 \<le> m" "m \<le> 12" and d: "d = month_days y m" by (auto simp: valid_date_def)
  consider "m = 2" | "m = 12" | "m \<noteq> 2" "m < 12" using m by linarith
  then show ?thesis
  proof cases
    case 1
    define era yoe where "era = (y - 1) div 400" and "yoe = (y - 1) mod 400"
    have y: "y = 400 * era + yoe + 1" "0 \<le> yoe" "yoe \<le> 399" by (simp_all add: era_def yoe_def)
    have len: "(if yoe = 399 then 146097 else yoe_start (yoe + 1)) =
        yoe_start yoe + (if leap y then 366 else 365)" using year_end [OF y(2,3), of era] y(1) by simp
    have "y div 400 * 146097 + yoe_start (y mod 400) =
        era * 146097 + (if yoe = 399 then 146097 else yoe_start (yoe + 1))"
    proof (cases "yoe = 399")
      case True
      then have "y = 400 * (era + 1)" using y(1) by simp
      then show ?thesis using True by (simp add: yoe_start_def)
    next
      case False
      then have "y div 400 = era" "y mod 400 = yoe + 1" using y by (auto intro: int_div_pos_eq int_mod_pos_eq)
      then show ?thesis using False by simp
    qed
    with len 1 d show ?thesis
      by (simp add: next_date_def days_from_civil_def Let_def month_days_def mp_start_def
          era_def [symmetric] yoe_def [symmetric] split: if_splits)
  next
    case 2
    then show ?thesis using d by (simp add: next_date_def days_from_civil_def Let_def month_days_def mp_start_def)
  next
    case 3
    have "month_days y m = mp_start (mp_of m + 1) - mp_start (mp_of m)" using m 3 by (intro month_days_mp) auto
    with 3 m d show ?thesis
      by (simp add: next_date_def days_from_civil_def Let_def mp_of_def algebra_simps split: if_splits)
  qed
qed

lemma civil_from_base:
  "valid_date (civil_from_days (- 719468 - 146097 * int k + int n)) \<and>
   days_from_civil (civil_from_days (- 719468 - 146097 * int k + int n)) = - 719468 - 146097 * int k + int n"
proof (induction n)
  case 0
  have z: "- 719468 - 146097 * int k + int 0 + 719468 = 146097 * (- int k)" by simp
  have c: "civil_from_days (- 719468 - 146097 * int k + int 0) = (400 * (- int k), 3, 1)"
    unfolding civil_from_days_def Let_def z mod_mult_self1_is_0
    by (simp only: nonzero_mult_div_cancel_left) simp
  have "days_from_civil (400 * (- int k), 3, 1) = - 719468 - 146097 * int k + int 0"
    unfolding days_from_civil_def Let_def split mod_mult_self1_is_0
    by (simp add: yoe_start_def mp_start_def)
  then show ?case unfolding c by (simp add: valid_date_def month_days_def)
next
  case (Suc n)
  let ?n = "- 719468 - 146097 * int k + int n"
  obtain y m d where x: "civil_from_days ?n = (y, m, d)" by (metis prod.exhaust)
  have v: "valid_date (y, m, d)" and e: "days_from_civil (y, m, d) = ?n" using Suc x by auto
  have "days_from_civil (next_date (y, m, d)) = ?n + 1" using days_next [OF v] e by simp
  moreover have "civil_from_days (days_from_civil (next_date (y, m, d))) = next_date (y, m, d)"
    using civil_days_inverse [of "fst (next_date (y, m, d))" "fst (snd (next_date (y, m, d)))"
        "snd (snd (next_date (y, m, d)))"] valid_next [OF v] by simp
  moreover have "?n + 1 = - 719468 - 146097 * int k + int (Suc n)" by simp
  ultimately show ?case using valid_next [OF v] by metis
qed

lemma civil_days:
  "valid_date (civil_from_days n) \<and> days_from_civil (civil_from_days n) = n"
proof -
  define k where "k = nat (abs n)"
  have "0 \<le> n + 719468 + 146097 * int k" by (simp add: k_def)
  then obtain j where "int j = n + 719468 + 146097 * int k" using zero_le_imp_eq_int by metis
  then have "n = - 719468 - 146097 * int k + int j" by simp
  with civil_from_base [of k j] show ?thesis by metis
qed

section \<open>Properties\<close>

text \<open>
  C40: The audit clock's dates are right. Day 0 is 1970-01-01; every day number, before or after the
  epoch, gives a date that exists; and the following day number gives the following date, across month
  ends, leap days and centuries.
\<close>
theorem civil_from_days_follows_the_calendar:
  "civil_from_days 0 = (1970, 1, 1) \<and> valid_date (civil_from_days n) \<and>
   civil_from_days (n + 1) = next_date (civil_from_days n)"
proof (intro conjI)
  show "civil_from_days 0 = (1970, 1, 1)" by code_simp
  show v: "valid_date (civil_from_days n)" using civil_days by blast
  obtain y m d where x: "civil_from_days n = (y, m, d)" by (metis prod.exhaust)
  have "n + 1 = days_from_civil (next_date (y, m, d))" using days_next [of y m d] v civil_days [of n] x by simp
  then show "civil_from_days (n + 1) = next_date (civil_from_days n)"
    using civil_days_inverse [of "fst (next_date (y, m, d))" "fst (snd (next_date (y, m, d)))"
        "snd (snd (next_date (y, m, d)))"] valid_next [OF v] x by simp
qed

end
