(* ===== verification/Serde.thy ===== *)
theory Serde
  imports Canonical_Json
begin

text \<open>
  The parts of \<open>serde_json::Value\<close> and of Rust's \<open>Result\<close> that the components read. A number is
  \<open>JUInt\<close> for \<open>PosInt\<close>, \<open>JInt\<close> for \<open>NegInt\<close> (a negative integer) and \<open>JDouble\<close> for \<open>Float\<close>; an object lists
  its members in iteration order, each name once. \<open>bind_ok\<close> is the \<open>?\<close> operator.
\<close>

section \<open>Results\<close>

definition bind_ok :: "'e + 'a \<Rightarrow> ('a \<Rightarrow> 'e + 'b) \<Rightarrow> 'e + 'b" where
  "bind_ok r k = (case r of Inl e \<Rightarrow> Inl e | Inr x \<Rightarrow> k x)"

definition ok_or :: "'e \<Rightarrow> 'a option \<Rightarrow> 'e + 'a" where
  "ok_or e x = (case x of None \<Rightarrow> Inl e | Some y \<Rightarrow> Inr y)"

definition map_err :: "('e \<Rightarrow> 'f) \<Rightarrow> 'e + 'a \<Rightarrow> 'f + 'a" where
  "map_err f r = (case r of Inl e \<Rightarrow> Inl (f e) | Inr x \<Rightarrow> Inr x)"

lemma bind_ok_simps [simp]: "bind_ok (Inl e) k = Inl e" "bind_ok (Inr x) k = k x"
  by (simp_all add: bind_ok_def)

lemma bind_ok_cong [fundef_cong]:
  "r = r' \<Longrightarrow> (\<And>x. r' = Inr x \<Longrightarrow> k x = k' x) \<Longrightarrow> bind_ok r k = bind_ok r' k'"
  by (cases r') simp_all

lemma bind_ok_Inr_iff: "bind_ok r k = Inr y \<longleftrightarrow> (\<exists>x. r = Inr x \<and> k x = Inr y)"
  by (cases r) auto

lemma bind_ok_Inl_iff: "bind_ok r k = Inl e \<longleftrightarrow> r = Inl e \<or> (\<exists>x. r = Inr x \<and> k x = Inl e)"
  by (cases r) auto

lemma bind_ok_assoc: "bind_ok (bind_ok r f) g = bind_ok r (\<lambda>x. bind_ok (f x) g)"
  by (cases r) simp_all

lemma ok_or_simps [simp]: "ok_or e None = Inl e" "ok_or e (Some x) = Inr x"
  by (simp_all add: ok_or_def)

lemma ok_or_Inr_iff: "ok_or e x = Inr y \<longleftrightarrow> x = Some y"
  by (cases x) auto

lemma ok_or_Inl_iff: "ok_or e x = Inl d \<longleftrightarrow> x = None \<and> d = e"
  by (cases x) auto

lemma map_err_Inr_iff: "map_err f r = Inr y \<longleftrightarrow> r = Inr y"
  by (cases r) (auto simp: map_err_def)

lemmas result_iffs = bind_ok_Inr_iff ok_or_Inr_iff map_err_Inr_iff

section \<open>Values\<close>

definition jget :: "json \<Rightarrow> string \<Rightarrow> json option" where
  "jget v k = (case v of JObj ms \<Rightarrow> map_of ms k | _ \<Rightarrow> None)"

definition as_str :: "json \<Rightarrow> string option" where
  "as_str v = (case v of JStr s \<Rightarrow> Some s | _ \<Rightarrow> None)"

definition as_u64 :: "json \<Rightarrow> nat option" where
  "as_u64 v = (case v of JUInt n \<Rightarrow> Some n | _ \<Rightarrow> None)"

definition as_i64 :: "json \<Rightarrow> int option" where
  "as_i64 v =
     (case v of
        JUInt n \<Rightarrow> if n < 2 ^ 63 then Some (int n) else None
      | JInt i \<Rightarrow> Some i
      | _ \<Rightarrow> None)"

definition as_bool :: "json \<Rightarrow> bool option" where
  "as_bool v = (case v of JBool b \<Rightarrow> Some b | _ \<Rightarrow> None)"

definition as_array :: "json \<Rightarrow> json list option" where
  "as_array v = (case v of JArr xs \<Rightarrow> Some xs | _ \<Rightarrow> None)"

definition as_object :: "json \<Rightarrow> (string \<times> json) list option" where
  "as_object v = (case v of JObj ms \<Rightarrow> Some ms | _ \<Rightarrow> None)"

definition is_null :: "json \<Rightarrow> bool" where
  "is_null v \<longleftrightarrow> v = JNull"

definition get_str :: "json \<Rightarrow> string \<Rightarrow> string option" where
  "get_str v k = Option.bind (jget v k) as_str"

definition get_bool :: "json \<Rightarrow> string \<Rightarrow> bool option" where
  "get_bool v k = Option.bind (jget v k) as_bool"

definition get_u64 :: "json \<Rightarrow> string \<Rightarrow> nat option" where
  "get_u64 v k = Option.bind (jget v k) as_u64"

definition get_i64 :: "json \<Rightarrow> string \<Rightarrow> int option" where
  "get_i64 v k = Option.bind (jget v k) as_i64"

definition get_array :: "json \<Rightarrow> string \<Rightarrow> json list option" where
  "get_array v k = Option.bind (jget v k) as_array"

definition unwrap_or :: "'a option \<Rightarrow> 'a \<Rightarrow> 'a" where
  "unwrap_or x d = (case x of None \<Rightarrow> d | Some y \<Rightarrow> y)"

lemma unwrap_or_simps [simp]: "unwrap_or None d = d" "unwrap_or (Some x) d = x"
  by (simp_all add: unwrap_or_def)

text \<open>\<open>Value == Value\<close>: doubles compare as doubles, everything else structurally.\<close>

fun value_eq :: "json \<Rightarrow> json \<Rightarrow> bool"
and values_eq :: "json list \<Rightarrow> json list \<Rightarrow> bool"
and members_eq :: "(string \<times> json) list \<Rightarrow> (string \<times> json) list \<Rightarrow> bool" where
  "value_eq (JDouble x) (JDouble y) = f64_eq x y"
| "value_eq (JArr xs) (JArr ys) = values_eq xs ys"
| "value_eq (JObj xs) (JObj ys) = members_eq xs ys"
| "value_eq v w = (v = w)"
| "values_eq [] [] = True"
| "values_eq (v # vs) (w # ws) = (value_eq v w \<and> values_eq vs ws)"
| "values_eq _ _ = False"
| "members_eq [] [] = True"
| "members_eq ((k, v) # ms) ((l, w) # ns) = (k = l \<and> value_eq v w \<and> members_eq ms ns)"
| "members_eq _ _ = False"

lemma values_eq_list_all2: "values_eq vs ws = list_all2 value_eq vs ws"
  by (induction vs arbitrary: ws; case_tac ws) auto

section \<open>Members are smaller than their object\<close>

lemma jget_size: "jget v k = Some w \<Longrightarrow> size w < size v"
proof -
  have "map_of ms k = Some w \<Longrightarrow> size w < size_list (size_prod (\<lambda>_. 0) size) ms + 1" for ms
    by (induction ms) (auto split: if_splits)
  then show "jget v k = Some w \<Longrightarrow> size w < size v"
    by (cases v) (auto simp: jget_def less_Suc_eq_le)
qed

lemma get_array_size:
  assumes "get_array v k = Some xs"
  shows "size_list size xs < size v"
proof -
  obtain w where w: "jget v k = Some w" "as_array w = Some xs"
    using assms by (auto simp: get_array_def bind_eq_Some_conv)
  then have "w = JArr xs" by (simp add: as_array_def split: json.splits)
  then show ?thesis using jget_size [OF w(1)] by simp
qed

end
