(* ===== verification/Audit_Reader.thy ===== *)
theory Audit_Reader
  imports Boundary Serde
begin

text \<open>
  \<open>kernel/src/permission/audit/reader.rs\<close>: the reader that turns the audit log into sentences, pairing
  intents with outcomes by attempt. \<open>serde_json\<close>'s parser is a parameter, from a line to an error text
  or a JSON value whose objects have each member once.
\<close>

section \<open>Fields\<close>

record reader_intent =
  ri_at :: string
  ri_destination :: string

record reader_outcome =
  ro_at :: string
  ro_outcome :: string
  ro_error_kind :: "string option"
  ro_approval_route :: "string option"
  ro_rows :: "nat option"
  ro_partitions :: "nat option"

definition intent_from_json :: "json \<Rightarrow> reader_intent option" where
  "intent_from_json v =
     (case get_str v ''at'' of
        None \<Rightarrow> None
      | Some at \<Rightarrow>
        (case get_str v ''destination'' of
           None \<Rightarrow> None
         | Some d \<Rightarrow> Some \<lparr>ri_at = at, ri_destination = d\<rparr>))"

definition outcome_from_json :: "json \<Rightarrow> reader_outcome option" where
  "outcome_from_json v =
     (case get_str v ''at'' of
        None \<Rightarrow> None
      | Some at \<Rightarrow>
        (case get_str v ''outcome'' of
           None \<Rightarrow> None
         | Some out \<Rightarrow>
             Some \<lparr>ro_at = at, ro_outcome = out, ro_error_kind = get_str v ''error_kind'',
                   ro_approval_route =
                     Option.bind (case jget v ''approval_route'' of Some x \<Rightarrow> Some x | None \<Rightarrow> jget v ''approval'') as_str,
                   ro_rows = Option.bind (jget v ''rows'') as_u64,
                   ro_partitions = Option.bind (jget v ''partitions'') as_u64\<rparr>))"

section \<open>Sentences\<close>

definition describe :: "string option \<Rightarrow> string" where
  "describe s = (case s of Some s \<Rightarrow> ''`'' @ s @ ''`'' | None \<Rightarrow> ''absent'')"

definition plain_date :: "string \<Rightarrow> string" where
  "plain_date at =
     (if is_char_boundary at 16 \<and> 10 < length at \<and> at ! 10 = CHR ''T''
      then take 10 at @ '' '' @ take 5 (drop 11 at)
      else at)"

definition plain_route :: "string \<Rightarrow> string" where
  "plain_route route =
     (if route = ''shell-dialog'' then ''shell dialog''
      else if route = ''interactive'' then ''an interactive prompt''
      else if route = ''flag'' then ''the --approve flag''
      else route)"

definition plain_reason :: "string \<Rightarrow> string" where
  "plain_reason kind =
     (if kind = ''NoGrant'' then
         ''no grant authorized this publish''
      else if kind = ''GrantScopeMismatch'' then
         ''the grant did not cover this operation''
      else if kind = ''GrantExpired'' then
         ''the matching grant had expired''
      else if kind = ''GrantCeilingExceeded'' then
         ''the declared grant ceiling was reached''
      else if kind = ''GrantLifetimeExceeded'' then
         ''the requested grant lifetime exceeded the declared ceiling''
      else if kind = ''DestinationUnresolvable'' then
         ''the destination could not be resolved''
      else if kind = ''ApprovalRefused'' then
         ''the confirmation did not match the destination (wrong phrase, or none given)''
      else if kind = ''ApprovalUnavailable'' then
         ''the approval channel failed (not an operator decision)''
      else if kind = ''AuditUnwritable'' then
         ''the audit log itself could not be written''
      else if kind = ''AuditLogInsideDestination'' then
         ''the audit log path resolved inside the destination''
      else if kind = ''AuditRotationFailed'' then
         ''the audit log could not be rotated''
      else if kind = ''AuditControlCharacterInField'' then
         ''a record field contained a control character''
      else if kind = ''AuditCredentialInRecord'' then
         ''a credential was found in the record and refused''
      else if kind = ''AuditCanonical'' then
         ''the record could not be serialized''
      else if kind = ''DestinationExists'' then
         ''the destination already exists''
      else if kind = ''DestinationNotWritable'' then
         ''the destination was not writable''
      else if kind = ''InsufficientSpace'' then
         ''there was not enough disk space''
      else if kind = ''Io'' then
         ''an I/O error occurred''
      else if kind = ''SourceNotPinned'' then
         ''the source was not content-pinned before publishing''
      else if kind = ''LicenseNotCarryable'' then
         ''the source'' @ [CHR 0x27] @ ''s license could not be carried forward''
      else if kind = ''LicenseDeclaredTwice'' then
         ''a license was declared twice''
      else if kind = ''OperatorLicenseEmpty'' then
         ''an empty operator license was declared''
      else if kind = ''ViewerAssetPathRejected'' then
         ''a viewer asset path was rejected''
      else if kind = ''ViewerLicenseIncomplete'' then
         ''the viewer license was incomplete''
      else if kind = ''ViewerLicenseNoticeMissing'' then
         ''the viewer'' @ [CHR 0x27] @ ''s own notice file was missing''
      else if kind = ''CorrespondingSourceNotDurable'' then
         ''the corresponding-source route was not durable''
      else if kind = ''DatasetNameRejected'' then
         ''the dataset name was rejected''
      else if kind = ''RowFilterNotRecordable'' then
         ''the active row filter cannot be recorded in this bundle format''
      else if kind = ''GeographicCrsNotPublishable'' then
         ''the dataset'' @ [CHR 0x27] @ ''s coordinates are in degrees, which the bundled '' @
         ''viewer cannot render''
      else if kind = ''CeilingExceeded'' then
         ''a declared ceiling was exceeded''
      else if kind = ''RedactionFinding'' then
         ''the redaction scan found a local filesystem path, user name, machine identifier or '' @
         ''credential in the staged bundle''
      else if kind = ''StagingNotRemoved'' then
         ''the operation failed and left a staging directory behind''
      else if kind = ''Engine'' then
         ''an engine-level error occurred''
      else if kind = ''Style'' then
         ''a style error occurred''
      else if kind = ''Canonical'' then
         ''the operation could not be serialized''
      else ''`'' @ kind @ ''` (not one of the reasons this reader recognizes)'')"

definition render_pair :: "reader_intent \<Rightarrow> reader_outcome \<Rightarrow> string" where
  "render_pair i u =
     (let date = plain_date (ro_at u);
          head =
         date @ '' '' @ [CHR 0xE2, CHR 0x80, CHR 0x94] @ '' publish to '' @ ri_destination i @
         '' '' @ [CHR 0xE2, CHR 0x80, CHR 0x94];
          reason = (case ro_error_kind u of Some k \<Rightarrow> plain_reason k | None \<Rightarrow> ''no reason was recorded'')
      in if ro_outcome u = ''success'' then
           let rows = (case ro_rows u of Some r \<Rightarrow> show_nat r | None \<Rightarrow> ''an unrecorded number of'');
               partitions = (case ro_partitions u of Some p \<Rightarrow> p | None \<Rightarrow> 0);
               noun = (if partitions = 1 then ''partition'' else ''partitions'');
               route = (case ro_approval_route u of Some r \<Rightarrow> plain_route r | None \<Rightarrow> ''an unrecorded route'')
           in
         head @ '' APPROVED via '' @ route @ '' and SUCCEEDED ('' @ rows @ '' rows, '' @
         show_nat partitions @ '' '' @ noun @ '')''
         else if ro_outcome u = ''refused'' then
         head @ '' REFUSED: '' @ reason
         else if ro_outcome u = ''cancelled'' then
         head @ '' CANCELLED '' @ [CHR 0xE2, CHR 0x80, CHR 0x94] @ '' the operation was '' @
         ''stopped before it finished (an operator'' @ [CHR 0x27] @ ''s own cancel, or a Ctrl-C)''
         else if ro_outcome u = ''failed'' then
         head @ '' FAILED: '' @ reason
         else
         head @ '' outcome `'' @ ro_outcome u @ ''` (not one of '' @
         ''success/refused/cancelled/failed this reader recognizes '' @
         [CHR 0xE2, CHR 0x80, CHR 0x94] @ '' reported as itself, not guessed at)'')"

definition render_orphan_intent :: "reader_intent \<Rightarrow> string" where
  "render_orphan_intent i =
         plain_date (ri_at i) @ '' '' @ [CHR 0xE2, CHR 0x80, CHR 0x94] @ '' publish to '' @
         ri_destination i @ '' '' @ [CHR 0xE2, CHR 0x80, CHR 0x94] @ '' intent recorded, no '' @
         ''outcome (interrupted?)''"

definition render_orphan_outcome :: "string \<Rightarrow> reader_outcome \<Rightarrow> string" where
  "render_orphan_outcome attempt u =
         plain_date (ro_at u) @ '' '' @ [CHR 0xE2, CHR 0x80, CHR 0x94] @ '' attempt '' @ attempt @
         '' '' @ [CHR 0xE2, CHR 0x80, CHR 0x94] @ '' outcome recorded with no matching intent '' @
         ''(destination unknown) '' @ [CHR 0xE2, CHR 0x80, CHR 0x94] @ '' outcome: '' @ ro_outcome u"

section \<open>The pass over the log\<close>

text \<open>\<open>str::lines\<close>: split at newlines, a final empty piece dropped, one trailing carriage return removed.\<close>

definition strip_cr :: "string \<Rightarrow> string" where
  "strip_cr s = (if s \<noteq> [] \<and> last s = CHR 0x0D then butlast s else s)"

definition str_lines :: "string \<Rightarrow> string list" where
  "str_lines s =
     (let ws = split_on (CHR 0x0A) s
      in map strip_cr (if last ws = [] then butlast ws else ws))"

record reader_state =
  rs_pending :: "string \<Rightarrow> reader_intent option"
  rs_order :: "string list"
  rs_out :: "string list"

definition say :: "reader_state \<Rightarrow> string \<Rightarrow> reader_state" where
  "say st s = st\<lparr>rs_out := rs_out st @ [s]\<rparr>"

definition read_record :: "nat \<Rightarrow> json \<Rightarrow> reader_state \<Rightarrow> reader_state" where
  "read_record n v st =
     (let schema = get_str v ''schema''; phase = get_str v ''phase''
      in if schema \<noteq> Some audit_schema then say st (
         ''line '' @ show_nat n @ '': CORRUPT '' @ [CHR 0xE2, CHR 0x80, CHR 0x94] @ '' not a '' @
         audit_schema @ '' record (schema is '' @ describe schema @ ''); reported, not skipped'')
         else
           (case get_str v ''attempt'' of
              None \<Rightarrow> say st (
         ''line '' @ show_nat n @ '': CORRUPT '' @ [CHR 0xE2, CHR 0x80, CHR 0x94] @ '' a '' @
         audit_schema @ '' record with no `attempt` id; reported, not skipped'')
            | Some attempt \<Rightarrow>
                if phase = Some ''intent'' then
                  (case intent_from_json v of
                     Some i \<Rightarrow>
                       st\<lparr>rs_order := (if rs_pending st attempt = None then rs_order st @ [attempt] else rs_order st),
                          rs_pending := (rs_pending st)(attempt \<mapsto> i)\<rparr>
                   | None \<Rightarrow> say st (
         ''line '' @ show_nat n @ '': CORRUPT '' @ [CHR 0xE2, CHR 0x80, CHR 0x94] @ '' an intent record '' @
         ''missing `at` or `destination`; reported, not skipped''))
                else if phase = Some ''outcome'' then
                  (case outcome_from_json v of
                     Some u \<Rightarrow>
                       (case rs_pending st attempt of
                          Some i \<Rightarrow> say (st\<lparr>rs_pending := (rs_pending st)(attempt := None)\<rparr>) (render_pair i u)
                        | None \<Rightarrow> say st (render_orphan_outcome attempt u))
                   | None \<Rightarrow> say st (
         ''line '' @ show_nat n @ '': CORRUPT '' @ [CHR 0xE2, CHR 0x80, CHR 0x94] @ '' an outcome record '' @
         ''missing `at` or `outcome`; reported, not skipped''))
                else say st (
         ''line '' @ show_nat n @ '': CORRUPT '' @ [CHR 0xE2, CHR 0x80, CHR 0x94] @ '' a '' @
         audit_schema @ '' record with an unrecognized `phase` ('' @ describe phase @
         ''); reported, not skipped'')))"

definition read_line_at :: "(string \<Rightarrow> string + json) \<Rightarrow> nat \<Rightarrow> string \<Rightarrow> reader_state \<Rightarrow> reader_state" where
  "read_line_at parse n raw st =
     (if trim raw = [] then st
      else case parse raw of
             Inl e \<Rightarrow> say st (
         ''line '' @ show_nat n @ '': CORRUPT '' @ [CHR 0xE2, CHR 0x80, CHR 0x94] @
         '' does not parse as JSON ('' @ e @ ''); reported, not skipped'')
           | Inr v \<Rightarrow> read_record n v st)"

fun read_lines_from :: "(string \<Rightarrow> string + json) \<Rightarrow> nat \<Rightarrow> string list \<Rightarrow> reader_state \<Rightarrow> reader_state" where
  "read_lines_from parse n [] st = st"
| "read_lines_from parse n (raw # raws) st =
     read_lines_from parse (Suc n) raws (read_line_at parse n raw st)"

fun flush_orphans :: "string list \<Rightarrow> reader_state \<Rightarrow> reader_state" where
  "flush_orphans [] st = st"
| "flush_orphans (attempt # order) st =
     flush_orphans order
       (case rs_pending st attempt of
          Some i \<Rightarrow> say (st\<lparr>rs_pending := (rs_pending st)(attempt := None)\<rparr>) (render_orphan_intent i)
        | None \<Rightarrow> st)"

definition render_audit_log :: "(string \<Rightarrow> string + json) \<Rightarrow> string \<Rightarrow> string list" where
  "render_audit_log parse text =
     (let st = read_lines_from parse 1 (str_lines text) \<lparr>rs_pending = (\<lambda>_. None), rs_order = [], rs_out = []\<rparr>
      in rs_out (flush_orphans (rs_order st) st))"

end
