(* ===== verification/Wire.thy ===== *)
theory Wire
  imports Rust_Str Wkb
begin

text \<open>
  \<open>protocol/data-plane/src/wire.rs\<close>, \<open>session.rs\<close> and \<open>kernel/src/params.rs\<close>: the frames of the data
  plane, the session's token and origin checks, and the parameters of a stream request. A \<open>u16\<close> or
  \<open>u32\<close> length written with \<open>as\<close> wraps, as it does in Rust. An \<open>expect\<close> that fails is \<open>None\<close>. The
  random bytes of a token are a parameter.
\<close>

unbundle bit_operations_syntax

section \<open>Frames\<close>

definition tag_open :: byte where "tag_open = 0x0F"
definition tag_batch :: byte where "tag_batch = 0x10"
definition tag_progress :: byte where "tag_progress = 0x11"
definition tag_terminal :: byte where "tag_terminal = 0x12"
definition tag_credit :: byte where "tag_credit = 0x01"
definition tag_cancel :: byte where "tag_cancel = 0x02"
definition tag_start :: byte where "tag_start = 0x03"

definition frame_prefix_len :: nat where
  "frame_prefix_len = 8"

definition reserve_prefix :: "byte \<Rightarrow> byte list" where
  "reserve_prefix tag = [tag] @ [0, 0, 0, 0, 0, 0, 0]"

datatype wire_error = ShorterThanPrefix | PayloadTooLong nat

definition patch_len :: "byte list \<Rightarrow> wire_error + byte list" where
  "patch_len out =
     (if length out < frame_prefix_len then Inl ShorterThanPrefix
      else
        let len = length out - frame_prefix_len
        in if len > 2 ^ 32 - 1 then Inl (PayloadTooLong len)
           else Inr (take 4 out @ u32_to_be (word_of_nat len) @ drop 8 out))"

definition frame :: "byte \<Rightarrow> byte list \<Rightarrow> byte list option" where
  "frame tag payload =
     (case patch_len (reserve_prefix tag @ payload) of Inr out \<Rightarrow> Some out | Inl _ \<Rightarrow> None)"

definition payload_len :: "byte list \<Rightarrow> nat option" where
  "payload_len pre = map_option (\<lambda>b. unat (u32_from_be b)) (get_slice pre 4 4)"

definition progress_payload :: "u64 \<Rightarrow> u64 \<Rightarrow> u64 \<Rightarrow> byte list" where
  "progress_payload batches nbytes tot = u64_to_be batches @ u64_to_be nbytes @ u64_to_be tot"

definition terminal_payload :: "byte \<Rightarrow> string \<Rightarrow> byte list" where
  "terminal_payload code detail = code # str_bytes detail"

definition start_payload :: "string \<Rightarrow> byte list \<Rightarrow> byte list" where
  "start_payload operation params =
     u16_to_be (word_of_nat (length operation)) @ str_bytes operation @
     u32_to_be (word_of_nat (length params)) @ params"

text \<open>\<open>std::str::from_utf8\<close>.\<close>

definition from_utf8 :: "byte list \<Rightarrow> string option" where
  "from_utf8 b = (if utf8_valid (bytes_str b) then Some (bytes_str b) else None)"

definition parse_start :: "byte list \<Rightarrow> (string \<times> byte list) option" where
  "parse_start payload =
     (case get_slice payload 0 2 of
        None \<Rightarrow> None
      | Some b \<Rightarrow>
          let op_len = unat (u16_from_be b)
          in case get_slice payload 2 op_len of
               None \<Rightarrow> None
             | Some ob \<Rightarrow>
               (case from_utf8 ob of
                  None \<Rightarrow> None
                | Some op \<Rightarrow>
                    let at = 2 + op_len
                    in case get_slice payload at 4 of
                         None \<Rightarrow> None
                       | Some lb \<Rightarrow>
                         (case get_slice payload (at + 4) (unat (u32_from_be lb)) of
                            None \<Rightarrow> None
                          | Some params \<Rightarrow> Some (op, params))))"

definition is_ascii_whitespace :: "byte \<Rightarrow> bool" where
  "is_ascii_whitespace b \<longleftrightarrow> b = 0x20 \<or> b = 0x09 \<or> b = 0x0A \<or> b = 0x0C \<or> b = 0x0D"

definition looks_like_json :: "byte list \<Rightarrow> bool" where
  "looks_like_json frame_bytes =
     (if length frame_bytes > frame_prefix_len then
        (case find (\<lambda>b. \<not> is_ascii_whitespace b) (drop frame_prefix_len frame_bytes) of
           Some b \<Rightarrow> b = 0x7B \<or> b = 0x5B
         | None \<Rightarrow> False)
      else False)"

section \<open>Sessions\<close>

definition redacted :: string where "redacted = ''<redacted>''"
definition subprotocol :: string where "subprotocol = ''spatial-dp.v0''"
definition token_prefix :: string where "token_prefix = ''tok.''"

record session =
  se_token :: string
  se_origin :: string

definition mint_token :: "nat list option \<Rightarrow> string option" where
  "mint_token random = map_option (\<lambda>bytes. concat (map hex_byte bytes)) random"

definition session_with_origin :: "nat list option \<Rightarrow> string \<Rightarrow> session option" where
  "session_with_origin random origin =
     map_option (\<lambda>t. \<lparr>se_token = t, se_origin = origin\<rparr>) (mint_token random)"

definition session_new :: "nat list option \<Rightarrow> nat \<Rightarrow> session option" where
  "session_new random port = session_with_origin random (''http://127.0.0.1:'' @ show_nat port)"

definition token_matches :: "session \<Rightarrow> string \<Rightarrow> bool" where
  "token_matches s presented =
     (if length (se_token s) \<noteq> length presented then False else se_token s = presented)"

definition request_allowed :: "session \<Rightarrow> string option \<Rightarrow> string option \<Rightarrow> bool" where
  "request_allowed s origin sec_fetch_site =
     (case origin of
        Some o' \<Rightarrow> if o' = ''null'' then False else o' = se_origin s
      | None \<Rightarrow> sec_fetch_site = Some ''same-origin'')"

fun find_map :: "('a \<Rightarrow> 'b option) \<Rightarrow> 'a list \<Rightarrow> 'b option" where
  "find_map f [] = None"
| "find_map f (x # xs) = (case f x of Some y \<Rightarrow> Some y | None \<Rightarrow> find_map f xs)"

definition token_from_offers :: "string \<Rightarrow> string option" where
  "token_from_offers offered =
     find_map (\<lambda>p. strip_prefix p token_prefix) (map trim (split_on (CHR '','') offered))"

definition redact :: "session \<Rightarrow> string \<Rightarrow> string" where
  "redact s text = replace_all text (se_token s) redacted"

definition leaks_into :: "session \<Rightarrow> string \<Rightarrow> bool" where
  "leaks_into s artifact = contains_sub artifact (se_token s)"

section \<open>Stream parameters\<close>

record stream_params =
  sp_dataset :: string
  sp_bbox :: "(f64 \<times> f64 \<times> f64 \<times> f64) option"
  sp_bbox_crs :: "string option"
  sp_limit :: "u64 option"

datatype params_error =
    EmptyParameters
  | TruncatedStringLength
  | TruncatedString
  | NotUtf8
  | TruncatedBbox
  | TruncatedLimit
  | ViewportWithoutCrs

definition flag_bbox :: byte where "flag_bbox = 0x01"
definition flag_limit :: byte where "flag_limit = 0x02"

definition put_str :: "string \<Rightarrow> byte list" where
  "put_str s = u16_to_be (word_of_nat (length s)) @ str_bytes s"

definition params_encode :: "stream_params \<Rightarrow> byte list" where
  "params_encode p =
     [(if sp_bbox p \<noteq> None then flag_bbox else 0) OR (if sp_limit p \<noteq> None then flag_limit else 0)] @
     put_str (sp_dataset p) @ put_str (case sp_bbox_crs p of None \<Rightarrow> [] | Some c \<Rightarrow> c) @
     (case sp_bbox p of
        None \<Rightarrow> []
      | Some (a, b, c, d) \<Rightarrow> u64_to_be a @ u64_to_be b @ u64_to_be c @ u64_to_be d) @
     (case sp_limit p of None \<Rightarrow> [] | Some n \<Rightarrow> u64_to_be n)"

definition take_str :: "byte list \<Rightarrow> nat \<Rightarrow> params_error + string \<times> nat" where
  "take_str b at =
     (case get_slice b at 2 of
        None \<Rightarrow> Inl TruncatedStringLength
      | Some lb \<Rightarrow>
          let len = unat (u16_from_be lb)
          in case get_slice b (at + 2) len of
               None \<Rightarrow> Inl TruncatedString
             | Some sb \<Rightarrow>
               (case from_utf8 sb of
                  None \<Rightarrow> Inl NotUtf8
                | Some s \<Rightarrow> Inr (s, at + 2 + len)))"

text \<open>\<open>for slot in v.iter_mut()\<close>: \<open>n\<close> more doubles.\<close>

fun take_f64s :: "nat \<Rightarrow> byte list \<Rightarrow> nat \<Rightarrow> params_error + f64 list \<times> nat" where
  "take_f64s 0 b at = Inr ([], at)"
| "take_f64s (Suc n) b at =
     (case get_slice b at 8 of
        None \<Rightarrow> Inl TruncatedBbox
      | Some raw \<Rightarrow>
        (case take_f64s n b (at + 8) of
           Inl e \<Rightarrow> Inl e
         | Inr (vs, at') \<Rightarrow> Inr (u64_from_be raw # vs, at')))"

definition take_limit :: "byte list \<Rightarrow> nat \<Rightarrow> params_error + u64" where
  "take_limit b at =
     (case get_slice b at 8 of None \<Rightarrow> Inl TruncatedLimit | Some raw \<Rightarrow> Inr (u64_from_be raw))"

definition params_finish ::
    "string \<Rightarrow> string \<Rightarrow> (f64 \<times> f64 \<times> f64 \<times> f64) option \<Rightarrow> u64 option \<Rightarrow> params_error + stream_params" where
  "params_finish dataset crs bbox limit =
     (if bbox \<noteq> None \<and> crs = [] then Inl ViewportWithoutCrs
      else Inr \<lparr>sp_dataset = dataset, sp_bbox = bbox,
                sp_bbox_crs = (if crs = [] then None else Some crs), sp_limit = limit\<rparr>)"

definition params_decode :: "byte list \<Rightarrow> params_error + stream_params" where
  "params_decode b =
     (case b of
        [] \<Rightarrow> Inl EmptyParameters
      | flags # _ \<Rightarrow>
        (case take_str b 1 of
           Inl e \<Rightarrow> Inl e
         | Inr (dataset, at) \<Rightarrow>
           (case take_str b at of
              Inl e \<Rightarrow> Inl e
            | Inr (crs, at) \<Rightarrow>
              (case (if flags AND flag_bbox \<noteq> 0
                     then (case take_f64s 4 b at of
                             Inl e \<Rightarrow> Inl e
                           | Inr (vs, at') \<Rightarrow> Inr (Some (vs ! 0, vs ! 1, vs ! 2, vs ! 3), at'))
                     else Inr (None, at)) of
                 Inl e \<Rightarrow> Inl e
               | Inr (bbox, at) \<Rightarrow>
                 (case (if flags AND flag_limit \<noteq> 0 then map_sum id Some (take_limit b at) else Inr None) of
                    Inl e \<Rightarrow> Inl e
                  | Inr limit \<Rightarrow> params_finish dataset crs bbox limit)))))"

section \<open>Frame and request round trips\<close>

lemma u16_len: "n < 2 ^ 16 \<Longrightarrow> unat (word_of_nat n :: u16) = n"
  by (rule unat_word_of_nat_small) simp

lemma u32_len: "n < 2 ^ 32 \<Longrightarrow> unat (word_of_nat n :: u32) = n"
  by (rule unat_word_of_nat_small) simp

lemma from_utf8_str_bytes: "utf8_valid s \<Longrightarrow> from_utf8 (str_bytes s) = Some s"
  by (simp add: from_utf8_def)

lemma get_slice_at: "b = pre @ s @ post \<Longrightarrow> at = length pre \<Longrightarrow> n = length s \<Longrightarrow> get_slice b at n = Some s"
  by (simp add: get_slice_def)

text \<open>
  Every frame carries its payload: a payload that fits a \<open>u32\<close> is framed as tag, three reserved
  zero bytes, its length and itself, and \<open>payload_len\<close> of the prefix reads that length back.
\<close>
lemma frame_roundtrip:
  assumes "length payload < 2 ^ 32"
  shows "\<exists>f. frame tag payload = Some f \<and> f ! 0 = tag \<and> length f = 8 + length payload \<and>
    payload_len (take 8 f) = Some (length payload) \<and> drop 8 f = payload"
proof -
  have f: "frame tag payload = Some ([tag, 0, 0, 0] @ u32_to_be (word_of_nat (length payload)) @ payload)"
    using assms by (simp add: frame_def patch_len_def reserve_prefix_def frame_prefix_len_def Let_def)
  have t: "take 8 ([tag, 0, 0, 0] @ u32_to_be (word_of_nat (length payload)) @ payload) =
      [tag, 0, 0, 0] @ u32_to_be (word_of_nat (length payload)) @ []" by simp
  have "payload_len ([tag, 0, 0, 0] @ u32_to_be (word_of_nat (length payload)) @ []) = Some (length payload)"
    unfolding payload_len_def
    by (subst get_slice_at [of _ "[tag, 0, 0, 0]" "u32_to_be (word_of_nat (length payload))" "[]"])
       (simp_all add: u32_len [OF assms])
  with f t show ?thesis by simp
qed

text \<open>
  A start request decodes to exactly what was encoded, whatever follows it, when the operation name
  is UTF-8 shorter than \<open>2 ^ 16\<close> bytes and the parameters are shorter than \<open>2 ^ 32\<close>.
\<close>
theorem start_roundtrip:
  assumes "utf8_valid op" "length op < 2 ^ 16" "length params < 2 ^ 32"
  shows "parse_start (start_payload op params @ trailing) = Some (op, params)"
proof -
  let ?l = "u16_to_be (word_of_nat (length op))" let ?o = "str_bytes op"
  let ?n = "u32_to_be (word_of_nat (length params))"
  define b where "b = start_payload op params @ trailing"
  have b: "b = ?l @ ?o @ ?n @ params @ trailing" by (simp add: b_def start_payload_def)
  have s1: "get_slice b 0 2 = Some ?l" by (rule get_slice_at [of _ "[]"]) (simp_all add: b)
  have s2: "get_slice b 2 (length op) = Some ?o" by (rule get_slice_at [of _ ?l]) (simp_all add: b)
  have s3: "get_slice b (2 + length op) 4 = Some ?n" by (rule get_slice_at [of _ "?l @ ?o"]) (simp_all add: b)
  have s4: "get_slice b (2 + length op + 4) (length params) = Some params"
    by (rule get_slice_at [of _ "?l @ ?o @ ?n"]) (simp_all add: b)
  have u: "unat (u16_from_be ?l) = length op" "unat (u32_from_be ?n) = length params"
    using assms by (simp_all only: int_bytes_inverse u16_len u32_len)
  show ?thesis unfolding b_def [symmetric] parse_start_def
    by (simp only: s1 s2 s3 s4 u Let_def option.case from_utf8_str_bytes [OF assms(1)])
qed

theorem start_roundtrip_witness:
  "parse_start (start_payload ''stream_features'' [1, 2] @ [9]) = Some (''stream_features'', [1, 2])"
proof (rule start_roundtrip)
  show "utf8_valid ''stream_features''" by code_simp
qed simp_all

section \<open>Parameter round trip\<close>

lemma take_str_put_str:
  assumes "b = pre @ put_str s @ post" "at = length pre" "utf8_valid s" "length s < 2 ^ 16"
  shows "take_str b at = Inr (s, at + 2 + length s)"
proof -
  let ?l = "u16_to_be (word_of_nat (length s))"
  have s1: "get_slice b at 2 = Some ?l"
    by (rule get_slice_at [of _ pre]) (simp_all add: assms(1,2) put_str_def)
  have s2: "get_slice b (at + 2) (length s) = Some (str_bytes s)"
    by (rule get_slice_at [of _ "pre @ ?l"]) (simp_all add: assms(1,2) put_str_def)
  have u: "unat (u16_from_be ?l) = length s" by (simp only: int_bytes_inverse u16_len assms(4))
  show ?thesis unfolding take_str_def
    by (simp only: s1 s2 u Let_def option.case from_utf8_str_bytes [OF assms(3)])
qed

text \<open>
  The length is written as a \<open>u16\<close>: of a longer string \<open>take_str\<close> reads the first \<open>length mod 2 ^ 16\<close> bytes
  and the next field starts in the middle of it.
\<close>

lemma long_string_is_cut:
  assumes "utf8_valid (take (length s mod 2 ^ 16) s)"
  shows "take_str (pre @ put_str s @ post) (length pre) =
    Inr (take (length s mod 2 ^ 16) s, length pre + 2 + length s mod 2 ^ 16)"
proof -
  let ?n = "length s mod 2 ^ 16" and ?l = "u16_to_be (word_of_nat (length s))" and ?b = "pre @ put_str s @ post"
  have n: "?n < 2 ^ 16" by (rule mod_less_divisor) simp
  have w: "(word_of_nat (length s) :: 16 word) = word_of_nat ?n"
    by (simp add: word_of_nat_eq_iff take_bit_eq_mod)
  have s1: "get_slice ?b (length pre) 2 = Some ?l"
    by (rule get_slice_at [of _ pre]) (simp_all add: put_str_def)
  have split: "str_bytes s = str_bytes (take ?n s) @ str_bytes (drop ?n s)"
    by (simp add: str_bytes_def flip: map_append)
  have s2: "get_slice ?b (length pre + 2) ?n = Some (str_bytes (take ?n s))"
  proof (rule get_slice_at [of _ "pre @ ?l"])
    show "?b = (pre @ ?l) @ str_bytes (take ?n s) @ (str_bytes (drop ?n s) @ post)"
      unfolding put_str_def by (subst split) simp
    have "?n \<le> length s" by (rule mod_less_eq_dividend)
    then show "?n = length (str_bytes (take ?n s))" by simp
  qed simp
  have u: "unat (u16_from_be ?l) = ?n" unfolding w by (simp only: int_bytes_inverse u16_len [OF n])
  show ?thesis unfolding take_str_def
    by (simp only: s1 s2 u Let_def option.case from_utf8_str_bytes [OF assms])
qed

lemma take_f64s_encoded:
  "b = pre @ concat (map u64_to_be vs) @ post \<Longrightarrow> at = length pre \<Longrightarrow>
   take_f64s (length vs) b at = Inr (vs, at + 8 * length vs)"
proof (induction vs arbitrary: pre at)
  case (Cons v vs)
  have s1: "get_slice b at 8 = Some (u64_to_be v)"
    by (rule get_slice_at [of _ pre]) (simp_all add: Cons.prems)
  have "take_f64s (length vs) b (at + 8) = Inr (vs, at + 8 + 8 * length vs)"
    by (rule Cons.IH [of "pre @ u64_to_be v"]) (simp_all add: Cons.prems)
  then show ?case by (simp add: s1)
qed simp

lemma take_limit_encoded:
  "b = pre @ u64_to_be n \<Longrightarrow> at = length pre \<Longrightarrow> take_limit b at = Inr n"
  by (simp add: take_limit_def get_slice_at [of b pre "u64_to_be n" "[]"])

lemma put_str_length [simp]: "length (put_str s) = 2 + length s"
  by (simp add: put_str_def)

text \<open>
  C37: The parameters of a stream request survive their encoding, as long as the dataset's name and the CRS are
  shorter than \<open>2 ^ 16\<close> UTF-8 bytes: \<open>decode\<close> reads back, bit for bit, what \<open>encode\<close> wrote, with one
  exception, an empty CRS, which reads back as none. A viewport without the CRS it is expressed in, or with an
  empty one, is refused.
\<close>
theorem params_roundtrip:
  assumes dataset: "utf8_valid (sp_dataset p)" "length (sp_dataset p) < 2 ^ 16"
    and crs: "case sp_bbox_crs p of None \<Rightarrow> True | Some c \<Rightarrow> utf8_valid c \<and> length c < 2 ^ 16"
  shows "params_decode (params_encode p) =
    (if sp_bbox_crs p = None \<or> sp_bbox_crs p = Some [] then
       if sp_bbox p \<noteq> None then Inl ViewportWithoutCrs else Inr (p\<lparr>sp_bbox_crs := None\<rparr>)
     else Inr p)"
proof -
  define c where "c = (case sp_bbox_crs p of None \<Rightarrow> [] | Some c \<Rightarrow> c)"
  define flags where
    "flags = (if sp_bbox p \<noteq> None then flag_bbox else 0) OR (if sp_limit p \<noteq> None then flag_limit else 0)"
  define vs where "vs = (case sp_bbox p of None \<Rightarrow> [] | Some (x0, y0, x1, y1) \<Rightarrow> [x0, y0, x1, y1])"
  define lim where "lim = (case sp_limit p of None \<Rightarrow> [] | Some n \<Rightarrow> u64_to_be n)"
  define b where "b = params_encode p"
  have b: "b = flags # put_str (sp_dataset p) @ put_str c @ concat (map u64_to_be vs) @ lim"
    by (auto simp: b_def params_encode_def c_def flags_def vs_def lim_def split: option.splits)
  have c: "utf8_valid c" "length c < 2 ^ 16" using crs by (simp_all add: c_def split: option.splits)
  let ?d = "1 + 2 + length (sp_dataset p)" let ?c = "?d + 2 + length c"
  have t1: "take_str b 1 = Inr (sp_dataset p, ?d)"
    by (rule take_str_put_str [of _ "[flags]"]) (simp_all add: b dataset(1) dataset(2) [simplified])
  have t2: "take_str b ?d = Inr (c, ?c)"
    by (rule take_str_put_str [of _ "flags # put_str (sp_dataset p)"]) (simp_all add: b c(1) c(2) [simplified])
  have t3: "take_f64s (length vs) b ?c = Inr (vs, ?c + 8 * length vs)"
    by (rule take_f64s_encoded [of _ "flags # put_str (sp_dataset p) @ put_str c"]) (simp_all add: b)
  have t4: "take_limit b (?c + 8 * length vs) = Inr n" if "sp_limit p = Some n" for n
    by (rule take_limit_encoded [of _ "flags # put_str (sp_dataset p) @ put_str c @ concat (map u64_to_be vs)"])
       (simp_all add: b that lim_def length_concat comp_def sum_list_triv)
  have f: "flags AND flag_bbox \<noteq> 0 \<longleftrightarrow> sp_bbox p \<noteq> None" "flags AND flag_limit \<noteq> 0 \<longleftrightarrow> sp_limit p \<noteq> None"
    by (simp_all add: flags_def flag_bbox_def flag_limit_def)
  have g1: "(if flags AND flag_bbox \<noteq> 0
             then (case take_f64s 4 b ?c of Inl e \<Rightarrow> Inl e
                   | Inr (ws, at') \<Rightarrow> Inr (Some (ws ! 0, ws ! 1, ws ! 2, ws ! 3), at'))
             else Inr (None, ?c)) = Inr (sp_bbox p, ?c + 8 * length vs)"
  proof (cases "sp_bbox p")
    case (Some bb)
    obtain x0 y0 x1 y1 where "bb = (x0, y0, x1, y1)" by (cases bb)
    with Some have "vs = [x0, y0, x1, y1]" "sp_bbox p = Some (x0, y0, x1, y1)" by (simp_all add: vs_def)
    with t3 show ?thesis by (simp add: f numeral_eq_Suc del: take_f64s.simps)
  qed (simp add: f vs_def)
  have g2: "(if flags AND flag_limit \<noteq> 0 then map_sum id Some (take_limit b (?c + 8 * length vs)) else Inr None)
      = Inr (sp_limit p)"
    using t4 by (auto simp: f)
  have "params_decode b = params_finish (sp_dataset p) c (sp_bbox p) (sp_limit p)"
    unfolding params_decode_def by (subst b) (simp only: list.case t1 t2 g1 g2 sum.case prod.case)
  then show ?thesis by (auto simp: b_def [symmetric] params_finish_def c_def split: option.splits)
qed

theorem params_roundtrip_witness:
  "params_decode (params_encode \<lparr>sp_dataset = ''roads'', sp_bbox = None, sp_bbox_crs = None, sp_limit = Some 7\<rparr>) =
   Inr \<lparr>sp_dataset = ''roads'', sp_bbox = None, sp_bbox_crs = None, sp_limit = Some 7\<rparr>"
proof -
  have "utf8_valid ''roads''" by code_simp
  then show ?thesis
    using params_roundtrip [of "\<lparr>sp_dataset = ''roads'', sp_bbox = None, sp_bbox_crs = None, sp_limit = Some 7\<rparr>"]
    by simp
qed

section \<open>Redaction of the token\<close>

text \<open>A stretch of the result that avoids the first character of the replacement is a stretch of the input.\<close>

lemma replace_all_prefix:
  "replace_all s p (x # r) = q @ z \<Longrightarrow> x \<notin> set q \<Longrightarrow> \<exists>z. s = q @ z"
proof (induction s p "x # r" arbitrary: q z rule: replace_all.induct)
  case (1 s p)
  show ?case
  proof (cases "s = [] \<or> p = [] \<or> q = []")
    case True
    then show ?thesis using "1.prems" by (auto simp: replace_all.simps [of s])
  next
    case False
    then obtain y q' c s' where q: "q = y # q'" and s: "s = c # s'" by (cases q; cases s) auto
    have "\<not> starts_with s p"
      using "1.prems" False by (auto simp: replace_all.simps [of s] q)
    then have "y = c" "replace_all s' p (x # r) = q' @ z"
      using "1.prems"(1) False by (simp_all add: replace_all.simps [of "c # s'"] q s)
    with "1.hyps"(2) [of q' z] \<open>\<not> starts_with s p\<close> False "1.prems"(2) show ?thesis by (simp add: q s)
  qed
qed

lemma append_cons_split:
  "a @ p @ b = u @ x # v \<Longrightarrow> x \<notin> set p \<Longrightarrow> contains_sub u p \<or> contains_sub v p"
  by (fastforce simp: contains_sub_iff append_eq_append_conv2 Cons_eq_append_conv append_eq_Cons_conv)

lemma contains_sub_length: "contains_sub s p \<Longrightarrow> length p \<le> length s"
  by (auto simp: contains_sub_iff)

lemma contains_sub_Cons: "contains_sub (c # s) p \<longleftrightarrow> starts_with (c # s) p \<or> contains_sub s p"
  by (auto simp: contains_sub_def)

lemma replace_all_removes:
  assumes "p \<noteq> []" "x \<notin> set p" "y \<notin> set p" "length r < length p"
  shows "\<not> contains_sub (replace_all s p (x # r @ [y])) p"
  using assms
proof (induction s p "x # r @ [y]" rule: replace_all.induct)
  case (1 s p)
  let ?R = "\<lambda>s. replace_all s p (x # r @ [y])"
  consider "s = []" | "s \<noteq> []" "starts_with s p" | c s' where "s = c # s'" "\<not> starts_with s p"
    by (cases s) auto
  then show ?case
  proof cases
    case 1
    then show ?thesis using "1.prems" by (simp add: replace_all.simps contains_sub_iff)
  next
    case 2
    then have IH: "\<not> contains_sub (?R (drop (length p) s)) p" using "1.hyps"(1) "1.prems" by simp
    have R: "?R s = [] @ x # (r @ y # ?R (drop (length p) s))"
      using 2 "1.prems" by (simp add: replace_all.simps [of s])
    show ?thesis
    proof
      assume "contains_sub (?R s) p"
      then obtain a b where "a @ p @ b = [] @ x # (r @ y # ?R (drop (length p) s))"
        unfolding R contains_sub_iff by metis
      from append_cons_split [OF this "1.prems"(2)] "1.prems"(1)
      have "contains_sub (r @ y # ?R (drop (length p) s)) p" by (auto simp: contains_sub_iff)
      then obtain a b where "a @ p @ b = r @ y # ?R (drop (length p) s)" unfolding contains_sub_iff by metis
      from append_cons_split [OF this "1.prems"(3)] IH "1.prems"(4) show False
        by (auto dest: contains_sub_length)
    qed
  next
    case (3 c s')
    then have IH: "\<not> contains_sub (?R s') p" using "1.hyps"(2) "1.prems" by simp
    have R: "?R s = c # ?R s'" using 3 "1.prems" by (simp add: replace_all.simps [of "c # s'"])
    have "\<not> starts_with (c # ?R s') p"
      using replace_all_prefix [of s p x "r @ [y]" p] "1.prems"(2) 3(2) R by (auto simp: starts_with_iff)
    with IH show ?thesis by (simp add: R contains_sub_Cons)
  qed
qed

lemma hex_char_not_angle: "d < 16 \<Longrightarrow> hex_char d \<notin> {CHR ''<'', CHR ''>''}"
proof
  assume "d < 16" "hex_char d \<in> {CHR ''<'', CHR ''>''}"
  then have "(of_char (hex_char d) :: nat) \<in> {60, 62}" by auto
  with \<open>d < 16\<close> show False by (auto simp: hex_char_def split: if_splits)
qed

lemma hex_byte_props: "length (hex_byte n) = 2" "set (hex_byte n) \<inter> {CHR ''<'', CHR ''>''} = {}"
  using hex_char_not_angle [of "n div 16 mod 16"] hex_char_not_angle [of "n mod 16"]
  by (auto simp: hex_byte_def)

text \<open>
  C36: The session token never reaches a redacted text: for every session minted from 32 random
  bytes, \<open>redact\<close> leaves no occurrence of the token in any text, not even one put together from
  the replacement and what surrounds it.
\<close>
theorem redact_never_leaks:
  assumes "session_with_origin (Some random) origin = Some s" "length random = 32"
  shows "length (se_token s) = 64 \<and> \<not> leaks_into s (redact s body)"
proof -
  have tok: "se_token s = concat (map hex_byte random)"
    using assms(1) by (auto simp: session_with_origin_def mint_token_def)
  then have len: "length (se_token s) = 64"
    using assms(2) by (simp add: length_concat comp_def hex_byte_props sum_list_triv)
  moreover have "se_token s \<noteq> []" using len by auto
  moreover have "CHR ''<'' \<notin> set (se_token s)" "CHR ''>'' \<notin> set (se_token s)"
    using hex_byte_props(2) by (auto simp: tok)
  ultimately show ?thesis
    using replace_all_removes [of "se_token s" "CHR ''<''" "CHR ''>''" "''redacted''" body] by (simp add: leaks_into_def redact_def redacted_def)
qed

theorem redact_never_leaks_witness:
  "let s = \<lparr>se_token = concat (map hex_byte (replicate 32 171)), se_origin = []\<rparr> in
   length (se_token s) = 64 \<and> \<not> leaks_into s (redact s (''bearer '' @ se_token s))"
  unfolding Let_def
  by (rule redact_never_leaks [of "replicate 32 171" "[]"])
     (simp_all add: session_with_origin_def mint_token_def)

end
