(* ===== verification/Engine_Error.thy ===== *)
theory Engine_Error
  imports Rust_Str
begin

text \<open>
  \<open>engine/src/error.rs\<close> and \<open>engine/src/addressability.rs\<close>: the engine's error type with its messages, and
  which resident column names a SQL statement can address. A \<open>&'static str\<close> and a \<open>String\<close> are the
  UTF-8 bytes; counts are \<open>nat\<close>.
\<close>

section \<open>Addressable names\<close>

definition exported_name_key :: string where
  "exported_name_key = ''spatial.exported_name''"

definition render_visible_escape :: "string \<Rightarrow> string" where
  "render_visible_escape name =
     (if contains_sub name [CHR 0x00] then replace_all name [CHR 0x00] (CHR 0x5C # ''u0000'') else name)"

record not_addressable_fact =
  naf_bound :: string
  naf_exported :: "string option"
  naf_nul_offset :: "nat option"

definition fact_render :: "not_addressable_fact \<Rightarrow> string" where
  "fact_render naf =
     (case naf_exported naf of
        Some exported \<Rightarrow>
          ''the resident name `'' @ render_visible_escape (naf_bound naf) @
          ''` is not addressable: DuckDB'' @ [CHR 0x27] @ ''s Arrow export reports this position as `'' @
          render_visible_escape exported @ ''`, a different name than the one DESCRIBE binds it by, so no '' @
          ''SELECT list built from either name can be trusted to reach it''
      | None \<Rightarrow>
          ''the name `'' @ render_visible_escape (naf_bound naf) @
          ''` contains U+0000, and no SQL statement can address an identifier carrying it'')"

definition not_addressable :: "string \<Rightarrow> string option \<Rightarrow> not_addressable_fact option" where
  "not_addressable bound exported =
     (let nul_offset = find_sub bound [CHR 0x00];
          differs = (case exported of Some e \<Rightarrow> e \<noteq> bound | None \<Rightarrow> False)
      in if nul_offset = None \<and> \<not> differs then None
         else Some \<lparr>naf_bound = bound, naf_exported = exported, naf_nul_offset = nul_offset\<rparr>)"

section \<open>Engine errors\<close>

datatype engine_error =
    EngSource string
  | EngCrsUndeclared string
  | EngCrsAssertionConflict string string
  | EngCrsAssertionIdentifierBlank
  | EngCrsAssertionDefinitionTooLarge nat nat
  | EngViewportCrsMismatch string string
  | EngViewportCrsUnidentifiable
  | EngAxisOrderUnestablished string
  | EngAxisOrderUnsupported string
  | EngFormatDefaultContradicted string
  | EngGeoMetadata string
  | EngNoCoveringBbox string
  | EngWkb string
  | EngEncodingMismatch string string
  | EngQuery string
  | EngArrow string
  | EngCancelled
  | EngCeilingExceeded string nat nat
  | EngLodRefused string string
  | EngIdentityUnusable string string "string list"
  | EngSourceChanged string
  | EngIdentityOrdinalPartitionedUnsupported string
  | EngInternalInconsistency string
  | EngFeatureTooLarge nat nat nat
  | EngConnectionSetup string
  | EngAttributeUnpublishable string string
  | EngSourceChangedUnderPublish string string string
  | EngConnectionsExhausted string nat
  | EngSourceCoverageLost string
  | EngTimingDependentOrdering string string

definition engine_error_display :: "engine_error \<Rightarrow> string" where
  "engine_error_display e =
     (case e of
        EngSource d \<Rightarrow>
          ''source: '' @ d
      | EngCrsUndeclared detail \<Rightarrow>
          ''refused: the file declares no CRS and none was asserted by the caller ('' @ detail @
          ''). GeoParquet'' @ [CHR 0x27] @ ''s OGC:CRS84 default is applied only when the crs '' @
          ''key is absent in a file of version 1.0.0 or 1.1.0; otherwise assert a CRS to open '' @
          ''the file (docs/05, no silent conversion)''
      | EngCrsAssertionConflict declared asserted \<Rightarrow>
          ''refused: the file declares CRS '' @ declared @ '' and the caller asserted '' @
          asserted @ ''. A caller assertion is admissible only for a file that declares nothing''
      | EngCrsAssertionIdentifierBlank \<Rightarrow>
          ''refused: the caller-asserted CRS identifier is empty or whitespace-only. A '' @
          ''nameless assertion would still admit and flow into describe and a published bundle'' @
          [CHR 0x27] @ ''s manifest with nothing to identify it by''
      | EngCrsAssertionDefinitionTooLarge lim saw \<Rightarrow>
          ''refused: the caller-asserted CRS definition is '' @ show_nat saw @ '' bytes, over the '' @
          ''declared ceiling of '' @ show_nat lim @ ''. PROJJSON definitions are single-digit '' @
          ''KB; paste the pinned catalog entry or a definition of comparable size''
      | EngViewportCrsMismatch dataset viewport \<Rightarrow>
          ''refused: the viewport is expressed in '' @ viewport @ '' and the dataset is in '' @
          dataset @ ''. This slice performs no reprojection, so a viewport in another CRS '' @
          ''cannot be honoured (docs/05: mixing CRS without a declared transform is an error)''
      | EngViewportCrsUnidentifiable \<Rightarrow>
          ''refused: the dataset'' @ [CHR 0x27] @ ''s CRS is definition-only and carries no '' @
          ''authority and code, so a viewport cannot name it. Send the viewport without a CRS '' @
          ''to declare it is expressed in the dataset'' @ [CHR 0x27] @ ''s own CRS''
      | EngAxisOrderUnestablished detail \<Rightarrow>
          ''refused: axis order could not be established from the file'' @ [CHR 0x27] @
          ''s CRS definition ('' @ detail @ '')''
      | EngAxisOrderUnsupported established \<Rightarrow>
          ''refused: established axis order is '' @ established @ ''; this slice performs no '' @
          ''axis normalization and emits x-first orders only '' @ [CHR 0xE2, CHR 0x80, CHR 0x94] @ '' (easting, northing) '' @
          ''or (longitude, latitude)''
      | EngFormatDefaultContradicted detail \<Rightarrow>
          ''refused: the file declares no CRS, so GeoParquet'' @ [CHR 0x27] @ ''s absent-key rule '' @
          ''supplied OGC:CRS84 '' @ [CHR 0xE2, CHR 0x80, CHR 0x94] @ '' and the file'' @
          [CHR 0x27] @ ''s own coordinates contradict it ('' @ detail @
          ''). A coordinate outside '' @ [CHR 0xC2, CHR 0xB1] @ ''180/'' @ [CHR 0xC2, CHR 0xB1] @ ''90 is not '' @
          ''longitude/latitude on WGS84. Assert the CRS this file is actually in to open it''
      | EngGeoMetadata d \<Rightarrow>
          ''geo metadata: '' @ d
      | EngNoCoveringBbox detail \<Rightarrow>
          ''refused: viewport filter needs a covering bbox column ('' @ detail @ ''); this slice has no '' @
          ''spatial index (docs/07 open gate)''
      | EngWkb d \<Rightarrow>
          ''wkb: '' @ d
      | EngEncodingMismatch claimed found \<Rightarrow>
          ''encoding mismatch: claimed '' @ claimed @ '', found '' @ found
      | EngQuery d \<Rightarrow>
          ''query: '' @ d
      | EngArrow d \<Rightarrow>
          ''arrow: '' @ d
      | EngCancelled \<Rightarrow>
          ''cancelled''
      | EngCeilingExceeded what lim saw \<Rightarrow>
          ''declared ceiling '' @ what @ '' exceeded: limit '' @ show_nat lim @ '', saw '' @
          show_nat saw
      | EngLodRefused refusal detail \<Rightarrow>
          ''refused ('' @ refusal @ ''): '' @ detail
      | EngIdentityUnusable col detail _ \<Rightarrow>
          ''refused: `'' @ render_visible_escape col @ ''` cannot serve as stable feature '' @
          ''identity '' @ [CHR 0xE2, CHR 0x80, CHR 0x94] @ '' '' @ detail @ ''. Synthesizing a row '' @
          ''ordinal instead is the hazard ADR-010 rule 2 exists to prevent''
      | EngSourceChanged detail \<Rightarrow>
          ''refused: the source file changed while it was open ('' @ detail @ ''). This check does not '' @
          ''establish snapshot consistency, cannot detect every in-place modification, and '' @
          ''may detect a change during a query only after that query has finished reading''
      | EngIdentityOrdinalPartitionedUnsupported detail \<Rightarrow>
          ''refused: this source is partitioned across more than one file ('' @ detail @ ''), and session '' @
          ''identity is a row'' @ [CHR 0x27] @ ''s position within one file. Open a single '' @
          ''file, or declare an identity column that is carried in the data''
      | EngInternalInconsistency detail \<Rightarrow>
          ''internal inconsistency: '' @ detail
      | EngFeatureTooLarge fid lim saw \<Rightarrow>
          ''feature '' @ show_nat fid @ '' needs about '' @ show_nat saw @ '' B on its own, above '' @
          ''the declared per-batch ceiling of '' @ show_nat lim @ '' B; it cannot be carried '' @
          ''in one batch''
      | EngConnectionSetup detail \<Rightarrow>
          ''duckdb connection could not be prepared: '' @ detail
      | EngAttributeUnpublishable col detail \<Rightarrow>
          ''refused: `'' @ render_visible_escape col @ ''` cannot be published as an attribute '' @
          [CHR 0xE2, CHR 0x80, CHR 0x94] @ '' '' @ detail @ ''. Nothing is cast, widened or '' @
          ''stringified to make a column fit; a conversion the caller did not ask for is the '' @
          ''silent conversion docs/01 principle 8 forbids''
      | EngSourceChangedUnderPublish pinned observed detected_by \<Rightarrow>
          ''refused: the source is not what was pinned '' @ [CHR 0xE2, CHR 0x80, CHR 0x94] @
          '' pinned '' @ pinned @ '', observed '' @ observed @ '' ('' @ detected_by @ ''). A bundle built '' @
          ''across a changing source would carry a content hash describing bytes it does not '' @
          ''contain''
      | EngConnectionsExhausted cls capacity \<Rightarrow>
          ''refused: this dataset'' @ [CHR 0x27] @ ''s '' @ cls @ '' connection capacity ('' @
          show_nat capacity @ '') is fully leased. The engine refuses rather than queueing; '' @
          ''queueing would decide an admission policy that is reserved elsewhere''
      | EngSourceCoverageLost detail \<Rightarrow>
          ''[P6 placeholder] refused: the advisory watch on this source lost coverage ('' @ detail @ ''). This is not a '' @
          ''statement that the file changed '' @ [CHR 0xE2, CHR 0x80, CHR 0x94] @ '' the OS notification '' @
          ''stream this session was relying on stopped reporting, and this check cannot see '' @
          ''whether the file changed while it was not''
      | EngTimingDependentOrdering ord policy \<Rightarrow>
          ''refused: ordering `'' @ ord @ ''` cannot be combined with batch-cut policy `'' @
          policy @ ''`. A declared row order exists so partition boundaries are a pure function '' @
          ''of the row sequence; a time budget in the cut decision would make them a function '' @
          ''of machine load, and ADR-017 '' @ [CHR 0xC2, CHR 0xA7] @ ''12'' @ [CHR 0x27] @
          ''s byte-identical-republish guarantee rests on them'')"

end
