(* ===== verification/Attributes.thy ===== *)
theory Attributes
  imports Engine_Error Serde
begin

text \<open>
  \<open>engine/src/attributes.rs\<close>: which columns may leave the engine and under which types. Arrow's
  \<open>DataType\<close> has the constructors the source names, every other type is \<open>DOther\<close>; its \<open>Display\<close> is the
  parameter \<open>show_dt\<close>.
\<close>

section \<open>Fields\<close>

datatype data_type =
    DUtf8 | DLargeUtf8 | DUtf8View | DBoolean
  | DInt8 | DInt16 | DInt32 | DInt64
  | DUInt8 | DUInt16 | DUInt32 | DUInt64
  | DFloat64 | DFloat32
  | DDictionary data_type data_type
  | DOther string

record field =
  fd_name :: string
  fd_type :: data_type
  fd_nullable :: bool
  fd_metadata :: "string \<rightharpoonup> string"

definition id_column :: string where
  "id_column = ''id''"

definition not_addressable_for_field :: "field \<Rightarrow> not_addressable_fact option" where
  "not_addressable_for_field fd = not_addressable (fd_name fd) (fd_metadata fd exported_name_key)"

definition max_projected_attributes :: nat where
  "max_projected_attributes = 32"

definition is_admitted_scalar :: "data_type \<Rightarrow> bool" where
  "is_admitted_scalar ty =
     (case ty of DDictionary _ _ \<Rightarrow> False | DOther _ \<Rightarrow> False | _ \<Rightarrow> True)"

definition admit_attribute_type :: "(data_type \<Rightarrow> string) \<Rightarrow> string \<Rightarrow> data_type \<Rightarrow> engine_error + data_type" where
  "admit_attribute_type show_dt column ty =
     (let refused = Inl (EngAttributeUnpublishable column
            (''type is '' @ show_dt ty @ '', which is not in the admissible set for a published attribute '' @
             ''(utf8, boolean, the 8/16/32/64-bit integers, float64)''))
      in case ty of
           DDictionary _ val \<Rightarrow> if is_admitted_scalar val then Inr val else refused
         | DOther _ \<Rightarrow> refused
         | _ \<Rightarrow> Inr ty)"

section \<open>Refusals\<close>

datatype projection_error =
    TooManyColumns nat nat
  | ColumnUnknown string "string list"
  | ColumnIsGeometry string
  | ColumnIsIdentity string string
  | ColumnDuplicated string
  | TypeNotAdmittedP string string data_type string
  | ColumnNameNotAddressable string string

definition visible_names :: "string list \<Rightarrow> string list" where
  "visible_names known = filter (\<lambda>c. \<not> contains_sub c '','') known"

definition projection_error_display :: "projection_error \<Rightarrow> string" where
  "projection_error_display e =
     (case e of
        TooManyColumns lim saw \<Rightarrow>
          ''refused: the declared projection names '' @ show_nat saw @
          '' column(s), over the declared ceiling of '' @ show_nat lim
      | ColumnUnknown column known \<Rightarrow>
          (let kept = map render_visible_escape (visible_names known); omitted = length known - length kept
           in ''refused: `'' @ render_visible_escape column @ ''` is not a column this dataset carries (it has: '' @
              join_with '', '' kept @
              (if omitted > 0 then ''; '' @ show_nat omitted @ '' name(s) containing a comma omitted'' else []) @
              '')'')
      | ColumnIsGeometry column \<Rightarrow>
          ''refused: `'' @ column @ ''` is the geometry column; it already travels as GeoArrow''
      | ColumnIsIdentity column idc \<Rightarrow>
          if column = idc then
            ''refused: `'' @ column @ ''` is this dataset'' @ [CHR 0x27] @
            ''s identity column; it already travels as `id`, and a second identity-shaped column is two '' @
            ''names for one fact''
          else
            ''refused: `'' @ column @ ''` is the name reserved for the identity column in every batch; this '' @
            ''dataset'' @ [CHR 0x27] @ ''s identity is mapped from `'' @ idc @ ''`''
      | ColumnDuplicated column \<Rightarrow>
          ''refused: `'' @ column @ ''` is named twice in the declared projection''
      | TypeNotAdmittedP column arrow_type _ detail \<Rightarrow>
          ''refused: `'' @ column @ ''` is '' @ arrow_type @ '' '' @ [CHR 0xE2, CHR 0x80, CHR 0x94] @ '' '' @ detail
      | ColumnNameNotAddressable column detail \<Rightarrow>
          ''refused: `'' @ render_visible_escape column @ ''` is not addressable '' @
          [CHR 0xE2, CHR 0x80, CHR 0x94] @ '' '' @ detail)"

definition known_columns_wire_field :: "string list \<Rightarrow> string" where
  "known_columns_wire_field known = join_with '','' (visible_names known)"

definition engine_error_of_projection :: "(data_type \<Rightarrow> string) \<Rightarrow> projection_error \<Rightarrow> engine_error" where
  "engine_error_of_projection show_dt e =
     (case e of
        TooManyColumns lim saw \<Rightarrow> EngCeilingExceeded ''MAX_PROJECTED_ATTRIBUTES'' lim saw
      | ColumnUnknown column known \<Rightarrow>
          EngAttributeUnpublishable column
            (''the file has no such column (it has: '' @ join_with '', '' (map render_visible_escape known) @ '')'')
      | ColumnIsGeometry column \<Rightarrow>
          EngAttributeUnpublishable column ''this is the geometry column; it already travels as GeoArrow''
      | ColumnIsIdentity column _ \<Rightarrow>
          EngAttributeUnpublishable column
            (''this is the dataset'' @ [CHR 0x27] @ ''s identity column; it already travels as `'' @ id_column @
             ''`, and a second identity-shaped column is two names for one fact'')
      | ColumnDuplicated column \<Rightarrow> EngAttributeUnpublishable column ''named twice in the projection''
      | TypeNotAdmittedP column _ source_type _ \<Rightarrow>
          EngAttributeUnpublishable column
            (case source_type of
               DDictionary _ _ \<Rightarrow>
                 ''type is '' @ show_dt source_type @ ''. A dictionary index is an ordinal, and decoding one to '' @
                 ''publish it would be a conversion the caller did not ask for. The bundle format carries no '' @
                 ''dictionary batches''
             | DFloat32 \<Rightarrow>
                 ''type is Float32. The bundle carries doubles; widening f32 to f64 is exact but it is still a '' @
                 ''conversion this engine was not asked to perform, and a consumer reading `float64` would be '' @
                 ''told the source held one''
             | _ \<Rightarrow>
                 ''type is '' @ show_dt source_type @ '', which is not in the admissible set for a published '' @
                 ''attribute (utf8, boolean, the 8/16/32/64-bit integers, float64)'')
      | ColumnNameNotAddressable column detail \<Rightarrow> EngAttributeUnpublishable column detail)"

section \<open>Projections\<close>

record admitted_projection =
  ap_fields :: "field list"
  ap_source_types :: "data_type list"

definition projection_names :: "admitted_projection \<Rightarrow> string list" where
  "projection_names p = map fd_name (ap_fields p)"

definition check_geometry_and_identity :: "field \<Rightarrow> string \<Rightarrow> string \<Rightarrow> projection_error + unit" where
  "check_geometry_and_identity fd geometry_column identity_column =
     (case not_addressable_for_field fd of
        Some naf \<Rightarrow> Inl (ColumnNameNotAddressable (fd_name fd) (fact_render naf))
      | None \<Rightarrow>
          if fd_name fd = geometry_column then Inl (ColumnIsGeometry (fd_name fd))
          else if fd_name fd = id_column \<or> fd_name fd = identity_column
               then Inl (ColumnIsIdentity (fd_name fd) identity_column)
          else Inr ())"

definition type_check :: "(data_type \<Rightarrow> string) \<Rightarrow> field \<Rightarrow> projection_error + field" where
  "type_check show_dt fd =
     bind_ok
       (map_err
          (\<lambda>_. TypeNotAdmittedP (fd_name fd) (show_dt (fd_type fd)) (fd_type fd)
             (''[B1 close placeholder] type is '' @ show_dt (fd_type fd) @
              ''; not in the admissible set for a live projection (utf8, boolean, the 8/16/32/64-bit '' @
              ''integers, float32, float64, or a dictionary over one of those)''))
          (admit_attribute_type show_dt (fd_name fd) (fd_type fd)))
       (\<lambda>emitted. Inr \<lparr>fd_name = fd_name fd, fd_type = emitted, fd_nullable = True, fd_metadata = Map.empty\<rparr>)"

definition admit_projection_column ::
    "(data_type \<Rightarrow> string) \<Rightarrow> field \<Rightarrow> string \<Rightarrow> string \<Rightarrow> projection_error + field" where
  "admit_projection_column show_dt fd geometry_column identity_column =
     bind_ok (check_geometry_and_identity fd geometry_column identity_column) (\<lambda>_. type_check show_dt fd)"

text \<open>The first loop of \<open>admit_projection\<close>: every name resolves to the first field that carries it.\<close>

fun resolve_names :: "field list \<Rightarrow> string \<Rightarrow> string list \<Rightarrow> projection_error + field list" where
  "resolve_names file_schema identity_column [] = Inr []"
| "resolve_names file_schema identity_column (name # names) =
     (if name = id_column then Inl (ColumnIsIdentity name identity_column)
      else
        bind_ok
          (ok_or (ColumnUnknown name (map fd_name file_schema)) (find (\<lambda>f. fd_name f = name) file_schema))
          (\<lambda>fd. bind_ok (resolve_names file_schema identity_column names) (\<lambda>fds. Inr (fd # fds))))"

text \<open>The second loop: geometry and identity, duplicates, type, in this order for each column.\<close>

fun admit_fields ::
    "(data_type \<Rightarrow> string) \<Rightarrow> string \<Rightarrow> string \<Rightarrow> string list \<Rightarrow> field list \<Rightarrow> projection_error + field list" where
  "admit_fields show_dt geometry_column identity_column seen [] = Inr []"
| "admit_fields show_dt geometry_column identity_column seen (fd # fds) =
     bind_ok (check_geometry_and_identity fd geometry_column identity_column) (\<lambda>_.
       if fd_name fd \<in> set seen then Inl (ColumnDuplicated (fd_name fd))
       else
         bind_ok (type_check show_dt fd) (\<lambda>out.
         bind_ok (admit_fields show_dt geometry_column identity_column (seen @ [fd_name fd]) fds) (\<lambda>outs.
           Inr (out # outs))))"

definition admit_projection ::
    "(data_type \<Rightarrow> string) \<Rightarrow> string list \<Rightarrow> field list \<Rightarrow> string \<Rightarrow> string \<Rightarrow>
     projection_error + admitted_projection" where
  "admit_projection show_dt names file_schema geometry_column identity_column =
     (if length names > max_projected_attributes
      then Inl (TooManyColumns max_projected_attributes (length names))
      else
        bind_ok (resolve_names file_schema identity_column names) (\<lambda>resolved.
        bind_ok (admit_fields show_dt geometry_column identity_column [] resolved) (\<lambda>out.
          Inr \<lparr>ap_fields = out, ap_source_types = map fd_type resolved\<rparr>)))"

section \<open>What is admitted\<close>

text \<open>The column of a schema that may travel under a name, with the type it is emitted as.\<close>

definition emitted_type :: "data_type \<Rightarrow> data_type option" where
  "emitted_type ty =
     (if is_admitted_scalar ty then Some ty
      else case ty of DDictionary _ val \<Rightarrow> if is_admitted_scalar val then Some val else None | _ \<Rightarrow> None)"

definition may_travel :: "string \<Rightarrow> string \<Rightarrow> field \<Rightarrow> bool" where
  "may_travel geometry_column identity_column fd \<longleftrightarrow>
     CHR 0x00 \<notin> set (fd_name fd) \<and>
     (case fd_metadata fd exported_name_key of None \<Rightarrow> True | Some e \<Rightarrow> e = fd_name fd) \<and>
     fd_name fd \<notin> {geometry_column, identity_column, id_column}"

definition emitted_field :: "field \<Rightarrow> field" where
  "emitted_field fd =
     \<lparr>fd_name = fd_name fd, fd_type = the (emitted_type (fd_type fd)), fd_nullable = True, fd_metadata = Map.empty\<rparr>"

lemma admit_attribute_type_iff:
  "admit_attribute_type show_dt c ty = Inr out \<longleftrightarrow> emitted_type ty = Some out"
  by (cases ty) (auto simp: admit_attribute_type_def emitted_type_def is_admitted_scalar_def Let_def)

lemma check_geometry_and_identity_iff:
  "check_geometry_and_identity fd g i = Inr u \<longleftrightarrow> may_travel g i fd"
proof -
  have "not_addressable_for_field fd = None \<longleftrightarrow> CHR 0x00 \<notin> set (fd_name fd) \<and>
     (case fd_metadata fd exported_name_key of None \<Rightarrow> True | Some e \<Rightarrow> e = fd_name fd)"
    using contains_sub_iff [of "fd_name fd" "[CHR 0x00]"]
    by (auto simp: not_addressable_for_field_def not_addressable_def Let_def contains_sub_def
          in_set_conv_decomp split: option.splits)
  then show ?thesis
    by (auto simp: check_geometry_and_identity_def may_travel_def split: option.splits)
qed

lemma type_check_iff:
  "type_check show_dt fd = Inr out \<longleftrightarrow> emitted_type (fd_type fd) \<noteq> None \<and> out = emitted_field fd"
  by (auto simp: type_check_def result_iffs admit_attribute_type_iff emitted_field_def)

lemma resolve_names_iff:
  "resolve_names sch i names = Inr fds \<longleftrightarrow>
     id_column \<notin> set names \<and> map Some fds = map (\<lambda>n. find (\<lambda>f. fd_name f = n) sch) names"
  by (induction names arbitrary: fds) (auto simp: result_iffs split: if_splits)

lemma admit_fields_iff:
  "admit_fields show_dt g i seen fds = Inr out \<longleftrightarrow>
     list_all (\<lambda>fd. may_travel g i fd \<and> emitted_type (fd_type fd) \<noteq> None) fds \<and>
     distinct (map fd_name fds) \<and> set seen \<inter> set (map fd_name fds) = {} \<and> out = map emitted_field fds"
  by (induction fds arbitrary: seen out)
     (auto simp: result_iffs check_geometry_and_identity_iff type_check_iff split: if_splits)

lemma resolved_names:
  "map Some fds = map (\<lambda>n. find (\<lambda>f. fd_name f = n) sch) names \<Longrightarrow> map fd_name fds = names"
proof (induction names arbitrary: fds)
  case (Cons n names)
  then obtain fd fds' where fds: "fds = fd # fds'" by (cases fds) auto
  with Cons.prems have "find (\<lambda>f. fd_name f = n) sch = Some fd" by simp
  then have "fd_name fd = n" by (auto simp: find_Some_iff)
  with Cons fds show ?case by simp
qed simp

text \<open>
  C21: A declared projection is admitted exactly when it names at most 32 columns of the file, each
  once, none of them the geometry, the identity or the reserved \<open>id\<close>, all addressable by SQL and
  of an admissible type; the batch schema then carries exactly those columns, in the declared
  order, nullable, in the type they have in the file (a dictionary as its values).
\<close>
theorem projection_admits_exactly:
  "admit_projection show_dt names sch g i = Inr p \<longleftrightarrow>
     length names \<le> 32 \<and> distinct names \<and> id_column \<notin> set names \<and>
     (\<exists>fds. map Some fds = map (\<lambda>n. find (\<lambda>f. fd_name f = n) sch) names \<and>
        list_all (\<lambda>fd. may_travel g i fd \<and> emitted_type (fd_type fd) \<noteq> None) fds \<and>
        projection_names p = names \<and>
        p = \<lparr>ap_fields = map emitted_field fds, ap_source_types = map fd_type fds\<rparr>)"
proof -
  let ?found = "\<lambda>fds. map Some fds = map (\<lambda>n. find (\<lambda>f. fd_name f = n) sch) names"
  let ?p = "\<lambda>fds. \<lparr>ap_fields = map emitted_field fds, ap_source_types = map fd_type fds\<rparr>"
  let ?L = "\<lambda>fds. list_all (\<lambda>fd. may_travel g i fd \<and> emitted_type (fd_type fd) \<noteq> None) fds"
  have "admit_projection show_dt names sch g i = Inr p \<longleftrightarrow> length names \<le> 32 \<and> id_column \<notin> set names \<and>
      (\<exists>fds. ?found fds \<and> ?L fds \<and>
         distinct (map fd_name fds) \<and> p = ?p fds)"
    unfolding admit_projection_def
    by (simp add: bind_ok_Inr_iff resolve_names_iff admit_fields_iff max_projected_attributes_def) blast
  moreover have "map fd_name fds = names \<and> projection_names (?p fds) = names" if "?found fds" for fds
    using resolved_names [OF that] by (simp add: projection_names_def comp_def emitted_field_def)
  then have body: "(?found fds \<and> ?L fds \<and> distinct (map fd_name fds) \<and> p = ?p fds) \<longleftrightarrow>
      distinct names \<and> (?found fds \<and> ?L fds \<and> projection_names p = names \<and> p = ?p fds)" for fds
    by (cases "?found fds") auto
  ultimately show ?thesis unfolding body by blast
qed

end
