(* ===== verification/Pool.thy ===== *)
theory Pool
  imports Engine_Error "HOL-Library.Multiset"
begin

text \<open>
  \<open>engine/src/pool.rs\<close>: the bounded pool of DuckDB connections. Each section under the mutex is one
  definition, so that operations of several threads interleave between sections; \<open>acquire\<close> has two of
  them when a new connection has to be configured. The counters are \<open>int\<close>: an underflow of the
  \<open>usize\<close> would show as a negative value. What DuckDB answers (a connection configured or not, a
  connection verified or not) is a parameter.
\<close>

section \<open>Classes and capacities\<close>

definition max_stream_connections :: nat where "max_stream_connections = 4"
definition max_maintenance_connections :: nat where "max_maintenance_connections = 1"
definition max_admission_connections :: nat where "max_admission_connections = 4"

definition max_physical_connections :: nat where
  "max_physical_connections = max_stream_connections + max_maintenance_connections + max_admission_connections"

datatype lease_class = LcStream | LcMaintenance | LcAdmission

definition lease_class_as_str :: "lease_class \<Rightarrow> string" where
  "lease_class_as_str c =
     (case c of LcStream \<Rightarrow> ''stream'' | LcMaintenance \<Rightarrow> ''maintenance'' | LcAdmission \<Rightarrow> ''admission'')"

definition capacity :: "lease_class \<Rightarrow> nat" where
  "capacity c =
     (case c of
        LcStream \<Rightarrow> max_stream_connections
      | LcMaintenance \<Rightarrow> max_maintenance_connections
      | LcAdmission \<Rightarrow> max_admission_connections)"

record pool_config =
  max_idle :: nat

definition pool_config_reuse :: pool_config where
  "pool_config_reuse = \<lparr>max_idle = max_physical_connections\<rparr>"

definition pool_config_fresh_per_query :: pool_config where
  "pool_config_fresh_per_query = \<lparr>max_idle = 0\<rparr>"

definition reuses_connections :: "pool_config \<Rightarrow> bool" where
  "reuses_connections cfg \<longleftrightarrow> max_idle cfg > 0"

section \<open>State\<close>

record physical =
  ph_id :: u64
  ph_leases :: u64

record pool_state =
  ps_idle :: "physical list"
  ps_live :: int
  active_stream :: int
  active_maintenance :: int
  active_admission :: int

definition active :: "pool_state \<Rightarrow> lease_class \<Rightarrow> int" where
  "active st c =
     (case c of LcStream \<Rightarrow> active_stream st | LcMaintenance \<Rightarrow> active_maintenance st | LcAdmission \<Rightarrow> active_admission st)"

text \<open>\<open>*st.active_mut(class) += d\<close>.\<close>

definition active_add :: "lease_class \<Rightarrow> int \<Rightarrow> pool_state \<Rightarrow> pool_state" where
  "active_add c d st =
     (case c of
        LcStream \<Rightarrow> st\<lparr>active_stream := active_stream st + d\<rparr>
      | LcMaintenance \<Rightarrow> st\<lparr>active_maintenance := active_maintenance st + d\<rparr>
      | LcAdmission \<Rightarrow> st\<lparr>active_admission := active_admission st + d\<rparr>)"

record connection_pool =
  cp_config :: pool_config
  cp_state :: pool_state
  next_physical_id :: u64
  physical_created :: u64
  leases_issued :: u64

definition pool_new :: "pool_config \<Rightarrow> connection_pool" where
  "pool_new cfg =
     \<lparr>cp_config = cfg,
      cp_state = \<lparr>ps_idle = [], ps_live = 0, active_stream = 0, active_maintenance = 0, active_admission = 0\<rparr>,
      next_physical_id = 1, physical_created = 0, leases_issued = 0\<rparr>"

record lease =
  ls_physical :: physical
  ls_class :: lease_class
  ls_physical_id :: u64
  ls_generation :: u64

section \<open>Acquiring\<close>

datatype take_kind = Existing physical | Create u64

text \<open>The first section of \<open>acquire\<close>: admission by class, then an idle connection or the right to open one.\<close>

definition acquire_take :: "lease_class \<Rightarrow> connection_pool \<Rightarrow> engine_error + take_kind \<times> connection_pool" where
  "acquire_take c p =
     (let st = cp_state p
      in if active st c \<ge> int (capacity c)
         then Inl (EngConnectionsExhausted (lease_class_as_str c) (capacity c))
         else case ps_idle st of
                _ # _ \<Rightarrow>
                  Inr (Existing (last (ps_idle st)),
                       p\<lparr>cp_state := active_add c 1 (st\<lparr>ps_idle := butlast (ps_idle st)\<rparr>)\<rparr>)
              | [] \<Rightarrow>
                  if ps_live st \<ge> int max_physical_connections
                  then Inl (EngConnectionsExhausted ''physical'' max_physical_connections)
                  else Inr (Create (next_physical_id p),
                            p\<lparr>cp_state := (active_add c 1 st)\<lparr>ps_live := ps_live st + 1\<rparr>,
                              next_physical_id := next_physical_id p + 1\<rparr>))"

text \<open>The lease handed out on a physical connection.\<close>

definition issue :: "lease_class \<Rightarrow> physical \<Rightarrow> connection_pool \<Rightarrow> lease \<times> connection_pool" where
  "issue c ph p =
     (let ph' = ph\<lparr>ph_leases := ph_leases ph + 1\<rparr>
      in (\<lparr>ls_physical = ph', ls_class = c, ls_physical_id = ph_id ph', ls_generation = ph_leases ph'\<rparr>,
          p\<lparr>leases_issued := leases_issued p + 1\<rparr>))"

definition create_ok :: "u64 \<Rightarrow> connection_pool \<Rightarrow> physical \<times> connection_pool" where
  "create_ok i p = (\<lparr>ph_id = i, ph_leases = 0\<rparr>, p\<lparr>physical_created := physical_created p + 1\<rparr>)"

text \<open>The section that gives up both reservations when configuration failed, and \<open>discard\<close>.\<close>

definition discard :: "lease_class \<Rightarrow> connection_pool \<Rightarrow> connection_pool" where
  "discard c p =
     p\<lparr>cp_state := (active_add c (- 1) (cp_state p))\<lparr>ps_live := ps_live (cp_state p) - 1\<rparr>\<rparr>"

text \<open>\<open>acquire\<close>, run without interleaving; \<open>configured\<close> is what \<open>configure_new\<close> answers.\<close>

definition acquire ::
    "engine_error + unit \<Rightarrow> lease_class \<Rightarrow> connection_pool \<Rightarrow> (engine_error + lease) \<times> connection_pool" where
  "acquire configured c p =
     (case acquire_take c p of
        Inl e \<Rightarrow> (Inl e, p)
      | Inr (Existing ph, p1) \<Rightarrow> (let (l, p2) = issue c ph p1 in (Inr l, p2))
      | Inr (Create i, p1) \<Rightarrow>
          (case configured of
             Inl e \<Rightarrow> (Inl e, discard c p1)
           | Inr _ \<Rightarrow> (let (ph, p2) = create_ok i p1; (l, p3) = issue c ph p2 in (Inr l, p3))))"

section \<open>Giving back\<close>

definition return_healthy :: "lease_class \<Rightarrow> physical \<Rightarrow> connection_pool \<Rightarrow> connection_pool" where
  "return_healthy c ph p =
     (let st = active_add c (- 1) (cp_state p)
      in if length (ps_idle st) < max_idle (cp_config p)
         then p\<lparr>cp_state := st\<lparr>ps_idle := ps_idle st @ [ph]\<rparr>\<rparr>
         else p\<lparr>cp_state := st\<lparr>ps_live := ps_live st - 1\<rparr>\<rparr>)"

definition drop_lease :: "lease \<Rightarrow> connection_pool \<Rightarrow> connection_pool" where
  "drop_lease l p = discard (ls_class l) p"

text \<open>\<open>release_healthy\<close>: a connection that does not verify is dropped with its lease.\<close>

definition release_healthy :: "bool \<Rightarrow> lease \<Rightarrow> connection_pool \<Rightarrow> connection_pool" where
  "release_healthy healthy l p =
     (if healthy then return_healthy (ls_class l) (ls_physical l) p else drop_lease l p)"

definition reused_an_existing_connection :: "lease \<Rightarrow> bool" where
  "reused_an_existing_connection l \<longleftrightarrow> ls_generation l > 1"

definition idle_connections :: "connection_pool \<Rightarrow> nat" where
  "idle_connections p = length (ps_idle (cp_state p))"

definition live_connections :: "connection_pool \<Rightarrow> int" where
  "live_connections p = ps_live (cp_state p)"

definition active_leases :: "connection_pool \<Rightarrow> int" where
  "active_leases p = active_stream (cp_state p) + active_maintenance (cp_state p) + active_admission (cp_state p)"

section \<open>Interleavings\<close>

text \<open>
  A pool with the classes of the acquisitions that are configuring a new connection and the
  leases that are out. Any thread may take any step between two sections.
\<close>

record pool_sys =
  sy_pool :: connection_pool
  sy_creating :: "(lease_class \<times> u64) multiset"
  sy_leases :: "lease multiset"

inductive pool_step :: "pool_sys \<Rightarrow> pool_sys \<Rightarrow> bool" where
  take_existing:
    "acquire_take c (sy_pool s) = Inr (Existing ph, p1) \<Longrightarrow> issue c ph p1 = (l, p2) \<Longrightarrow>
     pool_step s (s\<lparr>sy_pool := p2, sy_leases := add_mset l (sy_leases s)\<rparr>)"
| take_create:
    "acquire_take c (sy_pool s) = Inr (Create i, p1) \<Longrightarrow>
     pool_step s (s\<lparr>sy_pool := p1, sy_creating := add_mset (c, i) (sy_creating s)\<rparr>)"
| created:
    "(c, i) \<in># sy_creating s \<Longrightarrow> create_ok i (sy_pool s) = (ph, p1) \<Longrightarrow> issue c ph p1 = (l, p2) \<Longrightarrow>
     pool_step s (s\<lparr>sy_pool := p2, sy_creating := sy_creating s - {#(c, i)#}, sy_leases := add_mset l (sy_leases s)\<rparr>)"
| not_created:
    "(c, i) \<in># sy_creating s \<Longrightarrow>
     pool_step s (s\<lparr>sy_pool := discard c (sy_pool s), sy_creating := sy_creating s - {#(c, i)#}\<rparr>)"
| released:
    "l \<in># sy_leases s \<Longrightarrow>
     pool_step s (s\<lparr>sy_pool := release_healthy healthy l (sy_pool s), sy_leases := sy_leases s - {#l#}\<rparr>)"
| dropped:
    "l \<in># sy_leases s \<Longrightarrow>
     pool_step s (s\<lparr>sy_pool := drop_lease l (sy_pool s), sy_leases := sy_leases s - {#l#}\<rparr>)"

inductive pool_reachable :: "pool_config \<Rightarrow> pool_sys \<Rightarrow> bool" for cfg where
  initial: "pool_reachable cfg \<lparr>sy_pool = pool_new cfg, sy_creating = {#}, sy_leases = {#}\<rparr>"
| step: "pool_reachable cfg s \<Longrightarrow> pool_step s t \<Longrightarrow> pool_reachable cfg t"

section \<open>Invariant\<close>

text \<open>What a class holds: its leases and its acquisitions in progress.\<close>

definition held :: "pool_sys \<Rightarrow> lease_class \<Rightarrow> nat" where
  "held s c = size {#x \<in># sy_creating s. fst x = c#} + size {#l \<in># sy_leases s. ls_class l = c#}"

definition pool_inv :: "pool_config \<Rightarrow> pool_sys \<Rightarrow> bool" where
  "pool_inv cfg s \<longleftrightarrow>
     cp_config (sy_pool s) = cfg \<and>
     length (ps_idle (cp_state (sy_pool s))) \<le> max_idle cfg \<and>
     (\<forall>c. active (cp_state (sy_pool s)) c = int (held s c) \<and> held s c \<le> capacity c) \<and>
     ps_live (cp_state (sy_pool s)) =
       int (length (ps_idle (cp_state (sy_pool s))) + size (sy_creating s) + size (sy_leases s)) \<and>
     ps_live (cp_state (sy_pool s)) \<le> int max_physical_connections"

lemma active_add_simps [simp]:
  "active (active_add c d st) c' = active st c' + (if c = c' then d else 0)"
  "ps_idle (active_add c d st) = ps_idle st" "ps_live (active_add c d st) = ps_live st"
  "active (st\<lparr>ps_idle := xs\<rparr>) c = active st c" "active (st\<lparr>ps_live := n\<rparr>) c = active st c"
  by (cases c; cases c'; simp add: active_def active_add_def)+

lemma size_held:
  "size (sy_creating s) + size (sy_leases s) = held s LcStream + held s LcMaintenance + held s LcAdmission"
proof -
  have "size M = size {#x \<in># M. f x = LcStream#} + size {#x \<in># M. f x = LcMaintenance#} +
      size {#x \<in># M. f x = LcAdmission#}" for M :: "'b multiset" and f
  proof (induction M)
    case (add x M)
    then show ?case by (cases "f x") simp_all
  qed simp
  from this [of "sy_creating s" fst] this [of "sy_leases s" ls_class] show ?thesis
    by (simp add: held_def)
qed

lemma capacity_sum: "capacity LcStream + capacity LcMaintenance + capacity LcAdmission = max_physical_connections"
  by (simp add: capacity_def max_physical_connections_def)

lemma held_remove_lease:
  "l \<in># sy_leases s \<Longrightarrow> held (s\<lparr>sy_pool := p, sy_leases := sy_leases s - {#l#}\<rparr>) c + (if ls_class l = c then 1 else 0) = held s c"
  by (auto simp: held_def filter_diff_mset size_Diff_singleton dest!: multi_member_split)

lemma held_remove_creating:
  "(c', i) \<in># sy_creating s \<Longrightarrow>
   held (s\<lparr>sy_pool := p, sy_creating := sy_creating s - {#(c', i)#}\<rparr>) c + (if c' = c then 1 else 0) = held s c"
  by (auto simp: held_def dest!: multi_member_split)

lemma acquire_take_Existing:
  "acquire_take c p = Inr (Existing ph, p1) \<Longrightarrow>
   active (cp_state p) c < int (capacity c) \<and> ps_idle (cp_state p) = ps_idle (cp_state p1) @ [ph] \<and>
   ps_live (cp_state p1) = ps_live (cp_state p) \<and> cp_config p1 = cp_config p \<and>
   (\<forall>c'. active (cp_state p1) c' = active (cp_state p) c' + (if c = c' then 1 else 0))"
  by (auto simp: acquire_take_def Let_def split: if_splits list.splits)

lemma acquire_take_Create:
  "acquire_take c p = Inr (Create i, p1) \<Longrightarrow>
   active (cp_state p) c < int (capacity c) \<and> ps_idle (cp_state p) = [] \<and> ps_idle (cp_state p1) = [] \<and>
   ps_live (cp_state p) < int max_physical_connections \<and>
   ps_live (cp_state p1) = ps_live (cp_state p) + 1 \<and> cp_config p1 = cp_config p \<and>
   (\<forall>c'. active (cp_state p1) c' = active (cp_state p) c' + (if c = c' then 1 else 0))"
  by (auto simp: acquire_take_def Let_def split: if_splits list.splits)

lemma issue_simps:
  "issue c ph p = (l, p2) \<Longrightarrow> ls_class l = c \<and> cp_state p2 = cp_state p \<and> cp_config p2 = cp_config p"
  by (auto simp: issue_def Let_def)

lemma create_ok_simps: "create_ok i p = (ph, p1) \<Longrightarrow> cp_state p1 = cp_state p \<and> cp_config p1 = cp_config p"
  by (auto simp: create_ok_def)

lemma discard_simps [simp]:
  "cp_config (discard c p) = cp_config p" "ps_idle (cp_state (discard c p)) = ps_idle (cp_state p)"
  "ps_live (cp_state (discard c p)) = ps_live (cp_state p) - 1"
  "active (cp_state (discard c p)) c' = active (cp_state p) c' - (if c = c' then 1 else 0)"
  by (simp_all add: discard_def)

lemma return_healthy_simps:
  "cp_config (return_healthy c ph p) = cp_config p"
  "active (cp_state (return_healthy c ph p)) c' = active (cp_state p) c' - (if c = c' then 1 else 0)"
  "ps_live (cp_state (return_healthy c ph p)) - int (length (ps_idle (cp_state (return_healthy c ph p)))) =
   ps_live (cp_state p) - int (length (ps_idle (cp_state p))) - 1"
  "ps_live (cp_state (return_healthy c ph p)) \<le> ps_live (cp_state p)"
  "length (ps_idle (cp_state p)) \<le> max_idle (cp_config p) \<Longrightarrow>
   length (ps_idle (cp_state (return_healthy c ph p))) \<le> max_idle (cp_config p)"
  by (simp_all add: return_healthy_def Let_def)

text \<open>A lease given back in either way leaves the pool's accounts balanced.\<close>

lemma pool_inv_give_back:
  assumes "pool_inv cfg s" "l \<in># sy_leases s"
    and "p = return_healthy (ls_class l) ph (sy_pool s) \<or> p = discard (ls_class l) (sy_pool s)"
  shows "pool_inv cfg (s\<lparr>sy_pool := p, sy_leases := sy_leases s - {#l#}\<rparr>)"
proof -
  have sz: "int (size (sy_leases s - {#l#})) = int (size (sy_leases s)) - 1"
    using assms(2) by (auto dest!: multi_member_split)
  have h: "int (held (s\<lparr>sy_pool := p, sy_leases := sy_leases s - {#l#}\<rparr>) c) =
      int (held s c) - (if ls_class l = c then 1 else 0)" for c
    using held_remove_lease [OF assms(2), of p c] by (simp split: if_splits)
  have le: "held (s\<lparr>sy_pool := p, sy_leases := sy_leases s - {#l#}\<rparr>) c \<le> capacity c" for c
    using held_remove_lease [OF assms(2), of p c] assms(1) unfolding pool_inv_def
    by (metis add_leD1)
  from assms(3) show ?thesis
  proof
    assume p: "p = return_healthy (ls_class l) ph (sy_pool s)"
    show ?thesis
      using assms(1) return_healthy_simps(3,4,5) [where c = "ls_class l" and ph = ph and p = "sy_pool s"] le
      by (auto simp: pool_inv_def p return_healthy_simps(1,2) h [unfolded p] sz)
  next
    assume p: "p = discard (ls_class l) (sy_pool s)"
    show ?thesis using assms(1) le by (auto simp: pool_inv_def p h [unfolded p] sz)
  qed
qed

lemma pool_step_inv:
  assumes "pool_step s t" "pool_inv cfg s"
  shows "pool_inv cfg t"
  using assms
proof cases
  case (take_existing c ph p1 l p2)
  note f = acquire_take_Existing [OF take_existing(2)] issue_simps [OF take_existing(3)]
  have "held t c' = held s c' + (if c = c' then 1 else 0)" for c'
    using f(2) by (simp add: take_existing(1) held_def)
  with f assms(2) show ?thesis by (auto simp: pool_inv_def take_existing(1))
next
  case (take_create c i p1)
  note f = acquire_take_Create [OF take_create(2)]
  have "held t c' = held s c' + (if c = c' then 1 else 0)" for c'
    by (simp add: take_create(1) held_def)
  with f assms(2) show ?thesis by (auto simp: pool_inv_def take_create(1))
next
  case (created c i ph p1 l p2)
  note f = create_ok_simps [OF created(3)] issue_simps [OF created(4)]
  obtain M where M: "sy_creating s = add_mset (c, i) M" using created(2) by (auto dest!: multi_member_split)
  have "held t c' = held s c'" for c' using f(2) by (simp add: created(1) held_def M)
  with f assms(2) show ?thesis by (auto simp: pool_inv_def created(1) M)
next
  case (not_created c i)
  obtain M where M: "sy_creating s = add_mset (c, i) M" using not_created(2) by (auto dest!: multi_member_split)
  have h: "held s c' = held t c' + (if c = c' then 1 else 0)" for c' by (simp add: not_created(1) held_def M)
  then have "held t c' \<le> capacity c'" for c' using assms(2) unfolding pool_inv_def by (metis add_leD1)
  with h assms(2) show ?thesis by (auto simp: pool_inv_def not_created(1) M)
next
  case (released l healthy)
  then show ?thesis using assms(2) pool_inv_give_back
    by (metis drop_lease_def release_healthy_def)
next
  case (dropped l)
  then show ?thesis using assms(2) pool_inv_give_back by (metis drop_lease_def)
qed

lemma pool_reachable_inv: "pool_reachable cfg s \<Longrightarrow> pool_inv cfg s"
proof (induction rule: pool_reachable.induct)
  case initial
  show ?case
    by (simp add: pool_inv_def pool_new_def held_def active_def split: lease_class.split)
next
  case (step s t)
  show ?case by (rule pool_step_inv [OF step.hyps(2) step.IH])
qed

lemma take_refusals:
  assumes "pool_inv cfg s"
  shows "acquire_take c (sy_pool s) = Inl e \<longleftrightarrow>
    held s c = capacity c \<and> e = EngConnectionsExhausted (lease_class_as_str c) (capacity c)"
proof (cases "held s c = capacity c")
  case True
  then show ?thesis using assms by (auto simp: acquire_take_def pool_inv_def)
next
  case False
  then have lt: "held s c < capacity c" using assms unfolding pool_inv_def by (metis le_neq_implies_less)
  have le: "held s c' \<le> capacity c'" for c' using assms by (simp add: pool_inv_def)
  have "size (sy_creating s) + size (sy_leases s) < max_physical_connections"
    using lt le [of LcStream] le [of LcMaintenance] le [of LcAdmission]
    unfolding size_held capacity_sum [symmetric] by (cases c) auto
  then have "ps_idle (cp_state (sy_pool s)) = [] \<Longrightarrow> ps_live (cp_state (sy_pool s)) < int max_physical_connections"
    using assms by (simp add: pool_inv_def)
  then show ?thesis using lt assms by (auto simp: acquire_take_def pool_inv_def Let_def split: list.splits)
qed

text \<open>
  C20: However threads interleave, the pool's accounts are exact: each class has as many active leases as
  it holds or is configuring, never more than its capacity; the live connections are the idle
  ones, those being configured and those leased, never more than nine, and no counter goes below
  zero. A class is refused exactly when its own capacity is held, so one class cannot starve
  another and the physical ceiling never refuses on its own.
\<close>
theorem pool_accounts_balance:
  assumes "pool_reachable cfg s"
  shows "pool_inv cfg s \<and>
    (\<exists>e. acquire_take c (sy_pool s) = Inl e) = (held s c = capacity c) \<and>
    acquire_take c (sy_pool s) \<noteq> Inl (EngConnectionsExhausted ''physical'' max_physical_connections) \<and>
    active_leases (sy_pool s) = int (size (sy_creating s) + size (sy_leases s))"
proof -
  note inv = pool_reachable_inv [OF assms]
  have "active_leases (sy_pool s) = int (held s LcStream + held s LcMaintenance + held s LcAdmission)"
  proof -
    have "active (cp_state (sy_pool s)) c' = int (held s c')" for c' using inv by (simp add: pool_inv_def)
    from this [of LcStream] this [of LcMaintenance] this [of LcAdmission]
    show ?thesis by (simp add: active_leases_def active_def)
  qed
  moreover have "lease_class_as_str c \<noteq> ''physical''" by (cases c) (simp_all add: lease_class_as_str_def)
  ultimately show ?thesis using inv by (simp add: take_refusals [OF inv] size_held)
qed

theorem pool_accounts_balance_witness:
  "\<exists>s. pool_inv pool_config_reuse s \<and> size (sy_creating s) = 1 \<and>
    (\<exists>e. acquire_take LcMaintenance (sy_pool s) = Inl e) = (held s LcMaintenance = capacity LcMaintenance) \<and>
    held s LcMaintenance = capacity LcMaintenance"
proof -
  let ?s0 = "\<lparr>sy_pool = pool_new pool_config_reuse, sy_creating = {#}, sy_leases = {#}\<rparr>"
  obtain p1 where t: "acquire_take LcMaintenance (pool_new pool_config_reuse) = Inr (Create 1, p1)"
    by (simp add: acquire_take_def pool_new_def active_def capacity_def max_maintenance_connections_def
        max_physical_connections_def max_stream_connections_def max_admission_connections_def)
  let ?s = "?s0\<lparr>sy_pool := p1, sy_creating := add_mset (LcMaintenance, 1) {#}\<rparr>"
  have "pool_reachable pool_config_reuse ?s"
    using pool_reachable.step [OF pool_reachable.initial pool_step.take_create] t by fastforce
  from pool_accounts_balance [OF this, of LcMaintenance] show ?thesis
    by (intro exI [of _ ?s]) (simp add: held_def capacity_def max_maintenance_connections_def)
qed

end
