(* ===== verification/Filter_Walk.thy ===== *)
theory Filter_Walk
  imports Attributes Pool "HOL-Library.List_Lexorder" "HOL-Library.Char_ord"
begin

text \<open>
  \<open>engine/src/predicate.rs\<close>, stages 1 and 2: the parsed tree of a filter predicate is walked
  against the allowlist and its columns are checked against the dataset's namespace. DuckDB and
  \<open>serde_json\<close> answer through the record \<open>duckdb\<close>; a refusal's text is spelled out as in the source.
\<close>

section \<open>Environment\<close>

record duckdb =
  db_serialize :: "string \<Rightarrow> string + string"
  db_parse_json :: "string \<Rightarrow> string + json"
  db_prepare :: "string \<Rightarrow> string + unit"
  db_query_arrow :: "string \<Rightarrow> string + data_type list"
  db_show_type :: "data_type \<Rightarrow> string"

datatype id_source = IdFile | IdMapped string string string | IdSessionOrdinal

record dataset_view =
  dv_file_schema :: "field list"
  dv_geometry_column :: string
  dv_id_source :: id_source

section \<open>Refusals\<close>

definition max_predicate_bytes :: nat where "max_predicate_bytes = 4096"
definition max_predicate_depth :: nat where "max_predicate_depth = 32"

definition admitted_arithmetic_functions :: "string list" where
  "admitted_arithmetic_functions = [''+'', ''-'', ''*'', ''/'']"

definition admitted_pattern_functions :: "string list" where
  "admitted_pattern_functions = [''~~'', ''~~*'']"

datatype type_refusal_reason =
    TextWithNonText
  | BooleanConversion
  | LiteralOutOfBounds
  | ConversionCanFail
  | ConversionRounds

datatype filter_error =
    Unparsable string
  | NotASingleExpression nat
  | ConstructNotAdmitted string
  | UnknownColumn string
  | ColumnNotFilterable string string
  | IdentityAliasAmbiguous string string
  | NotBoolean string
  | TooLong nat nat
  | TooDeep nat nat
  | RejectedByBinder string
  | TypeNotAdmitted string "string list" type_refusal_reason

datatype predicate_admit_error =
    Filter filter_error
  | PConnectionsExhausted string nat

section \<open>The probes\<close>

definition sentinel_a :: string where "sentinel_a = ''1=1''"
definition sentinel_a_value :: int where "sentinel_a_value = 1"
definition sentinel_b :: string where "sentinel_b = ''2=2''"
definition sentinel_b_value :: int where "sentinel_b_value = 2"

definition wrap_with :: "string \<Rightarrow> string \<Rightarrow> string" where
  "wrap_with pred sentinel = ''SELECT 1 WHERE ('' @ pred @ '') AND '' @ sentinel"

definition serialize_sql :: "duckdb \<Rightarrow> string \<Rightarrow> filter_error + json" where
  "serialize_sql db wrapped =
     bind_ok
       (map_err (\<lambda>e. Unparsable (''json_serialize_sql could not be called: '' @ e)) (db_serialize db wrapped))
       (\<lambda>json_text.
          map_err (\<lambda>e. Unparsable (''json_serialize_sql returned JSON this module could not parse: '' @ e))
            (db_parse_json db json_text))"

definition known_select_node_keys :: "string list" where
  "known_select_node_keys =
     [''type'', ''modifiers'', ''cte_map'', ''select_list'', ''from_table'', ''where_clause'',
      ''group_expressions'', ''group_sets'', ''aggregate_handling'', ''having'', ''sample'', ''qualify'']"

definition known_statement_keys :: "string list" where
  "known_statement_keys = [''node'', ''named_param_map'']"

definition refuse_unknown_keys :: "json \<Rightarrow> string list \<Rightarrow> string \<Rightarrow> filter_error + unit" where
  "refuse_unknown_keys v known what =
     (case as_object v of
        Some ms \<Rightarrow>
          (case find (\<lambda>k. k \<notin> set known) (map fst ms) of
             Some key \<Rightarrow>
               Inl (ConstructNotAdmitted
                 (''an unrecognized '' @ what @ '' key `'' @ key @ ''` '' @ [CHR 0xE2, CHR 0x80, CHR 0x94] @
                  '' a shape this module does not know how to check, refused rather than silently passed''))
           | None \<Rightarrow> Inr ())
      | None \<Rightarrow> Inl (ConstructNotAdmitted (''a malformed '' @ what @ '' (not a JSON object)'')))"

definition is_integer_constant :: "json option \<Rightarrow> int \<Rightarrow> bool" where
  "is_integer_constant node n =
     (case node of
        Some v \<Rightarrow>
          get_str v ''class'' = Some ''CONSTANT'' \<and>
          Option.bind (Option.bind (jget v ''value'') (\<lambda>w. jget w ''value'')) as_i64 = Some n
      | None \<Rightarrow> False)"

definition is_integer_equality_sentinel :: "json \<Rightarrow> int \<Rightarrow> bool" where
  "is_integer_equality_sentinel node n \<longleftrightarrow>
     get_str node ''class'' = Some ''COMPARISON'' \<and> get_str node ''type'' = Some ''COMPARE_EQUAL'' \<and>
     is_integer_constant (jget node ''left'') n \<and> is_integer_constant (jget node ''right'') n"

definition expect_children :: "json \<Rightarrow> filter_error + json list" where
  "expect_children node =
     ok_or (ConstructNotAdmitted ''a node with no `children` array'') (get_array node ''children'')"

definition missing_field :: "string \<Rightarrow> filter_error" where
  "missing_field what = ConstructNotAdmitted (''a node missing `'' @ what @ ''`'')"

definition em_dash :: string where
  "em_dash = [CHR 0xE2, CHR 0x80, CHR 0x94]"

text \<open>\<open>if !ok { return Err(ConstructNotAdmitted { construct }) }\<close>\<close>

definition require :: "bool \<Rightarrow> string \<Rightarrow> filter_error + unit" where
  "require ok construct = (if ok then Inr () else Inl (ConstructNotAdmitted construct))"

definition empty_array :: "json \<Rightarrow> string \<Rightarrow> bool" where
  "empty_array node key \<longleftrightarrow> get_array node key = Some []"

definition null_member :: "json \<Rightarrow> string \<Rightarrow> bool" where
  "null_member node key = unwrap_or (map_option is_null (jget node key)) False"

definition expect_wrapper_shape :: "json \<Rightarrow> filter_error + json list" where
  "expect_wrapper_shape node =
     (let node_type = unwrap_or (get_str node ''type'') ''<missing type>''
      in bind_ok (require (node_type = ''SELECT_NODE'')
           (''a top-level statement of type `'' @ node_type @ ''`, not a bare SELECT'')) (\<lambda>_.
         bind_ok (refuse_unknown_keys node known_select_node_keys ''SELECT_NODE'') (\<lambda>_.
         bind_ok (require (empty_array node ''modifiers'')
           (''a query modifier (DISTINCT/ORDER BY/LIMIT on the wrapper'' @ [CHR 0x27] @ ''s own SELECT)'')) (\<lambda>_.
         bind_ok (require (Option.bind (jget node ''cte_map'') (\<lambda>m. get_array m ''map'') = Some [])
           ''a WITH / common table expression'') (\<lambda>_.
         bind_ok (ok_or (ConstructNotAdmitted ''a malformed select_list'') (get_array node ''select_list'')) (\<lambda>select_list.
         bind_ok (require (case select_list of [x] \<Rightarrow> get_str x ''class'' = Some ''CONSTANT'' | _ \<Rightarrow> False)
           (''the wrapper'' @ [CHR 0x27] @ ''s own `SELECT 1` was altered'')) (\<lambda>_.
         bind_ok (require (Option.bind (jget node ''from_table'') (\<lambda>t. get_str t ''type'') = Some ''EMPTY'')
           ''a FROM clause'') (\<lambda>_.
         bind_ok (require (empty_array node ''group_expressions'' \<and> empty_array node ''group_sets'')
           ''a GROUP BY clause'') (\<lambda>_.
         bind_ok (require (get_str node ''aggregate_handling'' = Some ''STANDARD_HANDLING'')
           ''non-standard aggregate handling'') (\<lambda>_.
         bind_ok (require (null_member node ''having'') ''a HAVING clause'') (\<lambda>_.
         bind_ok (require (null_member node ''sample'') ''a SAMPLE clause'') (\<lambda>_.
         bind_ok (require (null_member node ''qualify'') ''a QUALIFY clause'') (\<lambda>_.
         bind_ok (case jget node ''where_clause'' of
                    Some w \<Rightarrow> if is_null w then Inl (ConstructNotAdmitted ''an empty predicate (no WHERE expression at all)'')
                              else Inr w
                  | None \<Rightarrow> Inl (ConstructNotAdmitted ''an empty predicate (no WHERE expression at all)'')) (\<lambda>where_clause.
         bind_ok (require (get_str where_clause ''class'' = Some ''CONJUNCTION'' \<and>
                           get_str where_clause ''type'' = Some ''CONJUNCTION_AND'')
           (''the predicate does not compose with this module'' @ [CHR 0x27] @ ''s own AND-sentinel the way real '' @
            ''composition, `(<predicate>) AND <bbox>`, would '' @ em_dash @ '' the caller'' @ [CHR 0x27] @
            ''s text re-associated across the paren this module added'')) (\<lambda>_.
         expect_children where_clause)))))))))))))))"

definition parse_and_children :: "duckdb \<Rightarrow> string \<Rightarrow> string \<Rightarrow> filter_error + json list" where
  "parse_and_children db pred sentinel =
     bind_ok (serialize_sql db (wrap_with pred sentinel)) (\<lambda>payload.
     if unwrap_or (get_bool payload ''error'') True
     then Inl (Unparsable (unwrap_or (get_str payload ''error_message'')
            ''json_serialize_sql reported an error with no error_message field''))
     else
       bind_ok (ok_or (Unparsable (''json_serialize_sql'' @ [CHR 0x27] @ ''s payload carries no `statements` array''))
                  (get_array payload ''statements'')) (\<lambda>statements.
       case statements of
         [stmt] \<Rightarrow>
           bind_ok (refuse_unknown_keys stmt known_statement_keys ''statement'') (\<lambda>_.
           bind_ok (require (get_array stmt ''named_param_map'' = Some [])
             (''a bind parameter (the statement'' @ [CHR 0x27] @ ''s named_param_map is non-empty)'')) (\<lambda>_.
           bind_ok (ok_or (ConstructNotAdmitted ''a statement with no `node`'') (jget stmt ''node'')) expect_wrapper_shape))
       | _ \<Rightarrow> Inl (NotASingleExpression (length statements))))"

definition probe_mismatch :: "string \<Rightarrow> filter_error" where
  "probe_mismatch detail =
     ConstructNotAdmitted
       (''the predicate does not provably compose with this module'' @ [CHR 0x27] @ ''s own AND-sentinel the way '' @
        ''real composition, `(<predicate>) AND <bbox>`, would ('' @ detail @ '') '' @ em_dash @ '' the caller'' @
        [CHR 0x27] @ ''s text re-associated, truncated, or forged a sentinel across the paren this module added'')"

definition differential_operands :: "duckdb \<Rightarrow> string \<Rightarrow> filter_error + json list" where
  "differential_operands db pred =
     bind_ok (parse_and_children db pred sentinel_a) (\<lambda>children_a.
     bind_ok (parse_and_children db pred sentinel_b) (\<lambda>children_b.
     if children_a = [] then
       Inl (probe_mismatch (''probe A'' @ [CHR 0x27] @ ''s top-level AND has no operands''))
     else if children_b = [] then
       Inl (probe_mismatch (''probe B'' @ [CHR 0x27] @ ''s top-level AND has no operands''))
     else if \<not> is_integer_equality_sentinel (last children_a) sentinel_a_value then
       Inl (probe_mismatch (''probe A'' @ [CHR 0x27] @ ''s last operand is not this module'' @ [CHR 0x27] @ ''s own 1=1 sentinel''))
     else if \<not> is_integer_equality_sentinel (last children_b) sentinel_b_value then
       Inl (probe_mismatch (''probe B'' @ [CHR 0x27] @ ''s last operand is not this module'' @ [CHR 0x27] @ ''s own 2=2 sentinel''))
     else if \<not> values_eq (butlast children_a) (butlast children_b) then
       Inl (probe_mismatch ''the two differentially-sentineled parses disagree on everything before the sentinel'')
     else Inr (butlast children_a)))"

section \<open>The allowlist walk\<close>

text \<open>
  \<open>walk_expr\<close> threads the column list; \<open>walk_all\<close> is its \<open>for child in children\<close> loop and
  \<open>walk_members\<close> the loop over the members of an \<open>IN\<close> list. The depth ceiling ends the recursion.
\<close>

function walk_expr :: "json \<Rightarrow> nat \<Rightarrow> string list \<Rightarrow> filter_error + string list"
and walk_all :: "json list \<Rightarrow> nat \<Rightarrow> string list \<Rightarrow> filter_error + string list"
and walk_members :: "json list \<Rightarrow> nat \<Rightarrow> string list \<Rightarrow> filter_error + string list" where
  "walk_expr node depth columns =
     (if depth > max_predicate_depth then Inl (TooDeep max_predicate_depth depth)
      else
        bind_ok (ok_or (ConstructNotAdmitted ''an expression node with no `class`'') (get_str node ''class'')) (\<lambda>cls.
        if cls = ''CONSTANT'' then Inr columns
        else if cls = ''COLUMN_REF'' then
          bind_ok (ok_or (ConstructNotAdmitted ''a COLUMN_REF with no column_names'') (get_array node ''column_names'')) (\<lambda>names.
          case names of
            [v] \<Rightarrow>
              bind_ok (ok_or (ConstructNotAdmitted ''a COLUMN_REF whose name is not a string'') (as_str v)) (\<lambda>name.
              Inr (columns @ [name]))
          | _ \<Rightarrow>
              Inl (ConstructNotAdmitted
                (''a qualified column reference (table.column) '' @ em_dash @ '' this predicate names no table'')))
        else if cls = ''CONJUNCTION'' then
          bind_ok (expect_children node) (\<lambda>children. walk_all children (depth + 1) columns)
        else if cls = ''COMPARISON'' then
          bind_ok (ok_or (missing_field ''COMPARISON.left'') (jget node ''left'')) (\<lambda>l.
          bind_ok (ok_or (missing_field ''COMPARISON.right'') (jget node ''right'')) (\<lambda>r.
          bind_ok (walk_expr l (depth + 1) columns) (\<lambda>columns.
          walk_expr r (depth + 1) columns)))
        else if cls = ''BETWEEN'' then
          bind_ok (ok_or (missing_field ''BETWEEN.input'') (jget node ''input'')) (\<lambda>inp.
          bind_ok (ok_or (missing_field ''BETWEEN.lower'') (jget node ''lower'')) (\<lambda>lo.
          bind_ok (ok_or (missing_field ''BETWEEN.upper'') (jget node ''upper'')) (\<lambda>hi.
          bind_ok (walk_expr inp (depth + 1) columns) (\<lambda>columns.
          bind_ok (walk_expr lo (depth + 1) columns) (\<lambda>columns.
          walk_expr hi (depth + 1) columns)))))
        else if cls = ''OPERATOR'' then
          (let op_type = unwrap_or (get_str node ''type'') ''<missing type>''
           in if op_type \<in> {''OPERATOR_NOT'', ''OPERATOR_IS_NULL'', ''OPERATOR_IS_NOT_NULL''} then
                bind_ok (expect_children node) (\<lambda>children.
                case children of
                  [x] \<Rightarrow> walk_expr x (depth + 1) columns
                | _ \<Rightarrow> Inl (ConstructNotAdmitted (op_type @ '' with '' @ show_nat (length children) @ '' operand(s)'')))
              else if op_type = ''COMPARE_IN'' then
                bind_ok (expect_children node) (\<lambda>children.
                case children of
                  needle # m # ms \<Rightarrow>
                    bind_ok (walk_expr needle (depth + 1) columns) (\<lambda>columns. walk_members (m # ms) (depth + 1) columns)
                | _ \<Rightarrow> Inl (ConstructNotAdmitted ''IN with an empty list''))
              else Inl (ConstructNotAdmitted (''OPERATOR::'' @ op_type)))
        else if cls = ''FUNCTION'' then
          (let name = unwrap_or (get_str node ''function_name'') ''<missing name>'';
               is_operator = unwrap_or (get_bool node ''is_operator'') False
           in bind_ok (expect_children node) (\<lambda>children.
              if is_operator \<and> name \<in> set admitted_arithmetic_functions then
                walk_all children (depth + 1) columns
              else if is_operator \<and> name \<in> set admitted_pattern_functions then
                (case children of
                   [operand, pattern] \<Rightarrow>
                     if get_str pattern ''class'' \<noteq> Some ''CONSTANT'' then
                       Inl (ConstructNotAdmitted (''`'' @ name @ ''` (LIKE/ILIKE) with a non-literal pattern''))
                     else
                       bind_ok (walk_expr operand (depth + 1) columns) (\<lambda>columns.
                       walk_expr pattern (depth + 1) columns)
                 | _ \<Rightarrow>
                     Inl (ConstructNotAdmitted
                       (''`'' @ name @ ''` (LIKE/ILIKE) with '' @ show_nat (length children) @ '' operand(s)'')))
              else Inl (ConstructNotAdmitted (''a function call (`'' @ name @ ''`)''))))
        else if cls = ''CAST'' then Inl (ConstructNotAdmitted ''CAST'')
        else if cls = ''SUBQUERY'' then Inl (ConstructNotAdmitted ''a subquery'')
        else if cls = ''PARAMETER'' then Inl (ConstructNotAdmitted ''a bind parameter placeholder'')
        else if cls = ''STAR'' then Inl (ConstructNotAdmitted ''a star expression'')
        else
          Inl (ConstructNotAdmitted
            (''an unrecognized node class `'' @ cls @ ''` '' @ em_dash @ '' refused, never admitted, because this '' @
             ''module cannot name what it would be admitting''))))"
| "walk_all [] depth columns = Inr columns"
| "walk_all (c # cs) depth columns =
     bind_ok (walk_expr c depth columns) (\<lambda>columns. walk_all cs depth columns)"
| "walk_members [] depth columns = Inr columns"
| "walk_members (m # ms) depth columns =
     (if get_str m ''class'' \<noteq> Some ''CONSTANT'' then
        Inl (ConstructNotAdmitted ''IN with a non-literal list member'')
      else bind_ok (walk_expr m depth columns) (\<lambda>columns. walk_members ms depth columns))"
  by pat_completeness auto
termination
  by (relation "measures
       [case_sum (\<lambda>(_, d, _). 34 - d) (case_sum (\<lambda>(_, d, _). 34 - d) (\<lambda>(_, d, _). 34 - d)),
        case_sum (\<lambda>_. 0) (case_sum (\<lambda>(cs, _, _). 1 + length cs) (\<lambda>(cs, _, _). 1 + length cs))]")
     (auto simp: max_predicate_depth_def)

declare walk_expr.simps [simp del]

record structural_admission =
  sa_columns :: "string list"
  sa_operands :: "json list"

definition structural_admit :: "duckdb \<Rightarrow> string \<Rightarrow> filter_error + structural_admission" where
  "structural_admit db pred =
     (if length pred > max_predicate_bytes then Inl (TooLong max_predicate_bytes (length pred))
      else
        bind_ok (differential_operands db pred) (\<lambda>operands.
        if operands = [] then
          Inl (ConstructNotAdmitted
            (''an empty predicate (nothing but this module'' @ [CHR 0x27] @ ''s own AND-sentinel)''))
        else
          bind_ok (walk_all operands 1 []) (\<lambda>columns.
          Inr \<lparr>sa_columns = columns, sa_operands = operands\<rparr>)))"

section \<open>The namespace\<close>

definition identity_alias_ambiguity :: "dataset_view \<Rightarrow> (string \<times> string) option" where
  "identity_alias_ambiguity ds =
     (case dv_id_source ds of
        IdMapped column _ _ \<Rightarrow>
          if column \<noteq> id_column \<and> list_ex (\<lambda>f. fd_name f = id_column) (dv_file_schema ds)
          then Some (id_column, column) else None
      | _ \<Rightarrow> None)"

definition filterable_column_type :: "(data_type \<Rightarrow> string) \<Rightarrow> string \<Rightarrow> field \<Rightarrow> filter_error + data_type" where
  "filterable_column_type show_dt name fd =
     (case not_addressable_for_field fd of
        Some naf \<Rightarrow> Inl (ColumnNotFilterable name (fact_render naf))
      | None \<Rightarrow>
          (case fd_type fd of
             DDictionary _ _ \<Rightarrow>
               Inl (ColumnNotFilterable name
                 (''type is '' @ show_dt (fd_type fd) @ ''. This column is dictionary-encoded, and dictionary-encoded '' @
                  ''columns are excluded from the filter namespace''))
           | _ \<Rightarrow>
               map_err (\<lambda>e. ColumnNotFilterable name (engine_error_display e))
                 (admit_attribute_type show_dt name (fd_type fd))))"

definition duckdb_type_name :: "data_type \<Rightarrow> string option" where
  "duckdb_type_name ty =
     (case ty of
        DUtf8 \<Rightarrow> Some ''VARCHAR'' | DLargeUtf8 \<Rightarrow> Some ''VARCHAR'' | DUtf8View \<Rightarrow> Some ''VARCHAR''
      | DBoolean \<Rightarrow> Some ''BOOLEAN''
      | DInt8 \<Rightarrow> Some ''TINYINT'' | DInt16 \<Rightarrow> Some ''SMALLINT'' | DInt32 \<Rightarrow> Some ''INTEGER'' | DInt64 \<Rightarrow> Some ''BIGINT''
      | DUInt8 \<Rightarrow> Some ''UTINYINT'' | DUInt16 \<Rightarrow> Some ''USMALLINT'' | DUInt32 \<Rightarrow> Some ''UINTEGER''
      | DUInt64 \<Rightarrow> Some ''UBIGINT''
      | DFloat64 \<Rightarrow> Some ''DOUBLE'' | DFloat32 \<Rightarrow> Some ''REAL''
      | _ \<Rightarrow> None)"

definition filter_surrogate :: "(data_type \<Rightarrow> string) \<Rightarrow> string \<Rightarrow> field \<Rightarrow> filter_error + string" where
  "filter_surrogate show_dt name fd =
     bind_ok (filterable_column_type show_dt name fd) (\<lambda>emitted.
     ok_or (ColumnNotFilterable name
              (''type is '' @ show_dt emitted @ '', which this namespace admits but has no DuckDB surrogate type to '' @
               ''bind against '' @ em_dash @ '' [B1 close placeholder]''))
       (duckdb_type_name emitted))"

text \<open>\<open>BTreeMap::insert\<close> on the map's entries in key order.\<close>

fun btree_insert :: "string \<Rightarrow> 'v \<Rightarrow> (string \<times> 'v) list \<Rightarrow> (string \<times> 'v) list" where
  "btree_insert k v [] = [(k, v)]"
| "btree_insert k v ((l, w) # m) =
     (if k < l then (k, v) # (l, w) # m else if k = l then (k, v) # m else (l, w) # btree_insert k v m)"

fun build_namespace ::
    "(data_type \<Rightarrow> string) \<Rightarrow> string \<Rightarrow> field list \<Rightarrow> (string \<times> string) list \<Rightarrow> (string \<times> string) list" where
  "build_namespace show_dt geometry_column [] m = m"
| "build_namespace show_dt geometry_column (fd # fds) m =
     build_namespace show_dt geometry_column fds
       (if fd_name fd = geometry_column then m
        else case filter_surrogate show_dt (fd_name fd) fd of
               Inr surrogate \<Rightarrow> btree_insert (fd_name fd) surrogate m
             | Inl _ \<Rightarrow> m)"

text \<open>The checks \<open>namespace_admit\<close> makes for each column of the predicate.\<close>

definition admit_name :: "(data_type \<Rightarrow> string) \<Rightarrow> dataset_view \<Rightarrow> string \<Rightarrow> filter_error + unit" where
  "admit_name show_dt ds name =
     bind_ok (case identity_alias_ambiguity ds of
                Some (ambiguous_name, source_column) \<Rightarrow>
                  if name = ambiguous_name then Inl (IdentityAliasAmbiguous name source_column) else Inr ()
              | None \<Rightarrow> Inr ()) (\<lambda>_.
     if name = dv_geometry_column ds then
       Inl (ColumnNotFilterable name
         (''this is the geometry column; it already travels as GeoArrow, and a predicate may reference '' @
          ''attribute columns only''))
     else
       case find (\<lambda>f. fd_name f = name) (dv_file_schema ds) of
         None \<Rightarrow> Inl (UnknownColumn name)
       | Some fd \<Rightarrow> bind_ok (filter_surrogate show_dt name fd) (\<lambda>_. Inr ()))"

fun admit_names :: "(data_type \<Rightarrow> string) \<Rightarrow> dataset_view \<Rightarrow> string list \<Rightarrow> filter_error + unit" where
  "admit_names show_dt ds [] = Inr ()"
| "admit_names show_dt ds (name # names) =
     bind_ok (admit_name show_dt ds name) (\<lambda>_. admit_names show_dt ds names)"

definition namespace_admit ::
    "(data_type \<Rightarrow> string) \<Rightarrow> string list \<Rightarrow> dataset_view \<Rightarrow> filter_error + (string \<times> string) list" where
  "namespace_admit show_dt columns ds =
     bind_ok (admit_names show_dt ds columns) (\<lambda>_.
     Inr (build_namespace show_dt (dv_geometry_column ds) (dv_file_schema ds) []))"

end
