(* ===== verification/Filter_Types.thy ===== *)
theory Filter_Types
  imports Filter_Walk
begin

text \<open>
  \<open>engine/src/predicate.rs\<close>, stage 3: the binder's answer, the type walk over the admitted tree and
  \<open>AdmittedPredicate::admit\<close>, which runs the stages on a lease of the connection pool. An indexing
  out of range, a failed \<open>expect\<close> and \<open>unreachable!\<close> are the fault \<open>Panicked\<close>. An \<open>i128\<close> is an \<open>int\<close>.
\<close>

section \<open>Engine types\<close>

definition max_integer_literal_digits :: nat where "max_integer_literal_digits = 20"
definition max_decimal_literal_scale :: nat where "max_decimal_literal_scale = 18"

datatype fault = Refused filter_error | Panicked string

definition wire_value :: "type_refusal_reason \<Rightarrow> string" where
  "wire_value r =
     (case r of
        TextWithNonText \<Rightarrow> ''text_with_non_text''
      | BooleanConversion \<Rightarrow> ''boolean_conversion''
      | LiteralOutOfBounds \<Rightarrow> ''literal_out_of_bounds''
      | ConversionCanFail \<Rightarrow> ''conversion_can_fail''
      | ConversionRounds \<Rightarrow> ''conversion_rounds'')"

definition names_text_or_boolean :: "string list \<Rightarrow> bool" where
  "names_text_or_boolean operand_types =
     list_ex (\<lambda>t. hd (split_on (CHR '' '') t) \<in> {''VARCHAR'', ''BOOLEAN''}) operand_types"

definition sentence :: "type_refusal_reason \<Rightarrow> string list \<Rightarrow> string" where
  "sentence r operand_types =
     (case r of
        TextWithNonText \<Rightarrow> ''a comparison of text with a non-text value''
      | BooleanConversion \<Rightarrow> ''a conversion to or from BOOLEAN''
      | LiteralOutOfBounds \<Rightarrow>
          ''a numeric literal beyond the declared bounds (20 integer digits; decimal scale 18)''
      | ConversionCanFail \<Rightarrow> ''a conversion that can fail during the scan''
      | ConversionRounds \<Rightarrow>
          if names_text_or_boolean operand_types then
            ''[P6 placeholder] an operand of text or BOOLEAN type beside NULL or beside an operand of its own '' @
            ''type, refused by type''
          else
            ''[P6 placeholder] a conversion between a float type and an integer or decimal type, refused by '' @
            ''type: values of the integer or decimal type can round in the float type'')"

definition filter_error_display :: "filter_error \<Rightarrow> string" where
  "filter_error_display e =
     (case e of
        Unparsable detail \<Rightarrow> ''refused: the predicate did not parse ('' @ detail @ '')''
      | NotASingleExpression statements \<Rightarrow>
          ''refused: the predicate parsed to '' @ show_nat statements @
          '' statement(s), not exactly one boolean expression''
      | ConstructNotAdmitted construct \<Rightarrow>
          ''refused: '' @ construct @ '' is not on the admitted construct list '' @ em_dash @
          '' the no-subquery, no-function-call rules are a docs/09 security boundary, not taste''
      | UnknownColumn column \<Rightarrow> ''refused: `'' @ column @ ''` is not a column this dataset carries''
      | ColumnNotFilterable column reason \<Rightarrow>
          ''refused: `'' @ render_visible_escape column @ ''` cannot be filtered on '' @ em_dash @ '' '' @ reason
      | IdentityAliasAmbiguous column source_column \<Rightarrow>
          ''refused: `'' @ column @ ''` is ambiguous '' @ em_dash @ '' this dataset'' @ [CHR 0x27] @
          ''s identity is mapped from `'' @ source_column @ ''`, and the file also carries its own, unrelated '' @
          ''column literally named `'' @ column @ ''`; a predicate cannot say which one it means''
      | NotBoolean inferred_type \<Rightarrow>
          ''refused: the predicate'' @ [CHR 0x27] @ ''s inferred type is '' @ inferred_type @
          '', not BOOLEAN; an implicit conversion to BOOLEAN is not performed (docs/01 principle 8)''
      | TooLong lim saw \<Rightarrow>
          ''refused: predicate is '' @ show_nat saw @ '' bytes, over the declared ceiling of '' @ show_nat lim
      | TooDeep lim saw \<Rightarrow>
          ''refused: predicate'' @ [CHR 0x27] @ ''s expression tree reached depth '' @ show_nat saw @
          '', over the declared ceiling of '' @ show_nat lim
      | RejectedByBinder detail \<Rightarrow>
          ''refused: DuckDB'' @ [CHR 0x27] @ ''s binder rejected the predicate ('' @ detail @ '')''
      | TypeNotAdmitted construct operand_types reason \<Rightarrow>
          ''refused: `'' @ construct @ ''` over '' @ join_with '' and '' operand_types @ '': '' @
          sentence reason operand_types @ '' (docs/01 principle 8)'')"

definition predicate_admit_error_display :: "predicate_admit_error \<Rightarrow> string" where
  "predicate_admit_error_display e =
     (case e of
        Filter f \<Rightarrow> filter_error_display f
      | PConnectionsExhausted cls cap \<Rightarrow>
          ''refused: no `'' @ cls @ ''`-class connection lease was free (capacity '' @ show_nat cap @ '') '' @ em_dash @
          '' a pool capacity fact, not a refusal of the predicate'' @ [CHR 0x27] @ ''s own text'')"

datatype operand_kind = OkColumn | OkLiteral | OkExpression

datatype engine_type =
    Varchar | EBoolean
  | TinyInt | SmallInt | EInteger | BigInt
  | UTinyInt | USmallInt | UInteger | UBigInt
  | HugeInt | UHugeInt
  | EReal | EDouble
  | EDecimal nat nat
  | ENull

definition engine_type_display :: "engine_type \<Rightarrow> string" where
  "engine_type_display ty =
     (case ty of
        Varchar \<Rightarrow> ''VARCHAR'' | EBoolean \<Rightarrow> ''BOOLEAN''
      | TinyInt \<Rightarrow> ''TINYINT'' | SmallInt \<Rightarrow> ''SMALLINT'' | EInteger \<Rightarrow> ''INTEGER'' | BigInt \<Rightarrow> ''BIGINT''
      | UTinyInt \<Rightarrow> ''UTINYINT'' | USmallInt \<Rightarrow> ''USMALLINT'' | UInteger \<Rightarrow> ''UINTEGER'' | UBigInt \<Rightarrow> ''UBIGINT''
      | HugeInt \<Rightarrow> ''HUGEINT'' | UHugeInt \<Rightarrow> ''UHUGEINT''
      | EReal \<Rightarrow> ''REAL'' | EDouble \<Rightarrow> ''DOUBLE''
      | EDecimal w s \<Rightarrow> ''DECIMAL('' @ show_nat w @ '','' @ show_nat s @ '')''
      | ENull \<Rightarrow> ''NULL'')"

record typed =
  ty :: engine_type
  kind :: operand_kind
  within_bounds :: bool
  literal_int_value :: "int option"
  counts_as_decimal_literal :: bool

definition typed_column :: "engine_type \<Rightarrow> typed" where
  "typed_column t = \<lparr>ty = t, kind = OkColumn, within_bounds = True, literal_int_value = None, counts_as_decimal_literal = False\<rparr>"

definition typed_expression :: "engine_type \<Rightarrow> typed" where
  "typed_expression t =
     \<lparr>ty = t, kind = OkExpression, within_bounds = True, literal_int_value = None, counts_as_decimal_literal = False\<rparr>"

definition typed_render :: "typed \<Rightarrow> string" where
  "typed_render t =
     (case kind t of
        OkColumn \<Rightarrow> engine_type_display (ty t)
      | OkLiteral \<Rightarrow> engine_type_display (ty t) @ '' literal''
      | OkExpression \<Rightarrow> engine_type_display (ty t) @ '' expression'')"

definition boolean_virtual :: typed where "boolean_virtual = typed_column EBoolean"
definition numeric_virtual :: typed where "numeric_virtual = typed_column EDouble"

definition int_bits_signed :: "engine_type \<Rightarrow> (nat \<times> bool) option" where
  "int_bits_signed t =
     (case t of
        TinyInt \<Rightarrow> Some (8, True) | SmallInt \<Rightarrow> Some (16, True) | EInteger \<Rightarrow> Some (32, True)
      | BigInt \<Rightarrow> Some (64, True) | HugeInt \<Rightarrow> Some (128, True)
      | UTinyInt \<Rightarrow> Some (8, False) | USmallInt \<Rightarrow> Some (16, False) | UInteger \<Rightarrow> Some (32, False)
      | UBigInt \<Rightarrow> Some (64, False) | UHugeInt \<Rightarrow> Some (128, False)
      | _ \<Rightarrow> None)"

definition is_decimal_type :: "engine_type \<Rightarrow> bool" where
  "is_decimal_type t = (case t of EDecimal _ _ \<Rightarrow> True | _ \<Rightarrow> False)"

definition is_numeric :: "typed \<Rightarrow> bool" where
  "is_numeric t \<longleftrightarrow> int_bits_signed (ty t) \<noteq> None \<or> ty t = EReal \<or> ty t = EDouble \<or> is_decimal_type (ty t)"

definition bits_signed_to_type :: "nat \<Rightarrow> bool \<Rightarrow> engine_type" where
  "bits_signed_to_type bits is_signed =
     (if is_signed then
        if bits = 8 then TinyInt else if bits = 16 then SmallInt else if bits = 32 then EInteger
        else if bits = 64 then BigInt else HugeInt
      else
        if bits = 8 then UTinyInt else if bits = 16 then USmallInt else if bits = 32 then UInteger
        else if bits = 64 then UBigInt else UHugeInt)"

definition fits_int_type :: "int \<Rightarrow> engine_type \<Rightarrow> bool" where
  "fits_int_type v t =
     (case int_bits_signed t of
        None \<Rightarrow> False
      | Some (bits, is_signed) \<Rightarrow>
          if is_signed then
            if bits = 8 then -128 \<le> v \<and> v \<le> 127
            else if bits = 16 then -32768 \<le> v \<and> v \<le> 32767
            else if bits = 32 then -2147483648 \<le> v \<and> v \<le> 2147483647
            else if bits = 64 then -9223372036854775808 \<le> v \<and> v \<le> 9223372036854775807
            else True
          else
            if bits = 8 then 0 \<le> v \<and> v \<le> 255
            else if bits = 16 then 0 \<le> v \<and> v \<le> 65535
            else if bits = 32 then 0 \<le> v \<and> v \<le> 4294967295
            else if bits = 64 then 0 \<le> v \<and> v \<le> 18446744073709551615
            else 0 \<le> v)"

definition int_promote :: "engine_type \<Rightarrow> engine_type \<Rightarrow> fault + engine_type" where
  "int_promote a b =
     (case (int_bits_signed a, int_bits_signed b) of
        (Some (abits, asig), Some (bbits, bsig)) \<Rightarrow>
          Inr (if asig = bsig then bits_signed_to_type (max abits bbits) asig
               else
                 let (sbits, ubits) = (if asig then (abits, bbits) else (bbits, abits))
                 in if sbits > ubits then bits_signed_to_type sbits True
                    else if ubits \<ge> 64 then HugeInt
                    else BigInt)
      | _ \<Rightarrow> Inl (Panicked ''integer type''))"

definition fold_or_promote_integer :: "typed \<Rightarrow> typed \<Rightarrow> fault + engine_type" where
  "fold_or_promote_integer l r =
     (let folds = (\<lambda>x y. kind x = OkLiteral \<and> kind y \<noteq> OkLiteral \<and>
            (case literal_int_value x of Some v \<Rightarrow> fits_int_type v (ty y) | None \<Rightarrow> False))
      in if folds l r then Inr (ty r)
         else if folds r l then Inr (ty l)
         else int_promote (ty l) (ty r))"

definition engine_type_of_surrogate :: "string \<Rightarrow> fault + engine_type" where
  "engine_type_of_surrogate name =
     (if name = ''VARCHAR'' then Inr Varchar
      else if name = ''BOOLEAN'' then Inr EBoolean
      else if name = ''TINYINT'' then Inr TinyInt
      else if name = ''SMALLINT'' then Inr SmallInt
      else if name = ''INTEGER'' then Inr EInteger
      else if name = ''BIGINT'' then Inr BigInt
      else if name = ''UTINYINT'' then Inr UTinyInt
      else if name = ''USMALLINT'' then Inr USmallInt
      else if name = ''UINTEGER'' then Inr UInteger
      else if name = ''UBIGINT'' then Inr UBigInt
      else if name = ''DOUBLE'' then Inr EDouble
      else if name = ''REAL'' then Inr EReal
      else Inl (Panicked (''namespace_admit only ever inserts duckdb_type_name'' @ [CHR 0x27] @ ''s outputs: '' @ name)))"

section \<open>Literals\<close>

definition i128_max :: int where "i128_max = 2 ^ 127 - 1"

definition integer_literal_value :: "string \<Rightarrow> json option \<Rightarrow> filter_error + int" where
  "integer_literal_value tid raw =
     bind_ok (ok_or (missing_field ''CONSTANT.value.value'') raw) (\<lambda>raw.
     case as_i64 raw of
       Some n \<Rightarrow> Inr n
     | None \<Rightarrow>
       (case as_u64 raw of
          Some n \<Rightarrow> Inr (int n)
        | None \<Rightarrow>
            bind_ok (ok_or (missing_field ''CONSTANT.value.value.lower'') (get_u64 raw ''lower'')) (\<lambda>lower.
            if tid = ''UHUGEINT'' then
              bind_ok (ok_or (missing_field ''CONSTANT.value.value.upper'') (get_u64 raw ''upper'')) (\<lambda>upper.
              Inr (min (int upper * 2 ^ 64 + int lower) i128_max))
            else
              bind_ok (ok_or (missing_field ''CONSTANT.value.value.upper'') (get_i64 raw ''upper'')) (\<lambda>upper.
              Inr (upper * 2 ^ 64 + int lower)))))"

definition typed_literal :: "engine_type \<Rightarrow> bool \<Rightarrow> int option \<Rightarrow> typed" where
  "typed_literal t bounded v =
     \<lparr>ty = t, kind = OkLiteral, within_bounds = bounded, literal_int_value = v, counts_as_decimal_literal = False\<rparr>"

definition literal_typed :: "json \<Rightarrow> filter_error + typed" where
  "literal_typed node =
     bind_ok (ok_or (missing_field ''CONSTANT.value'') (jget node ''value'')) (\<lambda>val.
     if unwrap_or (get_bool val ''is_null'') False then Inr (typed_literal ENull True None)
     else
       bind_ok (ok_or (missing_field ''CONSTANT.value.type'') (jget val ''type'')) (\<lambda>t.
       let tid = unwrap_or (get_str t ''id'') []
       in if tid \<in> {''INTEGER'', ''BIGINT'', ''HUGEINT'', ''UHUGEINT''} then
            bind_ok (integer_literal_value tid (jget val ''value'')) (\<lambda>v.
            Inr (typed_literal
                   (if tid = ''INTEGER'' then EInteger else if tid = ''BIGINT'' then BigInt
                    else if tid = ''HUGEINT'' then HugeInt else UHugeInt)
                   (length (show_nat (nat \<bar>v\<bar>)) \<le> max_integer_literal_digits) (Some v)))
          else if tid = ''DECIMAL'' then
            bind_ok (ok_or (missing_field ''CONSTANT.value.type.type_info'') (jget t ''type_info'')) (\<lambda>info.
            let width = unwrap_or (get_u64 info ''width'') 0 mod 2 ^ 32;
                scale = unwrap_or (get_u64 info ''scale'') 0 mod 2 ^ 32
            in Inr (typed_literal (EDecimal width scale)
                      (scale \<le> max_decimal_literal_scale \<and> width - scale \<le> max_integer_literal_digits) None))
          else if tid = ''DOUBLE'' then Inr (typed_literal EDouble True None)
          else if tid = ''VARCHAR'' then Inr (typed_literal Varchar True None)
          else Inl (ConstructNotAdmitted (''a literal of type `'' @ tid @ ''`''))))"

section \<open>Pairs of operands\<close>

definition bits_le :: "engine_type \<Rightarrow> nat \<Rightarrow> bool" where
  "bits_le t bits = (case int_bits_signed t of Some (b, _) \<Rightarrow> b \<le> bits | None \<Rightarrow> False)"

definition is_int :: "typed \<Rightarrow> bool" where
  "is_int t \<longleftrightarrow> int_bits_signed (ty t) \<noteq> None \<and> within_bounds t"

definition int_le :: "typed \<Rightarrow> nat \<Rightarrow> bool" where
  "int_le t bits \<longleftrightarrow> kind t \<noteq> OkLiteral \<and> is_int t \<and> bits_le (ty t) bits"

definition is_float_nonliteral :: "typed \<Rightarrow> bool" where
  "is_float_nonliteral t \<longleftrightarrow> (ty t = EReal \<or> ty t = EDouble) \<and> kind t \<noteq> OkLiteral"

definition is_double_literal :: "typed \<Rightarrow> bool" where
  "is_double_literal t \<longleftrightarrow> ty t = EDouble \<and> kind t = OkLiteral"

definition is_numeric_lit :: "typed \<Rightarrow> bool" where
  "is_numeric_lit t \<longleftrightarrow>
     kind t = OkLiteral \<and> within_bounds t \<and>
     (int_bits_signed (ty t) \<noteq> None \<or> is_decimal_type (ty t) \<or> ty t = EDouble)"

definition is_decimal_arithmetic_pair :: "typed \<Rightarrow> typed \<Rightarrow> bool" where
  "is_decimal_arithmetic_pair l r \<longleftrightarrow>
     (let int_or_decimal = (\<lambda>t. int_bits_signed (ty t) \<noteq> None \<or> is_decimal_type (ty t))
      in is_decimal_type (ty l) \<and> int_or_decimal r \<or> is_decimal_type (ty r) \<and> int_or_decimal l)"

definition admitted_arithmetic_result :: "typed \<Rightarrow> typed \<Rightarrow> fault + engine_type option" where
  "admitted_arithmetic_result l r =
     (if ty l = ty r \<and> (ty l = EReal \<or> ty l = EDouble) then Inr (Some (ty l))
      else if ty l = ENull \<and> ty r = ENull then Inr (Some BigInt)
      else if ty l = ENull \<and> is_numeric r then Inr (Some (ty r))
      else if ty r = ENull \<and> is_numeric l then Inr (Some (ty l))
      else if is_int l \<and> is_int r then bind_ok (fold_or_promote_integer l r) (\<lambda>t. Inr (Some t))
      else if is_float_nonliteral l \<and> is_numeric_lit r then Inr (Some (if is_double_literal r then EDouble else ty l))
      else if is_float_nonliteral r \<and> is_numeric_lit l then Inr (Some (if is_double_literal l then EDouble else ty r))
      else if ty l = EReal \<and> is_float_nonliteral l \<and> int_le r 16 then Inr (Some EReal)
      else if ty r = EReal \<and> is_float_nonliteral r \<and> int_le l 16 then Inr (Some EReal)
      else if ty l = EDouble \<and> is_float_nonliteral l \<and> int_le r 32 then Inr (Some EDouble)
      else if ty r = EDouble \<and> is_float_nonliteral r \<and> int_le l 32 then Inr (Some EDouble)
      else if ty l = EReal \<and> is_float_nonliteral l \<and> ty r = EDouble \<and> is_float_nonliteral r then Inr (Some EDouble)
      else if ty r = EReal \<and> is_float_nonliteral r \<and> ty l = EDouble \<and> is_float_nonliteral l then Inr (Some EDouble)
      else if is_double_literal l \<and> int_le r 32 then Inr (Some EDouble)
      else if is_double_literal r \<and> int_le l 32 then Inr (Some EDouble)
      else if is_double_literal l \<and> is_numeric_lit r then Inr (Some EDouble)
      else if is_double_literal r \<and> is_numeric_lit l then Inr (Some EDouble)
      else Inr None)"

definition is_int_literal :: "typed \<Rightarrow> bool" where
  "is_int_literal t \<longleftrightarrow> is_int t \<and> kind t = OkLiteral"

definition is_decimal_literal :: "typed \<Rightarrow> bool" where
  "is_decimal_literal t \<longleftrightarrow>
     is_decimal_type (ty t) \<and> (kind t = OkLiteral \<or> counts_as_decimal_literal t) \<and> within_bounds t"

definition is_numeric_literal_within_bounds :: "typed \<Rightarrow> bool" where
  "is_numeric_literal_within_bounds t \<longleftrightarrow>
     (kind t = OkLiteral \<or> counts_as_decimal_literal t) \<and> within_bounds t \<and>
     (int_bits_signed (ty t) \<noteq> None \<or> is_decimal_type (ty t) \<or> ty t = EDouble)"

definition int64_or_literal :: "typed \<Rightarrow> bool" where
  "int64_or_literal t \<longleftrightarrow> is_int t \<and> (kind t = OkLiteral \<or> bits_le (ty t) 64)"

definition is_admitted_comparison :: "typed \<Rightarrow> typed \<Rightarrow> bool" where
  "is_admitted_comparison l r \<longleftrightarrow>
     (if ty l = ty r then True
      else if ty l = ENull \<or> ty r = ENull then True
      else if is_int l \<and> is_int r then True
      else if int64_or_literal l \<and> is_decimal_literal r \<or> int64_or_literal r \<and> is_decimal_literal l then True
      else if is_decimal_literal l \<and> is_decimal_literal r then True
      else if is_double_literal l \<and> int_le r 32 \<or> is_double_literal r \<and> int_le l 32 then True
      else if is_float_nonliteral l \<and> is_numeric_literal_within_bounds r \<or>
              is_float_nonliteral r \<and> is_numeric_literal_within_bounds l then True
      else if is_double_literal l \<and> (is_int_literal r \<or> is_decimal_literal r) \<or>
              is_double_literal r \<and> (is_int_literal l \<or> is_decimal_literal l) then True
      else if ty l = EReal \<and> is_float_nonliteral l \<and> int_le r 16 \<or>
              ty r = EReal \<and> is_float_nonliteral r \<and> int_le l 16 then True
      else if ty l = EDouble \<and> is_float_nonliteral l \<and> int_le r 32 \<or>
              ty r = EDouble \<and> is_float_nonliteral r \<and> int_le l 32 then True
      else if ty l = EReal \<and> is_float_nonliteral l \<and> ty r = EDouble \<and> is_float_nonliteral r then True
      else if ty r = EReal \<and> is_float_nonliteral r \<and> ty l = EDouble \<and> is_float_nonliteral l then True
      else False)"

definition determine_reason :: "typed \<Rightarrow> typed \<Rightarrow> bool \<Rightarrow> type_refusal_reason" where
  "determine_reason l r is_arithmetic =
     (let is_varchar = (\<lambda>t. ty t = Varchar); is_nul = (\<lambda>t. ty t = ENull); is_boolean = (\<lambda>t. ty t = EBoolean);
          is_decimal_lit = (\<lambda>t. is_decimal_type (ty t) \<and> (kind t = OkLiteral \<or> counts_as_decimal_literal t));
          is_wide_int = (\<lambda>t. kind t \<noteq> OkLiteral \<and>
            (case int_bits_signed (ty t) of Some (b, _) \<Rightarrow> b > 64 | None \<Rightarrow> False))
      in if is_varchar l \<and> \<not> is_varchar r \<and> \<not> is_nul r \<or> is_varchar r \<and> \<not> is_varchar l \<and> \<not> is_nul l
         then TextWithNonText
         else if is_boolean l \<and> \<not> is_boolean r \<and> \<not> is_nul r \<or> is_boolean r \<and> \<not> is_boolean l \<and> \<not> is_nul l
         then BooleanConversion
         else if \<not> within_bounds l \<or> \<not> within_bounds r then LiteralOutOfBounds
         else if is_decimal_lit l \<and> is_wide_int r \<or> is_decimal_lit r \<and> is_wide_int l then ConversionCanFail
         else if is_arithmetic \<and> is_decimal_arithmetic_pair l r then ConversionCanFail
         else ConversionRounds)"

definition comparison_construct_name :: "string \<Rightarrow> filter_error + string" where
  "comparison_construct_name cmp_type =
     (if cmp_type = ''COMPARE_EQUAL'' then Inr ''=''
      else if cmp_type = ''COMPARE_NOTEQUAL'' then Inr ''<>''
      else if cmp_type = ''COMPARE_LESSTHAN'' then Inr ''<''
      else if cmp_type = ''COMPARE_LESSTHANOREQUALTO'' then Inr ''<=''
      else if cmp_type = ''COMPARE_GREATERTHAN'' then Inr ''>''
      else if cmp_type = ''COMPARE_GREATERTHANOREQUALTO'' then Inr ''>=''
      else if cmp_type = ''COMPARE_DISTINCT_FROM'' then Inr ''IS DISTINCT FROM''
      else if cmp_type = ''COMPARE_NOT_DISTINCT_FROM'' then Inr ''IS NOT DISTINCT FROM''
      else Inl (ConstructNotAdmitted (''a comparison type `'' @ cmp_type @ ''`'')))"

text \<open>\<open>refuse_pair\<close> is the \<open>TypeNotAdmitted\<close> that names both operands.\<close>

definition refuse_pair :: "string \<Rightarrow> typed \<Rightarrow> typed \<Rightarrow> bool \<Rightarrow> fault" where
  "refuse_pair construct l r is_arithmetic =
     Refused (TypeNotAdmitted construct [typed_render l, typed_render r] (determine_reason l r is_arithmetic))"

definition check_pair :: "string \<Rightarrow> typed \<Rightarrow> typed \<Rightarrow> bool \<Rightarrow> fault + unit" where
  "check_pair construct l r is_arithmetic =
     bind_ok (if is_arithmetic then bind_ok (admitted_arithmetic_result l r) (\<lambda>t. Inr (t \<noteq> None))
              else Inr (is_admitted_comparison l r)) (\<lambda>admitted.
     if admitted then Inr () else Inl (refuse_pair construct l r is_arithmetic))"

definition require_boolean_or_null :: "typed \<Rightarrow> string \<Rightarrow> fault + unit" where
  "require_boolean_or_null t construct =
     (if ty t = EBoolean \<or> ty t = ENull then Inr ()
      else Inl (Refused (TypeNotAdmitted construct [typed_render t] (determine_reason t boolean_virtual False))))"

text \<open>The result of a division, of a unary and of a binary arithmetic operator on typed operands.\<close>

definition division_result :: "typed \<Rightarrow> typed \<Rightarrow> fault + typed" where
  "division_result l r =
     (if ty l = Varchar \<or> ty r = Varchar \<or> ty l = EBoolean \<or> ty r = EBoolean
      then Inl (refuse_pair ''/'' l r False)
      else Inr (typed_expression
                  (if (ty l = EReal \<or> ty r = EReal) \<and> \<not> (ty l = EDouble \<or> ty r = EDouble) then EReal else EDouble)))"

definition unary_result :: "string \<Rightarrow> typed \<Rightarrow> fault + typed" where
  "unary_result op operand =
     (if ty operand = ENull then Inr (typed_expression BigInt)
      else if is_numeric operand then Inr (operand\<lparr>kind := OkExpression\<rparr>)
      else Inl (Refused (TypeNotAdmitted op [typed_render operand] (determine_reason operand numeric_virtual False))))"

definition binary_result :: "string \<Rightarrow> typed \<Rightarrow> typed \<Rightarrow> fault + typed" where
  "binary_result op l r =
     bind_ok (admitted_arithmetic_result l r) (\<lambda>res.
     case res of
       Some t \<Rightarrow>
         (let decimal_within_bounds = (\<lambda>t. is_decimal_type (ty t) \<and>
                (kind t = OkLiteral \<and> within_bounds t \<or> counts_as_decimal_literal t))
          in Inr ((typed_expression t)\<lparr>within_bounds := within_bounds l \<and> within_bounds r,
                counts_as_decimal_literal :=
                  ty l = ENull \<and> decimal_within_bounds r \<or> ty r = ENull \<and> decimal_within_bounds l\<rparr>))
     | None \<Rightarrow> Inl (refuse_pair op l r (is_decimal_arithmetic_pair l r)))"

definition pattern_result :: "string \<Rightarrow> typed \<Rightarrow> typed \<Rightarrow> fault + unit" where
  "pattern_result construct operand pattern =
     (if ty operand = Varchar \<and> (ty pattern = Varchar \<or> ty pattern = ENull) then Inr ()
      else Inl (Refused (TypeNotAdmitted construct [typed_render operand, typed_render pattern] TextWithNonText)))"

section \<open>The type walk\<close>

type_synonym namespace = "(string \<times> string) list"

definition junction_name :: "json \<Rightarrow> string" where
  "junction_name node = (if get_str node ''type'' = Some ''CONJUNCTION_OR'' then ''OR'' else ''AND'')"

definition column_type :: "namespace \<Rightarrow> json \<Rightarrow> fault + typed" where
  "column_type ns node =
     bind_ok (ok_or (Refused (missing_field ''COLUMN_REF.column_names'')) (get_array node ''column_names'')) (\<lambda>names.
     bind_ok (ok_or (Refused (missing_field ''COLUMN_REF.column_names[0]''))
                (case names of [] \<Rightarrow> None | v # _ \<Rightarrow> as_str v)) (\<lambda>name.
     bind_ok (ok_or (Refused (UnknownColumn name)) (map_of ns name)) (\<lambda>surrogate.
     bind_ok (engine_type_of_surrogate surrogate) (\<lambda>t. Inr (typed_column t)))))"

text \<open>The continuation of every check whose value is a \<open>BOOLEAN\<close> expression.\<close>

definition boolean_expr :: "'a \<Rightarrow> fault + typed" where
  "boolean_expr _ = Inr (typed_expression EBoolean)"

lemma expect_children_size [termination_simp]:
  "map_err Refused (expect_children node) = Inr children \<Longrightarrow> size_list size children < size node"
  by (auto simp: result_iffs expect_children_def dest: get_array_size)

function type_of_value :: "namespace \<Rightarrow> json \<Rightarrow> fault + typed"
and type_of_division :: "namespace \<Rightarrow> json list \<Rightarrow> fault + typed"
and type_of_arithmetic :: "namespace \<Rightarrow> string \<Rightarrow> json list \<Rightarrow> fault + typed"
and check_comparison :: "namespace \<Rightarrow> json \<Rightarrow> fault + unit"
and check_between :: "namespace \<Rightarrow> json \<Rightarrow> fault + unit"
and check_in :: "namespace \<Rightarrow> json \<Rightarrow> fault + unit"
and check_members :: "namespace \<Rightarrow> typed \<Rightarrow> json list \<Rightarrow> fault + unit"
and check_pattern :: "namespace \<Rightarrow> string \<Rightarrow> json list \<Rightarrow> fault + unit"
and check_junction_children :: "namespace \<Rightarrow> string \<Rightarrow> json list \<Rightarrow> fault + unit"
and check_boolean_operand :: "namespace \<Rightarrow> string \<Rightarrow> json \<Rightarrow> fault + unit" where
  "type_of_value ns node =
     (let cls = unwrap_or (get_str node ''class'') []
      in if cls = ''CONSTANT'' then map_err Refused (literal_typed node)
         else if cls = ''COLUMN_REF'' then column_type ns node
         else if cls = ''COMPARISON'' then bind_ok (check_comparison ns node) boolean_expr
         else if cls = ''BETWEEN'' then bind_ok (check_between ns node) boolean_expr
         else if cls = ''CONJUNCTION'' then
           bind_ok (map_err Refused (expect_children node)) (\<lambda>children.
           bind_ok (check_junction_children ns (junction_name node) children) boolean_expr)
         else if cls = ''OPERATOR'' then
           (let op_type = unwrap_or (get_str node ''type'') []
            in if op_type = ''OPERATOR_NOT'' then
                 bind_ok (map_err Refused (expect_children node)) (\<lambda>children.
                 bind_ok (check_junction_children ns ''NOT'' children) boolean_expr)
               else if op_type \<in> {''OPERATOR_IS_NULL'', ''OPERATOR_IS_NOT_NULL''} then
                 bind_ok (map_err Refused (expect_children node)) (\<lambda>children.
                 case children of
                   [] \<Rightarrow> Inl (Refused (missing_field ''OPERATOR.children[0]''))
                 | operand # _ \<Rightarrow> bind_ok (type_of_value ns operand) boolean_expr)
               else if op_type = ''COMPARE_IN'' then bind_ok (check_in ns node) boolean_expr
               else Inl (Refused (ConstructNotAdmitted (''OPERATOR::'' @ op_type @ '' in a value position''))))
         else if cls = ''FUNCTION'' then
           (let name = unwrap_or (get_str node ''function_name'') []
            in bind_ok (map_err Refused (expect_children node)) (\<lambda>children.
               if name = ''/'' then type_of_division ns children
               else if name \<in> set admitted_arithmetic_functions then type_of_arithmetic ns name children
               else if name \<in> set admitted_pattern_functions then
                 bind_ok (check_pattern ns name children) boolean_expr
               else Inl (Refused (ConstructNotAdmitted (''a function call (`'' @ name @ ''`)'')))))
         else Inl (Refused (ConstructNotAdmitted (''an untyped node class `'' @ cls @ ''` in a value position''))))"
| "type_of_division ns children =
     (case children of
        [a, b] \<Rightarrow>
          bind_ok (type_of_value ns a) (\<lambda>l. bind_ok (type_of_value ns b) (\<lambda>r. division_result l r))
      | _ \<Rightarrow> Inl (Refused (ConstructNotAdmitted (''`/` with '' @ show_nat (length children) @ '' operand(s)''))))"
| "type_of_arithmetic ns op children =
     (case children of
        [] \<Rightarrow> Inl (Panicked ''index out of bounds'')
      | [a] \<Rightarrow> bind_ok (type_of_value ns a) (\<lambda>operand. unary_result op operand)
      | a # b # _ \<Rightarrow>
          bind_ok (type_of_value ns a) (\<lambda>l. bind_ok (type_of_value ns b) (\<lambda>r. binary_result op l r)))"
| "check_comparison ns node =
     bind_ok (map_err Refused (comparison_construct_name (unwrap_or (get_str node ''type'') []))) (\<lambda>construct.
     bind_ok (ok_or (Refused (missing_field ''COMPARISON.left'')) (jget node ''left'')) (\<lambda>left_node.
     bind_ok (ok_or (Refused (missing_field ''COMPARISON.right'')) (jget node ''right'')) (\<lambda>right_node.
     bind_ok (type_of_value ns left_node) (\<lambda>l.
     bind_ok (type_of_value ns right_node) (\<lambda>r.
     check_pair construct l r False)))))"
| "check_between ns node =
     bind_ok (ok_or (Refused (missing_field ''BETWEEN.input'')) (jget node ''input'')) (\<lambda>inp.
     bind_ok (ok_or (Refused (missing_field ''BETWEEN.lower'')) (jget node ''lower'')) (\<lambda>lower.
     bind_ok (ok_or (Refused (missing_field ''BETWEEN.upper'')) (jget node ''upper'')) (\<lambda>upper.
     bind_ok (type_of_value ns inp) (\<lambda>ti.
     bind_ok (type_of_value ns lower) (\<lambda>tl.
     bind_ok (check_pair ''BETWEEN'' ti tl False) (\<lambda>_.
     bind_ok (type_of_value ns upper) (\<lambda>tu.
     bind_ok (check_pair ''BETWEEN'' ti tu False) (\<lambda>_.
     check_pair ''BETWEEN'' tl tu False))))))))"
| "check_in ns node =
     bind_ok (map_err Refused (expect_children node)) (\<lambda>children.
     case children of
       [] \<Rightarrow> Inl (Refused (missing_field ''COMPARE_IN.children[0]''))
     | needle_node # members \<Rightarrow>
         bind_ok (type_of_value ns needle_node) (\<lambda>needle. check_members ns needle members))"
| "check_members ns needle members =
     (case members of
        [] \<Rightarrow> Inr ()
      | m # ms \<Rightarrow>
          bind_ok (type_of_value ns m) (\<lambda>tm.
          bind_ok (check_pair ''IN'' needle tm False) (\<lambda>_. check_members ns needle ms)))"
| "check_pattern ns function_name children =
     (let construct = (if function_name = ''~~*'' then ''ILIKE'' else ''LIKE'')
      in case children of
           [a, b] \<Rightarrow>
             bind_ok (type_of_value ns a) (\<lambda>operand.
             bind_ok (type_of_value ns b) (\<lambda>pattern. pattern_result construct operand pattern))
         | _ \<Rightarrow>
             Inl (Refused (ConstructNotAdmitted
               (''`'' @ construct @ ''` with '' @ show_nat (length children) @ '' operand(s)''))))"
| "check_junction_children ns construct children =
     (case children of
        [] \<Rightarrow> Inr ()
      | c # cs \<Rightarrow> bind_ok (check_boolean_operand ns construct c) (\<lambda>_. check_junction_children ns construct cs))"
| "check_boolean_operand ns construct node =
     (let cls = unwrap_or (get_str node ''class'') []
      in if cls = ''COMPARISON'' then check_comparison ns node
         else if cls = ''BETWEEN'' then check_between ns node
         else if cls = ''CONJUNCTION'' then
           bind_ok (map_err Refused (expect_children node)) (\<lambda>children.
           check_junction_children ns (junction_name node) children)
         else if cls = ''OPERATOR'' then
           (let op_type = unwrap_or (get_str node ''type'') []
            in if op_type = ''OPERATOR_NOT'' then
                 bind_ok (map_err Refused (expect_children node)) (\<lambda>children.
                 check_junction_children ns ''NOT'' children)
               else if op_type \<in> {''OPERATOR_IS_NULL'', ''OPERATOR_IS_NOT_NULL''} then
                 bind_ok (map_err Refused (expect_children node)) (\<lambda>children.
                 case children of
                   [] \<Rightarrow> Inl (Refused (missing_field ''OPERATOR.children[0]''))
                 | operand # _ \<Rightarrow> bind_ok (type_of_value ns operand) (\<lambda>_. Inr ()))
               else if op_type = ''COMPARE_IN'' then check_in ns node
               else Inl (Refused (ConstructNotAdmitted (''OPERATOR::'' @ op_type @ '' in a boolean context''))))
         else if cls = ''FUNCTION'' then
           (let name = unwrap_or (get_str node ''function_name'') []
            in if name \<in> set admitted_pattern_functions then
                 bind_ok (map_err Refused (expect_children node)) (\<lambda>children. check_pattern ns name children)
               else bind_ok (type_of_value ns node) (\<lambda>t. require_boolean_or_null t construct))
         else bind_ok (type_of_value ns node) (\<lambda>t. require_boolean_or_null t construct))"
  by pat_completeness auto
termination
proof (relation "measures
   [case_sum (case_sum (case_sum (\<lambda>(_, v). size v) (\<lambda>(_, vs). size_list size vs))
        (case_sum (\<lambda>(_, _, vs). size_list size vs) (case_sum (\<lambda>(_, v). size v) (\<lambda>(_, v). size v))))
      (case_sum (case_sum (\<lambda>(_, v). size v) (\<lambda>(_, _, vs). size_list size vs))
        (case_sum (\<lambda>(_, _, vs). size_list size vs)
          (case_sum (\<lambda>(_, _, vs). size_list size vs) (\<lambda>(_, _, v). size v)))),
    case_sum (case_sum (case_sum (\<lambda>_. 2) (\<lambda>_. 0)) (case_sum (\<lambda>_. 0) (case_sum (\<lambda>_. 1) (\<lambda>_. 1))))
      (case_sum (case_sum (\<lambda>_. 1) (\<lambda>_. 0)) (case_sum (\<lambda>_. 0) (case_sum (\<lambda>_. 0) (\<lambda>_. 3))))]",
   goal_cases)
  case 1
  show ?case by simp
qed (auto simp: ok_or_Inr_iff dest!: expect_children_size jget_size)

declare type_of_value.simps [simp del] type_of_division.simps [simp del] type_of_arithmetic.simps [simp del]
  check_comparison.simps [simp del] check_between.simps [simp del] check_in.simps [simp del]
  check_members.simps [simp del] check_pattern.simps [simp del] check_junction_children.simps [simp del]
  check_boolean_operand.simps [simp del]

definition type_walk :: "json list \<Rightarrow> namespace \<Rightarrow> fault + unit" where
  "type_walk operands ns = check_junction_children ns ''AND'' operands"

section \<open>The binder and the whole admission\<close>

definition quote_ident :: "string \<Rightarrow> string" where
  "quote_ident s = [CHR 0x22] @ replace_all s [CHR 0x22] [CHR 0x22, CHR 0x22] @ [CHR 0x22]"

definition surrogate_sql :: "string \<Rightarrow> namespace \<Rightarrow> string" where
  "surrogate_sql pred ns =
     (let columns_sql =
            (if ns = [] then ''1 AS '' @ quote_ident ''__surrogate_anchor''
             else join_with '', '' (map (\<lambda>(name, type_name). ''CAST(NULL AS '' @ type_name @ '') AS '' @ quote_ident name) ns))
      in ''SELECT ('' @ pred @ '') AS '' @ quote_ident ''__predicate_result'' @ '' FROM (SELECT '' @ columns_sql @
         '') AS '' @ quote_ident ''__surrogate'' @ '' LIMIT 0'')"

definition bind_admit :: "duckdb \<Rightarrow> string \<Rightarrow> namespace \<Rightarrow> filter_error + unit" where
  "bind_admit db pred ns =
     bind_ok (map_err RejectedByBinder (db_prepare db (surrogate_sql pred ns))) (\<lambda>_.
     bind_ok (map_err RejectedByBinder (db_query_arrow db (surrogate_sql pred ns))) (\<lambda>schema.
     case schema of
       [] \<Rightarrow> Inl (RejectedByBinder (''the surrogate query'' @ [CHR 0x27] @ ''s result carries no columns at all''))
     | inferred # _ \<Rightarrow>
         if inferred \<noteq> DBoolean then Inl (NotBoolean (db_show_type db inferred)) else Inr ()))"

record admitted_predicate =
  ap_text :: string
  ap_columns :: "string list"

text \<open>The loop that keeps each column's first occurrence.\<close>

fun dedup :: "string list \<Rightarrow> string list \<Rightarrow> string list" where
  "dedup columns [] = columns"
| "dedup columns (name # names) = dedup (if name \<in> set columns then columns else columns @ [name]) names"

text \<open>The stages on a leased connection: the refusal, and whether the lease is released as healthy.\<close>

definition admit_on_lease :: "duckdb \<Rightarrow> dataset_view \<Rightarrow> string \<Rightarrow> (fault + admitted_predicate) \<times> bool" where
  "admit_on_lease db ds pred =
     (case structural_admit db pred of
        Inl e \<Rightarrow> (Inl (Refused e), True)
      | Inr structural \<Rightarrow>
        (case namespace_admit (db_show_type db) (sa_columns structural) ds of
           Inl e \<Rightarrow> (Inl (Refused e), True)
         | Inr ns \<Rightarrow>
           (case bind_admit db pred ns of
              Inl e \<Rightarrow> (Inl (Refused e), False)
            | Inr _ \<Rightarrow>
              (case type_walk (sa_operands structural) ns of
                 Inl f \<Rightarrow> (Inl f, False)
               | Inr _ \<Rightarrow> (Inr \<lparr>ap_text = pred, ap_columns = dedup [] (sa_columns structural)\<rparr>, True)))))"

datatype admit_outcome = Admitted admitted_predicate | AdmitError predicate_admit_error | AdmitPanic string

text \<open>
  \<open>AdmittedPredicate::admit\<close>: \<open>configured\<close> and \<open>healthy\<close> are the answers of the connection's configuration and
  of its verification on release. A refused or panicking stage 3 drops the lease.
\<close>

definition admit ::
    "duckdb \<Rightarrow> engine_error + unit \<Rightarrow> bool \<Rightarrow> dataset_view \<Rightarrow> string \<Rightarrow> connection_pool \<Rightarrow>
     admit_outcome \<times> connection_pool" where
  "admit db configured healthy ds pred pool =
     (if length pred > max_predicate_bytes
      then (AdmitError (Filter (TooLong max_predicate_bytes (length pred))), pool)
      else
        (case acquire configured LcAdmission pool of
           (Inl e, pool) \<Rightarrow>
             (AdmitError (case e of
                EngConnectionsExhausted cls cap \<Rightarrow> PConnectionsExhausted cls cap
              | other \<Rightarrow> Filter (RejectedByBinder
                  (''no connection was available to validate this predicate: '' @ engine_error_display other))), pool)
         | (Inr l, pool) \<Rightarrow>
             (case admit_on_lease db ds pred of
                (res, keep) \<Rightarrow>
                  (case res of
                     Inr p \<Rightarrow> Admitted p
                   | Inl (Refused e) \<Rightarrow> AdmitError (Filter e)
                   | Inl (Panicked s) \<Rightarrow> AdmitPanic s,
                   if keep then release_healthy healthy l pool else drop_lease l pool))))"


end
