(* ===== verification/Filter_Grammar.thy ===== *)
theory Filter_Grammar
  imports Filter_Types
begin

text \<open>
  The grammar of admitted filter expressions, as a relation on parsed trees, and that the allowlist
  walk accepts exactly its trees of bounded height; the two-sentinel probe refuses every text
  that hides the sentinel from the parser.
\<close>

section \<open>The grammar\<close>

text \<open>\<open>admissible node cols h\<close>: an admitted expression that refers to \<open>cols\<close>, in order, with height \<open>h\<close>.\<close>

inductive admissible :: "json \<Rightarrow> string list \<Rightarrow> nat \<Rightarrow> bool"
and admissible_all :: "json list \<Rightarrow> string list \<Rightarrow> nat \<Rightarrow> bool" where
  literal: "get_str node ''class'' = Some ''CONSTANT'' \<Longrightarrow> admissible node [] (Suc 0)"
| column_ref:
    "get_str node ''class'' = Some ''COLUMN_REF'' \<Longrightarrow> get_array node ''column_names'' = Some [JStr name] \<Longrightarrow>
     admissible node [name] (Suc 0)"
| junction:
    "get_str node ''class'' = Some ''CONJUNCTION'' \<Longrightarrow> get_array node ''children'' = Some children \<Longrightarrow>
     admissible_all children cols h \<Longrightarrow> admissible node cols (Suc h)"
| comparison:
    "get_str node ''class'' = Some ''COMPARISON'' \<Longrightarrow> jget node ''left'' = Some l \<Longrightarrow> jget node ''right'' = Some r \<Longrightarrow>
     admissible_all [l, r] cols h \<Longrightarrow> admissible node cols (Suc h)"
| between:
    "get_str node ''class'' = Some ''BETWEEN'' \<Longrightarrow> jget node ''input'' = Some x \<Longrightarrow> jget node ''lower'' = Some l \<Longrightarrow>
     jget node ''upper'' = Some u \<Longrightarrow> admissible_all [x, l, u] cols h \<Longrightarrow> admissible node cols (Suc h)"
| unary:
    "get_str node ''class'' = Some ''OPERATOR'' \<Longrightarrow> get_str node ''type'' = Some op \<Longrightarrow>
     op \<in> {''OPERATOR_NOT'', ''OPERATOR_IS_NULL'', ''OPERATOR_IS_NOT_NULL''} \<Longrightarrow>
     get_array node ''children'' = Some [x] \<Longrightarrow> admissible_all [x] cols h \<Longrightarrow> admissible node cols (Suc h)"
| membership:
    "get_str node ''class'' = Some ''OPERATOR'' \<Longrightarrow> get_str node ''type'' = Some ''COMPARE_IN'' \<Longrightarrow>
     get_array node ''children'' = Some (x # m # ms) \<Longrightarrow>
     list_all (\<lambda>v. get_str v ''class'' = Some ''CONSTANT'') (m # ms) \<Longrightarrow>
     admissible_all (x # m # ms) cols h \<Longrightarrow> admissible node cols (Suc h)"
| arithmetic:
    "get_str node ''class'' = Some ''FUNCTION'' \<Longrightarrow> get_bool node ''is_operator'' = Some True \<Longrightarrow>
     get_str node ''function_name'' = Some f \<Longrightarrow> f \<in> {''+'', ''-'', ''*'', ''/''} \<Longrightarrow>
     get_array node ''children'' = Some children \<Longrightarrow> admissible_all children cols h \<Longrightarrow>
     admissible node cols (Suc h)"
| pattern_match:
    "get_str node ''class'' = Some ''FUNCTION'' \<Longrightarrow> get_bool node ''is_operator'' = Some True \<Longrightarrow>
     get_str node ''function_name'' = Some f \<Longrightarrow> f \<in> {''~~'', ''~~*''} \<Longrightarrow>
     get_array node ''children'' = Some [x, p] \<Longrightarrow> get_str p ''class'' = Some ''CONSTANT'' \<Longrightarrow>
     admissible_all [x, p] cols h \<Longrightarrow> admissible node cols (Suc h)"
| none: "admissible_all [] [] 0"
| some: "admissible v a h \<Longrightarrow> admissible_all vs b k \<Longrightarrow> admissible_all (v # vs) (a @ b) (max h k)"

inductive_simps admissible_all_Nil: "admissible_all [] cols h"
inductive_simps admissible_all_Cons: "admissible_all (v # vs) cols h"

lemmas admissible_all_simps = admissible_all_Nil admissible_all_Cons

lemma case_single_Inr:
  "(case xs of [] \<Rightarrow> Inl e | v # vs \<Rightarrow> (case vs of [] \<Rightarrow> f v | w # ws \<Rightarrow> Inl e')) = Inr y \<longleftrightarrow>
   (\<exists>v. xs = [v] \<and> f v = Inr y)"
  by (auto split: list.splits)

lemma case_two_Inr:
  "(case xs of [] \<Rightarrow> Inl e | x # ys \<Rightarrow> (case ys of [] \<Rightarrow> Inl e' | m # ms \<Rightarrow> f x m ms)) = Inr y \<longleftrightarrow>
   (\<exists>x m ms. xs = x # m # ms \<and> f x m ms = Inr y)"
  by (auto split: list.splits)

lemma case_nil_Inr: "(case xs of [] \<Rightarrow> f | m # ms \<Rightarrow> Inl e) = Inr y \<longleftrightarrow> xs = [] \<and> f = Inr y"
  by (auto split: list.splits)

lemma as_str_Some: "as_str v = Some s \<longleftrightarrow> v = JStr s"
  by (cases v) (auto simp: as_str_def)

lemma unwrap_eq: "unwrap_or x d = y \<Longrightarrow> y \<noteq> d \<Longrightarrow> x = Some y"
  by (cases x) auto

lemma expect_children_Inr: "expect_children node = Inr cs \<longleftrightarrow> get_array node ''children'' = Some cs"
  by (simp add: expect_children_def ok_or_Inr_iff)

section \<open>The walk accepts the grammar\<close>

lemma walk_members_literals:
  "list_all (\<lambda>v. get_str v ''class'' = Some ''CONSTANT'') vs \<Longrightarrow> walk_members vs d = walk_all vs d"
proof (rule ext)
  show "walk_members vs d pre = walk_all vs d pre"
    if "list_all (\<lambda>v. get_str v ''class'' = Some ''CONSTANT'') vs" for pre
    using that by (induction vs arbitrary: pre) (simp_all add: bind_ok_def split: sum.splits)
qed

lemma walk_all_one [simp]: "walk_all [x] d = walk_expr x d"
  by (rule ext) (simp add: bind_ok_def split: sum.splits)

lemma walk_all_two [simp]: "walk_all [x, y] d = (\<lambda>pre. bind_ok (walk_expr x d pre) (walk_expr y d))"
  by (rule ext) simp

lemma walk_complete:
  "admissible node cols h \<Longrightarrow> d + h \<le> 33 \<Longrightarrow> walk_expr node d pre = Inr (pre @ cols)"
  "admissible_all vs cols h \<Longrightarrow> d + h \<le> 33 \<Longrightarrow>
     walk_all vs d pre = Inr (pre @ cols)"
proof (induction arbitrary: d pre and d pre rule: admissible_admissible_all.inducts)
  case (literal node)
  then show ?case by (simp add: walk_expr.simps max_predicate_depth_def)
next
  case (column_ref node name)
  then show ?case by (simp add: walk_expr.simps max_predicate_depth_def as_str_def)
next
  case (junction node children cols h)
  then show ?case by (simp add: walk_expr.simps max_predicate_depth_def expect_children_def)
next
  case (comparison node l r cols h)
  then have "walk_all [l, r] (d + 1) pre = Inr (pre @ cols)" by simp
  then show ?case using comparison by (simp add: walk_expr.simps [of node] max_predicate_depth_def bind_ok_assoc)
next
  case (between node x l u cols h)
  then have "walk_all [x, l, u] (d + 1) pre = Inr (pre @ cols)" by simp
  then show ?case using between by (simp add: walk_expr.simps [of node] max_predicate_depth_def bind_ok_assoc)
next
  case (unary node op x cols h)
  then have "walk_all [x] (d + 1) pre = Inr (pre @ cols)" by simp
  then show ?case using unary
    by (auto simp: walk_expr.simps [of node] max_predicate_depth_def expect_children_def bind_ok_def split: sum.splits)
next
  case (membership node x m ms cols h)
  then have "bind_ok (walk_expr x (d + 1) pre) (walk_all (m # ms) (d + 1)) = Inr (pre @ cols)" by simp
  then show ?case using membership.hyps membership.prems
    by (simp add: walk_expr.simps [of node] max_predicate_depth_def expect_children_def
        walk_members_literals [OF membership.hyps(4)] del: walk_members.simps walk_all.simps)
next
  case (arithmetic node f children cols h)
  then show ?case
    by (auto simp: walk_expr.simps [of node] max_predicate_depth_def expect_children_def admitted_arithmetic_functions_def)
next
  case (pattern_match node f x p cols h)
  then have "walk_all [x, p] (d + 1) pre = Inr (pre @ cols)" by simp
  then show ?case using pattern_match
    by (auto simp: walk_expr.simps [of node] max_predicate_depth_def expect_children_def
        admitted_arithmetic_functions_def admitted_pattern_functions_def bind_ok_def split: sum.splits)
next
  case none
  then show ?case by simp
next
  case (some v a h vs b k)
  then show ?case by simp
qed

text \<open>What the walk of one expression at a depth promises, and the two loops at that depth under it.\<close>

definition accepts_grammar :: "nat \<Rightarrow> bool" where
  "accepts_grammar d \<longleftrightarrow> (\<forall>node pre out. walk_expr node d pre = Inr out \<longrightarrow>
     (\<exists>cols h. admissible node cols h \<and> d + h \<le> 33 \<and> out = pre @ cols))"

lemma walk_all_sound:
  "accepts_grammar d \<Longrightarrow> d \<le> 33 \<Longrightarrow> walk_all vs d pre = Inr out \<Longrightarrow>
   \<exists>cols h. admissible_all vs cols h \<and> d + h \<le> 33 \<and> out = pre @ cols"
proof (induction vs arbitrary: pre)
  case Nil
  then show ?case by (auto intro: none)
next
  case (Cons v vs)
  then obtain mid where mid: "walk_expr v d pre = Inr mid" "walk_all vs d mid = Inr out"
    by (auto simp: bind_ok_Inr_iff)
  obtain a h where a: "admissible v a h" "d + h \<le> 33" "mid = pre @ a"
    using Cons.prems(1) mid(1) unfolding accepts_grammar_def by blast
  obtain b k where b: "admissible_all vs b k" "d + k \<le> 33" "out = mid @ b"
    using Cons.IH [OF Cons.prems(1,2) mid(2)] by blast
  have "admissible_all (v # vs) (a @ b) (max h k)" by (rule some [OF a(1) b(1)])
  moreover have "d + max h k \<le> 33" using a(2) b(2) by simp
  ultimately show ?case using a(3) b(3) by (metis append.assoc)
qed

lemma walk_members_literal:
  "walk_members vs d pre = Inr out \<Longrightarrow> list_all (\<lambda>v. get_str v ''class'' = Some ''CONSTANT'') vs"
  by (induction vs arbitrary: pre) (auto simp: bind_ok_Inr_iff split: if_splits)

text \<open>An accepted inner node is a grammar node whose operands are walked one level down.\<close>

definition descends :: "json \<Rightarrow> json list \<Rightarrow> bool" where
  "descends node vs \<longleftrightarrow> (\<forall>cols h. admissible_all vs cols h \<longrightarrow> admissible node cols (Suc h))"

lemma walk_expr_unfolded:
  assumes "walk_expr node d pre = Inr out"
  obtains cls where "d \<le> 32" "get_str node ''class'' = Some cls"
  using assms that
  by (auto simp: walk_expr.simps [of node] max_predicate_depth_def bind_ok_Inr_iff ok_or_Inr_iff split: if_splits)

lemma walk_operator:
  assumes w: "walk_expr node d pre = Inr out" and cls: "get_str node ''class'' = Some ''OPERATOR''"
  shows "\<exists>vs. descends node vs \<and> walk_all vs (d + 1) pre = Inr out"
proof -
  let ?op = "unwrap_or (get_str node ''type'') ''<missing type>''"
  let ?unary = "{''OPERATOR_NOT'', ''OPERATOR_IS_NULL'', ''OPERATOR_IS_NOT_NULL''}"
  note w' = w [unfolded walk_expr.simps [of node], simplified cls max_predicate_depth_def ok_or_simps bind_ok_simps]
  show ?thesis
  proof (cases "?op \<in> ?unary")
    case True
    then obtain x where x: "get_array node ''children'' = Some [x]" "walk_all [x] (d + 1) pre = Inr out"
      using w' by (auto simp: Let_def bind_ok_Inr_iff expect_children_Inr case_single_Inr split: if_splits)
    have "get_str node ''type'' = Some ?op" using True by (auto intro: unwrap_eq)
    then have "descends node [x]" using unary [OF cls _ True x(1)] by (auto simp: descends_def)
    with x(2) show ?thesis by blast
  next
    case False
    then obtain x m ms where x: "get_array node ''children'' = Some (x # m # ms)" "?op = ''COMPARE_IN''"
        "bind_ok (walk_expr x (d + 1) pre) (walk_members (m # ms) (d + 1)) = Inr out"
      using w' by (auto simp: Let_def bind_ok_Inr_iff expect_children_Inr case_two_Inr split: if_splits)
    have lit: "list_all (\<lambda>v. get_str v ''class'' = Some ''CONSTANT'') (m # ms)"
      using x(3) walk_members_literal unfolding bind_ok_Inr_iff by blast
    have "walk_all (x # m # ms) (d + 1) pre = Inr out"
      using x(3) unfolding walk_members_literals [OF lit] by simp
    moreover have "get_str node ''type'' = Some ''COMPARE_IN''" using x(2) by (auto intro: unwrap_eq)
    then have "descends node (x # m # ms)" using membership [OF cls _ x(1) lit] by (auto simp: descends_def)
    ultimately show ?thesis by blast
  qed
qed

lemma walk_function:
  assumes w: "walk_expr node d pre = Inr out" and cls: "get_str node ''class'' = Some ''FUNCTION''"
  shows "\<exists>vs. descends node vs \<and> walk_all vs (d + 1) pre = Inr out"
proof -
  let ?f = "unwrap_or (get_str node ''function_name'') ''<missing name>''"
  let ?arith = "{''+'', ''-'', ''*'', ''/''}"
  note w' = w [unfolded walk_expr.simps [of node], simplified cls max_predicate_depth_def ok_or_simps bind_ok_simps]
  have op: "get_bool node ''is_operator'' = Some True"
    using w' by (cases "get_bool node ''is_operator''") (auto simp: Let_def bind_ok_Inr_iff split: if_splits)
  note w'' = w' [unfolded op admitted_arithmetic_functions_def admitted_pattern_functions_def Let_def, simplified]
  show ?thesis
  proof (cases "?f \<in> ?arith")
    case True
    then obtain cs where cs: "get_array node ''children'' = Some cs" "walk_all cs (d + 1) pre = Inr out"
      using w'' by (auto simp: bind_ok_Inr_iff expect_children_Inr split: if_splits)
    have "get_str node ''function_name'' = Some ?f" using True by (auto intro: unwrap_eq)
    from arithmetic [OF cls op this True cs(1)] cs(2) show ?thesis by (auto simp: descends_def)
  next
    case False
    then have f: "?f \<in> {''~~'', ''~~*''}" using w'' by (auto simp: bind_ok_Inr_iff split: if_splits)
    then obtain x p where x: "get_array node ''children'' = Some [x, p]" "get_str p ''class'' = Some ''CONSTANT''"
        "walk_all [x, p] (d + 1) pre = Inr out"
      using w'' False
      by (auto simp: bind_ok_Inr_iff expect_children_Inr case_two_Inr case_nil_Inr split: if_splits)
    have "get_str node ''function_name'' = Some ?f" using f by (auto intro: unwrap_eq)
    from pattern_match [OF cls op this f x(1,2)] x(3) show ?thesis unfolding descends_def by blast
  qed
qed

text \<open>Every accepted node is a leaf of the grammar, or descends.\<close>

lemma walk_expr_cases:
  assumes w: "walk_expr node d pre = Inr out"
  shows "(\<exists>cols. admissible node cols (Suc 0) \<and> out = pre @ cols) \<or>
    (\<exists>vs. descends node vs \<and> walk_all vs (d + 1) pre = Inr out)"
proof -
  obtain cls where d: "d \<le> 32" and cls: "get_str node ''class'' = Some cls" by (rule walk_expr_unfolded [OF w])
  note w' = w [unfolded walk_expr.simps [of node], simplified cls max_predicate_depth_def ok_or_simps bind_ok_simps]
  consider "cls = ''CONSTANT''" | "cls = ''COLUMN_REF''" | "cls = ''CONJUNCTION''" | "cls = ''COMPARISON''"
    | "cls = ''BETWEEN''" | "cls = ''OPERATOR''" | "cls = ''FUNCTION''"
    using w' d by (auto split: if_splits)
  then show ?thesis
  proof cases
    case 1
    then show ?thesis using w' d cls literal by auto
  next
    case 2
    then obtain names where "get_array node ''column_names'' = Some names"
        "\<exists>name. names = [JStr name] \<and> out = pre @ [name]"
      using w' d by (auto simp: bind_ok_Inr_iff ok_or_Inr_iff as_str_Some case_single_Inr)
    then show ?thesis using column_ref cls 2 by blast
  next
    case 3
    then obtain cs where "get_array node ''children'' = Some cs" "walk_all cs (d + 1) pre = Inr out"
      using w' d by (auto simp: bind_ok_Inr_iff expect_children_Inr)
    then show ?thesis using junction [of node cs] cls 3 unfolding descends_def by blast
  next
    case 4
    then obtain l r where "jget node ''left'' = Some l" "jget node ''right'' = Some r"
        "walk_all [l, r] (d + 1) pre = Inr out"
      using w' d by (auto simp: bind_ok_Inr_iff ok_or_Inr_iff)
    then show ?thesis using comparison [of node l r] cls 4 unfolding descends_def by blast
  next
    case 5
    then obtain x l u where "jget node ''input'' = Some x" "jget node ''lower'' = Some l"
        "jget node ''upper'' = Some u" "walk_all [x, l, u] (d + 1) pre = Inr out"
      using w' d by (auto simp: bind_ok_Inr_iff ok_or_Inr_iff)
    then show ?thesis using between [of node x l u] cls 5 unfolding descends_def by blast
  qed (use walk_operator [OF w] walk_function [OF w] cls in blast)+
qed

lemma walk_expr_sound: "accepts_grammar d"
proof (induction "33 - d" arbitrary: d rule: less_induct)
  case less
  have "\<exists>cols h. admissible node cols h \<and> d + h \<le> 33 \<and> out = pre @ cols"
    if w: "walk_expr node d pre = Inr out" for node pre out
  proof -
    have d: "d \<le> 32" by (rule walk_expr_unfolded [OF w])
    have below: "accepts_grammar (d + 1)" by (rule less) (use d in simp)
    have "\<exists>cols h. admissible node cols h \<and> d + h \<le> 33 \<and> out = pre @ cols"
      if "descends node vs" "walk_all vs (d + 1) pre = Inr out" for vs
      using walk_all_sound [OF below _ that(2)] that(1) d unfolding descends_def by fastforce
    with walk_expr_cases [OF w] d show ?thesis by fastforce
  qed
  then show ?case by (simp add: accepts_grammar_def)
qed

lemma walk_all_iff:
  "walk_all vs 1 [] = Inr out \<longleftrightarrow> (\<exists>h \<le> 32. admissible_all vs out h)"
  using walk_all_sound [OF walk_expr_sound, of 1 vs "[]" out] walk_complete(2) [of vs out _ 1 "[]"] by fastforce

section \<open>The probe\<close>

lemma sentinel_value_unique:
  "is_integer_equality_sentinel node n \<Longrightarrow> is_integer_equality_sentinel node m \<Longrightarrow> n = m"
  by (auto simp: is_integer_equality_sentinel_def is_integer_constant_def split: option.splits)

text \<open>
  What a probe must parse to: one statement without bind parameters whose tree is a bare
  \<open>SELECT <constant> WHERE x AND ... \<close>, with no other clause and no member this module does not know, and
  the operands of that conjunction.
\<close>

definition only_members :: "json \<Rightarrow> string list \<Rightarrow> bool" where
  "only_members v known \<longleftrightarrow> (\<exists>ms. as_object v = Some ms \<and> fst ` set ms \<subseteq> set known)"

definition null_at :: "json \<Rightarrow> string \<Rightarrow> bool" where
  "null_at v key \<longleftrightarrow> (\<exists>x. jget v key = Some x \<and> is_null x)"

definition bare_select :: "json \<Rightarrow> json list \<Rightarrow> bool" where
  "bare_select node ops \<longleftrightarrow>
     get_str node ''type'' = Some ''SELECT_NODE'' \<and> only_members node known_select_node_keys \<and>
     (\<forall>key \<in> {''modifiers'', ''group_expressions'', ''group_sets''}. get_array node key = Some []) \<and>
     (\<forall>key \<in> {''having'', ''sample'', ''qualify''}. null_at node key) \<and>
     (\<exists>m. jget node ''cte_map'' = Some m \<and> get_array m ''map'' = Some []) \<and>
     (\<exists>c. get_array node ''select_list'' = Some [c] \<and> get_str c ''class'' = Some ''CONSTANT'') \<and>
     (\<exists>t. jget node ''from_table'' = Some t \<and> get_str t ''type'' = Some ''EMPTY'') \<and>
     get_str node ''aggregate_handling'' = Some ''STANDARD_HANDLING'' \<and>
     (\<exists>w. jget node ''where_clause'' = Some w \<and> \<not> is_null w \<and> get_str w ''class'' = Some ''CONJUNCTION'' \<and>
        get_str w ''type'' = Some ''CONJUNCTION_AND'' \<and> get_array w ''children'' = Some ops)"

definition parses_bare :: "duckdb \<Rightarrow> string \<Rightarrow> json list \<Rightarrow> bool" where
  "parses_bare db sql ops \<longleftrightarrow>
     (\<exists>text payload stmt node.
        db_serialize db sql = Inr text \<and> db_parse_json db text = Inr payload \<and>
        get_bool payload ''error'' = Some False \<and> get_array payload ''statements'' = Some [stmt] \<and>
        only_members stmt known_statement_keys \<and> get_array stmt ''named_param_map'' = Some [] \<and>
        jget stmt ''node'' = Some node \<and> bare_select node ops)"

lemma require_Inr: "require ok c = Inr u \<longleftrightarrow> ok"
  by (simp add: require_def)

lemma refuse_unknown_keys_Inr: "refuse_unknown_keys v known what = Inr u \<longleftrightarrow> only_members v known"
proof (cases "as_object v")
  case (Some ms)
  let ?f = "find (\<lambda>k. k \<notin> set known) (map fst ms)"
  have none: "?f = None \<longleftrightarrow> only_members v known"
    using Some by (auto simp: only_members_def find_None_iff)
  show ?thesis
  proof (cases ?f)
    case None
    then show ?thesis using Some none unfolding refuse_unknown_keys_def by simp
  next
    case (Some key)
    then show ?thesis using \<open>as_object v = Some ms\<close> none unfolding refuse_unknown_keys_def by simp
  qed
qed (simp add: refuse_unknown_keys_def only_members_def)

lemma null_member_iff: "null_member v key \<longleftrightarrow> null_at v key"
  by (auto simp: null_member_def null_at_def unwrap_or_def split: option.splits)

lemma select_list_iff:
  "(case xs of [x] \<Rightarrow> P x | _ \<Rightarrow> False) \<longleftrightarrow> (\<exists>x. xs = [x] \<and> P x)"
  by (auto split: list.splits)

lemma where_clause_Inr:
  "(case o' of Some w \<Rightarrow> if is_null w then Inl e else Inr w | None \<Rightarrow> Inl e') = Inr w \<longleftrightarrow>
     o' = Some w \<and> \<not> is_null w"
  by (auto split: option.splits)

lemma unwrap_or_other: "x \<noteq> d \<Longrightarrow> unwrap_or v d = x \<longleftrightarrow> v = Some x"
  by (auto simp: unwrap_or_def split: option.splits)

lemma expect_wrapper_shape_Inr: "expect_wrapper_shape node = Inr ops \<longleftrightarrow> bare_select node ops"
  unfolding expect_wrapper_shape_def bare_select_def Let_def
  by (simp add: bind_ok_Inr_iff require_Inr refuse_unknown_keys_Inr null_member_iff select_list_iff where_clause_Inr
      ok_or_Inr_iff expect_children_Inr unwrap_or_other empty_array_def bind_eq_Some_conv)
    blast

lemma map_err_Inr: "map_err f x = Inr y \<longleftrightarrow> x = Inr y"
  by (cases x) (simp_all add: map_err_def)

lemma parse_and_children_Inr: "parse_and_children db pred sentinel = Inr ops \<longleftrightarrow> parses_bare db (wrap_with pred sentinel) ops"
proof -
  have e: "\<not> unwrap_or v True \<longleftrightarrow> v = Some False" for v by (cases v) (simp_all add: unwrap_or_def)
  have if_Inr: "(if c then Inl x else y) = Inr r \<longleftrightarrow> \<not> c \<and> y = Inr r"
    for c :: bool and x :: filter_error and y and r :: "json list" by simp
  have one: "(case xs of [] \<Rightarrow> Inl a | x # ys \<Rightarrow> (case ys of [] \<Rightarrow> f x | _ # _ \<Rightarrow> Inl b)) = Inr r \<longleftrightarrow> (\<exists>x. xs = [x] \<and> f x = Inr r)"
    for xs :: "json list" and a b :: filter_error and f and r :: "json list"
    by (auto split: list.splits)
  show ?thesis
    unfolding parse_and_children_def parses_bare_def serialize_sql_def bind_ok_Inr_iff map_err_Inr if_Inr e ok_or_Inr_iff
      one require_Inr refuse_unknown_keys_Inr expect_wrapper_shape_Inr
    by blast
qed

lemma differential_operands_Inr:
  "differential_operands db pred = Inr ops \<longleftrightarrow>
     (\<exists>a b ops'. parses_bare db (wrap_with pred ''1=1'') (ops @ [a]) \<and>
        parses_bare db (wrap_with pred ''2=2'') (ops' @ [b]) \<and> values_eq ops ops' \<and>
        is_integer_equality_sentinel a 1 \<and> is_integer_equality_sentinel b 2)" (is "?l \<longleftrightarrow> ?r")
proof
  assume ?l
  then obtain as bs where p: "parse_and_children db pred sentinel_a = Inr as" "parse_and_children db pred sentinel_b = Inr bs"
      "as \<noteq> []" "bs \<noteq> []" "is_integer_equality_sentinel (last as) 1" "is_integer_equality_sentinel (last bs) 2"
      "values_eq (butlast as) (butlast bs)" "ops = butlast as"
    by (auto simp: differential_operands_def bind_ok_Inr_iff sentinel_a_value_def sentinel_b_value_def split: if_splits)
  then show ?r unfolding parse_and_children_Inr sentinel_a_def sentinel_b_def by (metis append_butlast_last_id)
next
  assume ?r
  then obtain a b ops' where
    "parse_and_children db pred sentinel_a = Inr (ops @ [a])" "parse_and_children db pred sentinel_b = Inr (ops' @ [b])"
    "values_eq ops ops'" "is_integer_equality_sentinel a 1" "is_integer_equality_sentinel b 2"
    unfolding parse_and_children_Inr sentinel_a_def sentinel_b_def by blast
  then show ?l
    by (simp add: differential_operands_def bind_ok_def sentinel_a_value_def sentinel_b_value_def)
qed

text \<open>
  C4: The structural stage admits a predicate, with given operands and columns, exactly when: its text is
  at most 4096 bytes; both probes parse to one bare SELECT with nothing but a conjunction in its WHERE,
  each ends in the sentinel it was given, and the two agree on every operand before it; those operands
  are not empty and are sentences of the admitted grammar of height at most 32, whose column references
  are the ones collected. A text that hides the sentinel from the parser, so that both probes parse
  alike, is refused.
\<close>
theorem structural_admission_composes:
  "(structural_admit db pred = Inr sa \<longleftrightarrow>
      length pred \<le> 4096 \<and> sa_operands sa \<noteq> [] \<and>
      (\<exists>a b ops'. parses_bare db (''SELECT 1 WHERE ('' @ pred @ '') AND '' @ ''1=1'') (sa_operands sa @ [a]) \<and>
         parses_bare db (''SELECT 1 WHERE ('' @ pred @ '') AND '' @ ''2=2'') (ops' @ [b]) \<and> values_eq (sa_operands sa) ops' \<and>
         is_integer_equality_sentinel a 1 \<and> is_integer_equality_sentinel b 2) \<and>
      (\<exists>h \<le> 32. admissible_all (sa_operands sa) (sa_columns sa) h)) \<and>
   (case structural_admit db pred of
      Inr sa' \<Rightarrow> serialize_sql db (wrap_with pred sentinel_a) \<noteq> serialize_sql db (wrap_with pred sentinel_b)
    | Inl e \<Rightarrow> True)"
proof -
  have iff: "structural_admit db pred = Inr s \<longleftrightarrow>
      length pred \<le> 4096 \<and> sa_operands s \<noteq> [] \<and> differential_operands db pred = Inr (sa_operands s) \<and>
      (\<exists>h \<le> 32. admissible_all (sa_operands s) (sa_columns s) h)" for s
    unfolding walk_all_iff [symmetric]
    by (cases s) (auto simp: structural_admit_def bind_ok_Inr_iff max_predicate_bytes_def)
  moreover have "serialize_sql db (wrap_with pred sentinel_a) \<noteq> serialize_sql db (wrap_with pred sentinel_b)"
    if "structural_admit db pred = Inr s" for s
  proof
    assume "serialize_sql db (wrap_with pred sentinel_a) = serialize_sql db (wrap_with pred sentinel_b)"
    then have "parse_and_children db pred sentinel_a = parse_and_children db pred sentinel_b"
      by (simp add: parse_and_children_def)
    with that sentinel_value_unique show False
      unfolding iff differential_operands_Inr sentinel_a_def [symmetric] sentinel_b_def [symmetric]
        parse_and_children_Inr [symmetric] by fastforce
  qed
  ultimately show ?thesis
    unfolding differential_operands_Inr wrap_with_def [of pred "''1=1''"] wrap_with_def [of pred "''2=2''"]
    by (simp only: split: sum.split) blast
qed

end
