(* ===== verification/Filter_Proofs.thy ===== *)
theory Filter_Proofs
  imports Filter_Grammar
begin

text \<open>
  What an admitted filter predicate is guaranteed to be, that admission gives back every lease
  it takes, that the type walk cannot panic on parsed predicates, and which conversions an
  admitted comparison can imply.
\<close>

section \<open>The namespace\<close>

definition addressable :: "field \<Rightarrow> bool" where
  "addressable fd \<longleftrightarrow>
     CHR 0x00 \<notin> set (fd_name fd) \<and>
     (case fd_metadata fd exported_name_key of None \<Rightarrow> True | Some e \<Rightarrow> e = fd_name fd)"

lemma not_addressable_iff: "not_addressable_for_field fd = None \<longleftrightarrow> addressable fd"
  using contains_sub_iff [of "fd_name fd" "[CHR 0x00]"]
  by (auto simp: addressable_def not_addressable_for_field_def not_addressable_def Let_def contains_sub_def
        in_set_conv_decomp split: option.splits)

lemma filter_surrogate_iff:
  "filter_surrogate show_dt name fd = Inr t \<longleftrightarrow>
     addressable fd \<and> is_admitted_scalar (fd_type fd) \<and> duckdb_type_name (fd_type fd) = Some t"
  by (cases "fd_type fd")
     (auto simp: filter_surrogate_def filterable_column_type_def result_iffs admit_attribute_type_iff
        emitted_type_def is_admitted_scalar_def duckdb_type_name_def not_addressable_iff [symmetric]
        split: option.splits)

text \<open>A column a predicate may refer to.\<close>

definition filterable :: "dataset_view \<Rightarrow> string \<Rightarrow> bool" where
  "filterable ds name \<longleftrightarrow>
     name \<noteq> dv_geometry_column ds \<and>
     (case identity_alias_ambiguity ds of None \<Rightarrow> True | Some (ambiguous, _) \<Rightarrow> name \<noteq> ambiguous) \<and>
     (case find (\<lambda>f. fd_name f = name) (dv_file_schema ds) of
        None \<Rightarrow> False
      | Some fd \<Rightarrow> addressable fd \<and> is_admitted_scalar (fd_type fd))"

lemma duckdb_type_name_total: "is_admitted_scalar t \<Longrightarrow> duckdb_type_name t \<noteq> None"
  by (cases t) (simp_all add: is_admitted_scalar_def duckdb_type_name_def)

lemma admit_name_iff: "admit_name show_dt ds name = Inr u \<longleftrightarrow> filterable ds name"
  using duckdb_type_name_total
  by (auto simp: admit_name_def filterable_def bind_ok_Inr_iff filter_surrogate_iff split: option.splits if_splits)

lemma admit_names_iff: "admit_names show_dt ds names = Inr u \<longleftrightarrow> list_all (filterable ds) names"
  by (induction names) (auto simp: bind_ok_Inr_iff admit_name_iff)

lemma dedup_props: "distinct acc \<Longrightarrow> distinct (dedup acc names) \<and> set (dedup acc names) = set acc \<union> set names"
  by (induction names arbitrary: acc) auto

section \<open>Leases\<close>

lemma active_leases_state:
  "active_leases p = active (cp_state p) LcStream + active (cp_state p) LcMaintenance + active (cp_state p) LcAdmission"
  by (simp add: active_leases_def active_def)

lemma acquire_leases:
  "acquire configured c p = (r, p') \<Longrightarrow>
   active_leases p' = active_leases p + (case r of Inr l \<Rightarrow> 1 | Inl _ \<Rightarrow> 0) \<and>
   (case r of Inr l \<Rightarrow> ls_class l = c | Inl _ \<Rightarrow> True)"
  by (cases c)
     (auto simp: acquire_def active_leases_state issue_def create_ok_def acquire_take_def Let_def
        split: sum.splits if_splits list.splits take_kind.splits)

lemma give_back_leases:
  "active_leases (drop_lease l p) = active_leases p - 1"
  "active_leases (release_healthy healthy l p) = active_leases p - 1"
  by (cases "ls_class l"; simp add: drop_lease_def release_healthy_def active_leases_state return_healthy_simps)+

text \<open>
  C5: An admitted predicate is the caller's text, at most 4096 bytes long, accepted by the structural
  stage, bound by DuckDB as \<open>BOOLEAN\<close> and by the type walk against the surrogate columns of the
  dataset; the columns it refers to, each listed once, are attribute columns of the file, never the
  geometry, never an ambiguous \<open>id\<close>, always addressable and of an admissible type. Whatever the
  outcome, admission gives back every lease it took.
\<close>
theorem admitted_predicates_are_safe:
  "case admit db configured healthy ds pred pool of
     (outcome, pool') \<Rightarrow>
       active_leases pool' = active_leases pool \<and>
       (case outcome of
          Admitted p \<Rightarrow>
            ap_text p = pred \<and> length pred \<le> 4096 \<and> distinct (ap_columns p) \<and>
            list_all (filterable ds) (ap_columns p) \<and>
            (\<exists>sa ns. structural_admit db pred = Inr sa \<and> set (ap_columns p) = set (sa_columns sa) \<and>
               ns = build_namespace (db_show_type db) (dv_geometry_column ds) (dv_file_schema ds) [] \<and>
               bind_admit db pred ns = Inr () \<and> type_walk (sa_operands sa) ns = Inr ())
        | _ \<Rightarrow> True)"
proof -
  have leased: "case fst (admit_on_lease db ds pred) of
      Inr p \<Rightarrow>
        ap_text p = pred \<and> length pred \<le> 4096 \<and> distinct (ap_columns p) \<and> list_all (filterable ds) (ap_columns p) \<and>
        (\<exists>sa ns. structural_admit db pred = Inr sa \<and> set (ap_columns p) = set (sa_columns sa) \<and>
           ns = build_namespace (db_show_type db) (dv_geometry_column ds) (dv_file_schema ds) [] \<and>
           bind_admit db pred ns = Inr () \<and> type_walk (sa_operands sa) ns = Inr ())
    | Inl f \<Rightarrow> True"
    using dedup_props [of "[]"]
    by (auto simp: admit_on_lease_def namespace_admit_def bind_ok_Inr_iff admit_names_iff structural_admit_def
        max_predicate_bytes_def list_all_iff split: sum.splits if_splits)
  show ?thesis
  proof (cases "length pred > max_predicate_bytes")
    case True
    then show ?thesis by (simp add: admit_def)
  next
    case False
    obtain r pool1 where a: "acquire configured LcAdmission pool = (r, pool1)" by force
    note lease = acquire_leases [OF a]
    show ?thesis
    proof (cases r)
      case (Inl e)
      then show ?thesis using False a lease by (simp add: admit_def)
    next
      case (Inr l)
      obtain res keep where k: "admit_on_lease db ds pred = (res, keep)" by force
      show ?thesis using False a lease leased
        by (auto simp: admit_def Inr k give_back_leases split: sum.splits fault.splits)
    qed
  qed
qed

section \<open>The type walk does not panic\<close>

definition no_panic :: "fault + 'a \<Rightarrow> bool" where
  "no_panic r = (case r of Inl (Panicked _) \<Rightarrow> False | _ \<Rightarrow> True)"

lemma no_panic_simps [simp]:
  "no_panic (Inr x)" "no_panic (Inl (Refused e))" "\<not> no_panic (Inl (Panicked s))"
  by (simp_all add: no_panic_def)

lemma no_panic_bind [simp]: "no_panic (bind_ok r k) \<longleftrightarrow> no_panic r \<and> (\<forall>x. r = Inr x \<longrightarrow> no_panic (k x))"
  by (cases r) (auto simp: no_panic_def split: fault.splits)

lemma no_panic_lift [simp]: "no_panic (map_err Refused r)" "no_panic (ok_or (Refused e) x)"
  by (cases r; cases x; simp add: map_err_def)+

text \<open>Every function node anywhere in a parsed tree has an operand.\<close>

fun operands_present :: "json \<Rightarrow> bool"
and operands_present_all :: "json list \<Rightarrow> bool"
and operands_present_members :: "(string \<times> json) list \<Rightarrow> bool" where
  "operands_present (JArr vs) = operands_present_all vs"
| "operands_present (JObj ms) =
     ((get_str (JObj ms) ''class'' = Some ''FUNCTION'' \<longrightarrow> get_array (JObj ms) ''children'' \<noteq> Some []) \<and>
      operands_present_members ms)"
| "operands_present _ = True"
| "operands_present_all [] = True"
| "operands_present_all (v # vs) = (operands_present v \<and> operands_present_all vs)"
| "operands_present_members [] = True"
| "operands_present_members ((k, v) # ms) = (operands_present v \<and> operands_present_members ms)"

lemma operands_present_jget: "operands_present v \<Longrightarrow> jget v k = Some w \<Longrightarrow> operands_present w"
proof -
  have "operands_present_members ms \<Longrightarrow> map_of ms k = Some w \<Longrightarrow> operands_present w" for ms
    by (induction ms) (auto split: if_splits)
  then show "operands_present v \<Longrightarrow> jget v k = Some w \<Longrightarrow> operands_present w"
    by (cases v) (auto simp: jget_def)
qed

lemma operands_present_array:
  assumes "operands_present v" "get_array v k = Some vs"
  shows "operands_present_all vs"
proof -
  obtain w where w: "jget v k = Some w" "as_array w = Some vs"
    using assms(2) by (auto simp: get_array_def bind_eq_Some_conv)
  then have "w = JArr vs" by (simp add: as_array_def split: json.splits)
  with operands_present_jget [OF assms(1) w(1)] show ?thesis by simp
qed

lemma operands_present_function:
  "operands_present v \<Longrightarrow> get_str v ''class'' = Some ''FUNCTION'' \<Longrightarrow> get_array v ''children'' \<noteq> Some []"
  by (cases v) (auto simp: get_str_def get_array_def jget_def)

definition surrogates_known :: "namespace \<Rightarrow> bool" where
  "surrogates_known ns \<longleftrightarrow> list_all (\<lambda>(_, s). \<exists>t. duckdb_type_name t = Some s) ns"

lemma surrogate_no_panic: "duckdb_type_name t = Some s \<Longrightarrow> no_panic (engine_type_of_surrogate s)"
  by (cases t) (auto simp: duckdb_type_name_def engine_type_of_surrogate_def)

lemma column_type_no_panic: "surrogates_known ns \<Longrightarrow> no_panic (column_type ns node)"
  using surrogate_no_panic
  by (fastforce simp: column_type_def surrogates_known_def list_all_iff ok_or_Inr_iff dest: map_of_SomeD)

lemma build_namespace_known:
  "surrogates_known m \<Longrightarrow> surrogates_known (build_namespace show_dt g fds m)"
proof (induction fds arbitrary: m)
  case (Cons fd fds)
  have insert: "surrogates_known (btree_insert k s m)" if "surrogates_known m" "duckdb_type_name t = Some s" for k s t m
    using that by (induction k s m rule: btree_insert.induct) (auto simp: surrogates_known_def)
  show ?case using Cons insert
    by (auto simp: filter_surrogate_iff split: sum.splits)
qed simp

lemma promote_no_panic: "is_int l \<Longrightarrow> is_int r \<Longrightarrow> no_panic (fold_or_promote_integer l r)"
  by (auto simp: fold_or_promote_integer_def int_promote_def is_int_def Let_def)

lemma arithmetic_no_panic [simp]: "no_panic (admitted_arithmetic_result l r)"
  using promote_no_panic by (simp add: admitted_arithmetic_result_def)

lemma pair_no_panic [simp]:
  "no_panic (check_pair c l r b)" "no_panic (division_result l r)" "no_panic (unary_result op l)"
  "no_panic (binary_result op l r)" "no_panic (pattern_result c l r)" "no_panic (require_boolean_or_null l c)"
  "no_panic (boolean_expr x)"
  by (simp_all add: check_pair_def division_result_def unary_result_def binary_result_def pattern_result_def
      require_boolean_or_null_def boolean_expr_def refuse_pair_def Let_def split: option.splits)

text \<open>Every node smaller than \<open>n\<close> is typed without panic.\<close>

definition safe_below :: "namespace \<Rightarrow> nat \<Rightarrow> bool" where
  "safe_below ns n \<longleftrightarrow> (\<forall>v. size v < n \<longrightarrow> operands_present v \<longrightarrow>
     no_panic (type_of_value ns v) \<and> (\<forall>c. no_panic (check_boolean_operand ns c v)))"

lemma lists_no_panic:
  assumes "safe_below ns n"
  shows "size_list size vs < n \<Longrightarrow> operands_present_all vs \<Longrightarrow> no_panic (check_junction_children ns c vs)"
    and "size_list size vs < n \<Longrightarrow> operands_present_all vs \<Longrightarrow> no_panic (check_members ns t vs)"
    and "size_list size vs < n \<Longrightarrow> operands_present_all vs \<Longrightarrow> no_panic (check_pattern ns c vs)"
    and "size_list size vs < n \<Longrightarrow> operands_present_all vs \<Longrightarrow> no_panic (type_of_division ns vs)"
    and "size_list size vs < n \<Longrightarrow> operands_present_all vs \<Longrightarrow> vs \<noteq> [] \<Longrightarrow> no_panic (type_of_arithmetic ns c vs)"
proof -
  show "size_list size vs < n \<Longrightarrow> operands_present_all vs \<Longrightarrow> no_panic (check_junction_children ns c vs)"
    using assms by (induction vs) (auto simp: check_junction_children.simps safe_below_def)
  show "size_list size vs < n \<Longrightarrow> operands_present_all vs \<Longrightarrow> no_panic (check_members ns t vs)"
    using assms by (induction vs) (auto simp: check_members.simps safe_below_def)
  show "size_list size vs < n \<Longrightarrow> operands_present_all vs \<Longrightarrow> no_panic (check_pattern ns c vs)"
    "size_list size vs < n \<Longrightarrow> operands_present_all vs \<Longrightarrow> no_panic (type_of_division ns vs)"
    "size_list size vs < n \<Longrightarrow> operands_present_all vs \<Longrightarrow> vs \<noteq> [] \<Longrightarrow> no_panic (type_of_arithmetic ns c vs)"
    using assms
    by (auto simp: check_pattern.simps type_of_division.simps type_of_arithmetic.simps safe_below_def Let_def
        split: list.splits)
qed

lemma nodes_no_panic:
  assumes "safe_below ns (size node)" "operands_present node"
  shows "no_panic (check_comparison ns node)" "no_panic (check_between ns node)" "no_panic (check_in ns node)"
proof -
  have sub: "no_panic (type_of_value ns v)" if "jget node k = Some v" for k v
    using assms jget_size [OF that] operands_present_jget [OF assms(2) that] by (simp add: safe_below_def)
  then show "no_panic (check_comparison ns node)" "no_panic (check_between ns node)"
    by (auto simp: check_comparison.simps check_between.simps ok_or_Inr_iff)
  have "no_panic (type_of_value ns v) \<and> no_panic (check_members ns t vs)"
    if "get_array node ''children'' = Some (v # vs)" for v vs t
    using assms(1) get_array_size [OF that] operands_present_array [OF assms(2) that] lists_no_panic(2) [OF assms(1)]
    by (simp add: safe_below_def)
  then show "no_panic (check_in ns node)"
    by (auto simp: check_in.simps expect_children_Inr map_err_Inr_iff split: list.splits)
qed

lemma typing_no_panic:
  assumes ns: "surrogates_known ns"
  shows "safe_below ns n"
proof (induction n)
  case (Suc n)
  show ?case unfolding safe_below_def
  proof (intro allI impI)
    fix v assume v: "size v < Suc n" "operands_present v"
    have below: "safe_below ns (size v)" using Suc v(1) by (simp add: safe_below_def)
    note nodes = nodes_no_panic [OF below v(2)]
    have children: "no_panic (check_junction_children ns c vs)" "no_panic (check_pattern ns c vs)"
        "no_panic (type_of_division ns vs)" "vs \<noteq> [] \<Longrightarrow> no_panic (type_of_arithmetic ns c vs)"
        "\<And>x xs. vs = x # xs \<Longrightarrow> no_panic (type_of_value ns x)"
      if "get_array v ''children'' = Some vs" for vs c
      using below get_array_size [OF that] operands_present_array [OF v(2) that] lists_no_panic(1,3,4,5) [OF below]
      by (auto simp: safe_below_def)
    have args: "get_str v ''class'' = Some ''FUNCTION'' \<Longrightarrow> get_array v ''children'' \<noteq> Some []"
      by (rule operands_present_function [OF v(2)])
    have "no_panic (type_of_value ns v)"
      using children nodes args column_type_no_panic [OF ns]
      by (auto simp: type_of_value.simps [of ns v] Let_def expect_children_Inr map_err_Inr_iff
          split: list.splits dest!: unwrap_eq)
    moreover from this have "no_panic (check_boolean_operand ns c v)" for c
      using children nodes
      by (auto simp: check_boolean_operand.simps [of ns c v] Let_def expect_children_Inr map_err_Inr_iff
          split: list.splits)
    ultimately show "no_panic (type_of_value ns v) \<and> (\<forall>c. no_panic (check_boolean_operand ns c v))" by blast
  qed
qed (simp add: safe_below_def)

text \<open>
  C6: Typing a predicate never panics: with the namespace built from a dataset's schema, the type walk
  of any parsed operands in which every function node has an operand ends with a verdict. The
  \<open>unreachable!\<close> of an unknown surrogate, the \<open>expect\<close> of an integer type and the indexing of missing
  operands are not reached.
\<close>
theorem type_walk_never_panics:
  assumes "operands_present_all operands"
  shows "type_walk operands (build_namespace show_dt geometry_column schema []) \<noteq> Inl (Panicked s)"
proof -
  have "no_panic (type_walk operands (build_namespace show_dt geometry_column schema []))"
    unfolding type_walk_def
    by (rule lists_no_panic(1) [OF typing_no_panic [of _ "Suc (size_list size operands)"]])
       (auto simp: assms surrogates_known_def [of "[]"] intro!: build_namespace_known)
  then show ?thesis by (auto simp: no_panic_def)
qed

theorem type_walk_never_panics_witness:
  "type_walk [JObj [(''class'', JStr ''FUNCTION''), (''function_name'', JStr ''+''),
       (''children'', JArr [JObj [(''class'', JStr ''COLUMN_REF''), (''column_names'', JArr [JStr ''id''])]])]]
     (build_namespace (\<lambda>_. []) ''geom''
        [\<lparr>fd_name = ''id'', fd_type = DInt64, fd_nullable = False, fd_metadata = Map.empty\<rparr>] [])
   \<noteq> Inl (Panicked ''index out of bounds'')"
  by (rule type_walk_never_panics) (simp add: get_str_def get_array_def jget_def as_array_def)

section \<open>Conversions of admitted comparisons\<close>

text \<open>The values of an integer type, and the integers a float type holds without rounding.\<close>

definition int_values :: "engine_type \<Rightarrow> int set" where
  "int_values t =
     (case int_bits_signed t of
        None \<Rightarrow> {}
      | Some (b, is_signed) \<Rightarrow> if is_signed then {- (2 ^ (b - 1)) ..< 2 ^ (b - 1)} else {0 ..< 2 ^ b})"

definition float_exact :: "engine_type \<Rightarrow> int set" where
  "float_exact t = (case t of EReal \<Rightarrow> {- (2 ^ 24) .. 2 ^ 24} | EDouble \<Rightarrow> {- (2 ^ 53) .. 2 ^ 53} | _ \<Rightarrow> {})"

text \<open>Every value of the one type has its place in the other; only \<open>UHUGEINT\<close> has more than \<open>HUGEINT\<close> can hold.\<close>

definition holds_values :: "engine_type \<Rightarrow> engine_type \<Rightarrow> bool" where
  "holds_values t a \<longleftrightarrow> int_values a \<subseteq> int_values t \<or> a = UHugeInt \<and> t = HugeInt"

lemma int_promote_holds:
  assumes "int_promote a b = Inr t"
  shows "holds_values t a \<and> holds_values t b"
  using assms
  by (cases a; cases b)
     (auto simp: holds_values_def int_promote_def int_bits_signed_def bits_signed_to_type_def int_values_def Let_def max_def)

lemma int_le_float_exact:
  "int_le t 16 \<Longrightarrow> int_values (ty t) \<subseteq> float_exact EReal"
  "int_le t 32 \<Longrightarrow> int_values (ty t) \<subseteq> float_exact EDouble"
  by (cases "ty t"; auto simp: int_le_def bits_le_def int_bits_signed_def int_values_def float_exact_def)+

lemma int_le_nonempty: "int_le t n \<Longrightarrow> int_values (ty t) \<noteq> {}"
  by (cases "ty t") (auto simp: int_le_def bits_le_def int_bits_signed_def int_values_def)

lemma is_int_types: "is_int t \<Longrightarrow> int_bits_signed (ty t) \<noteq> None"
  by (simp add: is_int_def)

lemma fits_int_type_iff:
  "v \<in> {- (2 ^ 127) ..< 2 ^ 127} \<Longrightarrow> fits_int_type v t \<longleftrightarrow> v \<in> int_values t"
  by (cases t) (auto simp: fits_int_type_def int_values_def int_bits_signed_def)

lemma is_admitted_comparison_sym: "is_admitted_comparison l r \<longleftrightarrow> is_admitted_comparison r l"
  by (auto simp: is_admitted_comparison_def)

text \<open>
  C7: A comparison admitted between two operands, neither of them a literal or a result that stands for a
  decimal literal, converts no value by rounding: the operands have one type, one of them is \<open>NULL\<close>, they are
  \<open>REAL\<close> beside \<open>DOUBLE\<close>, they are integers whose common type holds every value of both, or an
  integer type all of whose values the float type holds exactly. The one conversion that can fail is
  that of a \<open>UHUGEINT\<close> beside a signed integer to their common type \<open>HUGEINT\<close>, which cannot hold the
  values from 2^127 up. Admission does not depend on the order of the operands.
\<close>
theorem admitted_comparisons_never_round:
  assumes "is_admitted_comparison l r" "kind l \<noteq> OkLiteral" "kind r \<noteq> OkLiteral"
    and "\<not> counts_as_decimal_literal l" "\<not> counts_as_decimal_literal r"
  shows "is_admitted_comparison r l \<and>
    (ty l = ty r \<or> ENull \<in> {ty l, ty r} \<or> {ty l, ty r} = {EReal, EDouble} \<or>
     (\<exists>t. int_promote (ty l) (ty r) = Inr t \<and> holds_values t (ty l) \<and> holds_values t (ty r)) \<or>
     int_values (ty l) \<noteq> {} \<and> int_values (ty l) \<subseteq> float_exact (ty r) \<or>
     int_values (ty r) \<noteq> {} \<and> int_values (ty r) \<subseteq> float_exact (ty l))"
proof -
  consider "ty l = ty r" | "ENull \<in> {ty l, ty r}" | "is_int l" "is_int r" | "{ty l, ty r} = {EReal, EDouble}"
    | "ty l = EReal" "int_le r 16" | "ty l = EDouble" "int_le r 32"
    | "ty r = EReal" "int_le l 16" | "ty r = EDouble" "int_le l 32"
    using assms
    by (auto simp: is_admitted_comparison_def is_decimal_literal_def is_double_literal_def is_int_literal_def
        is_numeric_literal_within_bounds_def split: if_splits)
  then have "ty l = ty r \<or> ENull \<in> {ty l, ty r} \<or> {ty l, ty r} = {EReal, EDouble} \<or>
     (\<exists>t. int_promote (ty l) (ty r) = Inr t \<and> holds_values t (ty l) \<and> holds_values t (ty r)) \<or>
     int_values (ty l) \<noteq> {} \<and> int_values (ty l) \<subseteq> float_exact (ty r) \<or>
     int_values (ty r) \<noteq> {} \<and> int_values (ty r) \<subseteq> float_exact (ty l)"
  proof cases
    case 3
    then obtain t where "int_promote (ty l) (ty r) = Inr t"
      using is_int_types [OF 3(1)] is_int_types [OF 3(2)] by (auto simp: int_promote_def)
    with int_promote_holds show ?thesis by blast
  qed (use int_le_float_exact int_le_nonempty in \<open>auto\<close>)
  with assms(1) is_admitted_comparison_sym show ?thesis by blast
qed

theorem admitted_comparisons_never_round_witness:
  "is_admitted_comparison (typed_column EDouble) (typed_column UInteger) \<and>
   int_values UInteger \<subseteq> float_exact EDouble"
proof -
  have "is_admitted_comparison (typed_column UInteger) (typed_column EDouble)" by code_simp
  from admitted_comparisons_never_round [OF this] show ?thesis
    by (simp add: typed_column_def int_promote_def int_bits_signed_def int_values_def float_exact_def doubleton_eq_iff)
qed

end
