(* ===== verification/Cancel.thy ===== *)
theory Cancel
  imports Engine_Error
begin

text \<open>
  \<open>engine/src/cancel.rs\<close>: the cancellation token. The sequential methods act on the token and on the list
  of interrupts raised so far; the race between a thread that executes a query, threads that cancel it and
  the re-interrupting threads they spawn is a step relation whose steps are the atomic accesses of the code
  (an access under the mutex is one step). An interrupt handle is a number. A caller that only reads the
  flag while others may set it reads the answers of a poll function \<open>nat \<Rightarrow> bool\<close>, one per read.
\<close>

section \<open>The token\<close>

record token =
  tk_cancelled :: bool
  tk_interrupt :: "nat option"
  tk_in_execute :: bool

definition token_new :: token where
  "token_new = \<lparr>tk_cancelled = False, tk_interrupt = None, tk_in_execute = False\<rparr>"

definition is_cancelled :: "token \<Rightarrow> bool" where
  "is_cancelled t = tk_cancelled t"

definition is_executing :: "token \<Rightarrow> bool" where
  "is_executing t = tk_in_execute t"

definition is_bound :: "token \<Rightarrow> bool" where
  "is_bound t \<longleftrightarrow> tk_interrupt t \<noteq> None"

text \<open>\<open>attach\<close> returns the token and the handle it interrupted, if any.\<close>

definition attach :: "nat \<Rightarrow> token \<Rightarrow> engine_error + (token \<times> nat list)" where
  "attach h t =
     (if tk_interrupt t \<noteq> None then
        Inl (EngSource (''this cancellation token is already bound to a running stream; each stream needs '' @
                        ''its own token''))
      else Inr (t\<lparr>tk_interrupt := Some h\<rparr>, if tk_cancelled t then [h] else []))"

definition detach :: "token \<Rightarrow> token" where
  "detach t = t\<lparr>tk_interrupt := None\<rparr>"

text \<open>\<open>cancel_inner\<close> without interleaving: the token, whether it was stamped, the interrupts it raised and
  whether it spawned a re-interrupter.\<close>

definition cancel_inner :: "bool \<Rightarrow> token \<Rightarrow> token \<times> bool \<times> nat list \<times> bool" where
  "cancel_inner stamp t =
     (let already = tk_cancelled t; t1 = t\<lparr>tk_cancelled := True\<rparr>
      in (t1, stamp \<and> \<not> already,
          (case tk_interrupt t1 of Some h \<Rightarrow> [h] | None \<Rightarrow> []),
          \<not> already \<and> tk_in_execute t1))"

definition cancel_token :: "token \<Rightarrow> token \<times> bool \<times> nat list \<times> bool" where
  "cancel_token = cancel_inner True"

definition cancel_for_drop :: "token \<Rightarrow> token \<times> bool \<times> nat list \<times> bool" where
  "cancel_for_drop = cancel_inner False"

section \<open>Guarded execution\<close>

datatype ('t, 'e) guarded = GOk 't | GErr 'e | GCancelled

definition into_result :: "('t, engine_error) guarded \<Rightarrow> engine_error + 't" where
  "into_result g = (case g of GOk v \<Rightarrow> Inr v | GErr e \<Rightarrow> Inl e | GCancelled \<Rightarrow> Inl EngCancelled)"

text \<open>\<open>cancelled k\<close> is the answer of the \<open>k\<close>-th read of the flag; the closure starts at the read after the
  first one and returns the number of the next read.\<close>

definition execute_guarded ::
    "(nat \<Rightarrow> bool) \<Rightarrow> nat \<Rightarrow> (nat \<Rightarrow> ('e + 't) \<times> nat) \<Rightarrow> ('t, 'e) guarded \<times> nat" where
  "execute_guarded cancelled k f =
     (if cancelled k then (GCancelled, k + 1)
      else case f (k + 1) of
             (Inr v, k') \<Rightarrow> (if cancelled k' then GCancelled else GOk v, k' + 1)
           | (Inl e, k') \<Rightarrow> (GErr e, k'))"

section \<open>Interleaving\<close>

text \<open>A cancelling thread is before the swap, has swapped (with what the swap returned) or has raised the
  interrupt too; then it spawns or not. The executing thread is outside (\<open>EIdle\<close>), attached, in the
  window before its check of the flag, or running the closure.\<close>

datatype canceller = CStart bool | CSwapped bool | CRaised bool | CDone

datatype executor = EIdle | EAttached | EOpened | ERunning

record cancel_sys =
  tok :: token
  cancellers :: "canceller list"
  executing :: executor
  reinterrupters :: "bool list"
  raised :: "nat list"
  stamps :: nat
  spawn_failed :: bool

definition cancel_init :: "canceller list \<Rightarrow> cancel_sys" where
  "cancel_init cs =
     \<lparr>tok = token_new, cancellers = cs, executing = EIdle, reinterrupters = [], raised = [], stamps = 0,
      spawn_failed = False\<rparr>"

definition swap_step :: "nat \<Rightarrow> bool \<Rightarrow> cancel_sys \<Rightarrow> cancel_sys" where
  "swap_step i stamp s =
     (let already = tk_cancelled (tok s)
      in s\<lparr>tok := (tok s)\<lparr>tk_cancelled := True\<rparr>,
           stamps := stamps s + (if stamp \<and> \<not> already then 1 else 0),
           cancellers := (cancellers s)[i := CSwapped already]\<rparr>)"

definition raise_slot :: "cancel_sys \<Rightarrow> cancel_sys" where
  "raise_slot s = (case tk_interrupt (tok s) of Some h \<Rightarrow> s\<lparr>raised := h # raised s\<rparr> | None \<Rightarrow> s)"

definition raise_step :: "nat \<Rightarrow> bool \<Rightarrow> cancel_sys \<Rightarrow> cancel_sys" where
  "raise_step i already s = (raise_slot s)\<lparr>cancellers := (cancellers s)[i := CRaised already]\<rparr>"

definition spawn_step :: "nat \<Rightarrow> bool \<Rightarrow> bool \<Rightarrow> cancel_sys \<Rightarrow> cancel_sys" where
  "spawn_step i already spawns s =
     (let s1 = s\<lparr>cancellers := (cancellers s)[i := CDone]\<rparr>
      in if \<not> already \<and> tk_in_execute (tok s) then
           (if spawns then s1\<lparr>reinterrupters := reinterrupters s @ [True]\<rparr> else s1\<lparr>spawn_failed := True\<rparr>)
         else s1)"

definition tick_step :: "nat \<Rightarrow> cancel_sys \<Rightarrow> cancel_sys" where
  "tick_step j s =
     (if \<not> tk_in_execute (tok s) \<or> tk_interrupt (tok s) = None
      then s\<lparr>reinterrupters := (reinterrupters s)[j := False]\<rparr> else raise_slot s)"

inductive cancel_step :: "cancel_sys \<Rightarrow> cancel_sys \<Rightarrow> bool" where
  swap: "i < length (cancellers s) \<Longrightarrow> cancellers s ! i = CStart stamp \<Longrightarrow> cancel_step s (swap_step i stamp s)"
| raise: "i < length (cancellers s) \<Longrightarrow> cancellers s ! i = CSwapped already \<Longrightarrow>
    cancel_step s (raise_step i already s)"
| spawn: "i < length (cancellers s) \<Longrightarrow> cancellers s ! i = CRaised already \<Longrightarrow>
    cancel_step s (spawn_step i already spawns s)"
| tick: "j < length (reinterrupters s) \<Longrightarrow> reinterrupters s ! j \<Longrightarrow> cancel_step s (tick_step j s)"
| bind: "executing s = EIdle \<Longrightarrow> attach h (tok s) = Inr (t, hs) \<Longrightarrow>
    cancel_step s (s\<lparr>tok := t, raised := hs @ raised s, executing := EAttached\<rparr>)"
| unbind: "executing s = EAttached \<Longrightarrow> cancel_step s (s\<lparr>tok := detach (tok s), executing := EIdle\<rparr>)"
| window: "executing s = EAttached \<Longrightarrow>
    cancel_step s (s\<lparr>tok := (tok s)\<lparr>tk_in_execute := True\<rparr>, executing := EOpened\<rparr>)"
| refuse: "executing s = EOpened \<Longrightarrow> tk_cancelled (tok s) \<Longrightarrow>
    cancel_step s (s\<lparr>tok := (tok s)\<lparr>tk_in_execute := False\<rparr>, executing := EAttached\<rparr>)"
| run: "executing s = EOpened \<Longrightarrow> \<not> tk_cancelled (tok s) \<Longrightarrow> cancel_step s (s\<lparr>executing := ERunning\<rparr>)"
| return: "executing s = ERunning \<Longrightarrow>
    cancel_step s (s\<lparr>tok := (tok s)\<lparr>tk_in_execute := False\<rparr>, executing := EAttached\<rparr>)"

inductive cancel_reachable :: "cancel_sys \<Rightarrow> bool" where
  start: "\<forall>c \<in> set cs. \<exists>stamp. c = CStart stamp \<Longrightarrow> cancel_reachable (cancel_init cs)"
| step: "cancel_reachable s \<Longrightarrow> cancel_step s s' \<Longrightarrow> cancel_reachable s'"

lemmas cancel_step_defs = swap_step_def raise_step_def spawn_step_def tick_step_def raise_slot_def

section \<open>The invariant\<close>

definition owes_spawn :: "canceller \<Rightarrow> bool" where
  "owes_spawn c \<longleftrightarrow> c = CSwapped False \<or> c = CRaised False"

text \<open>The flag that opens the window and the bound handle follow the executing thread; a running closure
  whose token is cancelled has a live re-interrupter, or a canceller that still has to spawn it.\<close>

definition cancel_inv :: "cancel_sys \<Rightarrow> bool" where
  "cancel_inv s \<longleftrightarrow>
     (tk_in_execute (tok s) \<longleftrightarrow> executing s = EOpened \<or> executing s = ERunning) \<and>
     (tk_interrupt (tok s) = None \<longleftrightarrow> executing s = EIdle) \<and>
     (executing s = ERunning \<and> tk_cancelled (tok s) \<longrightarrow>
        True \<in> set (reinterrupters s) \<or> (\<exists>c \<in> set (cancellers s). owes_spawn c) \<or> spawn_failed s) \<and>
     stamps s \<le> (if tk_cancelled (tok s) then 1 else 0)"

lemma owes_update_other:
  assumes "\<exists>c \<in> set cs. owes_spawn c" "i < length cs" "\<not> owes_spawn (cs ! i) \<or> owes_spawn x"
  shows "\<exists>c \<in> set (cs[i := x]). owes_spawn c"
proof -
  from assms(1) obtain j where j: "j < length cs" "owes_spawn (cs ! j)" by (auto simp: in_set_conv_nth)
  show ?thesis
  proof (cases "j = i")
    case True
    then have "owes_spawn x" using assms(3) j by auto
    then show ?thesis using assms(2) set_update_memI [of i cs x] by blast
  next
    case False
    then have "cs[i := x] ! j = cs ! j" by simp
    then show ?thesis using j by (metis length_list_update nth_mem)
  qed
qed

lemma owes_update_new: "i < length cs \<Longrightarrow> owes_spawn x \<Longrightarrow> \<exists>c \<in> set (cs[i := x]). owes_spawn c"
  using set_update_memI [of i cs x] by blast

lemma cancel_inv_init: "cancel_inv (cancel_init cs)"
  by (simp add: cancel_inv_def cancel_init_def token_new_def)

lemma cancel_inv_step: "cancel_step s s' \<Longrightarrow> cancel_inv s \<Longrightarrow> cancel_inv s'"
proof (induction rule: cancel_step.induct)
  case (swap i s stamp)
  show ?case
  proof (cases "tk_cancelled (tok s)")
    case True
    then show ?thesis using swap owes_update_other [of "cancellers s" i "CSwapped True"]
      by (auto simp: cancel_inv_def swap_step_def owes_spawn_def)
  next
    case False
    then show ?thesis using swap owes_update_new [of i "cancellers s" "CSwapped False"]
      by (simp add: cancel_inv_def swap_step_def owes_spawn_def)
  qed
next
  case (raise i s already)
  then have "(\<exists>c \<in> set (cancellers s). owes_spawn c) \<Longrightarrow> \<exists>c \<in> set ((cancellers s)[i := CRaised already]). owes_spawn c"
    using owes_update_other [of "cancellers s" i "CRaised already"] by (auto simp: owes_spawn_def)
  then show ?case using raise by (auto simp: cancel_inv_def raise_step_def raise_slot_def split: option.splits)
next
  case (spawn i s already spawns)
  show ?case
  proof (cases already)
    case True
    then have "(\<exists>c \<in> set (cancellers s). owes_spawn c) \<Longrightarrow> \<exists>c \<in> set ((cancellers s)[i := CDone]). owes_spawn c"
      using spawn owes_update_other [of "cancellers s" i CDone] by (simp add: owes_spawn_def)
    then show ?thesis using spawn True by (auto simp: cancel_inv_def spawn_step_def)
  next
    case False
    then show ?thesis using spawn by (auto simp: cancel_inv_def spawn_step_def Let_def)
  qed
next
  case (tick j s)
  then show ?case by (auto simp: cancel_inv_def tick_step_def raise_slot_def split: option.splits)
next
  case (bind s h t hs)
  then show ?case by (auto simp: cancel_inv_def attach_def split: if_splits)
qed (auto simp: cancel_inv_def detach_def split: if_splits)

lemma cancel_reachable_inv: "cancel_reachable s \<Longrightarrow> cancel_inv s"
  by (induction rule: cancel_reachable.induct) (auto intro: cancel_inv_init cancel_inv_step)

section \<open>What cancellation guarantees\<close>

text \<open>An interrupt is only ever raised on the handle bound at that moment, or on the handle being bound.\<close>

lemma interrupts_hit_the_bound_handle:
  assumes "cancel_step s s'"
  shows "raised s' = raised s \<or>
    (\<exists>h. raised s' = h # raised s \<and> (tk_interrupt (tok s) = Some h \<or> tk_interrupt (tok s) = None \<and> tk_interrupt (tok s') = Some h))"
  using assms
  by (cases rule: cancel_step.cases)
    (auto simp: cancel_step_defs attach_def detach_def Let_def split: option.splits if_splits)

lemma cancelled_forever: "cancel_step s s' \<Longrightarrow> tk_cancelled (tok s) \<Longrightarrow> tk_cancelled (tok s')"
  by (induction rule: cancel_step.induct)
    (auto simp: cancel_step_defs attach_def detach_def Let_def split: option.splits if_splits)

text \<open>C19: In every state that threads cancelling, executing and re-interrupting can reach, if the token is
  cancelled while a query runs under \<open>execute_guarded\<close> and every cancelling thread has returned, then
  (unless the operating system refused a thread) a re-interrupting thread is alive whose next round raises
  DuckDB's interrupt on the handle the running query is bound to. So a cancel that lands anywhere in the window
  is not lost, although DuckDB clears its own flag.\<close>

theorem cancel_reaches_the_running_query:
  assumes "cancel_reachable s" "executing s = ERunning" "tk_cancelled (tok s)"
    and "\<forall>c \<in> set (cancellers s). c = CDone" "\<not> spawn_failed s"
  shows "\<exists>j h. j < length (reinterrupters s) \<and> reinterrupters s ! j \<and> tk_interrupt (tok s) = Some h \<and>
    tick_step j s = s\<lparr>raised := h # raised s\<rparr> \<and> cancel_step s (tick_step j s)"
proof -
  have inv: "cancel_inv s" by (rule cancel_reachable_inv [OF assms(1)])
  have "\<not> (\<exists>c \<in> set (cancellers s). owes_spawn c)" using assms(4) by (auto simp: owes_spawn_def)
  then have "True \<in> set (reinterrupters s)" using inv assms(2,3,5) by (simp add: cancel_inv_def)
  then obtain j where j: "j < length (reinterrupters s)" "reinterrupters s ! j" by (auto simp: in_set_conv_nth)
  obtain h where h: "tk_interrupt (tok s) = Some h" using inv assms(2) by (auto simp: cancel_inv_def)
  have "tick_step j s = s\<lparr>raised := h # raised s\<rparr>"
    using inv assms(2) h by (simp add: tick_step_def raise_slot_def cancel_inv_def)
  then show ?thesis using j h cancel_step.tick [OF j] by metis
qed

text \<open>A run in which the cancel lands after the check of the flag: the interrupt raised at once is cleared
  by DuckDB, the re-interrupter raises it again.\<close>

definition cancel_run :: cancel_sys where
  "cancel_run =
     spawn_step 0 False True (raise_step 0 False (swap_step 0 True
       ((cancel_init [CStart True])
          \<lparr>tok := \<lparr>tk_cancelled = False, tk_interrupt = Some 7, tk_in_execute = True\<rparr>, executing := ERunning\<rparr>)))"

lemma cancel_run_reachable: "cancel_reachable cancel_run"
proof -
  let ?s0 = "cancel_init [CStart True]"
  let ?s1 = "?s0\<lparr>tok := \<lparr>tk_cancelled = False, tk_interrupt = Some 7, tk_in_execute = False\<rparr>, executing := EAttached\<rparr>"
  let ?s2 = "?s1\<lparr>tok := \<lparr>tk_cancelled = False, tk_interrupt = Some 7, tk_in_execute = True\<rparr>, executing := EOpened\<rparr>"
  let ?s3 = "?s2\<lparr>executing := ERunning\<rparr>"
  have "cancel_reachable ?s0" by (rule start) auto
  moreover have "cancel_step ?s0 ?s1"
    using cancel_step.bind [of ?s0 7 "\<lparr>tk_cancelled = False, tk_interrupt = Some 7, tk_in_execute = False\<rparr>" "[]"]
    by (simp add: cancel_init_def token_new_def attach_def)
  moreover have "cancel_step ?s1 ?s2" using cancel_step.window [of ?s1] by simp
  moreover have "cancel_step ?s2 ?s3" using cancel_step.run [of ?s2] by simp
  ultimately have r: "cancel_reachable ?s3" by (metis cancel_reachable.step)
  have a: "cancel_step ?s3 (swap_step 0 True ?s3)" by (rule cancel_step.swap) (simp_all add: cancel_init_def)
  have b: "cancel_step (swap_step 0 True ?s3) (raise_step 0 False (swap_step 0 True ?s3))"
    by (rule cancel_step.raise) (simp_all add: cancel_init_def swap_step_def)
  have c: "cancel_step (raise_step 0 False (swap_step 0 True ?s3)) (spawn_step 0 False True (raise_step 0 False (swap_step 0 True ?s3)))"
    by (rule cancel_step.spawn) (simp_all add: cancel_init_def swap_step_def raise_step_def raise_slot_def)
  have "cancel_reachable (spawn_step 0 False True (raise_step 0 False (swap_step 0 True ?s3)))"
    by (rule cancel_reachable.step [OF cancel_reachable.step [OF cancel_reachable.step [OF r a] b] c])
  then show ?thesis by (simp add: cancel_run_def cancel_init_def)
qed

theorem cancel_reaches_the_running_query_witness:
  "\<exists>j h. j < length (reinterrupters cancel_run) \<and> reinterrupters cancel_run ! j \<and> tk_interrupt (tok cancel_run) = Some h \<and>
    tick_step j cancel_run = cancel_run\<lparr>raised := h # raised cancel_run\<rparr> \<and> cancel_step cancel_run (tick_step j cancel_run)"
  by (rule cancel_reaches_the_running_query [OF cancel_run_reachable])
    (simp_all add: cancel_run_def cancel_init_def cancel_step_defs)

text \<open>\<open>execute_guarded\<close> reports success only when neither check saw the flag.\<close>

lemma guarded_ok_uncancelled:
  assumes "execute_guarded cancelled k f = (GOk v, m)"
  shows "\<exists>k'. f (k + 1) = (Inr v, k') \<and> \<not> cancelled k \<and> \<not> cancelled k' \<and> m = k' + 1"
  using assms by (auto simp: execute_guarded_def split: if_splits sum.splits prod.splits)

end
