(* ===== verification/Index.thy ===== *)
theory Index
  imports Ieee Cancel Serde
begin

text \<open>
  \<open>engine/src/index.rs\<close>: the spatial index over the covering boxes of a dataset. DuckDB's answers (the
  prepared statement, its Arrow chunks) are parameters, as are the reads of the cancellation flag (a poll
  function, one answer per read), the \<open>Debug\<close> text of a box and the clock. An Arrow array is
  its \<open>value\<close> accessor. \<open>cells\<close> is an association list; slots, cells and counts are \<open>nat\<close>, with the casts and
  subtractions of the \<open>u32\<close> values written out.
\<close>

section \<open>Constants, phases, keys\<close>

definition index_builder_version :: nat where "index_builder_version = 1"
definition answers_predicate :: string where "answers_predicate = ''covering-bbox-intersects''"
definition max_indexed_features :: nat where "max_indexed_features = 20000000"
definition grid_axis_cells :: nat where "grid_axis_cells = 256"
definition bytes_per_indexed_feature :: nat where "bytes_per_indexed_feature = 8 + 32"
definition bytes_per_cell_entry :: nat where "bytes_per_cell_entry = 4"
definition cancel_poll_interval :: nat where "cancel_poll_interval = 4096"
definition max_cells_per_feature :: nat where "max_cells_per_feature = 1024"
definition max_id_ranges :: nat where "max_id_ranges = 4096"

datatype index_phase =
    PhContentHash | PhDuckDbScan | PhValidateBboxes | PhComputeExtent | PhPopulateGrid
  | PhRowGroupMetadata | PhRowGroupAdmissibility | PhComplete

definition index_phase_as_str :: "index_phase \<Rightarrow> string" where
  "index_phase_as_str p =
     (case p of
        PhContentHash \<Rightarrow> ''content-hash''
      | PhDuckDbScan \<Rightarrow> ''duckdb-scan''
      | PhValidateBboxes \<Rightarrow> ''validate-bboxes''
      | PhComputeExtent \<Rightarrow> ''compute-extent''
      | PhPopulateGrid \<Rightarrow> ''populate-grid''
      | PhRowGroupMetadata \<Rightarrow> ''row-group-metadata''
      | PhRowGroupAdmissibility \<Rightarrow> ''row-group-admissibility''
      | PhComplete \<Rightarrow> ''complete'')"

record index_key =
  ik_content_hash :: string
  ik_builder_version :: nat
  ik_answers :: string
  ik_grid_axis_cells :: nat
  ik_id_column :: string

definition index_key_new :: "string \<Rightarrow> string \<Rightarrow> index_key" where
  "index_key_new content_hash id_column =
     \<lparr>ik_content_hash = content_hash, ik_builder_version = index_builder_version,
      ik_answers = answers_predicate, ik_grid_axis_cells = grid_axis_cells, ik_id_column = id_column\<rparr>"

record validity_heuristic =
  vh_len :: nat
  vh_modified_nanos :: "nat option"

text \<open>What \<open>fs::metadata\<close> says: the length, and the modification time (seen from the epoch, if after it).\<close>

record file_metadata =
  fm_len :: nat
  fm_modified :: "(int option) option"

definition validity_of :: "file_metadata option \<Rightarrow> validity_heuristic option" where
  "validity_of md =
     (case md of
        None \<Rightarrow> None
      | Some m \<Rightarrow>
          Some \<lparr>vh_len = fm_len m,
                vh_modified_nanos =
                  (case fm_modified m of
                     Some (Some t) \<Rightarrow> (if 0 \<le> t then Some (nat t) else None)
                   | _ \<Rightarrow> None)\<rparr>)"

definition fail_closed_matches :: "validity_heuristic option \<Rightarrow> validity_heuristic option \<Rightarrow> bool" where
  "fail_closed_matches a b =
     (case (a, b) of
        (Some x, Some y) \<Rightarrow> x = y \<and> vh_modified_nanos x \<noteq> None
      | _ \<Rightarrow> False)"

datatype index_miss = MissAbsent | MissKeyMismatch | MissSourceChanged

section \<open>The index\<close>

type_synonym f64x4 = "f64 \<times> f64 \<times> f64 \<times> f64"
type_synonym cell = "nat \<times> nat"

record view_bbox =
  vw_xmin :: f64
  vw_ymin :: f64
  vw_xmax :: f64
  vw_ymax :: f64

record spatial_index =
  si_key :: index_key
  si_validity :: "validity_heuristic option"
  si_ids :: "u64 list"
  si_bboxes :: "f64x4 list"
  si_extent :: f64x4
  si_cells :: "(cell \<times> nat list) list"
  si_spanning :: "nat list"
  si_cell_entries :: nat
  si_build_millis :: f64
  si_scanned_rows :: nat

definition feature_count :: "spatial_index \<Rightarrow> nat" where
  "feature_count ix = length (si_ids ix)"

definition declared_memory_bound :: "spatial_index \<Rightarrow> nat" where
  "declared_memory_bound ix =
     length (si_ids ix) * bytes_per_indexed_feature + si_cell_entries ix * bytes_per_cell_entry"

text \<open>One axis of \<open>cell_of\<close>; \<open>0x406FE00000000000\<close> is \<open>(GRID_AXIS_CELLS - 1) as f64\<close>, 255.0.\<close>

definition axis_cell :: "f64 \<Rightarrow> f64 \<Rightarrow> f64 \<Rightarrow> nat" where
  "axis_cell e0 e2 x =
     (let span = f64_max (f64_sub e2 e0) f64_min_positive; n = 0x406FE00000000000
      in f64_to_u32 (f64_clamp (f64_mul (f64_div (f64_sub x e0) span) n) 0 n))"

fun cell_of :: "f64x4 \<Rightarrow> f64 \<Rightarrow> f64 \<Rightarrow> cell" where
  "cell_of (e0, e1, e2, e3) x y = (axis_cell e0 e2 x, axis_cell e1 e3 y)"

section \<open>Building\<close>

datatype arrow_column = UInt64Array "nat \<Rightarrow> u64" | Float64Array "nat \<Rightarrow> f64" | OtherArray

record arrow_chunk =
  ch_column :: "nat \<Rightarrow> arrow_column"
  ch_num_rows :: nat

definition id_array :: "arrow_chunk \<Rightarrow> engine_error + (nat \<Rightarrow> u64)" where
  "id_array ch =
     (case ch_column ch 0 of UInt64Array a \<Rightarrow> Inr a | _ \<Rightarrow> Inl (EngQuery ''index: id column is not u64''))"

definition bound_array :: "arrow_chunk \<Rightarrow> nat \<Rightarrow> engine_error + (nat \<Rightarrow> f64)" where
  "bound_array ch i =
     (case ch_column ch i of
        Float64Array a \<Rightarrow> Inr a
      | _ \<Rightarrow> Inl (EngQuery (''index: column '' @ show_nat i @ '' is not f64'')))"

definition read_chunk :: "arrow_chunk \<Rightarrow> nat \<Rightarrow> engine_error + (u64 list \<times> f64x4 list)" where
  "read_chunk ch rows =
     bind_ok (id_array ch) (\<lambda>idc.
     bind_ok (bound_array ch 1) (\<lambda>xmin.
     bind_ok (bound_array ch 2) (\<lambda>ymin.
     bind_ok (bound_array ch 3) (\<lambda>xmax.
     bind_ok (bound_array ch 4) (\<lambda>ymax.
       if rows + ch_num_rows ch > max_indexed_features then
         Inl (EngCeilingExceeded ''MAX_INDEXED_FEATURES'' max_indexed_features (rows + ch_num_rows ch))
       else Inr (map idc [0..<ch_num_rows ch],
                 map (\<lambda>r. (xmin r, ymin r, xmax r, ymax r)) [0..<ch_num_rows ch]))))))"

type_synonym polls = "nat \<Rightarrow> bool"
type_synonym 'a polled = "(engine_error + 'a) \<times> nat"

fun scan_chunks :: "polls \<Rightarrow> nat \<Rightarrow> arrow_chunk list \<Rightarrow> u64 list \<Rightarrow> f64x4 list \<Rightarrow> (u64 list \<times> f64x4 list \<times> nat) polled" where
  "scan_chunks cancelled k [] ids bboxes = (Inr (ids, bboxes, length ids), k)"
| "scan_chunks cancelled k (ch # chs) ids bboxes =
     (if cancelled k then (Inl EngCancelled, k + 1)
      else case read_chunk ch (length ids) of
             Inl e \<Rightarrow> (Inl e, k + 1)
           | Inr (is, bs) \<Rightarrow> scan_chunks cancelled (k + 1) chs (ids @ is) (bboxes @ bs))"

definition scan ::
    "(string \<Rightarrow> string + (string + arrow_chunk list)) \<Rightarrow> string \<Rightarrow> polls \<Rightarrow> nat \<Rightarrow> (u64 list \<times> f64x4 list \<times> nat) polled" where
  "scan duckdb sql cancelled k =
     (case duckdb sql of
        Inl e \<Rightarrow> (Inl (EngQuery (''index build prepare: '' @ e)), k)
      | Inr (Inl e) \<Rightarrow> (Inl (EngQuery (''index build: '' @ e)), k)
      | Inr (Inr chunks) \<Rightarrow> scan_chunks cancelled k chunks [] [])"

fun bbox_finite :: "f64x4 \<Rightarrow> bool" where
  "bbox_finite (a, b, c, d) \<longleftrightarrow> f64_is_finite a \<and> f64_is_finite b \<and> f64_is_finite c \<and> f64_is_finite d"

fun bbox_inverted :: "f64x4 \<Rightarrow> bool" where
  "bbox_inverted (a, b, c, d) \<longleftrightarrow> f64_lt c a \<or> f64_lt d b"

fun validate_bboxes :: "(f64x4 \<Rightarrow> string) \<Rightarrow> polls \<Rightarrow> nat \<Rightarrow> nat \<Rightarrow> f64x4 list \<Rightarrow> unit polled" where
  "validate_bboxes dbg cancelled k i [] = (Inr (), k)"
| "validate_bboxes dbg cancelled k i (b # bs) =
     (let polls = (i mod cancel_poll_interval = 0); k' = (if polls then k + 1 else k)
      in if polls \<and> cancelled k then (Inl EngCancelled, k')
         else if \<not> bbox_finite b then
           (Inl (EngSource (''feature at row '' @ show_nat i @ '' has a non-finite covering bbox ('' @ dbg b @
              ''); this engine                      will not index a bound it cannot compare'')), k')
         else if bbox_inverted b then
           (Inl (EngSource (''feature at row '' @ show_nat i @ '' has an inverted covering bbox ('' @ dbg b @ '')'')), k')
         else validate_bboxes dbg cancelled k' (i + 1) bs)"

fun grow :: "f64x4 \<Rightarrow> f64x4 \<Rightarrow> f64x4" where
  "grow (e0, e1, e2, e3) (a, b, c, d) = (f64_min e0 a, f64_min e1 b, f64_max e2 c, f64_max e3 d)"

fun extent_loop :: "polls \<Rightarrow> nat \<Rightarrow> nat \<Rightarrow> f64x4 \<Rightarrow> f64x4 list \<Rightarrow> f64x4 polled" where
  "extent_loop cancelled k i ext [] = (Inr ext, k)"
| "extent_loop cancelled k i ext (b # bs) =
     (let polls = (i mod cancel_poll_interval = 0); k' = (if polls then k + 1 else k)
      in if polls \<and> cancelled k then (Inl EngCancelled, k')
         else extent_loop cancelled k' (i + 1) (grow ext b) bs)"

definition empty_extent :: f64x4 where
  "empty_extent = (f64_infinity, f64_infinity, f64_neg_infinity, f64_neg_infinity)"

fun cells_push :: "cell \<Rightarrow> nat \<Rightarrow> (cell \<times> nat list) list \<Rightarrow> (cell \<times> nat list) list" where
  "cells_push c slot [] = [(c, [slot])]"
| "cells_push c slot ((d, xs) # cs) = (if c = d then (d, xs @ [slot]) # cs else (d, xs) # cells_push c slot cs)"

definition u32_sub :: "nat \<Rightarrow> nat \<Rightarrow> nat" where
  "u32_sub a b = (a + 2 ^ 32 - b) mod 2 ^ 32"

definition u32_add :: "nat \<Rightarrow> nat \<Rightarrow> nat" where
  "u32_add a b = (a + b) mod 2 ^ 32"

definition cells_between :: "cell \<Rightarrow> cell \<Rightarrow> cell list" where
  "cells_between lo hi = [(c, r). c \<leftarrow> [fst lo..<Suc (fst hi)], r \<leftarrow> [snd lo..<Suc (snd hi)]]"

text \<open>The poll every \<open>CANCEL_POLL_INTERVAL\<close> entries: the counter, whether it fired, the next read.\<close>

definition poll_entries :: "polls \<Rightarrow> nat \<Rightarrow> nat \<Rightarrow> (nat \<times> nat) option" where
  "poll_entries cancelled k since =
     (if since \<ge> cancel_poll_interval then (if cancelled k then None else Some (0, k + 1)) else Some (since, k))"

fun push_cells ::
    "polls \<Rightarrow> nat \<Rightarrow> nat \<Rightarrow> nat \<Rightarrow> cell list \<Rightarrow> (cell \<times> nat list) list \<Rightarrow> ((cell \<times> nat list) list \<times> nat) polled" where
  "push_cells cancelled k since slot [] cells = (Inr (cells, since), k)"
| "push_cells cancelled k since slot (c # cs) cells =
     (case poll_entries cancelled k since of
        None \<Rightarrow> (Inl EngCancelled, k + 1)
      | Some (since', k') \<Rightarrow> push_cells cancelled k' (since' + 1) slot cs (cells_push c (slot mod 2 ^ 32) cells))"

fun populate ::
    "polls \<Rightarrow> nat \<Rightarrow> nat \<Rightarrow> nat \<Rightarrow> f64x4 \<Rightarrow> f64x4 list \<Rightarrow> (cell \<times> nat list) list \<Rightarrow> nat list
       \<Rightarrow> ((cell \<times> nat list) list \<times> nat list) polled" where
  "populate cancelled k since slot ext [] cells spanning = (Inr (cells, spanning), k)"
| "populate cancelled k since slot ext ((b0, b1, b2, b3) # bs) cells spanning =
     (case poll_entries cancelled k since of
        None \<Rightarrow> (Inl EngCancelled, k + 1)
      | Some (since', k') \<Rightarrow>
          let (c0, r0) = cell_of ext b0 b1; (c1, r1) = cell_of ext b2 b3;
              covered = u32_add (u32_sub c1 c0) 1 * u32_add (u32_sub r1 r0) 1
          in if covered > max_cells_per_feature then
               populate cancelled k' (since' + 1) (slot + 1) ext bs cells (spanning @ [slot mod 2 ^ 32])
             else case push_cells cancelled k' since' slot (cells_between (c0, r0) (c1, r1)) cells of
                    (Inl e, k2) \<Rightarrow> (Inl e, k2)
                  | (Inr (cells', since2), k2) \<Rightarrow> populate cancelled k2 since2 (slot + 1) ext bs cells' spanning)"

fun extent_open :: "f64x4 \<Rightarrow> bool" where
  "extent_open (e0, e1, e2, e3) \<longleftrightarrow> f64_lt e0 e2 \<and> f64_lt e1 e3"

section \<open>The whole build\<close>

type_synonym field_path = "string list"

definition field_path_to_sql :: "field_path \<Rightarrow> string" where
  "field_path_to_sql p = join_with ''.'' (map (\<lambda>seg. [CHR 0x22] @ replace_all seg [CHR 0x22] [CHR 0x22, CHR 0x22] @ [CHR 0x22]) p)"

record covering_bbox =
  cv_xmin :: field_path
  cv_ymin :: field_path
  cv_xmax :: field_path
  cv_ymax :: field_path

definition index_sql :: "string \<Rightarrow> covering_bbox \<Rightarrow> string \<Rightarrow> string" where
  "index_sql path covering id_column =
     ''SELECT '' @ [CHR 0x22] @ replace_all id_column [CHR 0x22] [CHR 0x22, CHR 0x22] @ [CHR 0x22] @ '', '' @
     field_path_to_sql (cv_xmin covering) @ '', '' @ field_path_to_sql (cv_ymin covering) @ '', '' @
     field_path_to_sql (cv_xmax covering) @ '', '' @ field_path_to_sql (cv_ymax covering) @
     '' FROM read_parquet('' @ [CHR 0x27] @ replace_all path [CHR 0x27] [CHR 0x27, CHR 0x27] @ [CHR 0x27] @ '')''"

definition index_of ::
    "index_key \<Rightarrow> validity_heuristic option \<Rightarrow> f64 \<Rightarrow> u64 list \<Rightarrow> f64x4 list \<Rightarrow> nat \<Rightarrow> f64x4
       \<Rightarrow> (cell \<times> nat list) list \<Rightarrow> nat list \<Rightarrow> spatial_index" where
  "index_of key validity millis ids bboxes rows ext cells spanning =
     \<lparr>si_key = key, si_validity = validity, si_ids = ids, si_bboxes = bboxes, si_extent = ext,
      si_cells = cells, si_spanning = spanning,
      si_cell_entries = sum_list (map (\<lambda>cs. length (snd cs)) cells) + length spanning,
      si_build_millis = millis, si_scanned_rows = rows\<rparr>"

text \<open>From the scanned rows on: validate, extent, grid, the last poll.\<close>

definition index_rows ::
    "(f64x4 \<Rightarrow> string) \<Rightarrow> polls \<Rightarrow> nat \<Rightarrow> f64 \<Rightarrow> index_key \<Rightarrow> validity_heuristic option \<Rightarrow> u64 list \<times> f64x4 list \<times> nat
       \<Rightarrow> (engine_error + spatial_index) \<times> index_phase list" where
  "index_rows dbg cancelled k millis key validity scanned =
     (case scanned of (ids, bboxes, rows) \<Rightarrow>
      case validate_bboxes dbg cancelled k 0 bboxes of
        (Inl e, _) \<Rightarrow> (Inl e, [PhValidateBboxes])
      | (Inr _, k1) \<Rightarrow>
      case extent_loop cancelled k1 0 empty_extent bboxes of
        (Inl e, _) \<Rightarrow> (Inl e, [PhValidateBboxes, PhComputeExtent])
      | (Inr ext, k2) \<Rightarrow>
      let phases = [PhValidateBboxes, PhComputeExtent, PhPopulateGrid] in
      case (if bboxes \<noteq> [] \<and> extent_open ext then populate cancelled k2 0 0 ext bboxes [] [] else (Inr ([], []), k2)) of
        (Inl e, _) \<Rightarrow> (Inl e, phases)
      | (Inr (cells, spanning), k3) \<Rightarrow>
          (if cancelled k3 then Inl EngCancelled
           else Inr (index_of key validity millis ids bboxes rows ext cells spanning), phases))"

definition build_observed ::
    "(string \<Rightarrow> string + (string + arrow_chunk list)) \<Rightarrow> (f64x4 \<Rightarrow> string) \<Rightarrow> nat \<Rightarrow> token \<Rightarrow> polls \<Rightarrow> f64
       \<Rightarrow> string \<Rightarrow> covering_bbox \<Rightarrow> string \<Rightarrow> index_key \<Rightarrow> validity_heuristic option
       \<Rightarrow> (engine_error + spatial_index) \<times> index_phase list" where
  "build_observed duckdb dbg h tk cancelled millis path covering id_column key validity =
     (case attach h tk of
        Inl e \<Rightarrow> (Inl e, [])
      | Inr _ \<Rightarrow>
          (case execute_guarded cancelled 0 (scan duckdb (index_sql path covering id_column) cancelled) of
             (g, k) \<Rightarrow>
               if cancelled k then (Inl EngCancelled, [PhDuckDbScan])
               else case into_result g of
                      Inl e \<Rightarrow> (Inl e, [PhDuckDbScan])
                    | Inr scanned \<Rightarrow>
                        (case index_rows dbg cancelled (k + 1) millis key validity scanned of
                           (r, phases) \<Rightarrow> (r, PhDuckDbScan # phases))))"

section \<open>Queries\<close>

definition view_usable :: "view_bbox \<Rightarrow> bool" where
  "view_usable v \<longleftrightarrow>
     f64_is_finite (vw_xmin v) \<and> f64_is_finite (vw_ymin v) \<and> f64_is_finite (vw_xmax v) \<and> f64_is_finite (vw_ymax v) \<and>
     \<not> f64_lt (vw_xmax v) (vw_xmin v) \<and> \<not> f64_lt (vw_ymax v) (vw_ymin v)"

fun bbox_hits :: "f64x4 \<Rightarrow> view_bbox \<Rightarrow> bool" where
  "bbox_hits (b0, b1, b2, b3) v \<longleftrightarrow>
     f64_le b0 (vw_xmax v) \<and> f64_le (vw_xmin v) b2 \<and> f64_le b1 (vw_ymax v) \<and> f64_le (vw_ymin v) b3"

text \<open>\<open>consider\<close> and the body of the cell loop; an index out of range is a panic, \<open>None\<close>.\<close>

definition consider_slot :: "spatial_index \<Rightarrow> view_bbox \<Rightarrow> nat \<Rightarrow> bool list \<times> u64 list \<Rightarrow> (bool list \<times> u64 list) option" where
  "consider_slot ix v s st =
     (case st of (seen, out) \<Rightarrow>
        if length seen \<le> s then None
        else if seen ! s then Some (seen, out)
        else if length (si_bboxes ix) \<le> s then None
        else if bbox_hits (si_bboxes ix ! s) v then
          (if length (si_ids ix) \<le> s then None else Some (seen[s := True], out @ [si_ids ix ! s]))
        else Some (seen[s := True], out))"

fun consider_all :: "spatial_index \<Rightarrow> view_bbox \<Rightarrow> nat list \<Rightarrow> bool list \<times> u64 list \<Rightarrow> (bool list \<times> u64 list) option" where
  "consider_all ix v [] st = Some st"
| "consider_all ix v (s # ss) st =
     (case consider_slot ix v s st of None \<Rightarrow> None | Some st' \<Rightarrow> consider_all ix v ss st')"

definition slots_in :: "spatial_index \<Rightarrow> cell list \<Rightarrow> nat list" where
  "slots_in ix cs = concat (map (\<lambda>c. case map_of (si_cells ix) c of Some slots \<Rightarrow> slots | None \<Rightarrow> []) cs)"

text \<open>\<open>candidates\<close>: the outer option is a panic, the inner one the source's.\<close>

definition candidates :: "spatial_index \<Rightarrow> view_bbox \<Rightarrow> u64 list option option" where
  "candidates ix v =
     (if si_ids ix = [] \<or> si_cells ix = [] \<or> \<not> view_usable v then Some None
      else let lo = cell_of (si_extent ix) (vw_xmin v) (vw_ymin v); hi = cell_of (si_extent ix) (vw_xmax v) (vw_ymax v)
           in case consider_all ix v (si_spanning ix @ slots_in ix (cells_between lo hi))
                     (replicate (length (si_ids ix)) False, []) of
                None \<Rightarrow> None
              | Some (seen, out) \<Rightarrow> Some (Some (sort out)))"

definition index_admits :: "spatial_index \<Rightarrow> index_key \<Rightarrow> validity_heuristic option \<Rightarrow> index_miss + unit" where
  "index_admits ix key validity =
     (if si_key ix \<noteq> key then Inl MissKeyMismatch
      else if \<not> fail_closed_matches (si_validity ix) validity then Inl MissSourceChanged
      else Inr ())"

section \<open>Content hash\<close>

text \<open>The reads of the file as the operating system answers them (\<open>Inl\<close> an error, \<open>[]\<close> the end), the hash
  function as a parameter. Enough reads end the loop: a list of answers that does not contain an end is
  continued by nothing.\<close>

fun hash_loop :: "polls \<Rightarrow> nat \<Rightarrow> (string + byte list) list \<Rightarrow> nat \<Rightarrow> byte list \<Rightarrow> nat list \<Rightarrow> ((engine_error + byte list) \<times> nat list) option" where
  "hash_loop cancelled k [] ofs fed progress = (if cancelled k then Some (Inl EngCancelled, progress) else None)"
| "hash_loop cancelled k (r # rs) ofs fed progress =
     (if cancelled k then Some (Inl EngCancelled, progress)
      else case r of
             Inl e \<Rightarrow> Some (Inl (EngSource (''read for hashing: '' @ e)), progress)
           | Inr buf \<Rightarrow>
               (if buf = [] then Some (Inr fed, progress)
                else hash_loop cancelled (k + 1) rs (ofs + length buf) (fed @ buf) (progress @ [ofs + length buf])))"

definition hex_bytes :: "byte list \<Rightarrow> string" where
  "hex_bytes bs = concat (map (\<lambda>b. hex_byte (unat b)) bs)"

definition content_hash_observed ::
    "(byte list \<Rightarrow> byte list) \<Rightarrow> polls \<Rightarrow> string + (string + byte list) list \<Rightarrow> ((engine_error + string) \<times> nat list) option" where
  "content_hash_observed sha256 cancelled opened =
     (case opened of
        Inl e \<Rightarrow> Some (Inl (EngSource (''open for hashing: '' @ e)), [])
      | Inr reads \<Rightarrow>
          (case hash_loop cancelled 0 reads 0 [] [] of
             None \<Rightarrow> None
           | Some (Inl e, progress) \<Rightarrow> Some (Inl e, progress)
           | Some (Inr fed, progress) \<Rightarrow> Some (Inr (hex_bytes (sha256 fed)), progress)))"

section \<open>Cache\<close>

type_synonym 'i cache = "(string \<times> 'i) list"

definition cache_get :: "spatial_index cache \<Rightarrow> string \<Rightarrow> index_key \<Rightarrow> validity_heuristic option \<Rightarrow> index_miss + spatial_index" where
  "cache_get c path key validity =
     bind_ok (ok_or MissAbsent (map_of c path)) (\<lambda>found.
     bind_ok (index_admits found key validity) (\<lambda>_. Inr found))"

definition cache_insert :: "string \<Rightarrow> 'i \<Rightarrow> 'i cache \<Rightarrow> 'i cache" where
  "cache_insert path ix c = (path, ix) # filter (\<lambda>e. fst e \<noteq> path) c"

definition cache_hash_for :: "spatial_index cache \<Rightarrow> string \<Rightarrow> string option" where
  "cache_hash_for c path = map_option (\<lambda>i. ik_content_hash (si_key i)) (map_of c path)"

definition cache_len :: "'i cache \<Rightarrow> nat" where
  "cache_len c = length c"

definition cache_is_empty :: "'i cache \<Rightarrow> bool" where
  "cache_is_empty c \<longleftrightarrow> cache_len c = 0"

section \<open>Ranges\<close>

text \<open>\<open>hi + 1\<close> wraps at the top of \<open>u64\<close>, where a checked build would panic.\<close>

fun compress_loop :: "u64 list \<Rightarrow> nat \<Rightarrow> u64 \<Rightarrow> u64 \<Rightarrow> (u64 \<times> u64) list \<Rightarrow> (u64 \<times> u64) list option" where
  "compress_loop [] max_ranges lo hi out =
     (let out' = out @ [(lo, hi)] in if length out' > max_ranges then None else Some out')"
| "compress_loop (x # xs) max_ranges lo hi out =
     (if x = hi + 1 then compress_loop xs max_ranges lo x out
      else let out' = out @ [(lo, hi)]
           in if length out' > max_ranges then None else compress_loop xs max_ranges x x out')"

definition compress_to_ranges :: "u64 list \<Rightarrow> nat \<Rightarrow> (u64 \<times> u64) list option" where
  "compress_to_ranges sorted_ids max_ranges =
     (case sorted_ids of [] \<Rightarrow> Some [] | i # is \<Rightarrow> compress_loop is max_ranges i i [])"

end
