(* ===== verification/Index_Proofs.thy ===== *)
theory Index_Proofs
  imports Index "HOL-Library.Multiset"
begin

text \<open>
  What the spatial index promises: the cells of an axis are monotone in the coordinate, so boxes that meet
  share a cell; a built index answers a view with exactly the features a scan over all boxes would keep, in
  ascending order of identifiers, and never indexes out of range; its entries stay under the declared bound;
  the ranges sent to DuckDB denote exactly the identifiers.
\<close>

section \<open>The cells of one axis\<close>

lemma n255: "f64_is_finite 0x406FE00000000000" "\<not> f64_is_nan 0x406FE00000000000" "0 < f64_key 0x406FE00000000000"
  by code_simp+

lemma zero_key: "f64_key 0 = 0" "\<not> f64_is_nan 0"
  by code_simp+

lemma span_pos:
  "\<not> f64_is_nan (f64_max a f64_min_positive)" "0 < f64_key (f64_max a f64_min_positive)"
proof -
  have m: "\<not> f64_is_nan f64_min_positive" "0 < f64_key f64_min_positive" by code_simp+
  show "\<not> f64_is_nan (f64_max a f64_min_positive)" "0 < f64_key (f64_max a f64_min_positive)"
    using f64_max_key [OF m(1), of a] m(2) by simp_all
qed

lemma clamp_n:
  assumes "\<not> f64_is_nan v"
  shows "f64_key (f64_clamp v 0 0x406FE00000000000) = min (f64_key 0x406FE00000000000) (max 0 (f64_key v))"
    and "f64_is_finite (f64_clamp v 0 0x406FE00000000000)"
proof -
  show k: "f64_key (f64_clamp v 0 0x406FE00000000000) = min (f64_key 0x406FE00000000000) (max 0 (f64_key v))"
    using f64_clamp_key [OF assms zero_key(2) n255(2)] n255(3) zero_key(1) by simp
  show "f64_is_finite (f64_clamp v 0 0x406FE00000000000)"
    using n255 unfolding f64_is_finite_key k by simp
qed

lemma clamp_zero:
  assumes "f64_is_nan v \<or> f64_key v = 0"
  shows "f64_to_u32 (f64_clamp v 0 0x406FE00000000000) = 0"
proof (cases "f64_is_nan v")
  case True
  then show ?thesis by (simp add: f64_clamp_def f64_lt_def f64_to_u32_zero)
next
  case False
  then have "f64_key (f64_clamp v 0 0x406FE00000000000) = 0" using assms clamp_n(1) [OF False] n255(3) by simp
  then show ?thesis by (simp add: f64_to_u32_zero)
qed

lemma axis_cell_le: "axis_cell e0 e2 x \<le> 255"
proof -
  let ?v = "f64_mul (f64_div (f64_sub x e0) (f64_max (f64_sub e2 e0) f64_min_positive)) 0x406FE00000000000"
  show ?thesis
  proof (cases "f64_is_nan ?v")
    case True
    then show ?thesis using clamp_zero [of ?v] by (simp add: axis_cell_def)
  next
    case False
    then show ?thesis using f64_to_u32_le [OF _ clamp_n(2) [OF False]] clamp_n(1) [OF False]
      by (simp add: axis_cell_def)
  qed
qed

lemma axis_cell_mono:
  assumes "f64_is_finite x" "f64_is_finite y" "f64_key x \<le> f64_key y"
  shows "axis_cell e0 e2 x \<le> axis_cell e0 e2 y"
proof -
  define s where "s = f64_max (f64_sub e2 e0) f64_min_positive"
  have s: "\<not> f64_is_nan s" "0 < f64_key s" unfolding s_def by (rule span_pos)+
  show ?thesis
  proof (cases "f64_is_finite e0")
    case False
    then have "f64_sub x e0 = f64_sub y e0" using assms by (simp add: f64_sub_def f64_kinds)
    then show ?thesis by (simp add: axis_cell_def)
  next
    case e: True
    note sub = f64_sub_key(2) [OF _ e]
    show ?thesis
    proof (cases "f64_is_finite s")
      case True
      let ?f = "\<lambda>v. f64_mul (f64_div (f64_sub v e0) s) 0x406FE00000000000"
      have nn: "\<not> f64_is_nan (?f v)" if "f64_is_finite v" for v
        by (rule f64_mul_key(2) [OF f64_div_key(2) n255(1,3)]) (use sub that True s in simp_all)
      have "f64_key (f64_div (f64_sub x e0) s) \<le> f64_key (f64_div (f64_sub y e0) s)"
        by (rule f64_div_mono) (use sub assms True s f64_sub_mono [OF assms(1,2) e assms(3)] in simp_all)
      then have "f64_key (?f x) \<le> f64_key (?f y)"
        by (intro f64_mul_mono n255 f64_div_key(2)) (use sub assms True s in simp_all)
      then have "f64_to_u32 (f64_clamp (?f x) 0 0x406FE00000000000) \<le> f64_to_u32 (f64_clamp (?f y) 0 0x406FE00000000000)"
        by (intro f64_to_u32_mono clamp_n(2) nn assms) (use clamp_n(1) nn assms in auto)
      then show ?thesis by (simp only: axis_cell_def s_def Let_def)
    next
      case False
      have d: "f64_is_nan (f64_div v s) \<or> f64_key (f64_div v s) = 0" for v
      proof -
        have "f64_is_nan f64_nan" by code_simp
        then show ?thesis using False s by (simp add: f64_div_def signed_key Let_def)
      qed
      have m: "f64_is_nan (f64_mul v 0x406FE00000000000) \<or> f64_key (f64_mul v 0x406FE00000000000) = 0"
        if "f64_is_nan v \<or> f64_key v = 0" for v
      proof (cases "f64_is_nan v")
        case True
        moreover have "f64_is_nan f64_nan" by code_simp
        ultimately show ?thesis by (simp add: f64_mul_def Let_def)
      next
        case nv: False
        then have "f64_key (f64_mul v 0x406FE00000000000) = 0"
          unfolding f64_mul_key(1) [OF nv n255(1,3)]
          using that nv lifted_0 [of "\<lambda>t. round_mag (t * f64_sig 0x406FE00000000000) (2 ^ 1074 * 2 ^ 1074)"] round_mag_0
          by simp
        then show ?thesis ..
      qed
      have "axis_cell e0 e2 v = 0" for v
        using clamp_zero [OF m [OF d]] by (simp only: axis_cell_def Let_def s_def)
      then show ?thesis by simp
    qed
  qed
qed

lemma axis_cell_mono_le: "f64_is_finite x \<Longrightarrow> f64_is_finite y \<Longrightarrow> f64_le x y \<Longrightarrow> axis_cell e0 e2 x \<le> axis_cell e0 e2 y"
  by (simp add: f64_le_def axis_cell_mono)

text \<open>Any monotone assignment of cells gives overlapping intervals a common cell.\<close>

locale monotone_axis =
  fixes usable :: "'a \<Rightarrow> bool" and below :: "'a \<Rightarrow> 'a \<Rightarrow> bool" and cell :: "'a \<Rightarrow> nat"
  assumes mono: "usable x \<Longrightarrow> usable y \<Longrightarrow> below x y \<Longrightarrow> cell x \<le> cell y"
begin

lemma common_cell:
  assumes "usable a" "usable b" "usable c" "usable d" "below a b" "below c d" "below a d" "below c b"
  shows "\<exists>k. k \<in> {cell a..cell b} \<and> k \<in> {cell c..cell d}"
proof
  have "cell a \<le> cell b" "cell c \<le> cell d" "cell a \<le> cell d" "cell c \<le> cell b" using assms mono by simp_all
  then show "max (cell a) (cell c) \<in> {cell a..cell b} \<and> max (cell a) (cell c) \<in> {cell c..cell d}" by simp
qed

end

interpretation axis: monotone_axis f64_is_finite f64_le "axis_cell e0 e2" for e0 e2
  by unfold_locales (rule axis_cell_mono_le)

lemma le_of_not_lt: "f64_is_finite a \<Longrightarrow> f64_is_finite b \<Longrightarrow> \<not> f64_lt b a \<Longrightarrow> f64_le a b"
  by (auto simp: f64_le_def f64_lt_def f64_kinds)

lemma set_cells_between:
  "(c, r) \<in> set (cells_between lo hi) \<longleftrightarrow> c \<in> {fst lo..fst hi} \<and> r \<in> {snd lo..snd hi}"
  by (auto simp: cells_between_def image_iff less_Suc_eq_le simp del: upt_Suc)

text \<open>A box of the index and a view that meet share a cell of the grid.\<close>

lemma hit_shares_cell:
  assumes "bbox_finite (b0, b1, b2, b3)" "\<not> bbox_inverted (b0, b1, b2, b3)" "view_usable v" "bbox_hits (b0, b1, b2, b3) v"
  shows "\<exists>c. c \<in> set (cells_between (cell_of ext b0 b1) (cell_of ext b2 b3)) \<and>
             c \<in> set (cells_between (cell_of ext (vw_xmin v) (vw_ymin v)) (cell_of ext (vw_xmax v) (vw_ymax v)))"
proof -
  obtain e0 e1 e2 e3 where e: "ext = (e0, e1, e2, e3)" by (cases ext) auto
  have "\<exists>k. k \<in> {axis_cell e0 e2 b0..axis_cell e0 e2 b2} \<and> k \<in> {axis_cell e0 e2 (vw_xmin v)..axis_cell e0 e2 (vw_xmax v)}"
    using assms by (intro axis.common_cell) (auto simp: view_usable_def intro: le_of_not_lt)
  moreover have "\<exists>k. k \<in> {axis_cell e1 e3 b1..axis_cell e1 e3 b3} \<and> k \<in> {axis_cell e1 e3 (vw_ymin v)..axis_cell e1 e3 (vw_ymax v)}"
    using assms by (intro axis.common_cell) (auto simp: view_usable_def intro: le_of_not_lt)
  ultimately obtain i j where "i \<in> {axis_cell e0 e2 b0..axis_cell e0 e2 b2}" "i \<in> {axis_cell e0 e2 (vw_xmin v)..axis_cell e0 e2 (vw_xmax v)}"
    "j \<in> {axis_cell e1 e3 b1..axis_cell e1 e3 b3}" "j \<in> {axis_cell e1 e3 (vw_ymin v)..axis_cell e1 e3 (vw_ymax v)}"
    by blast
  then show ?thesis unfolding e by (intro exI [of _ "(i, j)"]) (simp add: set_cells_between)
qed

section \<open>The grid\<close>

definition slots_of :: "(cell \<times> nat list) list \<Rightarrow> cell \<Rightarrow> nat set" where
  "slots_of cells c = (case map_of cells c of Some xs \<Rightarrow> set xs | None \<Rightarrow> {})"

lemma map_of_push:
  "map_of (cells_push c s cells) d =
     (if d = c then Some ((case map_of cells c of Some xs \<Rightarrow> xs | None \<Rightarrow> []) @ [s]) else map_of cells d)"
  by (induction c s cells rule: cells_push.induct) auto

lemma slots_of_push: "slots_of (cells_push c s cells) d = (if d = c then insert s (slots_of cells d) else slots_of cells d)"
  by (simp add: slots_of_def map_of_push split: option.split)

lemma slots_of_Nil [simp]: "slots_of [] c = {}"
  by (simp add: slots_of_def)

lemma set_slots_in: "set (slots_in ix cs) = (\<Union>c \<in> set cs. slots_of (si_cells ix) c)"
  unfolding slots_in_def slots_of_def set_concat set_map image_image
  by (rule SUP_cong [OF refl]) (simp split: option.split)

lemma push_cells_slots:
  "push_cells cancelled k since slot cs cells = (Inr (cells', since'), k') \<Longrightarrow>
   slots_of cells' d = slots_of cells d \<union> (if d \<in> set cs then {slot mod 2 ^ 32} else {})"
  by (induction cancelled k since slot cs cells rule: push_cells.induct) (auto simp: slots_of_push split: option.splits if_splits)

definition placed :: "f64x4 \<Rightarrow> (cell \<times> nat list) list \<Rightarrow> nat list \<Rightarrow> nat \<Rightarrow> f64x4 \<Rightarrow> bool" where
  "placed ext cells spanning s b \<longleftrightarrow>
     (case b of (b0, b1, b2, b3) \<Rightarrow>
        s \<in> set spanning \<or> (\<forall>c \<in> set (cells_between (cell_of ext b0 b1) (cell_of ext b2 b3)). s \<in> slots_of cells c))"

definition slot_set :: "(cell \<times> nat list) list \<Rightarrow> nat list \<Rightarrow> nat set" where
  "slot_set cells spanning = set spanning \<union> (\<Union>c. slots_of cells c)"

lemma placed_mono:
  "placed ext cells spanning s b \<Longrightarrow> (\<And>c. slots_of cells c \<subseteq> slots_of cells' c) \<Longrightarrow> set spanning \<subseteq> set spanning' \<Longrightarrow>
   placed ext cells' spanning' s b"
  by (fastforce simp: placed_def split: prod.splits)

lemma populate_places:
  assumes "populate cancelled k since slot ext bs cells spanning = (Inr (cells', spanning'), k')"
    and "slot + length bs \<le> 2 ^ 32"
  shows "(\<forall>c. slots_of cells c \<subseteq> slots_of cells' c) \<and> set spanning \<subseteq> set spanning' \<and>
    slot_set cells' spanning' \<subseteq> slot_set cells spanning \<union> {slot..<slot + length bs} \<and>
    (\<forall>i < length bs. placed ext cells' spanning' (slot + i) (bs ! i))"
  using assms
proof (induction cancelled k since slot ext bs cells spanning rule: populate.induct)
  case (1 cancelled k since slot ext cells spanning)
  then show ?case by simp
next
  case (2 cancelled k since slot ext b0 b1 b2 b3 bs cells spanning)
  obtain since1 k1 where p: "poll_entries cancelled k since = Some (since1, k1)"
    using "2.prems"(1) by (cases "poll_entries cancelled k since") auto
  obtain c0 r0 c1 r1 where c: "cell_of ext b0 b1 = (c0, r0)" "cell_of ext b2 b3 = (c1, r1)" by fastforce
  have sm: "slot mod 2 ^ 32 = slot" using "2.prems"(2) by simp
  let ?covered = "u32_add (u32_sub c1 c0) 1 * u32_add (u32_sub r1 r0) 1"
  have step: "(\<forall>c. slots_of cells c \<subseteq> slots_of cells1 c) \<and> set spanning \<subseteq> set spanning1 \<and>
      slot_set cells1 spanning1 \<subseteq> insert slot (slot_set cells spanning) \<and> placed ext cells1 spanning1 slot (b0, b1, b2, b3) \<Longrightarrow>
      (\<forall>c. slots_of cells1 c \<subseteq> slots_of cells' c) \<and> set spanning1 \<subseteq> set spanning' \<and>
      slot_set cells' spanning' \<subseteq> slot_set cells1 spanning1 \<union> {slot + 1..<slot + 1 + length bs} \<and>
      (\<forall>i < length bs. placed ext cells' spanning' (slot + 1 + i) (bs ! i)) \<Longrightarrow> ?case" for cells1 spanning1
  proof (intro conjI allI impI)
    fix i
    assume a: "(\<forall>c. slots_of cells c \<subseteq> slots_of cells1 c) \<and> set spanning \<subseteq> set spanning1 \<and>
        slot_set cells1 spanning1 \<subseteq> insert slot (slot_set cells spanning) \<and> placed ext cells1 spanning1 slot (b0, b1, b2, b3)"
      and b: "(\<forall>c. slots_of cells1 c \<subseteq> slots_of cells' c) \<and> set spanning1 \<subseteq> set spanning' \<and>
        slot_set cells' spanning' \<subseteq> slot_set cells1 spanning1 \<union> {slot + 1..<slot + 1 + length bs} \<and>
        (\<forall>i < length bs. placed ext cells' spanning' (slot + 1 + i) (bs ! i))"
      and i: "i < length ((b0, b1, b2, b3) # bs)"
    show "placed ext cells' spanning' (slot + i) (((b0, b1, b2, b3) # bs) ! i)"
    proof (cases i)
      case 0
      have "slots_of cells1 c \<subseteq> slots_of cells' c" for c using b by blast
      then have "placed ext cells' spanning' slot (b0, b1, b2, b3)"
        using a b placed_mono [of ext cells1 spanning1 slot "(b0, b1, b2, b3)" cells' spanning'] by blast
      then show ?thesis using 0 by simp
    next
      case (Suc j)
      then show ?thesis using b i by (auto dest: spec [of _ j])
    qed
  qed (fastforce)+
  show ?case
  proof (cases "?covered > max_cells_per_feature")
    case True
    then have r: "populate cancelled k1 (since1 + 1) (slot + 1) ext bs cells (spanning @ [slot]) = (Inr (cells', spanning'), k')"
      using "2.prems"(1) p c sm by simp
    show ?thesis
      by (rule step [of cells "spanning @ [slot]"])
        (use "2.IH"(1) [OF p _ c(1) [symmetric] _ _ c(2) [symmetric]] True r "2.prems"(2) sm in \<open>auto simp: placed_def slot_set_def\<close>)
  next
    case False
    then obtain cells1 since2 k2 where
      q: "push_cells cancelled k1 since1 slot (cells_between (c0, r0) (c1, r1)) cells = (Inr (cells1, since2), k2)" and
      r: "populate cancelled k2 since2 (slot + 1) ext bs cells1 spanning = (Inr (cells', spanning'), k')"
      using "2.prems"(1) p c by (auto split: prod.splits sum.splits)
    have s: "slots_of cells1 d = slots_of cells d \<union> (if d \<in> set (cells_between (c0, r0) (c1, r1)) then {slot} else {})" for d
      using push_cells_slots [OF q] sm by simp
    show ?thesis
      by (rule step [of cells1 spanning])
        (use "2.IH"(2) [OF p _ c(1) [symmetric] _ _ c(2) [symmetric]] False q r "2.prems"(2) c s in \<open>auto simp: placed_def slot_set_def split: if_splits\<close>)
  qed
qed

section \<open>What a build returns\<close>

lemma scan_chunks_shape:
  "scan_chunks cancelled k chs ids bboxes = (Inr (ids', bboxes', rows), k') \<Longrightarrow>
   length ids = length bboxes \<Longrightarrow> length ids \<le> max_indexed_features \<Longrightarrow>
   length ids' = length bboxes' \<and> rows = length ids' \<and> length ids' \<le> max_indexed_features"
proof (induction chs arbitrary: k ids bboxes)
  case Nil
  then show ?case by auto
next
  case (Cons ch chs)
  obtain ids2 bs where r: "read_chunk ch (length ids) = Inr (ids2, bs)"
    and rest: "scan_chunks cancelled (k + 1) chs (ids @ ids2) (bboxes @ bs) = (Inr (ids', bboxes', rows), k')"
    using Cons.prems(1) by (auto split: if_splits sum.splits prod.splits)
  have "length ids2 = length bs" "length ids + length ids2 \<le> max_indexed_features"
    using r by (auto simp: read_chunk_def bind_ok_def split: sum.splits if_splits)
  then show ?case using Cons.IH [OF rest] Cons.prems(2,3) by simp
qed

lemma validate_bboxes_ok:
  "validate_bboxes dbg cancelled k i bs = (Inr u, k') \<Longrightarrow> b \<in> set bs \<Longrightarrow> bbox_finite b \<and> \<not> bbox_inverted b"
  by (induction dbg cancelled k i bs rule: validate_bboxes.induct) (auto simp: Let_def split: if_splits)

definition index_wf :: "spatial_index \<Rightarrow> bool" where
  "index_wf ix \<longleftrightarrow>
     length (si_ids ix) = length (si_bboxes ix) \<and> length (si_ids ix) \<le> max_indexed_features \<and>
     si_scanned_rows ix = length (si_ids ix) \<and>
     (\<forall>b \<in> set (si_bboxes ix). bbox_finite b \<and> \<not> bbox_inverted b) \<and>
     slot_set (si_cells ix) (si_spanning ix) \<subseteq> {0..<length (si_ids ix)} \<and>
     (si_cells ix \<noteq> [] \<longrightarrow>
        (\<forall>s < length (si_ids ix). placed (si_extent ix) (si_cells ix) (si_spanning ix) s (si_bboxes ix ! s)))"

lemma index_rows_cases:
  assumes "index_rows dbg cancelled k millis key validity (ids, bboxes, rows) = (Inr ix, phases)"
  shows "\<exists>ext cells spanning k2 k3. (\<forall>b \<in> set bboxes. bbox_finite b \<and> \<not> bbox_inverted b) \<and>
    (if bboxes \<noteq> [] \<and> extent_open ext then populate cancelled k2 0 0 ext bboxes [] [] else (Inr ([], []), k2)) = (Inr (cells, spanning), k3) \<and>
    ix = index_of key validity millis ids bboxes rows ext cells spanning"
proof -
  obtain rv k1 where v: "validate_bboxes dbg cancelled k 0 bboxes = (rv, k1)" by fastforce
  then obtain u where rv: "rv = Inr u" using assms(1) by (cases rv) (simp_all add: index_rows_def)
  obtain re k2 where e: "extent_loop cancelled k1 0 empty_extent bboxes = (re, k2)" by fastforce
  then obtain ext where re: "re = Inr ext" using assms(1) v rv by (cases re) (simp_all add: index_rows_def)
  let ?p = "if bboxes \<noteq> [] \<and> extent_open ext then populate cancelled k2 0 0 ext bboxes [] [] else (Inr ([], []), k2)"
  obtain rp k3 where p: "?p = (rp, k3)" by fastforce
  then obtain cells spanning where rp: "rp = Inr (cells, spanning)"
    using assms(1) v rv e re by (cases rp) (auto simp add: index_rows_def Let_def simp del: extent_open.simps)
  have "ix = index_of key validity millis ids bboxes rows ext cells spanning"
    using assms(1) v rv e re p rp by (simp add: index_rows_def Let_def del: extent_open.simps split: if_splits)
  moreover have "\<forall>b \<in> set bboxes. bbox_finite b \<and> \<not> bbox_inverted b"
    using validate_bboxes_ok [OF v [unfolded rv]] by blast
  ultimately show ?thesis using p rp by blast
qed

lemma index_rows_wf:
  assumes "index_rows dbg cancelled k millis key validity (ids, bboxes, rows) = (Inr ix, phases)"
    and "length ids = length bboxes" "rows = length ids" "length ids \<le> max_indexed_features"
  shows "index_wf ix"
proof -
  obtain ext cells spanning k2 k3 where v: "\<forall>b \<in> set bboxes. bbox_finite b \<and> \<not> bbox_inverted b" and
    p: "(if bboxes \<noteq> [] \<and> extent_open ext then populate cancelled k2 0 0 ext bboxes [] [] else (Inr ([], []), k2)) = (Inr (cells, spanning), k3)" and
    ix: "ix = index_of key validity millis ids bboxes rows ext cells spanning"
    using index_rows_cases [OF assms(1)] by blast
  have n: "0 + length bboxes \<le> 2 ^ 32" using assms(2,4) by (simp add: max_indexed_features_def)
  have "slot_set cells spanning \<subseteq> {0..<length ids} \<and> (cells \<noteq> [] \<longrightarrow> (\<forall>s < length ids. placed ext cells spanning s (bboxes ! s)))"
  proof (cases "bboxes \<noteq> [] \<and> extent_open ext")
    case True
    then have "populate cancelled k2 0 0 ext bboxes [] [] = (Inr (cells, spanning), k3)" using p by simp
    from populate_places [OF this n] show ?thesis using assms(2) by (simp add: slot_set_def)
  next
    case False
    then show ?thesis using p by (auto simp: slot_set_def)
  qed
  then show ?thesis using v assms(2-4) unfolding ix index_wf_def index_of_def by simp
qed

lemma build_observed_rows:
  assumes "build_observed duckdb dbg h tk cancelled millis path covering id_column key validity = (Inr ix, phases)"
  shows "\<exists>k ids bboxes rows ph. length ids = length bboxes \<and> rows = length ids \<and> length ids \<le> max_indexed_features \<and>
    index_rows dbg cancelled k millis key validity (ids, bboxes, rows) = (Inr ix, ph)"
proof -
  obtain t hs k scanned where a: "attach h tk = Inr (t, hs)" and
    e: "execute_guarded cancelled 0 (scan duckdb (index_sql path covering id_column) cancelled) = (GOk scanned, k)" and
    r: "\<exists>ph. index_rows dbg cancelled (k + 1) millis key validity scanned = (Inr ix, ph)"
    using assms unfolding build_observed_def
    by (auto simp: into_result_def split: sum.splits prod.splits if_splits guarded.splits)
  from guarded_ok_uncancelled [OF e] obtain k1 where
    s: "scan duckdb (index_sql path covering id_column) cancelled (0 + 1) = (Inr scanned, k1)" by blast
  obtain ids bboxes rows where sc: "scanned = (ids, bboxes, rows)" by (cases scanned) auto
  from s obtain chunks where "scan_chunks cancelled (0 + 1) chunks [] [] = (Inr (ids, bboxes, rows), k1)"
    by (auto simp: scan_def sc split: sum.splits)
  from scan_chunks_shape [OF this] have "length ids = length bboxes \<and> rows = length ids \<and> length ids \<le> max_indexed_features"
    by simp
  then show ?thesis using r unfolding sc by blast
qed

lemma build_observed_wf:
  assumes "build_observed duckdb dbg h tk cancelled millis path covering id_column key validity = (Inr ix, phases)"
  shows "index_wf ix" and "si_key ix = key" and "si_validity ix = validity"
proof -
  obtain k ids bboxes rows ph where r: "length ids = length bboxes" "rows = length ids" "length ids \<le> max_indexed_features"
    "index_rows dbg cancelled k millis key validity (ids, bboxes, rows) = (Inr ix, ph)"
    using build_observed_rows [OF assms] by blast
  show "index_wf ix" using r index_rows_wf by blast
  show "si_key ix = key" "si_validity ix = validity" using index_rows_cases [OF r(4)] by (auto simp: index_of_def)
qed

section \<open>Queries are exact\<close>

text \<open>The reference: a scan over every box.\<close>

definition brute_force :: "spatial_index \<Rightarrow> view_bbox \<Rightarrow> u64 list" where
  "brute_force ix v = sort (map (\<lambda>s. si_ids ix ! s) (filter (\<lambda>s. bbox_hits (si_bboxes ix ! s) v) [0..<length (si_ids ix)]))"

definition seen_hits :: "spatial_index \<Rightarrow> view_bbox \<Rightarrow> bool list \<Rightarrow> nat set" where
  "seen_hits ix v seen = {s. s < length (si_ids ix) \<and> seen ! s \<and> bbox_hits (si_bboxes ix ! s) v}"

lemma seen_hits_update:
  assumes "s < length (si_ids ix)" "length seen = length (si_ids ix)"
  shows "seen_hits ix v (seen[s := True]) = (if bbox_hits (si_bboxes ix ! s) v then insert s (seen_hits ix v seen) else seen_hits ix v seen)"
  using assms by (auto simp: seen_hits_def nth_list_update split: if_splits)

lemma finite_seen_hits [simp]: "finite (seen_hits ix v seen)"
  by (simp add: seen_hits_def)

lemma consider_all_spec:
  assumes "index_wf ix" "set slots \<subseteq> {0..<length (si_ids ix)}" "length seen = length (si_ids ix)"
    and "mset out = image_mset (\<lambda>s. si_ids ix ! s) (mset_set (seen_hits ix v seen))"
  shows "\<exists>seen' out'. consider_all ix v slots (seen, out) = Some (seen', out') \<and>
    length seen' = length (si_ids ix) \<and>
    (\<forall>s < length (si_ids ix). seen' ! s \<longleftrightarrow> seen ! s \<or> s \<in> set slots) \<and>
    mset out' = image_mset (\<lambda>s. si_ids ix ! s) (mset_set (seen_hits ix v seen'))"
  using assms(2-4)
proof (induction slots arbitrary: seen out)
  case Nil
  then show ?case by simp
next
  case (Cons s slots)
  have s: "s < length (si_ids ix)" "s < length (si_bboxes ix)" using Cons.prems(1) assms(1) by (auto simp: index_wf_def)
  show ?case
  proof (cases "seen ! s")
    case True
    then have "consider_slot ix v s (seen, out) = Some (seen, out)" using s Cons.prems(2) by (simp add: consider_slot_def)
    then show ?thesis using Cons.IH [of seen out] Cons.prems True by auto
  next
    case False
    define out1 where "out1 = (if bbox_hits (si_bboxes ix ! s) v then out @ [si_ids ix ! s] else out)"
    have c: "consider_slot ix v s (seen, out) = Some (seen[s := True], out1)"
      using s False Cons.prems(2) by (simp add: consider_slot_def out1_def)
    have "s \<notin> seen_hits ix v seen" using False by (simp add: seen_hits_def)
    then have "mset out1 = image_mset (\<lambda>s. si_ids ix ! s) (mset_set (seen_hits ix v (seen[s := True])))"
      using seen_hits_update [OF s(1) Cons.prems(2)] Cons.prems(3) by (simp add: out1_def)
    then obtain seen' out' where i: "consider_all ix v slots (seen[s := True], out1) = Some (seen', out')"
      "length seen' = length (si_ids ix)" "\<forall>t < length (si_ids ix). seen' ! t \<longleftrightarrow> seen[s := True] ! t \<or> t \<in> set slots"
      "mset out' = image_mset (\<lambda>s. si_ids ix ! s) (mset_set (seen_hits ix v seen'))"
      using Cons.IH [of "seen[s := True]" out1] Cons.prems by auto
    have "\<forall>t < length (si_ids ix). seen' ! t \<longleftrightarrow> seen ! t \<or> t \<in> set (s # slots)"
    proof (intro allI impI)
      fix t
      assume "t < length (si_ids ix)"
      then show "seen' ! t \<longleftrightarrow> seen ! t \<or> t \<in> set (s # slots)"
        using i(3) Cons.prems(2) by (cases "t = s") simp_all
    qed
    then show ?thesis using c i by auto
  qed
qed

lemma slots_in_range: "index_wf ix \<Longrightarrow> set (si_spanning ix @ slots_in ix cs) \<subseteq> {0..<length (si_ids ix)}"
  unfolding index_wf_def slot_set_def set_append set_slots_in by blast

lemma hit_is_considered:
  assumes "index_wf ix" "si_cells ix \<noteq> []" "view_usable v" "s < length (si_ids ix)" "bbox_hits (si_bboxes ix ! s) v"
  shows "s \<in> set (si_spanning ix @ slots_in ix
    (cells_between (cell_of (si_extent ix) (vw_xmin v) (vw_ymin v)) (cell_of (si_extent ix) (vw_xmax v) (vw_ymax v))))"
proof -
  obtain b0 b1 b2 b3 where b: "si_bboxes ix ! s = (b0, b1, b2, b3)" by (cases "si_bboxes ix ! s") auto
  have "si_bboxes ix ! s \<in> set (si_bboxes ix)" using assms(1,4) by (simp add: index_wf_def)
  then have "bbox_finite (b0, b1, b2, b3)" "\<not> bbox_inverted (b0, b1, b2, b3)" using assms(1) b by (auto simp: index_wf_def)
  note share = hit_shares_cell [OF this assms(3) assms(5) [unfolded b], of "si_extent ix"]
  have "placed (si_extent ix) (si_cells ix) (si_spanning ix) s (b0, b1, b2, b3)" using assms b by (auto simp: index_wf_def)
  then show ?thesis using share by (fastforce simp: placed_def set_slots_in)
qed

text \<open>C17: An index that the build returned answers every view exactly as a scan over all boxes would: for a
  usable view (and a non-empty grid) the identifiers of the features whose box meets the view, in ascending
  order, none missing and none twice; otherwise it declines. No array access of the query is out of range.\<close>

theorem candidates_equal_brute_force:
  assumes "build_observed duckdb dbg h tk cancelled millis path covering id_column key validity = (Inr ix, phases)"
  shows "candidates ix v =
    Some (if si_ids ix = [] \<or> si_cells ix = [] \<or> \<not> view_usable v then None else Some (brute_force ix v))"
proof (cases "si_ids ix = [] \<or> si_cells ix = [] \<or> \<not> view_usable v")
  case True
  then show ?thesis by (simp add: candidates_def)
next
  case False
  let ?slots = "si_spanning ix @ slots_in ix
    (cells_between (cell_of (si_extent ix) (vw_xmin v) (vw_ymin v)) (cell_of (si_extent ix) (vw_xmax v) (vw_ymax v)))"
  let ?n = "length (si_ids ix)"
  have wf: "index_wf ix" by (rule build_observed_wf(1) [OF assms])
  have "seen_hits ix v (replicate ?n False) = {}" by (auto simp: seen_hits_def)
  then obtain seen' out' where
    c: "consider_all ix v ?slots (replicate ?n False, []) = Some (seen', out')" and
    s: "\<forall>s < ?n. seen' ! s \<longleftrightarrow> s \<in> set ?slots" and
    m: "mset out' = image_mset (\<lambda>s. si_ids ix ! s) (mset_set (seen_hits ix v seen'))"
    using consider_all_spec [OF wf slots_in_range [OF wf, of "cells_between (cell_of (si_extent ix) (vw_xmin v) (vw_ymin v))
      (cell_of (si_extent ix) (vw_xmax v) (vw_ymax v))"], of "replicate ?n False" "[]" v] by auto
  have "seen_hits ix v seen' = {s. s < ?n \<and> bbox_hits (si_bboxes ix ! s) v}"
    using s hit_is_considered [OF wf] False by (auto simp: seen_hits_def simp del: set_append)
  also have "\<dots> = set (filter (\<lambda>s. bbox_hits (si_bboxes ix ! s) v) [0..<?n])" by auto
  finally have "mset out' = mset (map (\<lambda>s. si_ids ix ! s) (filter (\<lambda>s. bbox_hits (si_bboxes ix ! s) v) [0..<?n]))"
    using m by (simp add: mset_set_set)
  then have "sort out' = brute_force ix v" unfolding brute_force_def by (intro properties_for_sort) simp_all
  then show ?thesis using False c by (simp add: candidates_def Let_def del: replicate_Suc)
qed

text \<open>Two point features at (0, 0) and (1, 1), read from one chunk, and a view around the second.\<close>

definition two_points :: arrow_chunk where
  "two_points =
     \<lparr>ch_column = (\<lambda>i. if i = 0 then UInt64Array (\<lambda>r. if r = 0 then 9 else 7)
                       else Float64Array (\<lambda>r. if r = 0 then 0 else 0x3FF0000000000000)),
      ch_num_rows = 2\<rparr>"

definition two_points_build :: "(engine_error + spatial_index) \<times> index_phase list" where
  "two_points_build =
     build_observed (\<lambda>_. Inr (Inr [two_points])) (\<lambda>_. []) 0 token_new (\<lambda>_. False) 0 ''p''
       \<lparr>cv_xmin = [''a''], cv_ymin = [''b''], cv_xmax = [''c''], cv_ymax = [''d'']\<rparr> ''id'' (index_key_new ''h'' ''id'') None"

definition near_one :: view_bbox where
  "near_one = \<lparr>vw_xmin = 0x3FE0000000000000, vw_ymin = 0x3FE0000000000000, vw_xmax = 0x4000000000000000, vw_ymax = 0x4000000000000000\<rparr>"

lemma cells_between_same: "cells_between (c, r) (c, r) = [(c, r)]"
  by (simp add: cells_between_def)

lemma two_points_built:
  "\<exists>ix phases. two_points_build = (Inr ix, phases) \<and> si_cells ix \<noteq> [] \<and> si_ids ix = [9, 7] \<and>
     si_bboxes ix = [(0, 0, 0, 0), (0x3FF0000000000000, 0x3FF0000000000000, 0x3FF0000000000000, 0x3FF0000000000000)]"
proof -
  have fin: "f64_is_finite 0" "f64_is_finite 0x3FF0000000000000" "\<not> f64_lt 0 0"
    "\<not> f64_lt 0x3FF0000000000000 0x3FF0000000000000" by code_simp+
  have ext: "grow (grow empty_extent (0, 0, 0, 0)) (0x3FF0000000000000, 0x3FF0000000000000, 0x3FF0000000000000, 0x3FF0000000000000) =
      (0, 0, 0x3FF0000000000000, 0x3FF0000000000000)" "f64_lt 0 0x3FF0000000000000" by code_simp+
  have push: "cells_push c s cs \<noteq> []" for c s cs by (cases cs) (auto split: if_splits)
  show ?thesis
    unfolding two_points_build_def build_observed_def
    by (simp add: attach_def token_new_def execute_guarded_def scan_def read_chunk_def two_points_def id_array_def
        bound_array_def bind_ok_def max_indexed_features_def into_result_def index_rows_def fin ext Let_def upt_rec
        cancel_poll_interval_def poll_entries_def u32_sub_def u32_add_def max_cells_per_feature_def cells_between_same
        index_of_def push del: grow.simps)
qed

theorem candidates_equal_brute_force_witness:
  "\<exists>ix phases. two_points_build = (Inr ix, phases) \<and> candidates ix near_one = Some (Some [7])"
proof -
  obtain ix phases where b: "two_points_build = (Inr ix, phases)" and c: "si_cells ix \<noteq> []" "si_ids ix = [9, 7]"
    "si_bboxes ix = [(0, 0, 0, 0), (0x3FF0000000000000, 0x3FF0000000000000, 0x3FF0000000000000, 0x3FF0000000000000)]"
    using two_points_built by blast
  have h: "view_usable near_one" "\<not> bbox_hits (0, 0, 0, 0) near_one"
    "bbox_hits (0x3FF0000000000000, 0x3FF0000000000000, 0x3FF0000000000000, 0x3FF0000000000000) near_one" by code_simp+
  have "brute_force ix near_one = [7]" by (simp add: brute_force_def c h upt_rec del: bbox_hits.simps)
  then have "candidates ix near_one = Some (Some [7])"
    using candidates_equal_brute_force [OF b [unfolded two_points_build_def], of near_one] c h(1) by simp
  then show ?thesis using b by blast
qed

section \<open>Entries stay within the declared bound\<close>

definition entries :: "(cell \<times> nat list) list \<Rightarrow> nat" where
  "entries cells = sum_list (map (\<lambda>cs. length (snd cs)) cells)"

lemma entries_push: "entries (cells_push c s cells) = entries cells + 1"
  by (induction c s cells rule: cells_push.induct) (simp_all add: entries_def)

lemma push_cells_entries:
  "push_cells cancelled k since slot cs cells = (Inr (cells', since'), k') \<Longrightarrow> entries cells' = entries cells + length cs"
  by (induction cancelled k since slot cs cells rule: push_cells.induct) (auto simp: entries_push split: option.splits)

lemma length_cells_between: "length (cells_between (c0, r0) (c1, r1)) = (Suc c1 - c0) * (Suc r1 - r0)"
  by (simp add: cells_between_def length_concat o_def sum_list_triv del: upt_Suc)

lemma u32_count: "c0 \<le> c1 \<Longrightarrow> c1 \<le> 255 \<Longrightarrow> u32_add (u32_sub c1 c0) 1 = Suc c1 - c0"
proof -
  assume a: "c0 \<le> c1" "c1 \<le> 255"
  then have "(c1 + 2 ^ 32 - c0) mod 2 ^ 32 = ((c1 - c0) + 2 ^ 32) mod 2 ^ 32" by simp
  also have "\<dots> = c1 - c0" using a by (subst mod_add_self2) simp
  finally show ?thesis using a by (simp add: u32_sub_def u32_add_def)
qed

lemma cell_of_mono:
  assumes "bbox_finite (b0, b1, b2, b3)" "\<not> bbox_inverted (b0, b1, b2, b3)"
    and "cell_of ext b0 b1 = (c0, r0)" "cell_of ext b2 b3 = (c1, r1)"
  shows "c0 \<le> c1 \<and> c1 \<le> 255 \<and> r0 \<le> r1 \<and> r1 \<le> 255"
proof -
  obtain e0 e1 e2 e3 where e: "ext = (e0, e1, e2, e3)" by (cases ext) auto
  have "axis_cell e0 e2 b0 \<le> axis_cell e0 e2 b2" "axis_cell e1 e3 b1 \<le> axis_cell e1 e3 b3"
    using assms(1,2) by (auto intro!: axis_cell_mono_le le_of_not_lt)
  then show ?thesis using assms(3,4) axis_cell_le unfolding e by auto
qed

lemma populate_entries:
  "populate cancelled k since slot ext bs cells spanning = (Inr (cells', spanning'), k') \<Longrightarrow>
   \<forall>b \<in> set bs. bbox_finite b \<and> \<not> bbox_inverted b \<Longrightarrow>
   entries cells' + length spanning' \<le> entries cells + length spanning + max_cells_per_feature * length bs"
proof (induction cancelled k since slot ext bs cells spanning rule: populate.induct)
  case (1 cancelled k since slot ext cells spanning)
  then show ?case by simp
next
  case (2 cancelled k since slot ext b0 b1 b2 b3 bs cells spanning)
  obtain since1 k1 where p: "poll_entries cancelled k since = Some (since1, k1)"
    using "2.prems"(1) by (cases "poll_entries cancelled k since") auto
  obtain c0 r0 c1 r1 where c: "cell_of ext b0 b1 = (c0, r0)" "cell_of ext b2 b3 = (c1, r1)" by fastforce
  have le: "c0 \<le> c1 \<and> c1 \<le> 255 \<and> r0 \<le> r1 \<and> r1 \<le> 255" using "2.prems"(2) c by (intro cell_of_mono) auto
  show ?case
  proof (cases "u32_add (u32_sub c1 c0) 1 * u32_add (u32_sub r1 r0) 1 > max_cells_per_feature")
    case True
    have "entries cells' + length spanning' \<le> entries cells + length (spanning @ [slot mod 2 ^ 32]) + max_cells_per_feature * length bs"
      by (rule "2.IH"(1) [OF p _ c(1) [symmetric] _ _ c(2) [symmetric]]) (use True "2.prems" p c in simp_all)
    then show ?thesis by (simp add: max_cells_per_feature_def)
  next
    case False
    then obtain cells1 since2 k2 where
      q: "push_cells cancelled k1 since1 slot (cells_between (c0, r0) (c1, r1)) cells = (Inr (cells1, since2), k2)"
      using "2.prems"(1) p c by (auto split: prod.splits sum.splits)
    have "entries cells' + length spanning' \<le> entries cells1 + length spanning + max_cells_per_feature * length bs"
      by (rule "2.IH"(2) [OF p _ c(1) [symmetric] _ _ c(2) [symmetric] _ _ q [symmetric]]) (use False "2.prems" p c q in simp_all)
    moreover have "entries cells1 \<le> entries cells + max_cells_per_feature"
      using push_cells_entries [OF q] False le u32_count [of c0 c1] u32_count [of r0 r1] by (simp add: length_cells_between)
    ultimately show ?thesis by simp
  qed
qed

lemma index_rows_entries:
  assumes "index_rows dbg cancelled k millis key validity (ids, bboxes, rows) = (Inr ix, phases)"
  shows "si_cell_entries ix \<le> max_cells_per_feature * length (si_bboxes ix)"
  using index_rows_cases [OF assms]
proof (elim exE conjE)
  fix ext cells spanning k1 k2 k3
  assume v: "\<forall>b \<in> set bboxes. bbox_finite b \<and> \<not> bbox_inverted b"
    and p: "(if bboxes \<noteq> [] \<and> extent_open ext then populate cancelled k2 0 0 ext bboxes [] [] else (Inr ([], []), k2)) = (Inr (cells, spanning), k3)"
    and ix: "ix = index_of key validity millis ids bboxes rows ext cells spanning"
  have "entries cells + length spanning \<le> max_cells_per_feature * length bboxes"
    using p populate_entries [of cancelled k2 0 0 ext bboxes "[]" "[]" cells spanning k3] v
    by (auto simp: entries_def simp del: populate.simps extent_open.simps split: if_splits)
  then show ?thesis by (simp add: ix index_of_def entries_def)
qed

lemma build_entries:
  assumes "build_observed duckdb dbg h tk cancelled millis path covering id_column key validity = (Inr ix, phases)"
  shows "si_cell_entries ix \<le> max_cells_per_feature * length (si_bboxes ix)"
  using build_observed_rows [OF assms] index_rows_entries by blast

text \<open>The memory the built index declares for itself is bounded by the number of its features: the identifier
  and box of each, and at most \<open>MAX_CELLS_PER_FEATURE\<close> entries of the grid; the features themselves are at most
  \<open>MAX_INDEXED_FEATURES\<close>. The \<open>u32\<close> differences that count the cells of a box never wrap.\<close>

theorem index_memory_is_bounded:
  assumes "build_observed duckdb dbg h tk cancelled millis path covering id_column key validity = (Inr ix, phases)"
  shows "declared_memory_bound ix \<le>
      feature_count ix * (bytes_per_indexed_feature + max_cells_per_feature * bytes_per_cell_entry) \<and>
    feature_count ix \<le> max_indexed_features"
proof -
  have wf: "index_wf ix" by (rule build_observed_wf(1) [OF assms])
  have e: "si_cell_entries ix \<le> max_cells_per_feature * length (si_ids ix)"
    using build_entries [OF assms] wf by (simp add: index_wf_def)
  have "declared_memory_bound ix \<le> length (si_ids ix) * bytes_per_indexed_feature + max_cells_per_feature * length (si_ids ix) * bytes_per_cell_entry"
    using mult_right_mono [OF e, of bytes_per_cell_entry] by (simp add: declared_memory_bound_def)
  then show ?thesis using wf by (simp add: feature_count_def index_wf_def algebra_simps)
qed

theorem index_memory_is_bounded_witness:
  "\<exists>ix phases. two_points_build = (Inr ix, phases) \<and> declared_memory_bound ix \<le> 2 * (40 + 1024 * 4)"
proof -
  obtain ix phases where b: "two_points_build = (Inr ix, phases)" and c: "si_ids ix = [9, 7]"
    using two_points_built by blast
  show ?thesis using index_memory_is_bounded [OF b [unfolded two_points_build_def]] b c
    by (auto simp: feature_count_def bytes_per_indexed_feature_def max_cells_per_feature_def bytes_per_cell_entry_def)
qed

section \<open>Identifier ranges\<close>

text \<open>The reference: the maximal runs of consecutive identifiers.\<close>

fun runs :: "u64 \<Rightarrow> u64 \<Rightarrow> u64 list \<Rightarrow> (u64 \<times> u64) list" where
  "runs lo hi [] = [(lo, hi)]"
| "runs lo hi (x # xs) = (if x = hi + 1 then runs lo x xs else (lo, hi) # runs x x xs)"

definition denoted :: "(u64 \<times> u64) list \<Rightarrow> u64 set" where
  "denoted rs = (\<Union>(lo, hi) \<in> set rs. {lo..hi})"

lemma runs_pos: "1 \<le> length (runs lo hi xs)"
  by (induction lo hi xs rule: runs.induct) simp_all

lemma compress_loop_runs:
  "compress_loop xs m lo hi out = (if length out + length (runs lo hi xs) > m then None else Some (out @ runs lo hi xs))"
proof (induction xs m lo hi out rule: compress_loop.induct)
  case (2 x xs m lo hi out)
  then show ?case using runs_pos [of x x xs] by (auto simp: Let_def)
qed (simp add: Let_def)

lemma denoted_runs: "sorted (hi # xs) \<Longrightarrow> lo \<le> hi \<Longrightarrow> denoted (runs lo hi xs) = {lo..hi} \<union> set xs"
proof (induction lo hi xs rule: runs.induct)
  case (1 lo hi)
  then show ?case by (simp add: denoted_def)
next
  case (2 lo hi x xs)
  show ?case
  proof (cases "x = hi + 1")
    case True
    have "hi \<le> x" using "2.prems"(1) by simp
    then have lt: "hi < hi + 1" using True by (metis order_le_less add_cancel_right_right zero_neq_one)
    have "{lo..hi + 1} = insert (hi + 1) {lo..hi}"
      using lt "2.prems"(2) by (auto simp: inc_le not_less dest: order_trans) (meson inc_le leD le_less_linear order_antisym)+
    then show ?thesis using 2 True lt by auto
  next
    case False
    then show ?thesis using 2 by (auto simp: denoted_def)
  qed
qed

definition id_runs :: "u64 list \<Rightarrow> (u64 \<times> u64) list" where
  "id_runs ids = (case ids of [] \<Rightarrow> [] | i # is \<Rightarrow> runs i i is)"

text \<open>On ascending identifiers \<open>compress_to_ranges\<close> returns exactly the maximal runs of consecutive
  identifiers when they are at most \<open>max_ranges\<close>, and declines otherwise; the ranges it returns denote exactly the
  identifiers given, none lost and none added, also at the top of \<open>u64\<close>.\<close>

theorem compress_to_ranges_exact:
  assumes "sorted ids"
  shows "compress_to_ranges ids m = (if m < length (id_runs ids) then None else Some (id_runs ids)) \<and>
    denoted (id_runs ids) = set ids"
proof (cases ids)
  case Nil
  then show ?thesis by (simp add: compress_to_ranges_def id_runs_def denoted_def)
next
  case (Cons i xs)
  then show ?thesis using assms denoted_runs [of i xs i] by (simp add: compress_to_ranges_def compress_loop_runs id_runs_def)
qed

theorem compress_to_ranges_exact_witness:
  "compress_to_ranges [3, 4, 5, 9, 18446744073709551614, 18446744073709551615] 4096 =
     Some [(3, 5), (9, 9), (18446744073709551614, 18446744073709551615)]"
proof -
  have "sorted [3, 4, 5, 9, 18446744073709551614, 18446744073709551615 :: u64]" by code_simp
  from compress_to_ranges_exact [OF this, of 4096] show ?thesis by (simp add: id_runs_def)
qed

section \<open>Caches\<close>

text \<open>The contract both index caches keep: a lookup answers with what was inserted last under that path, and
  only if it is admitted for the key and the file seen now.\<close>

locale validated_cache =
  fixes get :: "'i cache \<Rightarrow> string \<Rightarrow> 'k \<Rightarrow> validity_heuristic option \<Rightarrow> index_miss + 'i"
    and admits :: "'i \<Rightarrow> 'k \<Rightarrow> validity_heuristic option \<Rightarrow> index_miss + unit"
  assumes get_absent: "map_of c path = None \<Longrightarrow> get c path key validity = Inl MissAbsent"
    and get_found: "map_of c path = Some i \<Longrightarrow>
      get c path key validity = (case admits i key validity of Inl m \<Rightarrow> Inl m | Inr _ \<Rightarrow> Inr i)"
begin

lemma get_after_insert:
  "get (cache_insert path i c) path key validity = (case admits i key validity of Inl m \<Rightarrow> Inl m | Inr _ \<Rightarrow> Inr i)"
  by (simp add: get_found cache_insert_def)

lemma map_of_insert_other: "q \<noteq> path \<Longrightarrow> map_of (cache_insert path i c) q = map_of c q"
  by (induction c) (auto simp: cache_insert_def)

lemma get_other:
  assumes "q \<noteq> path"
  shows "get (cache_insert path i c) q key validity = get c q key validity"
  using get_absent get_found map_of_insert_other [OF assms, of i c] by (cases "map_of c q") simp_all

lemma served_is_admitted:
  "get c path key validity = Inr i \<Longrightarrow> map_of c path = Some i \<and> admits i key validity = Inr ()"
  by (cases "map_of c path") (auto simp: get_absent get_found split: sum.splits)

end

interpretation index_cache: validated_cache cache_get index_admits
  by unfold_locales (auto simp: cache_get_def bind_ok_def ok_or_def split: sum.splits)

lemma cache_insert_distinct:
  "distinct (map fst c) \<Longrightarrow> distinct (map fst (cache_insert path i c)) \<and>
   cache_len (cache_insert path i c) = cache_len c + (if path \<in> set (map fst c) then 0 else 1)"
proof (induction c)
  case (Cons e c)
  have "filter (\<lambda>e. fst e \<noteq> path) c = c" if "path \<notin> fst ` set c" using that by (auto simp: filter_id_conv)
  then show ?case using Cons by (auto simp: cache_insert_def cache_len_def)
qed (simp add: cache_insert_def cache_len_def)

text \<open>An index is served only for its own key and for the same file: same length, same known modification time.\<close>

lemma served_index_is_current:
  assumes "cache_get c path key validity = Inr ix"
  shows "si_key ix = key \<and> (\<exists>v. si_validity ix = Some v \<and> validity = Some v \<and> vh_modified_nanos v \<noteq> None)"
  using index_cache.served_is_admitted [OF assms]
  by (auto simp: index_admits_def fail_closed_matches_def split: if_splits option.splits)

end
