(* ===== verification/Rowgroup.thy ===== *)
theory Rowgroup
  imports Index_Proofs
begin

text \<open>
  \<open>engine/src/rowgroup.rs\<close>: the index over a Parquet file's own row-group statistics, and that it never prunes
  a row a view needs. The rows DuckDB's \<open>parquet_metadata\<close> returns are a parameter; \<open>parse::<u64>()\<close> and
  \<open>parse::<f64>()\<close> are written out. \<open>by_group\<close> is an association list, sorted by ordinal at the end.
\<close>

unbundle bit_operations_syntax

section \<open>Parsing numbers\<close>

text \<open>\<open>str::parse::<u64>\<close>: an optional plus, at least one digit, no overflow.\<close>

definition parse_u64 :: "string \<Rightarrow> u64 option" where
  "parse_u64 s =
     (let ds = (if starts_with s ''+'' then tl s else s)
      in if ds \<noteq> [] \<and> list_all is_digit ds \<and> read_nat ds < 2 ^ 64 then Some (of_nat (read_nat ds)) else None)"

definition lower_ascii :: "char \<Rightarrow> char" where
  "lower_ascii c = (if (65 :: nat) \<le> of_char c \<and> of_char c \<le> (90 :: nat) then char_of (of_char c + 32 :: nat) else c)"

text \<open>The exponent of a decimal: absent, or \<open>e\<close>, a sign and digits.\<close>

definition parse_exponent :: "string \<Rightarrow> int option" where
  "parse_exponent s =
     (if s = [] then Some 0
      else if lower_ascii (hd s) \<noteq> CHR ''e'' then None
      else let t = tl s;
               neg = starts_with t ''-'';
               ds = (if neg \<or> starts_with t ''+'' then tl t else t)
           in if ds \<noteq> [] \<and> list_all is_digit ds
              then Some (if neg then - int (read_nat ds) else int (read_nat ds)) else None)"

definition scaled_f64 :: "bool \<Rightarrow> nat \<Rightarrow> int \<Rightarrow> f64" where
  "scaled_f64 neg n e =
     (if e < 0 then nearest_f64 neg (int n) (10 ^ nat (- e)) else nearest_f64 neg (int n * 10 ^ nat e) 1)"

definition parse_number :: "bool \<Rightarrow> string \<Rightarrow> f64 option" where
  "parse_number neg s =
     (let i = takeWhile is_digit s; r1 = dropWhile is_digit s;
          dot = starts_with r1 ''.'';
          f = (if dot then takeWhile is_digit (tl r1) else []);
          r2 = (if dot then dropWhile is_digit (tl r1) else r1)
      in if i = [] \<and> f = [] then None
         else map_option (\<lambda>e. scaled_f64 neg (read_nat (i @ f)) (e - int (length f))) (parse_exponent r2))"

definition parse_f64 :: "string \<Rightarrow> f64 option" where
  "parse_f64 s =
     (let neg = starts_with s ''-'';
          r = (if neg \<or> starts_with s ''+'' then tl s else s);
          l = map lower_ascii r
      in if l = ''inf'' \<or> l = ''infinity'' then Some (f64_signed neg f64_infinity)
         else if l = ''nan'' then Some (f64_signed neg f64_nan)
         else parse_number neg r)"

section \<open>Keys, refusals, entries\<close>

definition rg_builder_version :: nat where "rg_builder_version = 1"
definition rg_answers_predicate :: string where "rg_answers_predicate = ''row-group-covering-bbox-intersects''"
definition bytes_per_row_group_entry :: nat where "bytes_per_row_group_entry = 80"
definition max_indexed_row_groups :: nat where "max_indexed_row_groups = 1048576"
definition max_row_group_ranges :: nat where "max_row_group_ranges = 4096"

record row_group_key =
  rk_content_hash :: string
  rk_builder_version :: nat
  rk_answers :: string
  rk_id_column :: string

definition row_group_key_new :: "string \<Rightarrow> string \<Rightarrow> row_group_key" where
  "row_group_key_new content_hash id_column =
     \<lparr>rk_content_hash = content_hash, rk_builder_version = rg_builder_version,
      rk_answers = rg_answers_predicate, rk_id_column = id_column\<rparr>"

datatype row_group_refusal =
    IdStatsAbsent | IdRangesOverlap | IdRangesUnordered | StatsUnparseable | ViewportUnusable
  | RgCeilingExceeded | NoRowGroups

definition row_group_refusal_as_str :: "row_group_refusal \<Rightarrow> string" where
  "row_group_refusal_as_str r =
     (case r of
        IdStatsAbsent \<Rightarrow> ''id-stats-absent''
      | IdRangesOverlap \<Rightarrow> ''id-ranges-overlap''
      | IdRangesUnordered \<Rightarrow> ''id-ranges-unordered''
      | StatsUnparseable \<Rightarrow> ''stats-unparseable''
      | ViewportUnusable \<Rightarrow> ''viewport-unusable''
      | RgCeilingExceeded \<Rightarrow> ''ceiling-exceeded''
      | NoRowGroups \<Rightarrow> ''no-row-groups'')"

record row_group_entry =
  rg_ordinal :: nat
  rg_rows :: nat
  rg_id_lo :: u64
  rg_id_hi :: u64
  rg_envelope :: "f64x4 option"

definition rg_intersects :: "row_group_entry \<Rightarrow> view_bbox \<Rightarrow> bool" where
  "rg_intersects g v = (case rg_envelope g of None \<Rightarrow> True | Some b \<Rightarrow> bbox_hits b v)"

record row_group_index =
  ri_key :: row_group_key
  ri_validity :: "validity_heuristic option"
  ri_groups :: "row_group_entry list"
  ri_admissible :: "row_group_refusal + unit"
  ri_build_millis :: f64
  ri_total_groups :: nat
  ri_scanned_metadata_rows :: nat

definition rg_declared_memory_bound :: "row_group_index \<Rightarrow> nat" where
  "rg_declared_memory_bound ri = length (ri_groups ri) * bytes_per_row_group_entry"

record row_group_selection =
  rs_total :: nat
  rs_kept :: nat
  rs_ranges :: "(u64 \<times> u64) list"

definition excludes_io :: "row_group_selection \<Rightarrow> bool" where
  "excludes_io sel \<longleftrightarrow> rs_kept sel < rs_total sel"

section \<open>Choosing ranges\<close>

definition u64_saturating_succ :: "u64 \<Rightarrow> u64" where
  "u64_saturating_succ x = (if x = 0xFFFFFFFFFFFFFFFF then x else x + 1)"

definition add_range :: "(u64 \<times> u64) list \<Rightarrow> row_group_entry \<Rightarrow> (u64 \<times> u64) list" where
  "add_range ranges g =
     (if ranges \<noteq> [] \<and> rg_id_lo g = u64_saturating_succ (snd (last ranges))
      then butlast ranges @ [(fst (last ranges), rg_id_hi g)]
      else ranges @ [(rg_id_lo g, rg_id_hi g)])"

fun choose_groups :: "view_bbox \<Rightarrow> row_group_entry list \<Rightarrow> nat \<Rightarrow> (u64 \<times> u64) list \<Rightarrow> nat \<times> (u64 \<times> u64) list" where
  "choose_groups v [] kept ranges = (kept, ranges)"
| "choose_groups v (g # gs) kept ranges =
     (if \<not> rg_intersects g v then choose_groups v gs kept ranges
      else choose_groups v gs (kept + 1) (add_range ranges g))"

definition ranges_for :: "row_group_index \<Rightarrow> view_bbox \<Rightarrow> row_group_refusal + row_group_selection" where
  "ranges_for ri v =
     bind_ok (ri_admissible ri) (\<lambda>_.
       if \<not> view_usable v then Inl ViewportUnusable
       else case choose_groups v (ri_groups ri) 0 [] of
              (kept, ranges) \<Rightarrow> Inr \<lparr>rs_total = length (ri_groups ri), rs_kept = kept, rs_ranges = ranges\<rparr>)"

definition rg_admits :: "row_group_index \<Rightarrow> row_group_key \<Rightarrow> validity_heuristic option \<Rightarrow> index_miss + unit" where
  "rg_admits ri key validity =
     (if ri_key ri \<noteq> key then Inl MissKeyMismatch
      else if \<not> fail_closed_matches (ri_validity ri) validity then Inl MissSourceChanged
      else Inr ())"

section \<open>Reading the metadata\<close>

text \<open>One row of \<open>parquet_metadata\<close>: the columns read with \<open>?\<close> as results, those read with \<open>.ok()\<close> as options.\<close>

record meta_row =
  mr_ordinal :: "string + int"
  mr_num_rows :: "string + int"
  mr_column :: "string + string"
  mr_min :: "string option"
  mr_max :: "string option"
  mr_nulls :: "int option"

record raw_group =
  rw_ordinal :: nat
  rw_rows :: nat
  rw_id :: "(string option \<times> string option) option"
  rw_id_nulls :: "nat option"
  rw_bounds :: "string option list"

definition col_err :: "string \<Rightarrow> engine_error" where
  "col_err e = EngQuery (''row-group metadata column: '' @ e)"

definition metadata_path :: "field_path \<Rightarrow> string" where
  "metadata_path p = join_with '', '' p"

definition fresh_group :: "nat \<Rightarrow> int \<Rightarrow> raw_group" where
  "fresh_group ordinal num_rows =
     \<lparr>rw_ordinal = ordinal, rw_rows = nat (max num_rows 0), rw_id = None, rw_id_nulls = None,
      rw_bounds = [None, None, None, None]\<rparr>"

definition absorb_id :: "string \<Rightarrow> string \<Rightarrow> meta_row \<Rightarrow> raw_group \<Rightarrow> raw_group" where
  "absorb_id want_id col r g =
     (if col = want_id
      then g\<lparr>rw_id := Some (mr_min r, mr_max r), rw_id_nulls := map_option (\<lambda>n. nat (max n 0)) (mr_nulls r)\<rparr> else g)"

fun absorb_bounds :: "string \<Rightarrow> meta_row \<Rightarrow> nat \<Rightarrow> string list \<Rightarrow> raw_group \<Rightarrow> raw_group" where
  "absorb_bounds col r i [] g = g"
| "absorb_bounds col r i (w # ws) g =
     absorb_bounds col r (i + 1) ws
       (if col = w then g\<lparr>rw_bounds := (rw_bounds g)[i := (if i < 2 then mr_min r else mr_max r)]\<rparr> else g)"

fun upsert_group :: "nat \<Rightarrow> raw_group \<Rightarrow> (raw_group \<Rightarrow> raw_group) \<Rightarrow> (nat \<times> raw_group) list \<Rightarrow> (nat \<times> raw_group) list" where
  "upsert_group k d f [] = [(k, f d)]"
| "upsert_group k d f ((j, g) # gs) = (if j = k then (j, f g) # gs else (j, g) # upsert_group k d f gs)"

definition absorb_row :: "string \<Rightarrow> string list \<Rightarrow> (nat \<times> raw_group) list \<Rightarrow> meta_row \<Rightarrow> engine_error + (nat \<times> raw_group) list" where
  "absorb_row want_id want by_group r =
     bind_ok (map_err col_err (mr_ordinal r)) (\<lambda>ordinal.
     bind_ok (map_err col_err (mr_num_rows r)) (\<lambda>num_rows.
     bind_ok (map_err col_err (mr_column r)) (\<lambda>col.
       if ordinal < 0 \<or> 2 ^ 32 \<le> ordinal then
         Inl (EngQuery (''row_group_id '' @ show_int ordinal @ '' is not representable''))
       else if nat ordinal \<notin> set (map fst by_group) \<and> length by_group \<ge> max_indexed_row_groups then
         Inl (EngCeilingExceeded ''MAX_INDEXED_ROW_GROUPS'' max_indexed_row_groups (length by_group + 1))
       else Inr (upsert_group (nat ordinal) (fresh_group (nat ordinal) num_rows)
                   (\<lambda>g. absorb_bounds col r 0 want (absorb_id want_id col r g)) by_group))))"

fun read_rows ::
    "polls \<Rightarrow> nat \<Rightarrow> nat \<Rightarrow> string \<Rightarrow> string list \<Rightarrow> (string + meta_row) list \<Rightarrow> (nat \<times> raw_group) list \<Rightarrow> nat
       \<Rightarrow> ((nat \<times> raw_group) list \<times> nat) polled" where
  "read_rows cancelled k since want_id want [] by_group scanned =
     (case poll_entries cancelled k since of
        None \<Rightarrow> (Inl EngCancelled, k + 1)
      | Some (since', k') \<Rightarrow> (Inr (by_group, scanned), k'))"
| "read_rows cancelled k since want_id want (row # rows) by_group scanned =
     (case poll_entries cancelled k since of
        None \<Rightarrow> (Inl EngCancelled, k + 1)
      | Some (since', k') \<Rightarrow>
          (case row of
             Inl e \<Rightarrow> (Inl (EngQuery (''row-group metadata row: '' @ e)), k')
           | Inr r \<Rightarrow>
               (case absorb_row want_id want by_group r of
                  Inl e \<Rightarrow> (Inl e, k')
                | Inr by_group' \<Rightarrow> read_rows cancelled k' (since' + 1) want_id want rows by_group' (scanned + 1))))"

definition read_metadata ::
    "(string \<Rightarrow> string + (string + (string + meta_row) list)) \<Rightarrow> string \<Rightarrow> covering_bbox \<Rightarrow> string \<Rightarrow> polls \<Rightarrow> nat
       \<Rightarrow> (raw_group list \<times> nat) polled" where
  "read_metadata duckdb path covering id_column cancelled k =
     (case duckdb path of
        Inl e \<Rightarrow> (Inl (EngQuery (''row-group metadata prepare: '' @ e)), k)
      | Inr (Inl e) \<Rightarrow> (Inl (EngQuery (''row-group metadata: '' @ e)), k)
      | Inr (Inr rows) \<Rightarrow>
          (case read_rows cancelled k 0 id_column
                  [metadata_path (cv_xmin covering), metadata_path (cv_ymin covering),
                   metadata_path (cv_xmax covering), metadata_path (cv_ymax covering)] rows [] 0 of
             (Inl e, k') \<Rightarrow> (Inl e, k')
           | (Inr (by_group, scanned), k') \<Rightarrow>
               if cancelled k' then (Inl EngCancelled, k' + 1)
               else (Inr (sort_key rw_ordinal (map snd by_group), scanned), k' + 1)))"

section \<open>Admission\<close>

definition next_down :: "f64 \<Rightarrow> f64" where
  "next_down v =
     (if f64_is_nan v \<or> v = f64_neg_infinity then v
      else if f64_mag v = 0 then 0x8000000000000001
      else if f64_lt 0 v then v - 1 else v + 1)"

definition next_up :: "f64 \<Rightarrow> f64" where
  "next_up v =
     (if f64_is_nan v \<or> v = f64_infinity then v
      else if f64_mag v = 0 then 1
      else if f64_lt 0 v then v + 1 else v - 1)"

definition and_err :: "row_group_refusal + unit \<Rightarrow> row_group_refusal \<Rightarrow> row_group_refusal + unit" where
  "and_err verdict e = (case verdict of Inl e0 \<Rightarrow> Inl e0 | Inr _ \<Rightarrow> Inl e)"

definition group_ids :: "raw_group \<Rightarrow> row_group_refusal + unit \<Rightarrow> (u64 \<times> u64) \<times> (row_group_refusal + unit)" where
  "group_ids g verdict =
     (case rw_id g of
        Some (Some lo, Some hi) \<Rightarrow>
          (case (parse_u64 lo, parse_u64 hi) of
             (Some l, Some h) \<Rightarrow>
               if l \<le> h then ((l, h), verdict) else ((0, 0xFFFFFFFFFFFFFFFF), and_err verdict IdRangesUnordered)
           | _ \<Rightarrow> ((0, 0xFFFFFFFFFFFFFFFF), and_err verdict StatsUnparseable))
      | _ \<Rightarrow> ((0, 0xFFFFFFFFFFFFFFFF), and_err verdict IdStatsAbsent))"

text \<open>One member of the envelope: \<open>None\<close> when the bound is absent, unparseable or not finite.\<close>

definition bound_value :: "nat \<Rightarrow> string option \<Rightarrow> f64 option" where
  "bound_value k s =
     (case s of
        None \<Rightarrow> None
      | Some t \<Rightarrow>
          (case parse_f64 t of
             None \<Rightarrow> None
           | Some v \<Rightarrow> if f64_is_finite v then Some (if k < 2 then next_down v else next_up v) else None))"

definition group_envelope :: "raw_group \<Rightarrow> f64x4 option" where
  "group_envelope g =
     (case map (\<lambda>(k, s). bound_value k s) (enumerate 0 (rw_bounds g)) of
        [Some a, Some b, Some c, Some d] \<Rightarrow> if f64_lt c a \<or> f64_lt d b then None else Some (a, b, c, d)
      | _ \<Rightarrow> None)"

definition entry_of :: "raw_group \<Rightarrow> u64 \<times> u64 \<Rightarrow> row_group_entry" where
  "entry_of g ids =
     \<lparr>rg_ordinal = rw_ordinal g, rg_rows = rw_rows g, rg_id_lo = fst ids, rg_id_hi = snd ids,
      rg_envelope = group_envelope g\<rparr>"

fun admit_loop ::
    "polls \<Rightarrow> nat \<Rightarrow> nat \<Rightarrow> raw_group list \<Rightarrow> row_group_entry list \<Rightarrow> row_group_refusal + unit \<Rightarrow> u64 option
       \<Rightarrow> (row_group_entry list \<times> (row_group_refusal + unit)) polled" where
  "admit_loop cancelled k i [] acc verdict prev_hi = (Inr (acc, verdict), k)"
| "admit_loop cancelled k i (g # gs) acc verdict prev_hi =
     (let polls = (i mod cancel_poll_interval = 0); k' = (if polls then k + 1 else k)
      in if polls \<and> cancelled k then (Inl EngCancelled, k')
         else case group_ids g verdict of
                (ids, v1) \<Rightarrow>
                  let v2 = (case rw_id_nulls g of Some n \<Rightarrow> if n > 0 then and_err v1 IdStatsAbsent else v1
                            | None \<Rightarrow> and_err v1 IdStatsAbsent);
                      v3 = (case prev_hi of Some p \<Rightarrow> if fst ids \<le> p then and_err v2 IdRangesOverlap else v2 | None \<Rightarrow> v2)
                  in admit_loop cancelled k' (i + 1) gs (acc @ [entry_of g ids]) v3 (Some (snd ids)))"

definition rg_admit :: "polls \<Rightarrow> nat \<Rightarrow> raw_group list \<Rightarrow> (row_group_entry list \<times> (row_group_refusal + unit)) polled" where
  "rg_admit cancelled k raw =
     (if raw = [] then (Inr ([], Inl NoRowGroups), k) else admit_loop cancelled k 0 raw [] (Inr ()) None)"

definition rg_build ::
    "(string \<Rightarrow> string + (string + (string + meta_row) list)) \<Rightarrow> nat \<Rightarrow> token \<Rightarrow> polls \<Rightarrow> f64
       \<Rightarrow> string \<Rightarrow> covering_bbox \<Rightarrow> string \<Rightarrow> row_group_key \<Rightarrow> validity_heuristic option
       \<Rightarrow> (engine_error + row_group_index) \<times> index_phase list" where
  "rg_build duckdb h tk cancelled millis path covering id_column key validity =
     (case attach h tk of
        Inl e \<Rightarrow> (Inl e, [PhRowGroupMetadata])
      | Inr _ \<Rightarrow>
          (case execute_guarded cancelled 0 (read_metadata duckdb path covering id_column cancelled) of
             (g, k) \<Rightarrow>
               if cancelled k then (Inl EngCancelled, [PhRowGroupMetadata])
               else case into_result g of
                      Inl e \<Rightarrow> (Inl e, [PhRowGroupMetadata])
                    | Inr (raw, scanned) \<Rightarrow>
                        (case rg_admit cancelled (k + 1) raw of
                           (Inl e, _) \<Rightarrow> (Inl e, [PhRowGroupMetadata, PhRowGroupAdmissibility])
                         | (Inr (groups, admissible), k2) \<Rightarrow>
                             (if cancelled k2 then Inl EngCancelled
                              else Inr \<lparr>ri_key = key, ri_validity = validity, ri_groups = groups, ri_admissible = admissible,
                                        ri_build_millis = millis, ri_total_groups = length groups,
                                        ri_scanned_metadata_rows = scanned\<rparr>,
                              [PhRowGroupMetadata, PhRowGroupAdmissibility]))))"

section \<open>Cache\<close>

definition rg_cache_get :: "row_group_index cache \<Rightarrow> string \<Rightarrow> row_group_key \<Rightarrow> validity_heuristic option \<Rightarrow> index_miss + row_group_index" where
  "rg_cache_get c path key validity =
     bind_ok (ok_or MissAbsent (map_of c path)) (\<lambda>found.
     bind_ok (rg_admits found key validity) (\<lambda>_. Inr found))"

definition rg_cache_hash_for :: "row_group_index cache \<Rightarrow> string \<Rightarrow> string option" where
  "rg_cache_hash_for c path = map_option (\<lambda>i. rk_content_hash (ri_key i)) (map_of c path)"

interpretation row_group_cache: validated_cache rg_cache_get rg_admits
  by unfold_locales (auto simp: rg_cache_get_def bind_ok_def ok_or_def split: sum.splits)

section \<open>One step outwards\<close>

lemma f64_uint: "uint x = uint (f64_mag x) + (if f64_neg x then 2 ^ 63 else 0)"
proof -
  have m: "uint (f64_mag x) = uint x mod 2 ^ 63"
    by (simp add: f64_mag_take_bit unsigned_take_bit_eq) (simp add: take_bit_eq_mod)
  have "uint x < 2 ^ 64" using uint_lt2p [of x] by simp
  then have "uint x div 2 ^ 63 \<le> (2 ^ 64 - 1) div 2 ^ 63" by (intro zdiv_mono1) simp_all
  moreover have "0 \<le> uint x div 2 ^ 63" by (simp add: pos_imp_zdiv_nonneg_iff)
  ultimately have d: "uint x div 2 ^ 63 = 0 \<or> uint x div 2 ^ 63 = 1" by auto
  have "f64_neg x \<longleftrightarrow> bit (uint x) 63" by (simp add: f64_neg_def bit_uint_iff)
  also have "\<dots> \<longleftrightarrow> odd (uint x div 2 ^ 63)" by (rule bit_iff_odd)
  finally have o: "f64_neg x \<longleftrightarrow> odd (uint x div 2 ^ 63)" .
  have e: "uint x = uint x div 2 ^ 63 * 2 ^ 63 + uint (f64_mag x)" unfolding m by (rule div_mult_mod_eq [symmetric])
  from d show ?thesis
  proof
    assume "uint x div 2 ^ 63 = 0"
    then show ?thesis using o e by simp
  next
    assume q: "uint x div 2 ^ 63 = 1"
    then have "f64_neg x" using o by simp
    then show ?thesis using e unfolding q by simp
  qed
qed

lemma f64_mag_bound: "uint (f64_mag x) < 2 ^ 63"
  by (simp add: f64_mag_take_bit unsigned_take_bit_eq) (simp add: take_bit_eq_mod)

lemma key_of_uint:
  assumes "0 \<le> m" "m < 2 ^ 63"
  shows "uint w = m \<Longrightarrow> f64_key w = m" and "uint w = m + 2 ^ 63 \<Longrightarrow> f64_key w = - m"
proof -
  define mag where "mag = uint (f64_mag w)"
  have mag: "0 \<le> mag" "mag < 2 ^ 63" "uint w = mag + (if f64_neg w then 2 ^ 63 else 0)"
    "f64_key w = (if f64_neg w then - mag else mag)"
    using f64_uint [of w] f64_mag_bound [of w] by (simp_all add: mag_def f64_key_def)
  show "uint w = m \<Longrightarrow> f64_key w = m" "uint w = m + 2 ^ 63 \<Longrightarrow> f64_key w = - m"
    using mag assms by (auto split: if_splits)
qed

lemma step_up_uint: "uint (w :: u64) < 2 ^ 64 - 1 \<Longrightarrow> uint (w + 1) = uint w + 1"
  by (simp add: uint_word_ariths)

lemma step_down_uint: "0 < uint (w :: u64) \<Longrightarrow> uint (w - 1) = uint w - 1"
  using uint_lt2p [of w] by (simp add: uint_word_ariths)

lemma finite_step:
  assumes "f64_is_finite v" "f64_mag v \<noteq> 0"
  shows "f64_key (if f64_lt 0 v then v - 1 else v + 1) = f64_key v - 1"
    and "f64_key (if f64_lt 0 v then v + 1 else v - 1) = f64_key v + 1"
proof -
  have m: "0 < uint (f64_mag v)" "uint (f64_mag v) < inf_key"
    using assms f64_key_abs [of v] uint_ge_0 [of "f64_mag v"] by (auto simp: f64_is_finite_key order_less_le uint_0_iff)
  have z: "f64_lt 0 v \<longleftrightarrow> \<not> f64_neg v"
    using assms m zero_key by (auto simp: f64_lt_def f64_kinds f64_key_def)
  note u = f64_uint [of v] m [unfolded inf_key_def]
  show "f64_key (if f64_lt 0 v then v - 1 else v + 1) = f64_key v - 1"
  proof (cases "f64_neg v")
    case True
    then have "uint (v + 1) = (uint (f64_mag v) + 1) + 2 ^ 63" using u by (subst step_up_uint) simp_all
    then show ?thesis using True z u key_of_uint(2) [of "uint (f64_mag v) + 1" "v + 1"] by (simp add: f64_key_def [of v])
  next
    case False
    then have "uint (v - 1) = uint (f64_mag v) - 1" using u by (subst step_down_uint) simp_all
    then show ?thesis using False z u key_of_uint(1) [of "uint (f64_mag v) - 1" "v - 1"] by (simp add: f64_key_def [of v])
  qed
  show "f64_key (if f64_lt 0 v then v + 1 else v - 1) = f64_key v + 1"
  proof (cases "f64_neg v")
    case True
    then have "uint (v - 1) = (uint (f64_mag v) - 1) + 2 ^ 63" using u by (subst step_down_uint) simp_all
    then show ?thesis using True z u key_of_uint(2) [of "uint (f64_mag v) - 1" "v - 1"] by (simp add: f64_key_def [of v])
  next
    case False
    then have "uint (v + 1) = uint (f64_mag v) + 1" using u by (subst step_up_uint) simp_all
    then show ?thesis using False z u key_of_uint(1) [of "uint (f64_mag v) + 1" "v + 1"] by (simp add: f64_key_def [of v])
  qed
qed

lemma infinities_not_finite: "\<not> f64_is_finite f64_infinity" "\<not> f64_is_finite f64_neg_infinity"
  by code_simp+

lemma next_down_key:
  assumes "f64_is_finite v"
  shows "f64_key (next_down v) = f64_key v - 1" and "\<not> f64_is_nan (next_down v)"
proof -
  have n: "\<not> f64_is_nan v" "v \<noteq> f64_neg_infinity" using assms infinities_not_finite by (auto simp: f64_kinds)
  have "f64_key 0x8000000000000001 = - 1" by code_simp
  then show k: "f64_key (next_down v) = f64_key v - 1"
    using n finite_step(1) [OF assms] f64_zero_key [of v] by (simp add: next_down_def)
  show "\<not> f64_is_nan (next_down v)" unfolding f64_is_nan_key k using assms by (simp add: f64_is_finite_key)
qed

lemma next_up_key:
  assumes "f64_is_finite v"
  shows "f64_key (next_up v) = f64_key v + 1" and "\<not> f64_is_nan (next_up v)"
proof -
  have n: "\<not> f64_is_nan v" "v \<noteq> f64_infinity" using assms infinities_not_finite by (auto simp: f64_kinds)
  have "f64_key 1 = 1" by code_simp
  then show k: "f64_key (next_up v) = f64_key v + 1"
    using n finite_step(2) [OF assms] f64_zero_key [of v] by (simp add: next_up_def)
  show "\<not> f64_is_nan (next_up v)" unfolding f64_is_nan_key k using assms by (simp add: f64_is_finite_key)
qed

section \<open>Ranges denote the kept groups\<close>

definition group_denotes :: "row_group_entry \<Rightarrow> u64 set" where
  "group_denotes g = {rg_id_lo g..rg_id_hi g}"

fun ascending :: "u64 option \<Rightarrow> row_group_entry list \<Rightarrow> bool" where
  "ascending p [] = True"
| "ascending p (g # gs) \<longleftrightarrow>
     (case p of Some h \<Rightarrow> h < rg_id_lo g | None \<Rightarrow> True) \<and> rg_id_lo g \<le> rg_id_hi g \<and> ascending (Some (rg_id_hi g)) gs"

lemma ascending_weaken: "ascending (Some h) gs \<Longrightarrow> h' \<le> h \<Longrightarrow> ascending (Some h') gs"
  by (cases gs) auto

lemma ascending_None: "ascending (Some h) gs \<Longrightarrow> ascending None gs"
  by (cases gs) auto

definition last_hi :: "(u64 \<times> u64) list \<Rightarrow> u64 option" where
  "last_hi rs = (if rs = [] then None else Some (snd (last rs)))"

definition ranges_ok :: "(u64 \<times> u64) list \<Rightarrow> bool" where
  "ranges_ok rs \<longleftrightarrow> list_all (\<lambda>(lo, hi). lo \<le> hi) rs \<and> sorted_wrt (\<lambda>a b. snd a < fst b) rs"

lemma denoted_append: "denoted (xs @ ys) = denoted xs \<union> denoted ys"
  by (simp add: denoted_def)

lemma interval_join: "(h :: u64) < lo \<Longrightarrow> lo = u64_saturating_succ h \<Longrightarrow> a \<le> h \<Longrightarrow> lo \<le> hi \<Longrightarrow> {a..hi} = {a..h} \<union> {lo..hi}"
proof -
  assume a: "h < lo" "lo = u64_saturating_succ h" "a \<le> h" "lo \<le> hi"
  then have s: "lo = h + 1" by (auto simp: u64_saturating_succ_def split: if_splits)
  have "x \<le> h \<or> lo \<le> x" for x unfolding s by (meson inc_le not_le)
  then have "x \<in> {a..hi} \<longleftrightarrow> x \<in> {a..h} \<union> {lo..hi}" for x using a(1,3,4) by (meson Un_iff atLeastAtMost_iff less_imp_le order_trans)
  then show ?thesis by blast
qed

lemma add_range_spec:
  assumes "ranges_ok rs" "rg_id_lo g \<le> rg_id_hi g" "case last_hi rs of Some h \<Rightarrow> h < rg_id_lo g | None \<Rightarrow> True"
  shows "ranges_ok (add_range rs g) \<and> denoted (add_range rs g) = denoted rs \<union> group_denotes g \<and>
    last_hi (add_range rs g) = Some (rg_id_hi g) \<and> length (add_range rs g) \<le> length rs + 1"
proof (cases rs rule: rev_cases)
  case Nil
  then show ?thesis using assms by (simp add: add_range_def ranges_ok_def denoted_def group_denotes_def last_hi_def)
next
  case (snoc ys r)
  obtain a h where r: "r = (a, h)" by fastforce
  have h: "h < rg_id_lo g" "a \<le> h" using assms(1,3) snoc r by (simp_all add: last_hi_def ranges_ok_def)
  show ?thesis
  proof (cases "rg_id_lo g = u64_saturating_succ h")
    case True
    have "{a..rg_id_hi g} = {a..h} \<union> {rg_id_lo g..rg_id_hi g}" by (rule interval_join [OF h(1) True h(2) assms(2)])
    then have "denoted (add_range rs g) = denoted rs \<union> group_denotes g"
      using True snoc r by (simp add: add_range_def denoted_append group_denotes_def) (simp add: denoted_def Un_assoc)
    moreover have "ranges_ok (add_range rs g)"
      using assms(1,2) True snoc r h by (auto simp: add_range_def ranges_ok_def sorted_wrt_append)
    ultimately show ?thesis using True snoc r by (simp add: add_range_def last_hi_def)
  next
    case False
    then have e: "add_range rs g = rs @ [(rg_id_lo g, rg_id_hi g)]" using snoc r by (simp add: add_range_def)
    have below: "snd p < rg_id_lo g" if "p \<in> set rs" for p
      using that assms(1) snoc r h by (fastforce simp: ranges_ok_def sorted_wrt_append list_all_iff)
    then have "ranges_ok (add_range rs g)" using assms(1,2) unfolding e by (auto simp: ranges_ok_def sorted_wrt_append)
    then show ?thesis unfolding e by (simp add: denoted_append group_denotes_def last_hi_def) (simp add: denoted_def)
  qed
qed

lemma choose_groups_spec:
  "ranges_ok rs \<Longrightarrow> ascending (last_hi rs) gs \<Longrightarrow> choose_groups v gs kept rs = (kept', rs') \<Longrightarrow>
   ranges_ok rs' \<and> denoted rs' = denoted rs \<union> (\<Union>g \<in> {g \<in> set gs. rg_intersects g v}. group_denotes g) \<and>
   kept' = kept + length (filter (\<lambda>g. rg_intersects g v) gs) \<and> length rs' + kept \<le> length rs + kept'"
proof (induction v gs kept rs rule: choose_groups.induct)
  case (1 v kept ranges)
  then show ?case by simp
next
  case (2 v g gs kept rs)
  show ?case
  proof (cases "rg_intersects g v")
    case True
    have "case last_hi rs of Some h \<Rightarrow> h < rg_id_lo g | None \<Rightarrow> True" "rg_id_lo g \<le> rg_id_hi g" using "2.prems"(2) by auto
    note add = add_range_spec [OF "2.prems"(1) this(2) this(1)]
    have "ascending (last_hi (add_range rs g)) gs" using add "2.prems"(2) by simp
    from "2.IH"(2) [OF _ _ this] show ?thesis using True add "2.prems"(3) by auto
  next
    case False
    have "ascending (last_hi rs) gs"
    proof (cases "last_hi rs")
      case None
      then show ?thesis using "2.prems"(2) ascending_None by auto
    next
      case (Some h)
      then show ?thesis using "2.prems"(2) ascending_weaken [of "rg_id_hi g" gs h] by auto
    qed
    from "2.IH"(1) [OF _ "2.prems"(1) this] show ?thesis using False "2.prems"(3) by auto
  qed
qed

section \<open>An admitted file\<close>

lemma and_err_ok [simp]: "and_err v e \<noteq> Inr u"
  by (cases v) (simp_all add: and_err_def)

lemma and_err_Inl [simp]: "and_err (Inl r) e = Inl r"
  by (simp add: and_err_def)

lemma group_ids_ok:
  "group_ids g v = (ids, Inr u) \<Longrightarrow> \<exists>lo hi. rw_id g = Some (Some lo, Some hi) \<and> parse_u64 lo = Some (fst ids) \<and>
     parse_u64 hi = Some (snd ids) \<and> fst ids \<le> snd ids \<and> v = Inr u"
  by (auto simp: group_ids_def split: option.splits if_splits)

lemma group_ids_Inl: "\<exists>ids. group_ids g (Inl r) = (ids, Inl r)"
  by (simp add: group_ids_def split: option.splits)

lemma admit_loop_Inl:
  "admit_loop cancelled k i raw acc (Inl r) p = (Inr (gs, verdict), k') \<Longrightarrow> verdict = Inl r"
proof (induction raw arbitrary: k i acc p)
  case (Cons g raw)
  obtain ids where "group_ids g (Inl r) = (ids, Inl r)" using group_ids_Inl by blast
  then show ?case using Cons by (auto simp: Let_def split: if_splits option.splits)
qed simp

lemma admit_loop_entries:
  "admit_loop cancelled k i raw acc v p = (Inr (gs, verdict), k') \<Longrightarrow>
   \<exists>es. gs = acc @ es \<and> length es = length raw \<and> (\<forall>j < length raw. rg_ordinal (es ! j) = rw_ordinal (raw ! j) \<and>
     rg_rows (es ! j) = rw_rows (raw ! j) \<and> rg_envelope (es ! j) = group_envelope (raw ! j))"
proof (induction raw arbitrary: k i acc v p)
  case (Cons g raw)
  obtain ids v1 where gi: "group_ids g v = (ids, v1)" by fastforce
  obtain k2 i2 v2 p2 where "admit_loop cancelled k2 i2 raw (acc @ [entry_of g ids]) v2 p2 = (Inr (gs, verdict), k')"
    using Cons.prems gi by (auto simp: Let_def split: if_splits)
  from Cons.IH [OF this] obtain es where es: "gs = acc @ entry_of g ids # es" "length es = length raw"
    "\<forall>j < length raw. rg_ordinal (es ! j) = rw_ordinal (raw ! j) \<and> rg_rows (es ! j) = rw_rows (raw ! j) \<and>
       rg_envelope (es ! j) = group_envelope (raw ! j)" by auto
  show ?case
    by (rule exI [of _ "entry_of g ids # es"]) (use es in \<open>auto simp: entry_of_def nth_Cons split: nat.splits\<close>)
qed simp

text \<open>The verdict is \<open>Ok\<close> only if the statistics of every group give an ordered, disjoint, ascending interval of
  identifiers and say that none is null.\<close>

lemma admit_loop_ok:
  "admit_loop cancelled k i raw acc (Inr ()) p = (Inr (gs, Inr u), k') \<Longrightarrow>
   \<exists>es. gs = acc @ es \<and> ascending p es \<and> length es = length raw \<and>
     (\<forall>j < length raw. rw_id_nulls (raw ! j) = Some 0 \<and>
        (\<exists>lo hi. rw_id (raw ! j) = Some (Some lo, Some hi) \<and> parse_u64 lo = Some (rg_id_lo (es ! j)) \<and>
           parse_u64 hi = Some (rg_id_hi (es ! j))))"
proof (induction raw arbitrary: k i acc p)
  case (Cons g raw)
  obtain ids v1 where gi: "group_ids g (Inr ()) = (ids, v1)" by fastforce
  define v2 where "v2 = (case rw_id_nulls g of Some n \<Rightarrow> if n > 0 then and_err v1 IdStatsAbsent else v1 | None \<Rightarrow> and_err v1 IdStatsAbsent)"
  define v3 where "v3 = (case p of Some q \<Rightarrow> if fst ids \<le> q then and_err v2 IdRangesOverlap else v2 | None \<Rightarrow> v2)"
  obtain k2 where r: "admit_loop cancelled k2 (i + 1) raw (acc @ [entry_of g ids]) v3 (Some (snd ids)) = (Inr (gs, Inr u), k')"
    using Cons.prems gi unfolding v3_def v2_def by (auto simp: Let_def split: if_splits)
  have v3: "v3 = Inr ()" using r admit_loop_Inl by (cases v3) fastforce+
  then have v2: "v2 = Inr ()" and p: "case p of Some q \<Rightarrow> q < fst ids | None \<Rightarrow> True"
    by (auto simp: v3_def split: option.splits if_splits)
  then have v1: "v1 = Inr ()" and n: "rw_id_nulls g = Some 0" by (auto simp: v2_def split: option.splits if_splits)
  note ids = group_ids_ok [OF gi [unfolded v1]]
  from Cons.IH [OF r [unfolded v3]] obtain es where es: "gs = acc @ entry_of g ids # es" "ascending (Some (snd ids)) es"
    "length es = length raw" "\<forall>j < length raw. rw_id_nulls (raw ! j) = Some 0 \<and>
        (\<exists>lo hi. rw_id (raw ! j) = Some (Some lo, Some hi) \<and> parse_u64 lo = Some (rg_id_lo (es ! j)) \<and>
           parse_u64 hi = Some (rg_id_hi (es ! j)))" by auto
  have "ascending p (entry_of g ids # es)" using es(2) p ids by (auto simp: entry_of_def split: option.splits)
  moreover have "\<forall>j < length (g # raw). rw_id_nulls ((g # raw) ! j) = Some 0 \<and>
        (\<exists>lo hi. rw_id ((g # raw) ! j) = Some (Some lo, Some hi) \<and> parse_u64 lo = Some (rg_id_lo ((entry_of g ids # es) ! j)) \<and>
           parse_u64 hi = Some (rg_id_hi ((entry_of g ids # es) ! j)))"
    using es(4) n ids by (auto simp: nth_Cons entry_of_def split: nat.splits)
  ultimately show ?case using es(1,3) by (intro exI [of _ "entry_of g ids # es"]) simp
qed simp

section \<open>Pruning is sound\<close>

text \<open>What the statistics of a group say of one of its rows: its identifier is within the interval, and each side of
  its box is within the parsed bound, up to one step of rounding.\<close>

definition bound_covers :: "nat \<Rightarrow> string option \<Rightarrow> f64 \<Rightarrow> bool" where
  "bound_covers k s x \<longleftrightarrow>
     (\<forall>t v. s = Some t \<longrightarrow> parse_f64 t = Some v \<longrightarrow> f64_is_finite v \<longrightarrow>
        (if k < 2 then f64_key v - 1 \<le> f64_key x else f64_key x \<le> f64_key v + 1))"

definition stats_cover :: "raw_group \<Rightarrow> u64 \<Rightarrow> f64x4 \<Rightarrow> bool" where
  "stats_cover g i b \<longleftrightarrow>
     (\<forall>lo hi l h. rw_id g = Some (Some lo, Some hi) \<longrightarrow> parse_u64 lo = Some l \<longrightarrow> parse_u64 hi = Some h \<longrightarrow> l \<le> i \<and> i \<le> h) \<and>
     (case b of (b0, b1, b2, b3) \<Rightarrow>
        list_all (\<lambda>(k, s, x). bound_covers k s x) (zip [0..<4] (zip (rw_bounds g) [b0, b1, b2, b3])))"

lemma bound_value_covers:
  assumes "bound_value k s = Some w" "bound_covers k s x"
  shows "\<not> f64_is_nan w" and "if k < 2 then f64_key w \<le> f64_key x else f64_key x \<le> f64_key w"
proof -
  obtain t v where v: "s = Some t" "parse_f64 t = Some v" "f64_is_finite v" "w = (if k < 2 then next_down v else next_up v)"
    using assms(1) by (auto simp: bound_value_def split: option.splits if_splits)
  show "\<not> f64_is_nan w" using v next_down_key(2) next_up_key(2) by simp
  show "if k < 2 then f64_key w \<le> f64_key x else f64_key x \<le> f64_key w"
    using assms(2) v next_down_key(1) [OF v(3)] next_up_key(1) [OF v(3)] by (auto simp: bound_covers_def)
qed

lemma envelope_keeps:
  assumes "stats_cover g i b" "bbox_hits b v" "rg_envelope e = group_envelope g"
  shows "rg_intersects e v"
proof (cases "group_envelope g")
  case None
  then show ?thesis using assms(3) by (simp add: rg_intersects_def)
next
  case (Some env)
  obtain b0 b1 b2 b3 where b: "b = (b0, b1, b2, b3)" by (cases b) auto
  obtain e0 e1 e2 e3 where env: "env = (e0, e1, e2, e3)" by (cases env) auto
  have m: "map (\<lambda>(k, s). bound_value k s) (enumerate 0 (rw_bounds g)) = [Some e0, Some e1, Some e2, Some e3]"
    using Some unfolding group_envelope_def env by (auto split: list.splits option.splits if_splits)
  from arg_cong [OF m, of length] have "length (rw_bounds g) = 4" by simp
  then obtain s0 s1 s2 s3 where s: "rw_bounds g = [s0, s1, s2, s3]" by (auto simp: numeral_eq_Suc length_Suc_conv)
  have w: "bound_value 0 s0 = Some e0" "bound_value 1 s1 = Some e1" "bound_value 2 s2 = Some e2" "bound_value 3 s3 = Some e3"
    using m unfolding s by (simp_all add: eval_nat_numeral)
  have "bound_covers 0 s0 b0" "bound_covers 1 s1 b1" "bound_covers 2 s2 b2" "bound_covers 3 s3 b3"
    using assms(1) unfolding stats_cover_def s b by (simp_all add: upt_rec eval_nat_numeral)
  note c = bound_value_covers [OF w(1) this(1)] bound_value_covers [OF w(2) this(2)]
    bound_value_covers [OF w(3) this(3)] bound_value_covers [OF w(4) this(4)]
  show ?thesis using c assms(2,3) Some unfolding b env by (auto simp: rg_intersects_def f64_le_def)
qed

lemma rg_build_cases:
  assumes "rg_build duckdb h tk cancelled millis path covering id_column key validity = (Inr ri, phases)"
  shows "\<exists>raw scanned k1 k2 k3. read_metadata duckdb path covering id_column cancelled 1 = (Inr (raw, scanned), k1) \<and>
    rg_admit cancelled k2 raw = (Inr (ri_groups ri, ri_admissible ri), k3)"
proof -
  obtain raw scanned k k2 k3 where
    e: "execute_guarded cancelled 0 (read_metadata duckdb path covering id_column cancelled) = (GOk (raw, scanned), k)" and
    r: "rg_admit cancelled k2 raw = (Inr (ri_groups ri, ri_admissible ri), k3)"
    using assms unfolding rg_build_def
    by (auto simp: into_result_def split: sum.splits prod.splits if_splits guarded.splits)
  from guarded_ok_uncancelled [OF e] obtain k1 where
    "read_metadata duckdb path covering id_column cancelled (0 + 1) = (Inr (raw, scanned), k1)" by blast
  then show ?thesis using r by auto
qed

lemma rg_admit_ok:
  assumes "rg_admit cancelled k raw = (Inr (gs, Inr u), k')"
  shows "ascending None gs" "length gs = length raw"
    and "j < length raw \<Longrightarrow> rg_envelope (gs ! j) = group_envelope (raw ! j) \<and>
      (\<exists>lo hi. rw_id (raw ! j) = Some (Some lo, Some hi) \<and> parse_u64 lo = Some (rg_id_lo (gs ! j)) \<and>
         parse_u64 hi = Some (rg_id_hi (gs ! j)))"
proof -
  have l: "admit_loop cancelled k 0 raw [] (Inr ()) None = (Inr (gs, Inr u), k')"
    using assms by (auto simp: rg_admit_def split: if_splits)
  show "ascending None gs" "length gs = length raw" using admit_loop_ok [OF l] by auto
  show "j < length raw \<Longrightarrow> rg_envelope (gs ! j) = group_envelope (raw ! j) \<and>
      (\<exists>lo hi. rw_id (raw ! j) = Some (Some lo, Some hi) \<and> parse_u64 lo = Some (rg_id_lo (gs ! j)) \<and>
         parse_u64 hi = Some (rg_id_hi (gs ! j)))"
    using admit_loop_ok [OF l] admit_loop_entries [OF l] by auto
qed

lemma ranges_for_spec:
  assumes "ranges_for ri v = Inr sel" "ri_admissible ri = Inr u \<Longrightarrow> ascending None (ri_groups ri)"
  shows "ranges_ok (rs_ranges sel) \<and>
    denoted (rs_ranges sel) = (\<Union>g \<in> {g \<in> set (ri_groups ri). rg_intersects g v}. group_denotes g) \<and>
    rs_kept sel = length (filter (\<lambda>g. rg_intersects g v) (ri_groups ri)) \<and> length (rs_ranges sel) \<le> rs_kept sel"
proof -
  obtain kept ranges where c: "choose_groups v (ri_groups ri) 0 [] = (kept, ranges)" by fastforce
  have a: "ascending None (ri_groups ri)" and s: "rs_kept sel = kept" "rs_ranges sel = ranges"
    using assms c by (auto simp: ranges_for_def bind_ok_def split: sum.splits if_splits)
  have "ranges_ok []" "last_hi [] = None" "denoted [] = {}" by (simp_all add: ranges_ok_def last_hi_def denoted_def)
  then show ?thesis using choose_groups_spec [OF _ _ c] a s by simp
qed

text \<open>C18: Pruning by row groups never loses a row. If the index was built from the metadata and gives ranges for a
  view, then every row of a group whose statistics are right about it (its identifier within the
  interval, its box within the parsed bounds up to one step of rounding) and whose box meets the view has its
  identifier in one of the ranges.\<close>

theorem pruning_never_loses_a_row:
  assumes "rg_build duckdb h tk cancelled millis path covering id_column key validity = (Inr ri, phases)"
    and "read_metadata duckdb path covering id_column cancelled 1 = (Inr (raw, scanned), k1)"
    and "ranges_for ri v = Inr sel"
    and "j < length raw" "stats_cover (raw ! j) i b" "bbox_hits b v"
  shows "i \<in> denoted (rs_ranges sel)"
proof -
  obtain k2 k3 where ad: "rg_admit cancelled k2 raw = (Inr (ri_groups ri, ri_admissible ri), k3)"
    using rg_build_cases [OF assms(1)] assms(2) by auto
  obtain u where u: "ri_admissible ri = Inr u"
    using assms(3) by (auto simp: ranges_for_def bind_ok_def split: sum.splits)
  note ok = rg_admit_ok [OF ad [unfolded u]]
  let ?g = "ri_groups ri ! j"
  have "rg_intersects ?g v" by (rule envelope_keeps [OF assms(5,6)]) (use ok(3) [OF assms(4)] in blast)
  moreover have "?g \<in> set (ri_groups ri)" using ok(2) assms(4) by simp
  moreover have "i \<in> group_denotes ?g" using ok(3) [OF assms(4)] assms(5) unfolding stats_cover_def group_denotes_def by auto
  ultimately show ?thesis using ranges_for_spec [OF assms(3)] ok(1) by auto
qed

text \<open>Two groups: the first has a box at the origin, the second does not say; a view away from the origin.\<close>

definition meta :: "int \<Rightarrow> string \<Rightarrow> string \<Rightarrow> string \<Rightarrow> string + meta_row" where
  "meta ordinal col lo hi =
     Inr \<lparr>mr_ordinal = Inr ordinal, mr_num_rows = Inr 5, mr_column = Inr col, mr_min = Some lo, mr_max = Some hi, mr_nulls = Some 0\<rparr>"

definition two_groups :: "(string + meta_row) list" where
  "two_groups =
     [meta 0 ''id'' ''1'' ''5'', meta 0 ''a'' ''0'' ''0'', meta 0 ''b'' ''0'' ''0'', meta 0 ''c'' ''0'' ''0'', meta 0 ''d'' ''0'' ''0'',
      meta 1 ''id'' ''6'' ''9'']"

definition abcd :: covering_bbox where
  "abcd = \<lparr>cv_xmin = [''a''], cv_ymin = [''b''], cv_xmax = [''c''], cv_ymax = [''d'']\<rparr>"

definition two_groups_raw :: "raw_group list" where
  "two_groups_raw =
     [\<lparr>rw_ordinal = 0, rw_rows = 5, rw_id = Some (Some ''1'', Some ''5''), rw_id_nulls = Some 0,
       rw_bounds = [Some ''0'', Some ''0'', Some ''0'', Some ''0'']\<rparr>,
      \<lparr>rw_ordinal = 1, rw_rows = 5, rw_id = Some (Some ''6'', Some ''9''), rw_id_nulls = Some 0,
       rw_bounds = [None, None, None, None]\<rparr>]"

definition two_groups_entries :: "row_group_entry list" where
  "two_groups_entries =
     [\<lparr>rg_ordinal = 0, rg_rows = 5, rg_id_lo = 1, rg_id_hi = 5,
       rg_envelope = Some (0x8000000000000001, 0x8000000000000001, 1, 1)\<rparr>,
      \<lparr>rg_ordinal = 1, rg_rows = 5, rg_id_lo = 6, rg_id_hi = 9, rg_envelope = None\<rparr>]"

lemma two_groups_read:
  "read_metadata (\<lambda>_. Inr (Inr two_groups)) ''p'' abcd ''id'' (\<lambda>_. False) 1 = (Inr (two_groups_raw, 6), 2)"
  by (simp add: read_metadata_def two_groups_def meta_def abcd_def metadata_path_def poll_entries_def
      cancel_poll_interval_def absorb_row_def bind_ok_def map_err_def max_indexed_row_groups_def absorb_id_def fresh_group_def
      two_groups_raw_def)

lemma two_groups_admit: "rg_admit (\<lambda>_. False) k two_groups_raw = (Inr (two_groups_entries, Inr ()), k + 1)"
proof -
  have p: "parse_u64 ''1'' = Some 1" "parse_u64 ''5'' = Some 5" "parse_u64 ''6'' = Some 6" "parse_u64 ''9'' = Some 9"
    by (simp_all add: parse_u64_def starts_with_def is_digit_def read_nat_def digit_val_def)
  have f: "parse_f64 ''0'' = Some 0" by code_simp
  have n: "next_down 0 = 0x8000000000000001" "next_up 0 = 1" "f64_is_finite 0"
    "\<not> f64_lt 1 0x8000000000000001" by code_simp+
  show ?thesis
    by (simp add: rg_admit_def two_groups_raw_def two_groups_entries_def group_ids_def p entry_of_def group_envelope_def
        bound_value_def f n Let_def cancel_poll_interval_def)
qed

theorem pruning_never_loses_a_row_witness:
  "\<exists>ri phases sel. rg_build (\<lambda>_. Inr (Inr two_groups)) 0 token_new (\<lambda>_. False) 0 ''p'' abcd ''id''
       (row_group_key_new ''h'' ''id'') None = (Inr ri, phases) \<and>
     ranges_for ri near_one = Inr sel \<and> 7 \<in> denoted (rs_ranges sel) \<and> rs_kept sel = 1"
proof -
  let ?ri = "\<lparr>ri_key = row_group_key_new ''h'' ''id'', ri_validity = None, ri_groups = two_groups_entries, ri_admissible = Inr (),
    ri_build_millis = 0, ri_total_groups = length two_groups_entries, ri_scanned_metadata_rows = 6\<rparr>"
  let ?sel = "\<lparr>rs_total = 2, rs_kept = 1, rs_ranges = [(6, 9)]\<rparr>"
  have b: "rg_build (\<lambda>_. Inr (Inr two_groups)) 0 token_new (\<lambda>_. False) 0 ''p'' abcd ''id'' (row_group_key_new ''h'' ''id'') None =
      (Inr ?ri, [PhRowGroupMetadata, PhRowGroupAdmissibility])"
    by (simp add: rg_build_def attach_def token_new_def execute_guarded_def two_groups_read [simplified] into_result_def
        two_groups_admit [simplified])
  have v: "view_usable near_one" "\<not> bbox_hits (0x8000000000000001, 0x8000000000000001, 1, 1) near_one"
    "bbox_hits (0x3FF0000000000000, 0x3FF0000000000000, 0x3FF0000000000000, 0x3FF0000000000000) near_one" by code_simp+
  have r: "ranges_for ?ri near_one = Inr ?sel"
    by (simp add: ranges_for_def bind_ok_def v two_groups_entries_def rg_intersects_def add_range_def del: bbox_hits.simps)
  have p: "parse_u64 ''6'' = Some 6" "parse_u64 ''9'' = Some 9"
    by (simp_all add: parse_u64_def starts_with_def is_digit_def read_nat_def digit_val_def)
  have c: "stats_cover (two_groups_raw ! 1) 7 (0x3FF0000000000000, 0x3FF0000000000000, 0x3FF0000000000000, 0x3FF0000000000000)"
    by (simp add: stats_cover_def two_groups_raw_def bound_covers_def p upt_rec)
  have "7 \<in> denoted (rs_ranges ?sel)"
    by (rule pruning_never_loses_a_row [OF b two_groups_read r _ c v(3)]) (simp add: two_groups_raw_def)
  then show ?thesis using b r by (intro exI conjI) auto
qed

end
