(* ===== verification/Data_Plane.thy ===== *)
theory Data_Plane
  imports Wire
begin

text \<open>
  \<open>protocol/data-plane/src/transport.rs\<close>, \<open>pump.rs\<close> and \<open>adapter_ws.rs\<close>: one stream of the data plane. The pump
  thread, the writer (\<open>drive\<close>), its receive task and the owner of the source act on a shared record; each
  atomic access or channel operation is one step, so that they interleave as they do in the program. What the
  source answers, what the peer sends and whether a send succeeds are the environment's choice. A branch of a
  \<open>biased\<close> select may be taken although an earlier one has just become ready, because the branches are polled one
  after another. Byte counters are \<open>int\<close>: an underflow of \<open>resident_bytes\<close> would show as a negative value.
\<close>

unbundle bit_operations_syntax

section \<open>Identifiers\<close>

definition opaque_alphabet :: string where
  "opaque_alphabet = ''0123456789abcdefghjkmnpqrstvwxyz''"

fun opaque_chars :: "nat \<Rightarrow> u64 \<Rightarrow> string" where
  "opaque_chars 0 v = []"
| "opaque_chars (Suc n) v =
     opaque_alphabet ! unat (v AND 31) # opaque_chars n (word_rotr 5 v XOR 0x9e3779b97f4a7c15)"

definition next_opaque :: "u64 \<Rightarrow> u64 \<Rightarrow> string \<Rightarrow> string" where
  "next_opaque n pid pre = pre @ ''_'' @ opaque_chars 26 (push_bit 20 n XOR word_rotl 17 pid)"

definition operation_id_new :: "u64 \<Rightarrow> u64 \<Rightarrow> string" where
  "operation_id_new n pid = next_opaque n pid ''op''"

definition stream_id_new :: "u64 \<Rightarrow> u64 \<Rightarrow> string" where
  "stream_id_new n pid = next_opaque n pid ''st''"

section \<open>The state of a stream\<close>

datatype terminal =
    Completed
  | Cancelled string
  | ProducerFailed string
  | TransportFailed string
  | DecodeFailed string

definition unknown_total :: nat where "unknown_total = 2 ^ 64 - 1"

definition total_or_unknown :: "nat option \<Rightarrow> nat" where
  "total_or_unknown t = (case t of Some n \<Rightarrow> n | None \<Rightarrow> unknown_total)"

definition term_code :: "terminal \<Rightarrow> byte" where
  "term_code t =
     (case t of Completed \<Rightarrow> 0 | Cancelled _ \<Rightarrow> 1 | ProducerFailed _ \<Rightarrow> 2 | TransportFailed _ \<Rightarrow> 3 | DecodeFailed _ \<Rightarrow> 4)"

definition term_detail :: "terminal \<Rightarrow> string" where
  "term_detail t =
     (case t of Completed \<Rightarrow> [] | Cancelled d \<Rightarrow> d | ProducerFailed d \<Rightarrow> d | TransportFailed d \<Rightarrow> d | DecodeFailed d \<Rightarrow> d)"

record stream_state =
  st_cancelled :: bool
  st_observed_at :: "nanos option"
  resident_bytes :: int
  peak_resident_bytes :: int
  batches_generated :: nat
  batches_after_cancel :: nat
  batches_discarded :: nat
  bytes_emitted :: nat
  rows_emitted :: nat

definition stream_state_new :: stream_state where
  "stream_state_new =
     \<lparr>st_cancelled = False, st_observed_at = None, resident_bytes = 0, peak_resident_bytes = 0,
      batches_generated = 0, batches_after_cancel = 0, batches_discarded = 0, bytes_emitted = 0, rows_emitted = 0\<rparr>"

definition observe_cancel :: "nanos \<Rightarrow> stream_state \<Rightarrow> stream_state" where
  "observe_cancel at st =
     (if st_cancelled st then st else st\<lparr>st_cancelled := True, st_observed_at := Some at\<rparr>)"

definition note_generated :: "nat \<Rightarrow> nat \<Rightarrow> stream_state \<Rightarrow> stream_state" where
  "note_generated n rows st =
     (let now = resident_bytes st + int n
      in st\<lparr>batches_generated := batches_generated st + 1,
            rows_emitted := rows_emitted st + rows,
            batches_after_cancel := batches_after_cancel st + (if st_cancelled st then 1 else 0),
            resident_bytes := now,
            peak_resident_bytes := max (peak_resident_bytes st) now\<rparr>)"

definition note_written :: "nat \<Rightarrow> stream_state \<Rightarrow> stream_state" where
  "note_written n st = st\<lparr>resident_bytes := resident_bytes st - int n, bytes_emitted := bytes_emitted st + n\<rparr>"

definition note_discarded :: "nat \<Rightarrow> stream_state \<Rightarrow> stream_state" where
  "note_discarded n st =
     st\<lparr>resident_bytes := resident_bytes st - int n, batches_discarded := batches_discarded st + 1\<rparr>"

section \<open>Checkpoints\<close>

type_synonym checkpoints = "(string \<times> bool) list"

definition checkpoint_begin :: "string \<Rightarrow> checkpoints \<Rightarrow> checkpoints" where
  "checkpoint_begin phase es = es @ [(phase, True)]"

definition checkpoint_end :: "string \<Rightarrow> checkpoints \<Rightarrow> checkpoints" where
  "checkpoint_end phase es = es @ [(phase, False)]"

definition phase_depth :: "checkpoints \<Rightarrow> string \<Rightarrow> int" where
  "phase_depth es p = sum_list (map (\<lambda>(q, b). if q = p then (if b then 1 else - 1) else 0) es)"

definition dangling :: "checkpoints \<Rightarrow> string option" where
  "dangling es = map_option fst (find (\<lambda>(p, b). b \<and> phase_depth es p > 0) (rev es))"

section \<open>Control frames\<close>

datatype control = Credit nat | CancelFrame

definition parse_control :: "byte list \<Rightarrow> control option" where
  "parse_control b =
     (if length b < frame_prefix_len then None
      else case payload_len b of
             None \<Rightarrow> None
           | Some len \<Rightarrow>
               (case get_slice b frame_prefix_len len of
                  None \<Rightarrow> None
                | Some payload \<Rightarrow>
                    (if b ! 0 = tag_credit then
                       map_option (\<lambda>n. Credit (unat (u32_from_be n))) (get_slice payload 0 4)
                     else if b ! 0 = tag_cancel then Some CancelFrame
                     else None)))"

datatype ws_message = WsBinary "byte list" | WsClose | WsOther | WsError string | WsEnd

section \<open>One stream\<close>

definition max_inflight_batches :: nat where "max_inflight_batches = 4"
definition max_frame_bytes :: nat where "max_frame_bytes = 16 * 1024 * 1024"

text \<open>\<open>Semaphore::MAX_PERMITS\<close> is \<open>usize::MAX >> 3\<close>.\<close>

definition max_permits :: nat where "max_permits = (2 ^ 64 - 1) div 8"

datatype pump_item = PBatch "byte list" | PFailed string

datatype source_answer = SEnd | SError string | SBatch "byte list" nat

datatype pump_pc = PumpTop | PumpReserving | PumpReady | PumpHolding "byte list" | PumpRaising | PumpEnded

text \<open>The receive task: reading, after \<open>observe_cancel\<close>, after \<open>source_cancel.cancel()\<close> (each with the terminal it is
  about to publish and whether it then stops), before \<open>credit.close()\<close>, over.\<close>

datatype reader_pc = RdReading | RdObserved terminal bool | RdPropagated terminal bool | RdClosing | RdDone

text \<open>The writer: before the OPEN frame, at the head of its loop, waiting for an item, holding a batch without
  credit, sending it, sending progress, discarding, waiting for the receive task's terminal, ending, over.\<close>

datatype writer_pc =
    WrOpen | WrTop | WrRecv | WrCredit "byte list" | WrSend "byte list" | WrProgress | WrDiscard | WrAwaitHalt
  | WrEnd terminal | WrDone terminal

datatype out_frame = FOpen | FBatch "byte list" | FProgress nat nat nat | FTerminal byte string

record stream_sys =
  ss_state :: stream_state
  ss_pump :: pump_pc
  ss_chan :: "pump_item list"
  ss_pump_failed :: bool
  ss_owner_cancelled :: bool
  ss_reader :: reader_pc
  ss_credit :: nat
  ss_credit_closed :: bool
  ss_halt :: "terminal option"
  ss_writer :: writer_pc
  ss_sent :: nat
  ss_total :: nat
  ss_frames :: "out_frame list"
  ss_granted :: nat
  ss_generated :: "byte list list"
  ss_source_done :: bool

text \<open>\<open>ss_granted\<close>, \<open>ss_generated\<close> and \<open>ss_source_done\<close> are history: all credit granted, all batches generated, and whether
  the source said it was finished.\<close>

definition stream_init :: "nat \<Rightarrow> stream_sys" where
  "stream_init tot =
     \<lparr>ss_state = stream_state_new, ss_pump = PumpTop, ss_chan = [], ss_pump_failed = False,
      ss_owner_cancelled = False, ss_reader = RdReading, ss_credit = 0, ss_credit_closed = False,
      ss_halt = None, ss_writer = WrOpen, ss_sent = 0, ss_total = tot, ss_frames = [], ss_granted = 0,
      ss_generated = [], ss_source_done = False\<rparr>"

subsection \<open>The pump\<close>

definition wire_error_display :: "wire_error \<Rightarrow> string" where
  "wire_error_display e =
     (case e of
        ShorterThanPrefix \<Rightarrow> ''frame shorter than its own prefix''
      | PayloadTooLong len \<Rightarrow> ''payload of '' @ show_nat len @ '' bytes does not fit a u32 length'')"

definition pump_fail :: "string \<Rightarrow> stream_sys \<Rightarrow> stream_sys" where
  "pump_fail e s = s\<lparr>ss_chan := ss_chan s @ [PFailed e], ss_pump := PumpRaising\<rparr>"

definition pump_produce :: "source_answer \<Rightarrow> stream_sys \<Rightarrow> stream_sys" where
  "pump_produce a s =
     (case a of
        SEnd \<Rightarrow> s\<lparr>ss_pump := PumpEnded, ss_source_done := True\<rparr>
      | SError e \<Rightarrow> pump_fail e s
      | SBatch body rows \<Rightarrow>
          (if length body > max_frame_bytes then
             pump_fail (''batch of '' @ show_nat (length body) @ '' bytes exceeds the declared frame ceiling '' @
                        show_nat max_frame_bytes) s
           else case patch_len (reserve_prefix tag_batch @ body) of
                  Inl e \<Rightarrow> pump_fail (wire_error_display e) s
                | Inr buf \<Rightarrow>
                    s\<lparr>ss_state := note_generated (length buf) rows (ss_state s), ss_pump := PumpHolding buf,
                      ss_generated := ss_generated s @ [buf]\<rparr>))"

subsection \<open>The receive task\<close>

definition reader_stop :: "terminal \<Rightarrow> bool \<Rightarrow> nanos \<Rightarrow> stream_sys \<Rightarrow> stream_sys" where
  "reader_stop t stops now s = s\<lparr>ss_state := observe_cancel now (ss_state s), ss_reader := RdObserved t stops\<rparr>"

definition reader_credit :: "nat \<Rightarrow> stream_sys \<Rightarrow> stream_sys" where
  "reader_credit n s =
     (let room = max_permits - ss_credit s
      in s\<lparr>ss_credit := ss_credit s + min n room, ss_granted := ss_granted s + n\<rparr>)"

definition reader_receive :: "nanos \<Rightarrow> ws_message \<Rightarrow> stream_sys \<Rightarrow> stream_sys" where
  "reader_receive now m s =
     (case m of
        WsBinary b \<Rightarrow>
          (case parse_control b of
             Some (Credit n) \<Rightarrow> reader_credit n s
           | Some CancelFrame \<Rightarrow> reader_stop (Cancelled ''control frame'') False now s
           | None \<Rightarrow> reader_stop (TransportFailed ''malformed control frame'') True now s)
      | WsClose \<Rightarrow> reader_stop (Cancelled ''peer closed'') True now s
      | WsEnd \<Rightarrow> reader_stop (Cancelled ''peer closed'') True now s
      | WsOther \<Rightarrow> s
      | WsError e \<Rightarrow> reader_stop (TransportFailed (''receive: '' @ e)) True now s)"

subsection \<open>The writer\<close>

definition reader_ended_without_reason :: terminal where
  "reader_ended_without_reason = TransportFailed ''the receive task ended without publishing a terminal outcome''"

text \<open>\<open>halt_rx.changed()\<close> is ready when a terminal was published or the receive task is over.\<close>

definition halt_ready :: "stream_sys \<Rightarrow> bool" where
  "halt_ready s \<longleftrightarrow> ss_halt s \<noteq> None \<or> ss_reader s = RdDone"

definition halt_terminal :: "stream_sys \<Rightarrow> terminal" where
  "halt_terminal s = (case ss_halt s of Some t \<Rightarrow> t | None \<Rightarrow> reader_ended_without_reason)"

definition writer_waits :: "writer_pc \<Rightarrow> bool" where
  "writer_waits w =
     (case w of WrRecv \<Rightarrow> True | WrCredit _ \<Rightarrow> True | WrSend _ \<Rightarrow> True | WrProgress \<Rightarrow> True | WrDiscard \<Rightarrow> True
      | WrAwaitHalt \<Rightarrow> True | _ \<Rightarrow> False)"

definition writer_receive :: "stream_sys \<Rightarrow> stream_sys" where
  "writer_receive s =
     (case ss_chan s of
        [] \<Rightarrow> s\<lparr>ss_writer := WrEnd Completed\<rparr>
      | PBatch b # rest \<Rightarrow> s\<lparr>ss_chan := rest, ss_writer := WrCredit b\<rparr>
      | PFailed e # rest \<Rightarrow> s\<lparr>ss_chan := rest, ss_writer := WrEnd (ProducerFailed e)\<rparr>)"

definition writer_discard_held :: "byte list \<Rightarrow> stream_sys \<Rightarrow> stream_sys" where
  "writer_discard_held b s = s\<lparr>ss_state := note_discarded (length b) (ss_state s), ss_writer := WrDiscard\<rparr>"

definition writer_owner_cancelled :: "byte list \<Rightarrow> stream_sys \<Rightarrow> stream_sys" where
  "writer_owner_cancelled b s =
     (if st_cancelled (ss_state s) then s\<lparr>ss_writer := WrAwaitHalt\<rparr> else writer_discard_held b s)"

definition writer_take_credit :: "byte list \<Rightarrow> stream_sys \<Rightarrow> stream_sys" where
  "writer_take_credit b s =
     s\<lparr>ss_credit := ss_credit s - 1, ss_state := note_written (length b) (ss_state s), ss_sent := ss_sent s + 1,
       ss_writer := WrSend b\<rparr>"

definition writer_send :: "bool \<Rightarrow> string \<Rightarrow> nanos \<Rightarrow> byte list \<Rightarrow> stream_sys \<Rightarrow> stream_sys" where
  "writer_send ok e now b s =
     (if ok then s\<lparr>ss_frames := ss_frames s @ [FBatch b], ss_writer := WrProgress\<rparr>
      else s\<lparr>ss_state := observe_cancel now (ss_state s), ss_writer := WrEnd (TransportFailed (''send: '' @ e))\<rparr>)"

definition progress_frame :: "stream_sys \<Rightarrow> out_frame" where
  "progress_frame s = FProgress (ss_sent s) (bytes_emitted (ss_state s)) (ss_total s)"

definition writer_progress :: "bool \<Rightarrow> nanos \<Rightarrow> stream_sys \<Rightarrow> stream_sys" where
  "writer_progress ok now s =
     (if ok then s\<lparr>ss_frames := ss_frames s @ [progress_frame s], ss_writer := WrTop\<rparr>
      else s\<lparr>ss_state := observe_cancel now (ss_state s), ss_writer := WrEnd (TransportFailed ''send progress'')\<rparr>)"

definition source_ended_silently :: string where
  "source_ended_silently =
     ''[P6 placeholder] the source ended without reporting a failure after its owner cancelled the stream; '' @
     ''batches already generated were discarded and not delivered''"

definition writer_discard :: "stream_sys \<Rightarrow> stream_sys" where
  "writer_discard s =
     (case ss_chan s of
        [] \<Rightarrow> s\<lparr>ss_writer := WrEnd (ProducerFailed source_ended_silently)\<rparr>
      | PBatch b # rest \<Rightarrow> s\<lparr>ss_chan := rest, ss_state := note_discarded (length b) (ss_state s)\<rparr>
      | PFailed e # rest \<Rightarrow> s\<lparr>ss_chan := rest, ss_writer := WrEnd (ProducerFailed e)\<rparr>)"

text \<open>A send that the halt signal interrupts may have reached the transport or not.\<close>

definition interrupted_frames :: "bool \<Rightarrow> stream_sys \<Rightarrow> out_frame list" where
  "interrupted_frames out s =
     (case ss_writer s of
        WrSend b \<Rightarrow> if out then [FBatch b] else []
      | WrProgress \<Rightarrow> if out then [progress_frame s] else []
      | _ \<Rightarrow> [])"

definition writer_halt :: "bool \<Rightarrow> stream_sys \<Rightarrow> stream_sys" where
  "writer_halt out s = s\<lparr>ss_frames := ss_frames s @ interrupted_frames out s, ss_writer := WrEnd (halt_terminal s)\<rparr>"

definition writer_finish :: "bool \<Rightarrow> terminal \<Rightarrow> stream_sys \<Rightarrow> stream_sys" where
  "writer_finish ok t s =
     s\<lparr>ss_frames := ss_frames s @ (if ok then [FTerminal (term_code t) (term_detail t)] else []), ss_writer := WrDone t\<rparr>"

subsection \<open>Interleaving\<close>

inductive stream_step :: "stream_sys \<Rightarrow> stream_sys \<Rightarrow> bool" where
  pump_stop: "ss_pump s = PumpTop \<Longrightarrow> st_cancelled (ss_state s) \<Longrightarrow> stream_step s (s\<lparr>ss_pump := PumpEnded\<rparr>)"
| pump_go: "ss_pump s = PumpTop \<Longrightarrow> \<not> st_cancelled (ss_state s) \<Longrightarrow> stream_step s (s\<lparr>ss_pump := PumpReserving\<rparr>)"
| pump_permit: "ss_pump s = PumpReserving \<Longrightarrow> length (ss_chan s) < max_inflight_batches \<Longrightarrow>
    stream_step s (s\<lparr>ss_pump := PumpReady\<rparr>)"
| pump_orphan: "ss_pump s = PumpReserving \<Longrightarrow> ss_writer s = WrDone t \<Longrightarrow> stream_step s (s\<lparr>ss_pump := PumpEnded\<rparr>)"
| pump_answer: "ss_pump s = PumpReady \<Longrightarrow> stream_step s (pump_produce a s)"
| pump_send: "ss_pump s = PumpHolding b \<Longrightarrow>
    stream_step s (s\<lparr>ss_chan := ss_chan s @ [PBatch b], ss_pump := PumpTop\<rparr>)"
| pump_raise: "ss_pump s = PumpRaising \<Longrightarrow> stream_step s (s\<lparr>ss_pump_failed := True, ss_pump := PumpEnded\<rparr>)"
| owner: "stream_step s (s\<lparr>ss_owner_cancelled := True\<rparr>)"
| receive: "ss_reader s = RdReading \<Longrightarrow> ss_writer s \<noteq> WrOpen \<Longrightarrow> stream_step s (reader_receive now m s)"
| propagate: "ss_reader s = RdObserved t stops \<Longrightarrow> stream_step s (s\<lparr>ss_reader := RdPropagated t stops\<rparr>)"
| publish: "ss_reader s = RdPropagated t stops \<Longrightarrow>
    stream_step s (s\<lparr>ss_halt := Some t, ss_reader := (if stops then RdClosing else RdReading)\<rparr>)"
| close_credit: "ss_reader s = RdClosing \<Longrightarrow> stream_step s (s\<lparr>ss_credit_closed := True, ss_reader := RdDone\<rparr>)"
| write_open: "ss_writer s = WrOpen \<Longrightarrow> stream_step s (s\<lparr>ss_frames := ss_frames s @ [FOpen], ss_writer := WrTop\<rparr>)"
| write_open_failed: "ss_writer s = WrOpen \<Longrightarrow>
    stream_step s (s\<lparr>ss_writer := WrDone (TransportFailed ''peer gone before the stream opened'')\<rparr>)"
| write_top: "ss_writer s = WrTop \<Longrightarrow>
    stream_step s (s\<lparr>ss_writer := (case ss_halt s of Some t \<Rightarrow> WrEnd t | None \<Rightarrow> WrRecv)\<rparr>)"
| write_halt: "writer_waits (ss_writer s) \<Longrightarrow> halt_ready s \<Longrightarrow> stream_step s (writer_halt out s)"
| write_recv: "ss_writer s = WrRecv \<Longrightarrow> ss_chan s \<noteq> [] \<or> ss_pump s = PumpEnded \<Longrightarrow> stream_step s (writer_receive s)"
| write_pump_failed: "ss_writer s = WrCredit b \<Longrightarrow> ss_pump_failed s \<Longrightarrow> stream_step s (writer_discard_held b s)"
| write_owner: "ss_writer s = WrCredit b \<Longrightarrow> ss_owner_cancelled s \<Longrightarrow> stream_step s (writer_owner_cancelled b s)"
| write_credit: "ss_writer s = WrCredit b \<Longrightarrow> \<not> ss_credit_closed s \<Longrightarrow> 0 < ss_credit s \<Longrightarrow>
    stream_step s (writer_take_credit b s)"
| write_closed: "ss_writer s = WrCredit b \<Longrightarrow> ss_credit_closed s \<Longrightarrow>
    stream_step s (s\<lparr>ss_writer := WrEnd (case ss_halt s of Some t \<Rightarrow> t | None \<Rightarrow> Cancelled ''peer closed'')\<rparr>)"
| write_send: "ss_writer s = WrSend b \<Longrightarrow> stream_step s (writer_send ok e now b s)"
| write_progress: "ss_writer s = WrProgress \<Longrightarrow> stream_step s (writer_progress ok now s)"
| write_discard: "ss_writer s = WrDiscard \<Longrightarrow> ss_chan s \<noteq> [] \<or> ss_pump s = PumpEnded \<Longrightarrow> stream_step s (writer_discard s)"
| write_finish: "ss_writer s = WrEnd t \<Longrightarrow> stream_step s (writer_finish ok t s)"

inductive stream_reachable :: "stream_sys \<Rightarrow> bool" where
  init: "stream_reachable (stream_init tot)"
| step: "stream_reachable s \<Longrightarrow> stream_step s s' \<Longrightarrow> stream_reachable s'"

end
