(* ===== verification/Data_Plane_Proofs.thy ===== *)
theory Data_Plane_Proofs
  imports Data_Plane
begin

text \<open>
  What a stream of the data plane guarantees in every interleaving of its threads: order and completeness of
  the batches, credit, memory, the shape of what the peer receives, and where a cancelled stream may
  still report completion.
\<close>

lemmas writer_defs = writer_receive_def writer_discard_held_def writer_owner_cancelled_def writer_take_credit_def
  writer_send_def writer_progress_def writer_discard_def writer_halt_def writer_finish_def interrupted_frames_def
lemmas reader_defs = reader_receive_def reader_stop_def reader_credit_def
lemmas pump_defs = pump_produce_def pump_fail_def
lemmas note_defs = note_generated_def note_written_def note_discarded_def observe_cancel_def
lemmas stream_splits = option.splits control.splits ws_message.splits list.splits pump_item.splits source_answer.splits
  sum.splits writer_pc.splits if_splits

section \<open>Order and completeness\<close>

fun batches_of :: "out_frame list \<Rightarrow> byte list list" where
  "batches_of [] = []"
| "batches_of (FBatch b # fs) = b # batches_of fs"
| "batches_of (_ # fs) = batches_of fs"

fun chan_batches :: "pump_item list \<Rightarrow> byte list list" where
  "chan_batches [] = []"
| "chan_batches (PBatch b # is) = b # chan_batches is"
| "chan_batches (PFailed e # is) = chan_batches is"

lemma batches_of_append [simp]: "batches_of (xs @ ys) = batches_of xs @ batches_of ys"
  by (induction xs rule: batches_of.induct) simp_all

lemma chan_batches_append [simp]: "chan_batches (xs @ ys) = chan_batches xs @ chan_batches ys"
  by (induction xs rule: chan_batches.induct) simp_all

definition pump_held :: "pump_pc \<Rightarrow> byte list list" where
  "pump_held p = (case p of PumpHolding b \<Rightarrow> [b] | _ \<Rightarrow> [])"

definition writer_unsent :: "writer_pc \<Rightarrow> byte list list" where
  "writer_unsent w = (case w of WrCredit b \<Rightarrow> [b] | WrSend b \<Rightarrow> [b] | _ \<Rightarrow> [])"

definition delivering :: "writer_pc \<Rightarrow> bool" where
  "delivering w =
     (case w of WrOpen \<Rightarrow> True | WrTop \<Rightarrow> True | WrRecv \<Rightarrow> True | WrCredit _ \<Rightarrow> True | WrSend _ \<Rightarrow> True | WrProgress \<Rightarrow> True
      | _ \<Rightarrow> False)"

lemmas pc_defs = pump_held_def writer_unsent_def delivering_def

definition order_inv :: "stream_sys \<Rightarrow> bool" where
  "order_inv s \<longleftrightarrow>
     (if delivering (ss_writer s)
      then ss_generated s = batches_of (ss_frames s) @ writer_unsent (ss_writer s) @ chan_batches (ss_chan s) @ pump_held (ss_pump s)
      else \<exists>rest. ss_generated s = batches_of (ss_frames s) @ rest)"

lemma order_inv_step: "stream_step s s' \<Longrightarrow> order_inv s \<Longrightarrow> order_inv s'"
proof (induction rule: stream_step.induct)
  case (write_halt s out)
  then show ?case by (auto simp: order_inv_def pc_defs writer_halt_def interrupted_frames_def progress_frame_def split: writer_pc.splits if_splits)
qed (auto simp: order_inv_def pc_defs writer_defs reader_defs pump_defs progress_frame_def Let_def split: stream_splits)

definition halt_inv :: "stream_sys \<Rightarrow> bool" where
  "halt_inv s \<longleftrightarrow> ss_halt s \<noteq> Some Completed \<and> (\<forall>stops. ss_reader s \<noteq> RdObserved Completed stops \<and> ss_reader s \<noteq> RdPropagated Completed stops)"

lemma halt_inv_step: "stream_step s s' \<Longrightarrow> halt_inv s \<Longrightarrow> halt_inv s'"
  by (induction rule: stream_step.induct)
    (auto simp: halt_inv_def writer_defs reader_defs pump_defs Let_def split: stream_splits)

text \<open>A pump that ended without a cancel and without the end of the source has left its failure in the channel.\<close>

definition end_inv :: "stream_sys \<Rightarrow> bool" where
  "end_inv s \<longleftrightarrow>
     (delivering (ss_writer s) \<and> (ss_pump s = PumpEnded \<or> ss_pump s = PumpRaising) \<and> \<not> st_cancelled (ss_state s) \<and> \<not> ss_source_done s
        \<longrightarrow> (\<exists>e. PFailed e \<in> set (ss_chan s))) \<and>
     (ss_source_done s \<longrightarrow> ss_pump s = PumpEnded) \<and>
     (ss_writer s = WrEnd Completed \<or> ss_writer s = WrDone Completed \<longrightarrow>
        ss_pump s = PumpEnded \<and> ss_generated s = batches_of (ss_frames s) \<and> (st_cancelled (ss_state s) \<or> ss_source_done s))"

lemma end_inv_step:
  assumes "stream_step s s'" "end_inv s" "order_inv s" "halt_inv s"
  shows "end_inv s'"
  using assms
proof (induction rule: stream_step.induct)
  case (pump_answer s a)
  then show ?case by (cases a) (auto simp: end_inv_def pump_defs delivering_def split: writer_pc.splits sum.splits)
next
  case (receive s now m)
  then show ?case by (auto simp: end_inv_def reader_defs note_defs delivering_def Let_def split: ws_message.splits control.splits option.splits)
next
  case (write_recv s)
  then show ?case
    by (auto simp: end_inv_def order_inv_def halt_inv_def pc_defs writer_receive_def split: list.splits pump_item.splits pump_pc.splits)
next
  case (write_halt s out)
  then show ?case
    by (auto simp: end_inv_def halt_inv_def delivering_def writer_halt_def halt_terminal_def reader_ended_without_reason_def split: option.splits)
qed (auto simp: end_inv_def halt_inv_def delivering_def writer_defs note_defs progress_frame_def split: stream_splits)

section \<open>Credit\<close>

definition credit_inv :: "stream_sys \<Rightarrow> bool" where
  "credit_inv s \<longleftrightarrow>
     ss_sent s + ss_credit s \<le> ss_granted s \<and> ss_credit s \<le> max_permits \<and>
     length (batches_of (ss_frames s)) + (case ss_writer s of WrSend _ \<Rightarrow> 1 | _ \<Rightarrow> 0) \<le> ss_sent s"

lemma credit_inv_step: "stream_step s s' \<Longrightarrow> credit_inv s \<Longrightarrow> credit_inv s'"
  by (induction rule: stream_step.induct)
    (auto simp: credit_inv_def writer_defs reader_defs pump_defs progress_frame_def Let_def split: stream_splits)

section \<open>Memory\<close>

definition frame_bound :: nat where
  "frame_bound = max_frame_bytes + frame_prefix_len"

definition held_bytes :: "stream_sys \<Rightarrow> nat" where
  "held_bytes s = sum_list (map length (chan_batches (ss_chan s))) + sum_list (map length (pump_held (ss_pump s)))"

definition reserved :: "pump_pc \<Rightarrow> nat" where
  "reserved p = (case p of PumpReady \<Rightarrow> 1 | PumpHolding _ \<Rightarrow> 1 | _ \<Rightarrow> 0)"

definition memory_inv :: "stream_sys \<Rightarrow> bool" where
  "memory_inv s \<longleftrightarrow>
     (\<exists>x. resident_bytes (ss_state s) = int (held_bytes s) + int x \<and> x \<le> frame_bound \<and>
        (case ss_writer s of WrCredit b \<Rightarrow> x = length b | WrEnd _ \<Rightarrow> True | WrDone _ \<Rightarrow> True | WrAwaitHalt \<Rightarrow> True | _ \<Rightarrow> x = 0)) \<and>
     length (ss_chan s) + reserved (ss_pump s) \<le> max_inflight_batches \<and>
     (\<forall>b \<in> set (chan_batches (ss_chan s)) \<union> set (pump_held (ss_pump s)). length b \<le> frame_bound)"

lemma patched_length: "patch_len (reserve_prefix t @ body) = Inr buf \<Longrightarrow> length buf = frame_prefix_len + length body"
  by (auto simp: patch_len_def reserve_prefix_def frame_prefix_len_def u32_to_be_def be_digits_def Let_def split: if_splits)

lemma pump_produce_cases:
  obtains (ended) "pump_produce a s = s\<lparr>ss_pump := PumpEnded, ss_source_done := True\<rparr>"
  | (failed) e where "pump_produce a s = pump_fail e s"
  | (batch) buf rows where "length buf \<le> frame_bound"
      "pump_produce a s = s\<lparr>ss_state := note_generated (length buf) rows (ss_state s), ss_pump := PumpHolding buf,
         ss_generated := ss_generated s @ [buf]\<rparr>"
proof (cases a)
  case (SBatch body rows)
  show ?thesis
  proof (cases "max_frame_bytes < length body")
    case True
    then show ?thesis using SBatch by (intro that(2)) (simp add: pump_produce_def)
  next
    case False
    show ?thesis
    proof (cases "patch_len (reserve_prefix tag_batch @ body)")
      case (Inl e)
      then show ?thesis using SBatch False by (intro that(2)) (simp add: pump_produce_def)
    next
      case (Inr buf)
      then show ?thesis using SBatch False patched_length [OF Inr]
        by (intro that(3) [of buf rows]) (simp_all add: pump_produce_def frame_bound_def)
    qed
  qed
qed (use that(1,2) in \<open>simp_all add: pump_produce_def\<close>)

lemma memory_inv_step: "stream_step s s' \<Longrightarrow> memory_inv s \<Longrightarrow> memory_inv s'"
proof (induction rule: stream_step.induct)
  case (pump_answer s a)
  show ?case
  proof (cases rule: pump_produce_cases [of a s])
    case ended
    then show ?thesis using pump_answer by (auto simp: memory_inv_def held_bytes_def pump_held_def reserved_def)
  next
    case (failed e)
    then show ?thesis using pump_answer by (auto simp: memory_inv_def pump_fail_def held_bytes_def pump_held_def reserved_def)
  next
    case (batch buf rows)
    obtain x where x: "resident_bytes (ss_state s) = int (held_bytes s) + int x" "x \<le> frame_bound"
      "case ss_writer s of WrCredit b \<Rightarrow> x = length b | WrEnd _ \<Rightarrow> True | WrDone _ \<Rightarrow> True | WrAwaitHalt \<Rightarrow> True | _ \<Rightarrow> x = 0"
      using pump_answer(2) by (auto simp: memory_inv_def)
    show ?thesis unfolding memory_inv_def
    proof (intro conjI exI [of _ x])
      show "resident_bytes (ss_state (pump_produce a s)) = int (held_bytes (pump_produce a s)) + int x"
        using x(1) batch(2) pump_answer(1) by (simp add: note_generated_def held_bytes_def pump_held_def Let_def)
    qed (use x(2,3) batch pump_answer in \<open>auto simp: memory_inv_def pump_held_def reserved_def\<close>)
  qed
next
  case (receive s now m)
  then show ?case
    by (auto simp: memory_inv_def reader_defs observe_cancel_def held_bytes_def Let_def split: ws_message.splits control.splits option.splits)
next
  case (write_halt s out)
  then show ?case
    by (auto simp: memory_inv_def writer_halt_def held_bytes_def)
next
  case (write_owner s b)
  then show ?case by (auto simp: memory_inv_def writer_owner_cancelled_def writer_discard_held_def note_discarded_def held_bytes_def)
next
  case (write_recv s)
  then show ?case by (auto simp: memory_inv_def writer_receive_def held_bytes_def split: list.splits pump_item.splits)
next
  case (write_discard s)
  then show ?case by (auto simp: memory_inv_def writer_discard_def note_discarded_def held_bytes_def split: list.splits pump_item.splits)
next
  case (write_top s)
  then show ?case by (auto simp: memory_inv_def held_bytes_def split: option.splits)
next
  case (pump_permit s)
  then show ?case by (auto simp: memory_inv_def held_bytes_def pump_held_def reserved_def)
next
  case (pump_send s b)
  then show ?case by (auto simp: memory_inv_def held_bytes_def pump_held_def reserved_def)
qed (auto simp: memory_inv_def held_bytes_def pump_held_def reserved_def writer_defs note_written_def note_discarded_def
    observe_cancel_def split: pump_pc.splits if_splits)

lemma sum_lengths_bound: "\<forall>b \<in> set bs. length b \<le> F \<Longrightarrow> sum_list (map length bs) \<le> length bs * F"
  by (induction bs) auto

lemma length_chan_batches: "length (chan_batches is) \<le> length is"
  by (induction "is" rule: chan_batches.induct) auto

lemma held_bytes_bound:
  assumes "memory_inv s"
  shows "held_bytes s \<le> max_inflight_batches * frame_bound"
proof -
  let ?bs = "chan_batches (ss_chan s) @ pump_held (ss_pump s)"
  have "length (pump_held (ss_pump s)) \<le> reserved (ss_pump s)" by (simp add: pump_held_def reserved_def split: pump_pc.splits)
  then have l: "length ?bs \<le> max_inflight_batches" using assms length_chan_batches [of "ss_chan s"] by (simp add: memory_inv_def)
  have "held_bytes s = sum_list (map length ?bs)" by (simp add: held_bytes_def)
  also have "\<dots> \<le> length ?bs * frame_bound" by (rule sum_lengths_bound) (use assms in \<open>auto simp: memory_inv_def\<close>)
  also have "\<dots> \<le> max_inflight_batches * frame_bound" using l by (rule mult_right_mono) simp
  finally show ?thesis .
qed

section \<open>After a cancel\<close>

definition late_inv :: "stream_sys \<Rightarrow> bool" where
  "late_inv s \<longleftrightarrow>
     batches_after_cancel (ss_state s) \<le> 1 \<and>
     (\<not> st_cancelled (ss_state s) \<or> ss_pump s = PumpReserving \<or> ss_pump s = PumpReady \<longrightarrow> batches_after_cancel (ss_state s) = 0)"

lemma late_inv_step: "stream_step s s' \<Longrightarrow> late_inv s \<Longrightarrow> late_inv s'"
  by (induction rule: stream_step.induct)
    (auto simp: late_inv_def writer_defs reader_defs pump_defs note_defs Let_def split: stream_splits)

section \<open>What the peer receives\<close>

text \<open>OPEN, then batches each followed by its progress, then one terminal and nothing after it.\<close>

datatype wire_phase = AwaitOpen | AwaitBatch | AwaitProgress | Finished | Garbled

fun wire_next :: "wire_phase \<Rightarrow> out_frame \<Rightarrow> wire_phase" where
  "wire_next AwaitOpen FOpen = AwaitBatch"
| "wire_next AwaitBatch (FBatch b) = AwaitProgress"
| "wire_next AwaitProgress (FProgress n k t) = AwaitBatch"
| "wire_next AwaitBatch (FTerminal c d) = Finished"
| "wire_next AwaitProgress (FTerminal c d) = Finished"
| "wire_next _ _ = Garbled"

definition wire_run :: "out_frame list \<Rightarrow> wire_phase" where
  "wire_run fs = foldl wire_next AwaitOpen fs"

lemma wire_run_simps [simp]: "wire_run [] = AwaitOpen" "wire_run (fs @ [f]) = wire_next (wire_run fs) f"
  by (simp_all add: wire_run_def)

definition wire_inv :: "stream_sys \<Rightarrow> bool" where
  "wire_inv s \<longleftrightarrow>
     wire_run (ss_frames s) \<in>
       (case ss_writer s of
          WrOpen \<Rightarrow> {AwaitOpen} | WrProgress \<Rightarrow> {AwaitProgress} | WrEnd _ \<Rightarrow> {AwaitBatch, AwaitProgress}
        | WrDone _ \<Rightarrow> {AwaitOpen, AwaitBatch, AwaitProgress, Finished} | _ \<Rightarrow> {AwaitBatch})"

lemma wire_inv_step: "stream_step s s' \<Longrightarrow> wire_inv s \<Longrightarrow> wire_inv s'"
proof (induction rule: stream_step.induct)
  case (write_halt s out)
  then show ?case by (auto simp: wire_inv_def writer_halt_def interrupted_frames_def writer_waits_def progress_frame_def split: writer_pc.splits)
qed (auto simp: wire_inv_def writer_defs reader_defs pump_defs progress_frame_def Let_def split: option.splits control.splits
    ws_message.splits list.splits pump_item.splits source_answer.splits sum.splits if_splits)

section \<open>Theorems\<close>

lemma reachable_invs:
  "stream_reachable s \<Longrightarrow> order_inv s \<and> halt_inv s \<and> end_inv s \<and> credit_inv s \<and> memory_inv s \<and> late_inv s \<and> wire_inv s"
proof (induction rule: stream_reachable.induct)
  case (init tot)
  show ?case
    by (simp add: order_inv_def halt_inv_def end_inv_def credit_inv_def memory_inv_def late_inv_def wire_inv_def stream_init_def
        stream_state_new_def pc_defs held_bytes_def reserved_def)
next
  case (step s s')
  then show ?case
    using order_inv_step halt_inv_step end_inv_step credit_inv_step memory_inv_step late_inv_step wire_inv_step by blast
qed

text \<open>C10: In every interleaving of the pump, the writer, the receive task and the owner of the source, the batches on the
  wire are the first ones generated, in order, each against a credit the consumer granted; the peer sees OPEN, then
  batches each followed by its progress, then at most one terminal and nothing after it; and a stream that reports completion without having been cancelled has sent every batch of a source that said it was finished.\<close>

theorem stream_delivers_in_order:
  assumes "stream_reachable s"
  shows "(\<exists>rest. ss_generated s = batches_of (ss_frames s) @ rest) \<and> wire_run (ss_frames s) \<noteq> Garbled \<and>
    length (batches_of (ss_frames s)) \<le> ss_granted s \<and>
    (ss_writer s = WrDone Completed \<and> \<not> st_cancelled (ss_state s) \<longrightarrow>
       ss_source_done s \<and> batches_of (ss_frames s) = ss_generated s)"
proof -
  have i: "order_inv s" "end_inv s" "credit_inv s" "wire_inv s" using reachable_invs [OF assms] by auto
  have w: "wire_run (ss_frames s) \<noteq> Garbled" using i(4) by (auto simp: wire_inv_def split: writer_pc.splits)
  have "\<exists>rest. ss_generated s = batches_of (ss_frames s) @ rest" using i(1) by (auto simp: order_inv_def split: if_splits)
  moreover have "length (batches_of (ss_frames s)) \<le> ss_granted s" using i(3) by (simp add: credit_inv_def)
  ultimately show ?thesis using i(2) w by (auto simp: end_inv_def)
qed

text \<open>A run that delivers one batch and completes.\<close>

definition one_batch :: stream_sys where
  "one_batch =
     writer_finish True Completed
      ((stream_init 1)
        \<lparr>ss_state := note_written 9 (note_generated 9 1 stream_state_new), ss_pump := PumpEnded,
         ss_credit := 2, ss_granted := 3, ss_sent := 1, ss_source_done := True, ss_writer := WrEnd Completed,
         ss_generated := [[0x10, 0, 0, 0, 0, 0, 0, 1, 42]],
         ss_frames := [FOpen, FBatch [0x10, 0, 0, 0, 0, 0, 0, 1, 42], FProgress 1 9 1]\<rparr>)"

lemma patched_42: "patch_len (reserve_prefix tag_batch @ [42]) = Inr [0x10, 0, 0, 0, 0, 0, 0, 1, 42]"
proof -
  have "u32_to_be 1 = [0, 0, 0, 1]" by code_simp
  then show ?thesis by (simp add: patch_len_def reserve_prefix_def frame_prefix_len_def tag_batch_def)
qed

lemma credit_3: "parse_control [1, 0, 0, 0, 0, 0, 0, 4, 0, 0, 0, 3] = Some (Credit 3)"
  by code_simp

lemma one_batch_reachable: "stream_reachable one_batch"
proof -
  let ?b = "[0x10, 0, 0, 0, 0, 0, 0, 1, 42] :: byte list"
  let ?st1 = "note_generated (length ?b) 1 stream_state_new"
  let ?s0 = "stream_init 1"
  let ?s1 = "?s0\<lparr>ss_frames := [FOpen], ss_writer := WrTop\<rparr>"
  let ?s2 = "?s1\<lparr>ss_writer := WrRecv\<rparr>"
  let ?s3 = "?s2\<lparr>ss_credit := 3, ss_granted := 3\<rparr>"
  let ?s4 = "?s3\<lparr>ss_pump := PumpReserving\<rparr>"
  let ?s5 = "?s4\<lparr>ss_pump := PumpReady\<rparr>"
  let ?s6 = "?s5\<lparr>ss_state := ?st1, ss_pump := PumpHolding ?b, ss_generated := [?b]\<rparr>"
  let ?s7 = "?s6\<lparr>ss_chan := [PBatch ?b], ss_pump := PumpTop\<rparr>"
  let ?s8 = "?s7\<lparr>ss_chan := [], ss_writer := WrCredit ?b\<rparr>"
  let ?s9 = "writer_take_credit ?b ?s8"
  let ?s10 = "writer_send True [] 0 ?b ?s9"
  let ?s11 = "writer_progress True 0 ?s10"
  let ?s12 = "?s11\<lparr>ss_pump := PumpReserving\<rparr>"
  let ?s13 = "?s12\<lparr>ss_pump := PumpReady\<rparr>"
  let ?s14 = "pump_produce SEnd ?s13"
  let ?s15 = "?s14\<lparr>ss_writer := WrRecv\<rparr>"
  let ?s16 = "writer_receive ?s15"
  note defs = stream_init_def stream_state_new_def
  note step = stream_reachable.step
  have "stream_reachable ?s1" by (rule step [OF stream_reachable.init [of 1]]) (use stream_step.write_open [of ?s0] in \<open>simp add: defs\<close>)
  from step [OF this stream_step.write_top] have "stream_reachable ?s2" by (simp add: defs)
  from step [OF this stream_step.receive [of _ 0 "WsBinary [1, 0, 0, 0, 0, 0, 0, 4, 0, 0, 0, 3]"]] have "stream_reachable ?s3"
    by (simp add: defs reader_receive_def credit_3 reader_credit_def max_permits_def)
  from step [OF this stream_step.pump_go] have "stream_reachable ?s4" by (simp add: defs)
  from step [OF this stream_step.pump_permit] have "stream_reachable ?s5" by (simp add: defs max_inflight_batches_def)
  from step [OF this stream_step.pump_answer [of _ "SBatch [42] 1"]] have "stream_reachable ?s6"
    using patched_42 by (simp add: defs pump_produce_def max_frame_bytes_def)
  from step [OF this stream_step.pump_send [of _ ?b]] have "stream_reachable ?s7" by (simp add: defs)
  from step [OF this stream_step.write_recv] have "stream_reachable ?s8" by (simp add: defs writer_receive_def)
  from step [OF this stream_step.write_credit [of _ ?b]] have "stream_reachable ?s9" by (simp add: defs)
  from step [OF this stream_step.write_send [of _ ?b True "[]" 0]] have "stream_reachable ?s10" by (simp add: writer_take_credit_def)
  from step [OF this stream_step.write_progress [of _ True 0]] have "stream_reachable ?s11" by (simp add: writer_send_def)
  from step [OF this stream_step.pump_go] have "stream_reachable ?s12"
    by (simp add: defs writer_progress_def writer_send_def writer_take_credit_def note_written_def note_generated_def Let_def)
  from step [OF this stream_step.pump_permit] have "stream_reachable ?s13"
    by (simp add: defs writer_progress_def writer_send_def writer_take_credit_def max_inflight_batches_def)
  from step [OF this stream_step.pump_answer [of _ SEnd]] have "stream_reachable ?s14" by simp
  from step [OF this stream_step.write_top] have "stream_reachable ?s15"
    by (simp add: defs pump_produce_def writer_progress_def writer_send_def writer_take_credit_def)
  from step [OF this stream_step.write_recv] have "stream_reachable ?s16" by (simp add: pump_produce_def)
  from step [OF this stream_step.write_finish [of _ Completed True]] show ?thesis
    by (simp add: one_batch_def defs writer_receive_def pump_produce_def writer_progress_def writer_send_def writer_take_credit_def
        progress_frame_def note_written_def note_generated_def Let_def eval_nat_numeral)
qed

theorem stream_delivers_in_order_witness:
  "ss_source_done one_batch \<and> batches_of (ss_frames one_batch) = ss_generated one_batch \<and> ss_generated one_batch \<noteq> []"
  using stream_delivers_in_order [OF one_batch_reachable]
  by (simp add: one_batch_def writer_finish_def stream_init_def stream_state_new_def note_written_def note_generated_def Let_def)

text \<open>C11: The memory of a stream is bounded whatever the consumer does: the resident bytes never underflow and are
  at most those of \<open>MAX_INFLIGHT_BATCHES\<close> queued frames and one held by the writer; and at most one batch is
  generated after a cancel was observed.\<close>

theorem stream_memory_is_bounded:
  assumes "stream_reachable s"
  shows "0 \<le> resident_bytes (ss_state s) \<and>
    resident_bytes (ss_state s) \<le> int ((max_inflight_batches + 1) * frame_bound) \<and>
    batches_after_cancel (ss_state s) \<le> 1"
proof -
  have i: "memory_inv s" "late_inv s" using reachable_invs [OF assms] by auto
  obtain x where x: "resident_bytes (ss_state s) = int (held_bytes s + x)" "x \<le> frame_bound"
    using i(1) by (auto simp: memory_inv_def)
  have "held_bytes s + x \<le> (max_inflight_batches + 1) * frame_bound" using held_bytes_bound [OF i(1)] x(2) by simp
  then show ?thesis using x(1) i(2) unfolding x(1) of_nat_le_iff by (simp add: late_inv_def)
qed

theorem stream_memory_is_bounded_witness:
  "resident_bytes (ss_state one_batch) \<le> int ((max_inflight_batches + 1) * frame_bound)"
  using stream_memory_is_bounded [OF one_batch_reachable] by simp

section \<open>Completion after a cancel\<close>

lemma cancel_control: "parse_control [2, 0, 0, 0, 0, 0, 0, 0] = Some CancelFrame"
  by code_simp

text \<open>C12: A stream the consumer cancelled may be reported as completed: when the pump sees the cancel and closes the channel
  before the receive task publishes its terminal, the writer takes the closed channel for the end of the source
  and sends the terminal \<open>TERM_COMPLETED\<close>, although the source was not finished.\<close>

theorem cancelled_stream_may_report_completion:
  "\<exists>s. stream_reachable s \<and> ss_writer s = WrDone Completed \<and> st_cancelled (ss_state s) \<and> \<not> ss_source_done s \<and>
     last (ss_frames s) = FTerminal 0 []"
proof -
  let ?s0 = "stream_init 1"
  let ?s1 = "?s0\<lparr>ss_frames := [FOpen], ss_writer := WrTop\<rparr>"
  let ?s2 = "?s1\<lparr>ss_writer := WrRecv\<rparr>"
  let ?s3 = "reader_stop (Cancelled ''control frame'') False 0 ?s2"
  let ?s4 = "?s3\<lparr>ss_pump := PumpEnded\<rparr>"
  let ?s5 = "writer_receive ?s4"
  let ?s6 = "writer_finish True Completed ?s5"
  note defs = stream_init_def stream_state_new_def reader_stop_def observe_cancel_def
  note step = stream_reachable.step
  have "stream_reachable ?s1" by (rule step [OF stream_reachable.init [of 1]]) (use stream_step.write_open [of ?s0] in \<open>simp add: defs\<close>)
  from step [OF this stream_step.write_top] have "stream_reachable ?s2" by (simp add: defs)
  from step [OF this stream_step.receive [of _ 0 "WsBinary [2, 0, 0, 0, 0, 0, 0, 0]"]] have "stream_reachable ?s3"
    by (simp add: stream_init_def reader_receive_def cancel_control)
  from step [OF this stream_step.pump_stop] have "stream_reachable ?s4" by (simp add: defs)
  from step [OF this stream_step.write_recv] have "stream_reachable ?s5" by (simp add: defs)
  from step [OF this stream_step.write_finish [of _ Completed True]] have "stream_reachable ?s6"
    by (simp add: defs writer_receive_def)
  then show ?thesis
    by (intro exI [of _ ?s6]) (simp add: defs writer_finish_def writer_receive_def term_code_def term_detail_def)
qed

end
