(* ===== verification/Plane_Server.thy ===== *)
theory Plane_Server
  imports Data_Plane
begin

text \<open>
  \<open>protocol/data-plane/src/server.rs\<close>: the registry of streams, the admission of a connection and the static files. A
  connection's handler is a function of what its environment answers (the peer's messages, whether a permit is
  free, the factory, the pump, the drive) to the sequence of its effects. Time is \<open>nat\<close> nanoseconds.
\<close>

section \<open>Ceilings\<close>

definition max_concurrent_streams :: nat where "max_concurrent_streams = 4"
definition start_timeout :: nanos where "start_timeout = 120 * 10 ^ 9"
definition max_idle_connections :: nat where "max_idle_connections = 4"
definition crowded_start_timeout :: nanos where "crowded_start_timeout = 5 * 10 ^ 9"
definition peer_drain_timeout :: nanos where "peer_drain_timeout = 30 * 10 ^ 9"
definition max_terminal_records :: nat where "max_terminal_records = 64"
definition terminal_record_max_age :: nanos where "terminal_record_max_age = 300 * 10 ^ 9"

section \<open>The registry\<close>

record terminal_record =
  tr_stream :: string
  tr_terminal :: terminal
  tr_ended_at :: nanos

record registry =
  rg_streams :: "(string \<times> stream_state) list"
  rg_terminals :: "terminal_record list"
  rg_refusals :: nat

definition registry_new :: registry where
  "registry_new = \<lparr>rg_streams = [], rg_terminals = [], rg_refusals = 0\<rparr>"

definition too_old :: "nanos \<Rightarrow> terminal_record \<Rightarrow> bool" where
  "too_old now r \<longleftrightarrow> now - tr_ended_at r > terminal_record_max_age"

definition prune_locked :: "nanos \<Rightarrow> registry \<Rightarrow> registry" where
  "prune_locked now g =
     (let young = filter (\<lambda>r. \<not> too_old now r) (rg_terminals g);
          over = length young - max_terminal_records;
          evicted = map tr_stream (filter (too_old now) (rg_terminals g)) @ map tr_stream (take over young)
      in if evicted = [] then g\<lparr>rg_terminals := young\<rparr>
         else g\<lparr>rg_terminals := drop over young,
                rg_streams := filter (\<lambda>s. fst s \<notin> set evicted) (rg_streams g)\<rparr>)"

definition record_stream :: "nanos \<Rightarrow> string \<Rightarrow> stream_state \<Rightarrow> registry \<Rightarrow> registry" where
  "record_stream now i st g = prune_locked now (g\<lparr>rg_streams := rg_streams g @ [(i, st)]\<rparr>)"

definition record_terminal :: "nanos \<Rightarrow> string \<Rightarrow> terminal \<Rightarrow> registry \<Rightarrow> registry" where
  "record_terminal now i t g =
     prune_locked now (g\<lparr>rg_terminals := rg_terminals g @ [\<lparr>tr_stream = i, tr_terminal = t, tr_ended_at = now\<rparr>]\<rparr>)"

definition registry_terminals :: "registry \<Rightarrow> (string \<times> terminal) list" where
  "registry_terminals g = map (\<lambda>r. (tr_stream r, tr_terminal r)) (rg_terminals g)"

definition registry_active :: "registry \<Rightarrow> nat" where
  "registry_active g = length (filter (\<lambda>s. \<not> st_cancelled (snd s)) (rg_streams g))"

section \<open>Requests\<close>

datatype http_status = Ok200 | Unauthorized401 | Forbidden403 | NotFound404

text \<open>A header that is present may not be a string (\<open>to_str\<close> fails): \<open>Some None\<close>.\<close>

definition plane_upgrade :: "session \<Rightarrow> string option option \<Rightarrow> string option option \<Rightarrow> string option option \<Rightarrow> (http_status \<times> string) + unit" where
  "plane_upgrade se origin sec_fetch_site offers =
     (case origin of
        Some None \<Rightarrow> Inl (Forbidden403, ''origin'')
      | _ \<Rightarrow>
          (let o1 = (case origin of Some x \<Rightarrow> x | None \<Rightarrow> None);
               sfs = (case sec_fetch_site of Some x \<Rightarrow> x | None \<Rightarrow> None);
               offered = (case offers of Some (Some x) \<Rightarrow> x | _ \<Rightarrow> []);
               presented = (case token_from_offers offered of Some t \<Rightarrow> t | None \<Rightarrow> [])
           in if \<not> request_allowed se o1 sfs then Inl (Forbidden403, ''origin'')
              else if \<not> token_matches se presented then Inl (Unauthorized401, ''credential'')
              else Inr ()))"

definition serve_file :: "(string \<Rightarrow> string + byte list) option \<Rightarrow> string \<Rightarrow> http_status \<times> string \<times> (byte list + string)" where
  "serve_file dir name =
     (case dir of
        None \<Rightarrow> (NotFound404, [], Inr ''no consumer assets configured'')
      | Some read \<Rightarrow>
          (let mime = (if name = ''index.html'' then Some ''text/html; charset=utf-8''
                       else if name = ''app.js'' then Some ''text/javascript; charset=utf-8''
                       else if name = ''app.js.map'' then Some ''application/json; charset=utf-8''
                       else None)
           in case mime of
                None \<Rightarrow> (NotFound404, [], Inr ''not served'')
              | Some m \<Rightarrow>
                  (case read name of
                     Inr content \<Rightarrow> (Ok200, m, Inl content)
                   | Inl e \<Rightarrow> (NotFound404, [], Inr (name @ '': '' @ e)))))"

record open_request =
  or_operation :: string
  or_params :: "byte list"

fun read_start :: "ws_message list \<Rightarrow> string + open_request option" where
  "read_start [] = Inr None"
| "read_start (WsBinary b # ms) =
     (if b \<noteq> [] \<and> hd b = tag_start then
        (case payload_len b of
           None \<Rightarrow> Inl ''malformed START frame: prefix shorter than the frame header''
         | Some len \<Rightarrow>
             (case get_slice b frame_prefix_len len of
                None \<Rightarrow> Inl ''malformed START frame: payload shorter than its declared length''
              | Some payload \<Rightarrow>
                  (case parse_start payload of
                     None \<Rightarrow> Inl ''malformed START frame: operation and parameters did not parse''
                   | Some (operation, params) \<Rightarrow> Inr (Some \<lparr>or_operation = operation, or_params = params\<rparr>))))
      else read_start ms)"
| "read_start (WsError e # ms) = Inr None"
| "read_start (WsEnd # ms) = Inr None"
| "read_start (m # ms) = read_start ms"

section \<open>A connection\<close>

text \<open>
  \<open>ce_messages\<close>: what the peer did within the start budget, nothing in time or the messages it sent.
  \<open>ce_open_sent\<close>: whether the OPEN frame could be sent, and \<open>ce_drive\<close> the terminal of the writer's loop
  when it could (the loop itself is the step relation of \<open>Data_Plane\<close>). \<open>SentTerminal\<close> is the attempt to send; its
  result is ignored by the source.
\<close>

datatype create_answer = Created "nat option" | CreateRefused string | CreatePanicked string

record connection_env =
  ce_idle_free :: bool
  ce_messages :: "nanos \<Rightarrow> ws_message list option"
  ce_admission_free :: bool
  ce_create :: "open_request \<Rightarrow> create_answer"
  ce_spawn_error :: "string option"
  ce_open_sent :: bool
  ce_drive :: "nat \<Rightarrow> terminal"

datatype plane_effect =
    TookIdle | DroppedIdle | TookAdmission | DroppedAdmission | CountedRefusal
  | SentTerminal terminal | RecordedStream | RecordedTerminal terminal | Drove nat

definition start_detail :: "bool \<Rightarrow> string" where
  "start_detail idle =
     (if idle then ''no operation started''
      else ''no operation started, and the declared ceiling MAX_IDLE_CONNECTIONS='' @ show_nat max_idle_connections @
           '' was already reached, so this connection was held for 5s rather than 120s'')"

definition admission_detail :: string where
  "admission_detail =
     ''declared ceiling MAX_CONCURRENT_STREAMS='' @ show_nat max_concurrent_streams @ '' reached; refused, not queued''"

text \<open>
  \<open>adapter_ws::drive\<close> as the handler sees it: a peer that is gone before the OPEN frame ends the stream at once, with
  no terminal frame; otherwise the loop's terminal is sent, and then the permit handed to the drive is released. The
  permit is dropped on the early return as well.
\<close>

definition open_failed_detail :: string where
  "open_failed_detail = ''peer gone before the stream opened''"

definition drive_stream :: "connection_env \<Rightarrow> nat \<Rightarrow> plane_effect list \<times> terminal" where
  "drive_stream env tot =
     (if \<not> ce_open_sent env then ([DroppedAdmission], TransportFailed open_failed_detail)
      else let t = ce_drive env tot in ([SentTerminal t, DroppedAdmission], t))"

text \<open>Once admitted: create the source, start the pump, drive.\<close>

definition run_admitted :: "connection_env \<Rightarrow> open_request \<Rightarrow> plane_effect list" where
  "run_admitted env req =
     (case ce_create env req of
        CreateRefused d \<Rightarrow> [DroppedAdmission, SentTerminal (ProducerFailed d)]
      | CreatePanicked d \<Rightarrow> [DroppedAdmission, SentTerminal (ProducerFailed (''starting the operation panicked: '' @ d))]
      | Created tot \<Rightarrow>
          RecordedStream #
          (case ce_spawn_error env of
             Some e \<Rightarrow>
               (let d = ''could not start the producer: '' @ e
                in [DroppedAdmission, SentTerminal (ProducerFailed d), RecordedTerminal (ProducerFailed d)])
           | None \<Rightarrow>
               (case drive_stream env (total_or_unknown tot) of
                  (es, t) \<Rightarrow> Drove (total_or_unknown tot) # es @ [RecordedTerminal t])))"

definition handle_connection :: "connection_env \<Rightarrow> plane_effect list" where
  "handle_connection env =
     (let idle = ce_idle_free env;
          budget = (if idle then start_timeout else crowded_start_timeout);
          took = (if idle then [TookIdle] else []);
          dropped = (if idle then [DroppedIdle] else [])
      in took @
         (case ce_messages env budget of
            None \<Rightarrow> SentTerminal (TransportFailed (start_detail idle)) # dropped
          | Some ms \<Rightarrow>
              (case read_start ms of
                 Inl d \<Rightarrow> SentTerminal (TransportFailed d) # dropped
               | Inr None \<Rightarrow> dropped
               | Inr (Some req) \<Rightarrow>
                   dropped @
                   (if \<not> ce_admission_free env then [CountedRefusal, SentTerminal (ProducerFailed admission_detail)]
                    else TookAdmission # run_admitted env req))))"

section \<open>What the registry keeps\<close>

lemma drop_bounded: "length (drop (length xs - n) xs) \<le> n"
  by simp

lemma prune_locked_bounded: "length (rg_terminals (prune_locked now g)) \<le> max_terminal_records"
proof -
  define young where "young = filter (\<lambda>r. \<not> too_old now r) (rg_terminals g)"
  have "take (length young - max_terminal_records) young = [] \<Longrightarrow> length young \<le> max_terminal_records"
    by (cases young) simp_all
  then show ?thesis using drop_bounded [of young max_terminal_records] unfolding prune_locked_def young_def [symmetric]
    by (auto simp: Let_def)
qed

definition ended :: "registry \<Rightarrow> string set" where
  "ended g = tr_stream ` set (rg_terminals g)"

text \<open>A stream without a terminal record is never evicted; a stream that stays keeps its state.\<close>

lemma prune_locked_streams:
  "s \<in> set (rg_streams g) \<Longrightarrow> fst s \<notin> ended g \<Longrightarrow> s \<in> set (rg_streams (prune_locked now g))"
  "set (rg_streams (prune_locked now g)) \<subseteq> set (rg_streams g)"
  by (auto simp: prune_locked_def Let_def ended_def dest: in_set_takeD)

datatype registry_op = OpRecord string stream_state | OpTerminal string terminal

definition registry_apply :: "nanos \<times> registry_op \<Rightarrow> registry \<Rightarrow> registry" where
  "registry_apply o1 g = (case o1 of (now, OpRecord i st) \<Rightarrow> record_stream now i st g | (now, OpTerminal i t) \<Rightarrow> record_terminal now i t g)"

lemma prune_ended: "ended (prune_locked now g) \<subseteq> ended g"
  by (auto simp: prune_locked_def Let_def ended_def dest: in_set_dropD)

definition registry_run :: "(nanos \<times> registry_op) list \<Rightarrow> registry" where
  "registry_run ops = foldl (\<lambda>g o1. registry_apply o1 g) registry_new ops"

lemma registry_run_snoc: "registry_run (ops @ [o1]) = registry_apply o1 (registry_run ops)"
  by (simp add: registry_run_def)

lemma apply_bounded: "length (rg_terminals (registry_apply o1 g)) \<le> max_terminal_records"
  by (auto simp: registry_apply_def record_stream_def record_terminal_def prune_locked_bounded split: prod.splits registry_op.splits)

text \<open>Whatever is recorded in whatever order, the registry holds at most \<open>MAX_TERMINAL_RECORDS\<close> terminals, and every
  stream that has not ended is still in it.\<close>

lemma registry_keeps_running_streams:
  "length (rg_terminals (registry_run ops)) \<le> max_terminal_records \<and>
   ended (registry_run ops) \<subseteq> {i. \<exists>now t. (now, OpTerminal i t) \<in> set ops} \<and>
   (\<forall>now i st. (now, OpRecord i st) \<in> set ops \<longrightarrow> (\<forall>later t. (later, OpTerminal i t) \<notin> set ops) \<longrightarrow>
      (i, st) \<in> set (rg_streams (registry_run ops)))"
proof (induction ops rule: rev_induct)
  case Nil
  show ?case by (simp add: registry_run_def registry_new_def ended_def)
next
  case (snoc o1 ops)
  obtain now op where o1: "o1 = (now, op)" by (cases o1)
  let ?g = "registry_run ops"
  define g1 where "g1 = (case op of OpRecord i st \<Rightarrow> ?g\<lparr>rg_streams := rg_streams ?g @ [(i, st)]\<rparr>
    | OpTerminal i t \<Rightarrow> ?g\<lparr>rg_terminals := rg_terminals ?g @ [\<lparr>tr_stream = i, tr_terminal = t, tr_ended_at = now\<rparr>]\<rparr>)"
  have g: "registry_run (ops @ [o1]) = prune_locked now g1"
    by (cases op) (simp_all add: registry_run_snoc o1 registry_apply_def record_stream_def record_terminal_def g1_def)
  have e: "ended g1 \<subseteq> {i. \<exists>now t. (now, OpTerminal i t) \<in> set (ops @ [o1])}"
  proof -
    have "ended g1 \<subseteq> ended ?g \<union> {i. \<exists>t. op = OpTerminal i t}" by (cases op) (auto simp: g1_def ended_def)
    moreover have "ended ?g \<subseteq> {i. \<exists>now t. (now, OpTerminal i t) \<in> set ops}" using snoc.IH by blast
    ultimately show ?thesis unfolding o1 by (simp add: subset_iff) blast
  qed
  have "(i, st) \<in> set (rg_streams (prune_locked now g1))"
    if r: "(n, OpRecord i st) \<in> set (ops @ [o1])" "\<forall>later t. (later, OpTerminal i t) \<notin> set (ops @ [o1])" for n i st
  proof (rule prune_locked_streams(1))
    show "(i, st) \<in> set (rg_streams g1)" using r snoc.IH by (cases op) (auto simp: g1_def o1)
    show "fst (i, st) \<notin> ended g1" using e r(2) by auto
  qed
  then show ?case unfolding g using prune_locked_bounded e prune_ended [of now g1] by blast
qed

section \<open>What a connection does\<close>

definition is_terminal :: "plane_effect \<Rightarrow> bool" where
  "is_terminal e = (case e of SentTerminal _ \<Rightarrow> True | _ \<Rightarrow> False)"

definition peer_left :: "connection_env \<Rightarrow> bool" where
  "peer_left env =
     (case ce_messages env (if ce_idle_free env then start_timeout else crowded_start_timeout) of
        None \<Rightarrow> False | Some ms \<Rightarrow> read_start ms = Inr None)"

text \<open>The stream's peer was gone when its OPEN frame was to be sent.\<close>

definition stream_opens :: "connection_env \<Rightarrow> open_request \<Rightarrow> bool" where
  "stream_opens env req \<longleftrightarrow>
     ce_open_sent env \<or> ce_spawn_error env \<noteq> None \<or> \<not> (\<exists>tot. ce_create env req = Created tot)"

definition open_failed :: "connection_env \<Rightarrow> bool" where
  "open_failed env =
     (case ce_messages env (if ce_idle_free env then start_timeout else crowded_start_timeout) of
        None \<Rightarrow> False
      | Some ms \<Rightarrow>
          (case read_start ms of
             Inr (Some req) \<Rightarrow> ce_admission_free env \<and> \<not> stream_opens env req
           | _ \<Rightarrow> False))"

lemma run_admitted_shape:
  "\<exists>t n. run_admitted env req \<in>
     (if stream_opens env req then
        {[DroppedAdmission, SentTerminal t], [RecordedStream, DroppedAdmission, SentTerminal t, RecordedTerminal t],
         [RecordedStream, Drove n, SentTerminal t, DroppedAdmission, RecordedTerminal t]}
      else {[RecordedStream, Drove n, DroppedAdmission, RecordedTerminal (TransportFailed open_failed_detail)]})"
  by (auto simp: run_admitted_def drive_stream_def stream_opens_def Let_def split: create_answer.splits option.splits)

definition balanced :: "plane_effect list \<Rightarrow> bool" where
  "balanced es \<longleftrightarrow>
     count_list es TookIdle = count_list es DroppedIdle \<and> count_list es TookAdmission = count_list es DroppedAdmission"

definition driven_with_permit :: "plane_effect list \<Rightarrow> bool" where
  "driven_with_permit es \<longleftrightarrow>
     (\<forall>n. Drove n \<in> set es \<longleftrightarrow> (\<exists>pre post. es = pre @ [TookAdmission, RecordedStream, Drove n] @ post))"

definition streams_recorded :: "plane_effect list \<Rightarrow> bool" where
  "streams_recorded es \<longleftrightarrow>
     count_list es RecordedStream = length (filter (\<lambda>e. case e of RecordedTerminal _ \<Rightarrow> True | _ \<Rightarrow> False) es)"

lemma driven_with_permitI:
  "(\<And>n. Drove n \<in> set es \<Longrightarrow> \<exists>pre post. es = pre @ [TookAdmission, RecordedStream, Drove n] @ post) \<Longrightarrow> driven_with_permit es"
  by (auto simp: driven_with_permit_def)

lemma no_drive: "(\<And>n. Drove n \<notin> set es) \<Longrightarrow> driven_with_permit es"
  by (rule driven_with_permitI) simp

text \<open>Every terminal on record was sent, but for the stream that never opened.\<close>

definition recorded_as_sent :: "bool \<Rightarrow> plane_effect list \<Rightarrow> bool" where
  "recorded_as_sent opened es \<longleftrightarrow>
     {t. RecordedTerminal t \<in> set es} \<subseteq>
       (if opened then {t. SentTerminal t \<in> set es} else {TransportFailed open_failed_detail})"

lemma idle_then_run:
  fixes env :: connection_env and req :: open_request
  assumes "idle = [] \<or> idle = [TookIdle, DroppedIdle]"
  defines "es \<equiv> idle @ TookAdmission # run_admitted env req"
  shows "balanced es \<and> driven_with_permit es \<and> streams_recorded es \<and> recorded_as_sent (stream_opens env req) es \<and>
    length (filter is_terminal es) = (if stream_opens env req then 1 else 0)"
proof -
  obtain t n where "run_admitted env req \<in> (if stream_opens env req then
        {[DroppedAdmission, SentTerminal t], [RecordedStream, DroppedAdmission, SentTerminal t, RecordedTerminal t],
         [RecordedStream, Drove n, SentTerminal t, DroppedAdmission, RecordedTerminal t]}
      else {[RecordedStream, Drove n, DroppedAdmission, RecordedTerminal (TransportFailed open_failed_detail)]})"
    using run_admitted_shape [of env req] by blast
  moreover have "driven_with_permit (idle @ TookAdmission # RecordedStream # Drove n # rest')"
    if "\<And>m. Drove m \<notin> set rest'" for rest'
  proof (rule driven_with_permitI)
    fix m
    assume "Drove m \<in> set (idle @ TookAdmission # RecordedStream # Drove n # rest')"
    then have "m = n" using assms(1) that by auto
    then show "\<exists>pre post. idle @ TookAdmission # RecordedStream # Drove n # rest' =
        pre @ [TookAdmission, RecordedStream, Drove m] @ post" by auto
  qed
  moreover have "driven_with_permit (idle @ TookAdmission # [DroppedAdmission, SentTerminal t])"
    "driven_with_permit (idle @ TookAdmission # [RecordedStream, DroppedAdmission, SentTerminal t, RecordedTerminal t])"
    by (rule no_drive; use assms(1) in auto)+
  ultimately show ?thesis using assms(1)
    by (auto simp: es_def balanced_def streams_recorded_def is_terminal_def recorded_as_sent_def split: if_splits)
qed

lemma idle_then_end:
  assumes "idle = [] \<or> idle = [TookIdle, DroppedIdle]"
  shows "balanced idle \<and> driven_with_permit idle \<and> streams_recorded idle \<and> recorded_as_sent True idle \<and> filter is_terminal idle = []"
    and "balanced (idle @ [CountedRefusal, SentTerminal t]) \<and> driven_with_permit (idle @ [CountedRefusal, SentTerminal t]) \<and>
      streams_recorded (idle @ [CountedRefusal, SentTerminal t]) \<and> recorded_as_sent True (idle @ [CountedRefusal, SentTerminal t]) \<and>
      length (filter is_terminal (idle @ [CountedRefusal, SentTerminal t])) = 1"
  using assms by (auto simp: balanced_def streams_recorded_def is_terminal_def recorded_as_sent_def intro!: no_drive)

lemma early_end:
  "es = [SentTerminal t] \<or> es = [TookIdle, SentTerminal t, DroppedIdle] \<Longrightarrow>
   balanced es \<and> driven_with_permit es \<and> streams_recorded es \<and> recorded_as_sent True es \<and> length (filter is_terminal es) = 1"
  by (auto simp: balanced_def streams_recorded_def is_terminal_def recorded_as_sent_def intro!: no_drive)

text \<open>
  C13: Whatever the peer, the factory and the operating system do, a connection returns every permit it took, drives a
  stream only while it holds an admission permit, and records a terminal for exactly the streams it recorded. It
  sends exactly one terminal frame, unless the peer left before starting anything, or was gone when the OPEN
  frame of its stream was sent: then it sends none. Every terminal it records is the one it sent; that of a stream
  which never opened is a transport failure.
\<close>

theorem connection_ends_exactly_once:
  "balanced (handle_connection env) \<and> driven_with_permit (handle_connection env) \<and> streams_recorded (handle_connection env) \<and>
   recorded_as_sent (\<not> open_failed env) (handle_connection env) \<and>
   length (filter is_terminal (handle_connection env)) = (if peer_left env \<or> open_failed env then 0 else 1)"
proof -
  define idle where "idle = (if ce_idle_free env then [TookIdle, DroppedIdle] else [])"
  have idle: "idle = [] \<or> idle = [TookIdle, DroppedIdle]" by (simp add: idle_def)
  define ms where "ms = ce_messages env (if ce_idle_free env then start_timeout else crowded_start_timeout)"
  show ?thesis
  proof (cases ms)
    case None
    let ?es = "handle_connection env" and ?t = "TransportFailed (start_detail (ce_idle_free env))"
    have "?es = [SentTerminal ?t] \<or> ?es = [TookIdle, SentTerminal ?t, DroppedIdle]"
      using None by (auto simp: handle_connection_def ms_def Let_def)
    moreover have "\<not> peer_left env" "\<not> open_failed env" using None by (simp_all add: peer_left_def open_failed_def ms_def)
    ultimately show ?thesis using early_end by simp
  next
    case (Some l)
    show ?thesis
    proof (cases "read_start l")
      case (Inl d)
      let ?es = "handle_connection env"
      have "?es = [SentTerminal (TransportFailed d)] \<or> ?es = [TookIdle, SentTerminal (TransportFailed d), DroppedIdle]"
        using Some Inl by (auto simp: handle_connection_def ms_def Let_def)
      moreover have "\<not> peer_left env" "\<not> open_failed env" using Some Inl by (simp_all add: peer_left_def open_failed_def ms_def)
      ultimately show ?thesis using early_end by simp
    next
      case (Inr r)
      show ?thesis
      proof (cases r)
        case None
        then have "handle_connection env = idle" using Some Inr by (simp add: handle_connection_def ms_def idle_def Let_def)
        moreover have "peer_left env" "\<not> open_failed env" using Some Inr None by (simp_all add: peer_left_def open_failed_def ms_def)
        ultimately show ?thesis using idle_then_end(1) [OF idle] by simp
      next
        case req: (Some req)
        have "\<not> peer_left env" "open_failed env \<longleftrightarrow> ce_admission_free env \<and> \<not> stream_opens env req"
          using Some Inr req by (simp_all add: peer_left_def open_failed_def ms_def)
        moreover have "handle_connection env = idle @ (if \<not> ce_admission_free env then [CountedRefusal, SentTerminal (ProducerFailed admission_detail)]
            else TookAdmission # run_admitted env req)"
          using Some Inr req by (simp add: handle_connection_def ms_def idle_def Let_def)
        ultimately show ?thesis using idle_then_end(2) [OF idle] idle_then_run [OF idle, of env req]
          by (cases "ce_admission_free env") simp_all
      qed
    qed
  qed
qed

end
