(* ===== verification/Skp_Proto.thy ===== *)
theory Skp_Proto
  imports Index Attributes
begin

text \<open>
  \<open>protocol/skp/src/v0\<close>: the number codecs of the wire (\<open>codec.rs\<close>), the four kinds of handle (\<open>handles.rs\<close>) and
  the protocol's error value with its constructors (\<open>error.rs\<close>). The \<open>Debug\<close> text of a string, which depends on
  the Unicode tables, and the random bytes of a minted handle are arguments.
\<close>

section \<open>Numbers on the wire\<close>

datatype hex_f64_parse_error = HexMalformed string | HexNonFinite string

definition hex_f64_parse_error_display :: "(string \<Rightarrow> string) \<Rightarrow> hex_f64_parse_error \<Rightarrow> string" where
  "hex_f64_parse_error_display dbg e =
     (case e of
        HexMalformed s \<Rightarrow> ''not a valid HexF64 (16 lowercase hex digits): '' @ dbg s
      | HexNonFinite s \<Rightarrow> ''bit pattern '' @ s @ '' decodes to a non-finite value'')"

definition is_lower_hex :: "char \<Rightarrow> bool" where
  "is_lower_hex c \<longleftrightarrow> is_digit c \<or> 97 \<le> (of_char c :: nat) \<and> (of_char c :: nat) \<le> 102"

definition hex_val :: "char \<Rightarrow> nat" where
  "hex_val c = (if is_digit c then of_char c - 48 else of_char c - 87)"

definition read_hex :: "string \<Rightarrow> nat" where
  "read_hex s = foldl (\<lambda>acc c. 16 * acc + hex_val c) 0 s"

text \<open>\<open>{:x}\<close>: no leading zeros.\<close>

fun show_hex :: "nat \<Rightarrow> string" where
  "show_hex n = (if n < 16 then [hex_char n] else show_hex (n div 16) @ [hex_char (n mod 16)])"

declare show_hex.simps [simp del]

text \<open>\<open>u64::from_str_radix(s, 16)\<close> on a string of lowercase hexadecimal digits, and \<open>u64::from_str\<close> on decimal
  ones: an empty string and a number of more than 64 bits are errors.\<close>

definition u64_from_str_radix16 :: "string \<Rightarrow> u64 option" where
  "u64_from_str_radix16 s = (if s = [] \<or> 2 ^ 64 \<le> read_hex s then None else Some (word_of_nat (read_hex s)))"

definition u64_from_digits :: "string \<Rightarrow> string + u64" where
  "u64_from_digits s =
     (if s = [] then Inl ''cannot parse integer from empty string''
      else if 2 ^ 64 \<le> read_nat s then Inl ''number too large to fit in target type''
      else Inr (word_of_nat (read_nat s)))"

definition to_hex :: "f64 \<Rightarrow> string" where
  "to_hex v = pad0 16 (show_hex (unat v))"

definition from_hex :: "string \<Rightarrow> hex_f64_parse_error + f64" where
  "from_hex s =
     (if length s \<noteq> 16 \<or> \<not> list_all is_lower_hex s then Inl (HexMalformed s)
      else
        (case u64_from_str_radix16 s of
           None \<Rightarrow> Inl (HexMalformed s)
         | Some v \<Rightarrow> if \<not> f64_is_finite v then Inl (HexNonFinite s) else Inr v))"

definition to_dec :: "u64 \<Rightarrow> string" where
  "to_dec v = show_nat (unat v)"

definition from_dec :: "(string \<Rightarrow> string) \<Rightarrow> string \<Rightarrow> string + u64" where
  "from_dec dbg s =
     (if s = [] \<or> \<not> list_all is_digit s then Inl (''not a valid DecU64 (decimal digits only): '' @ dbg s)
      else if length s > 1 \<and> hd s = CHR ''0'' then Inl (''not a valid DecU64 (leading zero): '' @ dbg s)
      else
        (case u64_from_digits s of
           Inr v \<Rightarrow> Inr v
         | Inl e \<Rightarrow> Inl (''DecU64 out of range: '' @ dbg s @ '' ('' @ e @ '')'')))"

section \<open>Handles\<close>

definition mint_hex_id :: "string \<Rightarrow> byte list \<Rightarrow> string" where
  "mint_hex_id prefix bytes = prefix @ ''_'' @ hex_bytes bytes"

definition parse_kernel_minted :: "(string \<Rightarrow> string) \<Rightarrow> string \<Rightarrow> string \<Rightarrow> string + unit" where
  "parse_kernel_minted dbg prefix s =
     (let head = prefix @ ''_'';
          refusal = ''not a valid '' @ prefix @ '' handle: '' @ dbg s @ '' (expected `'' @ head @
                    ''` + 32 lowercase hex digits)''
      in case strip_prefix s head of
           None \<Rightarrow> Inl refusal
         | Some hex_part \<Rightarrow>
             if length hex_part \<noteq> 32 \<or> \<not> list_all is_lower_hex hex_part then Inl refusal else Inr ())"

definition dataset_prefix :: string where "dataset_prefix = ''ds''"
definition stream_prefix :: string where "stream_prefix = ''sh''"
definition session_prefix :: string where "session_prefix = ''sr''"

text \<open>The \<open>FromStr\<close>, \<open>TryFrom<String>\<close> and \<open>Deserialize\<close> of the three kernel-minted kinds.\<close>

definition handle_from_str :: "(string \<Rightarrow> string) \<Rightarrow> string \<Rightarrow> string \<Rightarrow> string + string" where
  "handle_from_str dbg prefix s = bind_ok (parse_kernel_minted dbg prefix s) (\<lambda>_. Inr s)"

definition is_ascii_alphanumeric :: "char \<Rightarrow> bool" where
  "is_ascii_alphanumeric c \<longleftrightarrow>
     is_digit c \<or> 65 \<le> (of_char c :: nat) \<and> (of_char c :: nat) \<le> 90 \<or>
     97 \<le> (of_char c :: nat) \<and> (of_char c :: nat) \<le> 122"

definition parse_cancel_key :: "(string \<Rightarrow> string) \<Rightarrow> string \<Rightarrow> string + unit" where
  "parse_cancel_key dbg s =
     (if s = [] \<or> length s > 64 then
        Inl (''not a valid cancel key: '' @ dbg s @ '' (1..=64 characters of [A-Za-z0-9_-], got length '' @
             show_nat (length s) @ '')'')
      else if \<not> list_all (\<lambda>b. is_ascii_alphanumeric b \<or> b = CHR ''_'' \<or> b = CHR ''-'') s then
        Inl (''not a valid cancel key: '' @ dbg s @ '' (only [A-Za-z0-9_-] is admissible)'')
      else Inr ())"

definition cancel_key_try_from :: "(string \<Rightarrow> string) \<Rightarrow> string \<Rightarrow> string + string" where
  "cancel_key_try_from dbg s = bind_ok (parse_cancel_key dbg s) (\<lambda>_. Inr s)"

section \<open>The protocol's error\<close>

text \<open>\<open>fields\<close> is a \<open>BTreeMap\<close>; a constructor collects it from pairs with distinct names.\<close>

record skp_error =
  se_code :: string
  se_message :: string
  se_fields :: "string \<rightharpoonup> string"

definition skp_version :: string where "skp_version = ''skp/0.12''"

definition protocol :: "string \<Rightarrow> string \<Rightarrow> skp_error" where
  "protocol name message = \<lparr>se_code = ''skp.'' @ name, se_message = message, se_fields = Map.empty\<rparr>"

definition protocol_with_fields :: "string \<Rightarrow> string \<Rightarrow> (string \<times> string) list \<Rightarrow> skp_error" where
  "protocol_with_fields name message pairs =
     \<lparr>se_code = ''skp.'' @ name, se_message = message, se_fields = map_of (rev pairs)\<rparr>"

definition version_unsupported :: "string \<Rightarrow> skp_error" where
  "version_unsupported got =
     protocol_with_fields ''version_unsupported''
       (''unsupported skp version `'' @ got @ ''`; this host speaks `'' @ skp_version @ ''`'')
       [(''got'', got), (''supported'', skp_version)]"

definition unknown_dataset :: "string \<Rightarrow> skp_error" where
  "unknown_dataset handle =
     protocol_with_fields ''unknown_dataset''
       (''no open dataset with handle `'' @ handle @ ''` (closed, or never opened this session)'')
       [(''handle'', handle)]"

definition unknown_handle :: "string \<Rightarrow> skp_error" where
  "unknown_handle handle =
     protocol_with_fields ''unknown_handle'' (''`'' @ handle @ ''` names no known stream or cancel key'')
       [(''handle'', handle)]"

definition malformed_hex_f64 :: "(string \<Rightarrow> string) \<Rightarrow> string \<Rightarrow> string \<Rightarrow> skp_error" where
  "malformed_hex_f64 dbg field_name got =
     protocol_with_fields ''malformed_hex_f64''
       (''`'' @ field_name @ ''` is not a valid HexF64 (16 lowercase hex digits): '' @ dbg got)
       [(''field'', field_name), (''got'', got)]"

definition bbox_not_finite :: "string \<Rightarrow> skp_error" where
  "bbox_not_finite field_name =
     protocol_with_fields ''bbox_not_finite''
       (''`'' @ field_name @ ''` decodes to a non-finite value; a NaN or infinite bbox edge selects nothing'')
       [(''field'', field_name)]"

definition cancel_key_in_use :: "string \<Rightarrow> skp_error" where
  "cancel_key_in_use key =
     protocol_with_fields ''cancel_key_in_use''
       (''cancel key `'' @ key @ ''` already names a live `open_dataset` call'') [(''cancel_key'', key)]"

definition too_many_pending_streams :: "nat \<Rightarrow> skp_error" where
  "too_many_pending_streams lim =
     protocol_with_fields ''too_many_pending_streams''
       (''declared ceiling MAX_PENDING_TICKETS='' @ show_nat lim @ '' reached for this dataset'')
       [(''limit'', show_nat lim)]"

definition session_history_unwritable :: "string \<Rightarrow> skp_error" where
  "session_history_unwritable detail =
     protocol_with_fields ''session_history_unwritable''
       (''this step could not be written and flushed to the session history: '' @ detail) [(''detail'', detail)]"

definition session_history_full :: "u64 \<Rightarrow> skp_error" where
  "session_history_full lim =
     protocol_with_fields ''session_history_full''
       (''the session history is at its ceiling of '' @ show_nat (unat lim) @
        '' bytes (MAX_SESSION_HISTORY_BYTES); this step was not written'')
       [(''limit'', show_nat (unat lim))]"

definition session_history_stopped :: skp_error where
  "session_history_stopped =
     protocol ''session_history_stopped''
       ''this session history takes no more steps: an earlier write to it failed''"

definition step_line_over_ceiling :: "u64 \<Rightarrow> u64 \<Rightarrow> skp_error" where
  "step_line_over_ceiling saw lim =
     protocol_with_fields ''step_line_over_ceiling''
       (''this step'' @ [CHR 0x27] @ ''s line would be '' @ show_nat (unat saw) @ '' bytes, over its ceiling of '' @
        show_nat (unat lim) @ '' (MAX_STEP_LINE_BYTES); it was not written'')
       [(''saw'', show_nat (unat saw)), (''limit'', show_nat (unat lim))]"

definition style_value_not_admitted :: "string \<Rightarrow> string \<Rightarrow> skp_error" where
  "style_value_not_admitted property detail =
     protocol_with_fields ''style_value_not_admitted''
       (''the value for `'' @ property @ ''` is not one the style model admits: '' @ detail)
       [(''property'', property), (''detail'', detail)]"

definition skp_error_display :: "skp_error \<Rightarrow> string" where
  "skp_error_display e = se_message e @ '' ('' @ se_code e @ '')''"

section \<open>Radix sixteen\<close>

lemma hex_val_hex_char [simp]: "d < 16 \<Longrightarrow> hex_val (hex_char d) = d"
  by (auto simp: hex_val_def hex_char_def is_digit_def)

lemma is_lower_hex_hex_char [simp]: "d < 16 \<Longrightarrow> is_lower_hex (hex_char d)"
  by (auto simp: is_lower_hex_def hex_char_def is_digit_def)

lemma hex_char_hex_val: "is_lower_hex c \<Longrightarrow> hex_char (hex_val c) = c"
  by (auto simp: is_lower_hex_def hex_val_def hex_char_def is_digit_def)

lemma hex_val_less: "is_lower_hex c \<Longrightarrow> hex_val c < 16"
  by (auto simp: is_lower_hex_def hex_val_def is_digit_def)

lemma read_hex_snoc: "read_hex (s @ [c]) = 16 * read_hex s + hex_val c"
  by (simp add: read_hex_def)

lemma read_show_hex [simp]: "read_hex (show_hex n) = n"
proof (induction n rule: show_hex.induct)
  case (1 n)
  show ?case
  proof (cases "n < 16")
    case True
    then show ?thesis by (simp add: show_hex.simps [of n] read_hex_def)
  next
    case False
    with 1 show ?thesis by (simp add: show_hex.simps [of n] read_hex_snoc)
  qed
qed

lemma show_hex_digits: "list_all is_lower_hex (show_hex n)"
proof (induction n rule: show_hex.induct)
  case (1 n)
  then show ?case by (cases "n < 16") (auto simp: show_hex.simps [of n])
qed

lemma show_hex_length: "n < 16 ^ k \<Longrightarrow> 0 < k \<Longrightarrow> length (show_hex n) \<le> k"
proof (induction n arbitrary: k rule: show_hex.induct)
  case (1 n)
  show ?case
  proof (cases "n < 16")
    case True
    with 1 show ?thesis by (simp add: show_hex.simps [of n])
  next
    case False
    then obtain j where k: "k = Suc j" "0 < j" using 1(2,3) by (cases k; cases "k - 1") auto
    with 1(2) have "n div 16 < 16 ^ j" by (simp add: less_mult_imp_div_less mult.commute)
    with False k 1(1) show ?thesis by (simp add: show_hex.simps [of n])
  qed
qed

lemma read_hex_zeros: "read_hex (replicate k (CHR ''0'') @ s) = read_hex s"
  by (induction k) (simp_all add: read_hex_def hex_val_def is_digit_def)

lemma read_hex_pad0 [simp]: "read_hex (pad0 w s) = read_hex s"
  by (simp add: pad0_def read_hex_zeros)

lemma read_hex_less: "list_all is_lower_hex s \<Longrightarrow> read_hex s < 16 ^ length s"
proof (induction s rule: rev_induct)
  case (snoc c s)
  have "16 * read_hex s + hex_val c < 16 * (read_hex s + 1)" using snoc hex_val_less [of c] by simp
  also have "\<dots> \<le> 16 * 16 ^ length s" using snoc by simp
  finally show ?case by (simp add: read_hex_snoc)
qed (simp add: read_hex_def)

lemma radix_split:
  fixes a :: nat
  assumes "16 * a + c = 16 * b + d" "c < 16" "d < 16"
  shows "a = b \<and> c = d"
  using assms by presburger

lemma read_hex_inject:
  "length s = length t \<Longrightarrow> list_all is_lower_hex s \<Longrightarrow> list_all is_lower_hex t \<Longrightarrow>
   read_hex s = read_hex t \<Longrightarrow> s = t"
proof (induction s arbitrary: t rule: rev_induct)
  case (snoc c s)
  obtain d t' where t: "t = t' @ [d]" using snoc.prems(1) by (cases t rule: rev_cases) simp_all
  have h: "is_lower_hex c" "is_lower_hex d" "list_all is_lower_hex s" "list_all is_lower_hex t'"
    using snoc.prems(2,3) by (simp_all add: t)
  have len: "length s = length t'" using snoc.prems(1) by (simp add: t)
  have "16 * read_hex s + hex_val c = 16 * read_hex t' + hex_val d"
    using snoc.prems(4) by (simp add: t read_hex_snoc)
  from radix_split [OF this hex_val_less [OF h(1)] hex_val_less [OF h(2)]]
  have v: "read_hex s = read_hex t'" "hex_val c = hex_val d" by simp_all
  have "c = d" by (metis hex_char_hex_val h(1,2) v(2))
  moreover have "s = t'" using snoc.IH [OF len h(3,4) v(1)] .
  ultimately show ?case by (simp add: t)
qed simp

lemma to_hex_shape: "length (to_hex v) = 16" "list_all is_lower_hex (to_hex v)"
proof -
  have "unat v < 16 ^ 16" using unsigned_less [of v] by simp
  from show_hex_length [OF this] show "length (to_hex v) = 16" by (simp add: to_hex_def pad0_def)
  have "is_lower_hex (CHR ''0'')" by (simp add: is_lower_hex_def is_digit_def)
  then show "list_all is_lower_hex (to_hex v)"
    by (auto simp: to_hex_def pad0_def show_hex_digits list_all_iff [of _ "replicate _ _"])
qed

lemma read_to_hex [simp]: "read_hex (to_hex v) = unat v"
  by (simp add: to_hex_def)

lemma radix16_total:
  assumes "length s = 16" "list_all is_lower_hex s"
  shows "u64_from_str_radix16 s = Some (word_of_nat (read_hex s))"
    and "unat (word_of_nat (read_hex s) :: u64) = read_hex s"
proof -
  have "read_hex s < 2 ^ 64" using read_hex_less [OF assms(2)] assms(1) by simp
  then show "u64_from_str_radix16 s = Some (word_of_nat (read_hex s))"
      "unat (word_of_nat (read_hex s) :: u64) = read_hex s"
    using assms(1) by (auto simp: u64_from_str_radix16_def unat_of_nat)
qed

text \<open>C39: a double crosses the wire exactly: the text of every finite bit pattern reads back as that pattern, and
  the reader accepts the canonical text of a finite pattern and nothing else.\<close>

theorem hex_f64_is_exact:
  "from_hex s = Inr v \<longleftrightarrow> s = to_hex v \<and> f64_is_finite v"
proof
  assume "from_hex s = Inr v"
  then have s: "length s = 16" "list_all is_lower_hex s" and v: "f64_is_finite v"
    and r: "u64_from_str_radix16 s = Some v"
    by (auto simp: from_hex_def split: if_splits option.splits)
  have "read_hex s = unat v" using r radix16_total [OF s] by simp
  then have "s = to_hex v" using read_hex_inject [of s "to_hex v"] s to_hex_shape by simp
  with v show "s = to_hex v \<and> f64_is_finite v" by simp
next
  assume "s = to_hex v \<and> f64_is_finite v"
  then show "from_hex s = Inr v" using radix16_total [OF to_hex_shape] to_hex_shape by (simp add: from_hex_def)
qed

section \<open>Decimal text\<close>

lemma show_nat_no_leading_zero: "1 < length (show_nat n) \<Longrightarrow> hd (show_nat n) \<noteq> CHR ''0''"
proof (induction n rule: show_nat.induct)
  case (1 n)
  have n10: "\<not> n < 10" using 1(2) by (auto simp: show_nat.simps [of n])
  show ?case
  proof (cases "n div 10 < 10")
    case True
    have "(of_char (digit_char (n div 10)) :: nat) \<noteq> 48" using True n10 by simp
    then have "digit_char (n div 10) \<noteq> CHR ''0''" by auto
    with n10 True show ?thesis by (simp add: show_nat.simps [of n] show_nat.simps [of "n div 10"])
  next
    case False
    then have "1 < length (show_nat (n div 10))"
      by (simp add: show_nat.simps [of "n div 10"])
    with n10 1(1) show ?thesis by (simp add: show_nat.simps [of n] hd_append)
  qed
qed

lemma digit_char_0: "digit_char 0 = CHR ''0''"
  by (simp add: digit_char_def char_of_eq_iff)

lemma digit_char_digit_val: "is_digit c \<Longrightarrow> digit_char (digit_val c) = c"
  by (auto simp: is_digit_def digit_char_def digit_val_def)

lemma digit_val_less: "is_digit c \<Longrightarrow> digit_val c < 10"
  by (auto simp: is_digit_def digit_val_def)

lemma show_read_nat:
  "list_all is_digit s \<Longrightarrow> s \<noteq> [] \<Longrightarrow> \<not> (1 < length s \<and> hd s = CHR ''0'') \<Longrightarrow> show_nat (read_nat s) = s"
proof (induction s rule: rev_induct)
  case (snoc c s)
  have d: "is_digit c" "list_all is_digit s" using snoc.prems by auto
  show ?case
  proof (cases "s = []")
    case True
    with d show ?thesis
      by (simp add: read_nat_def show_nat.simps [of "digit_val c"] digit_val_less digit_char_digit_val)
  next
    case False
    with snoc have sr: "show_nat (read_nat s) = s" by (auto simp: hd_append)
    have "read_nat s \<noteq> 0"
    proof
      assume "read_nat s = 0"
      then have "s = [CHR ''0'']" using sr by (simp add: show_nat.simps [of 0] digit_char_0)
      with snoc.prems show False by simp
    qed
    with d sr show ?thesis
      by (simp add: read_nat_snoc show_nat.simps [of "10 * read_nat s + digit_val c"] digit_val_less digit_char_digit_val)
  qed
qed simp

theorem dec_u64_is_exact:
  "from_dec dbg s = Inr v \<longleftrightarrow> s = to_dec v"
proof
  assume "from_dec dbg s = Inr v"
  then have s: "s \<noteq> []" "list_all is_digit s" "\<not> (1 < length s \<and> hd s = CHR ''0'')"
    and r: "read_nat s < 2 ^ 64" "v = word_of_nat (read_nat s)"
    by (auto simp: from_dec_def u64_from_digits_def not_le split: if_splits sum.splits)
  have "unat v = read_nat s" using r by (simp add: unat_of_nat)
  with show_read_nat [OF s(2,1,3)] show "s = to_dec v" by (simp add: to_dec_def)
next
  assume s: "s = to_dec v"
  have "\<not> 2 ^ 64 \<le> unat v" using unsigned_less [of v, where 'a = nat] by simp
  with s show "from_dec dbg s = Inr v"
    using show_nat_no_leading_zero [of "unat v"] show_nat_digits [of "unat v"]
    by (simp add: from_dec_def to_dec_def u64_from_digits_def)
qed

section \<open>Kinds of handle\<close>

lemma parse_kernel_minted_iff:
  "parse_kernel_minted dbg prefix s = Inr () \<longleftrightarrow>
     (\<exists>hex. s = prefix @ ''_'' @ hex \<and> length hex = 32 \<and> list_all is_lower_hex hex)"
  by (auto simp: parse_kernel_minted_def Let_def strip_prefix_Some_iff split: option.splits)
     (auto simp: strip_prefix_def starts_with_iff split: if_splits)

lemma hex_bytes_shape: "length (hex_bytes bs) = 2 * length bs" "list_all is_lower_hex (hex_bytes bs)"
  by (induction bs) (auto simp: hex_bytes_def hex_byte_def)

lemma minted_handle_parses:
  assumes "length bytes = 16"
  shows "handle_from_str dbg prefix (mint_hex_id prefix bytes) = Inr (mint_hex_id prefix bytes)"
proof -
  have "parse_kernel_minted dbg prefix (mint_hex_id prefix bytes) = Inr ()"
    using assms hex_bytes_shape [of bytes] by (simp add: parse_kernel_minted_iff mint_hex_id_def)
  then show ?thesis by (simp add: handle_from_str_def bind_ok_def)
qed

lemma handle_kinds_are_disjoint:
  assumes "handle_from_str dbg p s = Inr h" "handle_from_str dbg q s = Inr h'" "length p = length q"
  shows "p = q"
  using assms by (auto simp: handle_from_str_def bind_ok_def parse_kernel_minted_iff split: sum.splits)

lemma lower_hex_alnum: "list_all is_lower_hex s \<Longrightarrow> list_all is_ascii_alphanumeric s"
  by (induction s) (auto simp: is_lower_hex_def is_ascii_alphanumeric_def)

text \<open>Every text of a stream handle is also an admissible cancel key.\<close>

lemma stream_handle_is_a_cancel_key:
  assumes "handle_from_str dbg stream_prefix s = Inr h"
  shows "cancel_key_try_from dbg s = Inr s"
proof -
  from assms obtain hex where s: "s = ''sh_'' @ hex" "length hex = 32" "list_all is_lower_hex hex"
    by (auto simp: handle_from_str_def bind_ok_def parse_kernel_minted_iff stream_prefix_def split: sum.splits)
  have "list_all (\<lambda>b. is_ascii_alphanumeric b \<or> b = CHR ''_'' \<or> b = CHR ''-'') s"
    using lower_hex_alnum [OF s(3)] s(1)
    by (auto simp: is_ascii_alphanumeric_def [of "CHR ''s''"] is_ascii_alphanumeric_def [of "CHR ''h''"] list_all_iff)
  with s show ?thesis by (simp add: cancel_key_try_from_def parse_cancel_key_def bind_ok_def)
qed

end
