(* ===== verification/Skp_Errors.thy ===== *)
theory Skp_Errors
  imports Skp_Proto Filter_Types
begin

text \<open>
  \<open>kernel/src/skp.rs\<close>: how the engine's refusals become the protocol's error value.
\<close>

section \<open>Engine errors\<close>

definition error_name_and_fields :: "engine_error \<Rightarrow> string \<times> (string \<times> string) list" where
  "error_name_and_fields e =
     (case e of
        EngSource _ \<Rightarrow> (''source'', [])
      | EngCrsUndeclared detail \<Rightarrow> (''crs_undeclared'', [(''detail'', detail)])
      | EngCrsAssertionConflict declared asserted \<Rightarrow>
          (''crs_assertion_conflict'', [(''declared'', declared), (''asserted'', asserted)])
      | EngCrsAssertionIdentifierBlank \<Rightarrow> (''crs_assertion_identifier_blank'', [])
      | EngCrsAssertionDefinitionTooLarge lim saw \<Rightarrow>
          (''crs_assertion_definition_too_large'', [(''limit'', show_nat lim), (''saw'', show_nat saw)])
      | EngViewportCrsMismatch dataset viewport \<Rightarrow>
          (''viewport_crs_mismatch'', [(''dataset'', dataset), (''viewport'', viewport)])
      | EngViewportCrsUnidentifiable \<Rightarrow> (''viewport_crs_unidentifiable'', [])
      | EngAxisOrderUnestablished detail \<Rightarrow> (''axis_order_unestablished'', [(''detail'', detail)])
      | EngAxisOrderUnsupported established \<Rightarrow> (''axis_order_unsupported'', [(''established'', established)])
      | EngFormatDefaultContradicted detail \<Rightarrow> (''format_default_contradicted'', [(''detail'', detail)])
      | EngSourceChanged detail \<Rightarrow> (''source_changed'', [(''detail'', detail)])
      | EngIdentityOrdinalPartitionedUnsupported detail \<Rightarrow>
          (''identity_ordinal_partitioned_unsupported'', [(''detail'', detail)])
      | EngInternalInconsistency detail \<Rightarrow> (''internal_inconsistency'', [(''detail'', detail)])
      | EngGeoMetadata _ \<Rightarrow> (''geo_metadata'', [])
      | EngNoCoveringBbox detail \<Rightarrow> (''no_covering_bbox'', [(''detail'', detail)])
      | EngWkb _ \<Rightarrow> (''wkb'', [])
      | EngEncodingMismatch claimed found \<Rightarrow> (''encoding_mismatch'', [(''claimed'', claimed), (''found'', found)])
      | EngQuery _ \<Rightarrow> (''query'', [])
      | EngArrow _ \<Rightarrow> (''arrow'', [])
      | EngCancelled \<Rightarrow> (''cancelled'', [])
      | EngCeilingExceeded ceiling lim saw \<Rightarrow>
          (''ceiling_exceeded'', [(''ceiling'', ceiling), (''limit'', show_nat lim), (''saw'', show_nat saw)])
      | EngIdentityUnusable column detail candidate_columns \<Rightarrow>
          (''identity_unusable'',
           [(''column'', column), (''detail'', detail), (''candidate_columns'', join_with '','' candidate_columns)])
      | EngFeatureTooLarge fid lim saw \<Rightarrow>
          (''feature_too_large'', [(''id'', show_nat fid), (''limit'', show_nat lim), (''saw'', show_nat saw)])
      | EngConnectionSetup detail \<Rightarrow> (''connection_setup'', [(''detail'', detail)])
      | EngAttributeUnpublishable column detail \<Rightarrow>
          (''attribute_unpublishable'', [(''column'', column), (''detail'', detail)])
      | EngSourceChangedUnderPublish pinned observed detected_by \<Rightarrow>
          (''source_changed_under_publish'',
           [(''pinned'', pinned), (''observed'', observed), (''detected_by'', detected_by)])
      | EngConnectionsExhausted cls cap \<Rightarrow>
          (''connections_exhausted'', [(''class'', cls), (''capacity'', show_nat cap)])
      | EngTimingDependentOrdering ord policy \<Rightarrow>
          (''timing_dependent_ordering'', [(''ordering'', ord), (''cut'', policy)])
      | EngSourceCoverageLost detail \<Rightarrow> (''source_coverage_lost'', [(''detail'', detail)])
      | EngLodRefused refusal detail \<Rightarrow> (''lod_refused'', [(''refusal'', refusal), (''detail'', detail)]))"

definition error_of :: "engine_error \<Rightarrow> skp_error" where
  "error_of e =
     (let message = engine_error_display e; (name, pairs) = error_name_and_fields e
      in \<lparr>se_code = ''engine.'' @ name, se_message = message, se_fields = map_of (rev pairs)\<rparr>)"

definition terminal_detail_of :: "engine_error \<Rightarrow> string" where
  "terminal_detail_of e = se_code (error_of e) @ '': '' @ engine_error_display e"

section \<open>Filter and projection errors\<close>

definition filter_type_not_admitted ::
    "string \<Rightarrow> string \<Rightarrow> string list \<Rightarrow> type_refusal_reason \<Rightarrow> skp_error" where
  "filter_type_not_admitted message construct operand_types reason =
     protocol_with_fields ''filter_type_not_admitted'' message
       [(''construct'', construct), (''operand_types'', join_with ''; '' operand_types),
        (''reason'', wire_value reason)]"

definition filter_error_of :: "filter_error \<Rightarrow> skp_error" where
  "filter_error_of e =
     (let message = filter_error_display e
      in case e of
           Unparsable detail \<Rightarrow> protocol_with_fields ''filter_unparsable'' message [(''detail'', detail)]
         | NotASingleExpression statements \<Rightarrow>
             protocol_with_fields ''filter_not_a_single_expression'' message
               [(''statements'', show_nat statements)]
         | ConstructNotAdmitted construct \<Rightarrow>
             protocol_with_fields ''filter_construct_not_admitted'' message [(''construct'', construct)]
         | UnknownColumn column \<Rightarrow> protocol_with_fields ''filter_unknown_column'' message [(''column'', column)]
         | ColumnNotFilterable column reason \<Rightarrow>
             protocol_with_fields ''filter_column_not_filterable'' message
               [(''column'', column), (''reason'', reason)]
         | IdentityAliasAmbiguous column source_column \<Rightarrow>
             protocol_with_fields ''filter_identity_alias_ambiguous'' message
               [(''column'', column), (''source_column'', source_column)]
         | NotBoolean inferred_type \<Rightarrow>
             protocol_with_fields ''filter_not_boolean'' message [(''inferred_type'', inferred_type)]
         | TooLong lim saw \<Rightarrow>
             protocol_with_fields ''filter_too_long'' message [(''limit'', show_nat lim), (''saw'', show_nat saw)]
         | TooDeep lim saw \<Rightarrow>
             protocol_with_fields ''filter_too_deep'' message [(''limit'', show_nat lim), (''saw'', show_nat saw)]
         | RejectedByBinder detail \<Rightarrow>
             protocol_with_fields ''filter_rejected_by_binder'' message [(''detail'', detail)]
         | TypeNotAdmitted construct operand_types reason \<Rightarrow>
             filter_type_not_admitted message construct operand_types reason)"

definition projection_error_of :: "projection_error \<Rightarrow> skp_error" where
  "projection_error_of e =
     (let message = projection_error_display e
      in case e of
           TooManyColumns lim saw \<Rightarrow>
             protocol_with_fields ''projection_too_many_columns'' message
               [(''limit'', show_nat lim), (''saw'', show_nat saw)]
         | ColumnUnknown column known \<Rightarrow>
             protocol_with_fields ''projection_column_unknown'' message
               [(''column'', column), (''known_columns'', known_columns_wire_field known)]
         | ColumnIsGeometry column \<Rightarrow>
             protocol_with_fields ''projection_column_is_geometry'' message [(''column'', column)]
         | ColumnIsIdentity column idc \<Rightarrow>
             protocol_with_fields ''projection_column_is_identity'' message
               [(''column'', column), (''id_column'', idc)]
         | ColumnDuplicated column \<Rightarrow>
             protocol_with_fields ''projection_column_duplicated'' message [(''column'', column)]
         | TypeNotAdmittedP column arrow_type _ detail \<Rightarrow>
             protocol_with_fields ''projection_type_not_admitted'' message
               [(''column'', column), (''arrow_type'', arrow_type), (''detail'', detail)]
         | ColumnNameNotAddressable column detail \<Rightarrow>
             protocol_with_fields ''projection_column_name_not_addressable'' message
               [(''column'', column), (''detail'', detail)])"

definition predicate_admit_error_of :: "predicate_admit_error \<Rightarrow> skp_error" where
  "predicate_admit_error_of e =
     (case e of
        Filter fe \<Rightarrow> filter_error_of fe
      | PConnectionsExhausted cls cap \<Rightarrow> error_of (EngConnectionsExhausted cls cap))"

datatype viewport_query_build_error =
    VqProjectionEmptyList
  | VqProjection projection_error
  | VqPredicate predicate_admit_error

definition viewport_query_build_error_of :: "viewport_query_build_error \<Rightarrow> skp_error" where
  "viewport_query_build_error_of e =
     (case e of
        VqProjectionEmptyList \<Rightarrow>
          protocol ''projection_empty_list''
            (''refused: an empty projection (`columns: []`) is not admitted; the wire'' @ [CHR 0x27] @
             ''s own no-projection value is `columns: null`'')
      | VqProjection pe \<Rightarrow> projection_error_of pe
      | VqPredicate pae \<Rightarrow> predicate_admit_error_of pae)"

section \<open>Nothing is lost on the way\<close>

text \<open>
  What the wire form still tells, as a left inverse used in the proofs (the source has no such function): the variant
  from the code, its payload from the fields, or from the message for the five variants that carry a bare text.
\<close>

definition payload :: "skp_error \<Rightarrow> string \<Rightarrow> string" where
  "payload s k = (case se_fields s k of Some v \<Rightarrow> v | None \<Rightarrow> [])"

definition engine_error_decoders :: "(string \<times> (skp_error \<Rightarrow> engine_error)) list" where
  "engine_error_decoders =
     [(''source'', \<lambda>s. EngSource (drop 8 (se_message s))),
      (''crs_undeclared'', \<lambda>s. EngCrsUndeclared (payload s ''detail'')),
      (''crs_assertion_conflict'', \<lambda>s. EngCrsAssertionConflict (payload s ''declared'') (payload s ''asserted'')),
      (''crs_assertion_identifier_blank'', \<lambda>s. EngCrsAssertionIdentifierBlank),
      (''crs_assertion_definition_too_large'',
       \<lambda>s. EngCrsAssertionDefinitionTooLarge (read_nat (payload s ''limit'')) (read_nat (payload s ''saw''))),
      (''viewport_crs_mismatch'', \<lambda>s. EngViewportCrsMismatch (payload s ''dataset'') (payload s ''viewport'')),
      (''viewport_crs_unidentifiable'', \<lambda>s. EngViewportCrsUnidentifiable),
      (''axis_order_unestablished'', \<lambda>s. EngAxisOrderUnestablished (payload s ''detail'')),
      (''axis_order_unsupported'', \<lambda>s. EngAxisOrderUnsupported (payload s ''established'')),
      (''format_default_contradicted'', \<lambda>s. EngFormatDefaultContradicted (payload s ''detail'')),
      (''source_changed'', \<lambda>s. EngSourceChanged (payload s ''detail'')),
      (''identity_ordinal_partitioned_unsupported'',
       \<lambda>s. EngIdentityOrdinalPartitionedUnsupported (payload s ''detail'')),
      (''internal_inconsistency'', \<lambda>s. EngInternalInconsistency (payload s ''detail'')),
      (''geo_metadata'', \<lambda>s. EngGeoMetadata (drop 14 (se_message s))),
      (''no_covering_bbox'', \<lambda>s. EngNoCoveringBbox (payload s ''detail'')),
      (''wkb'', \<lambda>s. EngWkb (drop 5 (se_message s))),
      (''encoding_mismatch'', \<lambda>s. EngEncodingMismatch (payload s ''claimed'') (payload s ''found'')),
      (''query'', \<lambda>s. EngQuery (drop 7 (se_message s))),
      (''arrow'', \<lambda>s. EngArrow (drop 7 (se_message s))),
      (''cancelled'', \<lambda>s. EngCancelled),
      (''ceiling_exceeded'',
       \<lambda>s. EngCeilingExceeded (payload s ''ceiling'') (read_nat (payload s ''limit'')) (read_nat (payload s ''saw''))),
      (''identity_unusable'',
       \<lambda>s. EngIdentityUnusable (payload s ''column'') (payload s ''detail'') [payload s ''candidate_columns'']),
      (''feature_too_large'',
       \<lambda>s. EngFeatureTooLarge (read_nat (payload s ''id'')) (read_nat (payload s ''limit''))
              (read_nat (payload s ''saw''))),
      (''connection_setup'', \<lambda>s. EngConnectionSetup (payload s ''detail'')),
      (''attribute_unpublishable'', \<lambda>s. EngAttributeUnpublishable (payload s ''column'') (payload s ''detail'')),
      (''source_changed_under_publish'',
       \<lambda>s. EngSourceChangedUnderPublish (payload s ''pinned'') (payload s ''observed'') (payload s ''detected_by'')),
      (''connections_exhausted'',
       \<lambda>s. EngConnectionsExhausted (payload s ''class'') (read_nat (payload s ''capacity''))),
      (''timing_dependent_ordering'', \<lambda>s. EngTimingDependentOrdering (payload s ''ordering'') (payload s ''cut'')),
      (''source_coverage_lost'', \<lambda>s. EngSourceCoverageLost (payload s ''detail'')),
      (''lod_refused'', \<lambda>s. EngLodRefused (payload s ''refusal'') (payload s ''detail''))]"

definition recover_engine_error :: "skp_error \<Rightarrow> engine_error option" where
  "recover_engine_error s =
     (case strip_prefix (se_code s) ''engine.'' of
        None \<Rightarrow> None
      | Some name \<Rightarrow> map_option (\<lambda>f. f s) (map_of engine_error_decoders name))"

definition joined_candidates :: "engine_error \<Rightarrow> engine_error" where
  "joined_candidates e =
     (case e of
        EngIdentityUnusable column detail cs \<Rightarrow> EngIdentityUnusable column detail [join_with '','' cs]
      | _ \<Rightarrow> e)"

lemma recover_by_name:
  assumes "error_name_and_fields e = (name, pairs)" "map_of engine_error_decoders name = Some f"
  shows "recover_engine_error (error_of e) =
           Some (f \<lparr>se_code = ''engine.'' @ name, se_message = engine_error_display e, se_fields = map_of (rev pairs)\<rparr>)"
  using assms by (simp add: recover_engine_error_def error_of_def strip_prefix_def starts_with_def)

lemma recovered_from_the_wire: "recover_engine_error (error_of e) = Some (joined_candidates e)"
  by (cases e; subst recover_by_name,
      (simp add: error_name_and_fields_def; fail), (simp add: engine_error_decoders_def; fail),
      simp add: payload_def joined_candidates_def engine_error_display_def)

lemma joined_candidates_eq:
  "joined_candidates e = joined_candidates e' \<longleftrightarrow>
     e = e' \<or> (\<exists>column detail cs cs'. e = EngIdentityUnusable column detail cs \<and>
                  e' = EngIdentityUnusable column detail cs' \<and> join_with '','' cs = join_with '','' cs')"
  by (cases e; cases e') (auto simp: joined_candidates_def)

lemma error_of_joined: "join_with '','' cs = join_with '','' cs' \<Longrightarrow>
    error_of (EngIdentityUnusable column detail cs) = error_of (EngIdentityUnusable column detail cs')"
  by (simp add: error_of_def error_name_and_fields_def engine_error_display_def)

text \<open>
  C38: No two engine errors become the same protocol error, payload included: neither the variant nor any value it
  carries is lost on the wire. The one exception is the list of candidate identity columns, which travels joined by
  commas: two refusals that differ only in lists whose joins are the same text, as those of the one name \<open>a,b\<close> and of
  the two names \<open>a\<close> and \<open>b\<close> are, become the same protocol error.
\<close>
theorem engine_errors_survive_the_wire:
  "error_of e = error_of e' \<longleftrightarrow>
     e = e' \<or> (\<exists>column detail cs cs'. e = EngIdentityUnusable column detail cs \<and>
                  e' = EngIdentityUnusable column detail cs' \<and> join_with '','' cs = join_with '','' cs')"
  using recovered_from_the_wire [of e] recovered_from_the_wire [of e'] error_of_joined
  unfolding joined_candidates_eq [symmetric]
  by (metis joined_candidates_eq option.inject)

lemma filter_codes_are_protocol_codes: "\<exists>name. se_code (filter_error_of e) = ''skp.filter_'' @ name"
  by (cases e) (simp_all add: filter_error_of_def filter_type_not_admitted_def protocol_with_fields_def)

lemma projection_codes_are_protocol_codes: "\<exists>name. se_code (projection_error_of e) = ''skp.projection_'' @ name"
  by (cases e) (simp_all add: projection_error_of_def protocol_with_fields_def)

lemma engine_codes_are_engine_codes: "\<exists>name. se_code (error_of e) = ''engine.'' @ name"
  by (simp add: error_of_def split: prod.splits)

text \<open>A refused predicate is told apart from a connection pool that is exhausted by the code alone.\<close>

lemma admission_refusal_names_its_layer:
  "se_code (predicate_admit_error_of pae) = ''engine.connections_exhausted'' \<longleftrightarrow>
     (\<exists>cls cap. pae = PConnectionsExhausted cls cap)"
proof (cases pae)
  case (Filter fe)
  obtain name where "se_code (filter_error_of fe) = ''skp.filter_'' @ name"
    using filter_codes_are_protocol_codes by blast
  with Filter show ?thesis by (simp add: predicate_admit_error_of_def)
qed (simp add: predicate_admit_error_of_def error_of_def error_name_and_fields_def)

end
