(* ===== verification/Skp_Registry.thy ===== *)
theory Skp_Registry
  imports Skp_Errors Cancel "HOL-Library.AList"
begin

text \<open>
  \<open>kernel/src/skp.rs\<close>: the registry of stream tickets, the registry of dataset-session generations, the
  invalidator that ends a generation and the registry of opens in flight. Every method is one critical section.
  A \<open>HashMap\<close> is an association list with distinct keys, its order the (arbitrary) iteration order. A built source
  and its \<open>SourceCancel\<close> are numbers; an operation that calls \<open>SourceCancel::cancel\<close> returns the numbers it called.
  A critical section reads the monotonic clock for its sweep (\<open>t0\<close>) and then for its stamp (\<open>t1\<close>).
\<close>

section \<open>Reasons and outcomes\<close>

datatype session_end_reason = ObservedChange | CoverageLost

datatype wire_end_reason = WireObservedChange | WireCoverageLost

definition end_reason_of :: "session_end_reason \<Rightarrow> wire_end_reason" where
  "end_reason_of r = (case r of ObservedChange \<Rightarrow> WireObservedChange | CoverageLost \<Rightarrow> WireCoverageLost)"

datatype cancel_outcome = CoRequested | CoUnknown | CoAlreadyTerminal

datatype cancel_state = CsRequested | CsUnknown | CsAlreadyTerminal

definition cancel_state_of :: "cancel_outcome \<Rightarrow> cancel_state" where
  "cancel_state_of out =
     (case out of CoRequested \<Rightarrow> CsRequested | CoUnknown \<Rightarrow> CsUnknown | CoAlreadyTerminal \<Rightarrow> CsAlreadyTerminal)"

section \<open>Stream tickets\<close>

definition ticket_ttl :: nanos where "ticket_ttl = 30 * 10 ^ 9"
definition max_pending_tickets :: nat where "max_pending_tickets = 8"
definition terminal_entry_max_age :: nanos where "terminal_entry_max_age = 300 * 10 ^ 9"

record pending_built =
  pb_source :: nat
  pb_cancel :: nat

datatype ticket_state =
    Pending pending_built string nanos
  | Redeemed string nat bool nanos
  | CancelledBeforeRedeem nanos

type_synonym stream_registry = "(string \<times> ticket_state) list"

definition stale :: "nanos \<Rightarrow> ticket_state \<Rightarrow> bool" where
  "stale now state =
     (case state of
        Pending _ _ minted_at \<Rightarrow> now - minted_at > ticket_ttl
      | Redeemed _ _ _ redeemed_at \<Rightarrow> now - redeemed_at > terminal_entry_max_age
      | CancelledBeforeRedeem cancelled_at \<Rightarrow> now - cancelled_at > terminal_entry_max_age)"

text \<open>The entries that stay, and those handed back to be dropped after the lock.\<close>

definition sweep_locked :: "nanos \<Rightarrow> stream_registry \<Rightarrow> stream_registry \<times> ticket_state list" where
  "sweep_locked now ts = (filter (\<lambda>(_, s). \<not> stale now s) ts, map snd (filter (\<lambda>(_, s). stale now s) ts))"

definition sweep_expired :: "nanos \<Rightarrow> stream_registry \<Rightarrow> stream_registry" where
  "sweep_expired now ts = fst (sweep_locked now ts)"

definition pending_for :: "string \<Rightarrow> ticket_state \<Rightarrow> bool" where
  "pending_for dataset s = (case s of Pending _ d _ \<Rightarrow> d = dataset | _ \<Rightarrow> False)"

definition mint ::
    "nanos \<Rightarrow> nanos \<Rightarrow> byte list \<Rightarrow> string \<Rightarrow> pending_built \<Rightarrow> stream_registry \<Rightarrow>
     (skp_error + string) \<times> stream_registry" where
  "mint t0 t1 random dataset built ts =
     (let ts = sweep_expired t0 ts;
          pending_for_dataset = length (filter (\<lambda>(_, s). pending_for dataset s) ts)
      in if pending_for_dataset \<ge> max_pending_tickets
         then (Inl (too_many_pending_streams max_pending_tickets), ts)
         else let handle = mint_hex_id stream_prefix random
              in (Inr handle, AList.update handle (Pending built dataset t1) ts))"

definition redeem :: "nanos \<Rightarrow> nanos \<Rightarrow> string \<Rightarrow> stream_registry \<Rightarrow> (string + pending_built) \<times> stream_registry" where
  "redeem t0 t1 handle ts =
     (let ts = sweep_expired t0 ts
      in case map_of ts handle of
           None \<Rightarrow>
             (Inl (''ticket `'' @ handle @ ''` is unknown: never minted, already redeemed and gone, or '' @
                   ''expired after 30s''), ts)
         | Some (CancelledBeforeRedeem _) \<Rightarrow>
             (Inl (''ticket `'' @ handle @ ''` was cancelled before it was redeemed''), ts)
         | Some (Redeemed _ _ _ _) \<Rightarrow>
             (Inl (''ticket `'' @ handle @ ''` was already redeemed; a ticket is single-use''), ts)
         | Some (Pending built dataset _) \<Rightarrow>
             (Inr built, AList.update handle (Redeemed dataset (pb_cancel built) False t1) (AList.delete handle ts)))"

definition cancel_ticket ::
    "nanos \<Rightarrow> nanos \<Rightarrow> string \<Rightarrow> stream_registry \<Rightarrow> cancel_outcome \<times> stream_registry \<times> nat list" where
  "cancel_ticket t0 t1 handle ts =
     (let ts = sweep_expired t0 ts
      in case map_of ts handle of
           None \<Rightarrow> (CoUnknown, ts, [])
         | Some (CancelledBeforeRedeem _) \<Rightarrow> (CoAlreadyTerminal, ts, [])
         | Some (Pending _ _ _) \<Rightarrow> (CoRequested, AList.update handle (CancelledBeforeRedeem t1) ts, [])
         | Some (Redeemed d c cancelled at) \<Rightarrow>
             if cancelled then (CoAlreadyTerminal, ts, [])
             else (CoRequested, AList.update handle (Redeemed d c True at) ts, [c]))"

text \<open>One entry of \<open>cancel_all_for_dataset\<close>'s loop: the entry after it and the cancel it called.\<close>

definition cancel_entry :: "nanos \<Rightarrow> string \<Rightarrow> ticket_state \<Rightarrow> (ticket_state \<times> nat list) option" where
  "cancel_entry t1 dataset s =
     (case s of
        Pending _ d _ \<Rightarrow> if d = dataset then Some (CancelledBeforeRedeem t1, []) else None
      | Redeemed d c cancelled at \<Rightarrow> if d = dataset \<and> \<not> cancelled then Some (Redeemed d c True at, [c]) else None
      | CancelledBeforeRedeem _ \<Rightarrow> None)"

fun cancel_entries :: "nanos \<Rightarrow> string \<Rightarrow> stream_registry \<Rightarrow> u32 \<Rightarrow> u32 \<times> stream_registry \<times> nat list" where
  "cancel_entries t1 dataset [] n = (n, [], [])"
| "cancel_entries t1 dataset ((k, s) # ts) n =
     (case cancel_entry t1 dataset s of
        None \<Rightarrow> let (m, ts', fired) = cancel_entries t1 dataset ts n in (m, (k, s) # ts', fired)
      | Some (s', f) \<Rightarrow>
          let (m, ts', fired) = cancel_entries t1 dataset ts (n + 1) in (m, (k, s') # ts', f @ fired))"

definition cancel_all_for_dataset ::
    "nanos \<Rightarrow> nanos \<Rightarrow> string \<Rightarrow> stream_registry \<Rightarrow> u32 \<times> stream_registry \<times> nat list" where
  "cancel_all_for_dataset t0 t1 dataset ts = cancel_entries t1 dataset (sweep_expired t0 ts) 0"

section \<open>Session generations\<close>

record generation_state =
  gs_live :: "(string \<times> u64 \<times> string) list"
  gs_tickets :: "(string \<times> string \<times> u64 \<times> nanos) list"
  gs_invalidated :: "(string \<times> session_end_reason) list"
  gs_dead_tickets :: "(string \<times> string \<times> session_end_reason \<times> nanos) list"
  gs_closing :: "string set"
  gs_next :: u64

definition generation_new :: generation_state where
  "generation_new =
     \<lparr>gs_live = [], gs_tickets = [], gs_invalidated = [], gs_dead_tickets = [], gs_closing = {}, gs_next = 0\<rparr>"

datatype not_live = NlEnded session_end_reason | NlNotOpen

datatype liveness = TlLive | TlEndedBySourceChange | TlEndedByCoverageLoss | TlUnknown

definition attribution_max_age :: nanos where
  "attribution_max_age = ticket_ttl + terminal_entry_max_age"

definition live_is :: "generation_state \<Rightarrow> string \<Rightarrow> u64 \<Rightarrow> bool" where
  "live_is st dataset g \<longleftrightarrow> map_option fst (map_of (gs_live st) dataset) = Some g"

definition prune_generations :: "nanos \<Rightarrow> generation_state \<Rightarrow> generation_state" where
  "prune_generations now st =
     st\<lparr>gs_tickets :=
          filter (\<lambda>(_, dataset, g, attributed_at). now - attributed_at \<le> attribution_max_age \<and> live_is st dataset g)
            (gs_tickets st),
        gs_dead_tickets :=
          filter (\<lambda>(_, _, _, ended_at). now - ended_at \<le> attribution_max_age) (gs_dead_tickets st)\<rparr>"

text \<open>\<open>st.next += 1\<close> is kept at its width.\<close>

definition mint_for_open :: "nanos \<Rightarrow> string \<Rightarrow> string \<Rightarrow> generation_state \<Rightarrow> u64 \<times> generation_state" where
  "mint_for_open now dataset session st =
     (let st = prune_generations now st; g = gs_next st + 1
      in (g, st\<lparr>gs_next := g,
                gs_live := AList.update dataset (g, session) (gs_live st),
                gs_invalidated := AList.delete dataset (gs_invalidated st),
                gs_dead_tickets := filter (\<lambda>(_, d, _, _). d \<noteq> dataset) (gs_dead_tickets st)\<rparr>))"

definition live_generation :: "nanos \<Rightarrow> string \<Rightarrow> generation_state \<Rightarrow> (not_live + u64) \<times> generation_state" where
  "live_generation now dataset st =
     (let st = prune_generations now st
      in (case map_of (gs_invalidated st) dataset of
            Some reason \<Rightarrow> Inl (NlEnded reason)
          | None \<Rightarrow>
              if dataset \<in> gs_closing st then Inl NlNotOpen
              else (case map_of (gs_live st) dataset of Some (g, _) \<Rightarrow> Inr g | None \<Rightarrow> Inl NlNotOpen),
          st))"

definition attribute_ticket :: "nanos \<Rightarrow> nanos \<Rightarrow> string \<Rightarrow> string \<Rightarrow> generation_state \<Rightarrow> bool \<times> generation_state" where
  "attribute_ticket t0 t1 handle dataset st =
     (let st = prune_generations t0 st
      in if dataset \<in> gs_closing st then (False, st)
         else (case map_of (gs_live st) dataset of
                 None \<Rightarrow> (False, st)
               | Some (g, _) \<Rightarrow> (True, st\<lparr>gs_tickets := AList.update handle (dataset, g, t1) (gs_tickets st)\<rparr>)))"

definition attributed_ticket_count :: "nanos \<Rightarrow> generation_state \<Rightarrow> nat \<times> generation_state" where
  "attributed_ticket_count now st = (let st = prune_generations now st in (length (gs_tickets st), st))"

definition dead_ticket_count :: "nanos \<Rightarrow> generation_state \<Rightarrow> nat \<times> generation_state" where
  "dead_ticket_count now st = (let st = prune_generations now st in (length (gs_dead_tickets st), st))"

definition ticket_liveness :: "nanos \<Rightarrow> string \<Rightarrow> generation_state \<Rightarrow> liveness \<times> generation_state" where
  "ticket_liveness now handle st =
     (let st = prune_generations now st
      in (case map_of (gs_dead_tickets st) handle of
            Some (_, ObservedChange, _) \<Rightarrow> TlEndedBySourceChange
          | Some (_, CoverageLost, _) \<Rightarrow> TlEndedByCoverageLoss
          | None \<Rightarrow>
              (case map_of (gs_tickets st) handle of
                 Some (dataset, g, _) \<Rightarrow> if live_is st dataset g then TlLive else TlUnknown
               | None \<Rightarrow> TlUnknown),
          st))"

definition ended_reason :: "nanos \<Rightarrow> string \<Rightarrow> generation_state \<Rightarrow> session_end_reason option \<times> generation_state" where
  "ended_reason now dataset st = (let st = prune_generations now st in (map_of (gs_invalidated st) dataset, st))"

definition begin_close :: "string \<Rightarrow> generation_state \<Rightarrow> generation_state" where
  "begin_close dataset st = st\<lparr>gs_closing := insert dataset (gs_closing st)\<rparr>"

record end_report =
  er_session :: string
  er_reason :: session_end_reason
  er_tickets :: "string list"

definition invalidate ::
    "nanos \<Rightarrow> nanos \<Rightarrow> string \<Rightarrow> session_end_reason \<Rightarrow> generation_state \<Rightarrow> end_report option \<times> generation_state" where
  "invalidate t0 t1 dataset reason st =
     (case map_of (gs_live st) dataset of
        None \<Rightarrow> (None, prune_generations t1 st)
      | Some (g, session) \<Rightarrow>
          let recorded = (case map_of (gs_invalidated st) dataset of Some r \<Rightarrow> r | None \<Rightarrow> reason);
              ended = map fst (filter (\<lambda>(_, d, tg, _). d = dataset \<and> tg = g) (gs_tickets st));
              st = st\<lparr>gs_live := AList.delete dataset (gs_live st),
                      gs_invalidated := AList.update dataset recorded (gs_invalidated st),
                      gs_dead_tickets :=
                        fold (\<lambda>h. AList.update h (dataset, recorded, t0)) ended (gs_dead_tickets st)\<rparr>
          in (Some \<lparr>er_session = session, er_reason = recorded, er_tickets = ended\<rparr>, prune_generations t1 st))"

definition forget_dataset :: "string \<Rightarrow> generation_state \<Rightarrow> generation_state" where
  "forget_dataset dataset st =
     st\<lparr>gs_live := AList.delete dataset (gs_live st),
        gs_invalidated := AList.delete dataset (gs_invalidated st),
        gs_closing := gs_closing st - {dataset},
        gs_tickets := filter (\<lambda>(_, d, _, _). d \<noteq> dataset) (gs_tickets st),
        gs_dead_tickets := filter (\<lambda>(_, d, _, _). d \<noteq> dataset) (gs_dead_tickets st)\<rparr>"

section \<open>Opens in flight\<close>

type_synonym open_registry = "(string \<times> token) list"

definition open_begin :: "string \<Rightarrow> token \<Rightarrow> open_registry \<Rightarrow> (skp_error + unit) \<times> open_registry" where
  "open_begin key tkn m =
     (if map_of m key \<noteq> None then (Inl (cancel_key_in_use key), m) else (Inr (), AList.update key tkn m))"

definition open_end :: "string \<Rightarrow> open_registry \<Rightarrow> open_registry" where
  "open_end key m = AList.delete key m"

definition open_cancel :: "string \<Rightarrow> open_registry \<Rightarrow> cancel_outcome \<times> open_registry" where
  "open_cancel key m =
     (case map_of m key of
        None \<Rightarrow> (CoUnknown, m)
      | Some tkn \<Rightarrow>
          (if is_cancelled tkn then CoAlreadyTerminal else CoRequested,
           AList.update key (fst (cancel_token tkn)) m))"

section \<open>Lookups after the operations\<close>

named_theorems registry_simps \<open>lookups in a registry after an operation\<close>

lemma map_of_filter_distinct:
  "distinct (map fst m) \<Longrightarrow>
     map_of (filter (\<lambda>(k, v). P k v) m) k =
       (case map_of m k of None \<Rightarrow> None | Some v \<Rightarrow> if P k v then Some v else None)"
proof (induction m)
  case (Cons a m)
  obtain k' v where a: "a = (k', v)" by (cases a)
  have "k' \<notin> fst ` set m" using Cons.prems a by simp
  then have none: "map_of m k' = None" by (simp add: map_of_eq_None_iff)
  show ?case using Cons none by (cases "k = k'") (simp_all add: a)
qed simp

lemma distinct_filter_keys: "distinct (map fst m) \<Longrightarrow> distinct (map fst (filter P m))"
  by (induction m) auto

lemma map_of_update [registry_simps]: "map_of (AList.update k v m) = (map_of m)(k \<mapsto> v)"
  by (rule update_conv')

lemma map_of_delete [registry_simps]: "map_of (AList.delete k m) = (map_of m)(k := None)"
  by (rule delete_conv')

lemma map_of_fold_update [registry_simps]:
  "map_of (fold (\<lambda>h. AList.update h v) hs m) h = (if h \<in> set hs then Some v else map_of m h)"
  by (induction hs arbitrary: m) (simp_all add: registry_simps)

lemma distinct_fold_update:
  "distinct (map fst m) \<Longrightarrow> distinct (map fst (fold (\<lambda>h. AList.update h v) hs m))"
  by (induction hs arbitrary: m) (simp_all add: distinct_update)

lemma sweep_lookup [registry_simps]:
  "distinct (map fst ts) \<Longrightarrow>
     map_of (sweep_expired now ts) h =
       (case map_of ts h of None \<Rightarrow> None | Some s \<Rightarrow> if stale now s then None else Some s)"
  using map_of_filter_distinct [of ts "\<lambda>_ s. \<not> stale now s"]
  by (simp add: sweep_expired_def sweep_locked_def split: option.splits)

lemma sweep_distinct: "distinct (map fst ts) \<Longrightarrow> distinct (map fst (sweep_expired now ts))"
  by (simp add: sweep_expired_def sweep_locked_def distinct_filter_keys)

lemma cancel_entries_lookup:
  "cancel_entries t1 dataset ts n = (m, ts', fired) \<Longrightarrow>
     map fst ts' = map fst ts \<and>
     map_of ts' h = map_option (\<lambda>s. case cancel_entry t1 dataset s of Some (s', _) \<Rightarrow> s' | None \<Rightarrow> s) (map_of ts h)"
  by (induction ts arbitrary: n m ts' fired)
     (auto split: option.splits prod.splits if_splits)

lemma cancel_entry_not_pending:
  "pending_for d (case cancel_entry t1 dataset s of Some (s', _) \<Rightarrow> s' | None \<Rightarrow> s) \<longleftrightarrow>
     d \<noteq> dataset \<and> pending_for d s"
  by (cases s) (auto simp: pending_for_def cancel_entry_def)

end
