(* ===== verification/Skp_Host.thy ===== *)
theory Skp_Host
  imports Skp_Registry Wire
begin

text \<open>
  \<open>SkpHost\<close> of \<open>kernel/src/skp.rs\<close> and the ticket factory of \<open>kernel/src/lib.rs\<close> under concurrency. A thread runs
  one command at a time; its program counter stands between two critical sections, and \<open>advance\<close> executes its next
  one. What the section asks of its environment (clock readings, random bytes, the engine's answers, whether the
  event queue has room) is in the record \<open>env\<close>. The \<open>Catalog\<close>'s read guard that \<open>open_dataset\<close> holds from its
  membership test to its record of the watch blocks the writers of the catalog. The set of handles minted so far
  and the log of redemptions are history variables: no section reads them.
\<close>

section \<open>Requests, answers and program counters\<close>

datatype watch_signal = WsChange string | WsCoverageLost string

datatype latch_state = PreAdmission "watch_signal option" | LatchAdmitted

datatype coverage_outcome = CvWatching | CvChecksOnly string

datatype arm_outcome = ArmWatching | ArmChecksOnly string

record session_ended_event =
  ev_session :: string
  ev_reason :: wire_end_reason

datatype answer =
    AnsOpened string string
  | AnsStream string u32
  | AnsCancel cancel_state
  | AnsClosed u32
  | AnsSource pending_built
  | AnsRefused string
  | AnsError skp_error
  | AnsEnded u32
  | AnsSessionEnd "wire_end_reason option"
  | AnsSignalled

datatype command =
    CmdOpen string string
  | CmdDescribe string string
  | CmdQuery string string
  | CmdCancel string string
  | CmdClose string string
  | CmdRedeem "byte list"
  | CmdSignal string watch_signal
  | CmdSourceChanged string

text \<open>The reason of \<open>EndDue\<close> and the rest of the ending threads carry what the caller of \<open>end_generation\<close> returns
  afterwards; \<open>None\<close> stands for the count itself.\<close>

datatype pc =
    Idle
  | OpenBegun string
  | OpenArmed string string arm_outcome
  | OpenCatalogued string string arm_outcome
  | OpenRejecting string string "skp_error option"
  | OpenRejected string string
  | OpenAdmitted string string arm_outcome string
  | DescribeKnown string
  | QuerySwept string
  | QueryResolved string
  | QueryLive string
  | QueryBuilt string pending_built
  | QueryMinted string string
  | QueryUnattributed string string
  | QueryCancelled string
  | CloseUnwatched string
  | CloseKnown string
  | CloseBegun string
  | CloseCancelled string u32
  | CloseForgotten string u32
  | RedeemLive string
  | RedeemRefused string string
  | EndDue string session_end_reason "answer option"
  | EndRecorded end_report "answer option"
  | EndCancelling "string list" u32 "answer option"
  | Done answer

record skp_host =
  hs_now :: nanos
  hs_catalog :: "string set"
  hs_tickets :: stream_registry
  hs_opens :: open_registry
  hs_gens :: generation_state
  hs_latches :: "(string \<times> latch_state) list"
  hs_watches :: "(string \<times> coverage_outcome) list"
  hs_events :: "session_ended_event list"
  hs_fired :: "nat list"
  hs_pcs :: "nat \<Rightarrow> pc"
  hs_minted :: "string set"
  hs_redemptions :: "string list"

record env =
  en_t0 :: nanos
  en_t1 :: nanos
  en_command :: command
  en_random :: "byte list"
  en_arm :: arm_outcome
  en_open :: "engine_error + unit"
  en_unchanged :: bool
  en_build :: "viewport_query_build_error + unit"
  en_stream :: "engine_error + pending_built"

definition host_new :: skp_host where
  "host_new =
     \<lparr>hs_now = 0, hs_catalog = {}, hs_tickets = [], hs_opens = [], hs_gens = generation_new, hs_latches = [],
      hs_watches = [], hs_events = [], hs_fired = [], hs_pcs = (\<lambda>_. Idle), hs_minted = {}, hs_redemptions = []\<rparr>"

definition goto :: "nat \<Rightarrow> pc \<Rightarrow> skp_host \<Rightarrow> skp_host" where
  "goto i p st = st\<lparr>hs_pcs := (hs_pcs st)(i := p)\<rparr>"

definition with_tickets :: "stream_registry \<Rightarrow> nat list \<Rightarrow> skp_host \<Rightarrow> skp_host" where
  "with_tickets ts fired st = st\<lparr>hs_tickets := ts, hs_fired := hs_fired st @ fired\<rparr>"

definition with_gens :: "generation_state \<Rightarrow> skp_host \<Rightarrow> skp_host" where
  "with_gens g st = st\<lparr>hs_gens := g\<rparr>"

section \<open>Shared pieces\<close>

definition session_end_event_queue_bound :: nat where "session_end_event_queue_bound = 64"

definition check_version :: "string \<Rightarrow> skp_error + unit" where
  "check_version v = (if v \<noteq> skp_version then Inl (version_unsupported v) else Inr ())"

definition reason_of_signal :: "watch_signal \<Rightarrow> session_end_reason" where
  "reason_of_signal s = (case s of WsChange _ \<Rightarrow> ObservedChange | WsCoverageLost _ \<Rightarrow> CoverageLost)"

definition engine_error_of_pre_admission_signal :: "watch_signal \<Rightarrow> engine_error" where
  "engine_error_of_pre_admission_signal s =
     (case s of
        WsChange _ \<Rightarrow>
          EngSourceChanged ''{[P6 placeholder] a notification arrived for this source before admission}''
      | WsCoverageLost cause \<Rightarrow> EngSourceCoverageLost cause)"

definition lost_kind_error :: engine_error where
  "lost_kind_error =
     EngSourceCoverageLost
       (''[P6 placeholder] a notification arrived for this source before admission, but its kind could not be '' @
        ''recovered after disarming'')"

definition ended_error :: "session_end_reason \<Rightarrow> engine_error" where
  "ended_error reason =
     (case reason of
        ObservedChange \<Rightarrow>
          EngSourceChanged
            (''{this dataset'' @ [CHR 0x27] @ ''s session ended when its source was observed to have changed}'')
      | CoverageLost \<Rightarrow>
          EngSourceCoverageLost
            (''{[P6 placeholder] this dataset'' @ [CHR 0x27] @ ''s session ended when the advisory watch on its '' @
             ''source lost coverage}''))"

definition ended_while_prepared_error :: "session_end_reason \<Rightarrow> engine_error" where
  "ended_while_prepared_error reason =
     (case reason of
        ObservedChange \<Rightarrow>
          EngSourceChanged
            (''{this dataset'' @ [CHR 0x27] @ ''s session ended while this query was being prepared}'')
      | CoverageLost \<Rightarrow>
          EngSourceCoverageLost
            (''{[P6 placeholder] this dataset'' @ [CHR 0x27] @ ''s session ended while this query was being prepared}''))"

definition require_live :: "nanos \<Rightarrow> string \<Rightarrow> generation_state \<Rightarrow> (skp_error + unit) \<times> generation_state" where
  "require_live now dataset g =
     (case live_generation now dataset g of
        (Inr _, g) \<Rightarrow> (Inr (), g)
      | (Inl (NlEnded reason), g) \<Rightarrow> (Inl (error_of (ended_error reason)), g)
      | (Inl NlNotOpen, g) \<Rightarrow> (Inl (unknown_dataset dataset), g))"

section \<open>Opening a dataset\<close>

definition open_start :: "(string \<Rightarrow> string) \<Rightarrow> string \<Rightarrow> string \<Rightarrow> nat \<Rightarrow> skp_host \<Rightarrow> skp_host" where
  "open_start dbg skp key i st =
     (case bind_ok (check_version skp)
             (\<lambda>_. case cancel_key_try_from dbg key of
                     Inl e \<Rightarrow> Inl (protocol ''malformed_cancel_key'' e)
                   | Inr k \<Rightarrow> Inr k) of
        Inl e \<Rightarrow> goto i (Done (AnsError e)) st
      | Inr k \<Rightarrow>
          (case open_begin k token_new (hs_opens st) of
             (Inl e, _) \<Rightarrow> goto i (Done (AnsError e)) st
           | (Inr _, opens) \<Rightarrow> goto i (OpenBegun k) (st\<lparr>hs_opens := opens\<rparr>)))"

text \<open>The return of \<open>open_dataset\<close> drops its guard, which ends the open in flight.\<close>

definition open_return :: "nat \<Rightarrow> string \<Rightarrow> answer \<Rightarrow> skp_host \<Rightarrow> skp_host" where
  "open_return i key a st = goto i (Done a) (st\<lparr>hs_opens := open_end key (hs_opens st)\<rparr>)"

definition open_arm :: "env \<Rightarrow> string \<Rightarrow> nat \<Rightarrow> skp_host \<Rightarrow> skp_host" where
  "open_arm en key i st =
     (let ds = mint_hex_id dataset_prefix (en_random en)
      in goto i (OpenArmed key ds (en_arm en))
           (st\<lparr>hs_latches := AList.update ds (PreAdmission None) (hs_latches st),
               hs_minted := insert ds (hs_minted st)\<rparr>))"

text \<open>\<open>Catalog::open_cancellable\<close>: the engine's open, then the insertion under the write lock.\<close>

definition open_catalog :: "env \<Rightarrow> string \<Rightarrow> string \<Rightarrow> arm_outcome \<Rightarrow> nat \<Rightarrow> skp_host \<Rightarrow> skp_host" where
  "open_catalog en key ds arm i st =
     (case en_open en of
        Inl e \<Rightarrow> open_return i key (AnsError (error_of e)) st
      | Inr _ \<Rightarrow> goto i (OpenCatalogued key ds arm) (st\<lparr>hs_catalog := insert ds (hs_catalog st)\<rparr>))"

definition recorded_signal :: "skp_host \<Rightarrow> string \<Rightarrow> watch_signal option" where
  "recorded_signal st ds = (case map_of (hs_latches st) ds of Some (PreAdmission r) \<Rightarrow> r | _ \<Rightarrow> None)"

definition open_admit :: "env \<Rightarrow> string \<Rightarrow> string \<Rightarrow> arm_outcome \<Rightarrow> nat \<Rightarrow> skp_host \<Rightarrow> skp_host" where
  "open_admit en key ds arm i st =
     (let recorded = recorded_signal st ds;
          session = mint_hex_id session_prefix (en_random en);
          admit = (if ds \<notin> hs_catalog st then open_return i key (AnsError (unknown_dataset ds)) st
                   else goto i (OpenAdmitted key ds arm session)
                          (with_gens (snd (mint_for_open (en_t0 en) ds session (hs_gens st)))
                             (st\<lparr>hs_latches := AList.update ds LatchAdmitted (hs_latches st)\<rparr>)))
      in case arm of
           ArmWatching \<Rightarrow>
             if recorded \<noteq> None \<or> \<not> en_unchanged en then goto i (OpenRejecting key ds None) st else admit
         | ArmChecksOnly _ \<Rightarrow>
             (case recorded of
                Some s \<Rightarrow>
                  goto i (OpenRejecting key ds (Some (error_of (engine_error_of_pre_admission_signal s)))) st
              | None \<Rightarrow> admit))"

definition open_remove :: "string \<Rightarrow> string \<Rightarrow> skp_error option \<Rightarrow> nat \<Rightarrow> skp_host \<Rightarrow> skp_host" where
  "open_remove key ds err i st =
     (let st = st\<lparr>hs_catalog := hs_catalog st - {ds}\<rparr>
      in case err of
           Some e \<Rightarrow> open_return i key (AnsError e) st
         | None \<Rightarrow> goto i (OpenRejected key ds) st)"

definition open_reject :: "string \<Rightarrow> string \<Rightarrow> nat \<Rightarrow> skp_host \<Rightarrow> skp_host" where
  "open_reject key ds i st =
     open_return i key
       (AnsError (error_of (case recorded_signal st ds of
                              Some s \<Rightarrow> engine_error_of_pre_admission_signal s
                            | None \<Rightarrow> lost_kind_error))) st"

definition open_record :: "string \<Rightarrow> string \<Rightarrow> arm_outcome \<Rightarrow> string \<Rightarrow> nat \<Rightarrow> skp_host \<Rightarrow> skp_host" where
  "open_record key ds arm session i st =
     open_return i key (AnsOpened ds session)
       (st\<lparr>hs_watches :=
            AList.update ds (case arm of ArmWatching \<Rightarrow> CvWatching | ArmChecksOnly r \<Rightarrow> CvChecksOnly r) (hs_watches st)\<rparr>)"

section \<open>Watch signals and the end of a generation\<close>

definition watch_sink :: "string \<Rightarrow> watch_signal \<Rightarrow> nat \<Rightarrow> skp_host \<Rightarrow> skp_host" where
  "watch_sink ds s i st =
     (case map_of (hs_latches st) ds of
        Some (PreAdmission None) \<Rightarrow>
          goto i (Done AnsSignalled) (st\<lparr>hs_latches := AList.update ds (PreAdmission (Some s)) (hs_latches st)\<rparr>)
      | Some LatchAdmitted \<Rightarrow> goto i (EndDue ds (reason_of_signal s) (Some AnsSignalled)) st
      | _ \<Rightarrow> goto i (Done AnsSignalled) st)"

definition finish_end :: "answer option \<Rightarrow> u32 \<Rightarrow> answer" where
  "finish_end k n = (case k of Some a \<Rightarrow> a | None \<Rightarrow> AnsEnded n)"

definition end_record :: "env \<Rightarrow> string \<Rightarrow> session_end_reason \<Rightarrow> answer option \<Rightarrow> nat \<Rightarrow> skp_host \<Rightarrow> skp_host" where
  "end_record en ds reason k i st =
     (case invalidate (en_t0 en) (en_t1 en) ds reason (hs_gens st) of
        (None, g) \<Rightarrow> goto i (Done (finish_end k 0)) (with_gens g st)
      | (Some report, g) \<Rightarrow> goto i (EndRecorded report k) (with_gens g st))"

definition end_enqueue :: "end_report \<Rightarrow> answer option \<Rightarrow> nat \<Rightarrow> skp_host \<Rightarrow> skp_host" where
  "end_enqueue report k i st =
     goto i (EndCancelling (er_tickets report) 0 k)
       (if length (hs_events st) < session_end_event_queue_bound
        then st\<lparr>hs_events := hs_events st @ [\<lparr>ev_session = er_session report, ev_reason = end_reason_of (er_reason report)\<rparr>]\<rparr>
        else st)"

definition end_cancel :: "env \<Rightarrow> string list \<Rightarrow> u32 \<Rightarrow> answer option \<Rightarrow> nat \<Rightarrow> skp_host \<Rightarrow> skp_host" where
  "end_cancel en hs n k i st =
     (case hs of
        [] \<Rightarrow> goto i (Done (finish_end k n)) st
      | h # hs \<Rightarrow>
          (case cancel_ticket (en_t0 en) (en_t1 en) h (hs_tickets st) of
             (outcome, ts, fired) \<Rightarrow>
               goto i (EndCancelling hs (if outcome = CoRequested then n + 1 else n) k) (with_tickets ts fired st)))"

section \<open>Viewport queries\<close>

definition query_start :: "env \<Rightarrow> string \<Rightarrow> string \<Rightarrow> nat \<Rightarrow> skp_host \<Rightarrow> skp_host" where
  "query_start en skp ds i st =
     (case check_version skp of
        Inl e \<Rightarrow> goto i (Done (AnsError e)) st
      | Inr _ \<Rightarrow> goto i (QuerySwept ds) (with_tickets (sweep_expired (en_t0 en) (hs_tickets st)) [] st))"

definition query_resolve :: "string \<Rightarrow> nat \<Rightarrow> skp_host \<Rightarrow> skp_host" where
  "query_resolve ds i st =
     (if ds \<in> hs_catalog st then goto i (QueryResolved ds) st
      else goto i (Done (AnsError (unknown_dataset ds))) st)"

definition query_require_live :: "env \<Rightarrow> string \<Rightarrow> nat \<Rightarrow> skp_host \<Rightarrow> skp_host" where
  "query_require_live en ds i st =
     (case require_live (en_t0 en) ds (hs_gens st) of
        (Inl e, g) \<Rightarrow> goto i (Done (AnsError e)) (with_gens g st)
      | (Inr _, g) \<Rightarrow> goto i (QueryLive ds) (with_gens g st))"

definition query_build :: "env \<Rightarrow> string \<Rightarrow> nat \<Rightarrow> skp_host \<Rightarrow> skp_host" where
  "query_build en ds i st =
     (case en_build en of
        Inl e \<Rightarrow> goto i (Done (AnsError (viewport_query_build_error_of e))) st
      | Inr _ \<Rightarrow>
          (case en_stream en of
             Inr built \<Rightarrow> goto i (QueryBuilt ds built) st
           | Inl e \<Rightarrow>
               (case e of
                  EngSourceChanged _ \<Rightarrow> goto i (EndDue ds ObservedChange (Some (AnsError (error_of e)))) st
                | _ \<Rightarrow> goto i (Done (AnsError (error_of e))) st)))"

definition query_mint :: "env \<Rightarrow> string \<Rightarrow> pending_built \<Rightarrow> nat \<Rightarrow> skp_host \<Rightarrow> skp_host" where
  "query_mint en ds built i st =
     (case mint (en_t0 en) (en_t1 en) (en_random en) ds built (hs_tickets st) of
        (Inl e, ts) \<Rightarrow> goto i (Done (AnsError e)) (with_tickets ts [] st)
      | (Inr h, ts) \<Rightarrow> goto i (QueryMinted ds h) (with_tickets ts [] (st\<lparr>hs_minted := insert h (hs_minted st)\<rparr>)))"

definition query_attribute :: "env \<Rightarrow> string \<Rightarrow> string \<Rightarrow> nat \<Rightarrow> skp_host \<Rightarrow> skp_host" where
  "query_attribute en ds h i st =
     (case attribute_ticket (en_t0 en) (en_t1 en) h ds (hs_gens st) of
        (True, g) \<Rightarrow> goto i (Done (AnsStream h (word_of_nat (ticket_ttl div 10 ^ 6)))) (with_gens g st)
      | (False, g) \<Rightarrow> goto i (QueryUnattributed ds h) (with_gens g st))"

definition query_cancel :: "env \<Rightarrow> string \<Rightarrow> string \<Rightarrow> nat \<Rightarrow> skp_host \<Rightarrow> skp_host" where
  "query_cancel en ds h i st =
     (case cancel_ticket (en_t0 en) (en_t1 en) h (hs_tickets st) of
        (_, ts, fired) \<Rightarrow> goto i (QueryCancelled ds) (with_tickets ts fired st))"

definition query_refuse :: "env \<Rightarrow> string \<Rightarrow> nat \<Rightarrow> skp_host \<Rightarrow> skp_host" where
  "query_refuse en ds i st =
     (case ended_reason (en_t0 en) ds (hs_gens st) of
        (None, g) \<Rightarrow> goto i (Done (AnsError (unknown_dataset ds))) (with_gens g st)
      | (Some reason, g) \<Rightarrow>
          goto i (Done (AnsError (error_of (ended_while_prepared_error reason)))) (with_gens g st))"

section \<open>Describe, cancel, close\<close>

definition describe_start :: "string \<Rightarrow> string \<Rightarrow> nat \<Rightarrow> skp_host \<Rightarrow> skp_host" where
  "describe_start skp ds i st =
     (case check_version skp of
        Inl e \<Rightarrow> goto i (Done (AnsError e)) st
      | Inr _ \<Rightarrow>
          if ds \<in> hs_catalog st then goto i (DescribeKnown ds) st
          else goto i (Done (AnsError (unknown_dataset ds))) st)"

definition describe_session_end :: "env \<Rightarrow> string \<Rightarrow> nat \<Rightarrow> skp_host \<Rightarrow> skp_host" where
  "describe_session_end en ds i st =
     (case ended_reason (en_t0 en) ds (hs_gens st) of
        (r, g) \<Rightarrow> goto i (Done (AnsSessionEnd (map_option end_reason_of r))) (with_gens g st))"

definition host_cancel :: "(string \<Rightarrow> string) \<Rightarrow> env \<Rightarrow> string \<Rightarrow> string \<Rightarrow> nat \<Rightarrow> skp_host \<Rightarrow> skp_host" where
  "host_cancel dbg en skp handle i st =
     (case check_version skp of
        Inl e \<Rightarrow> goto i (Done (AnsError e)) st
      | Inr _ \<Rightarrow>
          (case handle_from_str dbg stream_prefix handle of
             Inr h \<Rightarrow>
               (case cancel_ticket (en_t0 en) (en_t1 en) h (hs_tickets st) of
                  (outcome, ts, fired) \<Rightarrow> goto i (Done (AnsCancel (cancel_state_of outcome))) (with_tickets ts fired st))
           | Inl _ \<Rightarrow>
               (case open_cancel handle (hs_opens st) of
                  (outcome, opens) \<Rightarrow>
                    goto i (Done (AnsCancel (cancel_state_of outcome))) (st\<lparr>hs_opens := opens\<rparr>))))"

definition close_start :: "string \<Rightarrow> string \<Rightarrow> nat \<Rightarrow> skp_host \<Rightarrow> skp_host" where
  "close_start skp ds i st =
     (case check_version skp of
        Inl e \<Rightarrow> goto i (Done (AnsError e)) st
      | Inr _ \<Rightarrow> goto i (CloseUnwatched ds) (st\<lparr>hs_watches := AList.delete ds (hs_watches st)\<rparr>))"

definition close_lookup :: "string \<Rightarrow> nat \<Rightarrow> skp_host \<Rightarrow> skp_host" where
  "close_lookup ds i st =
     (if ds \<in> hs_catalog st then goto i (CloseKnown ds) st
      else goto i (Done (AnsError (unknown_dataset ds))) st)"

definition close_begin :: "string \<Rightarrow> nat \<Rightarrow> skp_host \<Rightarrow> skp_host" where
  "close_begin ds i st = goto i (CloseBegun ds) (with_gens (begin_close ds (hs_gens st)) st)"

definition close_cancel :: "env \<Rightarrow> string \<Rightarrow> nat \<Rightarrow> skp_host \<Rightarrow> skp_host" where
  "close_cancel en ds i st =
     (case cancel_all_for_dataset (en_t0 en) (en_t1 en) ds (hs_tickets st) of
        (n, ts, fired) \<Rightarrow> goto i (CloseCancelled ds n) (with_tickets ts fired st))"

definition close_forget :: "string \<Rightarrow> u32 \<Rightarrow> nat \<Rightarrow> skp_host \<Rightarrow> skp_host" where
  "close_forget ds n i st =
     goto i (CloseForgotten ds n)
       (with_gens (forget_dataset ds (hs_gens st)) (st\<lparr>hs_catalog := hs_catalog st - {ds}\<rparr>))"

definition close_unwatch :: "string \<Rightarrow> u32 \<Rightarrow> nat \<Rightarrow> skp_host \<Rightarrow> skp_host" where
  "close_unwatch ds n i st =
     goto i (Done (AnsClosed n)) (st\<lparr>hs_watches := AList.delete ds (hs_watches st)\<rparr>)"

section \<open>Redeeming a ticket on the data plane\<close>

definition liveness_refusal :: "nanos \<Rightarrow> string \<Rightarrow> generation_state \<Rightarrow> string option \<times> generation_state" where
  "liveness_refusal now handle g =
     (case ticket_liveness now handle g of
        (TlEndedBySourceChange, g) \<Rightarrow> (Some (terminal_detail_of (ended_error ObservedChange)), g)
      | (TlEndedByCoverageLoss, g) \<Rightarrow> (Some (terminal_detail_of (ended_error CoverageLost)), g)
      | (_, g) \<Rightarrow> (None, g))"

definition redeem_start :: "(string \<Rightarrow> string) \<Rightarrow> env \<Rightarrow> byte list \<Rightarrow> nat \<Rightarrow> skp_host \<Rightarrow> skp_host" where
  "redeem_start dbg en params i st =
     (if \<not> utf8_valid (bytes_str params)
      then goto i (Done (AnsRefused ''ticket handle is not valid UTF-8'')) st
      else
        (case handle_from_str dbg stream_prefix (bytes_str params) of
           Inl e \<Rightarrow> goto i (Done (AnsRefused (''not a ticket this producer minted: '' @ e))) st
         | Inr handle \<Rightarrow>
             (case liveness_refusal (en_t0 en) handle (hs_gens st) of
                (Some refusal, g) \<Rightarrow> goto i (Done (AnsRefused refusal)) (with_gens g st)
              | (None, g) \<Rightarrow> goto i (RedeemLive handle) (with_gens g st))))"

definition redeem_ticket :: "env \<Rightarrow> string \<Rightarrow> nat \<Rightarrow> skp_host \<Rightarrow> skp_host" where
  "redeem_ticket en handle i st =
     (case redeem (en_t0 en) (en_t1 en) handle (hs_tickets st) of
        (Inr built, ts) \<Rightarrow>
          goto i (Done (AnsSource built))
            (with_tickets ts [] (st\<lparr>hs_redemptions := handle # hs_redemptions st\<rparr>))
      | (Inl refusal, ts) \<Rightarrow> goto i (RedeemRefused handle refusal) (with_tickets ts [] st))"

definition redeem_refuse :: "env \<Rightarrow> string \<Rightarrow> string \<Rightarrow> nat \<Rightarrow> skp_host \<Rightarrow> skp_host" where
  "redeem_refuse en handle refusal i st =
     (case liveness_refusal (en_t0 en) handle (hs_gens st) of
        (r, g) \<Rightarrow> goto i (Done (AnsRefused (case r of Some x \<Rightarrow> x | None \<Rightarrow> refusal))) (with_gens g st))"

section \<open>Threads\<close>

definition start :: "(string \<Rightarrow> string) \<Rightarrow> env \<Rightarrow> nat \<Rightarrow> skp_host \<Rightarrow> skp_host" where
  "start dbg en i st =
     (case en_command en of
        CmdOpen skp key \<Rightarrow> open_start dbg skp key i st
      | CmdDescribe skp ds \<Rightarrow> describe_start skp ds i st
      | CmdQuery skp ds \<Rightarrow> query_start en skp ds i st
      | CmdCancel skp handle \<Rightarrow> host_cancel dbg en skp handle i st
      | CmdClose skp ds \<Rightarrow> close_start skp ds i st
      | CmdRedeem params \<Rightarrow> redeem_start dbg en params i st
      | CmdSignal ds s \<Rightarrow> watch_sink ds s i st
      | CmdSourceChanged ds \<Rightarrow> goto i (EndDue ds ObservedChange None) st)"

text \<open>A thread whose next section takes the catalog's write lock waits while another holds a read guard.\<close>

fun holds_catalog :: "pc \<Rightarrow> bool" where
  "holds_catalog (OpenAdmitted _ _ _ _) = True"
| "holds_catalog _ = False"

fun writes_catalog :: "pc \<Rightarrow> bool" where
  "writes_catalog (OpenArmed _ _ _) = True"
| "writes_catalog (OpenRejecting _ _ _) = True"
| "writes_catalog (CloseCancelled _ _) = True"
| "writes_catalog _ = False"

definition advance :: "(string \<Rightarrow> string) \<Rightarrow> env \<Rightarrow> nat \<Rightarrow> skp_host \<Rightarrow> skp_host" where
  "advance dbg en i st =
     (case hs_pcs st i of
        Idle \<Rightarrow> start dbg en i st
      | OpenBegun key \<Rightarrow> open_arm en key i st
      | OpenArmed key ds arm \<Rightarrow> open_catalog en key ds arm i st
      | OpenCatalogued key ds arm \<Rightarrow> open_admit en key ds arm i st
      | OpenRejecting key ds err \<Rightarrow> open_remove key ds err i st
      | OpenRejected key ds \<Rightarrow> open_reject key ds i st
      | OpenAdmitted key ds arm session \<Rightarrow> open_record key ds arm session i st
      | DescribeKnown ds \<Rightarrow> describe_session_end en ds i st
      | QuerySwept ds \<Rightarrow> query_resolve ds i st
      | QueryResolved ds \<Rightarrow> query_require_live en ds i st
      | QueryLive ds \<Rightarrow> query_build en ds i st
      | QueryBuilt ds built \<Rightarrow> query_mint en ds built i st
      | QueryMinted ds h \<Rightarrow> query_attribute en ds h i st
      | QueryUnattributed ds h \<Rightarrow> query_cancel en ds h i st
      | QueryCancelled ds \<Rightarrow> query_refuse en ds i st
      | CloseUnwatched ds \<Rightarrow> close_lookup ds i st
      | CloseKnown ds \<Rightarrow> close_begin ds i st
      | CloseBegun ds \<Rightarrow> close_cancel en ds i st
      | CloseCancelled ds n \<Rightarrow> close_forget ds n i st
      | CloseForgotten ds n \<Rightarrow> close_unwatch ds n i st
      | RedeemLive h \<Rightarrow> redeem_ticket en h i st
      | RedeemRefused h e \<Rightarrow> redeem_refuse en h e i st
      | EndDue ds reason k \<Rightarrow> end_record en ds reason k i st
      | EndRecorded report k \<Rightarrow> end_enqueue report k i st
      | EndCancelling hs n k \<Rightarrow> end_cancel en hs n k i st
      | Done _ \<Rightarrow> goto i Idle st)"

text \<open>The environment's contract: the clock does not go back, and the operating system's random bytes mint no
  handle twice.\<close>

definition env_ok :: "env \<Rightarrow> skp_host \<Rightarrow> bool" where
  "env_ok en st \<longleftrightarrow>
     hs_now st \<le> en_t0 en \<and> en_t0 en \<le> en_t1 en \<and> length (en_random en) = 16 \<and>
     mint_hex_id dataset_prefix (en_random en) \<notin> hs_minted st \<and>
     mint_hex_id stream_prefix (en_random en) \<notin> hs_minted st"

inductive host_step :: "(string \<Rightarrow> string) \<Rightarrow> skp_host \<Rightarrow> skp_host \<Rightarrow> bool" for dbg where
  advances:
    "env_ok en st \<Longrightarrow> writes_catalog (hs_pcs st i) \<longrightarrow> (\<forall>j. \<not> holds_catalog (hs_pcs st j)) \<Longrightarrow>
     host_step dbg st ((advance dbg en i st)\<lparr>hs_now := en_t1 en\<rparr>)"
| event_drained: "host_step dbg st (st\<lparr>hs_events := tl (hs_events st)\<rparr>)"

inductive host_reachable :: "(string \<Rightarrow> string) \<Rightarrow> skp_host \<Rightarrow> bool" for dbg where
  initially: "host_reachable dbg host_new"
| stepwise: "host_reachable dbg st \<Longrightarrow> host_step dbg st st' \<Longrightarrow> host_reachable dbg st'"

end
