(* ===== verification/Skp_Host_Proofs.thy ===== *)
theory Skp_Host_Proofs
  imports Skp_Host
begin

text \<open>
  What holds of the host's registries whatever the interleaving: a ticket is redeemed at most once, a dataset has
  a bounded number of unredeemed tickets, and a ticket that can still be redeemed belongs to a live session or is
  owed a cancellation by a thread that is about to deliver it.
\<close>

section \<open>The invariant\<close>

fun owes :: "pc \<Rightarrow> string \<Rightarrow> bool" where
  "owes (QueryMinted _ h') h \<longleftrightarrow> h = h'"
| "owes (QueryUnattributed _ h') h \<longleftrightarrow> h = h'"
| "owes (EndRecorded r _) h \<longleftrightarrow> h \<in> set (er_tickets r)"
| "owes (EndCancelling hs _ _) h \<longleftrightarrow> h \<in> set hs"
| "owes _ h \<longleftrightarrow> False"

fun being_opened :: "pc \<Rightarrow> string \<Rightarrow> bool" where
  "being_opened (OpenArmed _ d _) ds \<longleftrightarrow> d = ds"
| "being_opened (OpenCatalogued _ d _) ds \<longleftrightarrow> d = ds"
| "being_opened (OpenRejecting _ d _) ds \<longleftrightarrow> d = ds"
| "being_opened _ ds \<longleftrightarrow> False"

fun arming :: "pc \<Rightarrow> string \<Rightarrow> bool" where
  "arming (OpenArmed _ d _) ds \<longleftrightarrow> d = ds"
| "arming _ ds \<longleftrightarrow> False"

fun close_begun :: "pc \<Rightarrow> string \<Rightarrow> bool" where
  "close_begun (CloseBegun d) ds \<longleftrightarrow> d = ds"
| "close_begun (CloseCancelled d _) ds \<longleftrightarrow> d = ds"
| "close_begun _ ds \<longleftrightarrow> False"

fun close_known :: "pc \<Rightarrow> string \<Rightarrow> bool" where
  "close_known (CloseKnown d) ds \<longleftrightarrow> d = ds"
| "close_known p ds \<longleftrightarrow> close_begun p ds"

definition attributed :: "generation_state \<Rightarrow> string \<Rightarrow> string \<Rightarrow> nanos \<Rightarrow> bool" where
  "attributed G h d m \<longleftrightarrow>
     (\<exists>g at. map_of (gs_tickets G) h = Some (d, g, at) \<and> m \<le> at \<and> live_is G d g) \<and> map_of (gs_dead_tickets G) h = None"

definition maps_ok :: "stream_registry \<Rightarrow> generation_state \<Rightarrow> bool" where
  "maps_ok T G \<longleftrightarrow>
     distinct (map fst T) \<and> distinct (map fst (gs_tickets G)) \<and> distinct (map fst (gs_dead_tickets G))"

definition handles_used ::
    "string set \<Rightarrow> stream_registry \<Rightarrow> generation_state \<Rightarrow> string list \<Rightarrow> (nat \<Rightarrow> pc) \<Rightarrow> bool" where
  "handles_used used T G reds pcs \<longleftrightarrow>
     (\<forall>h. map_of T h \<noteq> None \<or> map_of (gs_tickets G) h \<noteq> None \<or> map_of (gs_dead_tickets G) h \<noteq> None \<or>
          h \<in> set reds \<or> (\<exists>i. owes (pcs i) h) \<longrightarrow> h \<in> used)"

definition live_catalogued :: "string set \<Rightarrow> string set \<Rightarrow> generation_state \<Rightarrow> bool" where
  "live_catalogued used cat G \<longleftrightarrow> cat \<subseteq> used \<and> (\<forall>d. map_of (gs_live G) d \<noteq> None \<longrightarrow> d \<in> cat)"

definition redeemed_once :: "stream_registry \<Rightarrow> string list \<Rightarrow> bool" where
  "redeemed_once T reds \<longleftrightarrow>
     distinct reds \<and> (\<forall>h \<in> set reds. \<forall>b d m. map_of T h \<noteq> Some (Pending b d m))"

definition being_opened_ok :: "string set \<Rightarrow> generation_state \<Rightarrow> (nat \<Rightarrow> pc) \<Rightarrow> bool" where
  "being_opened_ok used G pcs \<longleftrightarrow>
     (\<forall>i d. being_opened (pcs i) d \<longrightarrow>
        d \<in> used \<and> map_of (gs_live G) d = None \<and> (\<forall>j. j \<noteq> i \<longrightarrow> \<not> being_opened (pcs j) d))"

definition arming_ok :: "string set \<Rightarrow> (nat \<Rightarrow> pc) \<Rightarrow> bool" where
  "arming_ok cat pcs \<longleftrightarrow> (\<forall>i d. arming (pcs i) d \<longrightarrow> d \<notin> cat \<and> (\<forall>j. \<not> close_known (pcs j) d))"

definition closing_ok :: "string set \<Rightarrow> string set \<Rightarrow> generation_state \<Rightarrow> (nat \<Rightarrow> pc) \<Rightarrow> bool" where
  "closing_ok used cat G pcs \<longleftrightarrow>
     (\<forall>i d. close_known (pcs i) d \<longrightarrow> d \<in> used) \<and>
     (\<forall>i d. close_begun (pcs i) d \<longrightarrow> d \<in> gs_closing G \<or> d \<notin> cat)"

definition minting_ok :: "stream_registry \<Rightarrow> generation_state \<Rightarrow> (nat \<Rightarrow> pc) \<Rightarrow> bool" where
  "minting_ok T G pcs \<longleftrightarrow>
     (\<forall>i ds h. pcs i = QueryMinted ds h \<longrightarrow>
        map_of (gs_tickets G) h = None \<and> map_of (gs_dead_tickets G) h = None \<and>
        (\<forall>b d m. map_of T h = Some (Pending b d m) \<longrightarrow> d = ds) \<and>
        (\<forall>j ds'. pcs j = QueryMinted ds' h \<longrightarrow> j = i))"

definition covered :: "nanos \<Rightarrow> stream_registry \<Rightarrow> generation_state \<Rightarrow> (nat \<Rightarrow> pc) \<Rightarrow> bool" where
  "covered now T G pcs \<longleftrightarrow>
     (\<forall>h b d m. map_of T h = Some (Pending b d m) \<longrightarrow>
        m \<le> now \<and> (now - m > ticket_ttl \<or> (\<exists>i. owes (pcs i) h) \<or> attributed G h d m))"

definition emptied :: "nanos \<Rightarrow> stream_registry \<Rightarrow> (nat \<Rightarrow> pc) \<Rightarrow> bool" where
  "emptied now T pcs \<longleftrightarrow>
     (\<forall>i ds n h b m. pcs i = CloseCancelled ds n \<longrightarrow> map_of T h = Some (Pending b ds m) \<longrightarrow>
        now - m > ticket_ttl \<or> (\<exists>j. owes (pcs j) h))"

definition host_inv ::
    "nanos \<Rightarrow> string set \<Rightarrow> stream_registry \<Rightarrow> generation_state \<Rightarrow> string set \<Rightarrow> string list \<Rightarrow> (nat \<Rightarrow> pc) \<Rightarrow> bool" where
  "host_inv now cat T G used reds pcs \<longleftrightarrow>
     maps_ok T G \<and> handles_used used T G reds pcs \<and> live_catalogued used cat G \<and> redeemed_once T reds \<and>
     being_opened_ok used G pcs \<and> arming_ok cat pcs \<and> closing_ok used cat G pcs \<and> minting_ok T G pcs \<and>
     covered now T G pcs \<and> emptied now T pcs"

lemmas inv_parts = handles_used_def live_catalogued_def redeemed_once_def being_opened_ok_def arming_ok_def
  closing_ok_def minting_ok_def covered_def emptied_def

section \<open>Time and tickets\<close>

lemma inv_tick: "host_inv now cat T G used reds pcs \<Longrightarrow> now \<le> now' \<Longrightarrow> host_inv now' cat T G used reds pcs"
  unfolding host_inv_def covered_def emptied_def by (meson diff_le_mono le_less_trans less_le_trans order.trans)

text \<open>A registry in which nothing new is pending and no new handle is known keeps the invariant.\<close>

lemma inv_fewer_pending:
  assumes inv: "host_inv now cat T G used reds pcs" and dist: "distinct (map fst T')"
    and dom: "\<And>h. map_of T' h \<noteq> None \<Longrightarrow> map_of T h \<noteq> None"
    and pend: "\<And>h b d m. map_of T' h = Some (Pending b d m) \<Longrightarrow> map_of T h = Some (Pending b d m)"
  shows "host_inv now cat T' G used reds pcs"
proof -
  have "handles_used used T' G reds pcs" using inv dom unfolding host_inv_def handles_used_def by meson
  moreover have "redeemed_once T' reds" using inv pend unfolding host_inv_def redeemed_once_def by meson
  moreover have "minting_ok T' G pcs" using inv pend unfolding host_inv_def minting_ok_def by meson
  moreover have "covered now T' G pcs" using inv pend unfolding host_inv_def covered_def by meson
  moreover have "emptied now T' pcs" using inv pend unfolding host_inv_def emptied_def by meson
  ultimately show ?thesis using inv dist unfolding host_inv_def maps_ok_def by simp
qed

lemma inv_distinct: "host_inv now cat T G used reds pcs \<Longrightarrow> distinct (map fst T)"
  by (simp add: host_inv_def maps_ok_def)

lemma inv_sweep: "host_inv now cat T G used reds pcs \<Longrightarrow> host_inv now cat (sweep_expired t T) G used reds pcs"
  by (rule inv_fewer_pending)
     (auto simp: sweep_lookup [OF inv_distinct] sweep_distinct [OF inv_distinct] split: option.splits if_splits)

lemma cancel_ticket_cases:
  assumes "cancel_ticket t0 t1 h T = (out, T', fired)"
  shows "T' = sweep_expired t0 T \<and> (\<forall>b d m. map_of T' h \<noteq> Some (Pending b d m)) \<or>
         (\<exists>s. T' = AList.update h s (sweep_expired t0 T) \<and> (\<forall>b d m. s \<noteq> Pending b d m) \<and>
              map_of (sweep_expired t0 T) h \<noteq> None)"
  using assms by (auto simp: cancel_ticket_def Let_def split: option.splits ticket_state.splits if_splits)

lemma cancel_not_pending: "cancel_ticket t0 t1 h T = (out, T', fired) \<Longrightarrow> map_of T' h \<noteq> Some (Pending b d m)"
  by (drule cancel_ticket_cases) (auto simp: registry_simps)

lemma inv_cancel:
  assumes inv: "host_inv now cat T G used reds pcs" and c: "cancel_ticket t0 t1 h T = (out, T', fired)"
  shows "host_inv now cat T' G used reds pcs"
proof -
  have sw: "host_inv now cat (sweep_expired t0 T) G used reds pcs" by (rule inv_sweep [OF inv])
  from cancel_ticket_cases [OF c] show ?thesis
  proof (elim disjE exE conjE)
    fix s
    assume T': "T' = AList.update h s (sweep_expired t0 T)" and s: "\<forall>b d m. s \<noteq> Pending b d m"
      and known: "map_of (sweep_expired t0 T) h \<noteq> None"
    show ?thesis
      by (rule inv_fewer_pending [OF sw])
         (use T' s known inv_distinct [OF sw] in \<open>auto simp: registry_simps distinct_update split: if_splits\<close>)
  qed (use sw in simp)
qed

lemma inv_cancel_all:
  assumes inv: "host_inv now cat T G used reds pcs" and c: "cancel_all_for_dataset t0 t1 ds T = (n, T', fired)"
  shows "host_inv now cat T' G used reds pcs \<and> (\<forall>h b m. map_of T' h \<noteq> Some (Pending b ds m))"
proof -
  have sw: "host_inv now cat (sweep_expired t0 T) G used reds pcs" by (rule inv_sweep [OF inv])
  have keys: "map fst T' = map fst (sweep_expired t0 T)"
    and look: "map_of T' h = map_option (\<lambda>s. case cancel_entry t1 ds s of Some (s', _) \<Rightarrow> s' | None \<Rightarrow> s)
                               (map_of (sweep_expired t0 T) h)" for h
    using cancel_entries_lookup [of t1 ds "sweep_expired t0 T" 0 n T' fired] c
    by (simp_all add: cancel_all_for_dataset_def)
  have pend: "d \<noteq> ds \<and> map_of (sweep_expired t0 T) h = Some (Pending b d m)"
    if "map_of T' h = Some (Pending b d m)" for h b d m
    using that look [of h]
    by (auto simp: cancel_entry_def split: option.splits ticket_state.splits if_splits)
  have "host_inv now cat T' G used reds pcs"
    by (rule inv_fewer_pending [OF sw]) (use keys look pend inv_distinct [OF sw] in auto)
  with pend show ?thesis by blast
qed

lemma redeem_Inr_iff:
  assumes "redeem t0 t1 h T = (Inr built, T')"
  shows "\<exists>d m. map_of (sweep_expired t0 T) h = Some (Pending built d m) \<and>
           T' = AList.update h (Redeemed d (pb_cancel built) False t1) (AList.delete h (sweep_expired t0 T))"
  using assms by (auto simp: redeem_def Let_def split: option.splits ticket_state.splits)

lemma redeem_Inl: "redeem t0 t1 h T = (Inl e, T') \<Longrightarrow> T' = sweep_expired t0 T"
  by (auto simp: redeem_def Let_def split: option.splits ticket_state.splits)

lemma inv_redeem:
  assumes inv: "host_inv now cat T G used reds pcs" and r: "redeem t0 t1 h T = (Inr built, T')"
  shows "host_inv now cat T' G used (h # reds) pcs"
proof -
  have sw: "host_inv now cat (sweep_expired t0 T) G used reds pcs" by (rule inv_sweep [OF inv])
  from redeem_Inr_iff [OF r] obtain d m
    where p: "map_of (sweep_expired t0 T) h = Some (Pending built d m)"
      and T': "T' = AList.update h (Redeemed d (pb_cancel built) False t1) (AList.delete h (sweep_expired t0 T))"
    by blast
  have "h \<notin> set reds" using sw p by (auto simp: host_inv_def redeemed_once_def)
  moreover have "h \<in> used" using sw p unfolding host_inv_def handles_used_def by (metis option.distinct(1))
  moreover have T'inv: "host_inv now cat T' G used reds pcs"
    by (rule inv_fewer_pending [OF sw])
       (use T' p inv_distinct [OF sw] in \<open>auto simp: registry_simps distinct_update distinct_delete split: if_splits\<close>)
  moreover have "map_of T' h \<noteq> Some (Pending b d' m')" for b d' m' by (simp add: T' registry_simps)
  ultimately show ?thesis
    by (auto simp: host_inv_def redeemed_once_def handles_used_def)
qed

section \<open>Generations\<close>

lemma prune_lookups [registry_simps]:
  assumes "distinct (map fst (gs_tickets G))" "distinct (map fst (gs_dead_tickets G))"
  shows "map_of (gs_tickets (prune_generations t G)) h =
           (case map_of (gs_tickets G) h of
              Some (d, g, at) \<Rightarrow> if t - at \<le> attribution_max_age \<and> live_is G d g then Some (d, g, at) else None
            | None \<Rightarrow> None)"
    and "map_of (gs_dead_tickets (prune_generations t G)) h =
           (case map_of (gs_dead_tickets G) h of
              Some (d, r, at) \<Rightarrow> if t - at \<le> attribution_max_age then Some (d, r, at) else None
            | None \<Rightarrow> None)"
  using map_of_filter_distinct [OF assms(1), of "\<lambda>_ (d, g, at). t - at \<le> attribution_max_age \<and> live_is G d g" h]
    map_of_filter_distinct [OF assms(2), of "\<lambda>_ (_, _, at). t - at \<le> attribution_max_age" h]
  by (auto simp: prune_generations_def split: option.splits prod.splits)

lemma prune_fields [simp]:
  "gs_live (prune_generations t G) = gs_live G" "gs_invalidated (prune_generations t G) = gs_invalidated G"
  "gs_closing (prune_generations t G) = gs_closing G" "gs_next (prune_generations t G) = gs_next G"
  "live_is (prune_generations t G) d g = live_is G d g"
  by (simp_all add: prune_generations_def live_is_def)

lemma prune_distinct:
  "distinct (map fst (gs_tickets G)) \<Longrightarrow> distinct (map fst (gs_tickets (prune_generations t G)))"
  "distinct (map fst (gs_dead_tickets G)) \<Longrightarrow> distinct (map fst (gs_dead_tickets (prune_generations t G)))"
  by (simp_all add: prune_generations_def distinct_filter_keys)

lemma inv_gens_distinct:
  assumes "host_inv now cat T G used reds pcs"
  shows "distinct (map fst (gs_tickets G))" "distinct (map fst (gs_dead_tickets G))"
  using assms by (simp_all add: host_inv_def maps_ok_def)

text \<open>A change of the generations that knows no new handle, keeps the live datasets that are not mentioned and
  keeps or excuses every attribution.\<close>

lemma inv_gens:
  assumes inv: "host_inv now cat T G used reds pcs" and maps: "maps_ok T G'"
    and known: "\<And>h. map_of (gs_tickets G') h \<noteq> None \<Longrightarrow> map_of (gs_tickets G) h \<noteq> None"
    and dead: "\<And>h. map_of (gs_dead_tickets G') h \<noteq> None \<Longrightarrow>
                 map_of (gs_dead_tickets G) h \<noteq> None \<or> map_of (gs_tickets G) h \<noteq> None"
    and live: "\<And>d. map_of (gs_live G') d \<noteq> None \<Longrightarrow> map_of (gs_live G) d \<noteq> None"
    and clos: "gs_closing G \<subseteq> gs_closing G'"
    and att: "\<And>h b d m. map_of T h = Some (Pending b d m) \<Longrightarrow> attributed G h d m \<Longrightarrow>
                now - m > ticket_ttl \<or> (\<exists>i. owes (pcs i) h) \<or> attributed G' h d m"
  shows "host_inv now cat T G' used reds pcs"
proof -
  have "handles_used used T G' reds pcs" using inv known dead unfolding host_inv_def handles_used_def by meson
  moreover have "live_catalogued used cat G'" using inv live unfolding host_inv_def live_catalogued_def by meson
  moreover have "being_opened_ok used G' pcs"
    using inv live unfolding host_inv_def being_opened_ok_def by meson
  moreover have "closing_ok used cat G' pcs" using inv clos unfolding host_inv_def closing_ok_def by blast
  moreover have "minting_ok T G' pcs" using inv known dead unfolding host_inv_def minting_ok_def by meson
  moreover have "covered now T G' pcs" using inv att unfolding host_inv_def covered_def by meson
  ultimately show ?thesis using inv maps unfolding host_inv_def by simp
qed

lemma attributed_prune:
  assumes "maps_ok T G" "attributed G h d m" "m \<le> now" "t \<le> now"
  shows "now - m > ticket_ttl \<or> attributed (prune_generations t G) h d m"
proof -
  from assms(2) obtain g at where g: "map_of (gs_tickets G) h = Some (d, g, at)" "m \<le> at" "live_is G d g"
    and dead: "map_of (gs_dead_tickets G) h = None" by (auto simp: attributed_def)
  show ?thesis
  proof (cases "t - at \<le> attribution_max_age")
    case True
    with g dead assms(1) show ?thesis by (simp add: attributed_def maps_ok_def prune_lookups)
  next
    case False
    with g assms(3,4) have "now - m > ticket_ttl" by (simp add: attribution_max_age_def)
    then show ?thesis ..
  qed
qed

lemma inv_pending_stamp:
  "host_inv now cat T G used reds pcs \<Longrightarrow> map_of T h = Some (Pending b d m) \<Longrightarrow> m \<le> now"
  by (auto simp: host_inv_def covered_def)

lemma inv_maps: "host_inv now cat T G used reds pcs \<Longrightarrow> maps_ok T G"
  by (simp add: host_inv_def)

lemma maps_prune: "maps_ok T G \<Longrightarrow> maps_ok T (prune_generations t G)"
  by (simp add: maps_ok_def prune_distinct)

lemma inv_prune:
  assumes inv: "host_inv now cat T G used reds pcs" and t: "t \<le> now"
  shows "host_inv now cat T (prune_generations t G) used reds pcs"
proof (rule inv_gens [OF inv maps_prune [OF inv_maps [OF inv]]])
  fix h b d m
  assume "map_of T h = Some (Pending b d m)" and a: "attributed G h d m"
  from attributed_prune [OF inv_maps [OF inv] a inv_pending_stamp [OF inv this(1)] t]
  show "now - m > ticket_ttl \<or> (\<exists>i. owes (pcs i) h) \<or> attributed (prune_generations t G) h d m" by blast
qed (use inv_gens_distinct [OF inv] in \<open>auto simp: prune_lookups split: option.splits if_splits prod.splits\<close>)

lemma inv_begin_close:
  "host_inv now cat T G used reds pcs \<Longrightarrow> host_inv now cat T (begin_close ds G) used reds pcs"
  by (frule inv_maps, erule inv_gens) (auto simp: begin_close_def maps_ok_def attributed_def live_is_def)

section \<open>Program counters\<close>

lemma inv_pc:
  assumes inv: "host_inv now cat T G used reds pcs"
    and used: "\<And>h. owes p h \<Longrightarrow> h \<in> used"
    and owed: "\<And>h b d m. map_of T h = Some (Pending b d m) \<Longrightarrow> owes (pcs i) h \<Longrightarrow>
                 owes p h \<or> attributed G h d m \<and> (\<forall>j n. pcs j \<noteq> CloseCancelled d n)"
    and opn: "\<And>d. being_opened p d \<Longrightarrow> being_opened (pcs i) d"
    and arm: "\<And>d. arming p d \<Longrightarrow> arming (pcs i) d"
    and known: "\<And>d. close_known p d \<Longrightarrow> close_known (pcs i) d \<or> d \<in> cat"
    and begun: "\<And>d. close_begun p d \<Longrightarrow> close_begun (pcs i) d \<or> d \<in> gs_closing G"
    and mint: "\<And>ds h. p \<noteq> QueryMinted ds h"
    and empt: "\<And>ds n h b m. p = CloseCancelled ds n \<Longrightarrow> map_of T h = Some (Pending b ds m) \<Longrightarrow> False"
  shows "host_inv now cat T G used reds (pcs(i := p))"
proof -
  let ?q = "pcs(i := p)"
  have still: "(\<exists>j. owes (?q j) h) \<or> attributed G h d m \<and> (\<forall>j n. pcs j \<noteq> CloseCancelled d n)"
    if "map_of T h = Some (Pending b d m)" "\<exists>j. owes (pcs j) h" for h b d m
    using that owed [OF that(1)] by (metis fun_upd_apply)
  have "handles_used used T G reds ?q"
    using inv used unfolding host_inv_def handles_used_def by (metis fun_upd_apply)
  moreover have "being_opened_ok used G ?q"
    using inv opn unfolding host_inv_def being_opened_ok_def by (metis fun_upd_apply)
  moreover have "arming_ok cat ?q"
    using inv arm known unfolding host_inv_def arming_ok_def by (metis fun_upd_apply)
  moreover have "closing_ok used cat G ?q"
    using inv known begun unfolding host_inv_def closing_ok_def live_catalogued_def by (metis fun_upd_apply in_mono)
  moreover have "minting_ok T G ?q"
    using inv mint unfolding host_inv_def minting_ok_def by (metis fun_upd_apply)
  moreover have "covered now T G ?q"
    using inv still unfolding host_inv_def covered_def by meson
  moreover have "emptied now T ?q" unfolding emptied_def
  proof (intro allI impI)
    fix k ds n h b m
    assume k: "?q k = CloseCancelled ds n" and p: "map_of T h = Some (Pending b ds m)"
    from k p empt [OF _ p] have "k \<noteq> i" by (cases "k = i") auto
    with k have k: "pcs k = CloseCancelled ds n" by simp
    with inv p have "now - m > ticket_ttl \<or> (\<exists>j. owes (pcs j) h)" unfolding host_inv_def emptied_def by blast
    with still [OF p] k show "now - m > ticket_ttl \<or> (\<exists>j. owes (?q j) h)" by blast
  qed
  ultimately show ?thesis using inv unfolding host_inv_def by simp
qed

text \<open>The common case: the thread leaves a point at which it owes nothing, for one that promises nothing.\<close>

definition plain :: "pc \<Rightarrow> bool" where
  "plain p \<longleftrightarrow> (\<forall>h. \<not> owes p h) \<and> (\<forall>d. \<not> being_opened p d \<and> \<not> close_known p d) \<and>
                (\<forall>ds h. p \<noteq> QueryMinted ds h)"

lemma plain_simps [simp]:
  "plain Idle" "plain (Done a)" "plain (OpenBegun k)" "plain (OpenRejected k d)" "plain (OpenAdmitted k d ar s)"
  "plain (DescribeKnown d)" "plain (QuerySwept d)" "plain (QueryResolved d)" "plain (QueryLive d)"
  "plain (QueryBuilt d bu)" "plain (QueryCancelled d)" "plain (CloseUnwatched d)" "plain (CloseForgotten d n)"
  "plain (RedeemLive h)" "plain (RedeemRefused h e)" "plain (EndDue d r k')"
  by (simp_all add: plain_def)

lemma arming_being_opened: "arming p d \<Longrightarrow> being_opened p d"
  by (cases p) auto

lemma close_begun_known: "close_begun p d \<Longrightarrow> close_known p d"
  by (cases p) auto

lemma plainD:
  assumes "plain p"
  shows "\<not> owes p h" "\<not> being_opened p d" "\<not> arming p d" "\<not> close_known p d" "\<not> close_begun p d"
    "p \<noteq> QueryMinted ds h" "p \<noteq> CloseCancelled ds n"
  using assms arming_being_opened [of p d] close_begun_known [of p d] by (auto simp: plain_def)

lemma inv_pc_plain:
  assumes inv: "host_inv now cat T G used reds pcs" and p: "plain p"
    and free: "\<And>h b d m. map_of T h = Some (Pending b d m) \<Longrightarrow> \<not> owes (pcs i) h"
  shows "host_inv now cat T G used reds (pcs(i := p))"
  by (rule inv_pc [OF inv]) (use p free in \<open>auto simp: plain_def dest: arming_being_opened close_begun_known\<close>)

lemma inv_pc_from_plain:
  assumes "host_inv now cat T G used reds pcs" "plain p" "plain (pcs i)"
  shows "host_inv now cat T G used reds (pcs(i := p))"
  by (rule inv_pc_plain [OF assms(1,2)]) (use assms(3) in \<open>simp add: plain_def\<close>)

section \<open>Sections that change what is live\<close>

lemma inv_attribute:
  assumes inv: "host_inv now cat T G used reds pcs" and t: "t0 \<le> now" "t1 = now"
    and i: "pcs i = QueryMinted ds h" and a: "attribute_ticket t0 t1 h ds G = (True, G')"
  shows "host_inv now cat T G' used reds (pcs(i := Done ans))"
proof -
  let ?P = "prune_generations t0 G"
  have P: "host_inv now cat T ?P used reds pcs" by (rule inv_prune [OF inv t(1)])
  from a obtain g session where opn: "ds \<notin> gs_closing G" "map_of (gs_live G) ds = Some (g, session)"
    and G': "G' = ?P\<lparr>gs_tickets := AList.update h (ds, g, t1) (gs_tickets ?P)\<rparr>"
    by (auto simp: attribute_ticket_def Let_def split: if_splits option.splits)
  have h: "map_of (gs_tickets ?P) h = None" "map_of (gs_dead_tickets ?P) h = None" "h \<in> used"
      "\<And>b d m. map_of T h = Some (Pending b d m) \<Longrightarrow> d = ds" "\<And>j ds'. pcs j = QueryMinted ds' h \<Longrightarrow> j = i"
    using P i unfolding host_inv_def minting_ok_def handles_used_def by (blast | metis owes.simps(1))+
  have att: "attributed G' h ds m" if "m \<le> now" for m
    using h(2) opn(2) t(2) that by (simp add: G' attributed_def registry_simps live_is_def)
  have other: "attributed G' h' d m" if "attributed ?P h' d m" for h' d m
    using that h(1) by (auto simp: G' attributed_def registry_simps live_is_def)
  have "maps_ok T G'" using inv_maps [OF P] by (simp add: G' maps_ok_def distinct_update)
  moreover have "handles_used used T G' reds (pcs(i := Done ans))"
    using P h(3) unfolding host_inv_def handles_used_def G' by (auto simp: registry_simps split: if_splits)
  moreover have "live_catalogued used cat G'" "closing_ok used cat G' pcs" "being_opened_ok used G' pcs"
    using P by (simp_all add: host_inv_def live_catalogued_def closing_ok_def being_opened_ok_def G')
  moreover have "minting_ok T G' (pcs(i := Done ans))"
    using P h(5) unfolding host_inv_def minting_ok_def G' by (auto simp: registry_simps split: if_splits)
  moreover have no_close: "\<forall>j n. pcs j \<noteq> CloseCancelled ds n"
    using P opn by (auto simp: host_inv_def closing_ok_def live_catalogued_def) (metis close_begun.simps(2) option.distinct(1))
  moreover have "covered now T G' (pcs(i := Done ans))" unfolding covered_def
  proof (intro allI impI conjI)
    fix h' b d m
    assume p: "map_of T h' = Some (Pending b d m)"
    then show m: "m \<le> now" by (rule inv_pending_stamp [OF P])
    show "now - m > ticket_ttl \<or> (\<exists>j. owes ((pcs(i := Done ans)) j) h') \<or> attributed G' h' d m"
    proof (cases "h' = h")
      case True
      with att [OF m] h(4) p show ?thesis by blast
    next
      case False
      from P p have "now - m > ticket_ttl \<or> (\<exists>j. owes (pcs j) h') \<or> attributed ?P h' d m"
        unfolding host_inv_def covered_def by blast
      with False i other show ?thesis by (metis fun_upd_apply owes.simps(1))
    qed
  qed
  moreover have "emptied now T (pcs(i := Done ans))" unfolding emptied_def
  proof (intro allI impI)
    fix k ds' n h' b m
    assume k: "(pcs(i := Done ans)) k = CloseCancelled ds' n" and p: "map_of T h' = Some (Pending b ds' m)"
    have k: "pcs k = CloseCancelled ds' n" using k by (auto split: if_splits)
    then have ne: "h' \<noteq> h" using h(4) p no_close by blast
    have "now - m > ticket_ttl \<or> (\<exists>j. owes (pcs j) h')"
      using P k p unfolding host_inv_def emptied_def by blast
    then show "now - m > ticket_ttl \<or> (\<exists>j. owes ((pcs(i := Done ans)) j) h')"
      using ne i by (metis fun_upd_apply owes.simps(1))
  qed
  ultimately show ?thesis
    using P unfolding host_inv_def arming_ok_def closing_ok_def being_opened_ok_def by auto
qed

lemma inv_mint_for_open:
  assumes inv: "host_inv now cat T G used reds pcs" and t: "t \<le> now" and cat: "ds \<in> cat"
    and new: "map_of (gs_live G) ds = None" "\<And>j. \<not> being_opened (pcs j) ds"
  shows "host_inv now cat T (snd (mint_for_open t ds session G)) used reds pcs"
proof -
  let ?P = "prune_generations t G" and ?G = "snd (mint_for_open t ds session G)"
  have P: "host_inv now cat T ?P used reds pcs" by (rule inv_prune [OF inv t])
  have G: "gs_tickets ?G = gs_tickets ?P" "gs_closing ?G = gs_closing ?P"
      "gs_live ?G = AList.update ds (gs_next ?P + 1, session) (gs_live ?P)"
      "gs_dead_tickets ?G = filter (\<lambda>(_, d, _, _). d \<noteq> ds) (gs_dead_tickets ?P)"
    by (simp_all add: mint_for_open_def Let_def)
  have dead: "map_of (gs_dead_tickets ?G) h = None" if "map_of (gs_dead_tickets ?P) h = None" for h
    using that unfolding G by (auto simp: map_of_eq_None_iff)
  have "maps_ok T ?G" using inv_maps [OF P] by (simp add: maps_ok_def G distinct_filter_keys)
  moreover have "handles_used used T ?G reds pcs"
    using P dead unfolding host_inv_def handles_used_def G(1) by meson
  moreover have "live_catalogued used cat ?G"
    using P cat by (auto simp: host_inv_def live_catalogued_def G(3) registry_simps)
  moreover have "being_opened_ok used ?G pcs" using P new(2) unfolding host_inv_def being_opened_ok_def G(3)
    by (metis fun_upd_apply map_of_update)
  moreover have "closing_ok used cat ?G pcs" using P by (simp add: host_inv_def closing_ok_def G(2))
  moreover have "minting_ok T ?G pcs" using P dead unfolding host_inv_def minting_ok_def G(1) by meson
  moreover have "attributed ?G h d m" if "attributed ?P h d m" for h d m
    using that new(1) dead unfolding attributed_def G(1,3) live_is_def by (auto simp: registry_simps)
  then have "covered now T ?G pcs" using P unfolding host_inv_def covered_def by meson
  ultimately show ?thesis using P unfolding host_inv_def by simp
qed

lemma inv_invalidate:
  assumes inv: "host_inv now cat T G used reds pcs" and t: "t1 \<le> now" and i: "plain (pcs i)"
    and v: "invalidate t0 t1 ds reason G = (r, G')"
  shows "host_inv now cat T G' used reds (pcs(i := (case r of None \<Rightarrow> Done a | Some report \<Rightarrow> EndRecorded report k)))"
proof (cases "map_of (gs_live G) ds")
  case None
  with v have r: "r = None" "G' = prune_generations t1 G" by (auto simp: invalidate_def)
  show ?thesis using inv_pc_from_plain [OF inv_prune [OF inv t] _ i, of "Done a"] by (simp add: r)
next
  case (Some gsess)
  then obtain g session where live: "map_of (gs_live G) ds = Some (g, session)" by (cases gsess) auto
  define ended where "ended = map fst (filter (\<lambda>(_, d, tg, _). d = ds \<and> tg = g) (gs_tickets G))"
  define rec where "rec = (case map_of (gs_invalidated G) ds of Some r \<Rightarrow> r | None \<Rightarrow> reason)"
  define H where "H = G\<lparr>gs_live := AList.delete ds (gs_live G), gs_invalidated := AList.update ds rec (gs_invalidated G),
      gs_dead_tickets := fold (\<lambda>h. AList.update h (ds, rec, t0)) ended (gs_dead_tickets G)\<rparr>"
  define report where "report = \<lparr>er_session = session, er_reason = rec, er_tickets = ended\<rparr>"
  have "(r, G') = (Some report, prune_generations t1 H)"
    using v live by (simp add: invalidate_def Let_def ended_def H_def report_def rec_def)
  then have r: "r = Some report" "er_tickets report = ended" and G': "G' = prune_generations t1 H"
    by (simp_all add: report_def)
  have H: "gs_tickets H = gs_tickets G" "gs_closing H = gs_closing G" "gs_live H = AList.delete ds (gs_live G)"
    and dead: "gs_dead_tickets H = fold (\<lambda>h. AList.update h (ds, rec, t0)) ended (gs_dead_tickets G)"
    by (simp_all add: H_def)
  note dist = inv_gens_distinct [OF inv]
  have ended_iff: "h \<in> set ended \<longleftrightarrow> (\<exists>at. map_of (gs_tickets G) h = Some (ds, g, at))" for h
    using dist(1) by (auto simp: ended_def image_iff)
  let ?q = "pcs(i := EndRecorded report k)"
  have q: "host_inv now cat T G used reds ?q"
  proof (rule inv_pc [OF inv])
    show "h \<in> used" if "owes (EndRecorded report k) h" for h
      using that inv r ended_iff unfolding host_inv_def handles_used_def by (metis option.distinct(1) owes.simps(3))
  qed (use i in \<open>auto simp: plain_def\<close>)
  have "host_inv now cat T H used reds ?q"
  proof (rule inv_gens [OF q])
    show "maps_ok T H" using inv_maps [OF inv] by (simp add: maps_ok_def H(1) dead distinct_fold_update)
  next
    fix h b d m
    assume "map_of T h = Some (Pending b d m)" and a: "attributed G h d m"
    show "now - m > ticket_ttl \<or> (\<exists>j. owes (?q j) h) \<or> attributed H h d m"
    proof (cases "h \<in> set ended")
      case True
      then have "owes (?q i) h" using r by simp
      then show ?thesis by blast
    next
      case False
      with a live ended_iff have "d \<noteq> ds" by (auto simp: attributed_def live_is_def)
      with a False have "attributed H h d m"
        by (auto simp: attributed_def H(1,3) dead registry_simps live_is_def)
      then show ?thesis by blast
    qed
  qed (use ended_iff in \<open>auto simp: H(1-3) dead registry_simps split: if_splits\<close>)
  then show ?thesis using inv_prune [OF _ t] r(1) by (simp add: G')
qed

lemma inv_forget:
  assumes inv: "host_inv now cat T G used reds pcs" and i: "pcs i = CloseCancelled ds n"
  shows "host_inv now (cat - {ds}) T (forget_dataset ds G) used reds (pcs(i := CloseForgotten ds n))"
proof -
  let ?G = "forget_dataset ds G" and ?q = "pcs(i := CloseForgotten ds n)"
  have q: "host_inv now cat T G used reds ?q" by (rule inv_pc_plain [OF inv]) (simp_all add: i)
  note dist = inv_gens_distinct [OF inv]
  have look: "map_of (gs_tickets ?G) h =
      (case map_of (gs_tickets G) h of Some (d, x) \<Rightarrow> if d \<noteq> ds then Some (d, x) else None | None \<Rightarrow> None)" for h
    using map_of_filter_distinct [OF dist(1), of "\<lambda>_ (d, _). d \<noteq> ds" h]
    by (simp add: forget_dataset_def case_prod_unfold split: option.splits)
  have dead: "map_of (gs_dead_tickets G) h = None \<Longrightarrow> map_of (gs_dead_tickets ?G) h = None" for h
    by (auto simp: forget_dataset_def map_of_eq_None_iff)
  have known: "map_of (gs_tickets ?G) h \<noteq> None \<Longrightarrow> map_of (gs_tickets G) h \<noteq> None" for h
    using look [of h] by (auto split: option.splits)
  have live: "map_of (gs_live ?G) = (map_of (gs_live G))(ds := None)" "gs_closing ?G = gs_closing G - {ds}"
    by (simp_all add: forget_dataset_def registry_simps)
  have "maps_ok T ?G" using inv_maps [OF inv] by (simp add: maps_ok_def forget_dataset_def distinct_filter_keys)
  moreover have "handles_used used T ?G reds ?q"
    using q known dead unfolding host_inv_def handles_used_def by meson
  moreover have "live_catalogued used (cat - {ds}) ?G"
    using q by (auto simp: host_inv_def live_catalogued_def live)
  moreover have "being_opened_ok used ?G ?q" using q unfolding host_inv_def being_opened_ok_def live by (metis fun_upd_apply)
  moreover have "arming_ok (cat - {ds}) ?q" using q unfolding host_inv_def arming_ok_def by blast
  moreover have "closing_ok used (cat - {ds}) ?G ?q" using q unfolding host_inv_def closing_ok_def live by blast
  moreover have "minting_ok T ?G ?q" using q known dead unfolding host_inv_def minting_ok_def by meson
  moreover have "covered now T ?G ?q" unfolding covered_def
  proof (intro allI impI conjI)
    fix h b d m
    assume p: "map_of T h = Some (Pending b d m)"
    then show "m \<le> now" by (rule inv_pending_stamp [OF inv])
    show "now - m > ticket_ttl \<or> (\<exists>j. owes (?q j) h) \<or> attributed ?G h d m"
    proof (cases "d = ds")
      case True
      with inv i p have "now - m > ticket_ttl \<or> (\<exists>j. owes (pcs j) h)" unfolding host_inv_def emptied_def by blast
      moreover have "\<not> owes (pcs i) h" by (simp add: i)
      ultimately show ?thesis by (metis fun_upd_apply)
    next
      case False
      have "attributed ?G h d m" if "attributed G h d m"
        using that False look [of h] dead [of h] by (auto simp: attributed_def live_is_def live)
      with q p show ?thesis unfolding host_inv_def covered_def by blast
    qed
  qed
  ultimately show ?thesis using q unfolding host_inv_def by simp
qed

lemma inv_catalog_remove:
  assumes inv: "host_inv now cat T G used reds pcs" and live: "map_of (gs_live G) ds = None"
  shows "host_inv now (cat - {ds}) T G used reds pcs"
  using assms unfolding host_inv_def live_catalogued_def arming_ok_def closing_ok_def by blast

lemma inv_catalog_insert:
  assumes inv: "host_inv now cat T G used reds pcs" and "ds \<in> used"
    and "\<And>j. \<not> arming (pcs j) ds" "\<And>j. \<not> close_known (pcs j) ds"
  shows "host_inv now (insert ds cat) T G used reds pcs"
  using assms close_begun_known unfolding host_inv_def live_catalogued_def arming_ok_def closing_ok_def
  by (metis insert_iff insert_subset)

lemma inv_used: "host_inv now cat T G used reds pcs \<Longrightarrow> host_inv now cat T G (insert x used) reds pcs"
  unfolding host_inv_def handles_used_def live_catalogued_def being_opened_ok_def closing_ok_def by blast

lemma inv_open_fresh:
  assumes inv: "host_inv now cat T G used reds pcs" and new: "ds \<notin> used" and i: "plain (pcs i)"
  shows "host_inv now cat T G (insert ds used) reds (pcs(i := OpenArmed key ds arm))"
proof -
  let ?q = "pcs(i := OpenArmed key ds arm)"
  have fresh: "ds \<notin> cat" "map_of (gs_live G) ds = None" "\<And>j. \<not> being_opened (pcs j) ds" "\<And>j. \<not> close_known (pcs j) ds"
    using inv new unfolding host_inv_def live_catalogued_def being_opened_ok_def closing_ok_def by blast+
  have U: "host_inv now cat T G (insert ds used) reds pcs" by (rule inv_used [OF inv])
  have owes: "\<And>j h. owes (?q j) h \<longleftrightarrow> owes (pcs j) h" and known: "\<And>j d. close_known (?q j) d \<longleftrightarrow> close_known (pcs j) d"
    and begun: "\<And>j d. close_begun (?q j) d \<longleftrightarrow> close_begun (pcs j) d"
    by (simp_all add: plainD [OF i])
  have "being_opened_ok (insert ds used) G ?q"
    using U fresh(2,3) unfolding host_inv_def being_opened_ok_def
    by (metis being_opened.simps(1) fun_upd_apply insertI1)
  moreover have "arming_ok cat ?q"
    using U fresh(1,4) unfolding host_inv_def arming_ok_def known by (metis arming.simps(1) fun_upd_apply)
  moreover have "minting_ok T G ?q" using U unfolding host_inv_def minting_ok_def by auto
  moreover have "emptied now T ?q" using U unfolding host_inv_def emptied_def owes by (auto split: if_splits)
  ultimately show ?thesis
    using U unfolding host_inv_def handles_used_def closing_ok_def covered_def owes known begun by simp
qed

lemma inv_mint:
  assumes inv: "host_inv now cat T G used reds pcs" and t: "t1 \<le> now" and i: "plain (pcs i)"
    and new: "h \<notin> used" "h = mint_hex_id stream_prefix random" and m: "mint t0 t1 random ds built T = (Inr h', T')"
  shows "host_inv now cat T' G (insert h used) reds (pcs(i := QueryMinted ds h'))"
proof -
  let ?S = "sweep_expired t0 T" and ?q = "pcs(i := QueryMinted ds h)"
  have h': "h' = h" and T': "T' = AList.update h (Pending built ds t1) ?S"
    using m new(2) by (auto simp: mint_def Let_def split: if_splits)
  have S: "host_inv now cat ?S G (insert h used) reds pcs" by (intro inv_used inv_sweep inv)
  have unseen: "map_of (gs_tickets G) h = None" "map_of (gs_dead_tickets G) h = None" "h \<notin> set reds"
      "\<And>j. \<not> owes (pcs j) h"
    using inv new(1) unfolding host_inv_def handles_used_def by blast+
  have owes: "owes (?q j) h'' \<longleftrightarrow> j = i \<and> h'' = h \<or> owes (pcs j) h''" for j h'' by (auto simp: plainD [OF i])
  have known: "\<And>j d. close_known (?q j) d \<longleftrightarrow> close_known (pcs j) d"
    and begun: "\<And>j d. close_begun (?q j) d \<longleftrightarrow> close_begun (pcs j) d"
    and opened: "\<And>j d. being_opened (?q j) d \<longleftrightarrow> being_opened (pcs j) d"
    and arm: "\<And>j d. arming (?q j) d \<longleftrightarrow> arming (pcs j) d"
    by (simp_all add: plainD [OF i])
  have "maps_ok T' G" using inv_maps [OF S] by (simp add: maps_ok_def T' distinct_update)
  moreover have "handles_used (insert h used) T' G reds ?q"
    using S unfolding host_inv_def handles_used_def owes by (auto simp: T' registry_simps split: if_splits)
  moreover have "redeemed_once T' reds"
    using S unseen(3) by (auto simp: host_inv_def redeemed_once_def T' registry_simps)
  moreover have "minting_ok T' G ?q"
    using S unseen unfolding host_inv_def minting_ok_def
    by (auto simp: T' registry_simps split: if_splits) (metis owes.simps(1))+
  moreover have "covered now T' G ?q" unfolding covered_def owes
    using S t unfolding host_inv_def covered_def by (auto simp: T' registry_simps split: if_splits)
  moreover have "emptied now T' ?q" unfolding emptied_def owes
    using S unfolding host_inv_def emptied_def by (auto simp: T' registry_simps split: if_splits)
  ultimately show ?thesis
    using S unfolding host_inv_def being_opened_ok_def arming_ok_def closing_ok_def known begun opened arm h' by simp
qed

section \<open>Every section keeps the invariant\<close>

definition host_ok :: "nanos \<Rightarrow> skp_host \<Rightarrow> bool" where
  "host_ok now st \<longleftrightarrow>
     host_inv now (hs_catalog st) (hs_tickets st) (hs_gens st) (hs_minted st) (hs_redemptions st) (hs_pcs st)"

lemmas moves = goto_def with_tickets_def with_gens_def open_return_def host_ok_def

lemma ok_plain: "host_ok now st \<Longrightarrow> plain p \<Longrightarrow> plain (hs_pcs st i) \<Longrightarrow> host_ok now (goto i p st)"
  by (simp add: moves inv_pc_from_plain)

lemma ok_open_start: "host_ok now st \<Longrightarrow> hs_pcs st i = Idle \<Longrightarrow> host_ok now (open_start dbg skp key i st)"
  by (auto simp: open_start_def moves inv_pc_from_plain split: sum.splits prod.splits)

lemma ok_open_arm:
  assumes "host_ok now st" "hs_pcs st i = OpenBegun key" "mint_hex_id dataset_prefix (en_random en) \<notin> hs_minted st"
  shows "host_ok now (open_arm en key i st)"
  using inv_open_fresh [of now _ _ _ _ _ "hs_pcs st" _ i key "en_arm en"] assms
  by (simp add: open_arm_def Let_def moves)

lemma ok_open_catalog:
  assumes ok: "host_ok now st" and i: "hs_pcs st i = OpenArmed key ds arm"
  shows "host_ok now (open_catalog en key ds arm i st)"
proof -
  let ?inv = "\<lambda>cat. host_inv now cat (hs_tickets st) (hs_gens st) (hs_minted st) (hs_redemptions st)"
  have inv: "?inv (hs_catalog st) (hs_pcs st)" using ok by (simp add: host_ok_def)
  have a: "being_opened (hs_pcs st i) ds" "arming (hs_pcs st i) ds" by (simp_all add: i)
  have facts: "ds \<in> hs_minted st" "\<And>j. j \<noteq> i \<Longrightarrow> \<not> being_opened (hs_pcs st j) ds" "\<And>j. \<not> close_known (hs_pcs st j) ds"
    using inv a unfolding host_inv_def being_opened_ok_def arming_ok_def by blast+
  have "?inv (hs_catalog st) ((hs_pcs st)(i := OpenCatalogued key ds arm))"
    by (rule inv_pc [OF inv]) (simp_all add: i)
  then have "?inv (insert ds (hs_catalog st)) ((hs_pcs st)(i := OpenCatalogued key ds arm))"
    by (rule inv_catalog_insert) (use facts in \<open>auto dest: arming_being_opened\<close>)
  moreover have "?inv (hs_catalog st) ((hs_pcs st)(i := Done a'))" for a'
    by (rule inv_pc_plain [OF inv]) (simp_all add: i)
  ultimately show ?thesis by (simp add: open_catalog_def moves split: sum.splits)
qed

lemma ok_open_admit:
  assumes ok: "host_ok now st" and i: "hs_pcs st i = OpenCatalogued key ds arm" and t: "en_t0 en \<le> now"
  shows "host_ok now (open_admit en key ds arm i st)"
proof -
  let ?inv = "host_inv now (hs_catalog st) (hs_tickets st)"
  have inv: "?inv (hs_gens st) (hs_minted st) (hs_redemptions st) (hs_pcs st)" using ok by (simp add: host_ok_def)
  have "being_opened (hs_pcs st i) ds" by (simp add: i)
  then have live: "map_of (gs_live (hs_gens st)) ds = None" "\<And>j. j \<noteq> i \<Longrightarrow> \<not> being_opened (hs_pcs st j) ds"
    using inv unfolding host_inv_def being_opened_ok_def by blast+
  have P: "?inv (hs_gens st) (hs_minted st) (hs_redemptions st) ((hs_pcs st)(i := p))" if "plain p" for p
    by (rule inv_pc_plain [OF inv that]) (simp add: i)
  have R: "?inv (hs_gens st) (hs_minted st) (hs_redemptions st) ((hs_pcs st)(i := OpenRejecting key ds e))" for e
    by (rule inv_pc [OF inv]) (simp_all add: i)
  have "?inv (snd (mint_for_open (en_t0 en) ds session (hs_gens st))) (hs_minted st) (hs_redemptions st)
          ((hs_pcs st)(i := OpenAdmitted key ds arm session))" if "ds \<in> hs_catalog st" for session
    by (rule inv_mint_for_open [OF P t that live(1)]) (use live(2) in auto)
  then show ?thesis using P R by (auto simp: open_admit_def Let_def moves split: arm_outcome.splits option.splits)
qed

lemma ok_open_remove:
  assumes ok: "host_ok now st" and i: "hs_pcs st i = OpenRejecting key ds err"
  shows "host_ok now (open_remove key ds err i st)"
proof -
  have inv: "host_inv now (hs_catalog st) (hs_tickets st) (hs_gens st) (hs_minted st) (hs_redemptions st) (hs_pcs st)"
    using ok by (simp add: host_ok_def)
  have "map_of (gs_live (hs_gens st)) ds = None"
    using inv i unfolding host_inv_def being_opened_ok_def by (metis being_opened.simps(3))
  from inv_catalog_remove [OF inv this] have
    "host_inv now (hs_catalog st - {ds}) (hs_tickets st) (hs_gens st) (hs_minted st) (hs_redemptions st)
       ((hs_pcs st)(i := p))" if "plain p" for p
    by (rule inv_pc_plain) (simp_all add: that i)
  then show ?thesis by (simp add: open_remove_def Let_def moves split: option.splits)
qed

lemma ok_end_record:
  assumes ok: "host_ok now st" and i: "hs_pcs st i = EndDue ds reason k" and t: "en_t1 en \<le> now"
  shows "host_ok now (end_record en ds reason k i st)"
proof -
  obtain r G' where v: "invalidate (en_t0 en) (en_t1 en) ds reason (hs_gens st) = (r, G')" by fastforce
  show ?thesis
    using inv_invalidate [OF ok [unfolded host_ok_def] t _ v, of i "finish_end k 0" k]
    by (simp add: end_record_def v i moves split: option.splits)
qed

lemma ok_end_enqueue:
  assumes ok: "host_ok now st" and i: "hs_pcs st i = EndRecorded report k"
  shows "host_ok now (end_enqueue report k i st)"
proof -
  have inv: "host_inv now (hs_catalog st) (hs_tickets st) (hs_gens st) (hs_minted st) (hs_redemptions st) (hs_pcs st)"
    using ok by (simp add: host_ok_def)
  have "h \<in> hs_minted st" if "h \<in> set (er_tickets report)" for h
    using inv i that unfolding host_inv_def handles_used_def by (metis owes.simps(3))
  then have "host_inv now (hs_catalog st) (hs_tickets st) (hs_gens st) (hs_minted st) (hs_redemptions st)
      ((hs_pcs st)(i := EndCancelling (er_tickets report) 0 k))"
    by (intro inv_pc [OF inv]) (simp_all add: i)
  then show ?thesis by (simp add: end_enqueue_def moves)
qed

lemma ok_end_cancel:
  assumes ok: "host_ok now st" and i: "hs_pcs st i = EndCancelling hs n k"
  shows "host_ok now (end_cancel en hs n k i st)"
proof (cases hs)
  case Nil
  with ok i show ?thesis
    by (auto simp: end_cancel_def moves intro: inv_pc_plain)
next
  case (Cons h rest)
  obtain out ts fired where c: "cancel_ticket (en_t0 en) (en_t1 en) h (hs_tickets st) = (out, ts, fired)"
    by (metis prod_cases3)
  have inv: "host_inv now (hs_catalog st) ts (hs_gens st) (hs_minted st) (hs_redemptions st) (hs_pcs st)"
    using inv_cancel [OF _ c] ok by (simp add: host_ok_def)
  have "x \<in> hs_minted st" if "x \<in> set rest" for x
    using inv i Cons that unfolding host_inv_def handles_used_def by (metis list.set_intros(2) owes.simps(4))
  then have "host_inv now (hs_catalog st) ts (hs_gens st) (hs_minted st) (hs_redemptions st)
      ((hs_pcs st)(i := EndCancelling rest n' k))" for n'
    by (intro inv_pc [OF inv]) (use cancel_not_pending [OF c] Cons in \<open>auto simp: i\<close>)
  then show ?thesis by (simp add: end_cancel_def Cons c moves)
qed

lemma ok_watch_sink: "host_ok now st \<Longrightarrow> hs_pcs st i = Idle \<Longrightarrow> host_ok now (watch_sink ds s i st)"
  by (auto simp: watch_sink_def moves inv_pc_from_plain split: option.splits latch_state.splits)

lemma ok_prune_goto:
  assumes "host_ok now st" "t \<le> now" "plain p" "plain (hs_pcs st i)"
  shows "host_ok now (goto i p (with_gens (prune_generations t (hs_gens st)) st))"
  using assms by (simp add: moves inv_prune inv_pc_from_plain)

lemma pruning_queries:
  "snd (live_generation t ds G) = prune_generations t G" "snd (require_live t ds G) = prune_generations t G"
  "snd (ended_reason t ds G) = prune_generations t G" "snd (ticket_liveness t h G) = prune_generations t G"
  "snd (liveness_refusal t h G) = prune_generations t G"
  by (auto simp: live_generation_def require_live_def ended_reason_def ticket_liveness_def liveness_refusal_def Let_def
      split: prod.splits sum.splits not_live.splits liveness.splits)

lemma pruning_query_eq:
  "live_generation t ds G = (r1, G') \<Longrightarrow> G' = prune_generations t G"
  "require_live t ds G = (r2, G') \<Longrightarrow> G' = prune_generations t G"
  "ended_reason t ds G = (r3, G') \<Longrightarrow> G' = prune_generations t G"
  "ticket_liveness t h G = (r4, G') \<Longrightarrow> G' = prune_generations t G"
  "liveness_refusal t h G = (r5, G') \<Longrightarrow> G' = prune_generations t G"
  using pruning_queries by (metis snd_conv)+

lemma ok_tickets_goto:
  assumes "host_inv now (hs_catalog st) T (hs_gens st) (hs_minted st) (hs_redemptions st) (hs_pcs st)"
    and "plain p" "\<And>h b d m. map_of T h = Some (Pending b d m) \<Longrightarrow> \<not> owes (hs_pcs st i) h"
  shows "host_ok now (goto i p (with_tickets T fired st))"
  using inv_pc_plain [OF assms] by (simp add: moves)

lemma ok_query_start:
  "host_ok now st \<Longrightarrow> hs_pcs st i = Idle \<Longrightarrow> host_ok now (query_start en skp ds i st)"
  by (auto simp: query_start_def moves inv_pc_from_plain inv_sweep split: sum.splits)

lemma ok_query_build:
  "host_ok now st \<Longrightarrow> hs_pcs st i = QueryLive ds \<Longrightarrow> host_ok now (query_build en ds i st)"
  by (auto simp: query_build_def ok_plain split: sum.splits engine_error.splits)

lemma ok_query_mint:
  assumes ok: "host_ok now st" and i: "hs_pcs st i = QueryBuilt ds built" and t: "en_t1 en \<le> now"
    and new: "mint_hex_id stream_prefix (en_random en) \<notin> hs_minted st"
  shows "host_ok now (query_mint en ds built i st)"
proof (cases "mint (en_t0 en) (en_t1 en) (en_random en) ds built (hs_tickets st)")
  case (Pair r T)
  note inv = ok [unfolded host_ok_def]
  show ?thesis
  proof (cases r)
    case (Inl e)
    with Pair have "T = sweep_expired (en_t0 en) (hs_tickets st)" by (auto simp: mint_def Let_def split: if_splits)
    with Pair Inl i show ?thesis using inv_sweep [OF inv] by (auto simp: query_mint_def intro!: ok_tickets_goto)
  next
    case (Inr h)
    have h: "h = mint_hex_id stream_prefix (en_random en)"
      using Pair Inr by (auto simp: mint_def Let_def split: if_splits)
    with Pair Inr i show ?thesis
      using inv_mint [OF inv t _ new refl Pair [unfolded Inr], of i] by (simp add: query_mint_def moves)
  qed
qed

lemma ok_query_attribute:
  assumes ok: "host_ok (en_t1 en) st" and i: "hs_pcs st i = QueryMinted ds h" and t: "en_t0 en \<le> en_t1 en"
  shows "host_ok (en_t1 en) (query_attribute en ds h i st)"
proof (cases "attribute_ticket (en_t0 en) (en_t1 en) h ds (hs_gens st)")
  case (Pair b G)
  note inv = ok [unfolded host_ok_def]
  show ?thesis
  proof (cases b)
    case True
    with Pair show ?thesis using inv_attribute [OF inv t refl i] by (simp add: query_attribute_def moves)
  next
    case False
    with Pair have G: "G = prune_generations (en_t0 en) (hs_gens st)"
      by (auto simp: attribute_ticket_def Let_def split: if_splits option.splits)
    have "h \<in> hs_minted st" using inv i unfolding host_inv_def handles_used_def by (metis owes.simps(1))
    then have "host_inv (en_t1 en) (hs_catalog st) (hs_tickets st) G (hs_minted st) (hs_redemptions st)
        ((hs_pcs st)(i := QueryUnattributed ds h))"
      by (intro inv_pc) (use inv_prune [OF inv t] G in \<open>auto simp: i\<close>)
    with Pair False show ?thesis by (simp add: query_attribute_def moves)
  qed
qed

lemma ok_query_cancel:
  assumes ok: "host_ok now st" and i: "hs_pcs st i = QueryUnattributed ds h"
  shows "host_ok now (query_cancel en ds h i st)"
proof -
  obtain out ts fired where c: "cancel_ticket (en_t0 en) (en_t1 en) h (hs_tickets st) = (out, ts, fired)"
    by (metis prod_cases3)
  then show ?thesis using inv_cancel [OF ok [unfolded host_ok_def] c] cancel_not_pending [OF c]
    by (auto simp: query_cancel_def i intro!: ok_tickets_goto)
qed

lemma ok_query_refuse:
  "host_ok now st \<Longrightarrow> hs_pcs st i = QueryCancelled ds \<Longrightarrow> en_t0 en \<le> now \<Longrightarrow> host_ok now (query_refuse en ds i st)"
  by (auto simp: query_refuse_def ok_prune_goto dest!: pruning_query_eq split: prod.splits option.splits)

lemma ok_query_require_live:
  "host_ok now st \<Longrightarrow> hs_pcs st i = QueryResolved ds \<Longrightarrow> en_t0 en \<le> now \<Longrightarrow>
     host_ok now (query_require_live en ds i st)"
  by (auto simp: query_require_live_def ok_prune_goto dest!: pruning_query_eq split: prod.splits sum.splits)

lemma ok_describe:
  "host_ok now st \<Longrightarrow> hs_pcs st i = DescribeKnown ds \<Longrightarrow> en_t0 en \<le> now \<Longrightarrow>
     host_ok now (describe_session_end en ds i st)"
  by (auto simp: describe_session_end_def ok_prune_goto dest!: pruning_query_eq split: prod.splits)

lemma ok_host_cancel:
  assumes ok: "host_ok now st" and i: "hs_pcs st i = Idle"
  shows "host_ok now (host_cancel dbg en skp handle i st)"
proof -
  have "host_ok now (goto i (Done a) (with_tickets ts fired st))"
    if "cancel_ticket (en_t0 en) (en_t1 en) h (hs_tickets st) = (out, ts, fired)" for a h out ts fired
    using inv_cancel [OF ok [unfolded host_ok_def] that] by (rule ok_tickets_goto) (simp_all add: i)
  moreover have "host_ok now (goto i (Done a) (st\<lparr>hs_opens := x\<rparr>))" for a x
    using ok i by (simp add: moves inv_pc_from_plain)
  ultimately show ?thesis using ok i by (auto simp: host_cancel_def ok_plain split: sum.splits prod.splits)
qed

lemma ok_close_start: "host_ok now st \<Longrightarrow> hs_pcs st i = Idle \<Longrightarrow> host_ok now (close_start skp ds i st)"
  by (auto simp: close_start_def moves inv_pc_from_plain split: sum.splits)

lemma ok_close_lookup:
  assumes ok: "host_ok now st" and i: "hs_pcs st i = CloseUnwatched ds"
  shows "host_ok now (close_lookup ds i st)"
proof -
  have "host_inv now (hs_catalog st) (hs_tickets st) (hs_gens st) (hs_minted st) (hs_redemptions st)
      ((hs_pcs st)(i := CloseKnown ds))" if "ds \<in> hs_catalog st"
    by (rule inv_pc [OF ok [unfolded host_ok_def]]) (use that in \<open>auto simp: i\<close>)
  then show ?thesis using ok i by (simp add: close_lookup_def moves inv_pc_from_plain)
qed

lemma ok_close_begin:
  assumes ok: "host_ok now st" and i: "hs_pcs st i = CloseKnown ds"
  shows "host_ok now (close_begin ds i st)"
  using inv_pc [OF inv_begin_close [OF ok [unfolded host_ok_def]], of "CloseBegun ds" i ds]
  by (simp add: close_begin_def moves i begin_close_def)

lemma ok_close_cancel:
  assumes ok: "host_ok now st" and i: "hs_pcs st i = CloseBegun ds"
  shows "host_ok now (close_cancel en ds i st)"
proof -
  obtain n ts fired where c: "cancel_all_for_dataset (en_t0 en) (en_t1 en) ds (hs_tickets st) = (n, ts, fired)"
    by (metis prod_cases3)
  from inv_cancel_all [OF ok [unfolded host_ok_def] c]
  have inv: "host_inv now (hs_catalog st) ts (hs_gens st) (hs_minted st) (hs_redemptions st) (hs_pcs st)"
    and none: "\<forall>h b m. map_of ts h \<noteq> Some (Pending b ds m)" by blast+
  have "host_inv now (hs_catalog st) ts (hs_gens st) (hs_minted st) (hs_redemptions st)
      ((hs_pcs st)(i := CloseCancelled ds n))"
    by (rule inv_pc [OF inv]) (use none in \<open>auto simp: i\<close>)
  then show ?thesis by (simp add: close_cancel_def c moves)
qed

lemma ok_close_forget:
  "host_ok now st \<Longrightarrow> hs_pcs st i = CloseCancelled ds n \<Longrightarrow> host_ok now (close_forget ds n i st)"
  using inv_forget [of now _ _ _ _ _ "hs_pcs st" i ds n] by (simp add: close_forget_def moves)

lemma ok_redeem_start:
  "host_ok now st \<Longrightarrow> hs_pcs st i = Idle \<Longrightarrow> en_t0 en \<le> now \<Longrightarrow> host_ok now (redeem_start dbg en params i st)"
  by (auto simp: redeem_start_def ok_prune_goto ok_plain dest!: pruning_query_eq
      split: sum.splits prod.splits option.splits)

lemma ok_redeem_refuse:
  "host_ok now st \<Longrightarrow> hs_pcs st i = RedeemRefused h e \<Longrightarrow> en_t0 en \<le> now \<Longrightarrow> host_ok now (redeem_refuse en h e i st)"
  by (auto simp: redeem_refuse_def ok_prune_goto dest!: pruning_query_eq split: prod.splits)

lemma ok_redeem_ticket:
  assumes ok: "host_ok now st" and i: "hs_pcs st i = RedeemLive h"
  shows "host_ok now (redeem_ticket en h i st)"
proof (cases "redeem (en_t0 en) (en_t1 en) h (hs_tickets st)")
  case (Pair r T)
  show ?thesis
  proof (cases r)
    case (Inl e)
    with Pair have "T = sweep_expired (en_t0 en) (hs_tickets st)" using redeem_Inl by blast
    with Pair Inl i show ?thesis using inv_sweep [OF ok [unfolded host_ok_def]]
      by (auto simp: redeem_ticket_def intro!: ok_tickets_goto)
  next
    case (Inr b)
    have "host_inv now (hs_catalog st) T (hs_gens st) (hs_minted st) (h # hs_redemptions st) (hs_pcs st)"
      using inv_redeem [OF ok [unfolded host_ok_def]] Pair Inr by simp
    with Pair Inr i show ?thesis by (simp add: redeem_ticket_def moves inv_pc_from_plain)
  qed
qed

lemma ok_returns:
  assumes "host_ok now st" "plain (hs_pcs st i)"
  shows "host_ok now (open_reject key ds i st)" "host_ok now (open_record key ds arm session i st)"
    "host_ok now (close_unwatch ds n i st)" "host_ok now (query_resolve ds i st)"
  using assms by (simp_all add: open_reject_def open_record_def close_unwatch_def query_resolve_def moves inv_pc_from_plain)

lemmas section_keeps_ok = ok_returns ok_open_start ok_open_arm ok_open_catalog ok_open_admit ok_open_remove ok_end_record
  ok_end_enqueue ok_end_cancel ok_watch_sink ok_query_start ok_query_build ok_query_mint ok_query_attribute
  ok_query_cancel ok_query_refuse ok_query_require_live ok_describe ok_host_cancel ok_close_start ok_close_lookup
  ok_close_begin ok_close_cancel ok_close_forget ok_redeem_start ok_redeem_refuse ok_redeem_ticket

lemma ok_start:
  assumes "host_ok (en_t1 en) st" "hs_pcs st i = Idle" "en_t0 en \<le> en_t1 en"
  shows "host_ok (en_t1 en) (start dbg en i st)"
  using assms by (auto simp: start_def section_keeps_ok describe_start_def ok_plain split: command.splits sum.splits)

lemma ok_advance:
  assumes ok: "host_ok (hs_now st) st" and en: "env_ok en st"
  shows "host_ok (en_t1 en) (advance dbg en i st)"
proof -
  have t: "en_t0 en \<le> en_t1 en" "hs_now st \<le> en_t1 en"
    and fresh: "mint_hex_id dataset_prefix (en_random en) \<notin> hs_minted st"
      "mint_hex_id stream_prefix (en_random en) \<notin> hs_minted st"
    using en by (simp_all add: env_ok_def)
  have ok: "host_ok (en_t1 en) st" using ok t(2) by (auto simp: host_ok_def intro: inv_tick)
  show ?thesis
    using ok t(1) fresh by (cases "hs_pcs st i") (simp_all add: advance_def section_keeps_ok ok_start ok_plain)
qed

section \<open>Reachable states\<close>

inductive_cases host_stepE: "host_step dbg st st'"

lemma ok_new: "host_ok 0 host_new"
  by (simp add: host_ok_def host_new_def generation_new_def host_inv_def maps_ok_def inv_parts)

lemma step_ok: "host_step dbg st st' \<Longrightarrow> host_ok (hs_now st) st \<Longrightarrow> host_ok (hs_now st') st'"
proof (elim host_stepE)
  fix en i
  assume "st' = (advance dbg en i st)\<lparr>hs_now := en_t1 en\<rparr>" "env_ok en st" "host_ok (hs_now st) st"
  then show "host_ok (hs_now st') st'" using ok_advance by (simp add: host_ok_def)
qed (simp add: host_ok_def)

lemma reachable_ok: "host_reachable dbg st \<Longrightarrow> host_ok (hs_now st) st"
  by (induction rule: host_reachable.induct) (use ok_new step_ok in \<open>auto simp: host_new_def\<close>)

lemma advance_others: "j \<noteq> i \<Longrightarrow> hs_pcs (advance dbg en i st) j = hs_pcs st j"
  by (cases "hs_pcs st i")
     (auto simp: advance_def start_def goto_def with_tickets_def with_gens_def open_return_def
        open_start_def open_arm_def open_catalog_def open_admit_def open_remove_def open_reject_def open_record_def
        describe_start_def describe_session_end_def query_start_def query_resolve_def query_require_live_def query_build_def
        query_mint_def query_attribute_def query_cancel_def query_refuse_def host_cancel_def close_start_def close_lookup_def
        close_begin_def close_cancel_def close_forget_def close_unwatch_def redeem_start_def redeem_ticket_def
        redeem_refuse_def watch_sink_def end_record_def end_enqueue_def end_cancel_def Let_def
        split: command.splits sum.splits prod.splits option.splits engine_error.splits bool.splits list.splits
          arm_outcome.splits latch_state.splits)

text \<open>One thread on its own, as many sections as there are environments.\<close>

fun solo :: "(string \<Rightarrow> string) \<Rightarrow> env list \<Rightarrow> skp_host \<Rightarrow> skp_host option" where
  "solo dbg [] st = Some st"
| "solo dbg (en # ens) st =
     (if env_ok en st then solo dbg ens ((advance dbg en 0 st)\<lparr>hs_now := en_t1 en\<rparr>) else None)"

lemma solo_reachable:
  assumes "host_reachable dbg st" "\<forall>j. j \<noteq> 0 \<longrightarrow> hs_pcs st j = Idle" "solo dbg ens st = Some st'"
  shows "host_reachable dbg st'"
  using assms
proof (induction ens arbitrary: st)
  case (Cons en ens)
  let ?s = "(advance dbg en 0 st)\<lparr>hs_now := en_t1 en\<rparr>"
  have en: "env_ok en st" and rest: "solo dbg ens ?s = Some st'" using Cons.prems(3) by (simp_all split: if_splits)
  have "\<not> holds_catalog (hs_pcs st j)" if "writes_catalog (hs_pcs st 0)" for j
    using that Cons.prems(2) by (cases "j = 0"; cases "hs_pcs st 0") auto
  with en have "host_step dbg st ?s" by (intro host_step.advances) blast+
  then have "host_reachable dbg ?s" by (rule host_reachable.stepwise [OF Cons.prems(1)])
  moreover have "\<forall>j. j \<noteq> 0 \<longrightarrow> hs_pcs ?s j = Idle" using Cons.prems(2) by (simp add: advance_others)
  ultimately show ?case using Cons.IH rest by blast
qed simp

end
