(* ===== verification/Ticket_Props.thy ===== *)
theory Ticket_Props
  imports Skp_Host_Proofs
begin

text \<open>
  The ticket protocol's guarantees over every interleaving of \<open>SkpHost\<close>'s commands, with a run of one client that
  opens a dataset, queries it and redeems its ticket as the witness.
\<close>

section \<open>The lifetime of one ticket\<close>

lemma minted_ticket_redeems:
  assumes m: "mint t0 t1 random ds built T = (Inr h, T')" and d: "distinct (map fst T)"
    and t: "t \<le> t1 + ticket_ttl"
  shows "fst (redeem t t' h T') = Inr built"
proof -
  have T': "T' = AList.update h (Pending built ds t1) (sweep_expired t0 T)"
    using m by (auto simp: mint_def Let_def split: if_splits)
  have "distinct (map fst T')" using d by (simp add: T' distinct_update sweep_distinct)
  then have "map_of (sweep_expired t T') h = Some (Pending built ds t1)"
    using t by (simp add: sweep_lookup) (simp add: T' registry_simps stale_def)
  then show ?thesis by (simp add: redeem_def)
qed

text \<open>What the data plane relies on: a registry whose waiting tickets only ever become fewer between mints, and
  from which a redemption takes the ticket away.\<close>

locale single_use =
  fixes ok :: "'r \<Rightarrow> bool" and waiting :: "'r \<Rightarrow> string \<Rightarrow> bool"
    and redeem_op :: "nanos \<Rightarrow> nanos \<Rightarrow> string \<Rightarrow> 'r \<Rightarrow> (string + 'b) \<times> 'r"
    and cancel_op :: "nanos \<Rightarrow> nanos \<Rightarrow> string \<Rightarrow> 'r \<Rightarrow> 'r"
    and sweep_op :: "nanos \<Rightarrow> 'r \<Rightarrow> 'r"
  assumes redeem_takes: "ok r \<Longrightarrow> redeem_op t t' h r = (Inr b, r') \<Longrightarrow> waiting r h \<and> \<not> waiting r' h"
    and redeem_keeps: "ok r \<Longrightarrow> redeem_op t t' h r = (x, r') \<Longrightarrow> ok r' \<and> (waiting r' k \<longrightarrow> waiting r k)"
    and cancel_clears: "ok r \<Longrightarrow> \<not> waiting (cancel_op t t' h r) h"
    and cancel_keeps: "ok r \<Longrightarrow> ok (cancel_op t t' h r) \<and> (waiting (cancel_op t t' h r) k \<longrightarrow> waiting r k)"
    and sweep_keeps: "ok r \<Longrightarrow> ok (sweep_op t r) \<and> (waiting (sweep_op t r) k \<longrightarrow> waiting r k)"
begin

inductive later :: "'r \<Rightarrow> 'r \<Rightarrow> bool" where
  now: "later r r"
| redeeming: "later r r' \<Longrightarrow> redeem_op t t' h r' = (x, r'') \<Longrightarrow> later r r''"
| cancelling: "later r r' \<Longrightarrow> later r (cancel_op t t' h r')"
| sweeping: "later r r' \<Longrightarrow> later r (sweep_op t r')"

lemma later_waits: "later r r' \<Longrightarrow> ok r \<Longrightarrow> ok r' \<and> (waiting r' h \<longrightarrow> waiting r h)"
  by (induction rule: later.induct) (use redeem_keeps cancel_keeps sweep_keeps in blast)+

lemma spent_stays_spent: "ok r \<Longrightarrow> \<not> waiting r h \<Longrightarrow> later r r' \<Longrightarrow> redeem_op t t' h r' \<noteq> (Inr b, r'')"
  using later_waits redeem_takes by blast

lemma redeemed_stays_spent:
  "ok r \<Longrightarrow> redeem_op t t' h r = (Inr b, r') \<Longrightarrow> later r' r'' \<Longrightarrow> redeem_op u u' h r'' \<noteq> (Inr b', s)"
  using redeem_takes redeem_keeps spent_stays_spent by blast

lemma cancelled_stays_spent:
  "ok r \<Longrightarrow> later (cancel_op t t' h r) r' \<Longrightarrow> redeem_op u u' h r' \<noteq> (Inr b, s)"
  using cancel_clears cancel_keeps spent_stays_spent by blast

end

definition is_waiting :: "stream_registry \<Rightarrow> string \<Rightarrow> bool" where
  "is_waiting T h \<longleftrightarrow> (\<exists>b d m. map_of T h = Some (Pending b d m))"

lemma cancel_ticket_keeps:
  assumes "distinct (map fst T)"
  shows "distinct (map fst (fst (snd (cancel_ticket t t' h T)))) \<and>
         (is_waiting (fst (snd (cancel_ticket t t' h T))) k \<longrightarrow> is_waiting T k)"
proof -
  obtain out T' f where c: "cancel_ticket t t' h T = (out, T', f)" by (metis prod_cases3)
  from cancel_ticket_cases [OF c] assms show ?thesis
    by (auto simp: c is_waiting_def registry_simps sweep_lookup distinct_update sweep_distinct split: option.splits if_splits)
       blast+
qed

interpretation tickets: single_use "\<lambda>T. distinct (map fst T)" is_waiting redeem
  "\<lambda>t t' h T. fst (snd (cancel_ticket t t' h T))" sweep_expired
proof
  fix T t t' h b T'
  assume d: "distinct (map fst T)" and r: "redeem t t' h T = (Inr b, T')"
  from redeem_Inr_iff [OF r] d show "is_waiting T h \<and> \<not> is_waiting T' h"
    by (auto simp: is_waiting_def registry_simps sweep_lookup split: option.splits if_splits)
next
  fix T t t' h x T' k
  assume d: "distinct (map fst T)" and r: "redeem t t' h T = (x, T')"
  show "distinct (map fst T') \<and> (is_waiting T' k \<longrightarrow> is_waiting T k)"
  proof (cases x)
    case (Inl e)
    with r d redeem_Inl [of t t' h T e T'] show ?thesis
      by (auto simp: is_waiting_def sweep_lookup sweep_distinct split: option.splits if_splits)
  next
    case (Inr b)
    with r redeem_Inr_iff [of t t' h T b T'] d show ?thesis
      by (auto simp: is_waiting_def registry_simps sweep_lookup sweep_distinct distinct_update distinct_delete
          split: option.splits if_splits) blast+
  qed
next
  fix T :: stream_registry and t t' h
  obtain out T' f where "cancel_ticket t t' h T = (out, T', f)" by (metis prod_cases3)
  then show "\<not> is_waiting (fst (snd (cancel_ticket t t' h T))) h"
    using cancel_not_pending by (auto simp: is_waiting_def)
qed (use cancel_ticket_keeps in \<open>auto simp: is_waiting_def sweep_lookup sweep_distinct split: option.splits if_splits\<close>)

text \<open>A ticket that was redeemed or cancelled is refused from then on, through any further redemptions,
  cancellations and sweeps.\<close>

lemma spent_ticket_is_refused:
  assumes "distinct (map fst T)" "redeem t t' h T = (Inr b, T')" "tickets.later T' T''"
  shows "redeem u u' h T'' \<noteq> (Inr b', S)"
  by (rule tickets.redeemed_stays_spent [OF assms])

section \<open>Unredeemed tickets of one dataset\<close>

definition pending_count :: "string \<Rightarrow> stream_registry \<Rightarrow> nat" where
  "pending_count ds T = length (filter (\<lambda>(_, s). pending_for ds s) T)"

definition pending_bounded :: "stream_registry \<Rightarrow> bool" where
  "pending_bounded T \<longleftrightarrow> (\<forall>ds. pending_count ds T \<le> max_pending_tickets)"

lemma pending_count_update:
  "pending_count ds (AList.update k s T) \<le> pending_count ds T + (if pending_for ds s then 1 else 0)"
  by (induction T) (auto simp: pending_count_def)

lemma pending_count_filter: "pending_count ds (filter P T) \<le> pending_count ds T"
  by (induction T) (auto simp: pending_count_def)

lemma bounded_sweep: "pending_bounded T \<Longrightarrow> pending_bounded (sweep_expired t T)"
  using pending_count_filter le_trans unfolding pending_bounded_def sweep_expired_def sweep_locked_def fst_conv by blast

lemma bounded_delete: "pending_bounded T \<Longrightarrow> pending_bounded (AList.delete k T)"
  using pending_count_filter le_trans unfolding pending_bounded_def AList.delete_eq by blast

lemma bounded_update:
  assumes "pending_bounded T" "\<And>ds. \<not> pending_for ds s"
  shows "pending_bounded (AList.update k s T)"
  unfolding pending_bounded_def
proof
  fix ds
  have "pending_count ds (AList.update k s T) \<le> pending_count ds T"
    using pending_count_update [of ds k s T] assms(2) by simp
  also have "\<dots> \<le> max_pending_tickets" using assms(1) by (simp add: pending_bounded_def)
  finally show "pending_count ds (AList.update k s T) \<le> max_pending_tickets" .
qed

lemma bounded_mint: "pending_bounded T \<Longrightarrow> mint t0 t1 random ds built T = (r, T') \<Longrightarrow> pending_bounded T'"
proof -
  let ?S = "sweep_expired t0 T"
  assume T: "pending_bounded T" and m: "mint t0 t1 random ds built T = (r, T')"
  have S: "pending_bounded ?S" using bounded_sweep [OF T] .
  show "pending_bounded T'"
  proof (cases "pending_count ds ?S \<ge> max_pending_tickets")
    case True
    with m S show ?thesis by (auto simp: mint_def Let_def pending_count_def)
  next
    case False
    with m obtain h where T': "T' = AList.update h (Pending built ds t1) ?S"
      by (auto simp: mint_def Let_def pending_count_def)
    show ?thesis unfolding pending_bounded_def
    proof
      fix d
      have "pending_count d T' \<le> pending_count d ?S + (if d = ds then 1 else 0)"
        using pending_count_update [of d h "Pending built ds t1" ?S] by (auto simp: T' pending_for_def split: if_splits)
      moreover have "pending_count d ?S \<le> max_pending_tickets" using S by (simp add: pending_bounded_def)
      ultimately show "pending_count d T' \<le> max_pending_tickets" using False by (cases "d = ds") auto
    qed
  qed
qed

lemma bounded_redeem: "pending_bounded T \<Longrightarrow> redeem t0 t1 h T = (r, T') \<Longrightarrow> pending_bounded T'"
  by (auto simp: redeem_def Let_def pending_for_def split: option.splits ticket_state.splits
      intro!: bounded_update bounded_delete bounded_sweep)

lemma bounded_cancel: "pending_bounded T \<Longrightarrow> cancel_ticket t0 t1 h T = (r, T', f) \<Longrightarrow> pending_bounded T'"
  by (auto simp: cancel_ticket_def Let_def pending_for_def split: option.splits ticket_state.splits if_splits
      intro!: bounded_update bounded_sweep)

lemma cancel_entries_count: "pending_count d (fst (snd (cancel_entries t1 ds T n))) \<le> pending_count d T"
proof (induction T arbitrary: n)
  case (Cons a T)
  obtain k s where a: "a = (k, s)" by (cases a)
  show ?case
  proof (cases "cancel_entry t1 ds s")
    case None
    then show ?thesis using Cons.IH [of n] by (simp add: a pending_count_def case_prod_unfold Let_def)
  next
    case (Some sf)
    then obtain s' f where sf: "cancel_entry t1 ds s = Some (s', f)" by (cases sf) auto
    then have "\<not> pending_for d s'"
      by (auto simp: cancel_entry_def pending_for_def split: ticket_state.splits if_splits)
    with sf show ?thesis using Cons.IH [of "n + 1"] by (simp add: a pending_count_def case_prod_unfold Let_def)
  qed
qed simp

lemma bounded_cancel_all:
  assumes "pending_bounded T" "cancel_all_for_dataset t0 t1 ds T = (n, T', f)"
  shows "pending_bounded T'"
  using bounded_sweep [OF assms(1), of t0] cancel_entries_count [of _ t1 ds "sweep_expired t0 T" 0] assms(2)
  unfolding pending_bounded_def cancel_all_for_dataset_def by (metis fst_conv le_trans snd_conv)

lemmas bounded_ops = bounded_sweep bounded_mint bounded_redeem bounded_cancel bounded_cancel_all

lemma bounded_advance: "pending_bounded (hs_tickets st) \<Longrightarrow> pending_bounded (hs_tickets (advance dbg en i st))"
  by (cases "hs_pcs st i")
     (auto simp: advance_def start_def goto_def with_tickets_def with_gens_def open_return_def
        open_start_def open_arm_def open_catalog_def open_admit_def open_remove_def open_reject_def open_record_def
        describe_start_def describe_session_end_def query_start_def query_resolve_def query_require_live_def query_build_def
        query_mint_def query_attribute_def query_cancel_def query_refuse_def host_cancel_def close_start_def close_lookup_def
        close_begin_def close_cancel_def close_forget_def close_unwatch_def redeem_start_def redeem_ticket_def
        redeem_refuse_def watch_sink_def end_record_def end_enqueue_def end_cancel_def Let_def
        split: command.splits sum.splits prod.splits option.splits engine_error.splits bool.splits list.splits
          arm_outcome.splits latch_state.splits dest: bounded_ops intro: bounded_ops)

section \<open>A client's run\<close>

definition demo_random :: "byte \<Rightarrow> byte list" where
  "demo_random r = replicate 16 r"

definition demo_env :: "command \<Rightarrow> byte \<Rightarrow> env" where
  "demo_env cmd r =
     \<lparr>en_t0 = 1, en_t1 = 1, en_command = cmd, en_random = demo_random r, en_arm = ArmWatching, en_open = Inr (),
      en_unchanged = True, en_build = Inr (), en_stream = Inr \<lparr>pb_source = 1, pb_cancel = 2\<rparr>\<rparr>"

definition demo_ds :: string where "demo_ds = mint_hex_id dataset_prefix (demo_random 1)"
definition demo_sh :: string where "demo_sh = mint_hex_id stream_prefix (demo_random 2)"
definition demo_key :: string where "demo_key = ''open-1''"

definition demo_run :: "env list" where
  "demo_run =
     (let ask = CmdOpen skp_version demo_key; qry = CmdQuery skp_version demo_ds; red = CmdRedeem (str_bytes demo_sh) in
      [demo_env ask 0, demo_env ask 1, demo_env ask 3, demo_env ask 3, demo_env ask 3, demo_env ask 3,
       demo_env qry 3, demo_env qry 3, demo_env qry 3, demo_env qry 3, demo_env qry 2, demo_env qry 3, demo_env qry 3,
       demo_env red 3, demo_env red 3])"

lemma demo_fresh_aux: "demo_random r = r # replicate 15 r"
  by (simp add: demo_random_def numeral_nat)

lemma demo_fresh:
  "length (demo_random r) = 16"
  "mint_hex_id dataset_prefix (demo_random 3) \<noteq> demo_ds" "mint_hex_id dataset_prefix (demo_random 2) \<noteq> demo_ds"
  "mint_hex_id stream_prefix (demo_random 3) \<noteq> demo_ds" "mint_hex_id stream_prefix (demo_random 2) \<noteq> demo_ds"
  "mint_hex_id stream_prefix (demo_random 3) \<noteq> demo_sh" "mint_hex_id dataset_prefix (demo_random 3) \<noteq> demo_sh"
  "demo_ds \<noteq> demo_sh" "demo_sh \<noteq> demo_ds"
  by (simp_all add: demo_fresh_aux mint_hex_id_def demo_ds_def demo_sh_def dataset_prefix_def stream_prefix_def hex_bytes_def
      hex_byte_def hex_char_def)

lemma ascii_utf8_valid: "list_all (\<lambda>c. (of_char c :: nat) < 128) s \<Longrightarrow> utf8_valid s"
  by (induction s rule: utf8_valid.induct) (auto simp: utf8_lead_len_def)

lemma demo_handles:
  "mint_hex_id dataset_prefix (demo_random 1) = demo_ds" "mint_hex_id stream_prefix (demo_random 2) = demo_sh"
  "handle_from_str dbg stream_prefix demo_sh = Inr demo_sh" "utf8_valid demo_sh" "bytes_str (str_bytes demo_sh) = demo_sh"
  "cancel_key_try_from dbg demo_key = Inr demo_key"
proof -
  show "handle_from_str dbg stream_prefix demo_sh = Inr demo_sh"
    unfolding demo_sh_def by (rule minted_handle_parses) (simp add: demo_random_def)
  have "list_all (\<lambda>c. (of_char c :: nat) < 128) demo_sh"
    using hex_bytes_shape(2) [of "demo_random 2"]
    by (auto simp: demo_sh_def mint_hex_id_def stream_prefix_def list_all_iff is_lower_hex_def is_digit_def)
  then show "utf8_valid demo_sh" by (rule ascii_utf8_valid)
  show "cancel_key_try_from dbg demo_key = Inr demo_key"
    by (simp add: cancel_key_try_from_def parse_cancel_key_def bind_ok_def demo_key_def is_ascii_alphanumeric_def is_digit_def)
qed (simp_all add: demo_ds_def demo_sh_def)

lemmas section_defs = advance_def start_def goto_def with_tickets_def with_gens_def open_return_def
  open_start_def open_arm_def open_catalog_def open_admit_def open_record_def query_start_def query_resolve_def
  query_require_live_def query_build_def query_mint_def query_attribute_def redeem_start_def redeem_ticket_def

lemmas registry_defs = open_begin_def open_end_def recorded_signal_def mint_for_open_def prune_generations_def
  sweep_expired_def sweep_locked_def require_live_def live_generation_def mint_def attribute_ticket_def
  liveness_refusal_def ticket_liveness_def redeem_def stale_def pending_for_def live_is_def max_pending_tickets_def

lemma demo_run_redeems: "\<exists>st. solo dbg demo_run host_new = Some st \<and> hs_redemptions st = [demo_sh]"
  by (simp add: demo_run_def Let_def demo_env_def env_ok_def host_new_def generation_new_def section_defs registry_defs
      demo_fresh demo_handles check_version_def bind_ok_def)

lemma demo_run_mints:
  "\<exists>st built T. solo dbg (take 12 demo_run) host_new = Some st \<and> hs_now st \<le> 2 \<and>
     redeem 2 2 demo_sh (hs_tickets st) = (Inr built, T)"
  by (simp add: demo_run_def Let_def demo_env_def env_ok_def host_new_def generation_new_def section_defs registry_defs
      demo_fresh demo_handles check_version_def bind_ok_def ticket_ttl_def)

section \<open>The guarantees\<close>

text \<open>C9: over every interleaving of opens, queries, cancels, closes, watch signals and redemptions, no ticket is
  redeemed twice.\<close>

theorem ticket_redeemed_at_most_once:
  assumes "host_reachable dbg st"
  shows "distinct (hs_redemptions st)"
  using reachable_ok [OF assms] by (simp add: host_ok_def host_inv_def redeemed_once_def)

theorem ticket_redeemed_at_most_once_witness:
  "\<exists>st. host_reachable (\<lambda>s. s) st \<and> hs_redemptions st = [demo_sh] \<and> distinct (hs_redemptions st)"
proof -
  obtain st where st: "solo (\<lambda>s. s) demo_run host_new = Some st" "hs_redemptions st = [demo_sh]"
    using demo_run_redeems by blast
  have "host_reachable (\<lambda>s. s) st"
    by (rule solo_reachable [OF host_reachable.initially _ st(1)]) (simp add: host_new_def)
  with st(2) ticket_redeemed_at_most_once [of "\<lambda>s. s" st] show ?thesis by blast
qed

text \<open>C8: in every reachable state, a ticket that the data plane could redeem belongs to a dataset session that is
  live, or some thread is between the minting of the ticket or the end of its session and the cancellation of that
  very ticket. So once a session has ended or its dataset is closed, and the threads at work have finished, none of
  its tickets can start a stream.\<close>

theorem no_ticket_outlives_its_session:
  assumes reach: "host_reachable dbg st" and t: "hs_now st \<le> t"
    and r: "redeem t t' h (hs_tickets st) = (Inr built, T')"
  shows "fst (ticket_liveness t h (hs_gens st)) = TlLive \<or> (\<exists>i. owes (hs_pcs st i) h)"
proof -
  have inv: "host_inv t (hs_catalog st) (hs_tickets st) (hs_gens st) (hs_minted st) (hs_redemptions st) (hs_pcs st)"
    using inv_tick [OF reachable_ok [OF reach, unfolded host_ok_def] t] .
  obtain d m where p: "map_of (hs_tickets st) h = Some (Pending built d m)" and fresh: "t - m \<le> ticket_ttl"
    using redeem_Inr_iff [OF r]
    by (auto simp: sweep_lookup [OF inv_distinct [OF inv]] stale_def split: option.splits if_splits)
  from inv p fresh consider "\<exists>i. owes (hs_pcs st i) h" | "attributed (hs_gens st) h d m"
    unfolding host_inv_def covered_def by (metis not_le)
  then show ?thesis
  proof cases
    case 2
    then have "attributed (prune_generations t (hs_gens st)) h d m"
      using attributed_prune [OF inv_maps [OF inv] 2 inv_pending_stamp [OF inv p] order_refl] fresh by simp
    then show ?thesis by (auto simp: attributed_def ticket_liveness_def Let_def)
  qed blast
qed

theorem no_ticket_outlives_its_session_witness:
  "\<exists>st built T. host_reachable (\<lambda>s. s) st \<and> hs_now st \<le> 2 \<and> redeem 2 2 demo_sh (hs_tickets st) = (Inr built, T) \<and>
     (fst (ticket_liveness 2 demo_sh (hs_gens st)) = TlLive \<or> (\<exists>i. owes (hs_pcs st i) demo_sh))"
proof -
  obtain st built T where st: "solo (\<lambda>s. s) (take 12 demo_run) host_new = Some st" "hs_now st \<le> 2"
      "redeem 2 2 demo_sh (hs_tickets st) = (Inr built, T)"
    using demo_run_mints by blast
  have "host_reachable (\<lambda>s. s) st"
    by (rule solo_reachable [OF host_reachable.initially _ st(1)]) (simp add: host_new_def)
  with st(2,3) no_ticket_outlives_its_session [of "\<lambda>s. s" st 2 2 demo_sh built T] show ?thesis by blast
qed

text \<open>At most eight tickets of a dataset wait to be redeemed, whatever the interleaving.\<close>

theorem pending_tickets_are_bounded:
  assumes "host_reachable dbg st"
  shows "pending_count ds (hs_tickets st) \<le> max_pending_tickets"
proof -
  have "pending_bounded (hs_tickets st)" using assms
  proof (induction rule: host_reachable.induct)
    case initially
    show ?case by (simp add: host_new_def pending_bounded_def pending_count_def)
  next
    case (stepwise st st')
    from stepwise.hyps(2) stepwise.IH show ?case by (cases rule: host_step.cases) (simp_all add: bounded_advance)
  qed
  then show ?thesis by (simp add: pending_bounded_def)
qed

section \<open>Cancel keys\<close>

text \<open>\<open>open_dataset\<close> admits a cancel key that has the shape of a stream handle, and \<open>cancel\<close> sends every text of
  that shape to the ticket registry: such an open cannot be cancelled.\<close>

theorem stream_shaped_cancel_key_is_unreachable:
  assumes "handle_from_str dbg stream_prefix key = Inr h"
  shows "cancel_key_try_from dbg key = Inr key"
    and "hs_opens (host_cancel dbg en skp key i st) = hs_opens st"
proof -
  show "cancel_key_try_from dbg key = Inr key" by (rule stream_handle_is_a_cancel_key [OF assms])
  show "hs_opens (host_cancel dbg en skp key i st) = hs_opens st"
    using assms by (auto simp: host_cancel_def goto_def with_tickets_def split: sum.splits prod.splits)
qed

end
