(* ===== verification/Geoarrow.thy ===== *)
theory Geoarrow
  imports Wkb_Builders Ieee Attributes
begin

text \<open>
  \<open>engine/src/geoarrow.rs\<close> and the batch of \<open>engine/src/envelope.rs\<close>: the five encodings, which one a file's declared
  types select, the arrays built from the WKB builders, their validation and the coordinates read back from them.

  An Arrow array is what the source passes to its constructor; the constructors of the \<open>arrow\<close> crate are arguments
  (\<open>arrow_lib\<close>), relied on only to accept well-formed parts. The \<open>Debug\<close> text of a list of strings and Arrow's type
  names are arguments.
\<close>

section \<open>Encodings\<close>

definition ext_name_polygon :: string where "ext_name_polygon = ''geoarrow.polygon''"
definition ext_name_multipolygon :: string where "ext_name_multipolygon = ''geoarrow.multipolygon''"
definition ext_name_point :: string where "ext_name_point = ''geoarrow.point''"
definition ext_name_linestring :: string where "ext_name_linestring = ''geoarrow.linestring''"
definition ext_name_multilinestring :: string where "ext_name_multilinestring = ''geoarrow.multilinestring''"

datatype geometry_encoding = GePolygon | GeMultiPolygon | GePoint | GeLineString | GeMultiLineString

definition encoding_as_str :: "geometry_encoding \<Rightarrow> string" where
  "encoding_as_str e =
     (case e of
        GePolygon \<Rightarrow> ext_name_polygon | GeMultiPolygon \<Rightarrow> ext_name_multipolygon | GePoint \<Rightarrow> ext_name_point
      | GeLineString \<Rightarrow> ext_name_linestring | GeMultiLineString \<Rightarrow> ext_name_multilinestring)"

definition readable_geometry_types :: "string list" where
  "readable_geometry_types = [''Polygon'', ''MultiPolygon'', ''Point'', ''LineString'', ''MultiLineString'']"

datatype geometry_kind = Polygonal | PointKind | LineKind

definition kinds_in_order :: "geometry_kind list" where
  "kinds_in_order = [Polygonal, PointKind, LineKind]"

definition kind_label :: "geometry_kind \<Rightarrow> string" where
  "kind_label k = (case k of Polygonal \<Rightarrow> ''polygonal'' | PointKind \<Rightarrow> ''point'' | LineKind \<Rightarrow> ''line'')"

definition to_ascii_lower :: "char \<Rightarrow> char" where
  "to_ascii_lower c =
     (if 65 \<le> (of_char c :: nat) \<and> (of_char c :: nat) \<le> 90 then char_of ((of_char c :: nat) + 32) else c)"

definition name_eq_ci :: "string \<Rightarrow> string \<Rightarrow> bool" where
  "name_eq_ci a b \<longleftrightarrow> map to_ascii_lower a = map to_ascii_lower b"

definition kind_of :: "string \<Rightarrow> geometry_kind option" where
  "kind_of name =
     (case find (\<lambda>r. name_eq_ci r name) readable_geometry_types of
        None \<Rightarrow> None
      | Some readable \<Rightarrow>
          Some (if readable = ''Point'' then PointKind
                else if readable \<in> {''LineString'', ''MultiLineString''} then LineKind else Polygonal))"

definition join_phrase :: "string list \<Rightarrow> string" where
  "join_phrase items =
     (if items = [] then []
      else if butlast items = [] then last items
      else join_with '', '' (butlast items) @ '' and '' @ last items)"

definition readable_set_phrase :: string where
  "readable_set_phrase = join_phrase readable_geometry_types"

definition mixed_kinds_draft :: string where
  "mixed_kinds_draft =
     ''geometry_types [<declared list>] mix polygonal and point types; this engine reads one kind per geometry column''"

definition mixed_kinds_span :: string where "mixed_kinds_span = ''polygonal and point''"

definition mixed_kinds_detail :: "(string list \<Rightarrow> string) \<Rightarrow> string list \<Rightarrow> string" where
  "mixed_kinds_detail dbg types =
     (let present = map kind_label (filter (\<lambda>k. list_ex (\<lambda>t. kind_of t = Some k) types) kinds_in_order)
      in ''[P6 placeholder] '' @
         replace_all (replace_all mixed_kinds_draft mixed_kinds_span (join_phrase present)) ''[<declared list>]''
           (dbg types))"

definition encoding_for_declared_types ::
    "(string list \<Rightarrow> string) \<Rightarrow> string list option \<Rightarrow> engine_error + geometry_encoding" where
  "encoding_for_declared_types dbg declared =
     (case declared of
        None \<Rightarrow> Inr GeMultiPolygon
      | Some [] \<Rightarrow> Inr GeMultiPolygon
      | Some types \<Rightarrow>
          if \<not> list_all (\<lambda>t. kind_of t \<noteq> None) types then
            Inl (EngGeoMetadata
                   (''geometry_types '' @ dbg types @ '' include types this engine does not read; it reads '' @
                    readable_set_phrase))
          else if list_all (\<lambda>t. name_eq_ci t ''Point'') types then Inr GePoint
          else if list_all (\<lambda>t. name_eq_ci t ''Polygon'') types then Inr GePolygon
          else if list_all (\<lambda>t. kind_of t = Some Polygonal) types then Inr GeMultiPolygon
          else if list_all (\<lambda>t. name_eq_ci t ''LineString'') types then Inr GeLineString
          else if list_all (\<lambda>t. kind_of t = Some LineKind) types then Inr GeMultiLineString
          else Inl (EngGeoMetadata (mixed_kinds_detail dbg types)))"

section \<open>Arrays and their types\<close>

text \<open>The nested part of Arrow's \<open>DataType\<close> with the names of the child fields.\<close>

datatype nesting = NtFloat64 | NtFixedSizeList string nesting nat | NtList string nesting | NtOther string

datatype arr = ArrFloat64 "f64 list" | ArrFixed string nat arr | ArrList string "i32 list" arr | ArrOther string nat

fun arr_type :: "arr \<Rightarrow> nesting" where
  "arr_type (ArrFloat64 _) = NtFloat64"
| "arr_type (ArrFixed name n a) = NtFixedSizeList name (arr_type a) n"
| "arr_type (ArrList name _ a) = NtList name (arr_type a)"
| "arr_type (ArrOther name _) = NtOther name"

fun arr_len :: "arr \<Rightarrow> nat" where
  "arr_len (ArrFloat64 vs) = length vs"
| "arr_len (ArrFixed _ n a) = arr_len a div n"
| "arr_len (ArrList _ os _) = length os - 1"
| "arr_len (ArrOther _ n) = n"

text \<open>\<open>FixedSizeListArray::try_new\<close> and \<open>ListArray::try_new\<close>: the child field's name and type, the size or the
  offsets, the values.\<close>

record arrow_lib =
  al_fixed :: "string \<Rightarrow> nesting \<Rightarrow> nat \<Rightarrow> arr \<Rightarrow> string + arr"
  al_list :: "string \<Rightarrow> nesting \<Rightarrow> i32 list \<Rightarrow> arr \<Rightarrow> string + arr"

definition arrow_accepts :: "arrow_lib \<Rightarrow> bool" where
  "arrow_accepts lib \<longleftrightarrow>
     (\<forall>name a n. 0 < n \<longrightarrow> al_fixed lib name (arr_type a) n a = Inr (ArrFixed name n a)) \<and>
     (\<forall>name a os. os \<noteq> [] \<and> sint (last os) \<le> int (arr_len a) \<longrightarrow>
        al_list lib name (arr_type a) os a = Inr (ArrList name os a))"

definition coord_name :: string where "coord_name = ''xy''"
definition vertices_name :: string where "vertices_name = ''vertices''"
definition rings_name :: string where "rings_name = ''rings''"
definition polygons_name :: string where "polygons_name = ''polygons''"
definition linestrings_name :: string where "linestrings_name = ''linestrings''"

definition point_storage_type :: nesting where
  "point_storage_type = NtFixedSizeList coord_name NtFloat64 2"

definition linestring_storage_type :: nesting where
  "linestring_storage_type = NtList vertices_name point_storage_type"

definition polygon_storage_type :: nesting where
  "polygon_storage_type = NtList rings_name linestring_storage_type"

definition multipolygon_storage_type :: nesting where
  "multipolygon_storage_type = NtList polygons_name polygon_storage_type"

definition multilinestring_storage_type :: nesting where
  "multilinestring_storage_type = NtList linestrings_name linestring_storage_type"

definition storage_type :: "geometry_encoding \<Rightarrow> nesting" where
  "storage_type e =
     (case e of
        GePolygon \<Rightarrow> polygon_storage_type | GeMultiPolygon \<Rightarrow> multipolygon_storage_type
      | GePoint \<Rightarrow> point_storage_type | GeLineString \<Rightarrow> linestring_storage_type
      | GeMultiLineString \<Rightarrow> multilinestring_storage_type)"

section \<open>Building arrays\<close>

definition arrow_err :: "string \<Rightarrow> string + 'a \<Rightarrow> engine_error + 'a" where
  "arrow_err what r = (case r of Inl e \<Rightarrow> Inl (EngArrow (what @ '': '' @ e)) | Inr a \<Rightarrow> Inr a)"

fun first_descent :: "i32 list \<Rightarrow> (i32 \<times> i32) option" where
  "first_descent (a # b # os) = (if sint b < sint a then Some (a, b) else first_descent (b # os))"
| "first_descent _ = None"

definition checked_offsets :: "i32 list \<Rightarrow> string \<Rightarrow> engine_error + i32 list" where
  "checked_offsets v what =
     (case v of
        [] \<Rightarrow> Inl (EngArrow (what @ '': buffer is empty''))
      | start # _ \<Rightarrow>
          if sint start \<noteq> 0 then Inl (EngArrow (what @ '': start at '' @ show_int (sint start) @ '', not 0''))
          else (case first_descent v of
                  Some (a, b) \<Rightarrow>
                    Inl (EngArrow (what @ '': not monotonically increasing ('' @ show_int (sint a) @ '' then '' @
                                   show_int (sint b) @ '')''))
                | None \<Rightarrow> Inr v))"

text \<open>The interleaved coordinates as an array of pairs.\<close>

definition coords_array :: "arrow_lib \<Rightarrow> string \<Rightarrow> f64 list \<Rightarrow> engine_error + arr" where
  "coords_array lib what coords =
     (if \<not> even (length coords)
      then Inl (EngArrow (''coordinate buffer has odd length '' @ show_nat (length coords)))
      else arrow_err what (al_fixed lib coord_name NtFloat64 2 (ArrFloat64 coords)))"

definition list_level :: "arrow_lib \<Rightarrow> string \<Rightarrow> nesting \<Rightarrow> i32 list \<Rightarrow> string \<Rightarrow> string \<Rightarrow> arr \<Rightarrow> engine_error + arr" where
  "list_level lib name ty offsets what_offsets what a =
     bind_ok (checked_offsets offsets what_offsets) (\<lambda>os. arrow_err what (al_list lib name ty os a))"

definition build_point_array :: "arrow_lib \<Rightarrow> point_builder \<Rightarrow> engine_error + arr" where
  "build_point_array lib b = coords_array lib ''points'' (pt_coords b)"

definition build_linestring_array :: "arrow_lib \<Rightarrow> linestring_builder \<Rightarrow> engine_error + arr" where
  "build_linestring_array lib b =
     bind_ok (coords_array lib ''coordinates'' (ls_coords b))
       (list_level lib vertices_name point_storage_type (ls_geom_offsets b) ''geometry offsets'' ''linestrings'')"

definition build_multilinestring_array :: "arrow_lib \<Rightarrow> multilinestring_builder \<Rightarrow> engine_error + arr" where
  "build_multilinestring_array lib b =
     bind_ok (coords_array lib ''coordinates'' (ml_coords b)) (\<lambda>coords.
     bind_ok (list_level lib vertices_name point_storage_type (ml_part_offsets b) ''part offsets'' ''linestrings'' coords)
       (list_level lib linestrings_name linestring_storage_type (ml_geom_offsets b) ''geometry offsets''
          ''multilinestrings''))"

definition build_multipolygon_array :: "arrow_lib \<Rightarrow> multipolygon_builder \<Rightarrow> engine_error + arr" where
  "build_multipolygon_array lib b =
     bind_ok (coords_array lib ''coordinates'' (mp_coords b)) (\<lambda>coords.
     bind_ok (list_level lib vertices_name point_storage_type (mp_ring_offsets b) ''ring offsets'' ''rings'' coords) (\<lambda>rings.
     bind_ok (list_level lib rings_name linestring_storage_type (mp_part_offsets b) ''part offsets'' ''polygons'' rings)
       (list_level lib polygons_name polygon_storage_type (mp_geom_offsets b) ''geometry offsets'' ''multipolygons'')))"

definition build_polygon_array :: "arrow_lib \<Rightarrow> polygon_builder \<Rightarrow> engine_error + arr" where
  "build_polygon_array lib b =
     bind_ok (coords_array lib ''coordinates'' (pb_coords b)) (\<lambda>coords.
     bind_ok (list_level lib vertices_name point_storage_type (pb_ring_offsets b) ''ring offsets'' ''rings'' coords)
       (list_level lib rings_name linestring_storage_type (pb_geom_offsets b) ''geometry offsets'' ''polygons''))"

section \<open>Reading coordinates back\<close>

text \<open>\<open>as usize\<close> of an \<open>i32\<close> sign-extends, so a negative offset reads as a huge index.\<close>

definition as_usize :: "i32 \<Rightarrow> nat" where
  "as_usize os = unat (word_of_int (sint os) :: u64)"

definition get_range :: "'a list \<Rightarrow> nat \<Rightarrow> nat \<Rightarrow> 'a list option" where
  "get_range xs lo hi = (if lo \<le> hi \<and> hi \<le> length xs then Some (take (hi - lo) (drop lo xs)) else None)"

definition nth_offset :: "i32 list \<Rightarrow> nat \<Rightarrow> nat option" where
  "nth_offset os k = (if k < length os then Some (as_usize (os ! k)) else None)"

definition flat_range :: "arr \<Rightarrow> nat \<Rightarrow> nat \<Rightarrow> f64 list option" where
  "flat_range a lo hi =
     (case a of ArrFixed _ _ (ArrFloat64 vs) \<Rightarrow> get_range vs (lo * 2) (hi * 2) | _ \<Rightarrow> None)"

definition coordinate_values :: "arr \<Rightarrow> f64 list option" where
  "coordinate_values a =
     (case a of
        ArrFixed _ _ _ \<Rightarrow> flat_range a 0 (arr_len a)
      | ArrList _ geom_offsets inner \<Rightarrow>
          (if geom_offsets = [] then None
           else
             let lo = as_usize (hd geom_offsets); hi = as_usize (last geom_offsets)
             in case inner of
                  ArrFixed _ _ _ \<Rightarrow> flat_range inner lo hi
                | ArrList _ level_offsets deeper \<Rightarrow>
                    (case deeper of
                       ArrList _ ring_offsets vertices \<Rightarrow>
                         (case (nth_offset level_offsets lo, nth_offset level_offsets hi) of
                            (Some ring_lo, Some ring_hi) \<Rightarrow>
                              (case (nth_offset ring_offsets ring_lo, nth_offset ring_offsets ring_hi) of
                                 (Some v_lo, Some v_hi) \<Rightarrow> flat_range vertices v_lo v_hi
                               | _ \<Rightarrow> None)
                          | _ \<Rightarrow> None)
                     | _ \<Rightarrow>
                         (case (nth_offset level_offsets lo, nth_offset level_offsets hi) of
                            (Some v_lo, Some v_hi) \<Rightarrow> flat_range deeper v_lo v_hi
                          | _ \<Rightarrow> None))
                | _ \<Rightarrow> None)
      | _ \<Rightarrow> None)"

section \<open>Validation\<close>

fun describe_nesting :: "(nesting \<Rightarrow> string) \<Rightarrow> nesting \<Rightarrow> string" where
  "describe_nesting show_ty (NtList _ t) = ''List<'' @ describe_nesting show_ty t @ ''>''"
| "describe_nesting show_ty (NtFixedSizeList _ c n) = ''FixedSizeList<'' @ show_ty c @ ''>['' @ show_nat n @ '']''"
| "describe_nesting show_ty t = show_ty t"

definition describe_polygon :: "(nesting \<Rightarrow> string) \<Rightarrow> nesting \<Rightarrow> string" where
  "describe_polygon show_ty t =
     (case t of
        NtList _ f \<Rightarrow>
          (case f of
             NtList _ g \<Rightarrow>
               (case g of
                  NtFixedSizeList _ c n \<Rightarrow> ''List<List<FixedSizeList<'' @ show_ty c @ ''>['' @ show_nat n @ '']>>''
                | _ \<Rightarrow> ''List<List<'' @ show_ty g @ ''>>'')
           | _ \<Rightarrow> ''List<'' @ show_ty f @ ''>'')
      | _ \<Rightarrow> show_ty t)"

definition is_xy :: "nesting \<Rightarrow> bool" where
  "is_xy t = (case t of NtFixedSizeList _ c n \<Rightarrow> n = 2 \<and> c = NtFloat64 | _ \<Rightarrow> False)"

definition under_list :: "(nesting \<Rightarrow> bool) \<Rightarrow> nesting \<Rightarrow> bool" where
  "under_list P t = (case t of NtList _ u \<Rightarrow> P u | _ \<Rightarrow> False)"

definition structurally :: "geometry_encoding \<Rightarrow> nesting \<Rightarrow> bool" where
  "structurally e =
     (case e of
        GePoint \<Rightarrow> is_xy
      | GeLineString \<Rightarrow> under_list is_xy
      | GePolygon \<Rightarrow> under_list (under_list is_xy)
      | GeMultiLineString \<Rightarrow> under_list (under_list is_xy)
      | GeMultiPolygon \<Rightarrow> under_list (under_list (under_list is_xy)))"

definition validate_encoding :: "(nesting \<Rightarrow> string) \<Rightarrow> arr \<Rightarrow> geometry_encoding \<Rightarrow> engine_error + unit" where
  "validate_encoding show_ty a e =
     (let describe = (if e = GePolygon then describe_polygon show_ty else describe_nesting show_ty)
      in if structurally e (arr_type a) then Inr ()
         else Inl (EngEncodingMismatch (encoding_as_str e @ '' as '' @ describe (storage_type e))
                     (describe (arr_type a))))"

section \<open>The bounds of a batch\<close>

definition fold_bounds :: "f64 \<times> f64 \<times> f64 \<times> f64 \<Rightarrow> position \<Rightarrow> f64 \<times> f64 \<times> f64 \<times> f64" where
  "fold_bounds b p =
     (case (b, p) of ((x0, y0, x1, y1), (x, y)) \<Rightarrow> (f64_min x0 x, f64_min y0 y, f64_max x1 x, f64_max y1 y))"

definition xy_bounds :: "arr \<Rightarrow> (f64 \<times> f64 \<times> f64 \<times> f64) option" where
  "xy_bounds geometry =
     (case coordinate_values geometry of
        None \<Rightarrow> None
      | Some [] \<Rightarrow> None
      | Some coords \<Rightarrow>
          let (x0, y0, x1, y1) =
                foldl fold_bounds (f64_infinity, f64_infinity, f64_neg_infinity, f64_neg_infinity) (pairs coords)
          in if f64_is_finite x0 \<and> f64_is_finite y0 \<and> f64_is_finite x1 \<and> f64_is_finite y1
             then Some (x0, y0, x1, y1) else None)"

section \<open>What is built reads back\<close>

definition wf_offsets :: "i32 list \<Rightarrow> nat \<Rightarrow> bool" where
  "wf_offsets os n \<longleftrightarrow>
     os \<noteq> [] \<and> hd os = 0 \<and> last os = word_of_nat n \<and> n < 2 ^ 31 \<and> sorted (map sint os)"

lemma first_descent_sorted: "sorted (map sint os) \<Longrightarrow> first_descent os = None"
  by (induction os rule: first_descent.induct) auto

lemma checked_offsets_wf: "wf_offsets os n \<Longrightarrow> checked_offsets os what = Inr os"
  by (cases os) (auto simp: wf_offsets_def checked_offsets_def first_descent_sorted)

lemma wf_offsets_last: "wf_offsets os n \<Longrightarrow> sint (last os) = int n"
  by (simp add: wf_offsets_def sint_word_of_nat_small)

lemma as_usize_small: "n < 2 ^ 31 \<Longrightarrow> as_usize (word_of_nat n) = n"
  by (simp add: as_usize_def sint_word_of_nat_small unat_of_nat)

lemma as_usize_0 [simp]: "as_usize 0 = 0"
  by (simp add: as_usize_def)

lemma list_level_wf:
  assumes "arrow_accepts lib" "wf_offsets os n" "n \<le> arr_len a" "ty = arr_type a"
  shows "list_level lib name ty os wo w a = Inr (ArrList name os a)"
proof -
  have "al_list lib name ty os a = Inr (ArrList name os a)"
    using assms wf_offsets_last [OF assms(2)] by (simp add: arrow_accepts_def wf_offsets_def)
  then show ?thesis by (simp add: list_level_def checked_offsets_wf [OF assms(2)] bind_ok_def arrow_err_def)
qed

lemma coords_array_even:
  "arrow_accepts lib \<Longrightarrow> even (length cs) \<Longrightarrow>
     coords_array lib what cs = Inr (ArrFixed coord_name 2 (ArrFloat64 cs))"
proof -
  assume "arrow_accepts lib" "even (length cs)"
  moreover from this(1) have "al_fixed lib coord_name (arr_type (ArrFloat64 cs)) 2 (ArrFloat64 cs) =
      Inr (ArrFixed coord_name 2 (ArrFloat64 cs))" unfolding arrow_accepts_def by (metis zero_less_numeral)
  ultimately show ?thesis by (simp add: coords_array_def arrow_err_def)
qed

lemma flat_range_all: "even (length cs) \<Longrightarrow> flat_range (ArrFixed nm 2 (ArrFloat64 cs)) 0 (length cs div 2) = Some cs"
  by (simp add: flat_range_def get_range_def)

lemma nth_offset_ends:
  assumes "wf_offsets os n"
  shows "nth_offset os 0 = Some 0" "nth_offset os (length os - 1) = Some n"
  using assms by (auto simp: wf_offsets_def nth_offset_def hd_conv_nth last_conv_nth as_usize_small)

text \<open>The polygons an array holds, read through its nested offsets.\<close>

definition arr_polygons :: "arr \<Rightarrow> ring list list option" where
  "arr_polygons a =
     (case a of
        ArrList _ geom_offsets (ArrList _ ring_offsets (ArrFixed _ _ (ArrFloat64 coords))) \<Rightarrow>
          Some (pb_rows \<lparr>pb_coords = coords, pb_ring_offsets = ring_offsets, pb_geom_offsets = geom_offsets\<rparr>)
      | _ \<Rightarrow> None)"

text \<open>A polygon builder whose offsets are in order.\<close>

definition pb_wf :: "polygon_builder \<Rightarrow> bool" where
  "pb_wf b \<longleftrightarrow> even (length (pb_coords b)) \<and> wf_offsets (pb_ring_offsets b) (length (pb_coords b) div 2) \<and>
     wf_offsets (pb_geom_offsets b) (length (pb_ring_offsets b) - 1)"

lemma build_polygon_wf:
  assumes lib: "arrow_accepts lib" and b: "pb_wf b"
  shows "\<exists>a. build_polygon_array lib b = Inr a \<and> validate_encoding show_ty a GePolygon = Inr () \<and>
             coordinate_values a = Some (pb_coords b) \<and> arr_len a = pb_polygons b \<and> arr_polygons a = Some (pb_rows b)"
proof -
  let ?c = "ArrFixed coord_name 2 (ArrFloat64 (pb_coords b))"
  let ?r = "ArrList vertices_name (pb_ring_offsets b) ?c"
  let ?a = "ArrList rings_name (pb_geom_offsets b) ?r"
  have e: "even (length (pb_coords b))" and r: "wf_offsets (pb_ring_offsets b) (length (pb_coords b) div 2)"
    and g: "wf_offsets (pb_geom_offsets b) (length (pb_ring_offsets b) - 1)"
    using b by (simp_all add: pb_wf_def)
  have "build_polygon_array lib b = Inr ?a"
    using coords_array_even [OF lib e] list_level_wf [OF lib r, of ?c] list_level_wf [OF lib g, of ?r]
    by (simp add: build_polygon_array_def bind_ok_def point_storage_type_def linestring_storage_type_def)
  moreover have "validate_encoding show_ty ?a GePolygon = Inr ()"
    by (simp add: validate_encoding_def structurally_def under_list_def is_xy_def Let_def)
  moreover have "coordinate_values ?a = Some (pb_coords b)"
    using g r nth_offset_ends [OF r] flat_range_all [OF e]
    by (simp add: coordinate_values_def Let_def wf_offsets_def as_usize_small)
  moreover have "arr_len ?a = pb_polygons b" by (simp add: pb_polygons_def)
  moreover have "arr_polygons ?a = Some (pb_rows b)" by (cases b) (simp add: arr_polygons_def)
  ultimately show ?thesis by blast
qed

lemma sorted_offsets_of_nats:
  "sorted ns \<Longrightarrow> list_all (\<lambda>n. n < 2 ^ 31) ns \<Longrightarrow> sorted (map sint (map (word_of_nat :: nat \<Rightarrow> i32) ns))"
  by (induction ns) (auto simp: sint_word_of_nat_small list_all_iff)

lemma ring_ends_nats:
  "ring_ends 0 rs = map (\<lambda>j. word_of_nat (start_of (Suc j) rs)) [0..<length rs]"
  by (rule nth_equalityI) (auto simp: nth_ring_ends length_ring_ends)

lemma start_of_le: "i \<le> j \<Longrightarrow> start_of i xss \<le> start_of j xss"
  by (simp add: start_of_length) (metis append_eq_conv_conj concat_append le_add_diff_inverse length_append take_add le_add1)

lemma start_of_sorted: "sorted (map (\<lambda>k. start_of k xss) [a..<b])"
  by (auto simp: sorted_iff_nth_mono intro!: start_of_le)

lemma holds_rows_wf:
  assumes h: "holds_rows gs b" and small: "length (concat (concat gs)) < 2 ^ 31" "length (concat gs) < 2 ^ 31"
  shows "pb_wf b"
proof -
  let ?rs = "concat gs"
  have ro: "pb_ring_offsets b = map word_of_nat (map (\<lambda>k. start_of k ?rs) [0..<Suc (length ?rs)])"
    using h by (auto simp: holds_rows_def ring_ends_nats start_of_def upt_conv_Cons map_Suc_upt [symmetric] simp del: upt_Suc)
  have go: "pb_geom_offsets b = map word_of_nat (map (\<lambda>k. start_of k gs) [0..<Suc (length gs)])"
    using h by (simp add: holds_rows_def)
  have "sorted (map sint (pb_ring_offsets b))" unfolding ro
    by (rule sorted_offsets_of_nats [OF start_of_sorted])
       (use small(1) start_of_mono [of _ ?rs] in \<open>auto simp: list_all_iff intro: le_less_trans simp del: upt_Suc\<close>)
  moreover have "sorted (map sint (pb_geom_offsets b))" unfolding go
    by (rule sorted_offsets_of_nats [OF start_of_sorted])
       (use small(2) start_of_mono [of _ gs] in \<open>auto simp: list_all_iff intro: le_less_trans simp del: upt_Suc\<close>)
  moreover have "even (length (pb_coords b))" "length (pb_coords b) div 2 = length (concat ?rs)"
    using h by (simp_all add: holds_rows_def)
  moreover have "start_of (length ?rs) ?rs = length (concat ?rs)" "start_of (length gs) gs = length ?rs"
    "start_of 0 ?rs = 0" "start_of 0 gs = 0"
    by (simp_all add: start_of_length)
  ultimately show ?thesis
    using small by (simp add: pb_wf_def wf_offsets_def ro go hd_map last_map comp_def del: upt_Suc)
qed

text \<open>The bounds of a batch enclose every position with ordered coordinates.\<close>

lemma f64_min_le:
  assumes "\<not> f64_is_nan a"
  shows "\<not> f64_is_nan (f64_min a x) \<and> f64_le (f64_min a x) a \<and> (\<not> f64_is_nan x \<longrightarrow> f64_le (f64_min a x) x)"
  using assms by (auto simp: f64_min_def f64_le_def f64_lt_def)

lemma f64_max_ge:
  assumes "\<not> f64_is_nan a"
  shows "\<not> f64_is_nan (f64_max a x) \<and> f64_le a (f64_max a x) \<and> (\<not> f64_is_nan x \<longrightarrow> f64_le x (f64_max a x))"
  using assms by (auto simp: f64_max_def f64_le_def f64_lt_def)

lemma f64_le_trans: "f64_le a b \<Longrightarrow> f64_le b c \<Longrightarrow> f64_le a c"
  by (auto simp: f64_le_def)

definition encloses :: "f64 \<times> f64 \<times> f64 \<times> f64 \<Rightarrow> position \<Rightarrow> bool" where
  "encloses b p =
     (case (b, p) of ((x0, y0, x1, y1), (x, y)) \<Rightarrow>
        (\<not> f64_is_nan x \<longrightarrow> f64_le x0 x \<and> f64_le x x1) \<and> (\<not> f64_is_nan y \<longrightarrow> f64_le y0 y \<and> f64_le y y1))"

definition ordered_bounds :: "f64 \<times> f64 \<times> f64 \<times> f64 \<Rightarrow> bool" where
  "ordered_bounds b = (case b of (x0, y0, x1, y1) \<Rightarrow>
     \<not> f64_is_nan x0 \<and> \<not> f64_is_nan y0 \<and> \<not> f64_is_nan x1 \<and> \<not> f64_is_nan y1)"

lemma fold_bounds_step:
  assumes "ordered_bounds b"
  shows "ordered_bounds (fold_bounds b p) \<and> encloses (fold_bounds b p) p \<and> (encloses b q \<longrightarrow> encloses (fold_bounds b p) q)"
proof -
  obtain x0 y0 x1 y1 x y where b: "b = (x0, y0, x1, y1)" and p: "p = (x, y)" by (metis surj_pair)
  show ?thesis
    using assms f64_min_le [of x0 x] f64_min_le [of y0 y] f64_max_ge [of x1 x] f64_max_ge [of y1 y] f64_le_trans
    by (simp add: b p ordered_bounds_def fold_bounds_def encloses_def split: prod.split) blast
qed

lemma foldl_bounds:
  "ordered_bounds b \<Longrightarrow> ordered_bounds (foldl fold_bounds b ps) \<and>
     (\<forall>p. p \<in> set ps \<or> encloses b p \<longrightarrow> encloses (foldl fold_bounds b ps) p)"
proof (induction ps arbitrary: b)
  case (Cons q ps)
  have o: "ordered_bounds (fold_bounds b q)" using fold_bounds_step [OF Cons.prems] by blast
  have k: "encloses (fold_bounds b q) p" if "p = q \<or> encloses b p" for p
    using fold_bounds_step [OF Cons.prems, of q p] that by blast
  show ?case
    using Cons.IH [OF o] k by (metis foldl_Cons set_ConsD)
qed simp

theorem xy_bounds_enclose:
  assumes "xy_bounds a = Some bounds" "coordinate_values a = Some coords" "p \<in> set (pairs coords)"
  shows "encloses bounds p"
proof -
  let ?b = "(f64_infinity, f64_infinity, f64_neg_infinity, f64_neg_infinity)"
  have "ordered_bounds ?b"
    by (simp add: ordered_bounds_def f64_infinity_def f64_neg_infinity_def f64_is_nan_def f64_mag_def)
  then have "encloses (foldl fold_bounds ?b (pairs coords)) p"
    using foldl_bounds assms(3) by blast
  moreover have "bounds = foldl fold_bounds ?b (pairs coords)"
    using assms(1,2) by (simp add: xy_bounds_def Let_def split: list.splits prod.splits if_splits)
  ultimately show ?thesis by simp
qed

section \<open>Properties\<close>

text \<open>
  C25: From WKB to the Arrow array nothing is lost and nothing is refused. Push the encodings of any well-formed
  polygons, each in its own byte order, with fewer than \<open>2 ^ 31\<close> positions and rings in all; build the array. Every
  push and the build succeed (when Arrow's constructors accept well-formed parts), the array has the type its
  encoding claims, one element per polygon, the polygons read through its offsets are those pushed, and the
  coordinates \<open>coordinate_values\<close> borrows are theirs, all of them, in order.
\<close>
theorem polygon_array_roundtrip:
  assumes lib: "arrow_accepts lib" and gs: "list_all rings_ok gs" "length ls = length gs"
    and small: "length (concat (concat gs)) < 2 ^ 31" "length (concat gs) < 2 ^ 31"
  shows "\<exists>b a. polygon_push_all polygon_builder_new (map (\<lambda>(l, g). enc_polygon l g) (zip ls gs)) = (Inr (), b) \<and>
    build_polygon_array lib b = Inr a \<and> validate_encoding show_ty a GePolygon = Inr () \<and>
    arr_len a = length gs \<and> arr_polygons a = Some gs \<and> coordinate_values a = Some (flat (concat (concat gs)))"
proof -
  obtain b where push: "polygon_push_all polygon_builder_new (map (\<lambda>(l, g). enc_polygon l g) (zip ls gs)) = (Inr (), b)"
    and h: "holds_rows gs b"
    using push_all_holds [OF holds_rows_new gs(1), of ls] gs(2) by auto
  obtain a where a: "build_polygon_array lib b = Inr a" "validate_encoding show_ty a GePolygon = Inr ()"
      "coordinate_values a = Some (pb_coords b)" "arr_len a = pb_polygons b" "arr_polygons a = Some (pb_rows b)"
    using build_polygon_wf [OF lib holds_rows_wf [OF h small]] by blast
  moreover have "pb_rows b = gs" "pb_coords b = flat (concat (concat gs))" "pb_polygons b = length gs"
    using holds_rows_read [OF h small] h by (simp_all add: holds_rows_def pb_polygons_def)
  ultimately show ?thesis using push by auto
qed

definition ex_lib :: arrow_lib where
  "ex_lib = \<lparr>al_fixed = \<lambda>name ty n a. if ty = arr_type a \<and> 0 < n then Inr (ArrFixed name n a) else Inl ''fixed'',
     al_list = \<lambda>name ty os a. if ty = arr_type a \<and> os \<noteq> [] \<and> sint (last os) \<le> int (arr_len a)
        then Inr (ArrList name os a) else Inl ''list''\<rparr>"

theorem polygon_array_roundtrip_witness:
  "\<exists>b a. polygon_push_all polygon_builder_new [enc_polygon True [ex_ring], enc_polygon False [ex_ring, ex_ring]] =
      (Inr (), b) \<and> build_polygon_array ex_lib b = Inr a \<and> validate_encoding (\<lambda>_. []) a GePolygon = Inr () \<and>
    arr_len a = length [[ex_ring], [ex_ring, ex_ring]] \<and> arr_polygons a = Some [[ex_ring], [ex_ring, ex_ring]] \<and>
    coordinate_values a = Some (flat (ex_ring @ ex_ring @ ex_ring))"
proof -
  have "arrow_accepts ex_lib" by (simp add: arrow_accepts_def ex_lib_def)
  moreover have "list_all rings_ok [[ex_ring], [ex_ring, ex_ring]]" using ex_ring_ok by (simp add: rings_ok_def)
  moreover have "length ex_ring = 4" by (simp add: ex_ring_def)
  ultimately show ?thesis
    using polygon_array_roundtrip [of ex_lib "[[ex_ring], [ex_ring, ex_ring]]" "[True, False]" "\<lambda>_. []"]
    by simp
qed

end
