(* ===== verification/Stream_Query.thy ===== *)
theory Stream_Query
  imports Filter_Types Rowgroup Geoarrow
begin

text \<open>
  \<open>engine/src/stream.rs\<close>, the part before the producer runs: the batch size policy, the filter plan and the SQL text of a
  query, what a stream refuses before it leases a connection, and how a DuckDB message becomes an error.

  Of \<open>Dataset\<close> the model keeps what these functions read (\<open>stream_dataset\<close>). \<open>candidates\<close> of a spatial index can panic
  on an inconsistent index, so \<open>build_sql\<close> returns \<open>None\<close> there.
\<close>

section \<open>Ceilings and policy\<close>

definition max_batch_bytes :: nat where "max_batch_bytes = 4 * 1024 * 1024"
definition target_batch_bytes :: nat where "target_batch_bytes = 1024 * 1024"
definition min_batch_bytes :: nat where "min_batch_bytes = 32 * 1024"
definition first_target_batch_bytes :: nat where "first_target_batch_bytes = 64 * 1024"
definition batch_growth_factor :: nat where "batch_growth_factor = 4"
definition max_rows_per_batch :: nat where "max_rows_per_batch = 65536"
definition max_queued_batches :: nat where "max_queued_batches = 2"
definition max_attribute_retention_factor :: nat where "max_attribute_retention_factor = 2"
definition publish_partition_target_bytes :: nat where "publish_partition_target_bytes = 1024 * 1024"
definition first_batch_time_budget :: nanos where "first_batch_time_budget = 8 * 1000000"
definition budget_check_row_stride :: nat where "budget_check_row_stride = 256"
definition publish_partition_rows :: nat where "publish_partition_rows = 8192"
definition max_publish_partitions :: nat where "max_publish_partitions = 100000"

datatype batch_cut = SizeTarget | RowCeiling | TimeBudget | StreamEnd

definition batch_cut_as_str :: "batch_cut \<Rightarrow> string" where
  "batch_cut_as_str c =
     (case c of SizeTarget \<Rightarrow> ''size-target'' | RowCeiling \<Rightarrow> ''row-ceiling''
      | TimeBudget \<Rightarrow> ''time-budget'' | StreamEnd \<Rightarrow> ''stream-end'')"

datatype batch_cut_policy = SizeOnly | TimeBudgetedFirstBatch

definition batch_cut_policy_as_str :: "batch_cut_policy \<Rightarrow> string" where
  "batch_cut_policy_as_str c =
     (case c of SizeOnly \<Rightarrow> ''size-only'' | TimeBudgetedFirstBatch \<Rightarrow> ''time-budgeted-first-batch'')"

record batch_size_policy =
  bp_first_target_bytes :: nat
  bp_growth_factor :: nat
  bp_target_bytes :: nat
  bp_min_bytes :: nat
  bp_max_rows :: nat
  bp_cut :: batch_cut_policy

definition default_policy :: batch_size_policy where
  "default_policy =
     \<lparr>bp_first_target_bytes = first_target_batch_bytes, bp_growth_factor = batch_growth_factor,
      bp_target_bytes = target_batch_bytes, bp_min_bytes = min_batch_bytes, bp_max_rows = max_rows_per_batch,
      bp_cut = SizeOnly\<rparr>"

definition publish_policy :: batch_size_policy where
  "publish_policy =
     \<lparr>bp_first_target_bytes = publish_partition_target_bytes, bp_growth_factor = 1,
      bp_target_bytes = publish_partition_target_bytes, bp_min_bytes = min_batch_bytes,
      bp_max_rows = publish_partition_rows, bp_cut = SizeOnly\<rparr>"

definition time_budgeted_policy :: batch_size_policy where
  "time_budgeted_policy = default_policy\<lparr>bp_cut := TimeBudgetedFirstBatch\<rparr>"

definition usize_max :: nat where "usize_max = 2 ^ 64 - 1"

text \<open>The loop of \<open>target_for\<close> with \<open>index\<close> turns left.\<close>

fun target_loop :: "batch_size_policy \<Rightarrow> nat \<Rightarrow> nat \<Rightarrow> nat" where
  "target_loop bp t 0 = max (min t (bp_target_bytes bp)) (bp_min_bytes bp)"
| "target_loop bp t (Suc index) =
     (if t \<ge> bp_target_bytes bp then bp_target_bytes bp
      else target_loop bp (min (t * bp_growth_factor bp) usize_max) index)"

definition target_for :: "batch_size_policy \<Rightarrow> nat \<Rightarrow> nat" where
  "target_for bp index = target_loop bp (bp_first_target_bytes bp) index"

section \<open>Queries and plans\<close>

record viewport_query =
  vq_bbox :: "view_bbox option"
  vq_bbox_crs :: "string option"
  vq_limit :: "nat option"
  vq_filter :: "admitted_predicate option"

definition query_all :: viewport_query where
  "query_all = \<lparr>vq_bbox = None, vq_bbox_crs = None, vq_limit = None, vq_filter = None\<rparr>"

definition query_viewport :: "view_bbox \<Rightarrow> string \<Rightarrow> viewport_query" where
  "query_viewport bbox crs = \<lparr>vq_bbox = Some bbox, vq_bbox_crs = Some crs, vq_limit = None, vq_filter = None\<rparr>"

definition with_limit :: "viewport_query \<Rightarrow> nat \<Rightarrow> viewport_query" where
  "with_limit q n = q\<lparr>vq_limit := Some n\<rparr>"

definition with_filter :: "viewport_query \<Rightarrow> admitted_predicate \<Rightarrow> viewport_query" where
  "with_filter q f = q\<lparr>vq_filter := Some f\<rparr>"

datatype filter_plan =
    WholeFile
  | IndexNarrowed nat nat
  | ScanOnly
  | IndexTooFragmented nat
  | RowGroupsPruned nat nat nat
  | RowGroupsKeptAll nat
  | RowGroupsNotPrunable nat row_group_refusal
  | RowGroupsTooFragmented nat nat
  | RowGroupsExcludeAll nat

definition filter_plan_as_str :: "filter_plan \<Rightarrow> string" where
  "filter_plan_as_str pl =
     (case pl of
        WholeFile \<Rightarrow> ''whole-file''
      | IndexNarrowed _ _ \<Rightarrow> ''index-narrowed''
      | ScanOnly \<Rightarrow> ''scan-only''
      | IndexTooFragmented _ \<Rightarrow> ''index-too-fragmented''
      | RowGroupsPruned _ _ _ \<Rightarrow> ''row-groups-pruned''
      | RowGroupsKeptAll _ \<Rightarrow> ''row-groups-kept-all''
      | RowGroupsNotPrunable _ _ \<Rightarrow> ''row-groups-not-prunable''
      | RowGroupsTooFragmented _ _ \<Rightarrow> ''row-groups-too-fragmented''
      | RowGroupsExcludeAll _ \<Rightarrow> ''row-groups-exclude-all'')"

definition claims_io_exclusion :: "filter_plan \<Rightarrow> bool" where
  "claims_io_exclusion pl = (case pl of RowGroupsPruned _ _ _ \<Rightarrow> True | _ \<Rightarrow> False)"

datatype index_use = IndexOff | IndexExperimental | IndexRowGroups

datatype row_ordering = Unordered | ByIdentityAscending

definition is_timing_dependent :: "row_ordering \<Rightarrow> batch_cut_policy \<Rightarrow> bool" where
  "is_timing_dependent ord c \<longleftrightarrow> ord = ByIdentityAscending \<and> c = TimeBudgetedFirstBatch"

text \<open>What an entry point of \<open>Dataset\<close> asks of \<open>stream_inner\<close>; of the envelope, its attribute fields.\<close>

record stream_plan =
  pl_index_use :: index_use
  pl_ordering :: row_ordering
  pl_policy :: batch_size_policy
  pl_attributes :: "field list"
  pl_report_bounds :: bool
  pl_compact_retention :: bool

definition plan_for_publish :: "field list \<Rightarrow> stream_plan" where
  "plan_for_publish attributes =
     \<lparr>pl_index_use = IndexOff, pl_ordering = ByIdentityAscending, pl_policy = publish_policy,
      pl_attributes = attributes, pl_report_bounds = True, pl_compact_retention = False\<rparr>"

definition plan_default :: "field list \<Rightarrow> stream_plan" where
  "plan_default attributes =
     \<lparr>pl_index_use = IndexOff, pl_ordering = Unordered, pl_policy = default_policy,
      pl_attributes = attributes, pl_report_bounds = False, pl_compact_retention = False\<rparr>"

definition plan_projected :: "field list \<Rightarrow> stream_plan" where
  "plan_projected attributes =
     \<lparr>pl_index_use = IndexOff, pl_ordering = Unordered, pl_policy = default_policy,
      pl_attributes = attributes, pl_report_bounds = False, pl_compact_retention = True\<rparr>"

definition plan_indexed :: "field list \<Rightarrow> stream_plan" where
  "plan_indexed attributes =
     \<lparr>pl_index_use = IndexExperimental, pl_ordering = Unordered, pl_policy = default_policy,
      pl_attributes = attributes, pl_report_bounds = False, pl_compact_retention = False\<rparr>"

definition plan_budgeted :: "field list \<Rightarrow> stream_plan" where
  "plan_budgeted attributes =
     \<lparr>pl_index_use = IndexOff, pl_ordering = Unordered, pl_policy = time_budgeted_policy,
      pl_attributes = attributes, pl_report_bounds = False, pl_compact_retention = False\<rparr>"

definition plan_rowgroup_pruned :: "field list \<Rightarrow> stream_plan" where
  "plan_rowgroup_pruned attributes =
     \<lparr>pl_index_use = IndexRowGroups, pl_ordering = Unordered, pl_policy = default_policy,
      pl_attributes = attributes, pl_report_bounds = False, pl_compact_retention = False\<rparr>"

definition plan_rowgroup_budgeted :: "field list \<Rightarrow> stream_plan" where
  "plan_rowgroup_budgeted attributes =
     \<lparr>pl_index_use = IndexRowGroups, pl_ordering = Unordered, pl_policy = time_budgeted_policy,
      pl_attributes = attributes, pl_report_bounds = False, pl_compact_retention = False\<rparr>"

record stream_dataset =
  sd_geometry_column :: string
  sd_source_column :: string
  sd_covering :: "covering_bbox option"
  sd_covering_unusable :: "string option"
  sd_row_groups :: "row_group_index option"
  sd_index :: "spatial_index option"
  sd_crs_identifier :: string

definition no_covering_bbox_detail :: "stream_dataset \<Rightarrow> string \<Rightarrow> string" where
  "no_covering_bbox_detail ds why =
     (case sd_covering_unusable ds of
        Some reason \<Rightarrow> reason @ why
      | None \<Rightarrow> ''the file'' @ [CHR 0x27] @ ''s `geo` metadata declares no covering.bbox'' @ why)"

section \<open>The SQL text\<close>

definition range_predicate :: "string \<Rightarrow> u64 \<times> u64 \<Rightarrow> string" where
  "range_predicate col r =
     (case r of (lo, hi) \<Rightarrow>
        if lo = hi then col @ '' = '' @ show_nat (unat lo)
        else col @ '' BETWEEN '' @ show_nat (unat lo) @ '' AND '' @ show_nat (unat hi))"

definition ranges_clause :: "string \<Rightarrow> (u64 \<times> u64) list \<Rightarrow> string" where
  "ranges_clause col ranges = ''('' @ join_with '' OR '' (map (range_predicate col) ranges) @ '')''"

definition covering_clause :: "covering_bbox \<Rightarrow> string" where
  "covering_clause c =
     field_path_to_sql (cv_xmin c) @ '' <= ? AND '' @ field_path_to_sql (cv_xmax c) @ '' >= ? AND '' @
     field_path_to_sql (cv_ymin c) @ '' <= ? AND '' @ field_path_to_sql (cv_ymax c) @ '' >= ?''"

definition filter_clause :: "viewport_query \<Rightarrow> string option" where
  "filter_clause q = map_option (\<lambda>f. ''('' @ ap_text f @ '')'') (vq_filter q)"

definition open_where :: "viewport_query \<Rightarrow> string" where
  "open_where q = '' WHERE '' @ (case filter_clause q of Some f \<Rightarrow> f @ '' AND '' | None \<Rightarrow> [])"

definition limit_clause :: "viewport_query \<Rightarrow> string" where
  "limit_clause q = (case vq_limit q of Some n \<Rightarrow> '' LIMIT '' @ show_nat n | None \<Rightarrow> [])"

definition order_clause :: "string \<Rightarrow> row_ordering \<Rightarrow> string" where
  "order_clause source_column ord =
     (case ord of Unordered \<Rightarrow> [] | ByIdentityAscending \<Rightarrow> '' ORDER BY '' @ source_column @ '' ASC'')"

definition select_clause :: "stream_dataset \<Rightarrow> field list \<Rightarrow> string" where
  "select_clause ds attributes =
     ''SELECT '' @ quote_ident (sd_source_column ds) @ '' AS '' @ quote_ident id_column @ '', '' @
     quote_ident (sd_geometry_column ds) @ concat (map (\<lambda>f. '', '' @ quote_ident (fd_name f)) attributes) @
     '' FROM read_parquet(?)''"

text \<open>The row-group branch: the plan, and the ranges when it narrows.\<close>

definition row_group_plan :: "stream_dataset \<Rightarrow> view_bbox \<Rightarrow> filter_plan \<times> (u64 \<times> u64) list option" where
  "row_group_plan ds view =
     (case sd_row_groups ds of
        None \<Rightarrow> (ScanOnly, None)
      | Some idx \<Rightarrow>
          (case ranges_for idx view of
             Inl reason \<Rightarrow> (RowGroupsNotPrunable (length (ri_groups idx)) reason, None)
           | Inr sel \<Rightarrow>
               if rs_kept sel = 0 then (RowGroupsExcludeAll (rs_total sel), None)
               else if \<not> excludes_io sel then (RowGroupsKeptAll (rs_total sel), None)
               else if length (rs_ranges sel) > max_row_group_ranges
                 then (RowGroupsTooFragmented (rs_total sel) (rs_kept sel), None)
               else (RowGroupsPruned (rs_total sel) (rs_kept sel) (length (rs_ranges sel)), Some (rs_ranges sel))))"

text \<open>The grid-index branch; \<open>None\<close> is the panic of \<open>candidates\<close>.\<close>

definition index_plan :: "stream_dataset \<Rightarrow> index_use \<Rightarrow> view_bbox \<Rightarrow> (filter_plan \<times> (u64 \<times> u64) list option) option" where
  "index_plan ds use view =
     (case (if use = IndexExperimental then sd_index ds else None) of
        None \<Rightarrow> Some (ScanOnly, None)
      | Some idx \<Rightarrow>
          (case candidates idx view of
             None \<Rightarrow> None
           | Some None \<Rightarrow> Some (ScanOnly, None)
           | Some (Some cs) \<Rightarrow>
               Some (case compress_to_ranges cs max_id_ranges of
                       Some ranges \<Rightarrow>
                         if ranges = [] then (ScanOnly, None)
                         else (IndexNarrowed (length ranges) (length cs), Some ranges)
                     | None \<Rightarrow> (IndexTooFragmented (length cs), None))))"

definition build_sql ::
    "stream_dataset \<Rightarrow> viewport_query \<Rightarrow> index_use \<Rightarrow> field list \<Rightarrow> row_ordering \<Rightarrow> (engine_error + string \<times> filter_plan) option" where
  "build_sql ds q use attributes ord =
     (let source_column = quote_ident (sd_source_column ds);
          sql = select_clause ds attributes;
          tail = order_clause source_column ord @ limit_clause q
      in case vq_bbox q of
           None \<Rightarrow>
             Some (Inr (sql @ (case filter_clause q of Some f \<Rightarrow> '' WHERE '' @ f | None \<Rightarrow> []) @ tail, WholeFile))
         | Some view \<Rightarrow>
             (case sd_covering ds of
                None \<Rightarrow> Some (Inl (EngNoCoveringBbox (no_covering_bbox_detail ds [])))
              | Some c \<Rightarrow>
                  map_option (\<lambda>(pl, narrowed).
                    Inr (sql @ open_where q @
                         (case narrowed of Some ranges \<Rightarrow> ranges_clause source_column ranges @ '' AND '' | None \<Rightarrow> []) @
                         covering_clause c @ tail, pl))
                    (if use = IndexRowGroups then Some (row_group_plan ds view) else index_plan ds use view)))"

section \<open>What a stream refuses first\<close>

definition definition_only :: string where "definition_only = ''(definition-only)''"

text \<open>The checks of \<open>stream_inner\<close> up to the SQL text; \<open>unchanged\<close> is the answer of \<open>check_source_unchanged\<close>.\<close>

definition admit_stream ::
    "stream_dataset \<Rightarrow> viewport_query \<Rightarrow> index_use \<Rightarrow> field list \<Rightarrow> row_ordering \<Rightarrow> batch_size_policy \<Rightarrow> engine_error + unit
       \<Rightarrow> (engine_error + string \<times> filter_plan) option" where
  "admit_stream ds q use attributes ord bp unchanged =
     (if is_timing_dependent ord (bp_cut bp)
      then Some (Inl (EngTimingDependentOrdering ''by-identity-ascending'' (batch_cut_policy_as_str (bp_cut bp))))
      else case unchanged of
        Inl e \<Rightarrow> Some (Inl e)
      | Inr _ \<Rightarrow>
          (case (vq_bbox q, vq_bbox_crs q) of
             (Some _, Some bbox_crs) \<Rightarrow>
               if sd_crs_identifier ds = definition_only then Some (Inl EngViewportCrsUnidentifiable)
               else if bbox_crs \<noteq> sd_crs_identifier ds
                 then Some (Inl (EngViewportCrsMismatch (sd_crs_identifier ds) bbox_crs))
               else build_sql ds q use attributes ord
           | _ \<Rightarrow> build_sql ds q use attributes ord))"

text \<open>The parameters \<open>produce\<close> binds: the path, then the view's edges in the order of the covering clause.\<close>

definition bound_edges :: "view_bbox option \<Rightarrow> f64 list" where
  "bound_edges b = (case b of None \<Rightarrow> [] | Some v \<Rightarrow> [vw_xmax v, vw_xmin v, vw_ymax v, vw_ymin v])"

section \<open>DuckDB's messages\<close>

definition out_of_range_detail :: string where
  "out_of_range_detail =
     ''[P6 placeholder] a value computed while this query ran was out of range for its type; '' @
     ''the row values and the query text are withheld''"

definition fetch_panic_prefix :: string where
  "fetch_panic_prefix = ''Failed to fetch Arrow record batch: ''"

definition pending_result_wrapper :: string where
  "pending_result_wrapper =
     ''Invalid Input Error: Attempting to execute an unsuccessful or closed pending query result'' @ [CHR 0x0A] @ ''Error: ''"

definition is_out_of_range :: "string \<Rightarrow> bool" where
  "is_out_of_range message \<longleftrightarrow> starts_with message ''Out of Range Error''"

definition fetch_panic_duckdb_text :: "string \<Rightarrow> string option" where
  "fetch_panic_duckdb_text payload =
     (case strip_prefix payload fetch_panic_prefix of
        None \<Rightarrow> None
      | Some tail \<Rightarrow>
          (case strip_prefix tail pending_result_wrapper of
             Some inner \<Rightarrow> if is_out_of_range inner then Some inner else None
           | None \<Rightarrow> if is_out_of_range tail then Some tail else None))"

definition classify_query :: "bool \<Rightarrow> string \<Rightarrow> string \<Rightarrow> engine_error" where
  "classify_query cancelled phase message =
     (if cancelled then EngCancelled
      else if is_out_of_range message then EngQuery out_of_range_detail
      else EngQuery (phase @ '': '' @ message))"

definition classify_fetch_panic :: "bool \<Rightarrow> string \<Rightarrow> engine_error" where
  "classify_fetch_panic cancelled payload =
     classify_query cancelled ''duckdb fetch panicked''
       (case fetch_panic_duckdb_text payload of Some t \<Rightarrow> t | None \<Rightarrow> payload)"

section \<open>What an admitted stream promises\<close>

text \<open>A query with a view is always tested against the covering columns, whatever narrows it first, and its parameters are
  the four the producer binds; ranges are there exactly when the plan says so.\<close>

theorem view_queries_test_the_covering:
  assumes "build_sql ds q use attributes ord = Some (Inr (sql, pl))" "vq_bbox q = Some view"
  shows "\<exists>c narrowed. sd_covering ds = Some c \<and>
    sql = select_clause ds attributes @ open_where q @ narrowed @ covering_clause c @
          order_clause (quote_ident (sd_source_column ds)) ord @ limit_clause q \<and>
    ((narrowed = []) \<longleftrightarrow> \<not> claims_io_exclusion pl \<and> (\<forall>n m. pl \<noteq> IndexNarrowed n m))"
proof -
  obtain c where c: "sd_covering ds = Some c"
    using assms by (auto simp: build_sql_def Let_def split: option.splits)
  obtain ranges where r: "(if use = IndexRowGroups then Some (row_group_plan ds view) else index_plan ds use view) = Some (pl, ranges)"
    and sql: "sql = select_clause ds attributes @ open_where q @
        (case ranges of Some rs \<Rightarrow> ranges_clause (quote_ident (sd_source_column ds)) rs @ '' AND '' | None \<Rightarrow> []) @
        covering_clause c @ order_clause (quote_ident (sd_source_column ds)) ord @ limit_clause q"
    using assms c by (auto simp: build_sql_def Let_def)
  have "ranges = None \<longleftrightarrow> \<not> claims_io_exclusion pl \<and> (\<forall>n m. pl \<noteq> IndexNarrowed n m)"
    using r by (auto simp: row_group_plan_def index_plan_def claims_io_exclusion_def Let_def
        split: if_splits option.splits sum.splits)
  then show ?thesis using c sql by (cases ranges) (auto simp: ranges_clause_def)
qed

text \<open>What \<open>stream_inner\<close> lets through: no order by identity under a time budget, and no view in another CRS.\<close>

theorem admitted_streams_are_consistent:
  assumes "admit_stream ds q use attributes ord bp unchanged = Some (Inr r)"
  shows "(ord = ByIdentityAscending \<longrightarrow> bp_cut bp = SizeOnly) \<and> unchanged = Inr () \<and>
    (vq_bbox q \<noteq> None \<and> vq_bbox_crs q \<noteq> None \<longrightarrow>
       vq_bbox_crs q = Some (sd_crs_identifier ds) \<and> sd_crs_identifier ds \<noteq> definition_only)"
  using assms
  by (cases "bp_cut bp"; cases unchanged)
     (auto simp: admit_stream_def is_timing_dependent_def split: if_splits option.splits)

text \<open>None of the entry points is refused for its own plan, and only publishing reports bounds.\<close>

theorem entry_points_are_not_timing_dependent:
  assumes "pl \<in> {plan_for_publish a, plan_default a, plan_projected a, plan_indexed a, plan_budgeted a,
                  plan_rowgroup_pruned a, plan_rowgroup_budgeted a}"
  shows "\<not> is_timing_dependent (pl_ordering pl) (bp_cut (pl_policy pl)) \<and>
    (pl_report_bounds pl \<longleftrightarrow> pl_ordering pl = ByIdentityAscending)"
  using assms
  by (auto simp: plan_for_publish_def plan_default_def plan_projected_def plan_indexed_def plan_budgeted_def
      plan_rowgroup_pruned_def plan_rowgroup_budgeted_def is_timing_dependent_def publish_policy_def)

text \<open>A message that holds row values never reaches the caller, from an error or from a panic of the fetch.\<close>

lemma out_of_range_is_withheld: "is_out_of_range m \<Longrightarrow> classify_query False phase m = EngQuery out_of_range_detail"
  by (simp add: classify_query_def)

theorem panicked_out_of_range_is_withheld:
  assumes "is_out_of_range m"
  shows "classify_fetch_panic False (fetch_panic_prefix @ m) = EngQuery out_of_range_detail"
    and "classify_fetch_panic False (fetch_panic_prefix @ pending_result_wrapper @ m) = EngQuery out_of_range_detail"
proof -
  have p: "strip_prefix (a @ b) a = Some b" for a b :: string by (simp add: strip_prefix_def starts_with_def)
  have "strip_prefix m pending_result_wrapper = None"
    using assms by (cases m) (auto simp: is_out_of_range_def strip_prefix_def starts_with_def pending_result_wrapper_def)
  then show "classify_fetch_panic False (fetch_panic_prefix @ m) = EngQuery out_of_range_detail"
    using assms by (simp add: classify_fetch_panic_def fetch_panic_duckdb_text_def p out_of_range_is_withheld)
  show "classify_fetch_panic False (fetch_panic_prefix @ pending_result_wrapper @ m) = EngQuery out_of_range_detail"
    using assms by (simp add: classify_fetch_panic_def fetch_panic_duckdb_text_def p out_of_range_is_withheld)
qed

end
