(* ===== verification/Stream.thy ===== *)
theory Stream
  imports Stream_Query Cancel
begin

text \<open>
  \<open>engine/src/stream.rs\<close>, the producer and the consumer of a stream, with \<open>TaggedBatch\<close> of \<open>engine/src/envelope.rs\<close>.
  The producer turns the chunks DuckDB yields into batches: rows are decoded one by one, a batch is cut by its
  estimated size, its row count, the time budget of the first batch or the end of the result.

  What the producer does not decide is a \<open>world\<close>: the answers of the reads of the cancel flag, of the reads of the clock and
  of the sends. Arrow's array functions are an \<open>array_lib\<close>. An attribute or result column is its type and its cells.
  Trace marks and the process-wide counter of concatenations are left out: nothing reads them back. The one panic
  modelled is that of the fetch, which the source catches; a panic of the producer thread anywhere else is not caught
  there, and would close the channel without an error.
\<close>

section \<open>Columns\<close>

datatype acell = Null | Num int | Bytes "byte list"

record column =
  co_type :: data_type
  co_cells :: "acell list"

definition co_null_count :: "column \<Rightarrow> nat" where
  "co_null_count col = length (filter (\<lambda>c. c = Null) (co_cells col))"

definition co_slice :: "column \<Rightarrow> nat \<Rightarrow> nat \<Rightarrow> column" where
  "co_slice col start len = col\<lparr>co_cells := take len (drop start (co_cells col))\<rparr>"

fun collect_ok :: "('e + 'a) list \<Rightarrow> 'e + 'a list" where
  "collect_ok [] = Inr []"
| "collect_ok (r # rs) = bind_ok r (\<lambda>x. bind_ok (collect_ok rs) (\<lambda>xs. Inr (x # xs)))"

record result_chunk =
  rc_rows :: nat
  rc_column :: "string \<Rightarrow> column option"

definition cell_u64 :: "acell \<Rightarrow> u64" where
  "cell_u64 c = (case c of Num i \<Rightarrow> word_of_int i | _ \<Rightarrow> 0)"

definition try_u64 :: "string \<Rightarrow> acell \<Rightarrow> engine_error + u64" where
  "try_u64 name c =
     (case c of
        Num i \<Rightarrow> if i < 0 then Inl (EngQuery (''`'' @ name @ ''` holds a negative value: '' @ show_int i))
                 else Inr (word_of_int i)
      | _ \<Rightarrow> Inr 0)"

definition column_u64 :: "(data_type \<Rightarrow> string) \<Rightarrow> result_chunk \<Rightarrow> string \<Rightarrow> engine_error + u64 list" where
  "column_u64 show_dt ch name =
     (case rc_column ch name of
        None \<Rightarrow> Inl (EngQuery (''result has no `'' @ name @ ''` column''))
      | Some col \<Rightarrow>
          if co_null_count col > 0 then
            Inl (EngQuery (''`'' @ name @ ''` holds '' @ show_nat (co_null_count col) @
                           '' null value(s); every feature must carry a stable identity''))
          else if co_type col = DUInt64 then Inr (map cell_u64 (co_cells col))
          else if co_type col = DInt64 then collect_ok (map (try_u64 name) (co_cells col))
          else Inl (EngQuery (''`'' @ name @ ''` is '' @ show_dt (co_type col) @ ''; expected a 64-bit integer'')))"

definition binary_types :: "data_type list" where
  "binary_types = [DOther ''Binary'', DOther ''LargeBinary'', DOther ''BinaryView'']"

definition binary_value :: "(data_type \<Rightarrow> string) \<Rightarrow> column \<Rightarrow> nat \<Rightarrow> engine_error + byte list" where
  "binary_value show_dt col row =
     (case co_cells col ! row of
        Null \<Rightarrow> Inl (EngWkb (''row '' @ show_nat row @ '' has a null geometry''))
      | c \<Rightarrow>
          if co_type col \<in> set binary_types then Inr (case c of Bytes b \<Rightarrow> b | _ \<Rightarrow> [])
          else Inl (EngQuery (''geometry column is '' @ show_dt (co_type col) @ ''; expected binary'')))"

definition cell_length :: "acell \<Rightarrow> nat" where
  "cell_length c = (case c of Bytes b \<Rightarrow> length b | _ \<Rightarrow> 0)"

definition attr_cell_bytes :: "data_type \<Rightarrow> acell \<Rightarrow> nat" where
  "attr_cell_bytes dt c =
     1 + (if c = Null then 0
          else case dt of
                 DUtf8 \<Rightarrow> cell_length c + 4
               | DLargeUtf8 \<Rightarrow> cell_length c + 8
               | DUtf8View \<Rightarrow> cell_length c + 16
               | DBoolean \<Rightarrow> 1
               | DInt8 \<Rightarrow> 1 | DUInt8 \<Rightarrow> 1
               | DInt16 \<Rightarrow> 2 | DUInt16 \<Rightarrow> 2
               | DInt32 \<Rightarrow> 4 | DUInt32 \<Rightarrow> 4
               | DFloat32 \<Rightarrow> 4
               | _ \<Rightarrow> 8)"

definition attr_row_bytes :: "column list \<Rightarrow> nat \<Rightarrow> nat" where
  "attr_row_bytes chunk_attrs row = sum_list (map (\<lambda>col. attr_cell_bytes (co_type col) (co_cells col ! row)) chunk_attrs)"

definition estimate_bytes :: "nat \<Rightarrow> nat \<Rightarrow> nat" where
  "estimate_bytes rows vertices = vertices * 16 + rows * 8 + (rows + vertices) * 4"

section \<open>Arrow's array functions\<close>

datatype array_data = ArrayData nat bool "array_data list"

fun buffer_count :: "array_data \<Rightarrow> nat" where
  "buffer_count (ArrayData buffers has_nulls children) =
     buffers + (if has_nulls then 1 else 0) + sum_list (map buffer_count children)"

record array_lib =
  ar_cast :: "column \<Rightarrow> data_type \<Rightarrow> string + column"
  ar_concat :: "column list \<Rightarrow> string + column"
  ar_data :: "column \<Rightarrow> array_data"
  ar_buffer_memory :: "column \<Rightarrow> nat"
  ar_slice_memory :: "column \<Rightarrow> string + nat"
  ar_copy :: "column \<Rightarrow> column"
  ar_record_batch :: "u64 list \<Rightarrow> arr \<Rightarrow> column list \<Rightarrow> string + unit"

definition usize_saturate :: "nat \<Rightarrow> nat" where "usize_saturate n = min n usize_max"

definition retain_or_compact_single_run :: "array_lib \<Rightarrow> column \<Rightarrow> engine_error + column" where
  "retain_or_compact_single_run ar a =
     (case ar_slice_memory ar a of
        Inl e \<Rightarrow> Inl (EngArrow (''attribute slice memory: '' @ e))
      | Inr slice_mem \<Rightarrow>
          let allowance = usize_saturate (usize_saturate (max_attribute_retention_factor * slice_mem) +
                                          usize_saturate (64 * buffer_count (ar_data ar a)))
          in if ar_buffer_memory ar a > allowance then Inr (ar_copy ar a) else Inr a)"

definition single_run_retention :: "array_lib \<Rightarrow> bool \<Rightarrow> column \<Rightarrow> engine_error + column" where
  "single_run_retention ar compact a = (if compact then retain_or_compact_single_run ar a else Inr a)"

definition decode_dictionary_chunk_column :: "array_lib \<Rightarrow> column \<Rightarrow> data_type \<Rightarrow> engine_error + column" where
  "decode_dictionary_chunk_column ar col declared =
     (case co_type col of
        DDictionary _ _ \<Rightarrow>
          (case ar_cast ar col declared of Inl e \<Rightarrow> Inl (EngArrow (''dictionary decode: '' @ e)) | Inr c \<Rightarrow> Inr c)
      | _ \<Rightarrow> Inr col)"

section \<open>Batches\<close>

record stream_cfg =
  sc_lib :: arrow_lib
  sc_arrays :: array_lib
  sc_show_ty :: "nesting \<Rightarrow> string"
  sc_show_dt :: "data_type \<Rightarrow> string"
  sc_geometry_column :: string
  sc_attributes :: "field list"
  sc_encoding :: geometry_encoding
  sc_policy :: batch_size_policy
  sc_report_bounds :: bool
  sc_compact :: bool

record tagged_batch =
  tb_ids :: "u64 list"
  tb_geometry :: arr
  tb_attributes :: "column list"

fun check_attributes :: "(data_type \<Rightarrow> string) \<Rightarrow> nat \<Rightarrow> (field \<times> column) list \<Rightarrow> engine_error + unit" where
  "check_attributes show_dt rows [] = Inr ()"
| "check_attributes show_dt rows ((fd, col) # fcs) =
     (if fd_type fd \<noteq> co_type col then
        Inl (EngEncodingMismatch (''attribute `'' @ fd_name fd @ ''` is '' @ show_dt (fd_type fd)) (show_dt (co_type col)))
      else if length (co_cells col) \<noteq> rows then
        Inl (EngEncodingMismatch (''attribute `'' @ fd_name fd @ ''` has '' @ show_nat rows @ '' row(s)'')
               (show_nat (length (co_cells col)) @ '' row(s)''))
      else check_attributes show_dt rows fcs)"

definition assemble :: "stream_cfg \<Rightarrow> u64 list \<Rightarrow> arr \<Rightarrow> column list \<Rightarrow> engine_error + tagged_batch" where
  "assemble cfg ids geometry attributes =
     bind_ok (validate_encoding (sc_show_ty cfg) geometry (sc_encoding cfg)) (\<lambda>_.
       if length attributes \<noteq> length (sc_attributes cfg) then
         Inl (EngEncodingMismatch (show_nat (length (sc_attributes cfg)) @ '' declared attribute column(s)'')
                (show_nat (length attributes) @ '' array(s)''))
       else
         bind_ok (check_attributes (sc_show_dt cfg) (length ids) (zip (sc_attributes cfg) attributes)) (\<lambda>_.
           case ar_record_batch (sc_arrays cfg) ids geometry attributes of
             Inl e \<Rightarrow> Inl (EngArrow (''record batch: '' @ e))
           | Inr _ \<Rightarrow> Inr \<lparr>tb_ids = ids, tb_geometry = geometry, tb_attributes = attributes\<rparr>))"

record item =
  it_batch :: tagged_batch
  it_est_bytes :: nat
  it_vertices :: nat
  it_batch_index :: nat
  it_target_bytes :: nat
  it_xy_bounds :: "(f64 \<times> f64 \<times> f64 \<times> f64) option"
  it_cut_by :: batch_cut

section \<open>The open batch\<close>

datatype geometry_builder =
    GbPolygon polygon_builder
  | GbMultiPolygon multipolygon_builder
  | GbPoint point_builder
  | GbLineString linestring_builder
  | GbMultiLineString multilinestring_builder

definition gb_new :: "geometry_encoding \<Rightarrow> geometry_builder" where
  "gb_new e =
     (case e of
        GePolygon \<Rightarrow> GbPolygon polygon_builder_new
      | GeMultiPolygon \<Rightarrow> GbMultiPolygon multipolygon_builder_new
      | GePoint \<Rightarrow> GbPoint point_builder_new
      | GeLineString \<Rightarrow> GbLineString linestring_builder_new
      | GeMultiLineString \<Rightarrow> GbMultiLineString multilinestring_builder_new)"

definition gb_vertices :: "geometry_builder \<Rightarrow> nat" where
  "gb_vertices g =
     (case g of
        GbPolygon b \<Rightarrow> pb_vertices b
      | GbMultiPolygon b \<Rightarrow> mp_vertices b
      | GbPoint b \<Rightarrow> pt_vertices b
      | GbLineString b \<Rightarrow> ls_vertices b
      | GbMultiLineString b \<Rightarrow> ml_vertices b)"

definition gb_push_wkb :: "geometry_builder \<Rightarrow> byte list \<Rightarrow> (wkb_error + unit) \<times> geometry_builder" where
  "gb_push_wkb g wkb =
     (case g of
        GbPolygon b \<Rightarrow> map_prod id GbPolygon (polygon_push_wkb b wkb)
      | GbMultiPolygon b \<Rightarrow> map_prod id GbMultiPolygon (multipolygon_push_wkb b wkb)
      | GbPoint b \<Rightarrow> map_prod id GbPoint (point_push_wkb b wkb)
      | GbLineString b \<Rightarrow> map_prod id GbLineString (linestring_push_wkb b wkb)
      | GbMultiLineString b \<Rightarrow> map_prod id GbMultiLineString (multilinestring_push_wkb b wkb))"

definition gb_finish :: "arrow_lib \<Rightarrow> geometry_builder \<Rightarrow> engine_error + arr" where
  "gb_finish lib g =
     (case g of
        GbPolygon b \<Rightarrow> build_polygon_array lib b
      | GbMultiPolygon b \<Rightarrow> build_multipolygon_array lib b
      | GbPoint b \<Rightarrow> build_point_array lib b
      | GbLineString b \<Rightarrow> build_linestring_array lib b
      | GbMultiLineString b \<Rightarrow> build_multilinestring_array lib b)"

record pending =
  pd_ids :: "u64 list"
  pd_builder :: geometry_builder
  pd_vertices :: nat
  pd_est_bytes :: nat
  pd_first_id :: "u64 option"
  pd_attrs :: "column list list"
  pd_attr_bytes :: nat

definition pending_new :: "nat \<Rightarrow> geometry_encoding \<Rightarrow> pending" where
  "pending_new attribute_columns e =
     \<lparr>pd_ids = [], pd_builder = gb_new e, pd_vertices = 0, pd_est_bytes = 0, pd_first_id = None,
      pd_attrs = replicate attribute_columns [], pd_attr_bytes = 0\<rparr>"

text \<open>\<open>zip\<close> stops at the shorter side; the runs beyond it stay as they are.\<close>

fun extend_runs :: "column list list \<Rightarrow> column list \<Rightarrow> nat \<Rightarrow> nat \<Rightarrow> column list list" where
  "extend_runs (rs # rss) (col # cols) start stop =
     (rs @ [co_slice col start (stop - start)]) # extend_runs rss cols start stop"
| "extend_runs others _ start stop = others"

definition push_attr_run :: "pending \<Rightarrow> column list \<Rightarrow> nat \<Rightarrow> nat \<Rightarrow> pending" where
  "push_attr_run p chunk_attrs start stop =
     (if stop \<le> start then p else p\<lparr>pd_attrs := extend_runs (pd_attrs p) chunk_attrs start stop\<rparr>)"

definition cut_reason :: "nat \<Rightarrow> nat \<Rightarrow> nat \<Rightarrow> nat \<Rightarrow> bool \<Rightarrow> batch_cut option" where
  "cut_reason est_bytes rows target max_rows budget_reached =
     (if est_bytes \<ge> target then Some SizeTarget
      else if rows \<ge> max_rows then Some RowCeiling
      else if budget_reached then Some TimeBudget
      else None)"

section \<open>The producer\<close>

datatype stream_error = StEngine engine_error | StWkb wkb_error

definition st_err :: "engine_error + 'a \<Rightarrow> stream_error + 'a" where
  "st_err r = (case r of Inl e \<Rightarrow> Inl (StEngine e) | Inr x \<Rightarrow> Inr x)"

record world =
  wd_cancelled :: polls
  wd_now :: "nat \<Rightarrow> nanos"
  wd_sends :: "nat \<Rightarrow> bool"

record producer =
  pr_pending :: pending
  pr_emitted :: nat
  pr_run_start :: nat
  pr_first_row_at :: "nanos option"
  pr_stride :: nat
  pr_polls :: nat
  pr_reads :: nat
  pr_items :: "item list"
  pr_batches_generated :: nat
  pr_batches_after_cancel :: nat
  pr_rows_generated :: nat

definition note_poll :: "producer \<Rightarrow> producer" where
  "note_poll p = p\<lparr>pr_polls := pr_polls p + 1\<rparr>"

type_synonym run_result = "(stream_error + unit) \<times> producer"

definition then_ok :: "run_result \<Rightarrow> (producer \<Rightarrow> run_result) \<Rightarrow> run_result" where
  "then_ok r k = (case r of (Inl e, p) \<Rightarrow> (Inl e, p) | (Inr _, p) \<Rightarrow> k p)"

definition finish_attributes :: "stream_cfg \<Rightarrow> column list list \<Rightarrow> engine_error + column list" where
  "finish_attributes cfg attrs =
     collect_ok (map (\<lambda>rs.
       case rs of
         [a] \<Rightarrow> single_run_retention (sc_arrays cfg) (sc_compact cfg) a
       | _ \<Rightarrow> (case ar_concat (sc_arrays cfg) rs of
                 Inl e \<Rightarrow> Inl (EngArrow (''attribute concat: '' @ e))
               | Inr c \<Rightarrow> Inr c)) attrs)"

definition build_batch :: "stream_cfg \<Rightarrow> pending \<Rightarrow> engine_error + tagged_batch" where
  "build_batch cfg q =
     (if pd_est_bytes q > max_batch_bytes then
        (case (pd_ids q, pd_first_id q) of
           ([_], Some i) \<Rightarrow> Inl (EngFeatureTooLarge (unat i) max_batch_bytes (pd_est_bytes q))
         | _ \<Rightarrow> Inl (EngCeilingExceeded ''MAX_BATCH_BYTES'' max_batch_bytes (pd_est_bytes q)))
      else
        bind_ok (gb_finish (sc_lib cfg) (pd_builder q)) (\<lambda>geometry.
        bind_ok (finish_attributes cfg (pd_attrs q)) (assemble cfg (pd_ids q) geometry)))"

definition flush :: "stream_cfg \<Rightarrow> world \<Rightarrow> nat \<Rightarrow> batch_cut \<Rightarrow> producer \<Rightarrow> run_result" where
  "flush cfg w target c p =
     (let q = pr_pending p; p = p\<lparr>pr_pending := pending_new (length (pd_attrs q)) (sc_encoding cfg)\<rparr>
      in case build_batch cfg q of
           Inl e \<Rightarrow> (Inl (StEngine e), p)
         | Inr batch \<Rightarrow>
             let p = p\<lparr>pr_batches_generated := pr_batches_generated p + 1,
                       pr_rows_generated := pr_rows_generated p + length (pd_ids q)\<rparr>
             in if wd_cancelled w (pr_polls p) then
                  (Inl (StEngine EngCancelled), (note_poll p)\<lparr>pr_batches_after_cancel := pr_batches_after_cancel p + 1\<rparr>)
                else if wd_sends w (length (pr_items p)) then
                  (Inr (), (note_poll p)\<lparr>pr_items := pr_items p @
                     [\<lparr>it_batch = batch, it_est_bytes = pd_est_bytes q, it_vertices = pd_vertices q,
                       it_batch_index = pr_emitted p, it_target_bytes = target,
                       it_xy_bounds = (if sc_report_bounds cfg then xy_bounds (tb_geometry batch) else None),
                       it_cut_by = c\<rparr>]\<rparr>)
                else (Inl (StEngine EngCancelled), note_poll p))"

text \<open>A flush inside the loop: the batch number and the stride of the time budget move on.\<close>

definition flush_next :: "stream_cfg \<Rightarrow> world \<Rightarrow> nat \<Rightarrow> batch_cut \<Rightarrow> producer \<Rightarrow> run_result" where
  "flush_next cfg w target c p =
     then_ok (flush cfg w target c p) (\<lambda>p. (Inr (), p\<lparr>pr_emitted := pr_emitted p + 1, pr_stride := 0\<rparr>))"

text \<open>\<open>push_attr_run\<close> up to \<open>row\<close>, then \<open>run_start = row\<close>.\<close>

definition close_run :: "column list \<Rightarrow> nat \<Rightarrow> producer \<Rightarrow> producer" where
  "close_run attrs row p =
     p\<lparr>pr_pending := push_attr_run (pr_pending p) attrs (pr_run_start p) row, pr_run_start := row\<rparr>"

definition budgeted :: "stream_cfg \<Rightarrow> bool" where
  "budgeted cfg \<longleftrightarrow> bp_cut (sc_policy cfg) = TimeBudgetedFirstBatch"

definition budget_expired :: "world \<Rightarrow> producer \<Rightarrow> bool \<times> producer" where
  "budget_expired w p =
     (case pr_first_row_at p of
        None \<Rightarrow> (False, p)
      | Some t \<Rightarrow> (wd_now w (pr_reads p) - t \<ge> first_batch_time_budget, p\<lparr>pr_reads := pr_reads p + 1\<rparr>))"

definition budget_check :: "stream_cfg \<Rightarrow> world \<Rightarrow> producer \<Rightarrow> bool \<times> producer" where
  "budget_check cfg w p =
     (if budgeted cfg \<and> pr_emitted p = 0 then
        if pr_stride p + 1 \<ge> budget_check_row_stride then budget_expired w (p\<lparr>pr_stride := 0\<rparr>)
        else (False, p\<lparr>pr_stride := pr_stride p + 1\<rparr>)
      else (False, p))"

definition push_row :: "u64 \<Rightarrow> nat \<Rightarrow> geometry_builder \<Rightarrow> pending \<Rightarrow> pending" where
  "push_row i bytes b q =
     q\<lparr>pd_builder := b,
       pd_vertices := pd_vertices q + (gb_vertices b - gb_vertices (pd_builder q)),
       pd_ids := pd_ids q @ [i],
       pd_attr_bytes := pd_attr_bytes q + bytes,
       pd_est_bytes := estimate_bytes (length (pd_ids q) + 1) (gb_vertices b) + (pd_attr_bytes q + bytes),
       pd_first_id := (case pd_first_id q of None \<Rightarrow> Some i | Some j \<Rightarrow> Some j)\<rparr>"

text \<open>The second half of a row's turn: decode it into the open batch, then cut.\<close>

definition place_row :: "stream_cfg \<Rightarrow> world \<Rightarrow> column list \<Rightarrow> nat \<Rightarrow> nat \<times> u64 \<Rightarrow> byte list \<Rightarrow> producer \<Rightarrow> run_result" where
  "place_row cfg w attrs target row_id wkb p =
     (case row_id of (row, i) \<Rightarrow>
      case gb_push_wkb (pd_builder (pr_pending p)) wkb of
        (Inl e, b) \<Rightarrow> (Inl (StWkb e), p\<lparr>pr_pending := (pr_pending p)\<lparr>pd_builder := b\<rparr>\<rparr>)
      | (Inr _, b) \<Rightarrow>
          (case budget_check cfg w (p\<lparr>pr_pending := push_row i (attr_row_bytes attrs row) b (pr_pending p)\<rparr>) of
             (budget_reached, p) \<Rightarrow>
               (case cut_reason (pd_est_bytes (pr_pending p)) (length (pd_ids (pr_pending p))) target
                       (bp_max_rows (sc_policy cfg)) budget_reached of
                  None \<Rightarrow> (Inr (), p)
                | Some c \<Rightarrow> flush_next cfg w target c (close_run attrs (row + 1) p))))"

definition row_step :: "stream_cfg \<Rightarrow> world \<Rightarrow> column list \<Rightarrow> column \<Rightarrow> nat \<times> u64 \<Rightarrow> producer \<Rightarrow> run_result" where
  "row_step cfg w attrs geoms row_id p =
     (if wd_cancelled w (pr_polls p) then (Inl (StEngine EngCancelled), note_poll p)
      else case binary_value (sc_show_dt cfg) geoms (fst row_id) of
        Inl e \<Rightarrow> (Inl (StEngine e), note_poll p)
      | Inr wkb \<Rightarrow>
          let p = note_poll p;
              incoming = estimate_bytes 1 (length wkb div 16) + attr_row_bytes attrs (fst row_id);
              target = target_for (sc_policy cfg) (pr_emitted p)
          in then_ok
               (if pd_ids (pr_pending p) \<noteq> [] \<and> pd_est_bytes (pr_pending p) + incoming > target
                then flush_next cfg w target SizeTarget (close_run attrs (fst row_id) p) else (Inr (), p))
               (place_row cfg w attrs target row_id wkb))"

fun row_loop :: "stream_cfg \<Rightarrow> world \<Rightarrow> column list \<Rightarrow> column \<Rightarrow> (nat \<times> u64) list \<Rightarrow> producer \<Rightarrow> run_result" where
  "row_loop cfg w attrs geoms [] p = (Inr (), p)"
| "row_loop cfg w attrs geoms (r # rs) p = then_ok (row_step cfg w attrs geoms r p) (row_loop cfg w attrs geoms rs)"

definition chunk_attribute :: "stream_cfg \<Rightarrow> result_chunk \<Rightarrow> field \<Rightarrow> engine_error + column" where
  "chunk_attribute cfg ch fd =
     (case rc_column ch (fd_name fd) of
        None \<Rightarrow> Inl (EngQuery (''result has no `'' @ fd_name fd @ ''` column''))
      | Some raw \<Rightarrow>
          bind_ok (decode_dictionary_chunk_column (sc_arrays cfg) raw (fd_type fd)) (\<lambda>col.
            if co_type col \<noteq> fd_type fd then
              Inl (EngEncodingMismatch (''attribute `'' @ fd_name fd @ ''` is '' @ sc_show_dt cfg (fd_type fd))
                     (sc_show_dt cfg (co_type col)))
            else Inr col))"

text \<open>The columns of a chunk: identifiers, geometries, attributes, in the order they are asked for.\<close>

definition chunk_columns :: "stream_cfg \<Rightarrow> result_chunk \<Rightarrow> engine_error + u64 list \<times> column \<times> column list" where
  "chunk_columns cfg ch =
     bind_ok (column_u64 (sc_show_dt cfg) ch id_column) (\<lambda>ids.
       case rc_column ch (sc_geometry_column cfg) of
         None \<Rightarrow> Inl (EngQuery (''result has no `'' @ sc_geometry_column cfg @ ''` column''))
       | Some geoms \<Rightarrow>
           bind_ok (collect_ok (map (chunk_attribute cfg ch) (sc_attributes cfg))) (\<lambda>attrs. Inr (ids, geoms, attrs)))"

definition chunk_rows :: "result_chunk \<Rightarrow> u64 list \<Rightarrow> (nat \<times> u64) list" where
  "chunk_rows ch ids = take (rc_rows ch) (zip [0..<length ids] ids)"

definition chunk_end :: "stream_cfg \<Rightarrow> world \<Rightarrow> producer \<Rightarrow> run_result" where
  "chunk_end cfg w p =
     (if budgeted cfg \<and> pr_emitted p = 0 \<and> pd_ids (pr_pending p) \<noteq> [] then
        (case budget_expired w p of
           (True, p) \<Rightarrow> flush_next cfg w (target_for (sc_policy cfg) (pr_emitted p)) TimeBudget p
         | (False, p) \<Rightarrow> (Inr (), p))
      else (Inr (), p))"

definition chunk_step :: "stream_cfg \<Rightarrow> world \<Rightarrow> result_chunk \<Rightarrow> producer \<Rightarrow> run_result" where
  "chunk_step cfg w ch p =
     (let p = (if pr_first_row_at p = None \<and> rc_rows ch > 0
               then p\<lparr>pr_first_row_at := Some (wd_now w (pr_reads p)), pr_reads := pr_reads p + 1\<rparr> else p)
      in case chunk_columns cfg ch of
           Inl e \<Rightarrow> (Inl (StEngine e), p)
         | Inr (ids, geoms, attrs) \<Rightarrow>
             then_ok (row_loop cfg w attrs geoms (chunk_rows ch ids) (p\<lparr>pr_run_start := 0\<rparr>)) (\<lambda>p.
               chunk_end cfg w (close_run attrs (rc_rows ch) p)))"

datatype fetch = Fetched result_chunk | FetchPanicked string

fun produce_loop :: "stream_cfg \<Rightarrow> world \<Rightarrow> fetch list \<Rightarrow> producer \<Rightarrow> run_result" where
  "produce_loop cfg w [] p =
     (if wd_cancelled w (pr_polls p) then (Inl (StEngine EngCancelled), note_poll p)
      else if pd_ids (pr_pending p) \<noteq> [] then
        flush cfg w (target_for (sc_policy cfg) (pr_emitted p)) StreamEnd (note_poll p)
      else (Inr (), note_poll p))"
| "produce_loop cfg w (f # fs) p =
     (if wd_cancelled w (pr_polls p) then (Inl (StEngine EngCancelled), note_poll p)
      else case f of
             FetchPanicked detail \<Rightarrow>
               (Inl (StEngine (classify_fetch_panic (wd_cancelled w (pr_polls p + 1)) detail)), note_poll (note_poll p))
           | Fetched ch \<Rightarrow> then_ok (chunk_step cfg w ch (note_poll p)) (produce_loop cfg w fs))"

definition producer_new :: "stream_cfg \<Rightarrow> producer" where
  "producer_new cfg =
     \<lparr>pr_pending = pending_new (length (sc_attributes cfg)) (sc_encoding cfg), pr_emitted = 0, pr_run_start = 0,
      pr_first_row_at = None, pr_stride = 0, pr_polls = 0, pr_reads = 0, pr_items = [],
      pr_batches_generated = 0, pr_batches_after_cancel = 0, pr_rows_generated = 0\<rparr>"

text \<open>\<open>prepared\<close> is the error of \<open>prepare\<close>, if any; \<open>executed\<close> what \<open>stream_arrow\<close> answers, at a poll number.\<close>

definition produce :: "stream_cfg \<Rightarrow> world \<Rightarrow> string option \<Rightarrow> string + fetch list \<Rightarrow> run_result" where
  "produce cfg w prepared executed =
     (let p = producer_new cfg in
      if wd_cancelled w 0 then (Inl (StEngine EngCancelled), note_poll p)
      else case prepared of
        Some e \<Rightarrow> (Inl (StEngine (classify_query (wd_cancelled w 1) ''prepare'' e)), p\<lparr>pr_polls := 2\<rparr>)
      | None \<Rightarrow>
          (case execute_guarded (wd_cancelled w) 1 (\<lambda>k. (executed, k)) of
             (GCancelled, k) \<Rightarrow> (Inl (StEngine EngCancelled), p\<lparr>pr_polls := k\<rparr>)
           | (GErr e, k) \<Rightarrow> (Inl (StEngine (classify_query (wd_cancelled w k) ''execute'' e)), p\<lparr>pr_polls := k + 1\<rparr>)
           | (GOk fetches, k) \<Rightarrow> produce_loop cfg w fetches (p\<lparr>pr_polls := k\<rparr>)))"

section \<open>The end of the producer thread\<close>

text \<open>What the thread leaves behind: whether the lease was released as healthy, the error it sent last, if any, and
  the detail recorded for the publisher.\<close>

record thread_end =
  te_released_healthy :: bool
  te_last :: "stream_error option"
  te_source_changed :: "string option"

definition post_check_source :: "string + 'd \<Rightarrow> ('d \<Rightarrow> engine_error + unit) \<Rightarrow> engine_error + unit" where
  "post_check_source now refuse_if_changed =
     (case now of
        Inr d \<Rightarrow> refuse_if_changed d
      | Inl e \<Rightarrow> Inl (EngSourceChanged (''{the source could not be re-read: '' @ e @ ''}'')))"

definition end_thread :: "stream_error + unit \<Rightarrow> engine_error + unit \<Rightarrow> thread_end" where
  "end_thread res post =
     \<lparr>te_released_healthy = (case res of Inr _ \<Rightarrow> True | Inl _ \<Rightarrow> False),
      te_last =
        (case res of
           Inl e \<Rightarrow> Some e
         | Inr _ \<Rightarrow> (case post of Inl e \<Rightarrow> Some (StEngine e) | Inr _ \<Rightarrow> None)),
      te_source_changed = (case post of Inl (EngSourceChanged detail) \<Rightarrow> Some detail | _ \<Rightarrow> None)\<rparr>"

section \<open>Counters\<close>

text \<open>The counters the producer and the consumer share; \<open>resident_bytes\<close> is a \<open>usize\<close> and wraps.\<close>

record stream_stats =
  ss_resident_bytes :: u64
  ss_peak_resident_bytes :: u64
  ss_source_changed_detail :: "string option"
  ss_post_check_bytes_read :: u64

definition add_resident :: "u64 \<Rightarrow> stream_stats \<Rightarrow> stream_stats" where
  "add_resident n s =
     s\<lparr>ss_resident_bytes := ss_resident_bytes s + n,
       ss_peak_resident_bytes := max (ss_peak_resident_bytes s) (ss_resident_bytes s + n)\<rparr>"

definition sub_resident :: "u64 \<Rightarrow> stream_stats \<Rightarrow> stream_stats" where
  "sub_resident n s = s\<lparr>ss_resident_bytes := ss_resident_bytes s - n\<rparr>"

definition record_source_changed :: "string \<Rightarrow> stream_stats \<Rightarrow> stream_stats" where
  "record_source_changed detail s = s\<lparr>ss_source_changed_detail := Some detail\<rparr>"

definition record_post_check_bytes :: "u64 \<Rightarrow> stream_stats \<Rightarrow> stream_stats" where
  "record_post_check_bytes bytes s = s\<lparr>ss_post_check_bytes_read := bytes\<rparr>"

lemma sub_add_resident: "ss_resident_bytes (sub_resident n (add_resident n s)) = ss_resident_bytes s"
  by (simp add: sub_resident_def add_resident_def)

section \<open>The consumer\<close>

datatype received = RItem item | RError stream_error | RDisconnected | RTimeout

record batch_info =
  bi_rows :: nat
  bi_vertices :: nat
  bi_payload_bytes :: nat
  bi_batch_index :: nat
  bi_target_bytes :: nat
  bi_xy_bounds :: "(f64 \<times> f64 \<times> f64 \<times> f64) option"
  bi_cut_by :: batch_cut

record batch_stream =
  bs_finished :: bool
  bs_resident :: int

datatype batch_poll = Ready "stream_error + batch_info" | Ended | WouldBlock

text \<open>
  The resident count is an \<open>int\<close> here, so that it can be followed below zero; the counter itself is a \<open>usize\<close>
  that wraps, as \<open>stream_stats\<close> has it. \<open>ipc\<close> is \<open>write_ipc_into\<close>: the bytes it appends, or its
  error after some bytes.
\<close>

definition absorb ::
    "(tagged_batch \<Rightarrow> engine_error option \<times> byte list) \<Rightarrow> batch_stream \<Rightarrow> item \<Rightarrow> byte list
       \<Rightarrow> (stream_error + batch_info) \<times> batch_stream \<times> byte list" where
  "absorb ipc s it out =
     (let s = s\<lparr>bs_resident := bs_resident s - int (it_est_bytes it)\<rparr>; (err, bytes) = ipc (it_batch it)
      in case err of
           Some e \<Rightarrow> (Inl (StEngine e), s\<lparr>bs_finished := True\<rparr>, out @ bytes)
         | None \<Rightarrow>
             (Inr \<lparr>bi_rows = length (tb_ids (it_batch it)), bi_vertices = it_vertices it, bi_payload_bytes = length bytes,
                   bi_batch_index = it_batch_index it, bi_target_bytes = it_target_bytes it,
                   bi_xy_bounds = it_xy_bounds it, bi_cut_by = it_cut_by it\<rparr>, s, out @ bytes))"

definition next_into_timeout ::
    "(tagged_batch \<Rightarrow> engine_error option \<times> byte list) \<Rightarrow> batch_stream \<Rightarrow> received \<Rightarrow> byte list
       \<Rightarrow> batch_poll \<times> batch_stream \<times> byte list" where
  "next_into_timeout ipc s r out =
     (if bs_finished s then (Ended, s, out)
      else case r of
             RItem it \<Rightarrow> (case absorb ipc s it out of (res, s, out) \<Rightarrow> (Ready res, s, out))
           | RError e \<Rightarrow> (Ready (Inl e), s\<lparr>bs_finished := True\<rparr>, out)
           | RTimeout \<Rightarrow> (WouldBlock, s, out)
           | RDisconnected \<Rightarrow> (Ended, s\<lparr>bs_finished := True\<rparr>, out))"

definition next_into ::
    "(tagged_batch \<Rightarrow> engine_error option \<times> byte list) \<Rightarrow> batch_stream \<Rightarrow> received \<Rightarrow> byte list
       \<Rightarrow> (stream_error + batch_info) option \<times> batch_stream \<times> byte list" where
  "next_into ipc s r out =
     (if bs_finished s then (None, s, out)
      else case r of
             RItem it \<Rightarrow> (case absorb ipc s it out of (res, s, out) \<Rightarrow> (Some res, s, out))
           | RError e \<Rightarrow> (Some (Inl e), s\<lparr>bs_finished := True\<rparr>, out)
           | _ \<Rightarrow> (None, s\<lparr>bs_finished := True\<rparr>, out))"

end
