(* ===== verification/Stream_Cost.thy ===== *)
theory Stream_Cost
  imports Stream
begin

text \<open>
  The cost of a row: decoding WKB never yields more positions than the row has bytes for, at sixteen bytes each, in any of
  the five builders. So the estimate the producer makes before it decodes a row bounds the one it makes after.
\<close>

section \<open>Positions cost sixteen bytes\<close>

definition paid :: "reader \<Rightarrow> f64 list \<Rightarrow> reader \<Rightarrow> f64 list \<Rightarrow> bool" where
  "paid r cs r' cs' \<longleftrightarrow>
     (\<exists>m. length cs' = length cs + 2 * m \<and> 16 * m + length (rest r') \<le> length (rest r))"

lemma paid_read: "length (rest r') \<le> length (rest r) \<Longrightarrow> paid r cs r' cs"
  by (auto simp: paid_def)

lemma paid_trans: "paid r cs r1 cs1 \<Longrightarrow> paid r1 cs1 r2 cs2 \<Longrightarrow> paid r cs r2 cs2"
proof -
  assume "paid r cs r1 cs1" "paid r1 cs1 r2 cs2"
  then obtain m k where "length cs1 = length cs + 2 * m" "16 * m + length (rest r1) \<le> length (rest r)"
    "length cs2 = length cs1 + 2 * k" "16 * k + length (rest r2) \<le> length (rest r1)"
    unfolding paid_def by blast
  then show ?thesis unfolding paid_def by (intro exI [of _ "m + k"]) auto
qed

lemma paid_part:
  "length (rest r1) \<le> length (rest r) \<Longrightarrow> length (rest r2) \<le> length (rest r1) \<Longrightarrow>
     paid r2 cs r3 cs1 \<Longrightarrow> paid r3 cs1 r4 cs2 \<Longrightarrow> paid r cs r4 cs2"
  by (meson paid_trans paid_read order_trans)

lemma rd_f64_left: "rd_f64 r = Inr (x, r') \<Longrightarrow> length (rest r) = length (rest r') + 8"
  by (auto simp: rd_f64_iff)

lemma rd_u32_left: "rd_u32 r = Inr (w, r') \<Longrightarrow> length (rest r') \<le> length (rest r)"
  by (auto simp: rd_u32_iff)

lemma rd_byte_order_left: "rd_byte_order r = Inr r' \<Longrightarrow> length (rest r') \<le> length (rest r)"
  by (auto simp: rd_byte_order_def rd_take_iff split: sum.splits if_splits)

lemma reader_new_left: "reader_new b = Inr r \<Longrightarrow> length (rest r) \<le> length b"
  by (auto simp: reader_new_iff rest_def)

lemma read_points_paid: "read_points n r cs = (Inr r', cs') \<Longrightarrow> paid r cs r' cs'"
  unfolding read_points_iff paid_def by auto

lemma read_ring_paid: "read_ring r k cs offs = (Inr r', cs', offs') \<Longrightarrow> paid r cs r' cs'"
  by (auto simp: read_ring_def Let_def split: sum.splits if_splits prod.splits
      dest!: read_points_paid rd_u32_left intro: paid_trans [OF paid_read])

lemma read_rings_paid: "read_rings k n r cs offs = (Inr r', cs', offs') \<Longrightarrow> paid r cs r' cs'"
  by (induction n arbitrary: k r cs offs)
     (auto simp: paid_read split: sum.splits prod.splits dest!: read_ring_paid intro: paid_trans)

lemma read_line_paid: "read_line r what cs = (Inr r', cs') \<Longrightarrow> paid r cs r' cs'"
  by (auto simp: read_line_def split: sum.splits if_splits
      dest!: read_points_paid rd_u32_left intro: paid_trans [OF paid_read])

lemma mp_push_part_paid: "mp_push_part b r k = (Inr r', b') \<Longrightarrow> paid r (mp_coords b) r' (mp_coords b')"
  by (auto simp: mp_push_part_def Let_def split: sum.splits if_splits prod.splits
      dest!: read_rings_paid rd_u32_left intro: paid_trans [OF paid_read])

lemma mp_push_parts_paid: "mp_push_parts k n b r = (Inr r', b') \<Longrightarrow> paid r (mp_coords b) r' (mp_coords b')"
  by (induction n arbitrary: k b r)
     (auto simp: paid_read split: sum.splits if_splits prod.splits
       dest!: mp_push_part_paid rd_u32_left rd_byte_order_left intro: paid_part)

lemma ml_push_part_paid: "ml_push_part b r what = (Inr r', b') \<Longrightarrow> paid r (ml_coords b) r' (ml_coords b')"
  by (auto simp: ml_push_part_def split: sum.splits prod.splits dest!: read_line_paid)

lemma ml_push_parts_paid: "ml_push_parts k n b r = (Inr r', b') \<Longrightarrow> paid r (ml_coords b) r' (ml_coords b')"
  by (induction n arbitrary: k b r)
     (auto simp: paid_read split: sum.splits if_splits prod.splits
       dest!: ml_push_part_paid rd_u32_left rd_byte_order_left intro: paid_part)

definition costs :: "nat \<Rightarrow> f64 list \<Rightarrow> f64 list \<Rightarrow> bool" where
  "costs n cs cs' \<longleftrightarrow> (\<exists>m. length cs' = length cs + 2 * m \<and> 16 * m \<le> n)"

lemma paid_costs: "paid r cs r' cs' \<Longrightarrow> length (rest r) \<le> n \<Longrightarrow> costs n cs cs'"
  unfolding paid_def costs_def by (meson add_leE le_trans)

lemma costs_vertices: "costs n cs cs' \<Longrightarrow> \<exists>m. length cs' div 2 = length cs div 2 + m \<and> 16 * m \<le> n"
  unfolding costs_def by (metis Suc_1 add.commute div_mult_self2 nat.simps(3))

lemma polygon_push_costs: "polygon_push_wkb b bytes = (Inr (), b') \<Longrightarrow> costs (length bytes) (pb_coords b) (pb_coords b')"
  by (auto simp: polygon_push_wkb_def Let_def split: sum.splits if_splits prod.splits
      dest!: read_rings_paid rd_u32_left reader_new_left intro: paid_costs)

lemma multipolygon_push_costs:
  "multipolygon_push_wkb b bytes = (Inr (), b') \<Longrightarrow> costs (length bytes) (mp_coords b) (mp_coords b')"
  by (auto simp: multipolygon_push_wkb_def Let_def split: sum.splits if_splits prod.splits
      dest!: mp_push_part_paid mp_push_parts_paid rd_u32_left reader_new_left intro: paid_costs)

lemma point_push_costs: "point_push_wkb b bytes = (Inr (), b') \<Longrightarrow> costs (length bytes) (pt_coords b) (pt_coords b')"
  by (auto simp: point_push_wkb_def costs_def split: sum.splits if_splits
      dest!: rd_f64_left rd_u32_left reader_new_left)

lemma linestring_push_costs:
  "linestring_push_wkb b bytes = (Inr (), b') \<Longrightarrow> costs (length bytes) (ls_coords b) (ls_coords b')"
  by (auto simp: linestring_push_wkb_def linestring_decode_def Let_def split: sum.splits if_splits prod.splits
      dest!: read_line_paid rd_u32_left reader_new_left intro: paid_costs)

lemma multilinestring_push_costs:
  "multilinestring_push_wkb b bytes = (Inr (), b') \<Longrightarrow> costs (length bytes) (ml_coords b) (ml_coords b')"
  by (auto simp: multilinestring_push_wkb_def multilinestring_decode_def Let_def split: sum.splits if_splits prod.splits
      dest!: ml_push_part_paid ml_push_parts_paid rd_u32_left reader_new_left intro: paid_costs)

lemma gb_push_vertices:
  assumes "gb_push_wkb g wkb = (Inr (), g')"
  shows "gb_vertices g \<le> gb_vertices g' \<and> gb_vertices g' - gb_vertices g \<le> length wkb div 16"
proof -
  have "\<exists>m. gb_vertices g' = gb_vertices g + m \<and> 16 * m \<le> length wkb"
    using assms
    by (cases g) (auto simp: gb_push_wkb_def gb_vertices_def pb_vertices_def mp_vertices_def pt_vertices_def
      ls_vertices_def ml_vertices_def map_prod_def split: prod.splits
      dest!: polygon_push_costs multipolygon_push_costs point_push_costs linestring_push_costs
        multilinestring_push_costs intro: costs_vertices)
  then show ?thesis by (auto simp: less_eq_div_iff_mult_less_eq)
qed

lemma gb_vertices_new [simp]: "gb_vertices (gb_new e) = 0"
  by (cases e) (simp_all add: gb_new_def gb_vertices_def pb_vertices_def mp_vertices_def pt_vertices_def ls_vertices_def
      ml_vertices_def polygon_builder_new_def multipolygon_builder_new_def point_builder_new_def
      linestring_builder_new_def multilinestring_builder_new_def)

lemma close_run_fields [simp]:
  "pr_run_start (close_run cols row p) = row" "pr_items (close_run cols row p) = pr_items p"
  "pr_emitted (close_run cols row p) = pr_emitted p" "pr_polls (close_run cols row p) = pr_polls p"
  by (simp_all add: close_run_def)

end
