(* ===== verification/Stream_Proofs.thy ===== *)
theory Stream_Proofs
  imports Stream_Cost
begin

text \<open>
  What the batches of a stream are. The reference cuts rows into batches as a function of the rows alone. The producer
  refines it under the size-only policy, however DuckDB chunks the rows, whenever the consumer cancels or leaves, and
  whichever step fails: what has been sent is always the beginning of the reference's batches, and all of them when the
  producer returns normally.
\<close>

section \<open>The reference\<close>

text \<open>A row as the file has it: identifier, geometry bytes (or why there are none), one cell per attribute.\<close>

record srow =
  sr_id :: u64
  sr_wkb :: "engine_error + byte list"
  sr_cells :: "acell list"

definition wkb_of :: "srow \<Rightarrow> byte list" where
  "wkb_of r = (case sr_wkb r of Inr b \<Rightarrow> b | Inl _ \<Rightarrow> [])"

definition row_bytes :: "stream_cfg \<Rightarrow> srow \<Rightarrow> nat" where
  "row_bytes cfg r = sum_list (map2 attr_cell_bytes (map fd_type (sc_attributes cfg)) (sr_cells r))"

definition built :: "stream_cfg \<Rightarrow> srow list \<Rightarrow> geometry_builder" where
  "built cfg rs = foldl (\<lambda>b r. snd (gb_push_wkb b (wkb_of r))) (gb_new (sc_encoding cfg)) rs"

definition size_of :: "stream_cfg \<Rightarrow> srow list \<Rightarrow> nat" where
  "size_of cfg rs = estimate_bytes (length rs) (gb_vertices (built cfg rs)) + sum_list (map (row_bytes cfg) rs)"

definition size_before :: "stream_cfg \<Rightarrow> srow \<Rightarrow> nat" where
  "size_before cfg r = estimate_bytes 1 (length (wkb_of r) div 16) + row_bytes cfg r"

type_synonym cut_batch = "srow list \<times> nat \<times> batch_cut"

text \<open>One row: the batches cut so far and the rows of the open one.\<close>

definition cut_place :: "stream_cfg \<Rightarrow> nat \<Rightarrow> srow \<Rightarrow> cut_batch list \<times> srow list \<Rightarrow> cut_batch list \<times> srow list" where
  "cut_place cfg t r st =
     (case st of (bs, acc) \<Rightarrow>
      case cut_reason (size_of cfg (acc @ [r])) (length (acc @ [r])) t (bp_max_rows (sc_policy cfg)) False of
        None \<Rightarrow> (bs, acc @ [r])
      | Some c \<Rightarrow> (bs @ [(acc @ [r], t, c)], []))"

definition cut_before :: "stream_cfg \<Rightarrow> nat \<Rightarrow> srow \<Rightarrow> cut_batch list \<times> srow list \<Rightarrow> cut_batch list \<times> srow list" where
  "cut_before cfg t r st =
     (case st of (bs, acc) \<Rightarrow>
      if acc \<noteq> [] \<and> size_of cfg acc + size_before cfg r > t then (bs @ [(acc, t, SizeTarget)], []) else (bs, acc))"

definition cut_step :: "stream_cfg \<Rightarrow> cut_batch list \<times> srow list \<Rightarrow> srow \<Rightarrow> cut_batch list \<times> srow list" where
  "cut_step cfg st r =
     (let t = target_for (sc_policy cfg) (length (fst st)) in cut_place cfg t r (cut_before cfg t r st))"

definition cut_end :: "stream_cfg \<Rightarrow> cut_batch list \<times> srow list \<Rightarrow> cut_batch list" where
  "cut_end cfg st =
     (case st of (bs, acc) \<Rightarrow>
        if acc = [] then bs else bs @ [(acc, target_for (sc_policy cfg) (length bs), StreamEnd)])"

definition cut_rows :: "stream_cfg \<Rightarrow> srow list \<Rightarrow> cut_batch list" where
  "cut_rows cfg rs = cut_end cfg (foldl (cut_step cfg) ([], []) rs)"

text \<open>The rows of a chunk, of a result.\<close>

definition rows_of :: "stream_cfg \<Rightarrow> column \<Rightarrow> column list \<Rightarrow> (nat \<times> u64) list \<Rightarrow> srow list" where
  "rows_of cfg geoms attrs ris =
     map (\<lambda>(row, i). \<lparr>sr_id = i, sr_wkb = binary_value (sc_show_dt cfg) geoms row,
                     sr_cells = map (\<lambda>col. co_cells col ! row) attrs\<rparr>) ris"

fun fetched_rows :: "stream_cfg \<Rightarrow> fetch list \<Rightarrow> srow list" where
  "fetched_rows cfg [] = []"
| "fetched_rows cfg (FetchPanicked _ # fs) = []"
| "fetched_rows cfg (Fetched ch # fs) =
     (case chunk_columns cfg ch of
        Inl _ \<Rightarrow> []
      | Inr (ids, geoms, attrs) \<Rightarrow> rows_of cfg geoms attrs (chunk_rows ch ids) @ fetched_rows cfg fs)"

section \<open>Batches sent\<close>

definition columns_of :: "stream_cfg \<Rightarrow> srow list \<Rightarrow> column list" where
  "columns_of cfg rs =
     map (\<lambda>k. \<lparr>co_type = fd_type (sc_attributes cfg ! k), co_cells = map (\<lambda>r. sr_cells r ! k) rs\<rparr>)
       [0..<length (sc_attributes cfg)]"

definition is_batch :: "stream_cfg \<Rightarrow> nat \<Rightarrow> cut_batch \<Rightarrow> item \<Rightarrow> bool" where
  "is_batch cfg k b it \<longleftrightarrow>
     (case b of (rs, t, c) \<Rightarrow>
        tb_ids (it_batch it) = map sr_id rs \<and>
        gb_finish (sc_lib cfg) (built cfg rs) = Inr (tb_geometry (it_batch it)) \<and>
        tb_attributes (it_batch it) = columns_of cfg rs \<and>
        it_est_bytes it = size_of cfg rs \<and> size_of cfg rs \<le> max_batch_bytes \<and>
        it_vertices it = gb_vertices (built cfg rs) \<and>
        it_batch_index it = k \<and> it_target_bytes it = t \<and> it_cut_by it = c)"

definition sent_as :: "stream_cfg \<Rightarrow> cut_batch list \<Rightarrow> item list \<Rightarrow> bool" where
  "sent_as cfg bs its \<longleftrightarrow> length its = length bs \<and> (\<forall>k<length bs. is_batch cfg k (bs ! k) (its ! k))"

definition sent_start :: "stream_cfg \<Rightarrow> cut_batch list \<Rightarrow> item list \<Rightarrow> bool" where
  "sent_start cfg bs its \<longleftrightarrow> length its \<le> length bs \<and> sent_as cfg (take (length its) bs) its"

lemma sent_as_Nil [simp]: "sent_as cfg [] []"
  by (simp add: sent_as_def)

lemma sent_as_snoc: "sent_as cfg bs its \<Longrightarrow> is_batch cfg (length bs) b it \<Longrightarrow> sent_as cfg (bs @ [b]) (its @ [it])"
  by (auto simp: sent_as_def nth_append less_Suc_eq)

lemma sent_start_append: "sent_as cfg bs its \<Longrightarrow> sent_start cfg (bs @ later) its"
  by (simp add: sent_start_def sent_as_def nth_append)

lemma sent_start_prefix: "sent_start cfg bs its \<Longrightarrow> sent_start cfg (bs @ later) its"
  by (auto simp: sent_start_def)

lemma cut_place_extends: "\<exists>later. fst (cut_place cfg t r st) = fst st @ later"
  by (cases st) (auto simp: cut_place_def split: option.splits)

lemma cut_before_extends: "\<exists>later. fst (cut_before cfg t r st) = fst st @ later"
  by (cases st) (auto simp: cut_before_def)

lemma cut_step_extends: "\<exists>later. fst (cut_step cfg st r) = fst st @ later"
  unfolding cut_step_def Let_def by (metis append_assoc cut_before_extends cut_place_extends)

lemma cut_steps_extend: "\<exists>later. fst (foldl (cut_step cfg) st rs) = fst st @ later"
proof (induction rs arbitrary: st)
  case (Cons r rs)
  obtain m1 where "fst (cut_step cfg st r) = fst st @ m1"
    using cut_step_extends by blast
  moreover obtain m2 where "fst (foldl (cut_step cfg) (cut_step cfg st r) rs) = fst (cut_step cfg st r) @ m2"
    using Cons.IH by blast
  ultimately show ?case by simp
qed simp

lemma cut_end_extends: "\<exists>later. cut_end cfg st = fst st @ later"
  by (cases st) (simp add: cut_end_def)

section \<open>What is relied on\<close>

text \<open>Arrow keeps the cells it concatenates, copies and casts; the columns of a chunk have one cell per row.\<close>

definition arrays_ok :: "array_lib \<Rightarrow> bool" where
  "arrays_ok ar \<longleftrightarrow>
     (\<forall>rs dt c. rs \<noteq> [] \<and> (\<forall>r\<in>set rs. co_type r = dt) \<and> ar_concat ar rs = Inr c \<longrightarrow>
        c = \<lparr>co_type = dt, co_cells = concat (map co_cells rs)\<rparr>) \<and>
     (\<forall>c. ar_copy ar c = c) \<and>
     (\<forall>c dt c'. ar_cast ar c dt = Inr c' \<longrightarrow> length (co_cells c') = length (co_cells c))"

definition chunk_ok :: "result_chunk \<Rightarrow> bool" where
  "chunk_ok ch \<longleftrightarrow> (\<forall>name col. rc_column ch name = Some col \<longrightarrow> length (co_cells col) = rc_rows ch)"

definition fetch_ok :: "fetch \<Rightarrow> bool" where
  "fetch_ok f = (case f of Fetched ch \<Rightarrow> chunk_ok ch | FetchPanicked _ \<Rightarrow> True)"

section \<open>The simulation\<close>

text \<open>The cells of the open batch in attribute \<open>k\<close>: the runs taken, then the rows since \<open>run_start\<close> of the current chunk.\<close>

definition open_cells :: "column list \<Rightarrow> nat \<Rightarrow> producer \<Rightarrow> nat \<Rightarrow> acell list" where
  "open_cells cols row p k =
     concat (map co_cells (pd_attrs (pr_pending p) ! k)) @
     take (row - pr_run_start p) (drop (pr_run_start p) (co_cells (cols ! k)))"

definition runs_ok :: "stream_cfg \<Rightarrow> column list \<Rightarrow> nat \<Rightarrow> srow list \<Rightarrow> producer \<Rightarrow> bool" where
  "runs_ok cfg cols row acc p \<longleftrightarrow>
     pr_run_start p \<le> row \<and> length (pd_attrs (pr_pending p)) = length (sc_attributes cfg) \<and>
     (\<forall>k<length (sc_attributes cfg).
        (\<forall>c\<in>set (pd_attrs (pr_pending p) ! k). co_type c = fd_type (sc_attributes cfg ! k)) \<and>
        open_cells cols row p k = map (\<lambda>r. sr_cells r ! k) acc)"

definition pend_ok :: "stream_cfg \<Rightarrow> srow list \<Rightarrow> pending \<Rightarrow> bool" where
  "pend_ok cfg acc q \<longleftrightarrow>
     pd_ids q = map sr_id acc \<and> pd_builder q = built cfg acc \<and> pd_vertices q = gb_vertices (built cfg acc) \<and>
     pd_est_bytes q = size_of cfg acc \<and> pd_attr_bytes q = sum_list (map (row_bytes cfg) acc) \<and>
     pd_first_id q = (if acc = [] then None else Some (sr_id (hd acc)))"

definition sim :: "stream_cfg \<Rightarrow> column list \<Rightarrow> nat \<Rightarrow> cut_batch list \<times> srow list \<Rightarrow> producer \<Rightarrow> bool" where
  "sim cfg cols row st p \<longleftrightarrow>
     pend_ok cfg (snd st) (pr_pending p) \<and> runs_ok cfg cols row (snd st) p \<and>
     sent_as cfg (fst st) (pr_items p) \<and> pr_emitted p = length (fst st)"

lemma size_of_Nil [simp]: "size_of cfg [] = 0"
  by (simp add: size_of_def built_def estimate_bytes_def)

lemma built_snoc: "built cfg (acc @ [r]) = snd (gb_push_wkb (built cfg acc) (wkb_of r))"
  by (simp add: built_def)

lemma pend_ok_new: "pend_ok cfg [] (pending_new n (sc_encoding cfg))"
  by (simp add: pend_ok_def pending_new_def built_def)

lemma sim_new: "sim cfg cols 0 ([], []) ((producer_new cfg)\<lparr>pr_polls := k\<rparr>)"
  by (simp add: sim_def producer_new_def pend_ok_new runs_ok_def open_cells_def) (simp add: pending_new_def)

lemma sim_note_poll [simp]: "sim cfg cols row st (note_poll p) = sim cfg cols row st p"
  by (simp add: sim_def note_poll_def runs_ok_def open_cells_def)

text \<open>Between chunks no rows wait in the columns.\<close>

lemma sim_next_chunk:
  "sim cfg cols row st p \<Longrightarrow> pr_run_start p = row \<Longrightarrow> sim cfg cols' 0 st (p\<lparr>pr_run_start := 0\<rparr>)"
  by (simp add: sim_def runs_ok_def open_cells_def)

lemma sim_clock:
  "sim cfg cols row st p \<Longrightarrow> sim cfg cols row st (p\<lparr>pr_first_row_at := t, pr_reads := n\<rparr>)"
  by (simp add: sim_def runs_ok_def open_cells_def)

section \<open>Runs\<close>

definition cols_ok :: "stream_cfg \<Rightarrow> column list \<Rightarrow> bool" where
  "cols_ok cfg cols \<longleftrightarrow> map co_type cols = map fd_type (sc_attributes cfg)"

lemma cols_ok_length: "cols_ok cfg cols \<Longrightarrow> length cols = length (sc_attributes cfg)"
  unfolding cols_ok_def by (metis length_map)

lemma cols_ok_type: "cols_ok cfg cols \<Longrightarrow> k < length (sc_attributes cfg) \<Longrightarrow> co_type (cols ! k) = fd_type (sc_attributes cfg ! k)"
  unfolding cols_ok_def by (metis cols_ok_def cols_ok_length nth_map)

lemma extend_runs_nth:
  "length rss = length cols \<Longrightarrow>
     length (extend_runs rss cols a b) = length rss \<and>
     (\<forall>k<length rss. extend_runs rss cols a b ! k = rss ! k @ [co_slice (cols ! k) a (b - a)])"
  by (induction rss cols a b rule: extend_runs.induct) (auto simp: nth_Cons split: nat.splits)

lemma close_run_pend:
  "pend_ok cfg acc (pr_pending p) \<Longrightarrow> pend_ok cfg acc (pr_pending (close_run cols row p))"
  by (simp add: close_run_def push_attr_run_def pend_ok_def)

lemma close_run_runs:
  assumes c: "cols_ok cfg cols" and r: "runs_ok cfg cols row acc p"
  shows "runs_ok cfg cols row acc (close_run cols row p)"
proof -
  have n: "length (pd_attrs (pr_pending p)) = length cols" "length cols = length (sc_attributes cfg)"
    using cols_ok_length [OF c] r by (simp_all add: runs_ok_def)
  show ?thesis
    using r extend_runs_nth [OF n(1)] n(2) cols_ok_type [OF c]
    by (auto simp: runs_ok_def open_cells_def close_run_def push_attr_run_def co_slice_def)
qed

lemma close_run_sim:
  "cols_ok cfg cols \<Longrightarrow> sim cfg cols row st p \<Longrightarrow> sim cfg cols row st (close_run cols row p)"
  by (simp add: sim_def close_run_runs close_run_pend)

section \<open>Flushing\<close>

lemma bind_ok_Inr [simp]: "bind_ok r k = Inr y \<longleftrightarrow> (\<exists>x. r = Inr x \<and> k x = Inr y)"
  by (cases r) (simp_all add: bind_ok_def)

lemma collect_ok_all2: "collect_ok (map f ys) = Inr xs \<Longrightarrow> list_all2 (\<lambda>y x. f y = Inr x) ys xs"
  by (induction ys arbitrary: xs) auto

lemma finish_attributes_cells:
  assumes ar: "arrays_ok (sc_arrays cfg)" and r: "runs_ok cfg cols row acc p" "pr_run_start p = row" and "acc \<noteq> []"
    and f: "finish_attributes cfg (pd_attrs (pr_pending p)) = Inr cs"
  shows "cs = columns_of cfg acc"
proof (rule nth_equalityI)
  let ?a = "pd_attrs (pr_pending p)"
  let ?g = "\<lambda>rs. case rs of [a] \<Rightarrow> single_run_retention (sc_arrays cfg) (sc_compact cfg) a
       | _ \<Rightarrow> (case ar_concat (sc_arrays cfg) rs of Inl e \<Rightarrow> Inl (EngArrow (''attribute concat: '' @ e)) | Inr c \<Rightarrow> Inr c)"
  have all: "list_all2 (\<lambda>rs c. ?g rs = Inr c) ?a cs"
    using f unfolding finish_attributes_def by (rule collect_ok_all2)
  have n: "length ?a = length (sc_attributes cfg)" using r by (simp add: runs_ok_def)
  show len: "length cs = length (columns_of cfg acc)" using list_all2_lengthD [OF all] n by (simp add: columns_of_def)
  fix k assume k: "k < length cs"
  then have k': "k < length (sc_attributes cfg)" using len by (simp add: columns_of_def)
  have g: "?g (?a ! k) = Inr (cs ! k)" using list_all2_nthD2 [OF all k] .
  have ty: "\<forall>c\<in>set (?a ! k). co_type c = fd_type (sc_attributes cfg ! k)"
    and cells: "concat (map co_cells (?a ! k)) = map (\<lambda>r. sr_cells r ! k) acc"
    using r k' by (simp_all add: runs_ok_def open_cells_def)
  have ne: "?a ! k \<noteq> []" using cells \<open>acc \<noteq> []\<close> by auto
  have "cs ! k = \<lparr>co_type = fd_type (sc_attributes cfg ! k), co_cells = map (\<lambda>r. sr_cells r ! k) acc\<rparr>"
  proof (cases "\<exists>a. ?a ! k = [a]")
    case True
    then obtain a where a: "?a ! k = [a]" by blast
    have "cs ! k = a"
      using g a ar by (auto simp: single_run_retention_def retain_or_compact_single_run_def arrays_ok_def Let_def
          split: if_splits sum.splits)
    then show ?thesis using a ty cells by (cases a) auto
  next
    case False
    then have "ar_concat (sc_arrays cfg) (?a ! k) = Inr (cs ! k)"
      using g ne by (auto split: list.splits sum.splits)
    then show ?thesis using ar ne ty cells unfolding arrays_ok_def by metis
  qed
  then show "cs ! k = columns_of cfg acc ! k" using k' by (simp add: columns_of_def)
qed

lemma flush_sim:
  assumes ar: "arrays_ok (sc_arrays cfg)" and s: "sim cfg cols row (bs, acc) p" "pr_run_start p = row" "acc \<noteq> []"
    and f: "flush cfg w t c p = (res, p')"
  shows "(\<exists>e. res = Inl e \<and> pr_items p' = pr_items p) \<or>
    (res = Inr () \<and> sim cfg cols row (bs @ [(acc, t, c)], []) (p'\<lparr>pr_emitted := Suc (length bs)\<rparr>) \<and>
     pr_run_start p' = row \<and> pr_emitted p' = length bs)"
proof (cases "build_batch cfg (pr_pending p)")
  case (Inl e)
  then show ?thesis using f by (auto simp: flush_def Let_def)
next
  case (Inr batch)
  have q: "pend_ok cfg acc (pr_pending p)" and r: "runs_ok cfg cols row acc p"
    and sent: "sent_as cfg bs (pr_items p)" and n: "pr_emitted p = length bs"
    using s(1) by (simp_all add: sim_def)
  have small: "\<not> pd_est_bytes (pr_pending p) > max_batch_bytes"
    using Inr by (auto simp: build_batch_def split: list.splits option.splits)
  then obtain g cs where g: "gb_finish (sc_lib cfg) (pd_builder (pr_pending p)) = Inr g"
    and cs: "finish_attributes cfg (pd_attrs (pr_pending p)) = Inr cs"
    and b: "assemble cfg (pd_ids (pr_pending p)) g cs = Inr batch"
    using Inr by (auto simp: build_batch_def)
  have batch: "batch = \<lparr>tb_ids = map sr_id acc, tb_geometry = g, tb_attributes = columns_of cfg acc\<rparr>"
    using b q finish_attributes_cells [OF ar r s(2,3) cs]
    by (auto simp: assemble_def pend_ok_def split: if_splits sum.splits)
  define it where "it = \<lparr>it_batch = batch, it_est_bytes = pd_est_bytes (pr_pending p), it_vertices = pd_vertices (pr_pending p),
      it_batch_index = pr_emitted p, it_target_bytes = t,
      it_xy_bounds = (if sc_report_bounds cfg then xy_bounds (tb_geometry batch) else None), it_cut_by = c\<rparr>"
  have "is_batch cfg (length bs) (acc, t, c) it"
    using q g small n by (simp add: is_batch_def it_def batch pend_ok_def)
  then have sent': "sent_as cfg (bs @ [(acc, t, c)]) (pr_items p @ [it])" by (rule sent_as_snoc [OF sent])
  have runs: "length (pd_attrs (pr_pending p)) = length (sc_attributes cfg)" using r by (simp add: runs_ok_def)
  consider "\<exists>e. res = Inl e \<and> pr_items p' = pr_items p"
    | "res = Inr ()" "pr_items p' = pr_items p @ [it]" "pr_run_start p' = pr_run_start p" "pr_emitted p' = pr_emitted p"
      "pr_pending p' = pending_new (length (sc_attributes cfg)) (sc_encoding cfg)"
    using f Inr runs by (auto simp: flush_def Let_def note_poll_def it_def split: if_splits)
  then show ?thesis
  proof cases
    case 2
    then show ?thesis using sent' n s(2) pend_ok_new [of cfg "length (sc_attributes cfg)"]
      by (auto simp: sim_def runs_ok_def open_cells_def pending_new_def)
  qed blast
qed

lemma flush_next_sim:
  assumes ar: "arrays_ok (sc_arrays cfg)" and s: "sim cfg cols row (bs, acc) p" "pr_run_start p = row" "acc \<noteq> []"
    and f: "flush_next cfg w t c p = (res, p')"
  shows "(\<exists>e. res = Inl e \<and> pr_items p' = pr_items p) \<or>
    (res = Inr () \<and> sim cfg cols row (bs @ [(acc, t, c)], []) p' \<and> pr_run_start p' = row)"
proof -
  obtain res1 p1 where f1: "flush cfg w t c p = (res1, p1)" by fastforce
  from flush_sim [OF ar s f1] show ?thesis
    using f f1 by (auto simp: flush_next_def then_ok_def sim_def runs_ok_def open_cells_def split: sum.splits)
qed

section \<open>Rows and chunks\<close>

lemma sum_list_map2_map: "sum_list (map2 f (map g xs) (map h xs)) = sum_list (map (\<lambda>x. f (g x) (h x)) xs)"
  by (induction xs) auto

lemma row_bytes_cells:
  assumes "cols_ok cfg cols" "sr_cells r = map (\<lambda>col. co_cells col ! row) cols"
  shows "row_bytes cfg r = attr_row_bytes cols row"
proof -
  have "map fd_type (sc_attributes cfg) = map co_type cols" using assms(1) by (simp add: cols_ok_def)
  then show ?thesis using assms(2) by (simp only: row_bytes_def attr_row_bytes_def sum_list_map2_map)
qed

lemma take_Suc_drop: "a \<le> n \<Longrightarrow> n < length xs \<Longrightarrow> take (Suc n - a) (drop a xs) = take (n - a) (drop a xs) @ [xs ! n]"
  by (simp add: Suc_diff_le take_Suc_conv_app_nth)

lemma push_row_sim:
  assumes s: "sim cfg cols row (bs, acc) p" and c: "cols_ok cfg cols"
    and r: "sr_id r = i" "sr_wkb r = Inr wkb" "sr_cells r = map (\<lambda>col. co_cells col ! row) cols"
    and len: "\<forall>col\<in>set cols. row < length (co_cells col)"
    and g: "gb_push_wkb (built cfg acc) wkb = (Inr (), b)"
  shows "sim cfg cols (Suc row) (bs, acc @ [r]) (p\<lparr>pr_pending := push_row i (attr_row_bytes cols row) b (pr_pending p)\<rparr>)"
proof -
  have b: "built cfg (acc @ [r]) = b" using g r(2) by (simp add: built_snoc wkb_of_def)
  have bytes: "row_bytes cfg r = attr_row_bytes cols row" by (rule row_bytes_cells [OF c r(3)])
  have "pend_ok cfg (acc @ [r]) (push_row i (attr_row_bytes cols row) b (pr_pending p))"
    using s gb_push_vertices [OF g] b bytes r(1)
    by (auto simp: sim_def pend_ok_def push_row_def size_of_def hd_append split: option.splits)
  moreover have "runs_ok cfg cols (Suc row) (acc @ [r]) (p\<lparr>pr_pending := push_row i (attr_row_bytes cols row) b (pr_pending p)\<rparr>)"
    using s r(3) len cols_ok_length [OF c]
    by (auto simp: sim_def runs_ok_def open_cells_def push_row_def take_Suc_drop)
  ultimately show ?thesis using s by (simp add: sim_def)
qed

lemma budget_check_size_only: "bp_cut (sc_policy cfg) = SizeOnly \<Longrightarrow> budget_check cfg w p = (False, p)"
  by (simp add: budget_check_def budgeted_def)

lemma sent_start_place: "sim cfg cols row st p \<Longrightarrow> sent_start cfg (fst (cut_place cfg t r st)) (pr_items p)"
  using cut_place_extends [of cfg t r st] sent_start_append [of cfg "fst st" "pr_items p"] by (auto simp: sim_def)

lemma place_row_sim:
  assumes ar: "arrays_ok (sc_arrays cfg)" and so: "bp_cut (sc_policy cfg) = SizeOnly" and c: "cols_ok cfg cols"
    and s: "sim cfg cols row (bs, acc) p"
    and r: "sr_id r = i" "sr_wkb r = Inr wkb" "sr_cells r = map (\<lambda>col. co_cells col ! row) cols"
    and len: "\<forall>col\<in>set cols. row < length (co_cells col)"
    and f: "place_row cfg w cols t (row, i) wkb p = (res, p')"
  shows "(\<exists>e. res = Inl e \<and> sent_start cfg (fst (cut_place cfg t r (bs, acc))) (pr_items p')) \<or>
    (res = Inr () \<and> sim cfg cols (Suc row) (cut_place cfg t r (bs, acc)) p')"
proof -
  have bd: "pd_builder (pr_pending p) = built cfg acc" using s by (simp add: sim_def pend_ok_def)
  obtain rg b where g: "gb_push_wkb (built cfg acc) wkb = (rg, b)" by fastforce
  show ?thesis
  proof (cases rg)
    case (Inl e)
    then show ?thesis using f bd g sent_start_place [OF s] by (auto simp: place_row_def)
  next
    case (Inr v)
    let ?p2 = "p\<lparr>pr_pending := push_row i (attr_row_bytes cols row) b (pr_pending p)\<rparr>"
    have s2: "sim cfg cols (Suc row) (bs, acc @ [r]) ?p2"
      using push_row_sim [OF s c r len] g Inr by simp
    then have est: "pd_est_bytes (pr_pending ?p2) = size_of cfg (acc @ [r])"
        "length (pd_ids (pr_pending ?p2)) = length (acc @ [r])"
      by (simp_all add: sim_def pend_ok_def)
    let ?cut = "cut_reason (size_of cfg (acc @ [r])) (length (acc @ [r])) t (bp_max_rows (sc_policy cfg)) False"
    have f': "(case ?cut of None \<Rightarrow> (Inr (), ?p2)
        | Some ct \<Rightarrow> flush_next cfg w t ct (close_run cols (Suc row) ?p2)) = (res, p')"
      using f bd g Inr est by (simp add: place_row_def budget_check_size_only [OF so] cong: option.case_cong)
    show ?thesis
    proof (cases ?cut)
      case None
      then show ?thesis using f' s2 by (auto simp: cut_place_def)
    next
      case (Some ct)
      then have "flush_next cfg w t ct (close_run cols (Suc row) ?p2) = (res, p')" using f' by simp
      from flush_next_sim [OF ar close_run_sim [OF c s2] close_run_fields(1) _ this] Some
      show ?thesis using sent_start_place [OF s, of t r] by (auto simp: cut_place_def)
    qed
  qed
qed

lemma row_step_sim:
  assumes ar: "arrays_ok (sc_arrays cfg)" and so: "bp_cut (sc_policy cfg) = SizeOnly" and c: "cols_ok cfg cols"
    and s: "sim cfg cols row (bs, acc) p"
    and r: "sr_id r = i" "sr_wkb r = binary_value (sc_show_dt cfg) geoms row" "sr_cells r = map (\<lambda>col. co_cells col ! row) cols"
    and len: "\<forall>col\<in>set cols. row < length (co_cells col)"
    and f: "row_step cfg w cols geoms (row, i) p = (res, p')"
  shows "(\<exists>e. res = Inl e \<and> sent_start cfg (fst (cut_step cfg (bs, acc) r)) (pr_items p')) \<or>
    (res = Inr () \<and> sim cfg cols (Suc row) (cut_step cfg (bs, acc) r) p')"
proof -
  have start: "sent_start cfg (fst (cut_step cfg (bs, acc) r)) (pr_items p)"
    using cut_step_extends [of cfg "(bs, acc)" r] s sent_start_append [of cfg bs "pr_items p"] by (auto simp: sim_def)
  show ?thesis
  proof (cases "wd_cancelled w (pr_polls p) \<or> (\<exists>e. sr_wkb r = Inl e)")
    case True
    then show ?thesis using f r(2) start by (auto simp: row_step_def note_poll_def split: if_splits)
  next
    case False
    then obtain wkb where wkb: "sr_wkb r = Inr wkb" by (cases "sr_wkb r") auto
    define t where "t = target_for (sc_policy cfg) (length bs)"
    define pre where "pre \<longleftrightarrow> acc \<noteq> [] \<and> size_of cfg acc + size_before cfg r > t"
    have sp: "sim cfg cols row (bs, acc) (note_poll p)" using s by simp
    then have pd: "pd_ids (pr_pending (note_poll p)) = map sr_id acc" "pd_est_bytes (pr_pending (note_poll p)) = size_of cfg acc"
      "pr_emitted (note_poll p) = length bs" by (simp_all add: sim_def pend_ok_def)
    obtain res1 p1 where p1: "(if pre then flush_next cfg w t SizeTarget (close_run cols row (note_poll p)) else (Inr (), note_poll p)) = (res1, p1)"
      by fastforce
    have f': "then_ok (res1, p1) (place_row cfg w cols t (row, i) wkb) = (res, p')"
      using f False wkb r(2) pd row_bytes_cells [OF c r(3)] p1
      by (simp add: row_step_def Let_def t_def pre_def size_before_def wkb_of_def cong: if_cong)
    have after: "(\<exists>e. res1 = Inl e \<and> pr_items p1 = pr_items p) \<or>
        (res1 = Inr () \<and> sim cfg cols row (cut_before cfg t r (bs, acc)) p1)"
    proof (cases pre)
      case True
      then have "flush_next cfg w t SizeTarget (close_run cols row (note_poll p)) = (res1, p1)" "acc \<noteq> []"
        using p1 by (simp_all add: pre_def)
      from flush_next_sim [OF ar close_run_sim [OF c sp] close_run_fields(1) this(2,1)] True
      show ?thesis by (auto simp: cut_before_def pre_def note_poll_def)
    qed (use p1 sp in \<open>auto simp: cut_before_def pre_def\<close>)
    show ?thesis
    proof (cases res1)
      case (Inl e)
      then show ?thesis using f' after start by (auto simp: then_ok_def)
    next
      case (Inr u)
      obtain bs1 acc1 where b1: "cut_before cfg t r (bs, acc) = (bs1, acc1)" by fastforce
      have "sim cfg cols row (bs1, acc1) p1" using after Inr b1 by simp
      from place_row_sim [OF ar so c this r(1) wkb r(3) len] f' Inr
      show ?thesis by (simp add: then_ok_def cut_step_def Let_def t_def [symmetric] b1)
    qed
  qed
qed

lemma then_ok_case: "then_ok r k = (res, p) \<longleftrightarrow> (\<exists>e. r = (Inl e, p) \<and> res = Inl e) \<or> (\<exists>u p1. r = (Inr u, p1) \<and> k p1 = (res, p))"
  by (auto simp: then_ok_def split: prod.splits sum.splits)

lemma row_loop_sim:
  assumes ar: "arrays_ok (sc_arrays cfg)" and so: "bp_cut (sc_policy cfg) = SizeOnly" and c: "cols_ok cfg cols"
    and len: "\<forall>col\<in>set cols. length (co_cells col) = n"
  shows "sim cfg cols row st p \<Longrightarrow> row + length ids \<le> n \<Longrightarrow>
    row_loop cfg w cols geoms (zip [row..<row + length ids] ids) p = (res, p') \<Longrightarrow>
    (let st' = foldl (cut_step cfg) st (rows_of cfg geoms cols (zip [row..<row + length ids] ids)) in
     (\<exists>e. res = Inl e \<and> sent_start cfg (fst st') (pr_items p')) \<or> (res = Inr () \<and> sim cfg cols (row + length ids) st' p'))"
proof (induction ids arbitrary: row st p)
  case (Cons i ids)
  obtain bs acc where st: "st = (bs, acc)" by fastforce
  let ?r = "\<lparr>sr_id = i, sr_wkb = binary_value (sc_show_dt cfg) geoms row, sr_cells = map (\<lambda>col. co_cells col ! row) cols\<rparr>"
  let ?tail = "zip [Suc row..<Suc row + length ids] ids"
  have zip: "zip [row..<row + length (i # ids)] (i # ids) = (row, i) # ?tail" by (simp add: upt_conv_Cons del: upt_Suc)
  obtain res1 p1 where step: "row_step cfg w cols geoms (row, i) p = (res1, p1)" by fastforce
  have "\<forall>col\<in>set cols. row < length (co_cells col)" using len Cons.prems(2) by auto
  from row_step_sim [OF ar so c Cons.prems(1) [unfolded st] _ _ _ this step, of ?r]
  have s1: "(\<exists>e. res1 = Inl e \<and> sent_start cfg (fst (cut_step cfg st ?r)) (pr_items p1)) \<or>
      (res1 = Inr () \<and> sim cfg cols (Suc row) (cut_step cfg st ?r) p1)" by (simp add: st)
  have loop: "then_ok (res1, p1) (row_loop cfg w cols geoms ?tail) = (res, p')"
    using Cons.prems(3) unfolding zip by (simp add: step)
  have rows: "rows_of cfg geoms cols (zip [row..<row + length (i # ids)] (i # ids)) = ?r # rows_of cfg geoms cols ?tail"
    unfolding zip by (simp add: rows_of_def)
  show ?case
  proof (cases res1)
    case (Inl e)
    obtain later where "fst (foldl (cut_step cfg) (cut_step cfg st ?r) (rows_of cfg geoms cols ?tail)) =
        fst (cut_step cfg st ?r) @ later" using cut_steps_extend by blast
    then show ?thesis using Inl s1 loop sent_start_prefix
      unfolding rows by (auto simp: then_ok_def)
  next
    case (Inr u)
    then have "sim cfg cols (Suc row) (cut_step cfg st ?r) p1" using s1 by auto
    from Cons.IH [OF this] Cons.prems(2) loop Inr show ?thesis
      unfolding rows by (simp add: then_ok_def)
  qed
qed (simp add: rows_of_def)

lemma decode_dictionary_cells:
  "decode_dictionary_chunk_column ar col dt = Inr c \<Longrightarrow> arrays_ok ar \<Longrightarrow> length (co_cells c) = length (co_cells col)"
  by (cases "co_type col") (auto simp: decode_dictionary_chunk_column_def arrays_ok_def split: sum.splits)

lemma chunk_attribute_cells:
  assumes "chunk_attribute cfg ch fd = Inr col" "arrays_ok (sc_arrays cfg)" "chunk_ok ch"
  shows "co_type col = fd_type fd \<and> length (co_cells col) = rc_rows ch"
proof -
  obtain raw where "rc_column ch (fd_name fd) = Some raw" "co_type col = fd_type fd"
    "decode_dictionary_chunk_column (sc_arrays cfg) raw (fd_type fd) = Inr col"
    using assms(1) by (auto simp: chunk_attribute_def split: option.splits if_splits)
  then show ?thesis using decode_dictionary_cells assms(2,3) by (simp add: chunk_ok_def)
qed

lemma collect_ok_cols:
  assumes "collect_ok (map (chunk_attribute cfg ch) (sc_attributes cfg)) = Inr cols" "arrays_ok (sc_arrays cfg)" "chunk_ok ch"
  shows "cols_ok cfg cols \<and> (\<forall>col\<in>set cols. length (co_cells col) = rc_rows ch)"
proof -
  have all: "list_all2 (\<lambda>fd col. chunk_attribute cfg ch fd = Inr col) (sc_attributes cfg) cols"
    by (rule collect_ok_all2 [OF assms(1)])
  then have "list_all2 (\<lambda>fd col. co_type col = fd_type fd \<and> length (co_cells col) = rc_rows ch) (sc_attributes cfg) cols"
    by (rule list_all2_mono) (rule chunk_attribute_cells [OF _ assms(2,3)])
  then show ?thesis unfolding cols_ok_def by induction auto
qed

lemma chunk_rows_all:
  assumes "column_u64 dt ch name = Inr ids" "chunk_ok ch"
  shows "chunk_rows ch ids = zip [0..<length ids] ids \<and> length ids = rc_rows ch"
proof -
  obtain col where col: "rc_column ch name = Some col" using assms(1) by (auto simp: column_u64_def split: option.splits)
  have "length ids = length (co_cells col)"
    using assms(1) col
    by (auto simp: column_u64_def split: if_splits dest!: collect_ok_all2 list_all2_lengthD)
  then show ?thesis using assms(2) col by (auto simp: chunk_ok_def chunk_rows_def)
qed

text \<open>Between chunks: every row of the open batch is in a run.\<close>

definition idle :: "stream_cfg \<Rightarrow> cut_batch list \<times> srow list \<Rightarrow> producer \<Rightarrow> bool" where
  "idle cfg st p \<longleftrightarrow> sim cfg [] (pr_run_start p) st p"

lemma sim_idle: "sim cfg cols row st p \<Longrightarrow> pr_run_start p = row \<Longrightarrow> idle cfg st p"
  by (simp add: idle_def sim_def runs_ok_def open_cells_def)

lemma chunk_step_sim:
  assumes ar: "arrays_ok (sc_arrays cfg)" and so: "bp_cut (sc_policy cfg) = SizeOnly" and ok: "chunk_ok ch"
    and s: "idle cfg st p" and f: "chunk_step cfg w ch p = (res, p')"
  shows "(let st' = foldl (cut_step cfg) st (fetched_rows cfg [Fetched ch]) in
     (\<exists>e. res = Inl e \<and> sent_start cfg (fst st') (pr_items p')) \<or>
     (res = Inr () \<and> idle cfg st' p' \<and> (\<exists>cc. chunk_columns cfg ch = Inr cc)))"
proof -
  define q where "q = (if pr_first_row_at p = None \<and> rc_rows ch > 0
      then p\<lparr>pr_first_row_at := Some (wd_now w (pr_reads p)), pr_reads := pr_reads p + 1\<rparr> else p)"
  have q: "sim cfg cols 0 st (q\<lparr>pr_run_start := 0\<rparr>)" for cols
    using s by (auto simp: idle_def sim_def runs_ok_def open_cells_def q_def)
  show ?thesis
  proof (cases "chunk_columns cfg ch")
    case (Inl e)
    moreover have "sent_as cfg (fst st) (pr_items q)" using q by (simp add: sim_def)
    ultimately show ?thesis using f sent_start_append [of cfg "fst st" "pr_items q" "[]"]
      by (auto simp: chunk_step_def q_def [symmetric] Let_def)
  next
    case (Inr cc)
    then obtain ids geoms cols where cc: "chunk_columns cfg ch = Inr (ids, geoms, cols)" by (cases cc) auto
    then have ids: "column_u64 (sc_show_dt cfg) ch id_column = Inr ids"
      and at: "collect_ok (map (chunk_attribute cfg ch) (sc_attributes cfg)) = Inr cols"
      by (auto simp: chunk_columns_def split: option.splits)
    have c: "cols_ok cfg cols" "\<forall>col\<in>set cols. length (co_cells col) = rc_rows ch"
      using collect_ok_cols [OF at ar ok] by simp_all
    have rows: "chunk_rows ch ids = zip [0..<0 + length ids] ids" "length ids = rc_rows ch"
      using chunk_rows_all [OF ids ok] by simp_all
    obtain res1 p1 where l: "row_loop cfg w cols geoms (zip [0..<0 + length ids] ids) (q\<lparr>pr_run_start := 0\<rparr>) = (res1, p1)"
      by fastforce
    have f': "then_ok (res1, p1) (\<lambda>p. chunk_end cfg w (close_run cols (rc_rows ch) p)) = (res, p')"
      using f cc rows l by (simp add: chunk_step_def q_def [symmetric] Let_def)
    define st' where "st' = foldl (cut_step cfg) st (fetched_rows cfg [Fetched ch])"
    have st': "st' = foldl (cut_step cfg) st (rows_of cfg geoms cols (zip [0..<0 + length ids] ids))"
      unfolding st'_def using cc rows(1) by simp
    have "(\<exists>e. res1 = Inl e \<and> sent_start cfg (fst st') (pr_items p1)) \<or> (res1 = Inr () \<and> sim cfg cols (length ids) st' p1)"
      using row_loop_sim [OF ar so c(1,2) q _ l] rows(2) unfolding st' by (simp add: Let_def)
    moreover have "idle cfg st' (close_run cols (rc_rows ch) p1)" if "sim cfg cols (length ids) st' p1"
      using close_run_sim [OF c(1) that] rows(2) by (simp add: sim_idle)
    ultimately show ?thesis using f' cc so unfolding st'_def [symmetric]
      by (auto simp: then_ok_def chunk_end_def budgeted_def)
  qed
qed

lemma flush_idle:
  assumes ar: "arrays_ok (sc_arrays cfg)" and s: "idle cfg (bs, acc) p" "acc \<noteq> []" and f: "flush cfg w t c p = (res, p')"
  shows "(\<exists>e. res = Inl e \<and> pr_items p' = pr_items p) \<or> (res = Inr () \<and> sent_as cfg (bs @ [(acc, t, c)]) (pr_items p'))"
  using flush_sim [OF ar s(1) [unfolded idle_def] refl s(2) f] by (auto simp: sim_def)

lemma produce_loop_sim:
  assumes ar: "arrays_ok (sc_arrays cfg)" and so: "bp_cut (sc_policy cfg) = SizeOnly"
  shows "idle cfg st p \<Longrightarrow> list_all fetch_ok fs \<Longrightarrow> produce_loop cfg w fs p = (res, p') \<Longrightarrow>
    (let bs = cut_end cfg (foldl (cut_step cfg) st (fetched_rows cfg fs)) in
     sent_start cfg bs (pr_items p') \<and> (res = Inr () \<longrightarrow> sent_as cfg bs (pr_items p')))"
proof (induction fs arbitrary: st p)
  case Nil
  obtain bs acc where st: "st = (bs, acc)" by fastforce
  have sent: "sent_as cfg bs (pr_items p)" and pd: "pd_ids (pr_pending p) = map sr_id acc" "pr_emitted p = length bs"
    using Nil(1) st by (simp_all add: idle_def sim_def pend_ok_def)
  have s: "idle cfg (bs, acc) (note_poll p)" using Nil(1) st by (simp add: idle_def) (simp add: note_poll_def)
  have start: "sent_start cfg (bs @ later) (pr_items p)" for later by (rule sent_start_append [OF sent])
  have "sent_start cfg (cut_end cfg st) (pr_items p)" using start [of "[]"] start by (simp add: st cut_end_def)
  moreover have "(\<exists>e. res = Inl e \<and> pr_items p' = pr_items p) \<or> (res = Inr () \<and> sent_as cfg (cut_end cfg st) (pr_items p'))"
    using Nil(3) flush_idle [OF ar s] sent
    by (auto simp: st cut_end_def pd note_poll_def split: if_splits)
  ultimately show ?case using sent_start_append [of cfg "cut_end cfg st" "pr_items p'" "[]"] by auto
next
  case (Cons f fs)
  define later where "later = foldl (cut_step cfg) st (fetched_rows cfg (f # fs))"
  have grow: "sent_start cfg (fst st1) its \<Longrightarrow> sent_start cfg (cut_end cfg (foldl (cut_step cfg) st1 rs)) its" for st1 rs its
    by (metis cut_end_extends cut_steps_extend sent_start_prefix)
  have s0: "sent_start cfg (fst st) (pr_items p)"
    using Cons.prems(1) sent_start_append [of cfg "fst st" "pr_items p" "[]"] by (simp add: idle_def sim_def)
  show ?case
  proof (cases "wd_cancelled w (pr_polls p) \<or> (\<exists>d. f = FetchPanicked d)")
    case True
    then have "pr_items p' = pr_items p \<and> (\<exists>e. res = Inl e)"
      using Cons.prems(3) by (auto simp: note_poll_def split: if_splits)
    then show ?thesis using grow [OF s0] by (auto simp: Let_def)
  next
    case False
    then obtain ch where ch: "f = Fetched ch" by (cases f) auto
    obtain res1 p1 where c1: "chunk_step cfg w ch (note_poll p) = (res1, p1)" by fastforce
    have loop: "then_ok (res1, p1) (produce_loop cfg w fs) = (res, p')"
      using Cons.prems(3) False ch c1 by simp
    have "idle cfg st (note_poll p)" using Cons.prems(1) by (simp add: idle_def) (simp add: note_poll_def)
    from chunk_step_sim [OF ar so _ this c1] Cons.prems(2) ch
    have step: "(let st' = foldl (cut_step cfg) st (fetched_rows cfg [Fetched ch]) in
       (\<exists>e. res1 = Inl e \<and> sent_start cfg (fst st') (pr_items p1)) \<or>
       (res1 = Inr () \<and> idle cfg st' p1 \<and> (\<exists>cc. chunk_columns cfg ch = Inr cc)))" by (simp add: fetch_ok_def)
    have split: "\<exists>rs. fetched_rows cfg (f # fs) = fetched_rows cfg [Fetched ch] @ rs \<and>
        ((\<exists>cc. chunk_columns cfg ch = Inr cc) \<longrightarrow> rs = fetched_rows cfg fs)"
      by (auto simp: ch split: sum.splits)
    then obtain rs where rs: "fetched_rows cfg (f # fs) = fetched_rows cfg [Fetched ch] @ rs"
      "(\<exists>cc. chunk_columns cfg ch = Inr cc) \<Longrightarrow> rs = fetched_rows cfg fs" by blast
    show ?thesis
    proof (cases res1)
      case (Inl e)
      then have "res = Inl e" "p' = p1" "sent_start cfg (fst (foldl (cut_step cfg) st (fetched_rows cfg [Fetched ch]))) (pr_items p1)"
        using loop step by (auto simp add: then_ok_def Let_def simp del: fetched_rows.simps)
      then show ?thesis using grow [of "foldl (cut_step cfg) st (fetched_rows cfg [Fetched ch])" _ rs]
        unfolding rs(1) by (simp add: Let_def del: fetched_rows.simps)
    next
      case (Inr u)
      then show ?thesis
        using loop step Cons.IH [of "foldl (cut_step cfg) st (fetched_rows cfg [Fetched ch])" p1] Cons.prems(2) rs(2)
        unfolding rs(1) by (auto simp: then_ok_def Let_def)
    qed
  qed
qed

end
