(* ===== verification/Stream_Whole.thy ===== *)
theory Stream_Whole
  imports Stream_Proofs
begin

text \<open>
  Under every policy, the time-budgeted one included, a producer that returns normally has sent batches that split the
  rows of the result: what \<open>Stream_Proofs\<close> shows of the size-only policies with the reference's cuts, here with some cuts.
\<close>

section \<open>Cuts of the rows\<close>

definition cut_inv :: "stream_cfg \<Rightarrow> srow list \<Rightarrow> cut_batch list \<times> srow list \<Rightarrow> bool" where
  "cut_inv cfg rs st \<longleftrightarrow>
     (case st of (bs, acc) \<Rightarrow>
        concat (map fst bs) @ acc = rs \<and> length acc < bp_max_rows (sc_policy cfg) \<and>
        (\<forall>b\<in>set bs. fst b \<noteq> [] \<and> length (fst b) \<le> bp_max_rows (sc_policy cfg)))"

lemma cut_inv_close:
  "cut_inv cfg rs (bs, acc) \<Longrightarrow> acc \<noteq> [] \<Longrightarrow> cut_inv cfg rs (bs @ [(acc, t, c)], [])"
  by (auto simp: cut_inv_def)

definition split_sim :: "stream_cfg \<Rightarrow> srow list \<Rightarrow> column list \<Rightarrow> nat \<Rightarrow> producer \<Rightarrow> bool" where
  "split_sim cfg rs cols row p \<longleftrightarrow> (\<exists>st. cut_inv cfg rs st \<and> sim cfg cols row st p)"

lemma sim_polls_reads: "sim cfg cols row st p \<Longrightarrow> sim cfg cols row st (p\<lparr>pr_stride := a, pr_reads := b\<rparr>)"
  by (simp add: sim_def runs_ok_def open_cells_def)

lemma budget_check_keeps: "\<exists>a b. snd (budget_check cfg w p) = p\<lparr>pr_stride := a, pr_reads := b\<rparr>"
proof -
  have "snd (budget_check cfg w p) =
      p\<lparr>pr_stride := pr_stride (snd (budget_check cfg w p)), pr_reads := pr_reads (snd (budget_check cfg w p))\<rparr>"
    by (simp add: budget_check_def budget_expired_def split: option.splits)
  then show ?thesis by blast
qed

section \<open>Rows\<close>

lemma place_row_split:
  assumes ar: "arrays_ok (sc_arrays cfg)" and c: "cols_ok cfg cols"
    and s: "sim cfg cols row (bs, acc) p" and inv: "cut_inv cfg rs (bs, acc)"
    and r: "sr_id r = i" "sr_wkb r = Inr wkb" "sr_cells r = map (\<lambda>col. co_cells col ! row) cols"
    and len: "\<forall>col\<in>set cols. row < length (co_cells col)"
    and f: "place_row cfg w cols t (row, i) wkb p = (Inr (), p')"
  shows "split_sim cfg (rs @ [r]) cols (Suc row) p'"
proof -
  have bd: "pd_builder (pr_pending p) = built cfg acc" using s by (simp add: sim_def pend_ok_def)
  obtain rg b where g: "gb_push_wkb (built cfg acc) wkb = (rg, b)" by fastforce
  then have g': "gb_push_wkb (built cfg acc) wkb = (Inr (), b)" using f bd by (cases rg) (auto simp: place_row_def)
  define p2 where "p2 = p\<lparr>pr_pending := push_row i (attr_row_bytes cols row) b (pr_pending p)\<rparr>"
  obtain reached p3 where bc: "budget_check cfg w p2 = (reached, p3)" by fastforce
  then obtain x y where p3: "p3 = p2\<lparr>pr_stride := x, pr_reads := y\<rparr>" using budget_check_keeps [of cfg w p2] by auto
  have s3: "sim cfg cols (Suc row) (bs, acc @ [r]) p3"
    unfolding p3 p2_def by (rule sim_polls_reads [OF push_row_sim [OF s c r len g']])
  then have est: "length (pd_ids (pr_pending p3)) = length (acc @ [r])" by (simp add: sim_def pend_ok_def)
  let ?cut = "cut_reason (pd_est_bytes (pr_pending p3)) (length (acc @ [r])) t (bp_max_rows (sc_policy cfg)) reached"
  have f': "(case ?cut of None \<Rightarrow> (Inr (), p3)
      | Some ct \<Rightarrow> flush_next cfg w t ct (close_run cols (Suc row) p3)) = (Inr (), p')"
    using f bd g' bc est by (simp add: place_row_def p2_def cong: option.case_cong)
  show ?thesis
  proof (cases ?cut)
    case None
    then have "length (acc @ [r]) < bp_max_rows (sc_policy cfg)" by (auto simp: cut_reason_def split: if_splits)
    then have "cut_inv cfg (rs @ [r]) (bs, acc @ [r])" using inv by (auto simp: cut_inv_def)
    then show ?thesis using f' None s3 by (auto simp: split_sim_def)
  next
    case (Some ct)
    then have "flush_next cfg w t ct (close_run cols (Suc row) p3) = (Inr (), p')" using f' by simp
    from flush_next_sim [OF ar close_run_sim [OF c s3] close_run_fields(1) _ this]
    have "sim cfg cols (Suc row) (bs @ [(acc @ [r], t, ct)], []) p'" by auto
    moreover have "cut_inv cfg (rs @ [r]) (bs @ [(acc @ [r], t, ct)], [])"
      using inv by (auto simp: cut_inv_def)
    ultimately show ?thesis unfolding split_sim_def by blast
  qed
qed

lemma row_step_split:
  assumes ar: "arrays_ok (sc_arrays cfg)" and c: "cols_ok cfg cols" and s: "split_sim cfg rs cols row p"
    and r: "sr_id r = i" "sr_wkb r = binary_value (sc_show_dt cfg) geoms row" "sr_cells r = map (\<lambda>col. co_cells col ! row) cols"
    and len: "\<forall>col\<in>set cols. row < length (co_cells col)"
    and f: "row_step cfg w cols geoms (row, i) p = (Inr (), p')"
  shows "split_sim cfg (rs @ [r]) cols (Suc row) p'"
proof -
  obtain bs acc where inv: "cut_inv cfg rs (bs, acc)" and sp: "sim cfg cols row (bs, acc) (note_poll p)"
    using s by (auto simp: split_sim_def)
  obtain wkb where wkb: "sr_wkb r = Inr wkb" using f r(2) by (auto simp: row_step_def split: if_splits sum.splits)
  define t where "t = target_for (sc_policy cfg) (pr_emitted (note_poll p))"
  define q where "q = note_poll p"
  have "then_ok (if pd_ids (pr_pending q) \<noteq> [] \<and>
           pd_est_bytes (pr_pending q) + (estimate_bytes 1 (length wkb div 16) + attr_row_bytes cols row) > t
         then flush_next cfg w t SizeTarget (close_run cols row q) else (Inr (), q))
       (place_row cfg w cols t (row, i) wkb) = (Inr (), p')"
    using f wkb r(2) by (auto simp: row_step_def Let_def t_def q_def split: if_splits)
  then obtain p1 where p1: "(if pd_ids (pr_pending q) \<noteq> [] \<and>
           pd_est_bytes (pr_pending q) + (estimate_bytes 1 (length wkb div 16) + attr_row_bytes cols row) > t
         then flush_next cfg w t SizeTarget (close_run cols row q) else (Inr (), q)) = (Inr (), p1)"
    and place: "place_row cfg w cols t (row, i) wkb p1 = (Inr (), p')"
    by (auto simp: then_ok_case)
  have "\<exists>bs1 acc1. cut_inv cfg rs (bs1, acc1) \<and> sim cfg cols row (bs1, acc1) p1"
  proof (cases "p1 = q")
    case True
    then show ?thesis using inv sp by (auto simp: q_def)
  next
    case False
    then have fl: "flush_next cfg w t SizeTarget (close_run cols row q) = (Inr (), p1)" "pd_ids (pr_pending q) \<noteq> []"
      using p1 by (auto split: if_splits)
    have "acc \<noteq> []" using fl(2) sp by (auto simp: q_def sim_def pend_ok_def)
    from flush_next_sim [OF ar close_run_sim [OF c sp] close_run_fields(1) this fl(1) [unfolded q_def]]
    show ?thesis using cut_inv_close [OF inv \<open>acc \<noteq> []\<close>] by blast
  qed
  then obtain bs1 acc1 where "cut_inv cfg rs (bs1, acc1)" "sim cfg cols row (bs1, acc1) p1" by blast
  from place_row_split [OF ar c this(2,1) r(1) wkb r(3) len place] show ?thesis .
qed

lemma row_loop_split:
  assumes ar: "arrays_ok (sc_arrays cfg)" and c: "cols_ok cfg cols"
    and len: "\<forall>col\<in>set cols. length (co_cells col) = n"
  shows "split_sim cfg rs cols row p \<Longrightarrow> row + length ids \<le> n \<Longrightarrow>
    row_loop cfg w cols geoms (zip [row..<row + length ids] ids) p = (Inr (), p') \<Longrightarrow>
    split_sim cfg (rs @ rows_of cfg geoms cols (zip [row..<row + length ids] ids)) cols (row + length ids) p'"
proof (induction ids arbitrary: row rs p)
  case (Cons i ids)
  let ?r = "\<lparr>sr_id = i, sr_wkb = binary_value (sc_show_dt cfg) geoms row, sr_cells = map (\<lambda>col. co_cells col ! row) cols\<rparr>"
  let ?tail = "zip [Suc row..<Suc row + length ids] ids"
  have zip: "zip [row..<row + length (i # ids)] (i # ids) = (row, i) # ?tail" by (simp add: upt_conv_Cons del: upt_Suc)
  obtain p1 where step: "row_step cfg w cols geoms (row, i) p = (Inr (), p1)"
    and loop: "row_loop cfg w cols geoms ?tail p1 = (Inr (), p')"
    using Cons.prems(3) unfolding zip by (auto simp: then_ok_case)
  have "\<forall>col\<in>set cols. row < length (co_cells col)" using len Cons.prems(2) by auto
  from row_step_split [OF ar c Cons.prems(1) _ _ _ this step, of ?r]
  have "split_sim cfg (rs @ [?r]) cols (Suc row) p1" by simp
  from Cons.IH [OF this _ loop] Cons.prems(2) show ?case
    unfolding zip by (simp add: rows_of_def)
qed (simp add: rows_of_def)

section \<open>Chunks and the whole result\<close>

definition split_idle :: "stream_cfg \<Rightarrow> srow list \<Rightarrow> producer \<Rightarrow> bool" where
  "split_idle cfg rs p \<longleftrightarrow> (\<exists>st. cut_inv cfg rs st \<and> idle cfg st p)"

lemma chunk_end_split:
  assumes ar: "arrays_ok (sc_arrays cfg)" and s: "split_idle cfg rs p" and f: "chunk_end cfg w p = (Inr (), p')"
  shows "split_idle cfg rs p'"
proof -
  obtain bs acc where inv: "cut_inv cfg rs (bs, acc)" and i: "idle cfg (bs, acc) p"
    using s by (auto simp: split_idle_def)
  obtain e q where be: "budget_expired w p = (e, q)" by fastforce
  then have q: "\<exists>b. q = p\<lparr>pr_reads := b\<rparr>"
    by (cases "pr_first_row_at p") (force simp: budget_expired_def intro: exI [of _ "pr_reads p"])+
  then have iq: "idle cfg (bs, acc) q" using i by (auto simp: idle_def sim_def runs_ok_def open_cells_def)
  show ?thesis
  proof (cases "p' = p \<or> p' = q")
    case True
    then show ?thesis using inv i iq by (auto simp: split_idle_def)
  next
    case False
    then have fl: "flush_next cfg w (target_for (sc_policy cfg) (pr_emitted q)) TimeBudget q = (Inr (), p')"
      and "pd_ids (pr_pending p) \<noteq> []"
      using f be by (auto simp: chunk_end_def split: if_splits bool.splits)
    then have "acc \<noteq> []" using i by (auto simp: idle_def sim_def pend_ok_def)
    from flush_next_sim [OF ar iq [unfolded idle_def] refl this fl] cut_inv_close [OF inv this]
    show ?thesis by (auto simp: split_idle_def idle_def)
  qed
qed

lemma chunk_step_split:
  assumes ar: "arrays_ok (sc_arrays cfg)" and ok: "chunk_ok ch"
    and s: "split_idle cfg rs p" and f: "chunk_step cfg w ch p = (Inr (), p')"
  shows "split_idle cfg (rs @ fetched_rows cfg [Fetched ch]) p' \<and> (\<exists>cc. chunk_columns cfg ch = Inr cc)"
proof -
  define q where "q = (if pr_first_row_at p = None \<and> rc_rows ch > 0
      then p\<lparr>pr_first_row_at := Some (wd_now w (pr_reads p)), pr_reads := pr_reads p + 1\<rparr> else p)"
  have q: "split_sim cfg rs cols 0 (q\<lparr>pr_run_start := 0\<rparr>)" for cols
    using s by (auto simp: split_idle_def split_sim_def idle_def sim_def runs_ok_def open_cells_def q_def)
  obtain ids geoms cols p1 where cc: "chunk_columns cfg ch = Inr (ids, geoms, cols)"
    and l: "row_loop cfg w cols geoms (chunk_rows ch ids) (q\<lparr>pr_run_start := 0\<rparr>) = (Inr (), p1)"
    and e: "chunk_end cfg w (close_run cols (rc_rows ch) p1) = (Inr (), p')"
    using f unfolding chunk_step_def Let_def q_def [symmetric]
    by (auto simp: then_ok_case split: sum.splits)
  then have ids: "column_u64 (sc_show_dt cfg) ch id_column = Inr ids"
    and at: "collect_ok (map (chunk_attribute cfg ch) (sc_attributes cfg)) = Inr cols"
    by (auto simp: chunk_columns_def split: option.splits)
  have c: "cols_ok cfg cols" "\<forall>col\<in>set cols. length (co_cells col) = rc_rows ch"
    using collect_ok_cols [OF at ar ok] by simp_all
  have rows: "chunk_rows ch ids = zip [0..<0 + length ids] ids" "length ids = rc_rows ch"
    using chunk_rows_all [OF ids ok] by simp_all
  have "split_sim cfg (rs @ rows_of cfg geoms cols (zip [0..<0 + length ids] ids)) cols (length ids) p1"
    using row_loop_split [OF ar c q _ l [unfolded rows(1)]] rows(2) by simp
  then obtain st where st: "cut_inv cfg (rs @ fetched_rows cfg [Fetched ch]) st" "sim cfg cols (rc_rows ch) st p1"
    using cc rows by (auto simp: split_sim_def)
  have "split_idle cfg (rs @ fetched_rows cfg [Fetched ch]) (close_run cols (rc_rows ch) p1)"
    unfolding split_idle_def using st(1) sim_idle [OF close_run_sim [OF c(1) st(2)] close_run_fields(1)] by blast
  from chunk_end_split [OF ar this e] cc show ?thesis by simp
qed

lemma fetched_rows_Cons:
  "chunk_columns cfg ch = Inr cc \<Longrightarrow>
     fetched_rows cfg (Fetched ch # fs) = fetched_rows cfg [Fetched ch] @ fetched_rows cfg fs"
  by (cases cc) simp

lemma produce_loop_split:
  assumes ar: "arrays_ok (sc_arrays cfg)"
  shows "split_idle cfg rs p \<Longrightarrow> list_all fetch_ok fs \<Longrightarrow> produce_loop cfg w fs p = (Inr (), p') \<Longrightarrow>
    \<exists>bs. sent_as cfg bs (pr_items p') \<and> concat (map fst bs) = rs @ fetched_rows cfg fs \<and>
      (\<forall>b\<in>set bs. fst b \<noteq> [] \<and> length (fst b) \<le> bp_max_rows (sc_policy cfg))"
proof (induction fs arbitrary: rs p)
  case Nil
  then obtain bs acc where inv: "cut_inv cfg rs (bs, acc)" and i: "idle cfg (bs, acc) p"
    by (auto simp: split_idle_def)
  have sent: "sent_as cfg bs (pr_items p)" "pd_ids (pr_pending p) = map sr_id acc"
    using i by (simp_all add: idle_def sim_def pend_ok_def)
  have i': "idle cfg (bs, acc) (note_poll p)" using i by (simp add: idle_def) (simp add: note_poll_def)
  show ?case
  proof (cases "acc = []")
    case True
    then show ?thesis using Nil(3) inv sent by (auto simp: cut_inv_def note_poll_def split: if_splits)
  next
    case False
    define t where "t = target_for (sc_policy cfg) (pr_emitted p)"
    have "flush cfg w t StreamEnd (note_poll p) = (Inr (), p')"
      using Nil(3) False sent(2) by (simp add: t_def note_poll_def split: if_splits)
    from flush_idle [OF ar i' False this] have "sent_as cfg (bs @ [(acc, t, StreamEnd)]) (pr_items p')" by simp
    moreover from cut_inv_close [OF inv False] have "cut_inv cfg rs (bs @ [(acc, t, StreamEnd)], [])" .
    ultimately show ?thesis
      by (intro exI [of _ "bs @ [(acc, t, StreamEnd)]"]) (simp add: cut_inv_def)
  qed
next
  case (Cons f fs)
  then obtain ch where ch: "f = Fetched ch" by (cases f) (auto split: if_splits)
  obtain p1 where c1: "chunk_step cfg w ch (note_poll p) = (Inr (), p1)" and l: "produce_loop cfg w fs p1 = (Inr (), p')"
    using Cons.prems(3) by (auto simp: ch then_ok_case split: if_splits)
  have "split_idle cfg rs (note_poll p)"
    using Cons.prems(1) by (auto simp: split_idle_def idle_def) (auto simp: note_poll_def)
  from chunk_step_split [OF ar _ this c1] Cons.prems(2)
  have "split_idle cfg (rs @ fetched_rows cfg [Fetched ch]) p1" "\<exists>cc. chunk_columns cfg ch = Inr cc"
    by (simp_all add: ch fetch_ok_def)
  from Cons.IH [OF this(1) _ l] this(2) Cons.prems(2) show ?case
    using fetched_rows_Cons [of cfg ch _ fs] by (auto simp: ch)
qed

lemma split_idle_new: "0 < bp_max_rows (sc_policy cfg) \<Longrightarrow> split_idle cfg [] ((producer_new cfg)\<lparr>pr_polls := k\<rparr>)"
  using sim_new [of cfg "[]" k] by (auto simp: split_idle_def idle_def producer_new_def cut_inv_def intro!: exI [of _ "[]"])

end
