(* ===== verification/Stream_Bounds.thy ===== *)
theory Stream_Bounds
  imports Stream_Cost
begin

text \<open>
  The size of a stream's batches, under every policy and for every world: only a batch of a single row can be over its
  target, so the ceiling on a batch is only ever reported as a feature that is too large by itself.
\<close>

section \<open>Targets\<close>

definition targets_ok :: "batch_size_policy \<Rightarrow> bool" where
  "targets_ok bp \<longleftrightarrow> bp_min_bytes bp \<le> max_batch_bytes \<and> bp_target_bytes bp \<le> max_batch_bytes"

lemma target_loop_le: "targets_ok bp \<Longrightarrow> target_loop bp t n \<le> max_batch_bytes"
  by (induction bp t n rule: target_loop.induct) (auto simp: targets_ok_def)

lemma target_for_le: "targets_ok bp \<Longrightarrow> target_for bp n \<le> max_batch_bytes"
  by (simp add: target_for_def target_loop_le)

lemma policies_targets_ok: "targets_ok default_policy" "targets_ok publish_policy" "targets_ok time_budgeted_policy"
  by (simp_all add: targets_ok_def default_policy_def publish_policy_def time_budgeted_policy_def max_batch_bytes_def
      min_batch_bytes_def target_batch_bytes_def publish_partition_target_bytes_def)

section \<open>Errors that are not the ceiling\<close>

definition ceiling :: "engine_error \<Rightarrow> bool" where
  "ceiling e = (case e of EngCeilingExceeded _ _ _ \<Rightarrow> True | _ \<Rightarrow> False)"

named_theorems no_ceiling \<open>a step's errors are not the batch ceiling\<close>

lemma ceiling_simps [simp]:
  "\<not> ceiling (EngArrow m)" "\<not> ceiling (EngQuery m)" "\<not> ceiling (EngWkb m)" "\<not> ceiling (EngEncodingMismatch m n)"
  "\<not> ceiling EngCancelled" "\<not> ceiling (EngFeatureTooLarge a b c)" "ceiling (EngCeilingExceeded m a b)"
  by (simp_all add: ceiling_def)

lemma bind_ok_Inl: "bind_ok r k = Inl e \<longleftrightarrow> r = Inl e \<or> (\<exists>x. r = Inr x \<and> k x = Inl e)"
  by (cases r) (auto simp: bind_ok_def)

lemma collect_ok_Inl: "collect_ok rs = Inl e \<Longrightarrow> Inl e \<in> set rs"
  by (induction rs) (auto simp: bind_ok_Inl)

lemma arrow_err_no_ceiling [no_ceiling]: "arrow_err what r = Inl e \<Longrightarrow> \<not> ceiling e"
  by (auto simp: arrow_err_def split: sum.splits)

lemma checked_offsets_no_ceiling [no_ceiling]: "checked_offsets v what = Inl e \<Longrightarrow> \<not> ceiling e"
  by (auto simp: checked_offsets_def split: list.splits option.splits if_splits)

lemma coords_array_no_ceiling [no_ceiling]: "coords_array lib what cs = Inl e \<Longrightarrow> \<not> ceiling e"
  by (auto simp: coords_array_def split: if_splits dest: no_ceiling)

lemma list_level_no_ceiling [no_ceiling]: "list_level lib name dt os wo what a = Inl e \<Longrightarrow> \<not> ceiling e"
  by (auto simp: list_level_def bind_ok_Inl dest: no_ceiling)

lemma gb_finish_no_ceiling [no_ceiling]: "gb_finish lib g = Inl e \<Longrightarrow> \<not> ceiling e"
  by (auto simp: gb_finish_def build_polygon_array_def build_multipolygon_array_def build_point_array_def
      build_linestring_array_def build_multilinestring_array_def bind_ok_Inl split: geometry_builder.splits dest: no_ceiling)

lemma single_run_no_ceiling [no_ceiling]: "single_run_retention ar compact a = Inl e \<Longrightarrow> \<not> ceiling e"
  by (auto simp: single_run_retention_def retain_or_compact_single_run_def Let_def split: if_splits sum.splits)

lemma finish_attributes_no_ceiling [no_ceiling]: "finish_attributes cfg attrs = Inl e \<Longrightarrow> \<not> ceiling e"
  unfolding finish_attributes_def
  by (drule collect_ok_Inl) (auto split: list.splits sum.splits dest: no_ceiling dest!: sym [of "Inl e"])

lemma check_attributes_no_ceiling [no_ceiling]: "check_attributes dt n fcs = Inl e \<Longrightarrow> \<not> ceiling e"
  by (induction dt n fcs rule: check_attributes.induct) (auto split: if_splits)

lemma assemble_no_ceiling [no_ceiling]: "assemble cfg ids g cs = Inl e \<Longrightarrow> \<not> ceiling e"
  by (auto simp: assemble_def bind_ok_Inl validate_encoding_def Let_def split: if_splits sum.splits dest: no_ceiling)

lemma binary_value_no_ceiling [no_ceiling]: "binary_value dt col row = Inl e \<Longrightarrow> \<not> ceiling e"
  by (auto simp: binary_value_def split: acell.splits if_splits)

lemma column_u64_no_ceiling [no_ceiling]: "column_u64 dt ch name = Inl e \<Longrightarrow> \<not> ceiling e"
  by (auto simp: column_u64_def try_u64_def split: option.splits if_splits acell.splits
      dest!: collect_ok_Inl sym [of "Inl e"])

lemma chunk_attribute_no_ceiling [no_ceiling]: "chunk_attribute cfg ch fd = Inl e \<Longrightarrow> \<not> ceiling e"
proof -
  have "decode_dictionary_chunk_column ar col dt = Inl e \<Longrightarrow> \<not> ceiling e" for ar col dt
    by (cases "co_type col") (auto simp: decode_dictionary_chunk_column_def split: sum.splits)
  then show "chunk_attribute cfg ch fd = Inl e \<Longrightarrow> \<not> ceiling e"
    by (auto simp: chunk_attribute_def bind_ok_Inl split: option.splits if_splits)
qed

lemma chunk_columns_no_ceiling [no_ceiling]: "chunk_columns cfg ch = Inl e \<Longrightarrow> \<not> ceiling e"
  by (auto simp: chunk_columns_def bind_ok_Inl split: option.splits dest: no_ceiling dest!: collect_ok_Inl sym [of "Inl e"])

lemma classify_no_ceiling: "\<not> ceiling (classify_query c phase m)" "\<not> ceiling (classify_fetch_panic c m)"
  by (simp_all add: classify_fetch_panic_def classify_query_def)

section \<open>The invariant\<close>

definition fits :: "stream_cfg \<Rightarrow> producer \<Rightarrow> bool" where
  "fits cfg p \<longleftrightarrow>
     (let q = pr_pending p in
      pd_est_bytes q = estimate_bytes (length (pd_ids q)) (gb_vertices (pd_builder q)) + pd_attr_bytes q \<and>
      (pd_ids q \<noteq> [] \<longrightarrow> pd_first_id q \<noteq> None) \<and>
      (2 \<le> length (pd_ids q) \<longrightarrow> pd_est_bytes q \<le> target_for (sc_policy cfg) (pr_emitted p)))"

definition item_fits :: "item \<Rightarrow> bool" where
  "item_fits it \<longleftrightarrow>
     tb_ids (it_batch it) \<noteq> [] \<and> it_est_bytes it \<le> max_batch_bytes \<and>
     (2 \<le> length (tb_ids (it_batch it)) \<longrightarrow> it_est_bytes it \<le> it_target_bytes it)"

definition settled :: "stream_cfg \<Rightarrow> run_result \<Rightarrow> bool" where
  "settled cfg r \<longleftrightarrow>
     (case r of (res, p) \<Rightarrow>
        (\<forall>it\<in>set (pr_items p). item_fits it) \<and> (\<forall>e. res = Inl (StEngine e) \<longrightarrow> \<not> ceiling e) \<and>
        (res = Inr () \<longrightarrow> fits cfg p))"

lemma settled_then:
  "settled cfg r \<Longrightarrow> (\<And>p. fits cfg p \<Longrightarrow> (\<forall>it\<in>set (pr_items p). item_fits it) \<Longrightarrow> settled cfg (k p)) \<Longrightarrow>
     settled cfg (then_ok r k)"
  by (cases r rule: prod.exhaust) (auto simp: settled_def then_ok_def split: sum.splits)

lemma fits_new: "pr_pending p = pending_new n e \<Longrightarrow> fits cfg p"
  by (simp add: fits_def pending_new_def Let_def estimate_bytes_def)

lemma fits_fields:
  "pr_pending p' = pr_pending p \<Longrightarrow> pr_emitted p' = pr_emitted p \<Longrightarrow> fits cfg p \<Longrightarrow> fits cfg p'"
  by (simp add: fits_def)

lemma fits_close_run: "fits cfg p \<Longrightarrow> fits cfg (close_run cols row p)"
  by (auto simp: fits_def close_run_def push_attr_run_def Let_def)

text \<open>A batch about to be flushed: one row, or at most its target.\<close>

definition flushable :: "nat \<Rightarrow> pending \<Rightarrow> bool" where
  "flushable t q \<longleftrightarrow> pd_ids q \<noteq> [] \<and> pd_first_id q \<noteq> None \<and> (2 \<le> length (pd_ids q) \<longrightarrow> pd_est_bytes q \<le> t)"

lemma flush_settled:
  assumes t: "t \<le> max_batch_bytes" and q: "flushable t (pr_pending p)" and its: "\<forall>it\<in>set (pr_items p). item_fits it"
  shows "settled cfg (flush cfg w t c p)"
proof (cases "build_batch cfg (pr_pending p)")
  case (Inl e)
  have "\<not> ceiling e"
  proof (cases "pd_est_bytes (pr_pending p) > max_batch_bytes")
    case True
    then have "\<not> 2 \<le> length (pd_ids (pr_pending p))" using q t by (auto simp: flushable_def)
    then obtain i j where "pd_ids (pr_pending p) = [i]" "pd_first_id (pr_pending p) = Some j"
      using q by (cases "pd_ids (pr_pending p)") (auto simp: flushable_def Suc_le_eq)
    then show ?thesis using Inl True by (auto simp: build_batch_def)
  qed (use Inl in \<open>auto simp: build_batch_def bind_ok_Inl dest: no_ceiling\<close>)
  then show ?thesis using Inl its by (simp add: flush_def settled_def Let_def)
next
  case (Inr batch)
  then have small: "pd_est_bytes (pr_pending p) \<le> max_batch_bytes"
    by (auto simp: build_batch_def split: if_splits list.splits option.splits)
  with Inr have "tb_ids batch = pd_ids (pr_pending p)"
    by (auto simp: build_batch_def assemble_def bind_ok_def split: sum.splits if_splits)
  then show ?thesis using Inr its small q
    by (auto simp: flush_def settled_def Let_def note_poll_def item_fits_def flushable_def intro!: fits_new)
qed

lemma flush_next_settled:
  assumes t: "t \<le> max_batch_bytes" and q: "flushable t (pr_pending p)" and its: "\<forall>it\<in>set (pr_items p). item_fits it"
  shows "settled cfg (flush_next cfg w t c p)"
proof -
  have new: "pr_pending p1 = pending_new (length (pd_attrs (pr_pending p))) (sc_encoding cfg)" if "flush cfg w t c p = (Inr u, p1)" for u p1
    using that by (auto simp: flush_def Let_def note_poll_def split: sum.splits if_splits)
  from flush_settled [OF t q its, of cfg w c] new show ?thesis
    by (cases "flush cfg w t c p") (auto simp: flush_next_def then_ok_def settled_def intro: fits_new split: sum.splits)
qed

section \<open>The loops\<close>

lemma estimate_step:
  assumes "v' - v \<le> m" "v \<le> v'"
  shows "estimate_bytes (Suc n) v' + (a + b) \<le> estimate_bytes n v + a + (estimate_bytes 1 m + b)"
  using assms by (simp add: estimate_bytes_def)

lemma place_row_settled:
  assumes bp: "targets_ok (sc_policy cfg)" and f: "fits cfg p" and its: "\<forall>it\<in>set (pr_items p). item_fits it"
    and t: "t \<le> max_batch_bytes"
    and room: "pd_ids (pr_pending p) \<noteq> [] \<Longrightarrow> t = target_for (sc_policy cfg) (pr_emitted p) \<and>
      pd_est_bytes (pr_pending p) + (estimate_bytes 1 (length wkb div 16) + attr_row_bytes cols row) \<le> t"
  shows "settled cfg (place_row cfg w cols t (row, i) wkb p)"
proof -
  obtain rg b where g: "gb_push_wkb (pd_builder (pr_pending p)) wkb = (rg, b)" by fastforce
  show ?thesis
  proof (cases rg)
    case (Inl e)
    then show ?thesis using g its by (simp add: place_row_def settled_def)
  next
    case (Inr u)
    define q where "q = push_row i (attr_row_bytes cols row) b (pr_pending p)"
    have g': "gb_push_wkb (pd_builder (pr_pending p)) wkb = (Inr (), b)" using g Inr by simp
    have q: "pd_first_id q \<noteq> None" "pd_ids q \<noteq> []" "pd_attr_bytes q = pd_attr_bytes (pr_pending p) + attr_row_bytes cols row"
      "pd_est_bytes q = estimate_bytes (length (pd_ids q)) (gb_vertices (pd_builder q)) + pd_attr_bytes q"
      "length (pd_ids q) = Suc (length (pd_ids (pr_pending p)))"
      by (auto simp: q_def push_row_def split: option.splits)
    have est: "pd_est_bytes q \<le> t \<and> t = target_for (sc_policy cfg) (pr_emitted p)" if "2 \<le> length (pd_ids q)"
    proof -
      have ne: "pd_ids (pr_pending p) \<noteq> []" using that q(5) by auto
      have "pd_est_bytes q \<le> pd_est_bytes (pr_pending p) + (estimate_bytes 1 (length wkb div 16) + attr_row_bytes cols row)"
        using estimate_step [of "gb_vertices b" "gb_vertices (pd_builder (pr_pending p))" "length wkb div 16"]
          gb_push_vertices [OF g'] f q(3-5) by (simp add: fits_def Let_def q_def push_row_def)
      then show ?thesis using room [OF ne] by simp
    qed
    obtain br p2 where b2: "budget_check cfg w (p\<lparr>pr_pending := q\<rparr>) = (br, p2)" by fastforce
    have p2: "pr_pending p2 = q" "pr_emitted p2 = pr_emitted p" "pr_items p2 = pr_items p"
      using b2 by (auto simp: budget_check_def budget_expired_def split: if_splits option.splits)
    have fit2: "fits cfg p2" using q(1,4) est p2 by (auto simp: fits_def Let_def)
    have fl: "flushable t (pr_pending (close_run cols (row + 1) p2))" using q est p2
      by (auto simp: flushable_def close_run_def push_attr_run_def)
    have "settled cfg (flush_next cfg w t c (close_run cols (row + 1) p2))" for c
      by (rule flush_next_settled [OF t fl]) (simp add: its close_run_def p2)
    then show ?thesis
      using g' b2 its p2(3) fit2
      by (auto simp: place_row_def q_def [symmetric] settled_def split: option.splits)
  qed
qed

lemma row_step_settled:
  assumes bp: "targets_ok (sc_policy cfg)" and f: "fits cfg p" and its: "\<forall>it\<in>set (pr_items p). item_fits it"
  shows "settled cfg (row_step cfg w cols geoms ri p)"
proof -
  obtain row i where ri: "ri = (row, i)" by fastforce
  have fp: "fits cfg (note_poll p)" "\<forall>it\<in>set (pr_items (note_poll p)). item_fits it"
    using f its by (simp_all add: note_poll_def fits_def)
  define t where "t = target_for (sc_policy cfg) (pr_emitted p)"
  have t: "t \<le> max_batch_bytes" unfolding t_def by (rule target_for_le [OF bp])
  have em: "pr_emitted (note_poll p) = pr_emitted p" by (simp add: note_poll_def)
  show ?thesis
  proof (cases "wd_cancelled w (pr_polls p) \<or> (\<exists>e. binary_value (sc_show_dt cfg) geoms row = Inl e)")
    case True
    then show ?thesis using fp by (auto simp: row_step_def ri settled_def dest: no_ceiling)
  next
    case False
    then obtain wkb where wkb: "binary_value (sc_show_dt cfg) geoms row = Inr wkb"
      by (cases "binary_value (sc_show_dt cfg) geoms row") auto
    let ?big = "pd_ids (pr_pending (note_poll p)) \<noteq> [] \<and>
      t < pd_est_bytes (pr_pending (note_poll p)) + (estimate_bytes 1 (length wkb div 16) + attr_row_bytes cols row)"
    have step: "row_step cfg w cols geoms ri p =
        then_ok (if ?big then flush_next cfg w t SizeTarget (close_run cols row (note_poll p)) else (Inr (), note_poll p))
          (place_row cfg w cols t (row, i) wkb)"
      using False wkb by (simp add: row_step_def ri Let_def t_def em)
    show ?thesis
    proof (cases ?big)
      case True
      have fl: "flushable t (pr_pending (close_run cols row (note_poll p)))"
        using True fp(1) em by (auto simp: flushable_def fits_def Let_def t_def close_run_def push_attr_run_def)
      have s: "settled cfg (flush_next cfg w t SizeTarget (close_run cols row (note_poll p)))"
        by (rule flush_next_settled [OF t fl]) (simp add: close_run_def fp(2))
      have empty: "pd_ids (pr_pending p1) = []" if "flush_next cfg w t SizeTarget (close_run cols row (note_poll p)) = (Inr u, p1)" for u p1
        using that by (auto simp: flush_next_def then_ok_def flush_def Let_def note_poll_def pending_new_def split: sum.splits if_splits)
      show ?thesis
      proof (cases "flush_next cfg w t SizeTarget (close_run cols row (note_poll p))")
        case (Pair r p1)
        then show ?thesis
          using s True empty place_row_settled [OF bp, of p1 t] t unfolding step
          by (cases r) (auto simp: then_ok_def settled_def)
      qed
    next
      case False
      then show ?thesis unfolding step
        using place_row_settled [OF bp fp t, of wkb cols row w i] em by (auto simp: then_ok_def t_def)
    qed
  qed
qed

lemma row_loop_settled:
  assumes bp: "targets_ok (sc_policy cfg)"
  shows "fits cfg p \<Longrightarrow> \<forall>it\<in>set (pr_items p). item_fits it \<Longrightarrow> settled cfg (row_loop cfg w cols geoms ris p)"
  by (induction ris arbitrary: p) (auto simp: settled_def [of _ "(Inr (), _)"] intro!: settled_then row_step_settled [OF bp])

lemma chunk_end_settled:
  assumes bp: "targets_ok (sc_policy cfg)" and f: "fits cfg p" and its: "\<forall>it\<in>set (pr_items p). item_fits it"
  shows "settled cfg (chunk_end cfg w p)"
proof -
  obtain ex p1 where b: "budget_expired w p = (ex, p1)" by fastforce
  have p1: "pr_pending p1 = pr_pending p" "pr_emitted p1 = pr_emitted p" "pr_items p1 = pr_items p"
    using b by (auto simp: budget_expired_def split: option.splits)
  have "settled cfg (flush_next cfg w (target_for (sc_policy cfg) (pr_emitted p1)) TimeBudget p1)" if "pd_ids (pr_pending p) \<noteq> []"
    using that f p1 its by (intro flush_next_settled target_for_le [OF bp]) (auto simp: flushable_def fits_def Let_def)
  then show ?thesis using f its p1 fits_fields [of p1 p] b
    by (auto simp: chunk_end_def settled_def split: prod.splits bool.splits)
qed

lemma chunk_step_settled:
  assumes bp: "targets_ok (sc_policy cfg)" and f: "fits cfg p" and its: "\<forall>it\<in>set (pr_items p). item_fits it"
  shows "settled cfg (chunk_step cfg w ch p)"
proof -
  define q where "q = (if pr_first_row_at p = None \<and> rc_rows ch > 0
      then p\<lparr>pr_first_row_at := Some (wd_now w (pr_reads p)), pr_reads := pr_reads p + 1\<rparr> else p)"
  have q: "fits cfg (q\<lparr>pr_run_start := 0\<rparr>)" "\<forall>it\<in>set (pr_items q). item_fits it"
    using f its by (auto simp: q_def fits_def)
  show ?thesis
  proof (cases "chunk_columns cfg ch")
    case (Inl e)
    then show ?thesis using q by (auto simp: chunk_step_def q_def [symmetric] Let_def settled_def dest: no_ceiling)
  next
    case (Inr cc)
    obtain ids geoms cols where "cc = (ids, geoms, cols)" by (cases cc) auto
    then show ?thesis using Inr q
      by (auto simp: chunk_step_def q_def [symmetric] Let_def
          intro!: settled_then row_loop_settled [OF bp] chunk_end_settled [OF bp] fits_close_run)
  qed
qed

lemma produce_loop_settled:
  assumes bp: "targets_ok (sc_policy cfg)"
  shows "fits cfg p \<Longrightarrow> \<forall>it\<in>set (pr_items p). item_fits it \<Longrightarrow> settled cfg (produce_loop cfg w fs p)"
proof (induction fs arbitrary: p)
  case Nil
  have "settled cfg (flush cfg w (target_for (sc_policy cfg) (pr_emitted p)) StreamEnd (note_poll p))"
    if "pd_ids (pr_pending p) \<noteq> []"
    using that Nil by (intro flush_settled target_for_le [OF bp]) (auto simp: flushable_def fits_def Let_def note_poll_def)
  then show ?case using Nil by (auto simp: settled_def note_poll_def fits_def)
next
  case (Cons f fs)
  have p: "fits cfg (note_poll p)" "\<forall>it\<in>set (pr_items (note_poll p)). item_fits it"
    using Cons.prems by (simp_all add: note_poll_def fits_def)
  have c: "settled cfg (then_ok (chunk_step cfg w ch (note_poll p)) (produce_loop cfg w fs))" for ch
    by (intro settled_then chunk_step_settled [OF bp] p Cons.IH)
  show ?case using p c by (auto simp: settled_def [of _ "(Inl _, _)"] classify_no_ceiling note_poll_def split: fetch.splits)
qed

section \<open>Properties\<close>

text \<open>
  C16: Batches keep their size. For every query, every world and each of the three policies (any policy whose floor and
  target are within the ceiling): every batch sent has at least one row and is estimated within \<open>MAX_BATCH_BYTES\<close>; a batch
  of two or more rows is within the target it was cut at; and the producer never ends with \<open>CeilingExceeded\<close>, a single
  feature that is too large being reported as that feature.
\<close>
theorem batches_keep_their_size:
  assumes "targets_ok (sc_policy cfg)"
  shows "case produce cfg w prepared executed of (res, p) \<Rightarrow>
    (\<forall>it\<in>set (pr_items p). tb_ids (it_batch it) \<noteq> [] \<and> it_est_bytes it \<le> max_batch_bytes \<and>
       (2 \<le> length (tb_ids (it_batch it)) \<longrightarrow> it_est_bytes it \<le> it_target_bytes it)) \<and>
    (\<forall>m a b. res \<noteq> Inl (StEngine (EngCeilingExceeded m a b)))"
proof -
  have new: "fits cfg ((producer_new cfg)\<lparr>pr_polls := k\<rparr>)" "pr_items ((producer_new cfg)\<lparr>pr_polls := k\<rparr>) = []" for k
    by (auto simp: producer_new_def intro: fits_new)
  have "settled cfg (produce cfg w prepared executed)"
    using new [of "Suc 0"] new(1) new(2) produce_loop_settled [OF assms new(1)]
    by (auto simp: produce_def Let_def settled_def [of _ "(Inl _, _)"] classify_no_ceiling note_poll_def producer_new_def
        split: option.splits guarded.splits prod.splits)
  then show ?thesis by (auto simp: settled_def item_fits_def split: prod.splits)
qed

end
