(* ===== verification/Stream_Props.thy ===== *)
theory Stream_Props
  imports Stream_Whole Stream_Bounds "HOL-Library.Code_Target_Nat"
begin

text \<open>
  The properties of a stream as a whole: its batches are the reference's, they hold every row once and in order, and what
  the consumer draws from the channel is what the producer sent.
\<close>

section \<open>The reference loses nothing\<close>

lemma cut_before_inv: "cut_inv cfg rs st \<Longrightarrow> cut_inv cfg rs (cut_before cfg t r st)"
  by (cases st) (auto simp: cut_inv_def cut_before_def)

lemma cut_place_inv: "cut_inv cfg rs st \<Longrightarrow> cut_inv cfg (rs @ [r]) (cut_place cfg t r st)"
  by (cases st) (auto simp: cut_inv_def cut_place_def cut_reason_def)

lemma cut_step_inv: "cut_inv cfg rs st \<Longrightarrow> cut_inv cfg (rs @ [r]) (cut_step cfg st r)"
  by (simp add: cut_step_def Let_def cut_before_inv cut_place_inv)

lemma cut_steps_inv: "cut_inv cfg rs st \<Longrightarrow> cut_inv cfg (rs @ qs) (foldl (cut_step cfg) st qs)"
proof (induction qs arbitrary: rs st)
  case (Cons q qs)
  from Cons.IH [OF cut_step_inv [OF Cons.prems]] show ?case by simp
qed simp

lemma cut_rows_lossless:
  assumes "0 < bp_max_rows (sc_policy cfg)"
  shows "concat (map fst (cut_rows cfg rs)) = rs \<and>
    (\<forall>b\<in>set (cut_rows cfg rs). fst b \<noteq> [] \<and> length (fst b) \<le> bp_max_rows (sc_policy cfg))"
proof -
  have "cut_inv cfg [] ([], [])" using assms by (simp add: cut_inv_def)
  from cut_steps_inv [OF this, of rs] show ?thesis
    by (auto simp: cut_rows_def cut_end_def cut_inv_def split: prod.splits)
qed

section \<open>Identifiers\<close>

text \<open>The identifiers a fetch brings.\<close>

definition fetched_ids :: "stream_cfg \<Rightarrow> fetch \<Rightarrow> u64 list" where
  "fetched_ids cfg f =
     (case f of
        Fetched ch \<Rightarrow> (case column_u64 (sc_show_dt cfg) ch id_column of Inr ids \<Rightarrow> ids | Inl _ \<Rightarrow> [])
      | FetchPanicked _ \<Rightarrow> [])"

lemma rows_of_ids: "map sr_id (rows_of cfg geoms cols (zip [0..<length ids] ids)) = ids"
proof -
  have "map sr_id (rows_of cfg geoms cols ris) = map snd ris" for ris by (induction ris) (auto simp: rows_of_def)
  then show ?thesis by simp
qed

definition is_fetched :: "fetch \<Rightarrow> bool" where
  "is_fetched f = (case f of Fetched _ \<Rightarrow> True | FetchPanicked _ \<Rightarrow> False)"

lemma produce_loop_reads_all:
  "produce_loop cfg w fs p = (Inr (), p') \<Longrightarrow> list_all fetch_ok fs \<Longrightarrow>
     list_all is_fetched fs \<and> map sr_id (fetched_rows cfg fs) = concat (map (fetched_ids cfg) fs)"
proof (induction fs arbitrary: p)
  case (Cons f fs)
  then obtain ch where ch: "f = Fetched ch" by (cases f) (auto split: if_splits)
  from Cons.prems(1) obtain p1 p2 where c: "chunk_step cfg w ch p1 = (Inr (), p2)" and l: "produce_loop cfg w fs p2 = (Inr (), p')"
    by (auto simp: ch then_ok_case split: if_splits)
  from c obtain ids geoms cols where cc: "chunk_columns cfg ch = Inr (ids, geoms, cols)"
    by (auto simp: chunk_step_def Let_def split: sum.splits)
  then have ids: "column_u64 (sc_show_dt cfg) ch id_column = Inr ids"
    by (auto simp: chunk_columns_def split: option.splits)
  have "chunk_rows ch ids = zip [0..<length ids] ids"
    using chunk_rows_all [OF ids] Cons.prems(2) by (simp add: ch fetch_ok_def)
  then show ?case using Cons.IH [OF l] Cons.prems(2) cc ids
    by (simp add: ch fetched_ids_def is_fetched_def rows_of_ids)
qed simp

lemma sent_ids: "sent_as cfg bs its \<Longrightarrow> map (\<lambda>it. tb_ids (it_batch it)) its = map (\<lambda>b. map sr_id (fst b)) bs"
  by (rule nth_equalityI) (auto simp: sent_as_def is_batch_def case_prod_beta)

lemma produce_none:
  assumes "produce cfg w None (Inr fetches) = (res, p)"
  shows "(\<exists>e. res = Inl e \<and> pr_items p = []) \<or>
    (\<exists>k. produce_loop cfg w fetches ((producer_new cfg)\<lparr>pr_polls := k\<rparr>) = (res, p))"
  using assms by (auto simp: produce_def Let_def note_poll_def producer_new_def execute_guarded_def split: if_splits)

lemma produce_sim:
  assumes "arrays_ok (sc_arrays cfg)" "bp_cut (sc_policy cfg) = SizeOnly" "list_all fetch_ok fetches"
    and "produce cfg w None (Inr fetches) = (res, p)"
  shows "sent_start cfg (cut_rows cfg (fetched_rows cfg fetches)) (pr_items p) \<and>
    (res = Inr () \<longrightarrow> sent_as cfg (cut_rows cfg (fetched_rows cfg fetches)) (pr_items p))"
  using produce_none [OF assms(4)]
proof
  assume "\<exists>e. res = Inl e \<and> pr_items p = []"
  then show ?thesis by (auto simp: sent_start_def)
next
  assume "\<exists>k. produce_loop cfg w fetches ((producer_new cfg)\<lparr>pr_polls := k\<rparr>) = (res, p)"
  then obtain k where l: "produce_loop cfg w fetches ((producer_new cfg)\<lparr>pr_polls := k\<rparr>) = (res, p)" by blast
  have "idle cfg ([], []) ((producer_new cfg)\<lparr>pr_polls := k\<rparr>)"
    using sim_new [of cfg "[]" k] by (simp add: idle_def producer_new_def)
  from produce_loop_sim [OF assms(1,2) this assms(3) l] show ?thesis by (simp add: cut_rows_def Let_def)
qed

text \<open>Under any policy: what a producer that returns normally has sent splits the rows.\<close>

lemma produce_splits:
  assumes "arrays_ok (sc_arrays cfg)" "0 < bp_max_rows (sc_policy cfg)" "list_all fetch_ok fetches"
    and "produce cfg w None (Inr fetches) = (Inr (), p)"
  shows "list_all is_fetched fetches \<and> map sr_id (fetched_rows cfg fetches) = concat (map (fetched_ids cfg) fetches) \<and>
    (\<exists>bs. sent_as cfg bs (pr_items p) \<and> concat (map fst bs) = fetched_rows cfg fetches)"
proof -
  obtain k where l: "produce_loop cfg w fetches ((producer_new cfg)\<lparr>pr_polls := k\<rparr>) = (Inr (), p)"
    using produce_none [OF assms(4)] by auto
  from produce_loop_split [OF assms(1) split_idle_new [OF assms(2)] assms(3) l]
  show ?thesis using produce_loop_reads_all [OF l assms(3)] by auto
qed

lemma map_take_prefix: "map f (take n xs) = take n (map f xs)"
  by (simp add: take_map)

section \<open>No row is lost\<close>

text \<open>
  No row is lost, repeated or moved. The identifiers of the batches a stream has sent, one after the other, are the
  first of those the result brought, in its order, and all of them when the producer returns normally; no batch is empty
  or has more rows than the policy allows.
\<close>
theorem stream_sends_every_row_in_order:
  assumes "arrays_ok (sc_arrays cfg)" "bp_cut (sc_policy cfg) = SizeOnly" "0 < bp_max_rows (sc_policy cfg)"
    and "list_all fetch_ok fetches" "produce cfg w None (Inr fetches) = (res, p)"
  shows "(\<exists>unsent. map sr_id (fetched_rows cfg fetches) = concat (map (\<lambda>it. tb_ids (it_batch it)) (pr_items p)) @ unsent) \<and>
    (\<forall>it\<in>set (pr_items p). 0 < length (tb_ids (it_batch it)) \<and> length (tb_ids (it_batch it)) \<le> bp_max_rows (sc_policy cfg)) \<and>
    (res = Inr () \<longrightarrow> concat (map (\<lambda>it. tb_ids (it_batch it)) (pr_items p)) = concat (map (fetched_ids cfg) fetches))"
proof -
  define bs where "bs = cut_rows cfg (fetched_rows cfg fetches)"
  define n where "n = length (pr_items p)"
  have sim: "sent_as cfg (take n bs) (pr_items p)" "res = Inr () \<Longrightarrow> sent_as cfg bs (pr_items p)"
    using produce_sim [OF assms(1,2,4,5)] by (simp_all add: bs_def n_def sent_start_def)
  have lossless: "concat (map fst bs) = fetched_rows cfg fetches"
    "\<forall>b\<in>set bs. fst b \<noteq> [] \<and> length (fst b) \<le> bp_max_rows (sc_policy cfg)"
    using cut_rows_lossless [OF assms(3)] by (simp_all add: bs_def)
  have all: "map sr_id (concat (map fst xs)) = concat (map (\<lambda>b. map sr_id (fst b)) xs)" for xs :: "cut_batch list"
    by (induction xs) auto
  have "map sr_id (fetched_rows cfg fetches) = concat (map (\<lambda>it. tb_ids (it_batch it)) (pr_items p)) @
      concat (map (\<lambda>b. map sr_id (fst b)) (drop n bs))"
    unfolding sent_ids [OF sim(1)] lossless(1) [symmetric] all
    by (metis append_take_drop_id concat_append map_append)
  moreover have "0 < length (tb_ids (it_batch it)) \<and> length (tb_ids (it_batch it)) \<le> bp_max_rows (sc_policy cfg)"
    if "it \<in> set (pr_items p)" for it
  proof -
    have "tb_ids (it_batch it) \<in> set (map (\<lambda>b. map sr_id (fst b)) (take n bs))"
      unfolding sent_ids [OF sim(1), symmetric] using that by simp
    then obtain b where "b \<in> set bs" "tb_ids (it_batch it) = map sr_id (fst b)" by (auto dest: in_set_takeD)
    then show ?thesis using lossless(2) by simp
  qed
  moreover have "concat (map (\<lambda>it. tb_ids (it_batch it)) (pr_items p)) = concat (map (fetched_ids cfg) fetches)" if ok: "res = Inr ()"
  proof -
    obtain k where "produce_loop cfg w fetches ((producer_new cfg)\<lparr>pr_polls := k\<rparr>) = (Inr (), p)"
      using produce_none [OF assms(5)] ok by auto
    from produce_loop_reads_all [OF this assms(4)] show ?thesis
      unfolding sent_ids [OF sim(2) [OF ok]] by (metis all lossless(1))
  qed
  ultimately show ?thesis by blast
qed

section \<open>To the end of the channel\<close>

text \<open>What the channel of a stream holds after its items: the last error, if any, then the end.\<close>

definition channel_of :: "item list \<Rightarrow> stream_error option \<Rightarrow> received list" where
  "channel_of its last_error =
     map RItem its @ (case last_error of Some e \<Rightarrow> [RError e] | None \<Rightarrow> []) @ [RDisconnected]"

text \<open>A consumer that calls \<open>next_into\<close> until it answers \<open>None\<close>.\<close>

fun drain ::
    "(tagged_batch \<Rightarrow> engine_error option \<times> byte list) \<Rightarrow> batch_stream \<Rightarrow> received list \<Rightarrow> byte list
       \<Rightarrow> (stream_error + batch_info) list \<times> batch_stream \<times> byte list" where
  "drain ipc s [] out = ([], s, out)"
| "drain ipc s (r # rs) out =
     (case next_into ipc s r out of
        (None, s, out) \<Rightarrow> ([], s, out)
      | (Some x, s, out) \<Rightarrow> (case drain ipc s rs out of (xs, s, out) \<Rightarrow> (x # xs, s, out)))"

lemma drain_finished: "bs_finished s \<Longrightarrow> drain ipc s rs out = ([], s, out)"
  by (cases rs) (simp_all add: next_into_def)

text \<open>Drawn without an error: every item was written, nothing came after the items, and their bytes are the output.\<close>

lemma drain_silent:
  "drain ipc s (channel_of its last_error) out = (xs, s', out') \<Longrightarrow> \<not> bs_finished s \<Longrightarrow> list_all (Not \<circ> isl) xs \<Longrightarrow>
     last_error = None \<and> out' = out @ concat (map (\<lambda>it. snd (ipc (it_batch it))) its) \<and>
     bs_resident s' = bs_resident s - sum_list (map (\<lambda>it. int (it_est_bytes it)) its) \<and> bs_finished s' \<and>
     map bi_rows (map projr xs) = map (\<lambda>it. length (tb_ids (it_batch it))) its"
proof (induction its arbitrary: s out xs s' out')
  case Nil
  then show ?case
    by (cases last_error) (auto simp: channel_of_def next_into_def drain_finished)
next
  case (Cons it its)
  obtain err bytes where ipc: "ipc (it_batch it) = (err, bytes)" by fastforce
  show ?case
  proof (cases err)
    case (Some e)
    then show ?thesis using Cons.prems ipc
      by (auto simp: channel_of_def next_into_def absorb_def Let_def drain_finished)
  next
    case None
    let ?s = "s\<lparr>bs_resident := bs_resident s - int (it_est_bytes it)\<rparr>"
    obtain ys t o2 where d: "drain ipc ?s (channel_of its last_error) (out @ bytes) = (ys, t, o2)"
      using prod_cases3 by blast
    have x: "\<exists>x. xs = Inr x # ys \<and> bi_rows x = length (tb_ids (it_batch it)) \<and> s' = t \<and> out' = o2"
      using Cons.prems(1,2) ipc None d by (auto simp: channel_of_def next_into_def absorb_def Let_def)
    then have "list_all (Not \<circ> isl) ys" using Cons.prems(3) by (auto simp: list_all_iff)
    from Cons.IH [OF d _ this] Cons.prems(2) x ipc show ?thesis by auto
  qed
qed

section \<open>Properties\<close>

text \<open>
  C15: Under the size-only policies, the published one among them, the batches of a stream are a function of the rows. At
  whatever row DuckDB ends a chunk, whenever the flag is read as set, the clock is read or the consumer leaves, what the
  producer has sent is the beginning of the batches the reference cuts from the rows: the same rows in each, their
  attribute cells, the geometry array of exactly those rows, the size, the number, the target and the reason of the cut.
  When it returns normally it has sent all of them. (Arrow's concatenation, copy and cast keep cells; the columns of a
  chunk have one cell per row.)
\<close>
theorem batches_are_cut_from_the_rows:
  assumes "arrays_ok (sc_arrays cfg)" "bp_cut (sc_policy cfg) = SizeOnly" "list_all fetch_ok fetches"
    and "produce cfg w None (Inr fetches) = (res, p)"
  shows "sent_start cfg (cut_rows cfg (fetched_rows cfg fetches)) (pr_items p) \<and>
    (res = Inr () \<longrightarrow> sent_as cfg (cut_rows cfg (fetched_rows cfg fetches)) (pr_items p))"
  by (rule produce_sim [OF assms])

text \<open>
  C14: A stream that ends without an error is complete, under every batch policy, the time-budgeted one included. A
  consumer that draws batches until there are no more, and is handed no error on the way, has been handed the bytes of
  batches that split the rows of the result: put one after the other they hold every row once and in order, each batch
  with the identifiers, the geometry array and the attribute cells of its rows, and the identifiers are those of all
  chunks the query yielded. No fetch panicked, the source was unchanged when it was checked after the last row, and the
  resident count is back where it was. Every other end of the modelled producer, a cancel, a refused row, a panic of
  the fetch, a source that changed, is an error the consumer sees. (A panic of the producer thread anywhere but in
  the fetch is outside the model: the source does not catch it, and its channel closes without an error.)
\<close>
theorem silent_end_is_complete:
  assumes "arrays_ok (sc_arrays cfg)" "0 < bp_max_rows (sc_policy cfg)"
    and "list_all fetch_ok fetches" and run: "produce cfg w None (Inr fetches) = (res, p)"
    and drained: "drain ipc s (channel_of (pr_items p) (te_last (end_thread res post))) out = (xs, s', out')"
    and quiet: "\<not> bs_finished s" "list_all (Not \<circ> isl) xs"
  shows "post = Inr () \<and> list_all is_fetched fetches \<and>
    (\<exists>(its :: item list) bs. sent_as cfg bs its \<and> concat (map fst bs) = fetched_rows cfg fetches \<and>
       map sr_id (fetched_rows cfg fetches) = concat (map (fetched_ids cfg) fetches) \<and>
       out' = out @ concat (map (\<lambda>it. snd (ipc (it_batch it))) its) \<and>
       map bi_rows (map projr xs) = map (\<lambda>it. length (tb_ids (it_batch it))) its \<and>
       bs_resident s' = bs_resident s - sum_list (map (\<lambda>it. int (it_est_bytes it)) its))"
proof -
  note d = drain_silent [OF drained quiet]
  then have "res = Inr ()" "post = Inr ()" by (auto simp: end_thread_def split: sum.splits)
  moreover from this produce_splits [OF assms(1-3)] run obtain bs where
    "list_all is_fetched fetches" "sent_as cfg bs (pr_items p)" "concat (map fst bs) = fetched_rows cfg fetches"
    "map sr_id (fetched_rows cfg fetches) = concat (map (fetched_ids cfg) fetches)" by blast
  ultimately show ?thesis using d by blast
qed

section \<open>An example\<close>

definition ex_arrays :: array_lib where
  "ex_arrays =
     \<lparr>ar_cast = \<lambda>c dt. Inr (c\<lparr>co_type := dt\<rparr>),
      ar_concat = \<lambda>rs. if rs = [] then Inl ''empty'' else Inr \<lparr>co_type = co_type (hd rs), co_cells = concat (map co_cells rs)\<rparr>,
      ar_data = \<lambda>_. ArrayData 1 False [], ar_buffer_memory = \<lambda>c. 8 * length (co_cells c),
      ar_slice_memory = \<lambda>c. Inr (8 * length (co_cells c)), ar_copy = \<lambda>c. c, ar_record_batch = \<lambda>_ _ _. Inr ()\<rparr>"

definition ex_cfg :: "batch_size_policy \<Rightarrow> stream_cfg" where
  "ex_cfg bp =
     \<lparr>sc_lib = ex_lib, sc_arrays = ex_arrays, sc_show_ty = \<lambda>_. [], sc_show_dt = \<lambda>_. [], sc_geometry_column = ''geometry'',
      sc_attributes = [\<lparr>fd_name = ''n'', fd_type = DInt64, fd_nullable = True, fd_metadata = Map.empty\<rparr>],
      sc_encoding = GePoint, sc_policy = bp, sc_report_bounds = False, sc_compact = False\<rparr>"

definition ex_point :: "byte list" where
  "ex_point = 1 # u32_to_le 1 @ u64_to_le 0 @ u64_to_le 0x3FF0000000000000"

definition ex_chunk :: "u64 list \<Rightarrow> result_chunk" where
  "ex_chunk ids =
     \<lparr>rc_rows = length ids,
      rc_column = \<lambda>name.
        if name = ''id'' then Some \<lparr>co_type = DUInt64, co_cells = map (\<lambda>i. Num (uint i)) ids\<rparr>
        else if name = ''geometry'' then Some \<lparr>co_type = DOther ''Binary'', co_cells = map (\<lambda>_. Bytes ex_point) ids\<rparr>
        else if name = ''n'' then Some \<lparr>co_type = DInt64, co_cells = map (\<lambda>_. Null) ids\<rparr>
        else None\<rparr>"

definition ex_world :: world where
  "ex_world = \<lparr>wd_cancelled = \<lambda>_. False, wd_now = \<lambda>k. k, wd_sends = \<lambda>_. True\<rparr>"

definition ex_fetches :: "fetch list" where
  "ex_fetches = [Fetched (ex_chunk [7, 9]), Fetched (ex_chunk [4])]"

lemma ex_arrays_ok: "arrays_ok (sc_arrays (ex_cfg bp))"
  by (auto simp: arrays_ok_def ex_cfg_def ex_arrays_def)

lemma ex_fetches_ok: "list_all fetch_ok ex_fetches"
  by (auto simp: ex_fetches_def fetch_ok_def chunk_ok_def ex_chunk_def)

lemma ex_produce:
  "fst (produce (ex_cfg publish_policy) ex_world None (Inr ex_fetches)) = Inr () \<and>
   map (\<lambda>it. tb_ids (it_batch it)) (pr_items (snd (produce (ex_cfg publish_policy) ex_world None (Inr ex_fetches)))) = [[7, 9, 4]]"
  by code_simp

theorem batches_are_cut_from_the_rows_witness:
  "\<exists>p. produce (ex_cfg publish_policy) ex_world None (Inr ex_fetches) = (Inr (), p) \<and>
     sent_as (ex_cfg publish_policy) (cut_rows (ex_cfg publish_policy) (fetched_rows (ex_cfg publish_policy) ex_fetches)) (pr_items p)"
proof -
  obtain p where p: "produce (ex_cfg publish_policy) ex_world None (Inr ex_fetches) = (Inr (), p)"
    using ex_produce by (metis prod.collapse)
  have "bp_cut (sc_policy (ex_cfg publish_policy)) = SizeOnly" by (simp add: ex_cfg_def publish_policy_def)
  then show ?thesis using batches_are_cut_from_the_rows [OF ex_arrays_ok _ ex_fetches_ok p] p by blast
qed

theorem stream_sends_every_row_in_order_witness:
  "concat (map (\<lambda>it. tb_ids (it_batch it))
     (pr_items (snd (produce (ex_cfg publish_policy) ex_world None (Inr ex_fetches))))) = [7, 9, 4]"
proof -
  obtain p where p: "produce (ex_cfg publish_policy) ex_world None (Inr ex_fetches) = (Inr (), p)"
    using ex_produce by (metis prod.collapse)
  have "bp_cut (sc_policy (ex_cfg publish_policy)) = SizeOnly" "0 < bp_max_rows (sc_policy (ex_cfg publish_policy))"
    by (simp_all add: ex_cfg_def publish_policy_def publish_partition_rows_def)
  from stream_sends_every_row_in_order [OF ex_arrays_ok this ex_fetches_ok p] p
  show ?thesis by (simp add: ex_fetches_def fetched_ids_def column_u64_def ex_chunk_def id_column_def co_null_count_def
      cell_u64_def)
qed

theorem batches_keep_their_size_witness:
  "list_all (\<lambda>it. it_est_bytes it \<le> max_batch_bytes)
     (pr_items (snd (produce (ex_cfg time_budgeted_policy) ex_world None (Inr ex_fetches))))"
proof -
  have "targets_ok (sc_policy (ex_cfg time_budgeted_policy))" using policies_targets_ok by (simp add: ex_cfg_def)
  from batches_keep_their_size [OF this, of ex_world None "Inr ex_fetches"] show ?thesis
    by (auto simp: list_all_iff split: prod.splits)
qed

definition ex_ipc :: "tagged_batch \<Rightarrow> engine_error option \<times> byte list" where
  "ex_ipc b = (None, map (\<lambda>i. word_of_int (uint i)) (tb_ids b))"

text \<open>The time-budgeted policy, on a clock that passes the budget between two chunks.\<close>

definition ex_slow_world :: world where
  "ex_slow_world = \<lparr>wd_cancelled = \<lambda>_. False, wd_now = \<lambda>k. k * 8000000, wd_sends = \<lambda>_. True\<rparr>"

definition ex_drained :: "(stream_error + batch_info) list \<times> batch_stream \<times> byte list" where
  "ex_drained =
     (case produce (ex_cfg time_budgeted_policy) ex_slow_world None (Inr ex_fetches) of
        (res, p) \<Rightarrow> drain ex_ipc \<lparr>bs_finished = False, bs_resident = 0\<rparr>
                      (channel_of (pr_items p) (te_last (end_thread res (Inr ())))) [])"

lemma ex_drained_quiet: "list_all (Not \<circ> isl) (fst ex_drained)"
  by code_simp

lemma ex_drained_cuts: "map (bi_cut_by \<circ> projr) (fst ex_drained) = [TimeBudget, StreamEnd]"
  by code_simp

theorem silent_end_is_complete_witness:
  "\<exists>its :: item list. \<exists>bs. sent_as (ex_cfg time_budgeted_policy) bs its \<and> map sr_id (concat (map fst bs)) = [7, 9, 4] \<and>
     map bi_rows (map projr (fst ex_drained)) = map (\<lambda>it. length (tb_ids (it_batch it))) its \<and>
     snd (snd ex_drained) = concat (map (\<lambda>it. snd (ex_ipc (it_batch it))) its)"
proof -
  obtain res p where p: "produce (ex_cfg time_budgeted_policy) ex_slow_world None (Inr ex_fetches) = (res, p)" by fastforce
  obtain xs s' out' where d: "drain ex_ipc \<lparr>bs_finished = False, bs_resident = 0\<rparr>
      (channel_of (pr_items p) (te_last (end_thread res (Inr ())))) [] = (xs, s', out')" using prod_cases3 by blast
  have pol: "0 < bp_max_rows (sc_policy (ex_cfg time_budgeted_policy))"
    by (simp add: ex_cfg_def time_budgeted_policy_def default_policy_def max_rows_per_batch_def)
  have x: "ex_drained = (xs, s', out')" using p d by (simp add: ex_drained_def)
  have "list_all (Not \<circ> isl) xs" using ex_drained_quiet unfolding x fst_conv by blast
  from silent_end_is_complete [OF ex_arrays_ok pol ex_fetches_ok p d _ this] obtain its bs where
    *: "sent_as (ex_cfg time_budgeted_policy) bs its"
       "map sr_id (concat (map fst bs)) = concat (map (fetched_ids (ex_cfg time_budgeted_policy)) ex_fetches)"
       "out' = concat (map (\<lambda>it. snd (ex_ipc (it_batch it))) its)"
       "map bi_rows (map projr xs) = map (\<lambda>it. length (tb_ids (it_batch it))) its" by auto
  have "concat (map (fetched_ids (ex_cfg time_budgeted_policy)) ex_fetches) = [7, 9, 4]"
    by (simp add: ex_fetches_def fetched_ids_def column_u64_def ex_chunk_def id_column_def co_null_count_def cell_u64_def)
  then have "map sr_id (concat (map fst bs)) = [7, 9, 4]" using *(2) by simp
  then show ?thesis using *(1,3,4) unfolding x fst_conv snd_conv
    by (intro exI [of _ its] exI [of _ bs] conjI)
qed

end
