(* ===== verification/Json_Read.thy ===== *)
theory Json_Read
  imports Canonical_Proofs Serde
begin

text \<open>
  How \<open>serde_json\<close> reads: \<open>Value::as_f64\<close>, and what it is relied on to return for a text the canonical writer wrote.
  \<open>reads v w\<close> says that \<open>w\<close> is a reading of the value \<open>v\<close>: the same strings, integers and members, in whatever order
  the map keeps them. A double is read as some finite double: \<open>serde_json\<close> promises no more without its
  \<open>float_roundtrip\<close> feature, which the build does not enable.
\<close>

section \<open>Numbers\<close>

definition as_f64 :: "json \<Rightarrow> f64 option" where
  "as_f64 v =
     (case v of
        JUInt n \<Rightarrow> Some (nearest_f64 False (int n) 1)
      | JInt i \<Rightarrow> Some (nearest_f64 (i < 0) \<bar>i\<bar> 1)
      | JDouble d \<Rightarrow> Some d
      | _ \<Rightarrow> None)"

definition is_number :: "json \<Rightarrow> bool" where
  "is_number v \<longleftrightarrow> as_f64 v \<noteq> None"

section \<open>Readings\<close>

definition read_int :: "int \<Rightarrow> json" where
  "read_int i = (if 0 \<le> i then JUInt (nat i) else JInt i)"

fun reads :: "json \<Rightarrow> json \<Rightarrow> bool"
and reads_items :: "json list \<Rightarrow> json list \<Rightarrow> bool"
and reads_members :: "(string \<times> json) list \<Rightarrow> (string \<times> json) list \<Rightarrow> bool" where
  "reads JNull w = (w = JNull)"
| "reads (JBool b) w = (w = JBool b)"
| "reads (JInt i) w = (w = read_int i)"
| "reads (JUInt n) w = (w = JUInt n)"
| "reads (JDouble d) w = (case w of JDouble e \<Rightarrow> f64_is_finite e | _ \<Rightarrow> False)"
| "reads (JStr s) w = (w = JStr s)"
| "reads (JArr vs) w = (case w of JArr ws \<Rightarrow> reads_items vs ws | _ \<Rightarrow> False)"
| "reads (JObj ms) w =
     (case w of
        JObj ns \<Rightarrow> distinct (map fst ns) \<and> set (map fst ns) = set (map fst ms) \<and> reads_members ms ns
      | _ \<Rightarrow> False)"
| "reads_items [] ws = (ws = [])"
| "reads_items (v # vs) ws = (case ws of [] \<Rightarrow> False | w # ws \<Rightarrow> reads v w \<and> reads_items vs ws)"
| "reads_members [] ns = True"
| "reads_members ((k, v) # ms) ns =
     ((case map_of ns k of None \<Rightarrow> False | Some w \<Rightarrow> reads v w) \<and> reads_members ms ns)"

lemma reads_items_list_all2: "reads_items vs ws \<longleftrightarrow> list_all2 reads vs ws"
  by (induction vs arbitrary: ws) (auto split: list.splits)

lemma reads_membersD: "reads_members ms ns \<Longrightarrow> (k, v) \<in> set ms \<Longrightarrow> \<exists>w. map_of ns k = Some w \<and> reads v w"
  by (induction ms) (auto split: option.splits)

lemma reads_JObjD:
  assumes "reads (JObj ms) w"
  obtains ns where "w = JObj ns" "distinct (map fst ns)" "set (map fst ns) = set (map fst ms)"
    "\<And>k v. (k, v) \<in> set ms \<Longrightarrow> \<exists>u. map_of ns k = Some u \<and> reads v u"
proof -
  from assms obtain ns where w: "w = JObj ns" "distinct (map fst ns)" "set (map fst ns) = set (map fst ms)"
    "reads_members ms ns"
    by (auto split: json.splits)
  then show thesis using reads_membersD [OF w(4)] by (intro that) blast+
qed

lemma reads_JArrD: "reads (JArr vs) w \<Longrightarrow> \<exists>ws. w = JArr ws \<and> list_all2 reads vs ws"
  by (auto split: json.splits simp: reads_items_list_all2)

lemma reads_jget: "reads (JObj ms) w \<Longrightarrow> map_of ms k = Some v \<Longrightarrow> \<exists>u. jget w k = Some u \<and> reads v u"
  by (erule reads_JObjD) (auto simp: jget_def dest: map_of_SomeD)

text \<open>Members are only looked up by name, and names are compared as a set: the order of a map never matters.\<close>

lemma reads_jget_None: "reads (JObj ms) w \<Longrightarrow> map_of ms k = None \<Longrightarrow> jget w k = None"
  by (erule reads_JObjD) (auto simp: jget_def map_of_eq_None_iff)

end
