(* ===== verification/Geo_Meta.thy ===== *)
theory Geo_Meta
  imports Json_Read Stream_Query Normalize
begin

text \<open>
  \<open>engine/src/crs.rs\<close> and \<open>engine/src/geoparquet.rs\<close>: the CRS of a dataset, how it is admitted, and the \<open>geo\<close> metadata
  of a GeoParquet file with the format's own rules. The parser of \<open>serde_json\<close> and its \<open>Display\<close> are arguments. The two
  \<open>debug_assert\<close>s are lemmas about the call sites (theory \<open>Dataset_Proofs\<close>).
\<close>

section \<open>crs.rs\<close>

definition max_crs_definition_bytes :: nat where "max_crs_definition_bytes = 65536"

record crs_assertion =
  as_identifier :: string
  as_definition_json :: "string option"
  as_by :: string
  as_at :: string
  as_definition_provenance :: string

definition validate_assertion_shape :: "crs_assertion \<Rightarrow> engine_error + unit" where
  "validate_assertion_shape a =
     (if trim (as_identifier a) = [] then Inl EngCrsAssertionIdentifierBlank
      else case as_definition_json a of
        None \<Rightarrow> Inr ()
      | Some d \<Rightarrow>
          if max_crs_definition_bytes < length d
          then Inl (EngCrsAssertionDefinitionTooLarge max_crs_definition_bytes (length d))
          else Inr ())"

datatype crs_source = CrsFile | CrsCallerAsserted | CrsFormatRule

definition crs_source_as_str :: "crs_source \<Rightarrow> string" where
  "crs_source_as_str s =
     (case s of CrsFile \<Rightarrow> ''file'' | CrsCallerAsserted \<Rightarrow> ''caller_asserted'' | CrsFormatRule \<Rightarrow> ''format-rule'')"

datatype axis_order = EastingNorthing | NorthingEasting | LongitudeLatitude | LatitudeLongitude

definition axis_order_as_str :: "axis_order \<Rightarrow> string" where
  "axis_order_as_str a =
     (case a of
        EastingNorthing \<Rightarrow> ''easting,northing''
      | NorthingEasting \<Rightarrow> ''northing,easting''
      | LongitudeLatitude \<Rightarrow> ''longitude,latitude''
      | LatitudeLongitude \<Rightarrow> ''latitude,longitude'')"

definition is_x_first :: "axis_order \<Rightarrow> bool" where
  "is_x_first a \<longleftrightarrow> a = EastingNorthing \<or> a = LongitudeLatitude"

record dataset_crs =
  dc_identifier :: string
  dc_definition_json :: "string option"
  dc_source :: crs_source
  dc_asserted_by :: "string option"
  dc_asserted_at :: "string option"
  dc_definition_provenance :: "string option"
  dc_axis_order :: axis_order

definition recorded_as_format_rule :: "dataset_crs \<Rightarrow> dataset_crs" where
  "recorded_as_format_rule c = c\<lparr>dc_source := CrsFormatRule\<rparr>"

definition crs_from_file :: "string \<Rightarrow> string option \<Rightarrow> axis_order \<Rightarrow> dataset_crs" where
  "crs_from_file identifier definition_json axis =
     \<lparr>dc_identifier = identifier, dc_definition_json = definition_json, dc_source = CrsFile, dc_asserted_by = None,
      dc_asserted_at = None, dc_definition_provenance = None, dc_axis_order = axis\<rparr>"

definition crs_from_assertion :: "crs_assertion \<Rightarrow> axis_order \<Rightarrow> dataset_crs" where
  "crs_from_assertion a axis =
     \<lparr>dc_identifier = as_identifier a, dc_definition_json = as_definition_json a, dc_source = CrsCallerAsserted,
      dc_asserted_by = Some (as_by a), dc_asserted_at = Some (as_at a),
      dc_definition_provenance = Some (as_definition_provenance a), dc_axis_order = axis\<rparr>"

type_synonym declared_crs = "string \<times> string option \<times> axis_order"

definition crs_admit ::
    "declared_crs option \<Rightarrow> crs_assertion option \<Rightarrow> axis_order option \<Rightarrow> engine_error + dataset_crs" where
  "crs_admit declared asserted asserted_axis_order =
     (case (declared, asserted) of
        (Some (ident, def, axis), None) \<Rightarrow> Inr (crs_from_file ident def axis)
      | (Some (ident, _, _), Some a) \<Rightarrow> Inl (EngCrsAssertionConflict ident (as_identifier a))
      | (None, Some a) \<Rightarrow>
          bind_ok (ok_or (EngAxisOrderUnestablished
            (''the caller'' @ [CHR 0x27] @ ''s assertion carries no coordinate system to establish axis order from'')) asserted_axis_order)
            (\<lambda>axis. Inr (crs_from_assertion a axis))
      | (None, None) \<Rightarrow> Inl (EngCrsUndeclared ''no `geo` metadata CRS on the primary geometry column''))"

section \<open>geoparquet.rs: vocabulary\<close>

definition pinned_spec_versions :: "string list" where "pinned_spec_versions = [''1.0.0'', ''1.1.0'']"
definition pinned_rule_record :: string where "pinned_rule_record = ''engine/ADMISSION-PREREGISTRATION.md#appendix-a''"
definition format_default_crs :: string where "format_default_crs = ''OGC:CRS84''"
definition rule_crs_absent_default :: string where "rule_crs_absent_default = ''crs-absent-default''"
definition rule_coordinate_axis_order :: string where "rule_coordinate_axis_order = ''coordinate-axis-order''"
definition sanity_sample_max_rows :: nat where "sanity_sample_max_rows = 8192"

text \<open>\<open>180.0\<close> and \<open>90.0\<close>.\<close>

definition crs84_max_abs_x :: f64 where "crs84_max_abs_x = 0x4066800000000000"
definition crs84_max_abs_y :: f64 where "crs84_max_abs_y = 0x4056800000000000"

datatype crs_provenance = ProvDeclared | ProvAsserted | ProvFormatDefault

definition crs_provenance_as_str :: "crs_provenance \<Rightarrow> string" where
  "crs_provenance_as_str p =
     (case p of
        ProvDeclared \<Rightarrow> ''crs:declared'' | ProvAsserted \<Rightarrow> ''crs:asserted'' | ProvFormatDefault \<Rightarrow> ''crs:format-default'')"

datatype axis_provenance = AxisDeclared | AxisFormatOverride

definition axis_provenance_as_str :: "axis_provenance \<Rightarrow> string" where
  "axis_provenance_as_str p =
     (case p of AxisDeclared \<Rightarrow> ''axis:declared'' | AxisFormatOverride \<Rightarrow> ''axis:format-override'')"

datatype sanity_level = SanityMetadata | SanitySample | SanityNotChecked

definition sanity_level_as_str :: "sanity_level \<Rightarrow> string" where
  "sanity_level_as_str s =
     (case s of SanityMetadata \<Rightarrow> ''metadata'' | SanitySample \<Rightarrow> ''sample'' | SanityNotChecked \<Rightarrow> ''none'')"

datatype coordinate_unit = UnitDegree | UnitMetre | UnitNamed string | UnitUnestablished

definition coordinate_unit_as_str :: "coordinate_unit \<Rightarrow> string" where
  "coordinate_unit_as_str u =
     (case u of
        UnitDegree \<Rightarrow> ''degree'' | UnitMetre \<Rightarrow> ''metre'' | UnitNamed n \<Rightarrow> n | UnitUnestablished \<Rightarrow> ''unestablished'')"

definition max_unit_name_bytes :: nat where "max_unit_name_bytes = 128"

text \<open>\<open>while end > 0 && !name.is_char_boundary(end) { end -= 1; }\<close>\<close>

fun back_to_boundary :: "string \<Rightarrow> nat \<Rightarrow> nat" where
  "back_to_boundary s 0 = 0"
| "back_to_boundary s (Suc e) = (if is_char_boundary s (Suc e) then Suc e else back_to_boundary s e)"

definition cap_unit_name :: "string \<Rightarrow> string" where
  "cap_unit_name name =
     (if length name \<le> max_unit_name_bytes then name
      else take (back_to_boundary name max_unit_name_bytes) name @
           '' (truncated at the declared '' @ show_nat max_unit_name_bytes @ ''-byte ceiling)'')"

definition unit_from_name :: "string \<Rightarrow> coordinate_unit" where
  "unit_from_name name =
     (if name = ''degree'' then UnitDegree
      else if name = ''metre'' then UnitMetre
      else UnitNamed (cap_unit_name name))"

datatype coordinate_unit_source = UnitDefinition | UnitFormatRule

definition coordinate_unit_source_as_str :: "coordinate_unit_source \<Rightarrow> string" where
  "coordinate_unit_source_as_str u =
     (case u of UnitDefinition \<Rightarrow> ''unit:definition'' | UnitFormatRule \<Rightarrow> ''unit:format-rule'')"

datatype crs_key_state = KeyDeclared | KeyExplicitNull | KeyAbsent

record format_semantics =
  fs_admissible_crs :: "declared_crs option"
  fs_crs_provenance :: "crs_provenance option"
  fs_axis_provenance :: "axis_provenance option"
  fs_declared_axis_order :: "axis_order option"
  fs_format_rule_reference :: "string option"
  fs_undeclared_detail :: "string option"

definition no_semantics :: format_semantics where
  "no_semantics = \<lparr>fs_admissible_crs = None, fs_crs_provenance = None, fs_axis_provenance = None,
     fs_declared_axis_order = None, fs_format_rule_reference = None, fs_undeclared_detail = None\<rparr>"

record admission_record =
  ar_crs_provenance :: crs_provenance
  ar_axis_provenance :: axis_provenance
  ar_declared_axis_order :: "axis_order option"
  ar_format_rule_reference :: "string option"
  ar_coordinate_unit :: coordinate_unit
  ar_coordinate_unit_source :: "coordinate_unit_source option"
  ar_sanity_level :: sanity_level
  ar_sanity_reason :: string

type_synonym bbox4 = "f64 \<times> f64 \<times> f64 \<times> f64"

record geo_meta =
  gm_version :: string
  gm_primary_column :: string
  gm_encoding :: string
  gm_geometry_types :: "string list option"
  gm_declared_crs :: "declared_crs option"
  gm_covering :: "covering_bbox option"
  gm_crs_key :: crs_key_state
  gm_bbox :: "bbox4 option"

text \<open>\<open>serde_json::from_str::<Value>\<close> and \<open>Value\<close>'s \<open>Display\<close>.\<close>

record json_lib =
  jl_from_str :: "string \<Rightarrow> string + json"
  jl_show :: "json \<Rightarrow> string"

section \<open>PROJJSON\<close>

definition identifier_from_projjson :: "json_lib \<Rightarrow> json \<Rightarrow> string" where
  "identifier_from_projjson jl crs =
     (let ident = jget crs ''id''
      in case (Option.bind (Option.bind ident (\<lambda>i. jget i ''authority'')) as_str,
               Option.bind ident (\<lambda>i. jget i ''code'')) of
           (Some auth, Some code) \<Rightarrow>
             (case code of
                JStr s \<Rightarrow> auth @ '':'' @ s
              | _ \<Rightarrow> if is_number code then auth @ '':'' @ jl_show jl code else definition_only)
         | _ \<Rightarrow> definition_only)"

definition projjson_axes :: "json \<Rightarrow> json list option" where
  "projjson_axes crs = Option.bind (jget crs ''coordinate_system'') (\<lambda>cs. get_array cs ''axis'')"

definition axis_text :: "json \<Rightarrow> string \<Rightarrow> string" where
  "axis_text axis k = map to_ascii_lower (unwrap_or (get_str axis k) [])"

definition axis_order_from_projjson :: "json \<Rightarrow> engine_error + axis_order" where
  "axis_order_from_projjson crs =
     (case projjson_axes crs of
        None \<Rightarrow> Inl (EngAxisOrderUnestablished ''PROJJSON carries no `coordinate_system.axis`'')
      | Some axes \<Rightarrow>
          if length axes < 2
          then Inl (EngAxisOrderUnestablished (''PROJJSON declares '' @ show_nat (length axes) @ '' axis/axes''))
          else
            let dir = (\<lambda>i. axis_text (axes ! i) ''direction'');
                name = (\<lambda>i. axis_text (axes ! i) ''name'');
                geographic = contains_sub (name 0) ''longitude'' \<or> contains_sub (name 0) ''latitude'' \<or>
                             contains_sub (name 1) ''longitude'' \<or> contains_sub (name 1) ''latitude''
            in if dir 0 = ''east'' \<and> dir 1 = ''north''
                 then Inr (if geographic then LongitudeLatitude else EastingNorthing)
               else if dir 0 = ''north'' \<and> dir 1 = ''east''
                 then Inr (if geographic then LatitudeLongitude else NorthingEasting)
               else Inl (EngAxisOrderUnestablished
                 (''axis directions ('' @ dir 0 @ '', '' @ dir 1 @ '') are not a planar east/north pair'')))"

definition axis_unit_name :: "json \<Rightarrow> string option" where
  "axis_unit_name axis =
     (case jget axis ''unit'' of
        None \<Rightarrow> None
      | Some u \<Rightarrow> (case u of JStr name \<Rightarrow> Some name | JObj _ \<Rightarrow> get_str u ''name'' | _ \<Rightarrow> None))"

definition coordinate_unit_from_projjson :: "json \<Rightarrow> coordinate_unit" where
  "coordinate_unit_from_projjson crs =
     (case projjson_axes crs of
        None \<Rightarrow> UnitUnestablished
      | Some axes \<Rightarrow>
          if length axes < 2 then UnitUnestablished
          else (case (axis_unit_name (axes ! 0), axis_unit_name (axes ! 1)) of
                  (Some x, Some y) \<Rightarrow> if x = y then unit_from_name x else UnitUnestablished
                | _ \<Rightarrow> UnitUnestablished))"

definition coordinate_unit_from_definition ::
    "json_lib \<Rightarrow> string option \<Rightarrow> coordinate_unit \<times> coordinate_unit_source option" where
  "coordinate_unit_from_definition jl definition_json =
     (case definition_json of
        None \<Rightarrow> (UnitUnestablished, None)
      | Some txt \<Rightarrow>
          (case jl_from_str jl txt of
             Inl _ \<Rightarrow> (UnitUnestablished, Some UnitDefinition)
           | Inr v \<Rightarrow> (coordinate_unit_from_projjson v, Some UnitDefinition)))"

definition coordinate_unit_for_admission ::
    "json_lib \<Rightarrow> crs_provenance \<Rightarrow> string option \<Rightarrow> coordinate_unit \<times> coordinate_unit_source option" where
  "coordinate_unit_for_admission jl prov definition_json =
     (case prov of
        ProvFormatDefault \<Rightarrow> (UnitDegree, Some UnitFormatRule)
      | _ \<Rightarrow> coordinate_unit_from_definition jl definition_json)"

section \<open>The \<open>geo\<close> metadata\<close>

definition parse_bbox_member :: "json \<Rightarrow> bbox4 option" where
  "parse_bbox_member bbox =
     (case as_array bbox of
        None \<Rightarrow> None
      | Some arr \<Rightarrow>
          let n = List.map_filter as_f64 arr
          in if length arr = 4 \<and> length n = 4 then Some (n ! 0, n ! 1, n ! 2, n ! 3)
             else if length arr = 6 \<and> length n = 6 then Some (n ! 0, n ! 1, n ! 3, n ! 4)
             else None)"

definition covering_path :: "json \<Rightarrow> string \<Rightarrow> engine_error + field_path" where
  "covering_path bbox k =
     (case get_array bbox k of
        None \<Rightarrow> Inl (EngGeoMetadata (''`covering.bbox.'' @ k @ ''` missing''))
      | Some arr \<Rightarrow>
          let segs = List.map_filter as_str arr
          in if segs = [] \<or> length segs \<noteq> length arr
             then Inl (EngGeoMetadata (''`covering.bbox.'' @ k @ ''` is not a path of strings''))
             else Inr segs)"

definition parse_covering :: "json \<Rightarrow> engine_error + covering_bbox" where
  "parse_covering bbox =
     bind_ok (covering_path bbox ''xmin'') (\<lambda>x0.
     bind_ok (covering_path bbox ''ymin'') (\<lambda>y0.
     bind_ok (covering_path bbox ''xmax'') (\<lambda>x1.
     bind_ok (covering_path bbox ''ymax'') (\<lambda>y1.
       Inr \<lparr>cv_xmin = x0, cv_ymin = y0, cv_xmax = x1, cv_ymax = y1\<rparr>))))"

fun type_names :: "nat \<Rightarrow> json list \<Rightarrow> engine_error + string list" where
  "type_names i [] = Inr []"
| "type_names i (m # ms) =
     (case as_str m of
        None \<Rightarrow> Inl (EngGeoMetadata (''[P6 placeholder] `geo.columns.*.geometry_types` member '' @ show_nat i @
                                     '' is not a string''))
      | Some name \<Rightarrow> bind_ok (type_names (Suc i) ms) (\<lambda>names. Inr (name # names)))"

definition parse_geometry_types :: "json \<Rightarrow> engine_error + string list option" where
  "parse_geometry_types col =
     (case jget col ''geometry_types'' of
        None \<Rightarrow> Inr None
      | Some v \<Rightarrow>
          (case v of
             JArr members \<Rightarrow> bind_ok (type_names 0 members) (\<lambda>names. Inr (Some names))
           | _ \<Rightarrow> Inl (EngGeoMetadata ''[P6 placeholder] `geo.columns.*.geometry_types` is not a list'')))"

definition parse_declared_crs :: "json_lib \<Rightarrow> json \<Rightarrow> engine_error + declared_crs option \<times> crs_key_state" where
  "parse_declared_crs jl col =
     (case jget col ''crs'' of
        None \<Rightarrow> Inr (None, KeyAbsent)
      | Some crs \<Rightarrow>
          (case crs of
             JObj _ \<Rightarrow>
               bind_ok (axis_order_from_projjson crs) (\<lambda>axis.
                 Inr (Some (identifier_from_projjson jl crs, Some (jl_show jl crs), axis), KeyDeclared))
           | _ \<Rightarrow> Inr (None, KeyExplicitNull)))"

definition geo_meta_parse :: "json_lib \<Rightarrow> string \<Rightarrow> engine_error + geo_meta" where
  "geo_meta_parse jl json_text =
     bind_ok (map_err (\<lambda>e. EngGeoMetadata (''`geo` is not JSON: '' @ e)) (jl_from_str jl json_text)) (\<lambda>root.
     bind_ok (ok_or (EngGeoMetadata ''`geo.version` missing'') (get_str root ''version'')) (\<lambda>version.
     bind_ok (ok_or (EngGeoMetadata ''`geo.primary_column` missing'') (get_str root ''primary_column'')) (\<lambda>primary.
     bind_ok (ok_or (EngGeoMetadata (''`geo.columns.'' @ primary @
                ''` missing, but it is named as the primary column''))
                (Option.bind (jget root ''columns'') (\<lambda>c. jget c primary))) (\<lambda>col.
     bind_ok (ok_or (EngGeoMetadata ''`geo.columns.*.encoding` missing'') (get_str col ''encoding'')) (\<lambda>encoding.
     bind_ok (parse_geometry_types col) (\<lambda>geometry_types.
     bind_ok (parse_declared_crs jl col) (\<lambda>(declared, key).
     bind_ok (case Option.bind (jget col ''covering'') (\<lambda>c. jget c ''bbox'') of
                None \<Rightarrow> Inr None
              | Some b \<Rightarrow> bind_ok (parse_covering b) (\<lambda>c. Inr (Some c))) (\<lambda>covering.
       Inr \<lparr>gm_version = version, gm_primary_column = primary, gm_encoding = encoding,
            gm_geometry_types = geometry_types, gm_declared_crs = declared, gm_covering = covering,
            gm_crs_key = key, gm_bbox = Option.bind (jget col ''bbox'') parse_bbox_member\<rparr>))))))))"

section \<open>The format's rules\<close>

definition data_order_under_wkb_rule :: "axis_order \<Rightarrow> axis_order" where
  "data_order_under_wkb_rule declared =
     (case declared of
        NorthingEasting \<Rightarrow> EastingNorthing
      | LatitudeLongitude \<Rightarrow> LongitudeLatitude
      | _ \<Rightarrow> declared)"

definition format_semantics_of :: "geo_meta \<Rightarrow> format_semantics" where
  "format_semantics_of geo =
     (let pinned = gm_version geo \<in> set pinned_spec_versions;
          reference = (\<lambda>rule. Some (''geoparquet:'' @ gm_version geo @ ''#'' @ rule))
      in case gm_crs_key geo of
           KeyDeclared \<Rightarrow>
             (case gm_declared_crs geo of
                None \<Rightarrow> no_semantics
              | Some (ident, def, declared_axis) \<Rightarrow>
                  if is_x_first declared_axis then
                    no_semantics\<lparr>fs_admissible_crs := Some (ident, def, declared_axis),
                      fs_crs_provenance := Some ProvDeclared, fs_axis_provenance := Some AxisDeclared,
                      fs_declared_axis_order := Some declared_axis\<rparr>
                  else if pinned then
                    no_semantics\<lparr>fs_admissible_crs := Some (ident, def, data_order_under_wkb_rule declared_axis),
                      fs_crs_provenance := Some ProvDeclared, fs_axis_provenance := Some AxisFormatOverride,
                      fs_declared_axis_order := Some declared_axis,
                      fs_format_rule_reference := reference rule_coordinate_axis_order\<rparr>
                  else
                    no_semantics\<lparr>fs_admissible_crs := Some (ident, def, declared_axis),
                      fs_crs_provenance := Some ProvDeclared, fs_axis_provenance := Some AxisDeclared,
                      fs_declared_axis_order := Some declared_axis\<rparr>)
         | KeyExplicitNull \<Rightarrow> no_semantics
         | KeyAbsent \<Rightarrow>
             if pinned then
               no_semantics\<lparr>fs_admissible_crs := Some (format_default_crs, None, LongitudeLatitude),
                 fs_crs_provenance := Some ProvFormatDefault, fs_axis_provenance := Some AxisFormatOverride,
                 fs_format_rule_reference := reference rule_crs_absent_default\<rparr>
             else
               no_semantics\<lparr>fs_undeclared_detail :=
                 Some (''the `crs` key is absent and `geo.version` is '' @ gm_version geo @
                       '', whose text is not pinned in this tree ('' @ pinned_rule_record @
                       ''); no format rule is taken from a specification version this tree has not read'')\<rparr>)"

definition f64_abs :: "f64 \<Rightarrow> f64" where
  "f64_abs x = f64_mag x"

definition inside_crs84_domain :: "bbox4 \<Rightarrow> bool" where
  "inside_crs84_domain b =
     (case b of (x0, y0, x1, y1) \<Rightarrow>
        f64_le (f64_abs x0) crs84_max_abs_x \<and> f64_le (f64_abs x1) crs84_max_abs_x \<and>
        f64_le (f64_abs y0) crs84_max_abs_y \<and> f64_le (f64_abs y1) crs84_max_abs_y)"

end
