(* ===== verification/Source_Identity.thy ===== *)
theory Source_Identity
  imports Geo_Meta
begin

text \<open>
  \<open>engine/src/descriptor.rs\<close> and \<open>engine/src/identity.rs\<close>: the cheap description of a source by which a change is
  detected, and how the features of a dataset are identified. What the file system answers and SHA-256 are arguments.
\<close>

section \<open>descriptor.rs\<close>

definition footer_descriptor_max_bytes :: nat where "footer_descriptor_max_bytes = 8 * 1024 * 1024"
definition parquet_tail_bytes :: nat where "parquet_tail_bytes = 8"
definition parquet_magic :: "byte list" where "parquet_magic = str_bytes ''PAR1''"

definition absent_modification_time_degradation :: string where
  "absent_modification_time_degradation =
     ''the filesystem reported no modification time for this file, so change detection for this '' @
     ''source is byte size, footer length and footer hash only''"

record source_descriptor =
  sd_byte_size :: nat
  sd_modified_nanos :: "nat option"
  sd_footer_length :: nat
  sd_footer_hash :: "string option"
  sd_footer_bytes_read :: nat
  sd_degradations :: "string list"

text \<open>
  The operating system's answers to the calls of \<open>SourceDescriptor::of\<close>, an error as its text. \<open>di_read\<close> answers a
  \<open>read_exact\<close> of a number of bytes at an offset.
\<close>

record descriptor_io =
  di_metadata :: "string + file_metadata"
  di_open :: "string + unit"
  di_seek_tail :: "string + unit"
  di_tail :: "string + byte list"
  di_seek_footer :: "nat \<Rightarrow> string + unit"
  di_read :: "nat \<Rightarrow> nat \<Rightarrow> string + byte list"

definition modified_nanos_of :: "file_metadata \<Rightarrow> nat option" where
  "modified_nanos_of md = (case fm_modified md of Some (Some t) \<Rightarrow> (if 0 \<le> t then Some (nat t) else None) | _ \<Rightarrow> None)"

definition footer_over_ceiling :: "nat \<Rightarrow> string" where
  "footer_over_ceiling n =
     ''the footer is '' @ show_nat n @ '' bytes, over the declared ceiling of '' @
     show_nat footer_descriptor_max_bytes @ '' bytes, so it was not read or hashed. Change '' @
     ''detection for this source is size, modification time and footer length only''"

definition source_error :: "string \<Rightarrow> string + 'a \<Rightarrow> engine_error + 'a" where
  "source_error what r = map_err (\<lambda>e. EngSource (what @ '': '' @ e)) r"

definition descriptor_of ::
    "(byte list \<Rightarrow> byte list) \<Rightarrow> descriptor_io \<Rightarrow> string \<Rightarrow> engine_error + source_descriptor" where
  "descriptor_of sha256 io path_display =
     bind_ok (source_error ''descriptor metadata'' (di_metadata io)) (\<lambda>md.
       let byte_size = fm_len md;
           modified = modified_nanos_of md;
           degradations = (if modified = None then [absent_modification_time_degradation] else [])
       in
     bind_ok (source_error ''descriptor open'' (di_open io)) (\<lambda>_.
       if byte_size < parquet_tail_bytes
       then Inl (EngSource (path_display @ '' is '' @ show_nat byte_size @
                            '' bytes, too short to carry a parquet footer''))
       else
     bind_ok (source_error ''descriptor seek'' (di_seek_tail io)) (\<lambda>_.
     bind_ok (source_error ''descriptor tail'' (di_tail io)) (\<lambda>tail.
       if drop 4 tail \<noteq> parquet_magic
       then Inl (EngSource (path_display @ '' does not end with the parquet magic bytes''))
       else
         let footer_length = le_nat (take 4 tail)
         in if footer_descriptor_max_bytes < footer_length
            then Inr \<lparr>sd_byte_size = byte_size, sd_modified_nanos = modified, sd_footer_length = footer_length,
                      sd_footer_hash = None, sd_footer_bytes_read = 0,
                      sd_degradations = degradations @ [footer_over_ceiling footer_length]\<rparr>
            else if byte_size < parquet_tail_bytes + footer_length
            then Inl (EngSource (path_display @ '' declares a '' @ show_nat footer_length @ ''-byte footer in a '' @
                                 show_nat byte_size @ ''-byte file''))
            else
              let footer_start = byte_size - (parquet_tail_bytes + footer_length)
              in
     bind_ok (source_error ''descriptor footer seek'' (di_seek_footer io footer_start)) (\<lambda>_.
     bind_ok (source_error ''descriptor footer'' (di_read io footer_start footer_length)) (\<lambda>footer.
       Inr \<lparr>sd_byte_size = byte_size, sd_modified_nanos = modified, sd_footer_length = footer_length,
            sd_footer_hash = Some (hex_bytes (sha256 footer)), sd_footer_bytes_read = footer_length,
            sd_degradations = degradations\<rparr>))))))"

definition descriptor_degradation :: "source_descriptor \<Rightarrow> string option" where
  "descriptor_degradation d =
     (if sd_degradations d = [] then None else Some (join_with ''; '' (sd_degradations d)))"

definition unestablished_components :: "source_descriptor \<Rightarrow> string list" where
  "unestablished_components d =
     (if sd_modified_nanos d = None then [''mtime''] else []) @
     (if sd_footer_hash d = None then [''footer-hash''] else [])"

record source_observation =
  so_byte_size :: nat
  so_modified_nanos :: "nat option"
  so_footer_length :: nat
  so_footer_hash :: "string option"

definition observation :: "source_descriptor \<Rightarrow> source_observation" where
  "observation d =
     \<lparr>so_byte_size = sd_byte_size d, so_modified_nanos = sd_modified_nanos d, so_footer_length = sd_footer_length d,
      so_footer_hash = sd_footer_hash d\<rparr>"

text \<open>\<open>Components\<close> has the four fields of an observation; the two types are one here.\<close>

definition differing_components :: "source_observation \<Rightarrow> source_observation \<Rightarrow> string list" where
  "differing_components opened now =
     (if so_byte_size opened \<noteq> so_byte_size now then [''size''] else []) @
     (case (so_modified_nanos opened, so_modified_nanos now) of
        (Some a, Some b) \<Rightarrow> if a \<noteq> b then [''mtime''] else []
      | (None, None) \<Rightarrow> []
      | _ \<Rightarrow> [''mtime'']) @
     (if so_footer_length opened \<noteq> so_footer_length now then [''footer-length''] else []) @
     (case (so_footer_hash opened, so_footer_hash now) of
        (Some a, Some b) \<Rightarrow> if a \<noteq> b then [''footer-hash''] else []
      | _ \<Rightarrow> [])"

definition observation_differs :: "source_observation \<Rightarrow> source_descriptor \<Rightarrow> string list" where
  "observation_differs ob now = differing_components ob (observation now)"

definition components_differing_from :: "source_descriptor \<Rightarrow> source_descriptor \<Rightarrow> string list" where
  "components_differing_from d now = differing_components (observation d) (observation now)"

definition refuse_if_changed :: "source_descriptor \<Rightarrow> source_descriptor \<Rightarrow> engine_error + unit" where
  "refuse_if_changed d now =
     (let differing = components_differing_from d now
      in if differing = [] then Inr ()
         else Inl (EngSourceChanged (''{'' @ join_with '', '' differing @ ''}'')))"

definition refuse_if_changed_or_unreadable ::
    "(byte list \<Rightarrow> byte list) \<Rightarrow> descriptor_io \<Rightarrow> string \<Rightarrow> source_descriptor \<Rightarrow> engine_error + unit" where
  "refuse_if_changed_or_unreadable sha256 io path_display d =
     (case descriptor_of sha256 io path_display of
        Inr now \<Rightarrow> refuse_if_changed d now
      | Inl e \<Rightarrow> Inl (EngSourceChanged (''{the source could not be re-read: '' @ engine_error_display e @ ''}'')))"

section \<open>identity.rs\<close>

definition file_row_number_column :: string where "file_row_number_column = ''file_row_number''"

definition as_envelope_value :: "id_source \<Rightarrow> string" where
  "as_envelope_value s =
     (case s of
        IdFile \<Rightarrow> ''file:'' @ id_column
      | IdMapped column _ _ \<Rightarrow> ''mapped:'' @ column
      | IdSessionOrdinal \<Rightarrow> ''session-ordinal:'' @ file_row_number_column)"

definition identity_source_column :: "id_source \<Rightarrow> string" where
  "identity_source_column s =
     (case s of IdFile \<Rightarrow> id_column | IdMapped column _ _ \<Rightarrow> column | IdSessionOrdinal \<Rightarrow> file_row_number_column)"

definition is_session_ordinal :: "id_source \<Rightarrow> bool" where
  "is_session_ordinal s \<longleftrightarrow> s = IdSessionOrdinal"

datatype id_uniqueness = VerifiedAtOpenFullFile | DeclaredNotVerified | ByConstructionWithinGeneration

definition id_uniqueness_as_str :: "id_uniqueness \<Rightarrow> string" where
  "id_uniqueness_as_str u =
     (case u of
        VerifiedAtOpenFullFile \<Rightarrow> ''verified-at-open-full-file''
      | DeclaredNotVerified \<Rightarrow> ''declared-not-verified''
      | ByConstructionWithinGeneration \<Rightarrow> ''by-construction-within-generation'')"

record identity_declaration =
  idd_column :: string
  idd_by :: string
  idd_at :: string
  idd_skip_uniqueness_check :: bool

definition identity_declaration_new :: "string \<Rightarrow> string \<Rightarrow> string \<Rightarrow> identity_declaration" where
  "identity_declaration_new column by at =
     \<lparr>idd_column = column, idd_by = by, idd_at = at, idd_skip_uniqueness_check = False\<rparr>"

record dataset_identity =
  di_source :: id_source
  di_uniqueness :: id_uniqueness
  di_verified_rows :: "nat option"
  di_max_value :: "nat option"
  di_candidate_columns :: "string list"

definition js_exact_integer_limit :: nat where "js_exact_integer_limit = 2 ^ 53"

definition dataset_identity_new :: "id_source \<Rightarrow> id_uniqueness \<Rightarrow> nat option \<Rightarrow> nat option \<Rightarrow> dataset_identity" where
  "dataset_identity_new s u rows mx =
     \<lparr>di_source = s, di_uniqueness = u, di_verified_rows = rows, di_max_value = mx, di_candidate_columns = []\<rparr>"

definition new_session_ordinal :: "string list \<Rightarrow> dataset_identity" where
  "new_session_ordinal columns =
     \<lparr>di_source = IdSessionOrdinal, di_uniqueness = ByConstructionWithinGeneration, di_verified_rows = None,
      di_max_value = None, di_candidate_columns = columns\<rparr>"

definition js_exact :: "dataset_identity \<Rightarrow> bool option" where
  "js_exact i = map_option (\<lambda>m. m < js_exact_integer_limit) (di_max_value i)"

definition candidate_identity_columns :: "field list \<Rightarrow> string list" where
  "candidate_identity_columns schema =
     filter (\<lambda>n. CHR '','' \<notin> set n)
       (map fd_name
         (filter (\<lambda>f. not_addressable_for_field f = None)
           (filter (\<lambda>f. fd_type f = DInt64 \<or> fd_type f = DUInt64) schema)))"

definition admit_column_type ::
    "(data_type \<Rightarrow> string) \<Rightarrow> string \<Rightarrow> data_type \<Rightarrow> field list \<Rightarrow> engine_error + unit" where
  "admit_column_type show_dt column dt schema =
     (if dt \<in> {DUInt64, DUInt32, DUInt16, DUInt8, DInt64, DInt32, DInt16, DInt8} then Inr ()
      else Inl (EngIdentityUnusable column
        (''type is '' @ show_dt dt @ ''; identity must be an integer that widens into u64 without '' @
         ''transformation. A hash, a dictionary index or a row ordinal is not a mapping '' @ em_dash @ '' it '' @
         ''is a synthesized identity, which ADR-016 refuses'')
        (candidate_identity_columns schema)))"

end
