(* ===== verification/Dataset_Open.thy ===== *)
theory Dataset_Open
  imports Source_Identity Pool
begin

text \<open>
  \<open>engine/src/dataset.rs\<close>: opening a dataset. What DuckDB, the file system, serde and Arrow's type names answer is one
  record (\<open>open_world\<close>); a query's answer is nested the way the code unwraps it (prepare, then execute, then fetch). An
  \<open>f64\<close> is printed by an argument. The children of a \<open>Struct\<close> type are an argument, and the binary types are named by
  \<open>DOther\<close>. Indexing out of range is a panic, \<open>None\<close>.
\<close>

section \<open>The world of one open\<close>

datatype name_node = NameNode (nn_name: string) (nn_children: "name_node list")

record identity_row =
  ir_count :: "string + int"
  ir_distinct :: "string + int"
  ir_lo_u64 :: "string + nat option"
  ir_hi_u64 :: "string + nat option"
  ir_lo_i64 :: "string + int option"
  ir_hi_i64 :: "string + int option"

type_synonym 'a prepared = "string + (string + (string + 'a))"

record open_world =
  ow_json :: json_lib
  ow_show_f64 :: "f64 \<Rightarrow> string"
  ow_show_dt :: "data_type \<Rightarrow> string"
  ow_debug_list :: "string list \<Rightarrow> string"
  ow_struct :: "data_type \<Rightarrow> field list option"
  ow_from_utf8 :: "string \<Rightarrow> string + string"
  ow_from_utf8_lossy :: "string \<Rightarrow> string"
  ow_sha256 :: "byte list \<Rightarrow> byte list"
  ow_display :: string
  ow_to_str :: "string option"
  ow_is_dir :: bool
  ow_is_file :: bool
  ow_configured :: "engine_error + unit"
  ow_healthy :: bool
  ow_kv :: "(string \<times> string) list prepared"
  ow_exported :: "string + (string + field list)"
  ow_describe :: "string list prepared"
  ow_schema_rows :: "(string \<times> int option) list prepared"
  ow_first_group :: "(string + int option) option prepared"
  ow_metadata :: "(string \<times> string option \<times> string option) list prepared"
  ow_sample :: "string \<Rightarrow> (string + f64 option) list option prepared"
  ow_identity :: "string \<Rightarrow> identity_row option prepared"
  ow_descriptor :: descriptor_io
  ow_token :: token
  ow_cancelled :: polls

definition unprepare :: "(string \<Rightarrow> engine_error) \<Rightarrow> string \<Rightarrow> string \<Rightarrow> string \<Rightarrow> 'a prepared \<Rightarrow> engine_error + 'a" where
  "unprepare err a b c r =
     (case r of
        Inl e \<Rightarrow> Inl (err (a @ '': '' @ e))
      | Inr (Inl e) \<Rightarrow> Inl (err (b @ '': '' @ e))
      | Inr (Inr (Inl e)) \<Rightarrow> Inl (err (c @ '': '' @ e))
      | Inr (Inr (Inr x)) \<Rightarrow> Inr x)"

text \<open>\<open>cancellable\<close>: the number is that of the next read of the flag. A token bound elsewhere refuses.\<close>

definition bind_polled :: "'a polled \<Rightarrow> ('a \<Rightarrow> nat \<Rightarrow> 'b polled) \<Rightarrow> 'b polled" where
  "bind_polled r f = (case r of (Inl e, k) \<Rightarrow> (Inl e, k) | (Inr x, k) \<Rightarrow> f x k)"

definition cancellable :: "open_world \<Rightarrow> (engine_error + 'a) \<Rightarrow> nat \<Rightarrow> 'a polled" where
  "cancellable w answer k =
     (case attach 0 (ow_token w) of
        Inl e \<Rightarrow> (Inl e, k)
      | Inr _ \<Rightarrow>
          (case execute_guarded (ow_cancelled w) k (\<lambda>k. (answer, k)) of
             (g, k') \<Rightarrow> (if ow_cancelled w k' then Inl EngCancelled else into_result g, k' + 1)))"

section \<open>Key-value metadata\<close>

record source_license =
  sl_license :: "string option"
  sl_attribution :: "string option"
  sl_redistribution :: "string option"

definition license_of_key :: "open_world \<Rightarrow> (string \<times> string) list \<Rightarrow> string \<Rightarrow> string option" where
  "license_of_key w kv key =
     (case find (\<lambda>(k, _). k = key) kv of
        None \<Rightarrow> None
      | Some (_, v) \<Rightarrow>
          (case ow_from_utf8 w v of
             Inl _ \<Rightarrow> None
           | Inr s \<Rightarrow> if trim s = [] then None else Some (trim s)))"

definition license_from_kv :: "open_world \<Rightarrow> (string \<times> string) list \<Rightarrow> source_license" where
  "license_from_kv w kv =
     \<lparr>sl_license = license_of_key w kv ''license'', sl_attribution = license_of_key w kv ''attribution'',
      sl_redistribution = license_of_key w kv ''redistribution''\<rparr>"

definition declares_anything :: "source_license \<Rightarrow> bool" where
  "declares_anything s \<longleftrightarrow> sl_license s \<noteq> None \<or> sl_attribution s \<noteq> None \<or> sl_redistribution s \<noteq> None"

definition geo_from_kv :: "open_world \<Rightarrow> (string \<times> string) list \<Rightarrow> string \<Rightarrow> engine_error + string" where
  "geo_from_kv w kv path =
     (case find (\<lambda>(k, _). k = ''geo'') kv of
        Some (_, v) \<Rightarrow> map_err (\<lambda>e. EngGeoMetadata (''`geo` is not UTF-8: '' @ e)) (ow_from_utf8 w v)
      | None \<Rightarrow> Inl (EngGeoMetadata (path @
                       '' carries no `geo` key: it is a parquet file, but not a GeoParquet file'')))"

definition read_kv_metadata :: "open_world \<Rightarrow> engine_error + (string \<times> string) list" where
  "read_kv_metadata w =
     bind_ok (unprepare EngSource ''prepare kv metadata'' ''read kv metadata'' ''kv metadata row'' (ow_kv w)) (\<lambda>pairs.
       Inr (map (\<lambda>(k, v). (ow_from_utf8_lossy w k, v)) pairs))"

section \<open>The two schemas\<close>

text \<open>\<open>probe_schema\<close>: a column whose exported name differs from the one it is bound by carries the exported name.\<close>

definition resident_field :: "field \<Rightarrow> string \<Rightarrow> field" where
  "resident_field f bound_name =
     (if bound_name = fd_name f then f
      else \<lparr>fd_name = bound_name, fd_type = fd_type f, fd_nullable = fd_nullable f,
            fd_metadata = (fd_metadata f)(exported_name_key \<mapsto> fd_name f)\<rparr>)"

definition probe_schema :: "open_world \<Rightarrow> engine_error + field list" where
  "probe_schema w =
     (case ow_exported w of
        Inl e \<Rightarrow> Inl (EngSource (''prepare schema probe: '' @ e))
      | Inr (Inl e) \<Rightarrow> Inl (EngSource (''schema probe: '' @ e))
      | Inr (Inr exported) \<Rightarrow>
          bind_ok (unprepare EngSource ''prepare schema describe'' ''schema describe'' ''schema describe row''
                     (ow_describe w)) (\<lambda>bound_names.
            if length bound_names \<noteq> length exported
            then Inl (EngInternalInconsistency
              (''the schema probe'' @ [CHR 0x27] @ ''s Arrow export reported '' @ show_nat (length exported) @
               '' column(s) but DESCRIBE reported '' @ show_nat (length bound_names) @
               ''; which names round-trip could not be decided''))
            else Inr (map2 resident_field exported bound_names)))"

text \<open>\<open>read_file_names\<close>: the stack of open nodes, innermost first, with the number of children still to come.\<close>

type_synonym open_node = "string \<times> name_node list \<times> int"

fun close_nodes :: "open_node list \<Rightarrow> name_node option \<Rightarrow> open_node list \<times> name_node option" where
  "close_nodes [] root = ([], root)"
| "close_nodes ((n, cs, left) # st) root =
     (if left \<noteq> 0 then ((n, cs, left) # st, root)
      else case st of
        [] \<Rightarrow> ([], Some (NameNode n cs))
      | (pn, pcs, pleft) # st' \<Rightarrow> close_nodes ((pn, pcs @ [NameNode n cs], pleft - 1) # st') root)"

fun read_tree :: "(string \<times> int option) list \<Rightarrow> open_node list \<Rightarrow> name_node option \<Rightarrow> name_node option" where
  "read_tree [] st root = (if st = [] then root else None)"
| "read_tree ((n, cnt) # rows) st root =
     (let left = unwrap_or cnt 0
      in if root \<noteq> None \<or> left < 0 then None
         else case close_nodes ((n, [], left) # st) root of (st', root') \<Rightarrow> read_tree rows st' root')"

definition not_a_tree :: engine_error where
  "not_a_tree = EngInternalInconsistency
     (''the rows of parquet_schema do not form one schema tree; which column each name '' @
      ''reads could not be decided'')"

definition read_file_names :: "open_world \<Rightarrow> nat \<Rightarrow> name_node polled" where
  "read_file_names w k =
     bind_polled (cancellable w (unprepare EngSource ''prepare parquet schema'' ''read parquet schema''
                                   ''parquet schema row'' (ow_schema_rows w)) k) (\<lambda>rows k.
       (ok_or not_a_tree (read_tree rows [] None), k))"

definition check_names_align :: "name_node \<Rightarrow> field list \<Rightarrow> engine_error + unit" where
  "check_names_align file schema =
     (let n = length (nn_children file); m = length schema
      in if m < n
         then Inl (EngInternalInconsistency
           (''the file'' @ [CHR 0x27] @ ''s footer lists '' @ show_nat n @
            '' top-level column(s) but the schema probe reported '' @ show_nat m @
            ''; which column each name reads could not be decided''))
         else Inr ())"

definition case_matches :: "name_node list \<Rightarrow> string \<Rightarrow> nat list" where
  "case_matches nodes name = filter (\<lambda>i. name_eq_ci (nn_name (nodes ! i)) name) [0..<length nodes]"

definition ticked :: "string list \<Rightarrow> string" where
  "ticked names = join_with '', '' (map (\<lambda>n. ''`'' @ n @ ''`'') names)"

definition joined :: "string list \<Rightarrow> string" where
  "joined segments = render_visible_escape (join_with ''.'' segments)"

section \<open>The geometry column\<close>

definition is_wkb_type :: "data_type \<Rightarrow> bool" where
  "is_wkb_type t \<longleftrightarrow> t \<in> {DOther ''Binary'', DOther ''LargeBinary'', DOther ''BinaryView''}"

definition position_of :: "('a \<Rightarrow> bool) \<Rightarrow> 'a list \<Rightarrow> nat option" where
  "position_of P xs = find (\<lambda>i. P (xs ! i)) [0..<length xs]"

definition check_geometry_column ::
    "open_world \<Rightarrow> field list \<Rightarrow> name_node \<Rightarrow> string \<Rightarrow> (engine_error + unit) option" where
  "check_geometry_column w schema file geometry_column =
     (let declared = render_visible_escape geometry_column;
          matches = case_matches (nn_children file) geometry_column
      in if 1 < length matches
         then Some (Inl (EngGeoMetadata
           (''`geo.primary_column` names `'' @ declared @
            ''`, which matches more than one name in the file'' @ [CHR 0x27] @
            ''s schema when ASCII letter case is ignored: '' @
            ticked (map (\<lambda>i. render_visible_escape (nn_name (nn_children file ! i))) matches))))
         else case position_of (\<lambda>n. nn_name n = geometry_column) (nn_children file) of
           None \<Rightarrow> Some (Inl (EngSource
             (''`geo.primary_column` names `'' @ declared @ ''`, which the file does not contain'')))
         | Some j \<Rightarrow>
             if length schema \<le> j then None
             else
               let geom = schema ! j
               in if fd_name geom \<noteq> geometry_column
                  then Some (Inl (EngGeoMetadata
                    (''`geo.primary_column` names `'' @ declared @ ''`, which the file contains, but that column is '' @
                     ''read under the name `'' @ render_visible_escape (fd_name geom) @
                     ''`, so the declared name does not read it'')))
                  else case not_addressable_for_field geom of
                    Some naf \<Rightarrow> Some (Inl (EngGeoMetadata
                      (''`geo.primary_column` names the geometry column, but '' @ fact_render naf)))
                  | None \<Rightarrow>
                      if \<not> is_wkb_type (fd_type geom)
                      then Some (Inl (EngSource
                        (''geometry column `'' @ geometry_column @ ''` is '' @ ow_show_dt w (fd_type geom) @
                         ''; WKB must be a binary column'')))
                      else Some (Inr ()))"

section \<open>The covering\<close>

datatype path_walk =
    Resolves
  | WalkAbsent
  | Ambiguous "string list"
  | Misbound string string
  | Inconsistent string nat nat

fun field_path_walk ::
    "(data_type \<Rightarrow> field list option) \<Rightarrow> name_node list \<Rightarrow> field list \<Rightarrow> string list \<Rightarrow> string list \<Rightarrow> field_path
       \<Rightarrow> path_walk option" where
  "field_path_walk struct file_level resident_level file_path resident_path [] = Some Resolves"
| "field_path_walk struct file_level resident_level file_path resident_path (segment # segments) =
     (case case_matches file_level segment of
        [] \<Rightarrow> Some WalkAbsent
      | [j] \<Rightarrow>
          if length resident_level \<le> j then None
          else
            let nd = file_level ! j;
                f = resident_level ! j;
                file_path' = file_path @ [nn_name nd];
                resident_path' = resident_path @ [fd_name f]
            in if \<not> name_eq_ci (fd_name f) segment
                 then Some (Misbound (joined file_path') (joined resident_path'))
               else if segments = [] then Some Resolves
               else (case struct (fd_type f) of
                       None \<Rightarrow> Some WalkAbsent
                     | Some children \<Rightarrow>
                         if length children \<noteq> length (nn_children nd)
                         then Some (Inconsistent (joined file_path') (length (nn_children nd)) (length children))
                         else field_path_walk struct (nn_children nd) children file_path' resident_path' segments)
      | many \<Rightarrow> Some (Ambiguous (map (\<lambda>i. joined (file_path @ [nn_name (file_level ! i)])) many)))"

definition field_path_exists ::
    "(data_type \<Rightarrow> field list option) \<Rightarrow> name_node \<Rightarrow> field list \<Rightarrow> field_path \<Rightarrow> path_walk option" where
  "field_path_exists struct file schema path = field_path_walk struct (nn_children file) schema [] [] path"

datatype covering_finding = NotAddressable string | FindingAbsent string

definition finding_detail :: "covering_finding \<Rightarrow> string" where
  "finding_detail f =
     (case f of
        NotAddressable reason \<Rightarrow> reason
      | FindingAbsent path \<Rightarrow> ''the covering names `'' @ render_visible_escape path @ ''`, which the file'' @
          [CHR 0x27] @ ''s schema does not contain'')"

definition covering_paths :: "covering_bbox \<Rightarrow> field_path list" where
  "covering_paths c = [cv_xmin c, cv_ymin c, cv_xmax c, cv_ymax c]"

definition covering_not_addressable_reason :: "covering_bbox \<Rightarrow> string option" where
  "covering_not_addressable_reason c =
     map_option (\<lambda>p. ''the covering names `'' @ render_visible_escape (join_with ''.'' p) @
         ''`, which contains U+0000 and so cannot be addressed in any SQL statement'')
       (find (list_ex (\<lambda>seg. not_addressable seg None \<noteq> None)) (covering_paths c))"

definition walk_refusal :: "field_path \<Rightarrow> path_walk \<Rightarrow> engine_error option" where
  "walk_refusal p pw =
     (let declared = render_visible_escape (join_with ''.'' p)
      in case pw of
           Resolves \<Rightarrow> None
         | WalkAbsent \<Rightarrow> None
         | Ambiguous matches \<Rightarrow> Some (EngGeoMetadata
             (''the covering names `'' @ declared @ ''`, which matches more than one name in the file'' @ [CHR 0x27] @
              ''s schema when ASCII letter case is ignored: '' @ ticked matches))
         | Misbound file_path resident_path \<Rightarrow> Some (EngGeoMetadata
             (''the covering names `'' @ declared @ ''`, which the file'' @ [CHR 0x27] @ ''s schema holds as `'' @
              file_path @ ''`, but that column is read under the name `'' @ resident_path @
              ''`, so the declared name does not read it''))
         | Inconsistent file_path file_count resident_count \<Rightarrow> Some (EngInternalInconsistency
             (''the file'' @ [CHR 0x27] @ ''s footer lists '' @ show_nat file_count @ '' field(s) inside `'' @ file_path @
              ''` but the schema probe reported '' @ show_nat resident_count @
              ''; which field each name reads could not be decided'')))"

text \<open>The loop over the four paths: the first refusal, else the first absent path.\<close>

fun judge_paths ::
    "(data_type \<Rightarrow> field list option) \<Rightarrow> name_node \<Rightarrow> field list \<Rightarrow> field_path list \<Rightarrow> string option
       \<Rightarrow> (engine_error + string option) option" where
  "judge_paths struct file schema [] absent = Some (Inr absent)"
| "judge_paths struct file schema (p # ps) absent =
     (case field_path_exists struct file schema p of
        None \<Rightarrow> None
      | Some pw \<Rightarrow>
          (case walk_refusal p pw of
             Some e \<Rightarrow> Some (Inl e)
           | None \<Rightarrow>
               judge_paths struct file schema ps
                 (if pw = WalkAbsent \<and> absent = None then Some (join_with ''.'' p) else absent)))"

definition judge_covering ::
    "(data_type \<Rightarrow> field list option) \<Rightarrow> covering_bbox option \<Rightarrow> field list \<Rightarrow> name_node
       \<Rightarrow> (engine_error + covering_finding option) option" where
  "judge_covering struct covering schema file =
     (case covering of
        None \<Rightarrow> Some (Inr None)
      | Some c \<Rightarrow>
          (case covering_not_addressable_reason c of
             Some reason \<Rightarrow> Some (Inr (Some (NotAddressable reason)))
           | None \<Rightarrow>
               map_option (\<lambda>r. bind_ok r (\<lambda>absent. Inr (map_option FindingAbsent absent)))
                 (judge_paths struct file schema (covering_paths c) None)))"

end
