(* ===== verification/Dataset_Admit.thy ===== *)
theory Dataset_Admit
  imports Dataset_Open
begin

text \<open>
  \<open>engine/src/dataset.rs\<close>, continued: the sanity check of the coordinates, the admission of an identity, and
  \<open>open_inner\<close> with what the dataset then says of itself (\<open>BatchEnvelope::build\<close> of \<open>envelope.rs\<close>). Counters for tests
  are left out. Where the code asserts in debug builds and refuses in release builds, the refusal is modelled.
\<close>

section \<open>Sanity of the coordinates\<close>

definition f4_text :: "(f64 \<Rightarrow> string) \<Rightarrow> bbox4 \<Rightarrow> string" where
  "f4_text show_f b =
     (case b of (a, b, c, d) \<Rightarrow>
        ''['' @ show_f a @ '', '' @ show_f b @ '', '' @ show_f c @ '', '' @ show_f d @ '']'')"

definition plus_minus :: string where "plus_minus = [CHR 0xC2, CHR 0xB1]"

definition convict_or_record ::
    "open_world \<Rightarrow> sanity_level \<Rightarrow> string \<Rightarrow> bbox4 \<Rightarrow> bool \<Rightarrow> engine_error + sanity_level \<times> string" where
  "convict_or_record w level reason bbox convicts =
     (if convicts \<and> \<not> inside_crs84_domain bbox
      then Inl (EngFormatDefaultContradicted
        (''at level `'' @ sanity_level_as_str level @ ''`, '' @ reason @ '': '' @ f4_text (ow_show_f64 w) bbox @
         '' leaves '' @ plus_minus @ ow_show_f64 w crs84_max_abs_x @ ''/'' @ plus_minus @ ow_show_f64 w crs84_max_abs_y))
      else if convicts then Inr (level, reason)
      else Inr (level, reason @
        ''; no range check applies, because the CRS is the file'' @ [CHR 0x27] @ ''s own declaration '' @
        ''and only the data'' @ [CHR 0x27] @ ''s axis order came from the format''))"

definition first_row_group_rows :: "open_world \<Rightarrow> nat \<Rightarrow> nat option polled" where
  "first_row_group_rows w =
     cancellable w
       (bind_ok (unprepare EngSource ''prepare row group metadata'' ''read row group metadata'' ''row group metadata row''
                   (ow_first_group w)) (\<lambda>row.
          case row of
            None \<Rightarrow> Inr None
          | Some got \<Rightarrow>
              bind_ok (map_err (\<lambda>e. EngSource (''row group row count: '' @ e)) got) (\<lambda>n.
                Inr (case n of Some i \<Rightarrow> if 0 \<le> i then Some (nat i) else None | None \<Rightarrow> None))))"

definition normalize_stat_path :: "string \<Rightarrow> string" where
  "normalize_stat_path s = filter (\<lambda>c. c \<noteq> CHR '' '') (map (\<lambda>c. if c = CHR '','' then CHR ''.'' else c) s)"

fun stat_extreme :: "(string \<times> string option \<times> string option) list \<Rightarrow> string \<Rightarrow> bool \<Rightarrow> f64 option \<Rightarrow> f64 option" where
  "stat_extreme [] key take_max out = out"
| "stat_extreme ((name, lo, hi) # rows) key take_max out =
     (if normalize_stat_path name \<noteq> key then stat_extreme rows key take_max out
      else case Option.bind (if take_max then hi else lo) parse_f64 of
             None \<Rightarrow> None
           | Some v \<Rightarrow>
               stat_extreme rows key take_max
                 (Some (case out of Some prev \<Rightarrow> if take_max then f64_max prev v else f64_min prev v | None \<Rightarrow> v)))"

definition statistics_bbox :: "(string \<times> string option \<times> string option) list \<Rightarrow> covering_bbox \<Rightarrow> bbox4 option" where
  "statistics_bbox rows c =
     (let extreme = (\<lambda>p take_max. stat_extreme rows (join_with ''.'' p) take_max None)
      in case (extreme (cv_xmin c) False, extreme (cv_ymin c) False, extreme (cv_xmax c) True, extreme (cv_ymax c) True) of
           (Some a, Some b, Some x, Some y) \<Rightarrow> Some (a, b, x, y)
         | _ \<Rightarrow> None)"

definition covering_statistics :: "open_world \<Rightarrow> covering_bbox \<Rightarrow> nat \<Rightarrow> bbox4 option polled" where
  "covering_statistics w c k =
     bind_polled (cancellable w (unprepare EngSource ''prepare parquet metadata'' ''read parquet metadata''
                                   ''parquet metadata row'' (ow_metadata w)) k)
       (\<lambda>rows k. (Inr (statistics_bbox rows c), k))"

definition covering_sample_sql :: "covering_bbox \<Rightarrow> string \<Rightarrow> nat \<Rightarrow> string" where
  "covering_sample_sql c path lim =
     ''SELECT min(x0), min(y0), max(x1), max(y1) FROM (SELECT '' @ field_path_to_sql (cv_xmin c) @ '' AS x0, '' @
     field_path_to_sql (cv_ymin c) @ '' AS y0, '' @ field_path_to_sql (cv_xmax c) @ '' AS x1, '' @
     field_path_to_sql (cv_ymax c) @ '' AS y1 FROM read_parquet('' @ [CHR 0x27] @
     replace_all path [CHR 0x27] [CHR 0x27, CHR 0x27] @ [CHR 0x27] @ '') LIMIT '' @ show_nat lim @ '')''"

definition sample_value :: "(string + f64 option) list \<Rightarrow> nat \<Rightarrow> engine_error + f64 option" where
  "sample_value row i = map_err (\<lambda>e. EngQuery (''covering sample value: '' @ e)) (row ! i)"

definition covering_sample :: "open_world \<Rightarrow> string \<Rightarrow> covering_bbox \<Rightarrow> nat \<Rightarrow> nat \<Rightarrow> bbox4 option polled" where
  "covering_sample w path c lim =
     cancellable w
       (bind_ok (unprepare EngQuery ''prepare covering sample'' ''covering sample'' ''covering sample''
                   (ow_sample w (covering_sample_sql c path lim))) (\<lambda>row.
          case row of
            None \<Rightarrow> Inr None
          | Some r \<Rightarrow>
              bind_ok (sample_value r 0) (\<lambda>x0.
              bind_ok (sample_value r 1) (\<lambda>y0.
              bind_ok (sample_value r 2) (\<lambda>x1.
              bind_ok (sample_value r 3) (\<lambda>y1.
                Inr (case (x0, y0, x1, y1) of
                       (Some a, Some b, Some x, Some y) \<Rightarrow> Some (a, b, x, y)
                     | _ \<Rightarrow> None)))))))"

definition sample_wording :: "nat option \<Rightarrow> nat \<Rightarrow> nat \<Rightarrow> string \<times> string" where
  "sample_wording first_row_group cap lim =
     (case first_row_group of
        Some rows \<Rightarrow>
          if cap < rows
          then (''the first '' @ show_nat lim @ '' row(s), N capped at the declared ceiling'',
                '', the first row group carrying '' @ show_nat rows @ '' rows and the ceiling being '' @ show_nat cap @ '' rows'')
          else (''the first '' @ show_nat lim @ '' row(s), N = the first row group'' @ [CHR 0x27] @ ''s row count ('' @
                show_nat rows @ '')'', [])
      | None \<Rightarrow> (''the first '' @ show_nat lim @ '' row(s)'',
                 '', the footer carrying no row count for the first row group''))"

text \<open>The fourth rung: a bounded sample of the covering columns.\<close>

definition sanity_sample :: "open_world \<Rightarrow> string \<Rightarrow> covering_bbox \<Rightarrow> string \<Rightarrow> bool \<Rightarrow> nat \<Rightarrow> (sanity_level \<times> string) polled" where
  "sanity_sample w path c rule convicts k =
     bind_polled (first_row_group_rows w k) (\<lambda>first_row_group k.
       let cap = sanity_sample_max_rows;
           lim = (case first_row_group of None \<Rightarrow> cap | Some rows \<Rightarrow> min rows cap)
       in case sample_wording first_row_group cap lim of (rows_read, qualifier) \<Rightarrow>
     bind_polled (covering_sample w path c lim k) (\<lambda>got k.
       case got of
         Some bbox \<Rightarrow>
           (convict_or_record w SanitySample
              (''read from '' @ rows_read @ '' of the covering bbox columns only'' @ qualifier @ '', '' @
               f4_text (ow_show_f64 w) bbox @ '', under the format rule '' @ rule) bbox convicts, k)
       | None \<Rightarrow>
           (Inr (SanityNotChecked,
              ''the covering bbox columns carry no value in '' @ rows_read @ qualifier @
              '', so nothing was read. Not checked''), k)))"

definition sanity_check ::
    "open_world \<Rightarrow> string \<Rightarrow> geo_meta \<Rightarrow> covering_finding option \<Rightarrow> crs_provenance \<Rightarrow> format_semantics \<Rightarrow> nat
       \<Rightarrow> (sanity_level \<times> string) polled" where
  "sanity_check w path geo finding prov semantics k =
     (case (if prov = ProvAsserted then None else fs_format_rule_reference semantics) of
        None \<Rightarrow> (Inr (SanityNotChecked,
          ''no format rule was applied, so nothing about the coordinates was assumed and there is nothing to convict''), k)
      | Some rule \<Rightarrow>
          let convicts = (prov = ProvFormatDefault)
          in case gm_bbox geo of
               Some bbox \<Rightarrow>
                 (convict_or_record w SanityMetadata
                    (''read from the `geo` metadata'' @ [CHR 0x27] @ ''s own `bbox` member '' @
                     f4_text (ow_show_f64 w) bbox @ '' under the format rule '' @ rule) bbox convicts, k)
             | None \<Rightarrow>
                 (case gm_covering geo of
                    None \<Rightarrow> (Inr (SanityNotChecked,
                      ''the file'' @ [CHR 0x27] @ ''s `geo` metadata carries neither a `bbox` member nor a covering bbox '' @
                      ''column, so nothing footer-resident or column-local was available to decide a '' @
                      ''level from under the format rule '' @ rule @ ''. Not checked''), k)
                  | Some covering \<Rightarrow>
                      (case finding of
                         Some (NotAddressable reason) \<Rightarrow> (Inr (SanityNotChecked, reason @ ''. Not checked''), k)
                       | Some (FindingAbsent missing) \<Rightarrow> (Inr (SanityNotChecked,
                           ''the covering names `'' @ missing @ ''`, which the file'' @ [CHR 0x27] @
                           ''s schema does not contain, so no level could be decided from it. Not checked''), k)
                       | None \<Rightarrow>
                           bind_polled (covering_statistics w covering k) (\<lambda>stats k.
                             case stats of
                               Some bbox \<Rightarrow>
                                 (convict_or_record w SanityMetadata
                                    (''read from the covering bbox columns'' @ [CHR 0x27] @ '' parquet statistics '' @
                                     f4_text (ow_show_f64 w) bbox @ '' under the format rule '' @ rule) bbox convicts, k)
                             | None \<Rightarrow> sanity_sample w path covering rule convicts k))))"

section \<open>Identity\<close>

definition run_identity_scan ::
    "open_world \<Rightarrow> string \<Rightarrow> engine_error + nat \<times> nat \<times> int option \<times> int option" where
  "run_identity_scan w sql =
     bind_ok (unprepare EngQuery ''identity scan prepare'' ''identity scan'' ''identity scan'' (ow_identity w sql)) (\<lambda>got.
     bind_ok (ok_or (EngQuery ''identity scan returned no row'') got) (\<lambda>row.
     bind_ok (map_err (\<lambda>e. EngQuery (''count: '' @ e)) (ir_count row)) (\<lambda>n.
     bind_ok (map_err (\<lambda>e. EngQuery (''distinct: '' @ e)) (ir_distinct row)) (\<lambda>d.
     bind_ok
       (case (ir_lo_u64 row, ir_hi_u64 row) of
          (Inr lo, Inr hi) \<Rightarrow> Inr (map_option int lo, map_option int hi)
        | _ \<Rightarrow>
            bind_ok (map_err (\<lambda>e. EngQuery (''identity min: '' @ e)) (ir_lo_i64 row)) (\<lambda>lo.
            bind_ok (map_err (\<lambda>e. EngQuery (''identity max: '' @ e)) (ir_hi_i64 row)) (\<lambda>hi.
              Inr (lo, hi)))) (\<lambda>(lo, hi).
       Inr (nat (n mod 2 ^ 64), nat (d mod 2 ^ 64), lo, hi))))))"

definition identity_sql :: "string \<Rightarrow> string \<Rightarrow> string" where
  "identity_sql column path =
     (let c = [CHR 0x22] @ replace_all column [CHR 0x22] [CHR 0x22, CHR 0x22] @ [CHR 0x22]
      in ''SELECT count(*), count(DISTINCT '' @ c @ ''), min('' @ c @ ''), max('' @ c @ '') FROM read_parquet('' @
         [CHR 0x27] @ replace_all path [CHR 0x27] [CHR 0x27, CHR 0x27] @ [CHR 0x27] @ '')'')"

definition negative_identity :: "int \<Rightarrow> string" where
  "negative_identity m =
     ''holds a negative value ('' @ show_int m @ ''); identity is carried as u64 and a negative '' @
     ''source value cannot widen into it without changing the value''"

definition shared_identity :: "nat \<Rightarrow> nat \<Rightarrow> string" where
  "shared_identity rows distinct_values =
     show_nat rows @ '' rows carry only '' @ show_nat distinct_values @
     '' distinct values, so at least two features share '' @
     ''an identity. ADR-010 rule 2 resolves a pick through this id, and a shared id '' @
     ''returns a wrong-but-plausible feature with nothing raised''"

definition judge_scan ::
    "string \<Rightarrow> field list \<Rightarrow> id_source \<Rightarrow> nat \<times> nat \<times> int option \<times> int option \<Rightarrow> engine_error + dataset_identity" where
  "judge_scan column schema source scanned =
     (case scanned of (rows, distinct_values, lo, hi) \<Rightarrow>
        let unusable = (\<lambda>detail. Inl (EngIdentityUnusable column detail (candidate_identity_columns schema)))
        in if (case lo of Some m \<Rightarrow> m < 0 | None \<Rightarrow> False) then unusable (negative_identity (the lo))
           else if distinct_values \<noteq> rows then unusable (shared_identity rows distinct_values)
           else Inr (dataset_identity_new source VerifiedAtOpenFullFile (Some rows)
                       (case hi of Some m \<Rightarrow> if 0 \<le> m \<and> m < 2 ^ 64 then Some (nat m) else None | None \<Rightarrow> None)))"

definition identity_request :: "identity_declaration option \<Rightarrow> id_source \<times> string \<times> bool" where
  "identity_request declared =
     (case declared of
        Some d \<Rightarrow> (IdMapped (idd_column d) (idd_by d) (idd_at d), idd_column d, idd_skip_uniqueness_check d)
      | None \<Rightarrow> (IdFile, id_column, False))"

definition admit_identity ::
    "open_world \<Rightarrow> string \<Rightarrow> field list \<Rightarrow> identity_declaration option \<Rightarrow> nat \<Rightarrow> dataset_identity polled" where
  "admit_identity w path schema declared k =
     (case identity_request declared of (source, column, skip) \<Rightarrow>
        let unusable = (\<lambda>detail. (Inl (EngIdentityUnusable column detail (candidate_identity_columns schema)), k))
        in case find (\<lambda>f. fd_name f = column) schema of
             None \<Rightarrow>
               if declared \<noteq> None then unusable ''the file has no such column''
               else (Inr (new_session_ordinal (candidate_identity_columns schema)), k)
           | Some f \<Rightarrow>
               (case not_addressable_for_field f of
                  Some naf \<Rightarrow> unusable (fact_render naf)
                | None \<Rightarrow>
                    (case admit_column_type (ow_show_dt w) column (fd_type f) schema of
                       Inl e \<Rightarrow> (Inl e, k)
                     | Inr _ \<Rightarrow>
                         if skip then (Inr (dataset_identity_new source DeclaredNotVerified None None), k)
                         else bind_polled (cancellable w (run_identity_scan w (identity_sql column path)) k)
                                (\<lambda>scanned k. (judge_scan column schema source scanned, k)))))"

end
