(* ===== verification/Dataset.thy ===== *)
theory Dataset
  imports Dataset_Admit
begin

text \<open>
  \<open>engine/src/dataset.rs\<close>, the entry points: \<open>open_inner\<close> with the metadata a dataset writes on its batches
  (\<open>BatchEnvelope::build\<close> of \<open>envelope.rs\<close>), the content pin (\<open>pin.rs\<close>), the two index builds with their caches, and
  what a stream and a filter read of a dataset. The pool of a refused open is dropped with its lease.
\<close>

section \<open>What a dataset says of itself\<close>

record batch_envelope =
  be_crs :: dataset_crs
  be_geometry_column :: string
  be_identity :: dataset_identity
  be_attributes :: "field list"
  be_encoding :: geometry_encoding
  be_admission :: "admission_record option"

definition show_bool :: "bool \<Rightarrow> string" where
  "show_bool b = (if b then ''true'' else ''false'')"

text \<open>The schema's metadata in the order of insertion; each key is inserted once.\<close>

definition crs_metadata :: "dataset_crs \<Rightarrow> (string \<times> string) list" where
  "crs_metadata c =
     [(''frame'', ''authoritative-project-crs''), (''crs'', dc_identifier c),
      (''crs_source'', crs_source_as_str (dc_source c))] @
     (if dc_source c = CrsCallerAsserted
      then [(''crs_asserted_by'', unwrap_or (dc_asserted_by c) []), (''crs_asserted_at'', unwrap_or (dc_asserted_at c) [])]
      else []) @
     [(''axis_order'', axis_order_as_str (dc_axis_order c)), (''axis_normalization'', ''none-performed'')]"

definition admission_metadata :: "admission_record \<Rightarrow> (string \<times> string) list" where
  "admission_metadata a =
     [(''crs_provenance'', crs_provenance_as_str (ar_crs_provenance a)),
      (''axis_provenance'', axis_provenance_as_str (ar_axis_provenance a))] @
     (case ar_declared_axis_order a of Some d \<Rightarrow> [(''declared_axis_order'', axis_order_as_str d)] | None \<Rightarrow> []) @
     (case ar_format_rule_reference a of Some r \<Rightarrow> [(''format_rule_reference'', r)] | None \<Rightarrow> []) @
     [(''coordinate_unit'', coordinate_unit_as_str (ar_coordinate_unit a))] @
     (case ar_coordinate_unit_source a of
        Some u \<Rightarrow> [(''coordinate_unit_source'', coordinate_unit_source_as_str u)] | None \<Rightarrow> []) @
     [(''sanity_level'', sanity_level_as_str (ar_sanity_level a)), (''sanity_reason'', ar_sanity_reason a)]"

definition identity_metadata :: "dataset_identity \<Rightarrow> (string \<times> string) list" where
  "identity_metadata i =
     [(''id_source'', as_envelope_value (di_source i)), (''id_uniqueness'', id_uniqueness_as_str (di_uniqueness i))] @
     (case di_verified_rows i of Some n \<Rightarrow> [(''id_verified_rows'', show_nat n)] | None \<Rightarrow> []) @
     (case js_exact i of Some b \<Rightarrow> [(''id_js_exact'', show_bool b)] | None \<Rightarrow> []) @
     (case di_source i of IdMapped _ by at \<Rightarrow> [(''id_declared_by'', by), (''id_declared_at'', at)] | _ \<Rightarrow> [])"

definition envelope_metadata :: "json_lib \<Rightarrow> batch_envelope \<Rightarrow> (string \<times> string) list" where
  "envelope_metadata jl e =
     crs_metadata (be_crs e) @
     (case be_admission e of Some a \<Rightarrow> admission_metadata a | None \<Rightarrow> []) @
     identity_metadata (be_identity e) @
     [(''geometry_column'', be_geometry_column e), (''geometry_encoding'', encoding_as_str (be_encoding e)),
      (''coordinate_layout'', ''interleaved-xy''),
      (''attribute_columns'', jl_show jl (JArr (map (\<lambda>f. JStr (fd_name f)) (be_attributes e))))]"

definition envelope_admitted ::
    "dataset_crs \<Rightarrow> string \<Rightarrow> dataset_identity \<Rightarrow> admission_record \<Rightarrow> geometry_encoding \<Rightarrow> batch_envelope" where
  "envelope_admitted c geometry_column i a enc =
     \<lparr>be_crs = c, be_geometry_column = geometry_column, be_identity = i, be_attributes = [], be_encoding = enc,
      be_admission = Some a\<rparr>"

definition envelope_with_attributes ::
    "dataset_crs \<Rightarrow> string \<Rightarrow> dataset_identity \<Rightarrow> field list \<Rightarrow> geometry_encoding \<Rightarrow> batch_envelope" where
  "envelope_with_attributes c geometry_column i attributes enc =
     \<lparr>be_crs = c, be_geometry_column = geometry_column, be_identity = i, be_attributes = attributes,
      be_encoding = enc, be_admission = None\<rparr>"

section \<open>Opening\<close>

record content_pin =
  cp_hash :: string
  cp_len :: nat
  cp_modified_nanos :: "nat option"

record dataset =
  da_path :: string
  da_envelope :: batch_envelope
  da_covering :: "covering_bbox option"
  da_covering_unusable :: "string option"
  da_geo :: geo_meta
  da_file_schema :: "field list"
  da_pool :: connection_pool
  da_pin :: "content_pin option"
  da_source_license :: source_license
  da_descriptor :: source_descriptor

definition glob_metacharacters :: string where
  "glob_metacharacters = [CHR ''*'', CHR ''?'', CHR ''['', CHR '']'', CHR ''{'', CHR ''}'']"

definition partitioned_source_detail :: "open_world \<Rightarrow> string option" where
  "partitioned_source_detail w =
     (if ow_is_dir w then Some (ow_display w @ '' is a directory'')
      else case ow_to_str w of
        None \<Rightarrow> None
      | Some txt \<Rightarrow>
          let bs = [CHR 0x5C]; verbatim = bs @ bs @ ''?'' @ bs;
              scanned = (case strip_prefix txt (verbatim @ ''UNC'' @ bs) of
                           Some s \<Rightarrow> s
                         | None \<Rightarrow> unwrap_or (strip_prefix txt verbatim) txt)
          in map_option (\<lambda>found. txt @ '' carries the glob metacharacter `'' @ [found] @
                 ''`, so it names a pattern rather than one file'')
               (find (\<lambda>c. c \<in> set scanned) glob_metacharacters))"

definition asserted_axis :: "json_lib \<Rightarrow> crs_assertion option \<Rightarrow> engine_error + axis_order option" where
  "asserted_axis jl assertion =
     (case Option.bind assertion as_definition_json of
        None \<Rightarrow> Inr None
      | Some def \<Rightarrow>
          bind_ok (map_err (\<lambda>e. EngGeoMetadata (''asserted definition: '' @ e)) (jl_from_str jl def)) (\<lambda>v.
          bind_ok (axis_order_from_projjson v) (\<lambda>a. Inr (Some a))))"

definition show_crs_class :: "crs_provenance option \<Rightarrow> string" where
  "show_crs_class p =
     (case p of None \<Rightarrow> ''None''
      | Some ProvDeclared \<Rightarrow> ''Some(Declared)'' | Some ProvAsserted \<Rightarrow> ''Some(Asserted)''
      | Some ProvFormatDefault \<Rightarrow> ''Some(FormatDefault)'')"

definition show_axis_class :: "axis_provenance option \<Rightarrow> string" where
  "show_axis_class p =
     (case p of None \<Rightarrow> ''None'' | Some AxisDeclared \<Rightarrow> ''Some(Declared)'' | Some AxisFormatOverride \<Rightarrow> ''Some(FormatOverride)'')"

text \<open>The CRS, by the assertion or by the file and the format's rules.\<close>

definition open_crs :: "json_lib \<Rightarrow> geo_meta \<Rightarrow> crs_assertion option \<Rightarrow> engine_error + dataset_crs" where
  "open_crs jl geo assertion =
     bind_ok (case assertion of Some a \<Rightarrow> validate_assertion_shape a | None \<Rightarrow> Inr ()) (\<lambda>_.
     bind_ok (asserted_axis jl assertion) (\<lambda>axis.
       let semantics = format_semantics_of geo
       in case (if assertion = None then fs_undeclared_detail semantics else None) of
            Some detail \<Rightarrow> Inl (EngCrsUndeclared detail)
          | None \<Rightarrow>
     bind_ok (crs_admit
                (if assertion \<noteq> None \<and> fs_crs_provenance semantics = Some ProvFormatDefault then None
                 else fs_admissible_crs semantics) assertion axis) (\<lambda>c.
       if \<not> is_x_first (dc_axis_order c)
       then Inl (EngAxisOrderUnsupported (axis_order_as_str (dc_axis_order c)))
       else Inr c)))"

definition provenance_of ::
    "dataset_crs \<Rightarrow> format_semantics
       \<Rightarrow> engine_error + crs_provenance \<times> axis_provenance \<times> axis_order option \<times> string option" where
  "provenance_of c semantics =
     (case dc_source c of
        CrsCallerAsserted \<Rightarrow> Inr (ProvAsserted, AxisDeclared, Some (dc_axis_order c), None)
      | CrsFormatRule \<Rightarrow> Inl (EngInternalInconsistency
          (dc_identifier c @ '' reached the provenance match already recorded as `crs_source = '' @
           ''format-rule`, which this reader stamps only after that match has run. '' @
           ''A provenance class is a recorded fact and is never substituted for a missing one''))
      | CrsFile \<Rightarrow>
          (case (fs_crs_provenance semantics, fs_axis_provenance semantics) of
             (Some p, Some a) \<Rightarrow> Inr (p, a, fs_declared_axis_order semantics, fs_format_rule_reference semantics)
           | (p, a) \<Rightarrow> Inl (EngInternalInconsistency
               (dc_identifier c @ '' was admitted as the file'' @ [CHR 0x27] @ ''s own CRS, but the reader recorded '' @
                ''crs_provenance '' @ show_crs_class p @ '' and axis_provenance '' @ show_axis_class a @
                ''. A provenance class is a recorded fact and is never substituted for a missing one''))))"

definition admission_of ::
    "json_lib \<Rightarrow> crs_provenance \<times> axis_provenance \<times> axis_order option \<times> string option \<Rightarrow> dataset_crs
       \<Rightarrow> sanity_level \<times> string \<Rightarrow> admission_record" where
  "admission_of jl classes c sanity =
     (case classes of (p, a, declared, reference) \<Rightarrow>
        let unit = coordinate_unit_for_admission jl p (dc_definition_json c)
        in \<lparr>ar_crs_provenance = p, ar_axis_provenance = a, ar_declared_axis_order = declared,
            ar_format_rule_reference = reference, ar_coordinate_unit = fst unit,
            ar_coordinate_unit_source = snd unit, ar_sanity_level = fst sanity, ar_sanity_reason = snd sanity\<rparr>)"

text \<open>Sequencing with a panic as \<open>None\<close>.\<close>

definition bind_open :: "'a polled option \<Rightarrow> ('a \<Rightarrow> nat \<Rightarrow> 'b polled option) \<Rightarrow> 'b polled option" where
  "bind_open r f = (case r of None \<Rightarrow> None | Some (Inl e, k) \<Rightarrow> Some (Inl e, k) | Some (Inr x, k) \<Rightarrow> f x k)"

definition at_poll :: "(engine_error + 'a) \<Rightarrow> nat \<Rightarrow> 'a polled option" where
  "at_poll r k = Some (r, k)"

definition may_panic :: "(engine_error + 'a) option \<Rightarrow> nat \<Rightarrow> 'a polled option" where
  "may_panic r k = map_option (\<lambda>r. (r, k)) r"

text \<open>Everything between the lease and its release.\<close>

definition open_leased ::
    "open_world \<Rightarrow> string \<Rightarrow> crs_assertion option \<Rightarrow> identity_declaration option \<Rightarrow> connection_pool
       \<Rightarrow> dataset polled option" where
  "open_leased w path assertion declared_identity pool =
     bind_open (at_poll (read_kv_metadata w) 0) (\<lambda>kv k.
     bind_open (at_poll (geo_from_kv w kv path) k) (\<lambda>geo_json k.
     bind_open (at_poll (geo_meta_parse (ow_json w) geo_json) k) (\<lambda>geo k.
     bind_open (at_poll (if name_eq_ci (gm_encoding geo) ''WKB'' then Inr ()
                         else Inl (EngGeoMetadata (''geometry encoding is `'' @ gm_encoding geo @
                                ''`; this slice reads WKB-encoded GeoParquet only''))) k) (\<lambda>_ k.
     bind_open (at_poll (encoding_for_declared_types (ow_debug_list w) (gm_geometry_types geo)) k) (\<lambda>enc k.
     bind_open (at_poll (open_crs (ow_json w) geo assertion) k) (\<lambda>c k.
     bind_open (at_poll (probe_schema w) k) (\<lambda>schema k.
     bind_open (Some (read_file_names w k)) (\<lambda>names k.
     bind_open (at_poll (check_names_align names schema) k) (\<lambda>_ k.
     bind_open (may_panic (check_geometry_column w schema names (gm_primary_column geo)) k) (\<lambda>_ k.
     bind_open (may_panic (judge_covering (ow_struct w) (gm_covering geo) schema names) k) (\<lambda>finding k.
     bind_open (at_poll (provenance_of c (format_semantics_of geo)) k) (\<lambda>classes k.
       let c = (if fst classes = ProvFormatDefault then recorded_as_format_rule c else c)
       in
     bind_open (Some (sanity_check w path geo finding (fst classes) (format_semantics_of geo) k)) (\<lambda>sanity k.
     bind_open (Some (admit_identity w path schema declared_identity k)) (\<lambda>ident k.
     bind_open (at_poll (descriptor_of (ow_sha256 w) (ow_descriptor w) (ow_display w)) k) (\<lambda>descriptor k.
       at_poll (Inr
         \<lparr>da_path = path,
          da_envelope = envelope_admitted c (gm_primary_column geo) ident (admission_of (ow_json w) classes c sanity) enc,
          da_covering = (if finding \<noteq> None then None else gm_covering geo),
          da_covering_unusable = map_option finding_detail finding, da_geo = geo, da_file_schema = schema,
          da_pool = pool, da_pin = None, da_source_license = license_from_kv w kv,
          da_descriptor = descriptor\<rparr>) k)))))))))))))))"

definition open_inner ::
    "open_world \<Rightarrow> crs_assertion option \<Rightarrow> identity_declaration option \<Rightarrow> pool_config \<Rightarrow> (engine_error + dataset) option" where
  "open_inner w assertion declared_identity connections =
     (case partitioned_source_detail w of
        Some detail \<Rightarrow> Some (Inl (EngIdentityOrdinalPartitionedUnsupported detail))
      | None \<Rightarrow>
          if \<not> ow_is_file w then Some (Inl (EngSource (ow_display w @ '' is not a readable file'')))
          else case ow_to_str w of
            None \<Rightarrow> Some (Inl (EngSource ''path is not valid UTF-8''))
          | Some path \<Rightarrow>
              (case acquire (ow_configured w) LcMaintenance (pool_new connections) of
                 (Inl e, _) \<Rightarrow> Some (Inl e)
               | (Inr ls, pool) \<Rightarrow>
                   map_option (\<lambda>(r, _). bind_ok r (\<lambda>ds.
                       Inr (ds\<lparr>da_pool := release_healthy (ow_healthy w) ls pool\<rparr>)))
                     (open_leased w path assertion declared_identity pool)))"

end
