(* ===== verification/Dataset_Index.thy ===== *)
theory Dataset_Index
  imports Dataset
begin

text \<open>
  \<open>engine/src/dataset.rs\<close> and \<open>pin.rs\<close>: a dataset's content pin, its two index builds with the process-wide caches, and
  what a stream and a filter read of a dataset. The reads of the file being hashed, the metadata of the file, DuckDB and
  the clock are arguments. The flag is read through one function while hashing and another while building.
\<close>

section \<open>Pins\<close>

definition pin_take ::
    "(byte list \<Rightarrow> byte list) \<Rightarrow> polls \<Rightarrow> string + (string + byte list) list \<Rightarrow> file_metadata option \<Rightarrow> string
       \<Rightarrow> (engine_error + content_pin) option" where
  "pin_take sha256 cancelled opened md path_display =
     map_option (\<lambda>(r, _). bind_ok r (\<lambda>hash.
       case validity_of md of
         None \<Rightarrow> Inl (EngSource (path_display @ '' could not be measured for length and modification time, so no pin can be '' @
                                 ''taken; a pin that cannot be re-checked is not a pin''))
       | Some h \<Rightarrow> Inr \<lparr>cp_hash = hash, cp_len = vh_len h, cp_modified_nanos = vh_modified_nanos h\<rparr>))
       (content_hash_observed sha256 cancelled opened)"

definition pin_content ::
    "(byte list \<Rightarrow> byte list) \<Rightarrow> polls \<Rightarrow> string + (string + byte list) list \<Rightarrow> file_metadata option \<Rightarrow> string
       \<Rightarrow> dataset \<Rightarrow> ((engine_error + content_pin) \<times> dataset) option" where
  "pin_content sha256 cancelled opened md path_display ds =
     map_option (\<lambda>r. case r of
         Inl e \<Rightarrow> (Inl e, ds)
       | Inr pin \<Rightarrow> (Inr pin, ds\<lparr>da_pin := Some pin\<rparr>))
       (pin_take sha256 cancelled opened md path_display)"

definition verify_by_rehash ::
    "(byte list \<Rightarrow> byte list) \<Rightarrow> polls \<Rightarrow> string + (string + byte list) list \<Rightarrow> content_pin \<Rightarrow> (engine_error + unit) option" where
  "verify_by_rehash sha256 cancelled opened pin =
     map_option (\<lambda>(r, _). bind_ok r (\<lambda>fresh.
       if fresh \<noteq> cp_hash pin
       then Inl (EngSourceChangedUnderPublish (cp_hash pin) fresh ''content hash re-read at publish start'')
       else Inr ()))
       (content_hash_observed sha256 cancelled opened)"

definition verify_by_heuristic :: "file_metadata option \<Rightarrow> content_pin \<Rightarrow> engine_error + unit" where
  "verify_by_heuristic md pin =
     (case validity_of md of
        None \<Rightarrow> Inl (EngSourceChangedUnderPublish (cp_hash pin) ''unreadable''
          (''length and modification time re-read at finalize (fail-closed: a '' @
           ''source that cannot be re-checked is treated as changed)''))
      | Some now \<Rightarrow>
          if vh_len now \<noteq> cp_len pin \<or> vh_modified_nanos now \<noteq> cp_modified_nanos pin
          then Inl (EngSourceChangedUnderPublish (show_nat (cp_len pin) @ '' bytes'') (show_nat (vh_len now) @ '' bytes'')
            (''length and modification time re-read at finalize '' @ em_dash @ '' a heuristic, not '' @
             ''a content hash''))
          else Inr ())"

section \<open>Building an index on a lease\<close>

record index_report =
  ix_miss :: "index_miss option"
  ix_content_hash_millis :: f64
  ix_build_millis :: f64
  ix_indexed_features :: nat
  ix_declared_memory_bytes :: nat
  ix_scanned_rows :: nat

record row_group_report =
  rr_miss :: "index_miss option"
  rr_content_hash_millis :: f64
  rr_build_millis :: f64
  rr_row_groups :: nat
  rr_admissible :: "row_group_refusal + unit"
  rr_declared_memory_bytes :: nat
  rr_scanned_metadata_rows :: nat

record build_world =
  bw_sha256 :: "byte list \<Rightarrow> byte list"
  bw_opened :: "string + (string + byte list) list"
  bw_hash_cancelled :: polls
  bw_hash_millis :: f64
  bw_metadata :: "file_metadata option"
  bw_configured :: "engine_error + unit"
  bw_healthy :: bool
  bw_handle :: nat
  bw_token :: token
  bw_cancelled :: polls
  bw_millis :: f64
  bw_show_bbox :: "f64x4 \<Rightarrow> string"
  bw_index_answer :: "string \<Rightarrow> string + (string + arrow_chunk list)"
  bw_metadata_answer :: "string \<Rightarrow> string + (string + (string + meta_row) list)"

definition no_covering_detail :: "dataset \<Rightarrow> string \<Rightarrow> string" where
  "no_covering_detail ds why =
     (case da_covering_unusable ds of
        Some reason \<Rightarrow> reason @ why
      | None \<Rightarrow> ''the file'' @ [CHR 0x27] @ ''s `geo` metadata declares no covering.bbox'' @ why)"

definition ds_source_column :: "dataset \<Rightarrow> string" where
  "ds_source_column ds = identity_source_column (di_source (be_identity (da_envelope ds)))"

text \<open>A build on a maintenance lease: released after a success, dropped after a refusal.\<close>

definition leased_build ::
    "build_world \<Rightarrow> connection_pool \<Rightarrow> (engine_error + 'i) \<times> index_phase list
       \<Rightarrow> (engine_error + 'i) \<times> connection_pool \<times> index_phase list" where
  "leased_build w pool built =
     (case acquire (bw_configured w) LcMaintenance pool of
        (Inl e, pool) \<Rightarrow> (Inl e, pool, [])
      | (Inr l, pool) \<Rightarrow>
          (case built of
             (Inr b, phases) \<Rightarrow> (Inr b, release_healthy (bw_healthy w) l pool, phases)
           | (Inl e, phases) \<Rightarrow> (Inl e, drop_lease l pool, phases)))"

definition report_of :: "spatial_index \<Rightarrow> index_miss option \<Rightarrow> f64 \<Rightarrow> f64 \<Rightarrow> index_report" where
  "report_of ix miss hash_millis millis =
     \<lparr>ix_miss = miss, ix_content_hash_millis = hash_millis, ix_build_millis = millis,
      ix_indexed_features = feature_count ix, ix_declared_memory_bytes = declared_memory_bound ix,
      ix_scanned_rows = si_scanned_rows ix\<rparr>"

definition rg_report_of :: "row_group_index \<Rightarrow> index_miss option \<Rightarrow> f64 \<Rightarrow> f64 \<Rightarrow> row_group_report" where
  "rg_report_of ri miss hash_millis millis =
     \<lparr>rr_miss = miss, rr_content_hash_millis = hash_millis, rr_build_millis = millis,
      rr_row_groups = ri_total_groups ri, rr_admissible = ri_admissible ri,
      rr_declared_memory_bytes = rg_declared_memory_bound ri, rr_scanned_metadata_rows = ri_scanned_metadata_rows ri\<rparr>"

text \<open>The result, the dataset with its pool, the cache and the phases observed; \<open>None\<close> when the reads never end.\<close>

definition build_index ::
    "build_world \<Rightarrow> dataset \<Rightarrow> spatial_index cache
       \<Rightarrow> ((engine_error + index_report) \<times> dataset \<times> spatial_index cache \<times> index_phase list) option" where
  "build_index w ds c =
     (case da_covering ds of
        None \<Rightarrow> Some (Inl (EngNoCoveringBbox (no_covering_detail ds
          ('', so there is nothing to                      index in this slice''))), ds, c, [])
      | Some covering \<Rightarrow>
          map_option (\<lambda>(hashed, _).
            case hashed of
              Inl e \<Rightarrow> (Inl e, ds, c, [PhContentHash])
            | Inr h \<Rightarrow>
                let key = index_key_new h (ds_source_column ds); validity = validity_of (bw_metadata w)
                in case cache_get c (da_path ds) key validity of
                     Inr existing \<Rightarrow>
                       (Inr (report_of existing None (bw_hash_millis w) 0), ds, c, [PhContentHash, PhComplete])
                   | Inl miss \<Rightarrow>
                       (case leased_build w (da_pool ds)
                               (build_observed (bw_index_answer w) (bw_show_bbox w) (bw_handle w) (bw_token w)
                                  (bw_cancelled w) (bw_millis w) (da_path ds) covering (ds_source_column ds) key validity) of
                          (Inl e, pool, phases) \<Rightarrow> (Inl e, ds\<lparr>da_pool := pool\<rparr>, c, PhContentHash # phases)
                        | (Inr built, pool, phases) \<Rightarrow>
                            (Inr (report_of built (Some miss) (bw_hash_millis w) (si_build_millis built)),
                             ds\<lparr>da_pool := pool\<rparr>, cache_insert (da_path ds) built c,
                             PhContentHash # phases @ [PhComplete])))
            (content_hash_observed (bw_sha256 w) (bw_hash_cancelled w) (bw_opened w)))"

definition build_row_group_index ::
    "build_world \<Rightarrow> dataset \<Rightarrow> row_group_index cache
       \<Rightarrow> ((engine_error + row_group_report) \<times> dataset \<times> row_group_index cache \<times> index_phase list) option" where
  "build_row_group_index w ds c =
     (case da_covering ds of
        None \<Rightarrow> Some (Inl (EngNoCoveringBbox (no_covering_detail ds
          '', so a row group has no envelope to reason about'')), ds, c, [])
      | Some covering \<Rightarrow>
          map_option (\<lambda>(hashed, _).
            case hashed of
              Inl e \<Rightarrow> (Inl e, ds, c, [PhContentHash])
            | Inr h \<Rightarrow>
                let key = row_group_key_new h (ds_source_column ds); validity = validity_of (bw_metadata w)
                in case rg_cache_get c (da_path ds) key validity of
                     Inr existing \<Rightarrow>
                       (Inr (rg_report_of existing None (bw_hash_millis w) 0), ds, c, [PhContentHash, PhComplete])
                   | Inl miss \<Rightarrow>
                       (case leased_build w (da_pool ds)
                               (rg_build (bw_metadata_answer w) (bw_handle w) (bw_token w)
                                  (bw_cancelled w) (bw_millis w) (da_path ds) covering (ds_source_column ds) key validity) of
                          (Inl e, pool, phases) \<Rightarrow> (Inl e, ds\<lparr>da_pool := pool\<rparr>, c, PhContentHash # phases)
                        | (Inr built, pool, phases) \<Rightarrow>
                            (Inr (rg_report_of built (Some miss) (bw_hash_millis w) (ri_build_millis built)),
                             ds\<lparr>da_pool := pool\<rparr>, cache_insert (da_path ds) built c,
                             PhContentHash # phases @ [PhComplete])))
            (content_hash_observed (bw_sha256 w) (bw_hash_cancelled w) (bw_opened w)))"

definition admitted_index :: "file_metadata option \<Rightarrow> dataset \<Rightarrow> spatial_index cache \<Rightarrow> spatial_index option" where
  "admitted_index md ds c =
     Option.bind (cache_hash_for c (da_path ds)) (\<lambda>h.
       case cache_get c (da_path ds) (index_key_new h (ds_source_column ds)) (validity_of md) of
         Inl _ \<Rightarrow> None | Inr ix \<Rightarrow> Some ix)"

definition admitted_row_groups :: "file_metadata option \<Rightarrow> dataset \<Rightarrow> row_group_index cache \<Rightarrow> row_group_index option" where
  "admitted_row_groups md ds c =
     Option.bind (rg_cache_hash_for c (da_path ds)) (\<lambda>h.
       case rg_cache_get c (da_path ds) (row_group_key_new h (ds_source_column ds)) (validity_of md) of
         Inl _ \<Rightarrow> None | Inr ri \<Rightarrow> Some ri)"

section \<open>What the other components read\<close>

definition is_geographic_degrees_instance :: "dataset \<Rightarrow> bool" where
  "is_geographic_degrees_instance ds =
     (case be_admission (da_envelope ds) of Some a \<Rightarrow> ar_coordinate_unit a = UnitDegree | None \<Rightarrow> False)"

definition check_source_unchanged :: "(byte list \<Rightarrow> byte list) \<Rightarrow> descriptor_io \<Rightarrow> string \<Rightarrow> dataset \<Rightarrow> engine_error + unit" where
  "check_source_unchanged sha256 io path_display ds =
     refuse_if_changed_or_unreadable sha256 io path_display (da_descriptor ds)"

definition stream_view ::
    "file_metadata option \<Rightarrow> row_group_index cache \<Rightarrow> spatial_index cache \<Rightarrow> dataset \<Rightarrow> stream_dataset" where
  "stream_view md rgs ixs ds =
     \<lparr>sd_geometry_column = gm_primary_column (da_geo ds), sd_source_column = ds_source_column ds,
      sd_covering = da_covering ds, sd_covering_unusable = da_covering_unusable ds,
      sd_row_groups = admitted_row_groups md ds rgs, sd_index = admitted_index md ds ixs,
      sd_crs_identifier = dc_identifier (be_crs (da_envelope ds))\<rparr>"

definition filter_view :: "dataset \<Rightarrow> dataset_view" where
  "filter_view ds =
     \<lparr>dv_file_schema = da_file_schema ds, dv_geometry_column = gm_primary_column (da_geo ds),
      dv_id_source = di_source (be_identity (da_envelope ds))\<rparr>"

end
