(* ===== verification/Dataset_Names.thy ===== *)
theory Dataset_Names
  imports Dataset_Index
begin

text \<open>
  The names of a file's schema: the rows of \<open>parquet_schema\<close> are read exactly when they are the pre-order listing of one
  tree, and a walk along that tree never looks beside it.
\<close>

section \<open>The rows are the listing of one tree\<close>

fun listing :: "name_node \<Rightarrow> (string \<times> int) list" where
  "listing (NameNode n cs) = (n, int (length cs)) # concat (map listing cs)"

definition counts :: "(string \<times> int option) list \<Rightarrow> (string \<times> int) list" where
  "counts rows = map (\<lambda>(n, c). (n, unwrap_or c 0)) rows"

lemma counts_simps [simp]:
  "counts [] = []" "counts ((n, c) # rows) = (n, unwrap_or c 0) # counts rows" "counts (r @ s) = counts r @ counts s"
  by (simp_all add: counts_def)

text \<open>What a stack has consumed: each open node's row, then the listings of its finished children.\<close>

fun consumed :: "open_node list \<Rightarrow> name_node option \<Rightarrow> (string \<times> int) list" where
  "consumed [] root = (case root of None \<Rightarrow> [] | Some t \<Rightarrow> listing t)"
| "consumed ((n, cs, left) # st) root =
     consumed st root @ (n, int (length cs) + left) # concat (map listing cs)"

lemma close_nodes_consumed: "close_nodes st None = (st', root') \<Longrightarrow> consumed st' root' = consumed st None"
proof (induction st "None :: name_node option" arbitrary: st' root' rule: close_nodes.induct)
  case (2 n cs left st)
  show ?case
  proof (cases "left = 0")
    case True
    show ?thesis
    proof (cases st)
      case (Cons e st2)
      obtain pn pcs pl where e: "e = (pn, pcs, pl)" by (cases e)
      show ?thesis using 2 True Cons e by simp
    qed (use 2 True in auto)
  qed (use 2 in auto)
qed simp

lemma close_nodes_root: "close_nodes st None = (st', root') \<Longrightarrow> root' = None \<or> st' = []"
  by (induction st "None :: name_node option" arbitrary: st' root' rule: close_nodes.induct)
     (auto split: if_splits list.splits prod.splits)

lemma read_tree_consumed:
  "root = None \<or> st = [] \<Longrightarrow> read_tree rows st root = Some t \<Longrightarrow> consumed st root @ counts rows = listing t"
proof (induction rows arbitrary: st root)
  case (Cons r rows)
  obtain n c where r: "r = (n, c)" by (cases r)
  have root: "root = None" and ge: "0 \<le> unwrap_or c 0" using Cons.prems r by (auto simp: Let_def split: if_splits)
  obtain st' root' where cl: "close_nodes ((n, [], unwrap_or c 0) # st) None = (st', root')" by fastforce
  have "consumed st' root' @ counts rows = listing t"
    using Cons.prems(2) r root ge cl by (intro Cons.IH [OF close_nodes_root [OF cl]]) (simp add: Let_def)
  then show ?case using close_nodes_consumed [OF cl] r root by simp
qed (auto split: if_splits option.splits)

text \<open>Reading the listing of a tree attaches it to the innermost open node.\<close>

definition attach_node :: "open_node list \<Rightarrow> name_node \<Rightarrow> open_node list \<times> name_node option" where
  "attach_node st t =
     (case st of
        [] \<Rightarrow> ([], Some t)
      | (pn, pcs, pl) # st' \<Rightarrow> close_nodes ((pn, pcs @ [t], pl - 1) # st') None)"

lemma close_attach: "close_nodes ((n, cs, 0) # st) None = attach_node st (NameNode n cs)"
  by (auto simp: attach_node_def split: list.splits)

lemma read_tree_listing:
  "counts rows = listing t \<Longrightarrow> read_tree (rows @ rest') st None = (case attach_node st t of (st', root') \<Rightarrow> read_tree rest' st' root')"
proof (induction t arbitrary: rows st rest')
  case (NameNode n cs)
  obtain c rows0 where rows: "rows = (n, c) # rows0" "unwrap_or c 0 = int (length cs)" "counts rows0 = concat (map listing cs)"
    using NameNode.prems by (cases rows) auto
  have children: "set ds \<subseteq> set cs \<Longrightarrow> ds \<noteq> [] \<Longrightarrow> counts r = concat (map listing ds) \<Longrightarrow>
      read_tree (r @ rest') ((n, acc, int (length ds)) # st) None =
        (case attach_node st (NameNode n (acc @ ds)) of (st', root') \<Rightarrow> read_tree rest' st' root')" for ds r acc
  proof (induction ds arbitrary: r acc)
    case (Cons d ds)
    obtain r1 r2 where r: "r = r1 @ r2" "counts r1 = listing d" "counts r2 = concat (map listing ds)"
    proof
      show "r = take (length (listing d)) r @ drop (length (listing d)) r" by simp
      show "counts (take (length (listing d)) r) = listing d" "counts (drop (length (listing d)) r) = concat (map listing ds)"
        using Cons.prems(3) by (simp_all add: counts_def take_map [symmetric] drop_map [symmetric])
    qed
    have "read_tree (r1 @ r2 @ rest') ((n, acc, int (length (d # ds))) # st) None =
        (case attach_node ((n, acc, int (length (d # ds))) # st) d of (st', root') \<Rightarrow> read_tree (r2 @ rest') st' root')"
      using Cons.prems(1) r(2) by (intro NameNode.IH) auto
    also have "\<dots> = (case attach_node st (NameNode n (acc @ d # ds)) of (st', root') \<Rightarrow> read_tree rest' st' root')"
    proof (cases "ds = []")
      case True
      then have "r2 = []" using r(3) by (cases r2) auto
      then show ?thesis using True close_attach [of n "acc @ [d]" st] by (simp add: attach_node_def)
    next
      case False
      then show ?thesis using Cons.IH [OF _ False r(3), of "acc @ [d]"] Cons.prems(1) by (simp add: attach_node_def)
    qed
    finally show ?case using r(1) by simp
  qed simp
  show ?case
  proof (cases "cs = []")
    case True
    then have "rows0 = []" using rows(3) by (cases rows0) auto
    then show ?thesis using rows True close_attach [of n "[]" st] by (simp add: Let_def)
  next
    case False
    then show ?thesis using rows children [of cs rows0 "[]"] by (simp add: Let_def)
  qed
qed

text \<open>\<open>read_file_names\<close> succeeds exactly on the pre-order listing of one tree, and returns that tree: the name of
  every column of the file is attributed to one path.\<close>

theorem schema_rows_are_one_tree: "read_tree rows [] None = Some t \<longleftrightarrow> counts rows = listing t"
  using read_tree_consumed [of None "[]" rows t] read_tree_listing [of rows t "[]" "[]"]
  by (auto simp: attach_node_def)

section \<open>A walk never looks beside the schema\<close>

lemma case_matches_lt: "j \<in> set (case_matches nodes name) \<Longrightarrow> j < length nodes"
  by (simp add: case_matches_def)

lemma case_matches_single: "case_matches nodes name = j # js \<Longrightarrow> j < length nodes"
  using case_matches_lt [of j nodes name] by simp

lemma field_path_walk_total: "length files \<le> length residents \<Longrightarrow> field_path_walk struct files residents fp rp path \<noteq> None"
proof (induction path arbitrary: files residents fp rp)
  case (Cons segment segments)
  show ?case
  proof (cases "case_matches files segment")
    case (Cons j js)
    then have "j < length residents" using case_matches_single [of files segment j js] Cons.prems by simp
    then show ?thesis using Cons Cons.IH by (auto simp: Let_def split: list.splits option.splits)
  qed simp
qed simp

lemma judge_paths_total:
  "length (nn_children names) \<le> length schema \<Longrightarrow> judge_paths struct names schema ps absent \<noteq> None"
  using field_path_walk_total [of "nn_children names" schema]
  by (induction ps arbitrary: absent) (auto simp: field_path_exists_def split: option.splits)

lemma judge_covering_total:
  "length (nn_children names) \<le> length schema \<Longrightarrow> judge_covering struct c schema names \<noteq> None"
  using judge_paths_total [of names schema struct] by (auto simp: judge_covering_def split: option.splits)

lemma position_of_Some: "position_of P xs = Some j \<Longrightarrow> j < length xs \<and> P (xs ! j)"
  by (auto simp: position_of_def find_Some_iff)

lemma check_geometry_column_total:
  "length (nn_children names) \<le> length schema \<Longrightarrow> check_geometry_column w schema names col \<noteq> None"
  by (auto simp: check_geometry_column_def Let_def split: option.splits dest!: position_of_Some)

text \<open>A covering that was not found wanting resolves, segment by segment.\<close>

lemma judge_paths_resolve:
  "judge_paths struct names schema ps absent = Some (Inr None) \<Longrightarrow>
     absent = None \<and> list_all (\<lambda>p. field_path_exists struct names schema p = Some Resolves) ps"
proof (induction ps arbitrary: absent)
  case (Cons p ps)
  then obtain pw where pw: "field_path_exists struct names schema p = Some pw" "walk_refusal p pw = None"
    "judge_paths struct names schema ps (if pw = WalkAbsent \<and> absent = None then Some (join_with ''.'' p) else absent) =
       Some (Inr None)"
    by (auto split: option.splits)
  then show ?case using Cons.IH [OF pw(3)] by (cases pw) (auto simp: walk_refusal_def Let_def split: if_splits)
qed simp

lemma judge_covering_resolves:
  "judge_covering struct (Some c) schema names = Some (Inr None) \<Longrightarrow>
     list_all (\<lambda>p. field_path_exists struct names schema p = Some Resolves) (covering_paths c)"
proof -
  assume a: "judge_covering struct (Some c) schema names = Some (Inr None)"
  then obtain r where r: "judge_paths struct names schema (covering_paths c) None = Some r"
    "bind_ok r (\<lambda>absent. Inr (map_option FindingAbsent absent)) = Inr None"
    by (auto simp: judge_covering_def split: option.splits)
  then have "r = Inr None" by (cases r) auto
  with judge_paths_resolve r(1) show ?thesis by blast
qed

end
