(* ===== verification/Dataset_Proofs.thy ===== *)
theory Dataset_Proofs
  imports Dataset_Names "HOL-Library.Code_Target_Nat" "HOL-Library.Sublist"
begin

text \<open>
  What an opened dataset is: opening never panics; the CRS is x-first and its provenance is the one recorded; the
  format's default is applied only to coordinates inside its domain, when there were any to read; an identity marked
  verified has as many distinct values as rows; a usable covering resolves; the connection is given back.
\<close>

section \<open>Sequencing\<close>

lemma bind_open_Inr:
  "bind_open r f = Some (Inr y, k') \<longleftrightarrow> (\<exists>x k. r = Some (Inr x, k) \<and> f x k = Some (Inr y, k'))"
  by (auto simp: bind_open_def split: option.splits sum.splits prod.splits)

lemma bind_open_None: "bind_open r f = None \<longleftrightarrow> r = None \<or> (\<exists>x k. r = Some (Inr x, k) \<and> f x k = None)"
  by (auto simp: bind_open_def split: option.splits sum.splits prod.splits)

lemma bind_polled_Inr: "bind_polled r f = (Inr y, k') \<longleftrightarrow> (\<exists>x k. r = (Inr x, k) \<and> f x k = (Inr y, k'))"
  by (auto simp: bind_polled_def split: sum.splits prod.splits)

lemma at_poll_iff [simp]: "at_poll r k = Some (r', k') \<longleftrightarrow> r = r' \<and> k = k'" "at_poll r k \<noteq> None"
  by (auto simp: at_poll_def)

lemma may_panic_iff [simp]:
  "may_panic r k = Some (r', k') \<longleftrightarrow> r = Some r' \<and> k = k'" "may_panic r k = None \<longleftrightarrow> r = None"
  by (auto simp: may_panic_def)

lemmas open_iffs = bind_open_Inr bind_open_None

section \<open>No panic\<close>

lemma names_align: "check_names_align names schema = Inr u \<Longrightarrow> length (nn_children names) \<le> length schema"
  by (auto simp: check_names_align_def Let_def split: if_splits)

lemma aligned_total:
  assumes "check_names_align names schema = Inr u"
  shows "\<exists>r. check_geometry_column w schema names col = Some r" "\<exists>r. judge_covering struct c schema names = Some r"
  using check_geometry_column_total [OF names_align [OF assms]] judge_covering_total [OF names_align [OF assms]] by blast+

lemma open_leased_total: "\<exists>r k. open_leased w path assertion declared pool = Some (r, k)"
proof -
  have "open_leased w path assertion declared pool \<noteq> None"
    by (auto simp: open_leased_def Let_def bind_open_None aligned_total)
  then show ?thesis by auto
qed

text \<open>Opening a dataset never indexes a list out of range, whatever DuckDB reports of the file's two schemas.\<close>

theorem open_never_panics: "open_inner w assertion declared connections \<noteq> None"
  using open_leased_total by (fastforce simp: open_inner_def split: option.splits prod.splits sum.splits)

section \<open>Provenance\<close>

lemma open_crs_cases:
  assumes "open_crs jl geo assertion = Inr c"
  shows "is_x_first (dc_axis_order c)"
    "dc_source c = (if assertion = None then CrsFile else CrsCallerAsserted)"
    "assertion = None \<Longrightarrow> \<exists>ident def ax. fs_admissible_crs (format_semantics_of geo) = Some (ident, def, ax) \<and>
       dc_identifier c = ident \<and> dc_definition_json c = def \<and> dc_axis_order c = ax"
    "\<And>a. assertion = Some a \<Longrightarrow> trim (as_identifier a) \<noteq> [] \<and> dc_identifier c = as_identifier a \<and>
       dc_definition_json c = as_definition_json a \<and> as_definition_json a \<noteq> None"
  using assms
  by (cases assertion;
      force simp: open_crs_def Let_def bind_ok_Inr_iff crs_admit_def crs_from_file_def crs_from_assertion_def
        validate_assertion_shape_def asserted_axis_def ok_or_Inr_iff split: option.splits if_splits prod.splits)+

lemma format_semantics_classes:
  "fs_admissible_crs (format_semantics_of geo) = Some d \<Longrightarrow>
     (\<exists>p a. fs_crs_provenance (format_semantics_of geo) = Some p \<and> fs_axis_provenance (format_semantics_of geo) = Some a \<and>
        p \<noteq> ProvAsserted \<and>
        (p = ProvFormatDefault \<longrightarrow> d = (format_default_crs, None, LongitudeLatitude) \<and> gm_crs_key geo = KeyAbsent \<and>
           fs_format_rule_reference (format_semantics_of geo) \<noteq> None))"
  by (auto simp: format_semantics_of_def Let_def no_semantics_def split: crs_key_state.splits option.splits if_splits)

text \<open>The two refusals that call the provenance inconsistent cannot be reached.\<close>

lemma provenance_total:
  assumes "open_crs jl geo assertion = Inr c"
  shows "\<exists>p a d r. provenance_of c (format_semantics_of geo) = Inr (p, a, d, r) \<and>
    (p = ProvAsserted \<longleftrightarrow> assertion \<noteq> None) \<and>
    (p = ProvFormatDefault \<longrightarrow> dc_identifier c = format_default_crs \<and> dc_definition_json c = None \<and> r \<noteq> None \<and>
       r = fs_format_rule_reference (format_semantics_of geo))"
  using open_crs_cases [OF assms]
  by (cases assertion; auto simp: provenance_of_def dest!: format_semantics_classes)

section \<open>The sanity of a default\<close>

lemma convict_inside: "convict_or_record w level reason b True = Inr r \<Longrightarrow> inside_crs84_domain b \<and> fst r = level"
  unfolding convict_or_record_def by (cases "inside_crs84_domain b") auto

lemma sanity_of_default:
  assumes "sanity_check w path geo finding ProvFormatDefault semantics k = (Inr s, k')"
    "fs_format_rule_reference semantics \<noteq> None" "gm_bbox geo = Some b"
  shows "inside_crs84_domain b \<and> fst s = SanityMetadata"
proof -
  obtain rule where r: "fs_format_rule_reference semantics = Some rule" using assms(2) by blast
  have e: "\<exists>reason. sanity_check w path geo finding ProvFormatDefault semantics k =
      (convict_or_record w SanityMetadata reason b True, k)"
    unfolding sanity_check_def Let_def by (simp only: r assms(3) option.case crs_provenance.distinct if_False simp_thms, rule exI, rule refl)
  from e obtain reason where "sanity_check w path geo finding ProvFormatDefault semantics k =
      (convict_or_record w SanityMetadata reason b True, k)" by (elim exE)
  then have "convict_or_record w SanityMetadata reason b True = Inr s" unfolding assms(1) by simp
  from convict_inside [OF this] show ?thesis .
qed

section \<open>What an open established\<close>

lemma open_inner_leased:
  assumes "open_inner w assertion declared connections = Some (Inr ds)"
  obtains path ls pool ds' k where "acquire (ow_configured w) LcMaintenance (pool_new connections) = (Inr ls, pool)"
    "open_leased w path assertion declared pool = Some (Inr ds', k)" "ow_to_str w = Some path" "ow_is_file w" "\<not> ow_is_dir w"
    "ds = ds'\<lparr>da_pool := release_healthy (ow_healthy w) ls pool\<rparr>"
proof -
  have p: "partitioned_source_detail w = None" using assms
    by (cases "partitioned_source_detail w") (simp_all add: open_inner_def)
  have f: "ow_is_file w" using assms p by (cases "ow_is_file w") (simp_all add: open_inner_def)
  obtain path where path: "ow_to_str w = Some path" using assms p f by (cases "ow_to_str w") (simp_all add: open_inner_def)
  obtain a pool where a: "acquire (ow_configured w) LcMaintenance (pool_new connections) = (a, pool)" by fastforce
  obtain ls where ls: "a = Inr ls" using assms p f path a by (cases a) (simp_all add: open_inner_def)
  obtain r k where o: "open_leased w path assertion declared pool = Some (r, k)" using open_leased_total by blast
  obtain ds' where "r = Inr ds'" "ds = ds'\<lparr>da_pool := release_healthy (ow_healthy w) ls pool\<rparr>"
    using assms p f path a ls o by (cases r) (simp_all add: open_inner_def)
  moreover have "\<not> ow_is_dir w" using p by (cases "ow_is_dir w") (simp_all add: partitioned_source_detail_def)
  ultimately show thesis by (intro that [of ls pool path ds' k]) (simp_all add: o path f a ls)
qed

lemma open_leased_facts:
  assumes "open_leased w path assertion declared pool = Some (Inr ds, k')"
  obtains names c cl k0 k1 k2 k3 k4 s finding where
    "open_crs (ow_json w) (da_geo ds) assertion = Inr c"
    "read_file_names w k0 = (Inr names, k1)" "check_names_align names (da_file_schema ds) = Inr ()"
    "provenance_of c (format_semantics_of (da_geo ds)) = Inr cl"
    "sanity_check w path (da_geo ds) finding (fst cl) (format_semantics_of (da_geo ds)) k2 = (Inr s, k3)"
    "judge_covering (ow_struct w) (gm_covering (da_geo ds)) (da_file_schema ds) names = Some (Inr finding)"
    "da_covering ds = (if finding \<noteq> None then None else gm_covering (da_geo ds))"
    "be_crs (da_envelope ds) = (if fst cl = ProvFormatDefault then recorded_as_format_rule c else c)"
    "be_admission (da_envelope ds) = Some (admission_of (ow_json w) cl (be_crs (da_envelope ds)) s)"
    "admit_identity w path (da_file_schema ds) declared k3 = (Inr (be_identity (da_envelope ds)), k4)"
  using assms
  unfolding open_leased_def Let_def bind_open_Inr at_poll_iff may_panic_iff option.inject prod.inject
  apply (elim exE conjE)
  subgoal premises prems for kv q0 json q1 geo q2 u q3 enc q4 c q5 schema q6 names q7 u2 q8 u3 q9 finding q10 cl q11 s q12
    ident q13 desc q14
    using prems by (intro that [of c q6 names q7 cl finding q11 s q12 q13]) (auto simp: envelope_admitted_def)
  done

lemma fresh_lease_returned:
  "acquire configured LcMaintenance (pool_new cfg) = (Inr ls, pool) \<Longrightarrow> active_leases (release_healthy healthy ls pool) = 0"
  by (auto simp: acquire_def acquire_take_def pool_new_def active_def capacity_def max_maintenance_connections_def
      max_physical_connections_def issue_def create_ok_def release_healthy_def return_healthy_def drop_lease_def discard_def
      active_add_def active_leases_def Let_def split: if_splits sum.splits lease_class.splits)

lemma admission_of_fields:
  "ar_crs_provenance (admission_of jl cl c s) = fst cl"
  "fst cl = ProvFormatDefault \<Longrightarrow> ar_coordinate_unit (admission_of jl cl c s) = UnitDegree"
  by (cases cl, simp add: admission_of_def Let_def coordinate_unit_for_admission_def)+

text \<open>An opened dataset has an x-first CRS whose recorded source and provenance agree with where it came from: the
  caller's assertion, the file, or the format's default. The default is OGC:CRS84 in degrees, applied only when the file
  has no \<open>crs\<close> key and, when the metadata states a \<open>bbox\<close>, only inside CRS84's domain. A covering that is offered
  resolves in the file's schema, and the connection has been given back.\<close>

theorem opened_dataset_is_consistent:
  assumes "open_inner w assertion declared connections = Some (Inr ds)"
  shows "\<exists>a. be_admission (da_envelope ds) = Some a \<and>
    is_x_first (dc_axis_order (be_crs (da_envelope ds))) \<and>
    (dc_source (be_crs (da_envelope ds)) = CrsCallerAsserted \<longleftrightarrow> assertion \<noteq> None) \<and>
    (ar_crs_provenance a = ProvAsserted \<longleftrightarrow> assertion \<noteq> None) \<and>
    (ar_crs_provenance a = ProvFormatDefault \<longleftrightarrow> dc_source (be_crs (da_envelope ds)) = CrsFormatRule) \<and>
    (ar_crs_provenance a = ProvFormatDefault \<longrightarrow>
       dc_identifier (be_crs (da_envelope ds)) = ''OGC:CRS84'' \<and> ar_coordinate_unit a = UnitDegree \<and>
       (\<forall>b. gm_bbox (da_geo ds) = Some b \<longrightarrow> inside_crs84_domain b)) \<and>
    (\<forall>cv. da_covering ds = Some cv \<longrightarrow>
       (\<exists>names k k'. read_file_names w k = (Inr names, k') \<and>
          (\<forall>p\<in>set (covering_paths cv). field_path_exists (ow_struct w) names (da_file_schema ds) p = Some Resolves))) \<and>
    active_leases (da_pool ds) = 0"
proof -
  from assms obtain path ls pool ds' k where o: "acquire (ow_configured w) LcMaintenance (pool_new connections) = (Inr ls, pool)"
    "open_leased w path assertion declared pool = Some (Inr ds', k)"
    "ds = ds'\<lparr>da_pool := release_healthy (ow_healthy w) ls pool\<rparr>"
    by (rule open_inner_leased)
  from o(2) obtain names c cl k0 k1 k2 k3 k4 s finding where
    c: "open_crs (ow_json w) (da_geo ds') assertion = Inr c" and nm: "read_file_names w k0 = (Inr names, k1)" and
    pr: "provenance_of c (format_semantics_of (da_geo ds')) = Inr cl" and
    sa: "sanity_check w path (da_geo ds') finding (fst cl) (format_semantics_of (da_geo ds')) k2 = (Inr s, k3)" and
    cv: "judge_covering (ow_struct w) (gm_covering (da_geo ds')) (da_file_schema ds') names = Some (Inr finding)"
      "da_covering ds' = (if finding \<noteq> None then None else gm_covering (da_geo ds'))" and
    en: "be_crs (da_envelope ds') = (if fst cl = ProvFormatDefault then recorded_as_format_rule c else c)"
      "be_admission (da_envelope ds') = Some (admission_of (ow_json w) cl (be_crs (da_envelope ds')) s)"
    by (rule open_leased_facts)
  obtain p a d r where cl: "cl = (p, a, d, r)" by (cases cl)
  have p: "p = ProvAsserted \<longleftrightarrow> assertion \<noteq> None"
    "p = ProvFormatDefault \<Longrightarrow> dc_identifier c = format_default_crs \<and> r \<noteq> None \<and> r = fs_format_rule_reference (format_semantics_of (da_geo ds'))"
    using provenance_total [OF c] pr cl by auto
  have inside: "inside_crs84_domain b" if "p = ProvFormatDefault" "gm_bbox (da_geo ds') = Some b" for b
    using sanity_of_default [of w path "da_geo ds'" finding _ k2 s k3 b] sa p(2) that cl by auto
  have resolves: "\<exists>names k k'. read_file_names w k = (Inr names, k') \<and> (\<forall>q\<in>set (covering_paths cc). field_path_exists (ow_struct w) names (da_file_schema ds') q = Some Resolves)"
    if "da_covering ds' = Some cc" for cc
  proof -
    have "\<forall>q\<in>set (covering_paths cc). field_path_exists (ow_struct w) names (da_file_schema ds') q = Some Resolves"
      using judge_covering_resolves [of "ow_struct w" cc "da_file_schema ds'" names] cv that
      by (auto simp: list_all_iff split: if_splits)
    with nm show ?thesis by blast
  qed
  note src = open_crs_cases(1,2) [OF c]
  have crs: "dc_axis_order (be_crs (da_envelope ds')) = dc_axis_order c" "dc_identifier (be_crs (da_envelope ds')) = dc_identifier c"
    "dc_source (be_crs (da_envelope ds')) = (if p = ProvFormatDefault then CrsFormatRule else dc_source c)"
    using en(1) cl by (simp_all add: recorded_as_format_rule_def)
  have adm: "be_admission (da_envelope ds) = Some (admission_of (ow_json w) cl (be_crs (da_envelope ds')) s)"
    "da_covering ds = da_covering ds'" "da_geo ds = da_geo ds'" "da_file_schema ds = da_file_schema ds'"
    "be_crs (da_envelope ds) = be_crs (da_envelope ds')"
    "da_pool ds = release_healthy (ow_healthy w) ls pool"
    using en(2) o(3) by simp_all
  have fields: "ar_crs_provenance (admission_of (ow_json w) cl e s) = p"
    "p = ProvFormatDefault \<Longrightarrow> ar_coordinate_unit (admission_of (ow_json w) cl e s) = UnitDegree" for e
    using admission_of_fields(1) [of "ow_json w" cl] admission_of_fields(2) [of cl "ow_json w"] cl by simp_all
  have s: "dc_source c = CrsCallerAsserted \<longleftrightarrow> assertion \<noteq> None" "dc_source c \<noteq> CrsFormatRule" using src(2) by simp_all
  show ?thesis unfolding adm
  proof (intro exI [where P = "\<lambda>a. Some _ = Some a \<and> _ a"] conjI, rule refl)
    show "\<forall>cc. da_covering ds' = Some cc \<longrightarrow> (\<exists>names k k'. read_file_names w k = (Inr names, k') \<and>
        (\<forall>q\<in>set (covering_paths cc). field_path_exists (ow_struct w) names (da_file_schema ds') q = Some Resolves))"
      using resolves by blast
    show "dc_source (be_crs (da_envelope ds')) = CrsCallerAsserted \<longleftrightarrow> assertion \<noteq> None" using crs(3) s p(1) by auto
    show "ar_crs_provenance (admission_of (ow_json w) cl (be_crs (da_envelope ds')) s) = ProvFormatDefault \<longleftrightarrow>
      dc_source (be_crs (da_envelope ds')) = CrsFormatRule" using crs(3) s fields(1) by auto
  qed (use src(1) crs fields p inside resolves fresh_lease_returned [OF o(1)] in \<open>auto simp: format_default_crs_def\<close>)
qed

section \<open>An open\<close>

definition ex_geo :: json where
  "ex_geo = JObj
     [(''version'', JStr ''1.1.0''), (''primary_column'', JStr ''geometry''),
      (''columns'', JObj [(''geometry'', JObj
         [(''encoding'', JStr ''WKB''), (''geometry_types'', JArr [JStr ''Polygon'']),
          (''bbox'', JArr (map JDouble [0x401C000000000000, 0x4047000000000000, 0x4020000000000000, 0x4047800000000000])),
          (''covering'', JObj [(''bbox'', JObj
             (map (\<lambda>k. (k, JArr [JStr ''bbox'', JStr k])) [''xmin'', ''ymin'', ''xmax'', ''ymax'']))])])])]"

definition ex_field :: "string \<Rightarrow> data_type \<Rightarrow> field" where
  "ex_field n t = \<lparr>fd_name = n, fd_type = t, fd_nullable = True, fd_metadata = Map.empty\<rparr>"

definition ex_corners :: "field list" where
  "ex_corners = map (\<lambda>k. ex_field k DFloat64) [''xmin'', ''ymin'', ''xmax'', ''ymax'']"

definition ex_open :: open_world where
  "ex_open =
     \<lparr>ow_json = \<lparr>jl_from_str = (\<lambda>_. Inr ex_geo), jl_show = (\<lambda>_. [])\<rparr>, ow_show_f64 = (\<lambda>_. ''f''), ow_show_dt = (\<lambda>_. ''t''),
      ow_debug_list = (\<lambda>_. []), ow_struct = (\<lambda>t. if t = DOther ''Struct'' then Some ex_corners else None),
      ow_from_utf8 = Inr, ow_from_utf8_lossy = (\<lambda>s. s), ow_sha256 = (\<lambda>_. [1, 2]), ow_display = ''/d/p.parquet'',
      ow_to_str = Some ''/d/p.parquet'', ow_is_dir = False, ow_is_file = True, ow_configured = Inr (), ow_healthy = True,
      ow_kv = Inr (Inr (Inr [(''geo'', ''{}''), (''license'', '' CC0 '')])),
      ow_exported = Inr (Inr [ex_field ''id'' DInt64, ex_field ''geometry'' (DOther ''Binary''),
                              ex_field ''bbox'' (DOther ''Struct'')]),
      ow_describe = Inr (Inr (Inr [''id'', ''geometry'', ''bbox''])),
      ow_schema_rows = Inr (Inr (Inr
        [(''duckdb_schema'', Some 3), (''id'', None), (''geometry'', None), (''bbox'', Some 4), (''xmin'', None),
         (''ymin'', None), (''xmax'', None), (''ymax'', Some 0)])),
      ow_first_group = Inl [], ow_metadata = Inl [], ow_sample = (\<lambda>_. Inl []),
      ow_identity = (\<lambda>_. Inr (Inr (Inr (Some \<lparr>ir_count = Inr 2, ir_distinct = Inr 2, ir_lo_u64 = Inr (Some 1),
         ir_hi_u64 = Inr (Some 9), ir_lo_i64 = Inl [], ir_hi_i64 = Inl []\<rparr>)))),
      ow_descriptor = \<lparr>di_metadata = Inr \<lparr>fm_len = 20, fm_modified = Some (Some 5)\<rparr>, di_open = Inr (), di_seek_tail = Inr (),
         di_tail = Inr ([4, 0, 0, 0] @ parquet_magic), di_seek_footer = (\<lambda>_. Inr ()), di_read = (\<lambda>_ n. Inr (replicate n 0))\<rparr>,
      ow_token = token_new, ow_cancelled = (\<lambda>_. False)\<rparr>"

definition ex_opened :: "dataset option" where
  "ex_opened = (case open_inner ex_open None None pool_config_reuse of Some (Inr ds) \<Rightarrow> Some ds | _ \<Rightarrow> None)"

lemma ex_opened_facts:
  "map_option (\<lambda>ds. (dc_identifier (be_crs (da_envelope ds)), di_uniqueness (be_identity (da_envelope ds)),
      da_covering ds \<noteq> None, dc_source (be_crs (da_envelope ds)), sl_license (da_source_license ds))) ex_opened =
     Some (''OGC:CRS84'', VerifiedAtOpenFullFile, True, CrsFormatRule, Some ''CC0'')"
  by code_simp

theorem opened_dataset_is_consistent_witness:
  "\<exists>ds a. open_inner ex_open None None pool_config_reuse = Some (Inr ds) \<and> be_admission (da_envelope ds) = Some a \<and>
     ar_crs_provenance a = ProvFormatDefault \<and> active_leases (da_pool ds) = 0"
proof -
  from ex_opened_facts obtain ds where ds: "ex_opened = Some ds" "dc_source (be_crs (da_envelope ds)) = CrsFormatRule"
    by auto
  then have "open_inner ex_open None None pool_config_reuse = Some (Inr ds)"
    by (simp add: ex_opened_def split: option.splits sum.splits)
  with opened_dataset_is_consistent [OF this] ds(2) show ?thesis by auto
qed

section \<open>Identity\<close>

lemma cancellable_Inr: "cancellable w answer k = (Inr x, k') \<Longrightarrow> answer = Inr x"
  by (auto simp: cancellable_def execute_guarded_def into_result_def split: sum.splits prod.splits if_splits guarded.splits)

text \<open>An admitted identity is what it says: positions of this session only when the file has no \<open>id\<close> column and none was
  declared; otherwise an addressable integer column of the file, verified with as many distinct values as rows and no
  negative value, or declared by a caller who asked not to verify it.\<close>

theorem identity_is_what_it_says:
  assumes "admit_identity w path schema declared k = (Inr i, k')"
  shows "if di_source i = IdSessionOrdinal
    then declared = None \<and> id_column \<notin> fd_name ` set schema \<and> di_uniqueness i = ByConstructionWithinGeneration
    else (\<exists>f\<in>set schema. fd_name f = identity_source_column (di_source i) \<and> not_addressable_for_field f = None \<and>
            fd_type f \<in> {DUInt64, DUInt32, DUInt16, DUInt8, DInt64, DInt32, DInt16, DInt8}) \<and>
         (if di_uniqueness i = VerifiedAtOpenFullFile
          then \<exists>n lo hi. run_identity_scan w (identity_sql (identity_source_column (di_source i)) path) = Inr (n, n, lo, hi) \<and>
                 di_verified_rows i = Some n \<and> pred_option (\<lambda>m. 0 \<le> m) lo
          else di_uniqueness i = DeclaredNotVerified \<and> pred_option idd_skip_uniqueness_check declared \<and> declared \<noteq> None)"
proof -
  obtain source column skip where rq: "identity_request declared = (source, column, skip)" by (cases "identity_request declared")
  then have src: "identity_source_column source = column" "source \<noteq> IdSessionOrdinal"
    "skip = (case declared of Some d \<Rightarrow> idd_skip_uniqueness_check d | None \<Rightarrow> False)" "declared = None \<Longrightarrow> column = id_column"
    by (auto simp: identity_request_def identity_source_column_def split: option.splits)
  show ?thesis
  proof (cases "find (\<lambda>f. fd_name f = column) schema")
    case None
    have d: "declared = None" using assms rq None by (cases declared) (simp_all add: admit_identity_def Let_def)
    then have "i = new_session_ordinal (candidate_identity_columns schema)"
      using assms rq None by (simp add: admit_identity_def Let_def)
    then show ?thesis using None d src(4) by (auto simp: new_session_ordinal_def find_None_iff)
  next
    case (Some f)
    then have f: "f \<in> set schema" "fd_name f = column" by (auto simp: find_Some_iff)
    have na: "not_addressable_for_field f = None"
      using assms rq Some by (cases "not_addressable_for_field f") (auto simp: admit_identity_def Let_def)
    obtain u where ty: "admit_column_type (ow_show_dt w) column (fd_type f) schema = Inr u"
      using assms rq Some na
      by (cases "admit_column_type (ow_show_dt w) column (fd_type f) schema") (auto simp: admit_identity_def Let_def)
    then have int: "fd_type f \<in> {DUInt64, DUInt32, DUInt16, DUInt8, DInt64, DInt32, DInt16, DInt8}"
      by (auto simp: admit_column_type_def split: if_splits)
    show ?thesis
    proof (cases skip)
      case True
      then have "i = dataset_identity_new source DeclaredNotVerified None None"
        using assms rq Some na ty by (auto simp: admit_identity_def Let_def)
      then show ?thesis using f na int src True by (auto simp: dataset_identity_new_def split: option.splits)
    next
      case False
      then obtain n d lo hi k1 where scan: "cancellable w (run_identity_scan w (identity_sql column path)) k = (Inr (n, d, lo, hi), k1)"
        "judge_scan column schema source (n, d, lo, hi) = Inr i"
        using assms rq Some na ty by (auto simp: admit_identity_def Let_def bind_polled_Inr)
      have "i = dataset_identity_new source VerifiedAtOpenFullFile (Some n)
          (case hi of Some m \<Rightarrow> if 0 \<le> m \<and> m < 2 ^ 64 then Some (nat m) else None | None \<Rightarrow> None) \<and> d = n \<and>
          pred_option (\<lambda>m. 0 \<le> m) lo"
        using scan(2) by (cases lo) (auto simp: judge_scan_def Let_def split: if_splits)
      then show ?thesis using f na int src cancellable_Inr [OF scan(1)] by (auto simp: dataset_identity_new_def)
    qed
  qed
qed

section \<open>Change detection\<close>

text \<open>A source is taken to be unchanged exactly when it can be described again and no component both descriptions
  established differs; a modification time that was established once must be established again.\<close>

theorem unchanged_means_no_component_differs:
  "check_source_unchanged sha256 io disp ds = Inr () \<longleftrightarrow>
     (\<exists>now. descriptor_of sha256 io disp = Inr now \<and> sd_byte_size now = sd_byte_size (da_descriptor ds) \<and>
        sd_modified_nanos now = sd_modified_nanos (da_descriptor ds) \<and>
        sd_footer_length now = sd_footer_length (da_descriptor ds) \<and>
        (sd_footer_hash now = sd_footer_hash (da_descriptor ds) \<or> sd_footer_hash now = None \<or>
         sd_footer_hash (da_descriptor ds) = None))"
  by (auto simp: check_source_unchanged_def refuse_if_changed_or_unreadable_def refuse_if_changed_def Let_def
      components_differing_from_def differing_components_def observation_def split: sum.splits option.splits if_splits)

text \<open>The metadata of a batch names each key once.\<close>

definition crs_keys :: "string list" where
  "crs_keys = [''frame'', ''crs'', ''crs_source'', ''crs_asserted_by'', ''crs_asserted_at'', ''axis_order'', ''axis_normalization'']"

definition admission_keys :: "string list" where
  "admission_keys = [''crs_provenance'', ''axis_provenance'', ''declared_axis_order'', ''format_rule_reference'',
     ''coordinate_unit'', ''coordinate_unit_source'', ''sanity_level'', ''sanity_reason'']"

definition identity_keys :: "string list" where
  "identity_keys = [''id_source'', ''id_uniqueness'', ''id_verified_rows'', ''id_js_exact'', ''id_declared_by'', ''id_declared_at'']"

definition layout_keys :: "string list" where
  "layout_keys = [''geometry_column'', ''geometry_encoding'', ''coordinate_layout'', ''attribute_columns'']"

lemma metadata_keys:
  "subseq (map fst (crs_metadata c)) crs_keys"
  "subseq (map fst (admission_metadata a)) admission_keys"
  "subseq (map fst (identity_metadata i)) identity_keys"
  by (simp_all add: crs_metadata_def crs_keys_def admission_metadata_def admission_keys_def identity_metadata_def
      identity_keys_def split: option.split id_source.split)

lemma envelope_metadata_distinct: "distinct (map fst (envelope_metadata jl e))"
proof -
  have "subseq (map fst (case be_admission e of Some a \<Rightarrow> admission_metadata a | None \<Rightarrow> [])) admission_keys"
    using metadata_keys(2) by (simp split: option.split)
  then have "subseq (map fst (envelope_metadata jl e)) (crs_keys @ admission_keys @ identity_keys @ layout_keys)"
    unfolding envelope_metadata_def map_append
    by (intro list_emb_append_mono metadata_keys) (simp_all add: layout_keys_def)
  moreover have "distinct (crs_keys @ admission_keys @ identity_keys @ layout_keys)"
    by (simp add: crs_keys_def admission_keys_def identity_keys_def layout_keys_def)
  ultimately show ?thesis by (auto simp: subseq_conv_nths)
qed

end
