(* ===== verification/Style.thy ===== *)
theory Style
  imports Json_Read Filter_Walk Geoarrow
begin

text \<open>
  \<open>renderer/src/style.rs\<close> and \<open>renderer/src/compiled.rs\<close>: the style document, its parser and canonical form, and its
  compilation against a dataset's schema. A colour is three bytes, a number an \<open>f64\<close> bit pattern. \<open>serde_json::from_str\<close>,
  the printing of an \<open>f64\<close> and of a type's name, and SHA-256 are arguments.
\<close>

section \<open>Documents\<close>

definition style_version :: int where "style_version = 1"
definition geometry_polygon :: string where "geometry_polygon = ''polygon''"

text \<open>\<open>64.0\<close> and \<open>1.0\<close>.\<close>

definition max_outline_width :: f64 where "max_outline_width = 0x4050000000000000"
definition f64_one :: f64 where "f64_one = 0x3FF0000000000000"
definition max_match_cases :: nat where "max_match_cases = 64"

definition v0_excluded :: "(string \<times> string) list" where
  "v0_excluded =
     [(''label'', ''labels''), (''labels'', ''labels''), (''text'', ''labels''), (''icon'', ''icons''), (''icons'', ''icons''),
      (''marker'', ''icons''), (''min_zoom'', ''scale-dependent rules''), (''max_zoom'', ''scale-dependent rules''),
      (''zoom'', ''scale-dependent rules''), (''scale'', ''scale-dependent rules''),
      (''expression'', ''an expression language''), (''expr'', ''an expression language''),
      (''filter'', ''an expression language''), (''case'', ''an expression language''),
      (''interpolate'', ''an expression language'')]"

record rgb =
  rgb_r :: byte
  rgb_g :: byte
  rgb_b :: byte

definition rgb_to_hex :: "rgb \<Rightarrow> string" where
  "rgb_to_hex c = ''#'' @ hex_byte (unat (rgb_r c)) @ hex_byte (unat (rgb_g c)) @ hex_byte (unat (rgb_b c))"

definition is_ascii_hexdigit :: "char \<Rightarrow> bool" where
  "is_ascii_hexdigit c \<longleftrightarrow>
     (let n = (of_char c :: nat) in 48 \<le> n \<and> n \<le> 57 \<or> 65 \<le> n \<and> n \<le> 70 \<or> 97 \<le> n \<and> n \<le> 102)"

definition hexdigit_val :: "char \<Rightarrow> nat" where
  "hexdigit_val c = (let n = (of_char c :: nat) in if n \<le> 57 then n - 48 else if n \<le> 70 then n - 55 else n - 87)"

definition byte_at :: "string \<Rightarrow> nat \<Rightarrow> byte" where
  "byte_at hex i = word_of_nat (16 * hexdigit_val (hex ! i) + hexdigit_val (hex ! Suc i))"

definition rgb_parse :: "string \<Rightarrow> rgb option" where
  "rgb_parse s =
     (case strip_prefix s ''#'' of
        None \<Rightarrow> None
      | Some hex \<Rightarrow>
          if length hex \<noteq> 6 \<or> \<not> list_all is_ascii_hexdigit hex then None
          else Some \<lparr>rgb_r = byte_at hex 0, rgb_g = byte_at hex 2, rgb_b = byte_at hex 4\<rparr>)"

record 'a categorical_match =
  cm_column :: string
  cm_cases :: "(string \<times> 'a) list"
  cm_on_null :: 'a
  cm_on_unmatched :: 'a

datatype 'a style_value = StyleLiteral 'a | StyleMatch "'a categorical_match"

definition value_match_column :: "'a style_value \<Rightarrow> string option" where
  "value_match_column v = (case v of StyleLiteral _ \<Rightarrow> None | StyleMatch m \<Rightarrow> Some (cm_column m))"

record style_document =
  st_fill_color :: "rgb style_value"
  st_fill_opacity :: "f64 style_value"
  st_outline_color :: "rgb style_value"
  st_outline_width :: "f64 style_value"

section \<open>Errors\<close>

datatype style_error =
    NotJson string
  | UnsupportedVersion int int
  | MissingKey string string
  | UnknownKey string string "string option"
  | TypeMismatch string string
  | BadColor string string
  | OutOfRange string f64 f64 f64
  | MoreThanOneMatch string string
  | DuplicateCase string string
  | MatchHasNoCases string
  | TooManyCases string nat nat
  | MatchColumnMissing string "string list"
  | MatchColumnTypeInadmissible string string
  | MatchColumnNotPublished string "string list"
  | StyleCanonical canonical_error

text \<open>\<open>Display\<close> of \<open>CanonicalError\<close>; \<open>show_e\<close> prints \<open>{:e}\<close>.\<close>

definition canonical_error_display :: "(f64 \<Rightarrow> string) \<Rightarrow> canonical_error \<Rightarrow> string" where
  "canonical_error_display show_e e =
     (case e of
        NonFinite at \<Rightarrow>
          ''canonical json: the value at '' @ at @ '' is NaN or infinite, which has no canonical '' @
          ''spelling; substituting null would be a silent conversion''
      | OutOfDomain at v \<Rightarrow>
          ''canonical json: '' @ show_e v @ '' at '' @ at @ '' is outside the admissible domain (0, or '' @
          show_e min_abs_double @ '' <= |v| < '' @ show_e max_abs_double @ ''); the declared grammar '' @
          ''writes no exponent and cannot express it''
      | DuplicateKey at key \<Rightarrow>
          ''canonical json: object at '' @ at @ '' has two members named `'' @ key @ ''`''
      | NotRoundTrippable at v \<Rightarrow>
          ''canonical json: no fixed-point decimal round-trips '' @ show_e v @ '' at '' @ at)"

definition style_error_display :: "(f64 \<Rightarrow> string) \<Rightarrow> (f64 \<Rightarrow> string) \<Rightarrow> style_error \<Rightarrow> string" where
  "style_error_display show_f show_e e =
     ''style: '' @
     (case e of
        NotJson detail \<Rightarrow> ''not JSON '' @ em_dash @ '' '' @ detail
      | UnsupportedVersion found supported \<Rightarrow>
          ''`style_version` is '' @ show_int found @ ''; this build implements '' @ show_int supported @
          '' and refuses versions it does not implement rather than reading them best-effort''
      | MissingKey at key \<Rightarrow>
          ''`'' @ key @ ''` is required at '' @ at @ '' and is absent. v0 has no defaults '' @ em_dash @ '' a fallback '' @
          ''nobody declared is a decision nobody can see''
      | UnknownKey at key excluded \<Rightarrow>
          (case excluded of
             Some c \<Rightarrow> ''`'' @ key @ ''` at '' @ at @ '' names '' @ c @ '', which style v0 deliberately does not have. '' @
               ''Refused rather than ignored, so a style is never silently half-applied''
           | None \<Rightarrow> ''`'' @ key @ ''` at '' @ at @ '' is not part of the style v0 schema'')
      | TypeMismatch at expected \<Rightarrow> ''the value at '' @ at @ '' must be '' @ expected
      | BadColor at found \<Rightarrow> ''`'' @ found @ ''` at '' @ at @ '' is not a colour; v0 spells colours `#rrggbb`''
      | OutOfRange at v lo hi \<Rightarrow>
          show_f v @ '' at '' @ at @ '' is outside the admissible range '' @ show_f lo @ ''..='' @ show_f hi
      | MoreThanOneMatch first_at second_at \<Rightarrow>
          ''v0 admits literals plus **one** categorical match; there is one at '' @ first_at @ '' and another at '' @ second_at
      | DuplicateCase at v \<Rightarrow>
          ''`'' @ v @ ''` is declared twice in the cases at '' @ at @ ''; which one wins would be a '' @
          ''precedence rule nobody wrote down''
      | MatchHasNoCases at \<Rightarrow>
          ''the match at '' @ at @ '' declares no cases, so every feature would take a fallback''
      | TooManyCases at cases lim \<Rightarrow>
          ''the match at '' @ at @ '' declares '' @ show_nat cases @ '' cases, above the declared limit of '' @ show_nat lim
      | MatchColumnMissing column available \<Rightarrow>
          ''the match names column `'' @ column @ ''`, which the dataset does not have (it has: '' @
          join_with '', '' available @ '')''
      | MatchColumnTypeInadmissible column found \<Rightarrow>
          ''match column `'' @ column @ ''` is '' @ found @ ''; style v0 matches on text columns only. '' @
          ''Matching on a float would decide equality on a value that rarely compares equal, '' @
          ''and would be wrong in a way nobody sees''
      | MatchColumnNotPublished column published \<Rightarrow>
          ''match column `'' @ column @ ''` is in the dataset but not in the published projection ('' @
          (if published = [] then ''none'' else join_with '', '' published) @
          ''), so the bundle would carry a style the viewer cannot bind''
      | StyleCanonical e \<Rightarrow> canonical_error_display show_e e)"

section \<open>The parser\<close>

definition style_obj :: "json \<Rightarrow> string \<Rightarrow> style_error + (string \<times> json) list" where
  "style_obj v at = ok_or (TypeMismatch at ''an object'') (as_object v)"

definition known_keys :: "(string \<times> json) list \<Rightarrow> string \<Rightarrow> string list \<Rightarrow> style_error + unit" where
  "known_keys m at allowed =
     (case find (\<lambda>k. k \<notin> set allowed) (map fst m) of
        None \<Rightarrow> Inr ()
      | Some key \<Rightarrow> Inl (UnknownKey at key (map_option snd (find (\<lambda>(k, _). name_eq_ci k key) v0_excluded))))"

definition required :: "(string \<times> json) list \<Rightarrow> string \<Rightarrow> string \<Rightarrow> style_error + json" where
  "required m at key = ok_or (MissingKey at key) (map_of m key)"

definition parse_color :: "json \<Rightarrow> string \<Rightarrow> style_error + rgb" where
  "parse_color v at =
     bind_ok (ok_or (TypeMismatch at ''a `#rrggbb` string'') (as_str v)) (\<lambda>s.
       ok_or (BadColor at s) (rgb_parse s))"

definition style_number :: "f64 \<Rightarrow> f64 \<Rightarrow> json \<Rightarrow> string \<Rightarrow> style_error + f64" where
  "style_number lo hi v at =
     bind_ok (ok_or (TypeMismatch at ''a number'') (as_f64 v)) (\<lambda>n.
       if \<not> f64_is_finite n \<or> f64_lt n lo \<or> f64_lt hi n then Inl (OutOfRange at n lo hi) else Inr n)"

fun parse_cases ::
    "(json \<Rightarrow> string \<Rightarrow> style_error + 'a) \<Rightarrow> string \<Rightarrow> nat \<Rightarrow> json list \<Rightarrow> string list \<Rightarrow> style_error + (string \<times> 'a) list" where
  "parse_cases leaf at i [] seen = Inr []"
| "parse_cases leaf at i (c # cs) seen =
     (let c_at = at @ ''.cases['' @ show_nat i @ '']'' in
      bind_ok (style_obj c c_at) (\<lambda>cm.
      bind_ok (known_keys cm c_at [''when'', ''then'']) (\<lambda>_.
      bind_ok (required cm c_at ''when'') (\<lambda>w.
      bind_ok (ok_or (TypeMismatch (c_at @ ''.when'') (''a string '' @ em_dash @ '' style v0 matches on text columns only''))
                 (as_str w)) (\<lambda>wh.
      if wh \<in> set seen then Inl (DuplicateCase at wh)
      else
      bind_ok (required cm c_at ''then'') (\<lambda>t.
      bind_ok (leaf t (c_at @ ''.then'')) (\<lambda>x.
      bind_ok (parse_cases leaf at (Suc i) cs (wh # seen)) (\<lambda>rest'.
        Inr ((wh, x) # rest')))))))))"

definition parse_match :: "(json \<Rightarrow> string \<Rightarrow> style_error + 'a) \<Rightarrow> json \<Rightarrow> string \<Rightarrow> style_error + 'a categorical_match" where
  "parse_match leaf v at =
     bind_ok (style_obj v at) (\<lambda>m.
     bind_ok (known_keys m at [''column'', ''cases'', ''on_null'', ''on_unmatched'']) (\<lambda>_.
     bind_ok (required m at ''column'') (\<lambda>cv.
     bind_ok (ok_or (TypeMismatch (at @ ''.column'') ''a column name string'') (as_str cv)) (\<lambda>column.
     if column = [] then Inl (TypeMismatch (at @ ''.column'') ''a non-empty column name'')
     else
     bind_ok (required m at ''cases'') (\<lambda>cases_v.
     bind_ok (ok_or (TypeMismatch (at @ ''.cases'') ''an array of {when, then} objects'') (as_array cases_v)) (\<lambda>cases.
     if cases = [] then Inl (MatchHasNoCases at)
     else if max_match_cases < length cases then Inl (TooManyCases at (length cases) max_match_cases)
     else
     bind_ok (parse_cases leaf at 0 cases []) (\<lambda>parsed.
     bind_ok (required m at ''on_null'') (\<lambda>n.
     bind_ok (leaf n (at @ ''.on_null'')) (\<lambda>on_null.
     bind_ok (required m at ''on_unmatched'') (\<lambda>u.
     bind_ok (leaf u (at @ ''.on_unmatched'')) (\<lambda>on_unmatched.
       Inr \<lparr>cm_column = column, cm_cases = parsed, cm_on_null = on_null, cm_on_unmatched = on_unmatched\<rparr>)))))))))))"

text \<open>\<open>value\<close>, with the match site threaded through.\<close>

definition parse_value ::
    "(json \<Rightarrow> string \<Rightarrow> style_error + 'a) \<Rightarrow> (string \<times> json) list \<Rightarrow> string \<Rightarrow> string \<Rightarrow> string option
       \<Rightarrow> style_error + 'a style_value \<times> string option" where
  "parse_value leaf layer layer_at key site =
     (let at = layer_at @ ''.'' @ key in
      bind_ok (required layer layer_at key) (\<lambda>v.
      bind_ok (style_obj v at) (\<lambda>m.
      bind_ok (known_keys m at [''literal'', ''match'']) (\<lambda>_.
      case (map_of m ''literal'', map_of m ''match'') of
        (Some _, Some _) \<Rightarrow> Inl (TypeMismatch at ''exactly one of `literal` or `match`, not both'')
      | (Some lit, None) \<Rightarrow> bind_ok (leaf lit (at @ ''.literal'')) (\<lambda>x. Inr (StyleLiteral x, site))
      | (None, Some mt) \<Rightarrow>
          (case site of
             Some first \<Rightarrow> Inl (MoreThanOneMatch first (at @ ''.match''))
           | None \<Rightarrow> bind_ok (parse_match leaf mt (at @ ''.match'')) (\<lambda>x. Inr (StyleMatch x, Some (at @ ''.match''))))
      | (None, None) \<Rightarrow> Inl (MissingKey at ''literal` or `match'')))))"

definition style_of_json :: "json \<Rightarrow> style_error + style_document" where
  "style_of_json root_v =
     bind_ok (style_obj root_v ''$'') (\<lambda>root.
     bind_ok (known_keys root ''$'' [''style_version'', ''layer'']) (\<lambda>_.
     bind_ok (required root ''$'' ''style_version'') (\<lambda>vv.
     bind_ok (ok_or (TypeMismatch ''$.style_version'' ''an integer'') (as_i64 vv)) (\<lambda>version.
     if version \<noteq> style_version then Inl (UnsupportedVersion version style_version)
     else
     bind_ok (required root ''$'' ''layer'') (\<lambda>lv.
     bind_ok (style_obj lv ''$.layer'') (\<lambda>layer.
     bind_ok (known_keys layer ''$.layer''
                [''geometry'', ''fill_color'', ''fill_opacity'', ''outline_color'', ''outline_width'']) (\<lambda>_.
     bind_ok (required layer ''$.layer'' ''geometry'') (\<lambda>gv.
     bind_ok (ok_or (TypeMismatch ''$.layer.geometry'' (''the string '' @ [CHR 0x22] @ ''polygon'' @ [CHR 0x22]))
                (as_str gv)) (\<lambda>geometry.
     if geometry \<noteq> geometry_polygon
     then Inl (TypeMismatch ''$.layer.geometry''
       (''the string '' @ [CHR 0x22] @ ''polygon'' @ [CHR 0x22] @ '' '' @ em_dash @ '' style v0 is polygons only''))
     else
     bind_ok (parse_value parse_color layer ''$.layer'' ''fill_color'' None) (\<lambda>(fill_color, s1).
     bind_ok (parse_value (style_number 0 f64_one) layer ''$.layer'' ''fill_opacity'' s1) (\<lambda>(fill_opacity, s2).
     bind_ok (parse_value parse_color layer ''$.layer'' ''outline_color'' s2) (\<lambda>(outline_color, s3).
     bind_ok (parse_value (style_number 0 max_outline_width) layer ''$.layer'' ''outline_width'' s3) (\<lambda>(outline_width, _).
       Inr \<lparr>st_fill_color = fill_color, st_fill_opacity = fill_opacity, st_outline_color = outline_color,
            st_outline_width = outline_width\<rparr>)))))))))))))"

definition style_parse :: "(string \<Rightarrow> string + json) \<Rightarrow> string \<Rightarrow> style_error + style_document" where
  "style_parse from_str src = bind_ok (map_err NotJson (from_str src)) style_of_json"

section \<open>The document\<close>

definition or_else :: "'a option \<Rightarrow> 'a option \<Rightarrow> 'a option" where
  "or_else x y = (case x of None \<Rightarrow> y | Some _ \<Rightarrow> x)"

definition document_match_column :: "style_document \<Rightarrow> string option" where
  "document_match_column d =
     or_else (or_else (or_else (value_match_column (st_fill_color d)) (value_match_column (st_fill_opacity d)))
       (value_match_column (st_outline_color d))) (value_match_column (st_outline_width d))"

definition values_of :: "'a style_value \<Rightarrow> string list option" where
  "values_of v = (case v of StyleLiteral _ \<Rightarrow> None | StyleMatch m \<Rightarrow> Some (map fst (cm_cases m)))"

definition case_values :: "style_document \<Rightarrow> string list" where
  "case_values d =
     unwrap_or (or_else (or_else (or_else (values_of (st_fill_color d)) (values_of (st_fill_opacity d)))
       (values_of (st_outline_color d))) (values_of (st_outline_width d))) []"

definition color_json :: "rgb \<Rightarrow> json" where
  "color_json c = JStr (rgb_to_hex c)"

definition value_json :: "('a \<Rightarrow> json) \<Rightarrow> 'a style_value \<Rightarrow> json" where
  "value_json leaf v =
     (case v of
        StyleLiteral t \<Rightarrow> JObj [(''literal'', leaf t)]
      | StyleMatch m \<Rightarrow>
          JObj [(''match'', JObj
            [(''column'', JStr (cm_column m)),
             (''cases'', JArr (map (\<lambda>(w, t). JObj [(''when'', JStr w), (''then'', leaf t)]) (cm_cases m))),
             (''on_null'', leaf (cm_on_null m)), (''on_unmatched'', leaf (cm_on_unmatched m))])])"

definition to_canonical_json :: "style_document \<Rightarrow> json" where
  "to_canonical_json d =
     JObj [(''style_version'', JInt style_version),
           (''layer'', JObj
             [(''geometry'', JStr geometry_polygon), (''fill_color'', value_json color_json (st_fill_color d)),
              (''fill_opacity'', value_json JDouble (st_fill_opacity d)),
              (''outline_color'', value_json color_json (st_outline_color d)),
              (''outline_width'', value_json JDouble (st_outline_width d))])]"

definition document_canonical_and_hash :: "(string \<Rightarrow> nat list) \<Rightarrow> style_document \<Rightarrow> style_error + string \<times> string" where
  "document_canonical_and_hash sha256 d = map_err StyleCanonical (canonical_and_hash sha256 (to_canonical_json d))"

section \<open>Compilation\<close>

record draw_parameters =
  dp_fill_color :: rgb
  dp_fill_opacity :: f64
  dp_outline_color :: rgb
  dp_outline_width :: f64

datatype legend_kind = LegendCase string | LegendNull | LegendUnmatched

record legend_entry =
  le_kind :: legend_kind
  le_draw :: draw_parameters

datatype branch = BranchNull | BranchValue string | BranchUnmatched

definition pick :: "'a style_value \<Rightarrow> branch \<Rightarrow> 'a" where
  "pick v b =
     (case v of
        StyleLiteral t \<Rightarrow> t
      | StyleMatch m \<Rightarrow>
          (case b of
             BranchNull \<Rightarrow> cm_on_null m
           | BranchUnmatched \<Rightarrow> cm_on_unmatched m
           | BranchValue s \<Rightarrow>
               unwrap_or (map_option snd (find (\<lambda>(w, _). w = s) (cm_cases m))) (cm_on_unmatched m)))"

definition draw_of :: "style_document \<Rightarrow> branch \<Rightarrow> draw_parameters" where
  "draw_of d b =
     \<lparr>dp_fill_color = pick (st_fill_color d) b, dp_fill_opacity = pick (st_fill_opacity d) b,
      dp_outline_color = pick (st_outline_color d) b, dp_outline_width = pick (st_outline_width d) b\<rparr>"

record compiled_style =
  cs_document :: style_document
  cs_canonical_json :: string
  cs_style_hash :: string
  cs_match_column :: "string option"
  cs_legend :: "legend_entry list"

definition resolve :: "compiled_style \<Rightarrow> string option \<Rightarrow> draw_parameters" where
  "resolve cs key = draw_of (cs_document cs) (case key of None \<Rightarrow> BranchNull | Some v \<Rightarrow> BranchValue v)"

definition style_manifest_json :: "compiled_style \<Rightarrow> string \<Rightarrow> json" where
  "style_manifest_json cs path =
     JObj [(''path'', JStr path), (''content_hash'', JStr (cs_style_hash cs)), (''style_version'', JInt style_version),
           (''match_column'', case cs_match_column cs of Some c \<Rightarrow> JStr c | None \<Rightarrow> JNull)]"

definition admit_match_type :: "(data_type \<Rightarrow> string) \<Rightarrow> string \<Rightarrow> data_type \<Rightarrow> style_error + unit" where
  "admit_match_type show_dt column dt =
     (if dt \<in> {DUtf8, DLargeUtf8, DUtf8View} then Inr () else Inl (MatchColumnTypeInadmissible column (show_dt dt)))"

definition legend_of :: "style_document \<Rightarrow> legend_entry list" where
  "legend_of d =
     map (\<lambda>v. \<lparr>le_kind = LegendCase v, le_draw = draw_of d (BranchValue v)\<rparr>) (case_values d) @
     [\<lparr>le_kind = LegendNull, le_draw = draw_of d BranchNull\<rparr>,
      \<lparr>le_kind = LegendUnmatched, le_draw = draw_of d BranchUnmatched\<rparr>]"

definition style_compile ::
    "(string \<Rightarrow> string + json) \<Rightarrow> (data_type \<Rightarrow> string) \<Rightarrow> (string \<Rightarrow> nat list) \<Rightarrow> string
       \<Rightarrow> (string \<times> data_type) list \<Rightarrow> string list \<Rightarrow> style_error + compiled_style" where
  "style_compile from_str show_dt sha256 src schema published =
     bind_ok (style_parse from_str src) (\<lambda>d.
     bind_ok
       (case document_match_column d of
          None \<Rightarrow> Inr ()
        | Some column \<Rightarrow>
            bind_ok (ok_or (MatchColumnMissing column (map fst schema)) (find (\<lambda>(n, _). n = column) schema)) (\<lambda>(_, dt).
            bind_ok (admit_match_type show_dt column dt) (\<lambda>_.
              if column \<notin> set published then Inl (MatchColumnNotPublished column published) else Inr ()))) (\<lambda>_.
     bind_ok (document_canonical_and_hash sha256 d) (\<lambda>(text, hash).
       Inr \<lparr>cs_document = d, cs_canonical_json = text, cs_style_hash = hash, cs_match_column = document_match_column d,
            cs_legend = (if document_match_column d \<noteq> None then legend_of d else [])\<rparr>)))"

end
