(* ===== verification/Style_Proofs.thy ===== *)
theory Style_Proofs
  imports Style Canonical_Proofs "HOL-Library.Code_Target_Nat"
begin

text \<open>
  What the style code guarantees: a document that parses has at most one match and only values in range, its canonical
  form parses back to it, and the legend of a compiled style lists exactly the ways a feature can be drawn.
\<close>

section \<open>Colours\<close>

lemma hexdigit_hex_char [simp]: "d < 16 \<Longrightarrow> hexdigit_val (hex_char d) = d"
  by (auto simp: hex_char_def hexdigit_val_def Let_def of_char_of)

lemma is_ascii_hexdigit_hex_char [simp]: "d < 16 \<Longrightarrow> is_ascii_hexdigit (hex_char d)"
  by (auto simp: hex_char_def is_ascii_hexdigit_def Let_def of_char_of)

lemma hex_byte_bytes:
  fixes b :: byte
  shows "length (hex_byte (unat b)) = 2" "list_all is_ascii_hexdigit (hex_byte (unat b))"
    "byte_at (hex_byte (unat b) @ s) 0 = b"
proof -
  have lt: "unat b < 256" using unsigned_less [of b] by simp
  then have d: "unat b div 16 < 16" "unat b mod 16 < 16" by simp_all
  show "length (hex_byte (unat b)) = 2" "list_all is_ascii_hexdigit (hex_byte (unat b))"
    using d by (simp_all add: hex_byte_def)
  show "byte_at (hex_byte (unat b) @ s) 0 = b"
    using d by (simp add: hex_byte_def byte_at_def)
qed

lemma byte_at_append: "length p = n \<Longrightarrow> byte_at (p @ s) (n + i) = byte_at s i"
  by (simp add: byte_at_def nth_append)

lemma rgb_roundtrip: "rgb_parse (rgb_to_hex c) = Some c"
proof -
  let ?r = "hex_byte (unat (rgb_r c))" and ?g = "hex_byte (unat (rgb_g c))" and ?b = "hex_byte (unat (rgb_b c))"
  have b0: "byte_at (?r @ ?g @ ?b) 0 = rgb_r c" by (rule hex_byte_bytes(3))
  have b2: "byte_at (?r @ ?g @ ?b) 2 = rgb_g c"
    using byte_at_append [of ?r 2 "?g @ ?b" 0] hex_byte_bytes(1) [of "rgb_r c"] hex_byte_bytes(3) [of "rgb_g c" ?b] by simp
  have b4: "byte_at (?r @ ?g @ ?b) 4 = rgb_b c"
    using byte_at_append [of "?r @ ?g" 4 ?b 0] hex_byte_bytes(1) hex_byte_bytes(3) [of "rgb_b c" "[]"] by simp
  have "strip_prefix (rgb_to_hex c) ''#'' = Some (?r @ ?g @ ?b)" by (simp add: rgb_to_hex_def strip_prefix_Some_iff)
  then show ?thesis using b0 b2 b4 by (simp add: rgb_parse_def hex_byte_bytes)
qed

section \<open>What a parsed document is\<close>

definition is_match :: "'a style_value \<Rightarrow> bool" where
  "is_match v \<longleftrightarrow> value_match_column v \<noteq> None"

definition value_ok :: "('a \<Rightarrow> bool) \<Rightarrow> 'a style_value \<Rightarrow> bool" where
  "value_ok P v =
     (case v of
        StyleLiteral x \<Rightarrow> P x
      | StyleMatch m \<Rightarrow> cm_column m \<noteq> [] \<and> cm_cases m \<noteq> [] \<and> length (cm_cases m) \<le> max_match_cases \<and>
          distinct (map fst (cm_cases m)) \<and> list_all (\<lambda>c. P (snd c)) (cm_cases m) \<and>
          P (cm_on_null m) \<and> P (cm_on_unmatched m))"

definition in_range :: "f64 \<Rightarrow> f64 \<Rightarrow> f64 \<Rightarrow> bool" where
  "in_range lo hi n \<longleftrightarrow> f64_is_finite n \<and> \<not> f64_lt n lo \<and> \<not> f64_lt hi n"

definition style_ok :: "style_document \<Rightarrow> bool" where
  "style_ok d \<longleftrightarrow>
     value_ok (\<lambda>_. True) (st_fill_color d) \<and> value_ok (in_range 0 f64_one) (st_fill_opacity d) \<and>
     value_ok (\<lambda>_. True) (st_outline_color d) \<and> value_ok (in_range 0 max_outline_width) (st_outline_width d) \<and>
     length (filter id [is_match (st_fill_color d), is_match (st_fill_opacity d), is_match (st_outline_color d),
                        is_match (st_outline_width d)]) \<le> 1"

lemma is_match_simps [simp]: "\<not> is_match (StyleLiteral x)" "is_match (StyleMatch m)"
  by (simp_all add: is_match_def value_match_column_def)

lemma style_number_range: "style_number lo hi v at = Inr n \<Longrightarrow> in_range lo hi n"
  by (auto simp: style_number_def in_range_def result_iffs split: if_splits)

lemma parse_cases_ok:
  assumes "\<And>v at x. leaf v at = Inr x \<Longrightarrow> P x"
  shows "parse_cases leaf at i cs seen = Inr ps \<Longrightarrow>
    length ps = length cs \<and> distinct (map fst ps) \<and> set (map fst ps) \<inter> set seen = {} \<and> list_all (\<lambda>c. P (snd c)) ps"
proof (induction cs arbitrary: i seen ps)
  case (Cons c cs)
  obtain wh x rest' where r: "wh \<notin> set seen" "P x" "parse_cases leaf at (Suc i) cs (wh # seen) = Inr rest'"
    "ps = (wh, x) # rest'"
    using Cons.prems assms by (auto simp: Let_def result_iffs split: if_splits)
  show ?case using Cons.IH [OF r(3)] r by auto
qed simp

lemma parse_match_ok:
  assumes P: "\<And>v at x. leaf v at = Inr x \<Longrightarrow> P x" and p: "parse_match leaf v at = Inr m"
  shows "value_ok P (StyleMatch m)"
proof -
  obtain cs n u where r: "cs \<noteq> []" "length cs \<le> max_match_cases" "parse_cases leaf at 0 cs [] = Inr (cm_cases m)"
    "cm_column m \<noteq> []" "leaf n (at @ ''.on_null'') = Inr (cm_on_null m)" "leaf u (at @ ''.on_unmatched'') = Inr (cm_on_unmatched m)"
    using p by (auto simp: parse_match_def result_iffs split: if_splits)
  show ?thesis using parse_cases_ok [where P = P, OF P r(3)] r P [OF r(5)] P [OF r(6)] by (auto simp: value_ok_def)
qed

lemma parse_value_ok:
  assumes P: "\<And>v at x. leaf v at = Inr x \<Longrightarrow> P x" and p: "parse_value leaf layer layer_at key site = Inr (v, site')"
  shows "value_ok P v \<and> (if is_match v then site = None \<and> site' \<noteq> None else site' = site)"
proof -
  have "(\<exists>x j a. leaf j a = Inr x \<and> v = StyleLiteral x \<and> site' = site) \<or>
      (\<exists>m j a. parse_match leaf j a = Inr m \<and> v = StyleMatch m \<and> site = None \<and> site' \<noteq> None)"
    using p by (auto simp: parse_value_def Let_def result_iffs split: option.splits) blast+
  then show ?thesis using P parse_match_ok [where P = P, OF P] by (auto simp: value_ok_def [of _ "StyleLiteral _"])
qed

lemma style_of_json_ok: "style_of_json v = Inr d \<Longrightarrow> style_ok d"
proof -
  assume a: "style_of_json v = Inr d"
  obtain layer a1 s1 a2 s2 a3 s3 a4 s4 where r:
    "parse_value parse_color layer ''$.layer'' ''fill_color'' None = Inr (a1, s1)"
    "parse_value (style_number 0 f64_one) layer ''$.layer'' ''fill_opacity'' s1 = Inr (a2, s2)"
    "parse_value parse_color layer ''$.layer'' ''outline_color'' s2 = Inr (a3, s3)"
    "parse_value (style_number 0 max_outline_width) layer ''$.layer'' ''outline_width'' s3 = Inr (a4, s4)"
    "d = \<lparr>st_fill_color = a1, st_fill_opacity = a2, st_outline_color = a3, st_outline_width = a4\<rparr>"
    using a unfolding style_of_json_def bind_ok_Inr_iff by (auto simp: result_iffs split: if_splits prod.splits)
  have n: "value_ok (in_range lo hi) x \<and> (if is_match x then site = None \<and> site' \<noteq> None else site' = site)"
    if "parse_value (style_number lo hi) m at k site = Inr (x, site')" for lo hi m at k site x site'
    by (rule parse_value_ok [OF _ that]) (rule style_number_range)
  have c: "value_ok (\<lambda>_. True) x \<and> (if is_match x then site = None \<and> site' \<noteq> None else site' = site)"
    if "parse_value parse_color m at k site = Inr (x, site')" for m at k site x site'
    by (rule parse_value_ok [OF _ that]) simp
  show ?thesis using c [OF r(1)] n [OF r(2)] c [OF r(3)] n [OF r(4)] r(5) by (auto simp: style_ok_def split: if_splits)
qed

section \<open>The canonical form\<close>

text \<open>What a parser that rounds no number returns for a document's canonical form.\<close>

primrec exact :: "json \<Rightarrow> json" where
  "exact JNull = JNull"
| "exact (JBool b) = JBool b"
| "exact (JInt i) = read_int i"
| "exact (JUInt n) = JUInt n"
| "exact (JDouble d) = JDouble d"
| "exact (JStr s) = JStr s"
| "exact (JArr vs) = JArr (map exact vs)"
| "exact (JObj ms) = JObj (map (map_prod id exact) ms)"

lemma parse_color_exact: "parse_color (exact (color_json c)) at = Inr c"
  by (simp add: parse_color_def color_json_def as_str_def rgb_roundtrip)

lemma style_number_exact: "in_range lo hi n \<Longrightarrow> style_number lo hi (exact (JDouble n)) at = Inr n"
  by (simp add: style_number_def as_f64_def in_range_def)

lemma parse_cases_exact:
  assumes "\<And>x at. P x \<Longrightarrow> leaf (exact (enc x)) at = Inr x"
  shows "list_all (\<lambda>c. P (snd c)) ps \<Longrightarrow> distinct (map fst ps) \<Longrightarrow> set (map fst ps) \<inter> set seen = {} \<Longrightarrow>
    parse_cases leaf at i (map (exact \<circ> (\<lambda>(w, t). JObj [(''when'', JStr w), (''then'', enc t)])) ps) seen = Inr ps"
  by (induction ps arbitrary: i seen)
     (auto simp: Let_def style_obj_def as_object_def known_keys_def required_def as_str_def assms)

lemma parse_match_exact:
  assumes enc: "\<And>x at. P x \<Longrightarrow> leaf (exact (enc x)) at = Inr x" and ok: "value_ok P (StyleMatch m)"
  shows "parse_match leaf (exact (case value_json enc (StyleMatch m) of JObj ((_, j) # _) \<Rightarrow> j)) at = Inr m"
proof -
  have cs: "parse_cases leaf at 0 (map (exact \<circ> (\<lambda>(w, t). JObj [(''when'', JStr w), (''then'', enc t)])) (cm_cases m)) [] =
      Inr (cm_cases m)"
    by (rule parse_cases_exact [where P = P]) (use enc ok in \<open>auto simp: value_ok_def\<close>)
  show ?thesis
    using ok cs by (simp add: parse_match_def value_json_def style_obj_def as_object_def known_keys_def required_def as_str_def
        as_array_def enc value_ok_def)
qed

lemma parse_value_exact:
  assumes enc: "\<And>x at. P x \<Longrightarrow> leaf (exact (enc x)) at = Inr x" and ok: "value_ok P v"
    and at: "map_of layer key = Some (exact (value_json enc v))" and site: "is_match v \<Longrightarrow> site = None"
  shows "parse_value leaf layer layer_at key site = Inr (v, if is_match v then Some (layer_at @ ''.'' @ key @ ''.match'') else site)"
proof (cases v)
  case (StyleLiteral x)
  then show ?thesis using ok at enc
    by (simp add: parse_value_def Let_def required_def style_obj_def as_object_def known_keys_def value_json_def value_ok_def)
next
  case (StyleMatch m)
  with parse_match_exact [where P = P, OF enc, of m] ok have m: "parse_match leaf (exact (case value_json enc v of JObj ((_, j) # _) \<Rightarrow> j)) a = Inr m" for a
    by simp
  obtain j where j: "value_json enc v = JObj [(''match'', j)]" using StyleMatch by (simp add: value_json_def)
  then show ?thesis using at site m StyleMatch
    by (simp add: parse_value_def Let_def required_def style_obj_def as_object_def known_keys_def)
qed

lemma style_ok_exact:
  assumes "style_ok d"
  shows "style_of_json (exact (to_canonical_json d)) = Inr d"
proof -
  let ?layer = "[(''geometry'', JStr geometry_polygon), (''fill_color'', exact (value_json color_json (st_fill_color d))),
     (''fill_opacity'', exact (value_json JDouble (st_fill_opacity d))),
     (''outline_color'', exact (value_json color_json (st_outline_color d))),
     (''outline_width'', exact (value_json JDouble (st_outline_width d)))]"
  have root: "exact (to_canonical_json d) = JObj [(''style_version'', JUInt 1), (''layer'', JObj ?layer)]"
    by (simp add: to_canonical_json_def style_version_def read_int_def)
  have color: "parse_value parse_color ?layer ''$.layer'' k site = Inr (v, if is_match v then Some (''$.layer'' @ ''.'' @ k @ ''.match'') else site)"
    if "map_of ?layer k = Some (exact (value_json color_json v))" "value_ok (\<lambda>_. True) v" "is_match v \<Longrightarrow> site = None" for k v site
    by (rule parse_value_exact [where P = "\<lambda>_. True", OF _ that(2,1,3)]) (rule parse_color_exact)
  have num: "parse_value (style_number lo hi) ?layer ''$.layer'' k site = Inr (v, if is_match v then Some (''$.layer'' @ ''.'' @ k @ ''.match'') else site)"
    if "map_of ?layer k = Some (exact (value_json JDouble v))" "value_ok (in_range lo hi) v" "is_match v \<Longrightarrow> site = None" for lo hi k v site
    by (rule parse_value_exact [where P = "in_range lo hi", OF _ that(2,1,3)]) (rule style_number_exact)
  note ok = assms [unfolded style_ok_def]
  show ?thesis
    unfolding root style_of_json_def
    using ok color [of "''fill_color''" "st_fill_color d"] num [of "''fill_opacity''" "st_fill_opacity d" 0 f64_one]
      color [of "''outline_color''" "st_outline_color d"] num [of "''outline_width''" "st_outline_width d" 0 max_outline_width]
    by (auto simp: style_obj_def as_object_def known_keys_def required_def as_i64_def style_version_def as_str_def split: if_splits)
qed

text \<open>The canonical form of an accepted style document is accepted, and is the same document: writing a style down and
  reading it back loses nothing, whatever spelling it was first read from.\<close>

theorem style_canonical_form_roundtrip:
  assumes "style_of_json v = Inr d"
  shows "style_of_json (exact (to_canonical_json d)) = Inr d \<and> style_ok d"
  using style_of_json_ok [OF assms] style_ok_exact by blast

section \<open>The legend\<close>

lemma pick_literal: "\<not> is_match v \<Longrightarrow> pick v b = pick v b'"
  by (cases v) (simp_all add: pick_def)

lemma pick_unlisted: "values_of v = Some ws \<Longrightarrow> s \<notin> set ws \<Longrightarrow> pick v (BranchValue s) = pick v BranchUnmatched"
proof (cases v)
  case (StyleMatch m)
  assume "values_of v = Some ws" "s \<notin> set ws"
  then have "find (\<lambda>(w, _). w = s) (cm_cases m) = None"
    using StyleMatch by (force simp: values_of_def find_None_iff)
  then show ?thesis using StyleMatch by (simp add: pick_def)
qed (simp add: pick_def)

lemma or_else_simps [simp]: "or_else None y = y" "or_else (Some x) y = Some x" "or_else x None = x"
  by (simp_all add: or_else_def split: option.splits)

lemma match_values: "is_match v \<longleftrightarrow> values_of v \<noteq> None" "value_match_column v = None \<longleftrightarrow> \<not> is_match v"
  by (cases v; simp add: values_of_def value_match_column_def)+

text \<open>With at most one match, the case values are those of whichever value is a match.\<close>

lemma only_match:
  assumes "style_ok d"
  shows "is_match (st_fill_color d) \<Longrightarrow> values_of (st_fill_color d) = Some (case_values d)"
    "is_match (st_fill_opacity d) \<Longrightarrow> values_of (st_fill_opacity d) = Some (case_values d)"
    "is_match (st_outline_color d) \<Longrightarrow> values_of (st_outline_color d) = Some (case_values d)"
    "is_match (st_outline_width d) \<Longrightarrow> values_of (st_outline_width d) = Some (case_values d)"
  using assms by (auto simp: style_ok_def case_values_def match_values or_else_def unwrap_or_def split: if_splits option.splits)

lemma draw_unlisted:
  assumes "style_ok d" "s \<notin> set (case_values d)"
  shows "draw_of d (BranchValue s) = draw_of d BranchUnmatched"
proof -
  have q: "pick v (BranchValue s) = pick v BranchUnmatched" if "is_match v \<Longrightarrow> values_of v = Some (case_values d)"
    for v :: "f64 style_value"
    using that pick_literal pick_unlisted assms(2) by metis
  have r: "pick v (BranchValue s) = pick v BranchUnmatched" if "is_match v \<Longrightarrow> values_of v = Some (case_values d)"
    for v :: "rgb style_value"
    using that pick_literal pick_unlisted assms(2) by metis
  show ?thesis using only_match [OF assms(1)] by (simp add: draw_of_def q r)
qed

definition legend_kind_of :: "style_document \<Rightarrow> string option \<Rightarrow> legend_kind" where
  "legend_kind_of d key =
     (case key of
        None \<Rightarrow> LegendNull
      | Some s \<Rightarrow> if s \<in> set (case_values d) then LegendCase s else LegendUnmatched)"

lemma legend_of_covers:
  assumes "style_ok d"
  shows "\<exists>e\<in>set (legend_of d). le_kind e = legend_kind_of d key \<and>
    le_draw e = draw_of d (case key of None \<Rightarrow> BranchNull | Some v \<Rightarrow> BranchValue v)"
  using draw_unlisted [OF assms] by (cases key) (auto simp: legend_of_def legend_kind_of_def)

lemma case_values_distinct: "style_ok d \<Longrightarrow> distinct (case_values d)"
  by (auto simp: style_ok_def case_values_def values_of_def value_ok_def or_else_def unwrap_or_def
      split: style_value.splits option.splits)

lemma legend_of_distinct: "style_ok d \<Longrightarrow> distinct (map le_kind (legend_of d))"
  using case_values_distinct [of d] by (auto simp: legend_of_def distinct_map comp_def inj_on_def)

lemma style_compile_facts:
  assumes "style_compile from_str show_dt sha256 src schema published = Inr cs"
  shows "style_ok (cs_document cs)" "cs_match_column cs = document_match_column (cs_document cs)"
    "cs_legend cs = (if cs_match_column cs \<noteq> None then legend_of (cs_document cs) else [])"
    "cs_match_column cs = Some c \<Longrightarrow> c \<in> set published \<and>
       (\<exists>dt. (c, dt) \<in> set schema \<and> dt \<in> {DUtf8, DLargeUtf8, DUtf8View})"
    "document_canonical_and_hash sha256 (cs_document cs) = Inr (cs_canonical_json cs, cs_style_hash cs)"
proof -
  obtain d v where d: "style_parse from_str src = Inr d" "style_of_json v = Inr d"
    using assms by (auto simp: style_compile_def style_parse_def result_iffs)
  have a: "document_canonical_and_hash sha256 d = Inr (cs_canonical_json cs, cs_style_hash cs)" "cs_document cs = d"
    "cs_match_column cs = document_match_column d" "cs_legend cs = (if document_match_column d \<noteq> None then legend_of d else [])"
    using assms d(1) by (auto simp: style_compile_def result_iffs)
  show "style_ok (cs_document cs)" "cs_match_column cs = document_match_column (cs_document cs)"
    "cs_legend cs = (if cs_match_column cs \<noteq> None then legend_of (cs_document cs) else [])"
    "document_canonical_and_hash sha256 (cs_document cs) = Inr (cs_canonical_json cs, cs_style_hash cs)"
    using a style_of_json_ok [OF d(2)] by simp_all
  show "c \<in> set published \<and> (\<exists>dt. (c, dt) \<in> set schema \<and> dt \<in> {DUtf8, DLargeUtf8, DUtf8View})"
    if "cs_match_column cs = Some c"
    using assms d(1) a(3) that
    by (auto simp: style_compile_def result_iffs admit_match_type_def find_Some_iff split: if_splits) (metis nth_mem)+
qed

text \<open>A compiled style binds a text column of the published projection, and its legend is complete and exact: whatever
  the value of a feature's key, present or null, exactly one entry has its kind, and that entry shows how the feature is
  drawn. A style without a match draws every feature alike and has no legend.\<close>

theorem legend_shows_every_drawing:
  assumes "style_compile from_str show_dt sha256 src schema published = Inr cs"
  shows "case cs_match_column cs of
      None \<Rightarrow> cs_legend cs = [] \<and> resolve cs key = resolve cs None
    | Some c \<Rightarrow> c \<in> set published \<and> c \<in> fst ` set schema \<and> distinct (map le_kind (cs_legend cs)) \<and>
        (\<exists>e\<in>set (cs_legend cs). le_kind e = legend_kind_of (cs_document cs) key \<and> le_draw e = resolve cs key)"
proof (cases "cs_match_column cs")
  case None
  then have "\<not> is_match (st_fill_color (cs_document cs))" "\<not> is_match (st_fill_opacity (cs_document cs))"
    "\<not> is_match (st_outline_color (cs_document cs))" "\<not> is_match (st_outline_width (cs_document cs))"
    using style_compile_facts(2) [OF assms] by (auto simp: document_match_column_def or_else_def is_match_def split: option.splits)
  then have same: "draw_of (cs_document cs) b = draw_of (cs_document cs) b'" for b b'
    by (simp add: draw_of_def pick_literal [of _ b b'])
  show ?thesis using None style_compile_facts(3) [OF assms] same by (simp add: resolve_def)
next
  case (Some c)
  note f = style_compile_facts [OF assms]
  have "c \<in> fst ` set schema" using f(4) [OF Some] by force
  then show ?thesis using Some f legend_of_covers [OF f(1), of key] legend_of_distinct [OF f(1)] by (simp add: resolve_def)
qed

section \<open>A style\<close>

definition ex_style :: json where
  "ex_style = JObj
     [(''layer'', JObj
        [(''fill_color'', JObj [(''match'', JObj
            [(''cases'', JArr [JObj [(''then'', JStr ''#A0b0C0''), (''when'', JStr ''forest'')]]), (''column'', JStr ''use''),
             (''on_null'', JStr ''#000000''), (''on_unmatched'', JStr ''#ffffff'')])]),
         (''fill_opacity'', JObj [(''literal'', JDouble 0)]), (''geometry'', JStr ''polygon''),
         (''outline_color'', JObj [(''literal'', JStr ''#102030'')]),
         (''outline_width'', JObj [(''literal'', JDouble 0)])]),
      (''style_version'', JUInt 1)]"

text \<open>The document it is: the canonical text writes \<open>0.0\<close> for both numbers.\<close>

definition ex_doc :: style_document where
  "ex_doc =
     \<lparr>st_fill_color = StyleMatch \<lparr>cm_column = ''use'', cm_cases = [(''forest'', \<lparr>rgb_r = 0xA0, rgb_g = 0xB0, rgb_b = 0xC0\<rparr>)],
        cm_on_null = \<lparr>rgb_r = 0, rgb_g = 0, rgb_b = 0\<rparr>, cm_on_unmatched = \<lparr>rgb_r = 0xFF, rgb_g = 0xFF, rgb_b = 0xFF\<rparr>\<rparr>,
      st_fill_opacity = StyleLiteral 0, st_outline_color = StyleLiteral \<lparr>rgb_r = 0x10, rgb_g = 0x20, rgb_b = 0x30\<rparr>,
      st_outline_width = StyleLiteral 0\<rparr>"

lemma ex_style_parses: "style_of_json ex_style = Inr ex_doc" by code_simp

lemma ex_canonical: "\<exists>s. to_canonical_string (to_canonical_json ex_doc) = Inr s"
  by (simp add: ex_doc_def to_canonical_json_def value_json_def color_json_def to_canonical_string_def
      write_double_zero f64_mag_def)

definition ex_compiled :: "style_error + compiled_style" where
  "ex_compiled = style_compile (\<lambda>_. Inr ex_style) (\<lambda>_. []) (\<lambda>_. [2, 3]) [] [(''use'', DUtf8)] [''use'']"

lemma ex_match_column: "document_match_column ex_doc = Some ''use''" by code_simp

lemma ex_compiled_ok: "\<exists>cs. ex_compiled = Inr cs \<and> cs_match_column cs = Some ''use''"
proof -
  obtain s where s: "to_canonical_string (to_canonical_json ex_doc) = Inr s" using ex_canonical by blast
  then have h: "document_canonical_and_hash (\<lambda>_. [2, 3]) ex_doc = Inr (s, sha256_hex (\<lambda>_. [2, 3]) s)"
    by (simp add: document_canonical_and_hash_def canonical_and_hash_def map_err_def)
  show ?thesis unfolding ex_compiled_def style_compile_def style_parse_def
    by (simp add: map_err_def bind_ok_def ex_style_parses ex_match_column h ok_or_def admit_match_type_def)
qed

theorem legend_shows_every_drawing_witness:
  "\<exists>cs e. ex_compiled = Inr cs \<and> e \<in> set (cs_legend cs) \<and> le_kind e = legend_kind_of (cs_document cs) (Some ''water'') \<and>
     le_draw e = resolve cs (Some ''water'')"
proof -
  obtain cs where cs: "ex_compiled = Inr cs" "cs_match_column cs = Some ''use''" using ex_compiled_ok by blast
  have "case cs_match_column cs of
      None \<Rightarrow> cs_legend cs = [] \<and> resolve cs (Some ''water'') = resolve cs None
    | Some c \<Rightarrow> c \<in> set [''use''] \<and> c \<in> fst ` set [(''use'', DUtf8)] \<and> distinct (map le_kind (cs_legend cs)) \<and>
        (\<exists>e\<in>set (cs_legend cs). le_kind e = legend_kind_of (cs_document cs) (Some ''water'') \<and> le_draw e = resolve cs (Some ''water''))"
    by (rule legend_shows_every_drawing [OF cs(1) [unfolded ex_compiled_def]])
  then show ?thesis using cs(1) unfolding cs(2) option.case by blast
qed

theorem style_canonical_form_roundtrip_witness:
  "style_of_json ex_style = Inr ex_doc \<and> style_of_json (exact (to_canonical_json ex_doc)) = Inr ex_doc"
  using ex_style_parses style_canonical_form_roundtrip [OF ex_style_parses] by blast

end
