(* ===== verification/Spec2Isabelle.thy ===== *)
theory Spec2Isabelle
  imports Grants Wkb_Builders Boundary_Proofs Clock Reader_Proofs Wire Filter_Proofs Rowgroup Data_Plane_Proofs Plane_Server Ticket_Props Stream_Props Dataset_Proofs Style_Proofs
begin

text \<open>
  \<^bold>\<open>The Rust core of the spatial IDE\<close>

  The program opens a GeoParquet file, answers viewport queries over it as a stream of Arrow batches, and
  publishes a static bundle under an explicit permission. This library models the parts of it that decide
  something, and proves what makes each of them correct. It is a shallow embedding: a Rust function is a HOL
  function of the same name, a Rust \<open>struct\<close> a record, an \<open>enum\<close> a datatype.

  \<^bold>\<open>The parts of the program and how they interact\<close>

  \<^enum> The shell calls the commands of \<open>protocol/skp\<close> (open, describe, query, cancel, close). \<open>kernel/src/skp.rs\<close>
    keeps the registries behind them: dataset sessions, opens in flight, stream tickets.
  \<^enum> A query mints a ticket. The client connects to the data plane (\<open>protocol/data-plane\<close>) with it; the server
    admits the connection, redeems the ticket through \<open>kernel/src/lib.rs\<close>, and pumps batches against credit.
  \<^enum> The batches come from \<open>engine/src/stream.rs\<close>: it plans a query over the pool of DuckDB connections with an
    admitted projection (\<open>attributes.rs\<close>), an admitted filter (\<open>predicate.rs\<close>) and a spatial index
    (\<open>index.rs\<close>, \<open>rowgroup.rs\<close>), reads WKB rows into GeoArrow columns (\<open>wkb.rs\<close>, \<open>geoarrow.rs\<close>) and cuts
    them into batches of bounded size.
  \<^enum> Publishing goes through \<open>kernel/src/permission\<close>: a grant, an approval, an audit log written before and
    after; the staged bundle is scanned by \<open>kernel/src/bundle/redaction.rs\<close>, and its documents are written
    by the canonical JSON writer of \<open>renderer/src/canonical.rs\<close>.

  \<^bold>\<open>Conventions\<close>

  \<^item> \<open>Result<T, E>\<close> is the sum \<open>'e + 'a\<close> (\<open>Inl\<close> the error), \<open>Option\<close> is \<open>option\<close>, a panic is an explicit
    value of the result, so a theorem that a function returns says that it does not panic.
  \<^item> A \<open>String\<close> or byte slice is a list of characters, one per UTF-8 byte. Machine integers are words, or natural
    numbers with the bound written out where the code checks it; an \<open>f64\<close> is its 64-bit pattern, and its
    operations are computed on the pattern (theory \<open>Ieee\<close>). A \<open>Duration\<close> or \<open>Instant\<close> is a number of nanoseconds.
  \<^item> A \<open>HashMap\<close> or \<open>BTreeMap\<close> is an association list with distinct keys.
  \<^item> What the sources only call is a parameter: DuckDB's answers, the parsers of serde and the constructors of Arrow,
    the file system, the clock, the environment, random bytes, SHA-256. A cancellation flag that another thread
    may set at any time is a function from the number of the read to the value read.
  \<^item> What runs under one mutex guard is one step; threads interleave between steps in an \<open>inductive\<close> relation.
    Loops are structural recursions. Where a reader descends (the filter walk) the fuel is the height of the
    tree, and a lemma states that it is enough; where a loop depends on an answer that may repeat, the number of
    answers is the bound.

  \<^bold>\<open>The theories\<close>

  Shared: \<open>Prelude\<close> (vocabulary, hints, lists and strings), \<open>Rust_Str\<close> (the operations of \<open>str\<close> and \<open>fmt\<close>),
  \<open>Serde\<close> (\<open>serde_json::Value\<close> and \<open>Result\<close>), \<open>Ieee\<close> (doubles), \<open>Paths\<close> (\<open>std::path\<close>).

  The host and the protocol.
  \<^item> \<open>Skp_Proto\<close>: \<open>protocol/skp/src/v0/codec.rs\<close>, \<open>handles.rs\<close>, \<open>error.rs\<close>. Doubles travel as hexadecimal text,
    exactly.
  \<^item> \<open>Skp_Errors\<close>: \<open>error_of\<close> and its siblings of \<open>kernel/src/skp.rs\<close>; no two engine errors become one on the
    wire, up to the comma-joined list of candidate columns.
  \<^item> \<open>Skp_Registry\<close>, \<open>Skp_Host\<close>, \<open>Skp_Host_Proofs\<close>, \<open>Ticket_Props\<close>: the registries, \<open>SkpHost\<close>'s commands and the
    ticket factory of \<open>kernel/src/lib.rs\<close> as threads over one state. A ticket is redeemed at most once and never
    after its session has ended; the registries keep their ceilings.
  \<^item> \<open>Wire\<close>: \<open>data-plane/src/wire.rs\<close>, \<open>session.rs\<close>, \<open>kernel/src/params.rs\<close>. Frames and parameters read back what was
    written, and redaction never lets the session token through.
  \<^item> \<open>Data_Plane\<close>, \<open>Data_Plane_Proofs\<close>: \<open>transport.rs\<close>, \<open>pump.rs\<close>, \<open>adapter_ws.rs\<close>; order, credit and memory of a
    stream in every interleaving.
  \<^item> \<open>Plane_Server\<close>: \<open>server.rs\<close>; every permit a connection takes comes back, and it sends one terminal frame
    unless the peer is gone.

  The engine.
  \<^item> \<open>Attributes\<close>, \<open>Engine_Error\<close>: \<open>attributes.rs\<close>, \<open>addressability.rs\<close>, \<open>error.rs\<close>; exactly which projections are admitted.
  \<^item> \<open>Filter_Walk\<close>, \<open>Filter_Grammar\<close>, \<open>Filter_Types\<close>, \<open>Filter_Proofs\<close>: \<open>predicate.rs\<close>. The allowlist walk accepts exactly
    a grammar, and the two probes exactly a bare SELECT; what is admitted is bounded, boolean, refers to admitted columns
    and never rounds a comparison.
  \<^item> \<open>Index\<close>, \<open>Index_Proofs\<close>: \<open>index.rs\<close>; the grid answers as a scan over all boxes does. \<open>Rowgroup\<close>: \<open>rowgroup.rs\<close>;
    pruning by row-group statistics loses no row.
  \<^item> \<open>Wkb\<close>, \<open>Wkb_Decode\<close>, \<open>Wkb_Rows\<close>, \<open>Wkb_Builders\<close>: \<open>wkb.rs\<close>; the builders accept exactly the well-formed geometries
    and hold exactly their positions. \<open>Geoarrow\<close>: \<open>geoarrow.rs\<close> and the bounds of \<open>envelope.rs\<close>.
  \<^item> \<open>Pool\<close>: \<open>pool.rs\<close>; the accounts of the pool balance. \<open>Cancel\<close>: \<open>cancel.rs\<close>; a cancel reaches the running query.
  \<^item> \<open>Stream_Query\<close>, \<open>Stream\<close>, \<open>Stream_Cost\<close>, \<open>Stream_Bounds\<close>, \<open>Stream_Proofs\<close>, \<open>Stream_Whole\<close>, \<open>Stream_Props\<close>:
    \<open>stream.rs\<close> and the assembly of a batch. Under the size-only policies the producer refines a function that cuts rows
    into batches, however DuckDB chunks the rows and whatever fails; under every policy batches keep their size, and a
    stream that ends without an error is complete.
  \<^item> \<open>Json_Read\<close> (reading members of a \<open>serde_json::Value\<close>), \<open>Geo_Meta\<close> (\<open>geoparquet.rs\<close>, \<open>crs.rs\<close>), \<open>Source_Identity\<close>
    (\<open>identity.rs\<close>, \<open>descriptor.rs\<close>, \<open>pin.rs\<close>), \<open>Dataset_Open\<close>, \<open>Dataset_Admit\<close>, \<open>Dataset\<close>, \<open>Dataset_Index\<close>,
    \<open>Dataset_Names\<close>, \<open>Dataset_Proofs\<close>: \<open>dataset.rs\<close>. Opening a file: its key-value metadata, the \<open>geo\<close> member, the CRS
    and its axes, the covering and the sanity check, the identity, the content pin and the index builds. The schema's
    rows are read as exactly one tree; opening never indexes a list out of range; an opened dataset has an x-first
    CRS and a provenance that agrees with where the CRS came from.

  Permission and publishing.
  \<^item> \<open>Grants\<close>: \<open>permission/grant.rs\<close>, \<open>error.rs\<close>; which authorizations exist and how long. \<open>Boundary\<close>,
    \<open>Boundary_Proofs\<close>: \<open>approval.rs\<close>, \<open>boundary.rs\<close>; nothing is published without a recorded intent, a live grant and
    an approval.
  \<^item> \<open>Audit_Log\<close>, \<open>Audit_Proofs\<close>: \<open>audit/record.rs\<close>, \<open>log.rs\<close>. \<open>Audit_Reader\<close>, \<open>Reader_Proofs\<close>: \<open>audit/reader.rs\<close>.
    \<open>Clock\<close>: \<open>audit/clock.rs\<close>. \<open>Normalize\<close>: \<open>audit/normalize.rs\<close>.
  \<^item> \<open>Redaction\<close>, \<open>Redaction_Gate\<close>: \<open>bundle/redaction.rs\<close>. \<open>Canonical_Json\<close>, \<open>Canonical_Proofs\<close>:
    \<open>renderer/src/canonical.rs\<close>; the text of a value determines it.
  \<^item> \<open>Style\<close>, \<open>Style_Proofs\<close>: \<open>renderer/src/style.rs\<close>, \<open>compiled.rs\<close>. A style's canonical form reads back as the style,
    and a compiled style's legend lists every way a feature can be drawn.

  \<^bold>\<open>Interfaces\<close>

  The contracts between components are locales, each interpreted on the model's own definitions: the contract of the
  point, line and multiline builders (\<open>row_builder\<close>: a refused row appends nothing), an authority that grants
  (\<open>authority\<close>: what it finds is held, covers and is live), single-use entries (\<open>single_use\<close>: the ticket registry), a
  cache whose hits are validated (\<open>validated_cache\<close>: the spatial and the row-group index), and an axis cut into cells
  (\<open>monotone_axis\<close>). A client's lemmas are proved once inside the locale.

  \<^bold>\<open>Not modelled\<close>

  The derived tiers (\<open>lod.rs\<close>), the layout rewriter (\<open>layout.rs\<close>) and the fixture writer (\<open>fixture.rs\<close>), which are
  DuckDB and Parquet calls in sequence; the CRS catalog, the tracer and the source watcher's adapter; the geometry field
  of the envelope and the IPC writer; the steps of \<open>publish/mod.rs\<close> inside the boundary, the viewer's ceilings and assets
  and the bundle's manifest; the session history and the dataset reference; the shell's Tauri glue and the TypeScript
  front ends; the transport bake-off, spikes, examples and tests. Of the panics of a stream's producer thread only the
  one the source catches, in the fetch, is modelled.
\<close>

end
